(* ===== verification/Prelude.thy ===== *)
theory Prelude
  imports Main "HOL-Library.Word" "HOL-Library.AList"
begin

text \<open>
  Shared vocabulary of the development: the widths of the Rust integers, the saturating and
  checked operations of the standard library, results with an explicit panic outcome, hash maps
  as duplicate-free association lists, and big-endian byte fields.

  Two collections carry the component proofs: \<open>result_iff\<close> turns a successful sequence of
  fallible steps into the facts of its steps, and \<open>sat_simps\<close> holds the bounds of the
  saturating operations.
\<close>

named_theorems result_iff \<open>a sequence of fallible steps that returned\<close>
named_theorems sat_simps \<open>bounds of saturating operations\<close>

section \<open>Machine integers\<close>

type_synonym u8 = "8 word"
type_synonym u16 = "16 word"
type_synonym u32 = "32 word"
type_synonym u64 = "64 word"
type_synonym bytes = "8 word list"

text \<open>
  Counters and clocks that only ever grow by saturating operations are natural numbers; the
  width appears as the bound of the operation.
\<close>

definition u32_max :: nat where "u32_max = 2 ^ 32 - 1"
definition u64_max :: nat where "u64_max = 2 ^ 64 - 1"

definition sat_add :: "nat \<Rightarrow> nat \<Rightarrow> nat \<Rightarrow> nat" where
  "sat_add m a b = min m (a + b)"

abbreviation sat_add32 :: "nat \<Rightarrow> nat \<Rightarrow> nat" where "sat_add32 \<equiv> sat_add u32_max"
abbreviation sat_add64 :: "nat \<Rightarrow> nat \<Rightarrow> nat" where "sat_add64 \<equiv> sat_add u64_max"

definition sat_mul64 :: "nat \<Rightarrow> nat \<Rightarrow> nat" where
  "sat_mul64 a b = min u64_max (a * b)"

definition div_ceil :: "nat \<Rightarrow> nat \<Rightarrow> nat" where
  "div_ceil a b = (if a mod b = 0 then a div b else a div b + 1)"

definition clamp_nat :: "nat \<Rightarrow> nat \<Rightarrow> nat \<Rightarrow> nat" where
  "clamp_nat lo hi x = (if x < lo then lo else if hi < x then hi else x)"

lemma u32_max_eval: "u32_max = 4294967295"
  by (simp add: u32_max_def)

lemma u64_max_eval: "u64_max = 18446744073709551615"
  by (simp add: u64_max_def)

lemma sat_add_le [sat_simps]: "sat_add m a b \<le> m"
  by (simp add: sat_add_def)

lemma sat_add_ge [sat_simps]: "a \<le> m \<Longrightarrow> a \<le> sat_add m a b"
  by (simp add: sat_add_def)

lemma sat_add_exact: "a + b \<le> m \<Longrightarrow> sat_add m a b = a + b"
  by (simp add: sat_add_def)

lemma sat_add_0 [simp]: "a \<le> m \<Longrightarrow> sat_add m a 0 = a"
  by (simp add: sat_add_def)

lemma clamp_nat_bounds: "lo \<le> hi \<Longrightarrow> lo \<le> clamp_nat lo hi x \<and> clamp_nat lo hi x \<le> hi"
  by (simp add: clamp_nat_def)

lemma div_ceil_le_iff: "0 < b \<Longrightarrow> div_ceil a b \<le> n \<longleftrightarrow> a \<le> n * b"
proof -
  assume b: "0 < b"
  have eq: "a = a div b * b + a mod b" by simp
  show ?thesis
  proof (cases "a mod b = 0")
    case True
    with b eq show ?thesis
      by (metis add.right_neutral div_ceil_def mult_le_cancel2 neq0_conv)
  next
    case False
    have "a div b + 1 \<le> n \<longleftrightarrow> a div b < n" by linarith
    also have "\<dots> \<longleftrightarrow> a < n * b" using b by (simp add: div_less_iff_less_mult)
    also have "\<dots> \<longleftrightarrow> a \<le> n * b" using False by (metis le_neq_implies_less less_imp_le mod_mult_self2_is_0)
    finally show ?thesis using False by (simp add: div_ceil_def)
  qed
qed

lemma div_ceil_mult_ge: "0 < b \<Longrightarrow> a \<le> div_ceil a b * b"
  using div_ceil_le_iff [of b a "div_ceil a b"] by simp

lemma div_ceil_pos: "0 < b \<Longrightarrow> 0 < a \<Longrightarrow> 0 < div_ceil a b"
  by (auto simp: div_ceil_def div_greater_zero_iff dest: mod_less)

lemma upt_join: "i \<le> j \<Longrightarrow> j \<le> k \<Longrightarrow> [i ..< j] @ [j ..< k] = [i ..< k]"
  using upt_add_eq_append [of i j "k - j"] by simp

section \<open>Results\<close>

text \<open>
  \<open>Ok\<close> and \<open>Err\<close> are the constructors of Rust's \<open>Result\<close>; \<open>Panic\<close> is a call that does not
  return because the code indexes out of range, unwraps \<open>None\<close> or overflows in a checked build.
\<close>

datatype ('a, 'e) result = Ok 'a | Err 'e | Panic

fun rbind :: "('a, 'e) result \<Rightarrow> ('a \<Rightarrow> ('b, 'e) result) \<Rightarrow> ('b, 'e) result" where
  "rbind (Ok x) f = f x"
| "rbind (Err e) f = Err e"
| "rbind Panic f = Panic"

fun is_ok :: "('a, 'e) result \<Rightarrow> bool" where
  "is_ok (Ok _) = True"
| "is_ok (Err _) = False"
| "is_ok Panic = False"

fun is_err :: "('a, 'e) result \<Rightarrow> bool" where
  "is_err (Ok _) = False"
| "is_err (Err _) = True"
| "is_err Panic = False"

definition ok_or :: "'a option \<Rightarrow> 'e \<Rightarrow> ('a, 'e) result" where
  "ok_or x e = (case x of None \<Rightarrow> Err e | Some v \<Rightarrow> Ok v)"

definition guard_err :: "bool \<Rightarrow> 'e \<Rightarrow> (unit, 'e) result" where
  "guard_err bad e = (if bad then Err e else Ok ())"

lemma rbind_Ok_iff [result_iff]: "rbind m f = Ok y \<longleftrightarrow> (\<exists>x. m = Ok x \<and> f x = Ok y)"
  by (cases m) auto

lemma rbind_Err_iff: "rbind m f = Err e \<longleftrightarrow> m = Err e \<or> (\<exists>x. m = Ok x \<and> f x = Err e)"
  by (cases m) auto

lemma rbind_Panic_iff: "rbind m f = Panic \<longleftrightarrow> m = Panic \<or> (\<exists>x. m = Ok x \<and> f x = Panic)"
  by (cases m) auto

lemma rbind_assoc: "rbind (rbind m f) g = rbind m (\<lambda>x. rbind (f x) g)"
  by (cases m) auto

lemma rbind_Ok_right [simp]: "rbind m Ok = m"
  by (cases m) auto

lemma ok_or_Ok_iff [result_iff]: "ok_or x e = Ok v \<longleftrightarrow> x = Some v"
  by (auto simp: ok_or_def split: option.splits)

lemma ok_or_simps [simp]: "ok_or None e = Err e" "ok_or (Some v) e = Ok v"
  by (simp_all add: ok_or_def)

lemma ok_or_no_panic [simp]: "ok_or x e \<noteq> Panic"
  by (simp add: ok_or_def split: option.splits)

lemma guard_err_Ok_iff [result_iff]: "guard_err b e = Ok u \<longleftrightarrow> \<not> b"
  by (simp add: guard_err_def)

lemma guard_err_simps [simp]: "guard_err True e = Err e" "guard_err False e = Ok ()"
  by (simp_all add: guard_err_def)

lemma guard_err_no_panic [simp]: "guard_err b e \<noteq> Panic"
  by (simp add: guard_err_def)

lemma is_ok_iff: "is_ok r \<longleftrightarrow> (\<exists>x. r = Ok x)"
  by (cases r) auto

text \<open>A fallible step applied to each element in turn, stopping at the first error.\<close>

fun rmap :: "('a \<Rightarrow> ('b, 'e) result) \<Rightarrow> 'a list \<Rightarrow> ('b list, 'e) result" where
  "rmap f [] = Ok []"
| "rmap f (x # xs) = rbind (f x) (\<lambda>y. rbind (rmap f xs) (\<lambda>ys. Ok (y # ys)))"

fun rfold :: "('a \<Rightarrow> 's \<Rightarrow> ('s, 'e) result) \<Rightarrow> 'a list \<Rightarrow> 's \<Rightarrow> ('s, 'e) result" where
  "rfold f [] s = Ok s"
| "rfold f (x # xs) s = rbind (f x s) (rfold f xs)"

lemma rfold_append: "rfold f (xs @ ys) s = rbind (rfold f xs s) (rfold f ys)"
proof (induction xs arbitrary: s)
  case (Cons x xs)
  then show ?case by (cases "f x s") auto
qed simp

lemma rmap_all_ok: "(\<And>x. x \<in> set xs \<Longrightarrow> f x = Ok (g x)) \<Longrightarrow> rmap f xs = Ok (map g xs)"
  by (induction xs) auto

lemma rmap_list_all2:
  "(\<And>x. x \<in> set xs \<Longrightarrow> \<exists>y. f x = Ok y \<and> Q x y) \<Longrightarrow> \<exists>ys. rmap f xs = Ok ys \<and> list_all2 Q xs ys"
  by (induction xs) fastforce+

lemma rmap_length [result_iff]: "rmap f xs = Ok ys \<Longrightarrow> length ys = length xs"
  by (induction xs arbitrary: ys) (auto simp: result_iff)

section \<open>Big-endian fields\<close>

text \<open>
  \<open>put_u16\<close>, \<open>put_u32\<close>, \<open>put_u64\<close> of the \<open>bytes\<close> crate and \<open>to_be_bytes\<close> /
  \<open>from_be_bytes\<close> of the standard library: the most significant byte first.
\<close>

lemma unat_less_len: "unat (w :: 'a::len word) < 2 ^ LENGTH('a)"
  by (rule unsigned_less)

fun be_bytes :: "nat \<Rightarrow> nat \<Rightarrow> bytes" where
  "be_bytes 0 v = []"
| "be_bytes (Suc n) v = be_bytes n (v div 256) @ [of_nat (v mod 256)]"

definition be_val :: "bytes \<Rightarrow> nat" where
  "be_val bs = foldl (\<lambda>acc b. acc * 256 + unat b) 0 bs"

definition u16_be :: "u16 \<Rightarrow> bytes" where "u16_be w = be_bytes 2 (unat w)"
definition u32_be :: "u32 \<Rightarrow> bytes" where "u32_be w = be_bytes 4 (unat w)"
definition u64_be :: "u64 \<Rightarrow> bytes" where "u64_be w = be_bytes 8 (unat w)"

definition be_u16 :: "bytes \<Rightarrow> u16" where "be_u16 bs = of_nat (be_val bs)"
definition be_u32 :: "bytes \<Rightarrow> u32" where "be_u32 bs = of_nat (be_val bs)"
definition be_u64 :: "bytes \<Rightarrow> u64" where "be_u64 bs = of_nat (be_val bs)"

text \<open>Evaluation at a numeral width.\<close>

lemma be_bytes_numeral:
  "be_bytes (numeral k) v = be_bytes (pred_numeral k) (v div 256) @ [of_nat (v mod 256)]"
  by (simp only: numeral_eq_Suc [of k] be_bytes.simps)

lemma length_be_bytes [simp]: "length (be_bytes n v) = n"
  by (induction n arbitrary: v) auto

lemma be_val_Nil [simp]: "be_val [] = 0"
  by (simp add: be_val_def)

lemma be_val_snoc [simp]: "be_val (bs @ [b]) = be_val bs * 256 + unat b"
  by (simp add: be_val_def)

lemma be_val_be_bytes: "be_val (be_bytes n v) = v mod 256 ^ n"
proof (induction n arbitrary: v)
  case (Suc n)
  have "unat (of_nat (v mod 256) :: u8) = v mod 256"
    by (simp add: unat_of_nat)
  then have "be_val (be_bytes (Suc n) v) = (v div 256) mod 256 ^ n * 256 + v mod 256"
    by (simp add: Suc.IH)
  also have "\<dots> = v mod (256 * 256 ^ n)"
    by (simp add: mod_mult2_eq mult.commute)
  finally show ?case by simp
qed simp

lemma be_val_less: "be_val bs < 256 ^ length bs"
proof (induction bs rule: rev_induct)
  case (snoc b bs)
  have b: "unat b < 256" using unat_less_len [of b] by simp
  have "be_val bs * 256 + 256 \<le> 256 ^ length bs * 256"
    using snoc by (metis Suc_leI add.commute mult_Suc mult_le_mono1)
  with b show ?case by simp
qed simp

lemma be_bytes_be_val: "be_bytes (length bs) (be_val bs) = bs"
proof (induction bs rule: rev_induct)
  case (snoc b bs)
  have b: "unat b < 256" using unat_less_len [of b] by simp
  then show ?case using snoc by (simp add: unat_of_nat)
qed simp

lemma length_u16_be [simp]: "length (u16_be w) = 2" by (simp add: u16_be_def)
lemma length_u32_be [simp]: "length (u32_be w) = 4" by (simp add: u32_be_def)
lemma length_u64_be [simp]: "length (u64_be w) = 8" by (simp add: u64_be_def)

lemma be_u16_u16_be [simp]: "be_u16 (u16_be w) = w"
  using unat_less_len [of w] by (simp add: be_u16_def u16_be_def be_val_be_bytes)

lemma be_u32_u32_be [simp]: "be_u32 (u32_be w) = w"
  using unat_less_len [of w] by (simp add: be_u32_def u32_be_def be_val_be_bytes)

lemma be_u64_u64_be [simp]: "be_u64 (u64_be w) = w"
  using unat_less_len [of w] by (simp add: be_u64_def u64_be_def be_val_be_bytes)

lemma unat_be_u16: "length bs = 2 \<Longrightarrow> unat (be_u16 bs) = be_val bs"
  using be_val_less [of bs] by (simp add: be_u16_def unat_of_nat)

lemma unat_be_u32: "length bs = 4 \<Longrightarrow> unat (be_u32 bs) = be_val bs"
  using be_val_less [of bs] by (simp add: be_u32_def unat_of_nat)

lemma unat_be_u64: "length bs = 8 \<Longrightarrow> unat (be_u64 bs) = be_val bs"
  using be_val_less [of bs] by (simp add: be_u64_def unat_of_nat)

lemma u16_be_be_u16 [simp]: "length bs = 2 \<Longrightarrow> u16_be (be_u16 bs) = bs"
  using be_bytes_be_val [of bs] by (simp add: u16_be_def unat_be_u16)

lemma u32_be_be_u32 [simp]: "length bs = 4 \<Longrightarrow> u32_be (be_u32 bs) = bs"
  using be_bytes_be_val [of bs] by (simp add: u32_be_def unat_be_u32)

lemma u64_be_be_u64 [simp]: "length bs = 8 \<Longrightarrow> u64_be (be_u64 bs) = bs"
  using be_bytes_be_val [of bs] by (simp add: u64_be_def unat_be_u64)

section \<open>Hash maps\<close>

text \<open>
  A \<open>HashMap\<close> is an association list without duplicate keys (\<open>hm_ok\<close>); its length is the
  number of entries. The laws a client may use are those of the locale \<open>hash_map\<close>: what a
  lookup returns after an insertion or a removal, and what both keep of the invariant and the size.
\<close>

locale hash_map =
  fixes get :: "'m \<Rightarrow> 'k \<Rightarrow> 'v option"
    and put :: "'k \<Rightarrow> 'v \<Rightarrow> 'm \<Rightarrow> 'm"
    and del :: "'k \<Rightarrow> 'm \<Rightarrow> 'm"
    and len :: "'m \<Rightarrow> nat"
    and ok :: "'m \<Rightarrow> bool"
  assumes get_put: "get (put k v m) k' = (if k' = k then Some v else get m k')"
    and get_del: "get (del k m) k' = (if k' = k then None else get m k')"
    and ok_put: "ok m \<Longrightarrow> ok (put k v m)"
    and ok_del: "ok m \<Longrightarrow> ok (del k m)"
    and len_put: "len (put k v m) = (if get m k = None then len m + 1 else len m)"
    and len_del: "ok m \<Longrightarrow> len (del k m) = (if get m k = None then len m else len m - 1)"
    and len_pos: "get m k = Some v \<Longrightarrow> 0 < len m"
begin

lemma put_within: "get m k \<noteq> None \<or> len m < cap \<Longrightarrow> len m \<le> cap \<Longrightarrow> len (put k v m) \<le> cap"
  by (auto simp: len_put)

lemma evict_put_within:
  assumes "ok m" "len m \<le> cap" "get m old = Some w"
  shows "len (put k v (del old m)) \<le> cap"
  using assms len_pos [of m old w] by (auto simp: len_put len_del)

lemma get_put_other: "k' \<noteq> k \<Longrightarrow> get (put k v m) k' = get m k'"
  by (simp add: get_put)

lemma get_del_other: "k' \<noteq> k \<Longrightarrow> get (del k m) k' = get m k'"
  by (simp add: get_del)

end

definition hm_ok :: "('k \<times> 'v) list \<Rightarrow> bool" where
  "hm_ok m \<longleftrightarrow> distinct (map fst m)"

lemma length_update: "length (AList.update k v m) = (if map_of m k = None then length m + 1 else length m)"
  by (induction m) auto

lemma set_alist_update: "set (AList.update k v m) \<subseteq> insert (k, v) (set m)"
  by (induction m) auto

lemma set_alist_delete: "set (AList.delete k m) \<subseteq> set m"
  by (induction m) auto

lemma length_delete:
  "distinct (map fst m) \<Longrightarrow> length (AList.delete k m) = (if map_of m k = None then length m else length m - 1)"
proof (induction m)
  case (Cons p m)
  obtain a b where p: "p = (a, b)" by force
  show ?case
  proof (cases "a = k")
    case True
    with Cons.prems p have "k \<notin> fst ` set m" by auto
    with p True show ?thesis by simp
  next
    case False
    then show ?thesis
      using Cons p by (cases "map_of m k") (auto simp: Suc_diff_Suc dest: map_of_SomeD length_pos_if_in_set)
  qed
qed simp

interpretation hm: hash_map map_of AList.update AList.delete length hm_ok
  by unfold_locales
    (auto simp: update_conv' delete_conv' hm_ok_def distinct_update distinct_delete length_update
      length_delete split: if_splits)

section \<open>Minima and maxima of iterators\<close>

text \<open>\<open>Iterator::min\<close>, \<open>Iterator::max\<close> and \<open>Iterator::min_by_key\<close>.\<close>

fun min_opt :: "nat list \<Rightarrow> nat option" where
  "min_opt [] = None"
| "min_opt (x # xs) = (case min_opt xs of None \<Rightarrow> Some x | Some y \<Rightarrow> Some (min x y))"

fun max_opt :: "nat list \<Rightarrow> nat option" where
  "max_opt [] = None"
| "max_opt (x # xs) = (case max_opt xs of None \<Rightarrow> Some x | Some y \<Rightarrow> Some (max x y))"

fun min_by :: "('a \<Rightarrow> nat) \<Rightarrow> 'a list \<Rightarrow> 'a option" where
  "min_by f [] = None"
| "min_by f (x # xs) =
     (case min_by f xs of None \<Rightarrow> Some x | Some y \<Rightarrow> if f y < f x then Some y else Some x)"

lemma min_opt_None_iff [simp]: "min_opt xs = None \<longleftrightarrow> xs = []"
  by (cases xs) (auto split: option.splits)

lemma max_opt_None_iff [simp]: "max_opt xs = None \<longleftrightarrow> xs = []"
  by (cases xs) (auto split: option.splits)

lemma min_by_None_iff [simp]: "min_by f xs = None \<longleftrightarrow> xs = []"
  by (cases xs) (auto split: option.splits)

lemma min_opt_Some: "min_opt xs = Some m \<Longrightarrow> m \<in> set xs \<and> (\<forall>x \<in> set xs. m \<le> x)"
proof (induction xs arbitrary: m)
  case (Cons x xs)
  then show ?case
    by (cases "min_opt xs") (auto simp: min_def split: if_splits)
qed simp

lemma max_opt_Some: "max_opt xs = Some m \<Longrightarrow> m \<in> set xs \<and> (\<forall>x \<in> set xs. x \<le> m)"
proof (induction xs arbitrary: m)
  case (Cons x xs)
  then show ?case
    by (cases "max_opt xs") (auto simp: max_def split: if_splits)
qed simp

lemma min_by_Some: "min_by f xs = Some m \<Longrightarrow> m \<in> set xs \<and> (\<forall>x \<in> set xs. f m \<le> f x)"
proof (induction xs arbitrary: m)
  case (Cons x xs)
  then show ?case
    by (cases "min_by f xs") (force split: if_splits)+
qed simp

end
