(* ===== verification/Prefix_Codes.thy ===== *)
theory Prefix_Codes
  imports Prelude
begin

text \<open>
  The interface of self-delimiting byte codes. Three parts of the program write values so that a
  reader finds the end of each one: control frames on the QUIC stream, length-prefixed NAL units,
  and the fields of the pairing transcript. What each of them promises is \<open>dec_enc\<close>: reading what
  was written, with anything after it, returns the value and the rest. Unique readability of a
  sequence follows here once.
\<close>

locale prefix_code =
  fixes enc :: "'a \<Rightarrow> bytes"
    and dec :: "bytes \<Rightarrow> ('a \<times> bytes) option"
    and valid :: "'a \<Rightarrow> bool"
  assumes dec_enc: "valid x \<Longrightarrow> dec (enc x @ rest) = Some (x, rest)"
    and enc_nonempty: "valid x \<Longrightarrow> enc x \<noteq> []"
begin

lemma enc_append_inj:
  assumes "valid x" "valid y" "enc x @ r = enc y @ r'"
  shows "x = y \<and> r = r'"
proof -
  have "Some (x, r) = dec (enc x @ r)" by (simp only: dec_enc [OF assms(1)])
  also have "\<dots> = dec (enc y @ r')" by (simp only: assms(3))
  also have "\<dots> = Some (y, r')" by (simp only: dec_enc [OF assms(2)])
  finally show ?thesis by simp
qed

lemma fields_inj:
  assumes "length xs = length ys" "\<forall>x \<in> set xs. valid x" "\<forall>y \<in> set ys. valid y"
    and "concat (map enc xs) @ r = concat (map enc ys) @ r'"
  shows "xs = ys \<and> r = r'"
  using assms
proof (induction xs ys rule: list_induct2)
  case (Cons x xs y ys)
  have v: "valid x" "valid y" using Cons.prems by simp_all
  have "enc x @ (concat (map enc xs) @ r) = enc y @ (concat (map enc ys) @ r')"
    using Cons.prems(3) by simp
  from enc_append_inj [OF v this] have "x = y" "concat (map enc xs) @ r = concat (map enc ys) @ r'"
    by blast+
  with Cons.IH Cons.prems show ?case by simp
qed simp

lemma sequence_nonempty:
  assumes "\<forall>x \<in> set xs. valid x" "concat (map enc xs) = []"
  shows "xs = []"
proof (cases xs)
  case (Cons x zs)
  then have "valid x" using assms(1) by simp
  then have "enc x \<noteq> []" by (rule enc_nonempty)
  moreover have "enc x = []" using assms(2) Cons by (simp only: list.map concat.simps append_is_Nil_conv)
  ultimately show ?thesis by (rule notE)
qed

lemma sequence_inj:
  assumes "\<forall>x \<in> set xs. valid x" "\<forall>y \<in> set ys. valid y"
    and "concat (map enc xs) = concat (map enc ys)"
  shows "xs = ys"
  using assms
proof (induction xs arbitrary: ys)
  case Nil
  have "concat (map enc ys) = []" by (simp only: Nil.prems(3) [symmetric] list.map concat.simps)
  then have "ys = []" by (rule sequence_nonempty [OF Nil.prems(2)])
  then show ?case by (rule sym)
next
  case (Cons x xs)
  show ?case
  proof (cases ys)
    case Nil
    then have "x # xs = []"
      using Cons.prems(3) by (intro sequence_nonempty [OF Cons.prems(1)]) (simp only: list.map concat.simps)
    then show ?thesis by simp
  next
    fix y zs assume ys: "ys = y # zs"
    have v: "valid x" "valid y" "\<forall>z \<in> set xs. valid z" "\<forall>z \<in> set zs. valid z"
      using Cons.prems(1,2) ys by simp_all
    have "enc x @ concat (map enc xs) = enc y @ concat (map enc zs)"
      using Cons.prems(3) unfolding ys by (simp only: list.map concat.simps)
    from enc_append_inj [OF v(1,2) this] have "x = y" "concat (map enc xs) = concat (map enc zs)"
      by blast+
    with Cons.IH [OF v(3,4)] ys show ?thesis by simp
  qed
qed

end

text \<open>
  The layout all three share: an \<open>n\<close>-byte big-endian length, then that many bytes.
\<close>

definition len_prefixed :: "nat \<Rightarrow> bytes \<Rightarrow> bytes" where
  "len_prefixed n bs = be_bytes n (length bs) @ bs"

definition take_len_prefixed :: "nat \<Rightarrow> bytes \<Rightarrow> (bytes \<times> bytes) option" where
  "take_len_prefixed n bs =
     (if length bs < n then None
      else let k = be_val (take n bs)
           in if length bs < n + k then None else Some (take k (drop n bs), drop (n + k) bs))"

lemma take_len_prefixed_append:
  "length bs < 256 ^ n \<Longrightarrow> take_len_prefixed n (len_prefixed n bs @ rest) = Some (bs, rest)"
  by (simp add: take_len_prefixed_def len_prefixed_def be_val_be_bytes)

interpretation len_code: prefix_code "len_prefixed (Suc n)" "take_len_prefixed (Suc n)"
  "\<lambda>bs. length bs < 256 ^ Suc n" for n
  by unfold_locales (rule take_len_prefixed_append, assumption, simp add: len_prefixed_def)

end
