(* ===== verification/Control_Framing.thy ===== *)
theory Control_Framing
  imports Prefix_Codes
begin

text \<open>
  Length-prefixed framing of the control stream: \<open>crates/picoo-transport/src/control_framing.rs\<close>.
  A frame is a 32-bit big-endian length and that many bytes; the decoder keeps the bytes of the
  frame it has not seen the end of.
\<close>

definition MAX_CONTROL_MESSAGE_SIZE :: nat where "MAX_CONTROL_MESSAGE_SIZE = 64 * 1024"

datatype control_framing_error = MessageTooLarge

record control_frame_decoder = cfd_buffer :: bytes

definition cfd_default :: control_frame_decoder where
  "cfd_default = \<lparr> cfd_buffer = [] \<rparr>"

definition cfd_push :: "control_frame_decoder \<Rightarrow> bytes \<Rightarrow> control_frame_decoder" where
  "cfd_push d chunk = (if chunk = [] then d else d\<lparr> cfd_buffer := cfd_buffer d @ chunk \<rparr>)"

text \<open>
  The loop of \<open>drain_messages\<close>. On an oversized length it returns the error and keeps what is left
  of the buffer, losing the messages it had already taken out.
\<close>

function drain_loop ::
  "bytes list \<Rightarrow> bytes \<Rightarrow> (bytes list, control_framing_error) result \<times> bytes" where
  "drain_loop out buf =
     (if length buf < 4 then (Ok out, buf)
      else if be_val (take 4 buf) > MAX_CONTROL_MESSAGE_SIZE then (Err MessageTooLarge, buf)
      else if length buf < 4 + be_val (take 4 buf) then (Ok out, buf)
      else drain_loop (out @ [take (be_val (take 4 buf)) (drop 4 buf)])
             (drop (4 + be_val (take 4 buf)) buf))"
  by pat_completeness auto
termination
  by (relation "measure (\<lambda>(out, buf). length buf)") auto

declare drain_loop.simps [simp del]

definition drain_messages ::
  "control_frame_decoder \<Rightarrow> (bytes list, control_framing_error) result \<times> control_frame_decoder" where
  "drain_messages d =
     (case drain_loop [] (cfd_buffer d) of (r, buf) \<Rightarrow> (r, d\<lparr> cfd_buffer := buf \<rparr>))"

definition encode_control_frame :: "bytes \<Rightarrow> (bytes, control_framing_error) result" where
  "encode_control_frame msg =
     (if length msg > u32_max then Err MessageTooLarge
      else if length msg > MAX_CONTROL_MESSAGE_SIZE then Err MessageTooLarge
      else Ok (u32_be (of_nat (length msg)) @ msg))"

text \<open>
  How the transport uses the decoder: push each chunk as it arrives, drain after each one, stop at
  the first error.
\<close>

fun feed_chunks ::
  "control_frame_decoder \<Rightarrow> bytes list \<Rightarrow> (bytes list, control_framing_error) result \<times> control_frame_decoder" where
  "feed_chunks d [] = (Ok [], d)"
| "feed_chunks d (c # cs) =
     (case drain_messages (cfd_push d c) of
        (Ok ms, d') \<Rightarrow> (case feed_chunks d' cs of (r, d'') \<Rightarrow> (rbind r (\<lambda>ms'. Ok (ms @ ms')), d''))
      | (r, d') \<Rightarrow> (r, d'))"

section \<open>Lemmas\<close>

lemma be_val_length_prefix: "length msg \<le> MAX_CONTROL_MESSAGE_SIZE \<Longrightarrow>
    u32_be (of_nat (length msg)) = be_bytes 4 (length msg)"
  by (simp add: u32_be_def unat_of_nat MAX_CONTROL_MESSAGE_SIZE_def)

lemma encode_control_frame_Ok_iff:
  "encode_control_frame msg = Ok bs \<longleftrightarrow>
     length msg \<le> MAX_CONTROL_MESSAGE_SIZE \<and> bs = len_prefixed 4 msg"
  by (auto simp: encode_control_frame_def len_prefixed_def be_val_length_prefix u32_max_eval
      MAX_CONTROL_MESSAGE_SIZE_def)

text \<open>One round of the loop, by the three ways it can go.\<close>

lemma drain_loop_stop:
  "length buf < 4 \<Longrightarrow> drain_loop out buf = (Ok out, buf)"
  "4 \<le> length buf \<Longrightarrow> MAX_CONTROL_MESSAGE_SIZE < be_val (take 4 buf) \<Longrightarrow>
     drain_loop out buf = (Err MessageTooLarge, buf)"
  "4 \<le> length buf \<Longrightarrow> be_val (take 4 buf) \<le> MAX_CONTROL_MESSAGE_SIZE \<Longrightarrow>
     length buf < 4 + be_val (take 4 buf) \<Longrightarrow> drain_loop out buf = (Ok out, buf)"
  by (simp_all add: drain_loop.simps [of out buf])

lemma drain_loop_step:
  "be_val (take 4 buf) \<le> MAX_CONTROL_MESSAGE_SIZE \<Longrightarrow> 4 + be_val (take 4 buf) \<le> length buf \<Longrightarrow>
     drain_loop out buf =
       drain_loop (out @ [take (be_val (take 4 buf)) (drop 4 buf)]) (drop (4 + be_val (take 4 buf)) buf)"
  by (simp add: drain_loop.simps [of out buf])

lemma drain_loop_out:
  "drain_loop out buf = (rbind (fst (drain_loop [] buf)) (\<lambda>ms. Ok (out @ ms)), snd (drain_loop [] buf))"
proof (induction "length buf" arbitrary: out buf rule: less_induct)
  case less
  let ?k = "be_val (take 4 buf)"
  let ?b = "drop (4 + ?k) buf" and ?m = "take ?k (drop 4 buf)"
  show ?case
  proof (cases "?k \<le> MAX_CONTROL_MESSAGE_SIZE \<and> 4 + ?k \<le> length buf")
    case True
    then have "length ?b < length buf" by auto
    note IH = less [OF this]
    show ?thesis
      using True IH [of "out @ [?m]"] IH [of "[?m]"]
      by (cases "fst (drain_loop [] ?b)") (simp_all add: drain_loop_step)
  next
    case False
    then show ?thesis
      by (cases "length buf < 4"; cases "?k \<le> MAX_CONTROL_MESSAGE_SIZE")
        (simp_all add: drain_loop_stop)
  qed
qed

text \<open>Draining what is left together with what arrives next continues where it stopped.\<close>

lemma drain_loop_append:
  assumes "drain_loop out a = (Ok ms, rest)"
  shows "drain_loop out (a @ b) = drain_loop ms (rest @ b)"
  using assms
proof (induction out a rule: drain_loop.induct)
  case (1 out a)
  let ?k = "be_val (take 4 a)"
  show ?case
  proof (cases "?k \<le> MAX_CONTROL_MESSAGE_SIZE \<and> 4 + ?k \<le> length a")
    case True
    then have k: "take 4 (a @ b) = take 4 a" by simp
    have "drain_loop (out @ [take ?k (drop 4 a)]) (drop (4 + ?k) a) = (Ok ms, rest)"
      using "1.prems" True by (simp add: drain_loop_step)
    then have "drain_loop (out @ [take ?k (drop 4 a)]) (drop (4 + ?k) a @ b) = drain_loop ms (rest @ b)"
      using "1.IH" True by simp
    with True k show ?thesis
      by (simp add: drain_loop_step [of "a @ b"])
  next
    case False
    then have "ms = out" "rest = a"
      using "1.prems" by (cases "length a < 4"; cases "?k \<le> MAX_CONTROL_MESSAGE_SIZE";
        simp add: drain_loop_stop)+
    then show ?thesis by simp
  qed
qed

text \<open>If the whole drains without error, so does every prefix.\<close>

lemma drain_loop_prefix_ok:
  assumes "fst (drain_loop out (a @ b)) = Ok ms"
  shows "\<exists>ms' rest. drain_loop out a = (Ok ms', rest)"
  using assms
proof (induction out a rule: drain_loop.induct)
  case (1 out a)
  let ?k = "be_val (take 4 a)"
  show ?case
  proof (cases "length a < 4")
    case True
    then show ?thesis by (simp add: drain_loop_stop)
  next
    case False
    then have k: "take 4 (a @ b) = take 4 a" by simp
    have small: "?k \<le> MAX_CONTROL_MESSAGE_SIZE"
      using "1.prems" False k by (cases "?k \<le> MAX_CONTROL_MESSAGE_SIZE") (simp_all add: drain_loop_stop)
    show ?thesis
    proof (cases "4 + ?k \<le> length a")
      case True
      with small k "1.prems"
      have "fst (drain_loop (out @ [take ?k (drop 4 a)]) (drop (4 + ?k) a @ b)) = Ok ms"
        by (simp add: drain_loop_step [of "a @ b"])
      then show ?thesis
        using "1.IH" small True False by (simp add: drain_loop_step)
    next
      case False
      with small \<open>\<not> length a < 4\<close> show ?thesis by (simp add: drain_loop_stop)
    qed
  qed
qed

lemma drain_loop_frames:
  assumes "\<forall>m \<in> set msgs. length m \<le> MAX_CONTROL_MESSAGE_SIZE"
  shows "drain_loop out (concat (map (len_prefixed 4) msgs)) = (Ok (out @ msgs), [])"
  using assms
proof (induction msgs arbitrary: out)
  case Nil
  show ?case by (simp add: drain_loop_stop)
next
  case (Cons m msgs)
  let ?rest = "concat (map (len_prefixed 4) msgs)"
  have m: "length m \<le> MAX_CONTROL_MESSAGE_SIZE" using Cons.prems by simp
  then have k: "be_val (take 4 (len_prefixed 4 m @ ?rest)) = length m"
    by (simp add: len_prefixed_def be_val_be_bytes MAX_CONTROL_MESSAGE_SIZE_def)
  have "drain_loop out (len_prefixed 4 m @ ?rest) = drain_loop (out @ [m]) ?rest"
    using m k by (subst drain_loop_step) (simp_all, simp_all add: len_prefixed_def)
  with Cons show ?case by simp
qed

lemma feed_chunks_concat:
  assumes "drain_loop [] (cfd_buffer d) = (Ok [], cfd_buffer d)"
    and "drain_loop [] (cfd_buffer d @ concat chunks) = (Ok ms, rest)"
  shows "feed_chunks d chunks = (Ok ms, \<lparr> cfd_buffer = rest \<rparr>)"
  using assms
proof (induction chunks arbitrary: d ms)
  case Nil
  then show ?case by simp
next
  case (Cons c cs)
  let ?a = "cfd_buffer d @ c"
  have drain: "drain_messages (cfd_push d c) =
      (fst (drain_loop [] ?a), \<lparr> cfd_buffer = snd (drain_loop [] ?a) \<rparr>)"
    by (simp add: drain_messages_def cfd_push_def split: prod.splits)
  have "fst (drain_loop [] (?a @ concat cs)) = Ok ms" using Cons.prems(2) by simp
  from drain_loop_prefix_ok [OF this] obtain ms1 r1 where r1: "drain_loop [] ?a = (Ok ms1, r1)"
    by blast
  have "drain_loop ms1 r1 = drain_loop [] (?a @ [])"
    using drain_loop_append [OF r1, of "[]"] by simp
  then have stuck: "drain_loop [] r1 = (Ok [], r1)"
    using r1 drain_loop_out [of ms1 r1] by (cases "fst (drain_loop [] r1)") (auto simp: prod_eq_iff)
  have "drain_loop ms1 (r1 @ concat cs) = (Ok ms, rest)"
    using drain_loop_append [OF r1, of "concat cs"] Cons.prems(2) by simp
  then obtain ms2 where ms2: "drain_loop [] (r1 @ concat cs) = (Ok ms2, rest)" "ms = ms1 @ ms2"
    using drain_loop_out [of ms1 "r1 @ concat cs"]
    by (cases "fst (drain_loop [] (r1 @ concat cs))") (auto simp: prod_eq_iff)
  have "feed_chunks \<lparr> cfd_buffer = r1 \<rparr> cs = (Ok ms2, \<lparr> cfd_buffer = rest \<rparr>)"
    by (rule Cons.IH) (simp_all add: stuck ms2)
  with ms2 show ?case by (simp add: drain r1)
qed

section \<open>Properties\<close>

text \<open>C17: however the transport cuts the stream into chunks, even inside a length prefix, feeding
  the decoder returns exactly the messages that were framed, in order, and leaves nothing behind.\<close>

theorem framed_stream_roundtrip:
  assumes "\<forall>m \<in> set msgs. length m \<le> MAX_CONTROL_MESSAGE_SIZE"
    and "rmap encode_control_frame msgs = Ok frames"
    and "concat chunks = concat frames"
  shows "feed_chunks cfd_default chunks = (Ok msgs, cfd_default)"
proof -
  have "rmap encode_control_frame msgs = Ok (map (len_prefixed 4) msgs)"
    by (rule rmap_all_ok) (use assms(1) in \<open>simp add: encode_control_frame_Ok_iff\<close>)
  then have "concat chunks = concat (map (len_prefixed 4) msgs)" using assms by simp
  then show ?thesis
    using feed_chunks_concat [of cfd_default chunks msgs "[]"] drain_loop_frames [OF assms(1), of "[]"]
    by (simp add: cfd_default_def drain_loop_stop)
qed

theorem framed_stream_roundtrip_witness:
  "feed_chunks cfd_default [[0, 0], [0, 2, 104, 105, 0, 0, 0], [1], [33]] = (Ok [[104, 105], [33]], cfd_default)"
proof (rule framed_stream_roundtrip)
  show "rmap encode_control_frame [[104, 105], [33]] = Ok [[0, 0, 0, 2, 104, 105], [0, 0, 0, 1, 33]]"
    by (simp add: encode_control_frame_def u32_max_eval MAX_CONTROL_MESSAGE_SIZE_def u32_be_def
        be_bytes_numeral)
qed (simp_all add: MAX_CONTROL_MESSAGE_SIZE_def)

end
