(* ===== verification/Video_Packet.thy ===== *)
theory Video_Packet
  imports Prelude
begin

unbundle bit_operations_syntax

text \<open>
  The PCP video datagram: \<open>crates/picoo-protocol/src/video_packet.rs\<close> and the wire constants of
  \<open>crates/picoo-protocol/src/lib.rs\<close>. A datagram is a fixed 33-byte header followed by the
  payload; the header's fields are machine words, written most significant byte first.
\<close>

section \<open>Constants and flags\<close>

definition MAX_DATAGRAM_SIZE :: nat where "MAX_DATAGRAM_SIZE = 1150"
definition VIDEO_PACKET_HEADER_SIZE :: nat where "VIDEO_PACKET_HEADER_SIZE = 33"
definition MAX_VIDEO_FRAGMENTS_PER_ACCESS_UNIT :: nat where
  "MAX_VIDEO_FRAGMENTS_PER_ACCESS_UNIT = 1024"
definition FEC_PARITY_PREFIX_SIZE :: nat where "FEC_PARITY_PREFIX_SIZE = 3"
definition MAX_FEC_FRAGMENT_PAYLOAD :: nat where
  "MAX_FEC_FRAGMENT_PAYLOAD = MAX_DATAGRAM_SIZE - VIDEO_PACKET_HEADER_SIZE - FEC_PARITY_PREFIX_SIZE"

lemmas wire_constants = MAX_DATAGRAM_SIZE_def VIDEO_PACKET_HEADER_SIZE_def
  MAX_VIDEO_FRAGMENTS_PER_ACCESS_UNIT_def FEC_PARITY_PREFIX_SIZE_def MAX_FEC_FRAGMENT_PAYLOAD_def

definition KEYFRAME :: u8 where "KEYFRAME = 0x01"
definition START_OF_ACCESS_UNIT :: u8 where "START_OF_ACCESS_UNIT = 0x02"
definition END_OF_ACCESS_UNIT :: u8 where "END_OF_ACCESS_UNIT = 0x04"
definition DISCARDABLE :: u8 where "DISCARDABLE = 0x08"
definition FEC_PARITY :: u8 where "FEC_PARITY = 0x10"

lemmas flag_constants = KEYFRAME_def START_OF_ACCESS_UNIT_def END_OF_ACCESS_UNIT_def
  DISCARDABLE_def FEC_PARITY_def

definition flags_all :: u8 where
  "flags_all = KEYFRAME OR START_OF_ACCESS_UNIT OR END_OF_ACCESS_UNIT OR DISCARDABLE OR FEC_PARITY"

definition flags_contains :: "u8 \<Rightarrow> u8 \<Rightarrow> bool" where
  "flags_contains f g \<longleftrightarrow> f AND g = g"

text \<open>\<open>from_bits\<close> of \<open>bitflags\<close>: an unknown bit makes the whole byte unrepresentable.\<close>

definition flags_from_bits :: "u8 \<Rightarrow> u8 option" where
  "flags_from_bits b = (if b AND NOT flags_all = 0 then Some b else None)"

definition flags_valid :: "u8 \<Rightarrow> bool" where
  "flags_valid f \<longleftrightarrow> f AND NOT flags_all = 0"

section \<open>Packets\<close>

record video_packet =
  vp_flags :: u8
  vp_stream_epoch :: u32
  vp_frame_id :: u64
  vp_pts_us :: u64
  vp_encoded_at_us :: u64
  vp_fragment_index :: u16
  vp_fragment_count :: u16
  vp_payload :: bytes

datatype video_packet_error = BufferTooShort | DatagramTooLarge | InvalidFragmentIndex

definition checked_add_usize :: "nat \<Rightarrow> nat \<Rightarrow> nat option" where
  "checked_add_usize a b = (if a + b \<le> u64_max then Some (a + b) else None)"

fun segments_len :: "nat \<Rightarrow> bytes list \<Rightarrow> nat option" where
  "segments_len t [] = Some t"
| "segments_len t (s # ss) =
     (case checked_add_usize t (length s) of None \<Rightarrow> None | Some t' \<Rightarrow> segments_len t' ss)"

definition encode_header ::
  "u8 \<Rightarrow> u32 \<Rightarrow> u64 \<Rightarrow> u64 \<Rightarrow> u64 \<Rightarrow> u16 \<Rightarrow> u16 \<Rightarrow> bytes" where
  "encode_header flags epoch frame_id pts encoded_at index count =
     [flags] @ u32_be epoch @ u64_be frame_id @ u64_be pts @ u64_be encoded_at
       @ u16_be index @ u16_be count"

definition encode_datagram_segments ::
  "u8 \<Rightarrow> u32 \<Rightarrow> u64 \<Rightarrow> u64 \<Rightarrow> u64 \<Rightarrow> u16 \<Rightarrow> u16 \<Rightarrow> bytes list
     \<Rightarrow> (bytes, video_packet_error) result" where
  "encode_datagram_segments flags epoch frame_id pts encoded_at index count segments =
     (if count \<le> index then Err InvalidFragmentIndex
      else
        (case Option.bind (segments_len 0 segments) (checked_add_usize VIDEO_PACKET_HEADER_SIZE) of
           None \<Rightarrow> Err DatagramTooLarge
         | Some n \<Rightarrow>
             if n > MAX_DATAGRAM_SIZE then Err DatagramTooLarge
             else Ok (encode_header flags epoch frame_id pts encoded_at index count
                        @ concat segments)))"

definition encode_datagram ::
  "u8 \<Rightarrow> u32 \<Rightarrow> u64 \<Rightarrow> u64 \<Rightarrow> u64 \<Rightarrow> u16 \<Rightarrow> u16 \<Rightarrow> bytes
     \<Rightarrow> (bytes, video_packet_error) result" where
  "encode_datagram flags epoch frame_id pts encoded_at index count payload =
     encode_datagram_segments flags epoch frame_id pts encoded_at index count [payload]"

definition encode_packet :: "video_packet \<Rightarrow> (bytes, video_packet_error) result" where
  "encode_packet p =
     encode_datagram (vp_flags p) (vp_stream_epoch p) (vp_frame_id p) (vp_pts_us p)
       (vp_encoded_at_us p) (vp_fragment_index p) (vp_fragment_count p) (vp_payload p)"

text \<open>
  \<open>decode_bytes\<close> reads the fields in wire order; an unknown flag bit clears every flag
  (\<open>unwrap_or(empty)\<close>).
\<close>

definition decode_bytes :: "bytes \<Rightarrow> (video_packet, video_packet_error) result" where
  "decode_bytes buf =
     (if length buf < VIDEO_PACKET_HEADER_SIZE then Err BufferTooShort
      else if length buf > MAX_DATAGRAM_SIZE then Err DatagramTooLarge
      else
        (let flags = (case flags_from_bits (buf ! 0) of None \<Rightarrow> 0 | Some f \<Rightarrow> f);
             packet = \<lparr> vp_flags = flags,
                        vp_stream_epoch = be_u32 (take 4 (drop 1 buf)),
                        vp_frame_id = be_u64 (take 8 (drop 5 buf)),
                        vp_pts_us = be_u64 (take 8 (drop 13 buf)),
                        vp_encoded_at_us = be_u64 (take 8 (drop 21 buf)),
                        vp_fragment_index = be_u16 (take 2 (drop 29 buf)),
                        vp_fragment_count = be_u16 (take 2 (drop 31 buf)),
                        vp_payload = drop 33 buf \<rparr>
         in if vp_fragment_count packet \<le> vp_fragment_index packet
            then Err InvalidFragmentIndex else Ok packet))"

section \<open>Lemmas\<close>

lemma segments_len_single:
  "segments_len 0 [s] = (if length s \<le> u64_max then Some (length s) else None)"
  by (simp add: checked_add_usize_def)

lemma segments_len_Some: "segments_len t ss = Some n \<Longrightarrow> n = t + length (concat ss)"
  by (induction ss arbitrary: t) (force simp: checked_add_usize_def split: option.splits if_splits)+

lemma segments_len_fits:
  "t + length (concat ss) \<le> u64_max \<Longrightarrow> segments_len t ss = Some (t + length (concat ss))"
  by (induction ss arbitrary: t) (auto simp: checked_add_usize_def add.assoc)

lemma length_encode_header [simp]: "length (encode_header f e i p a x c) = 33"
  by (simp add: encode_header_def)

lemma encode_segments_Ok_iff:
  "encode_datagram_segments f e i p a x c ss = Ok bs \<longleftrightarrow>
     x < c \<and> 33 + length (concat ss) \<le> 1150 \<and> bs = encode_header f e i p a x c @ concat ss"
proof (cases "33 + length (concat ss) \<le> u64_max")
  case True
  then have "segments_len 0 ss = Some (length (concat ss))"
    using segments_len_fits [of 0 ss] by simp
  with True show ?thesis
    by (auto simp: encode_datagram_segments_def checked_add_usize_def wire_constants)
next
  case False
  then have big: "1150 < 33 + length (concat ss)" by (simp add: u64_max_eval)
  have "encode_datagram_segments f e i p a x c ss \<noteq> Ok bs"
    using False segments_len_Some [of 0 ss]
    by (auto simp: encode_datagram_segments_def checked_add_usize_def wire_constants
        split: option.splits bind_splits)
  with big show ?thesis by auto
qed

lemma encode_packet_Ok_iff:
  "encode_packet p = Ok bs \<longleftrightarrow>
     vp_fragment_index p < vp_fragment_count p \<and> 33 + length (vp_payload p) \<le> 1150 \<and>
     bs = encode_header (vp_flags p) (vp_stream_epoch p) (vp_frame_id p) (vp_pts_us p)
            (vp_encoded_at_us p) (vp_fragment_index p) (vp_fragment_count p) @ vp_payload p"
  by (simp add: encode_packet_def encode_datagram_def encode_segments_Ok_iff)

text \<open>The header's fields are read back from the offsets they were written at.\<close>

lemma encode_header_fields:
  "(encode_header f e i p a x c @ rest) ! 0 = f"
  "be_u32 (take 4 (drop 1 (encode_header f e i p a x c @ rest))) = e"
  "be_u64 (take 8 (drop 5 (encode_header f e i p a x c @ rest))) = i"
  "be_u64 (take 8 (drop 13 (encode_header f e i p a x c @ rest))) = p"
  "be_u64 (take 8 (drop 21 (encode_header f e i p a x c @ rest))) = a"
  "be_u16 (take 2 (drop 29 (encode_header f e i p a x c @ rest))) = x"
  "be_u16 (take 2 (drop 31 (encode_header f e i p a x c @ rest))) = c"
  "drop 33 (encode_header f e i p a x c @ rest) = rest"
  by (simp_all add: encode_header_def)

lemma split_at: "k \<le> length bs \<Longrightarrow> take n (drop k bs) @ drop (k + n) bs = drop k bs"
  by (metis add.commute append_take_drop_id drop_drop)

lemma header_of_bytes:
  assumes "33 \<le> length bs"
  shows "encode_header (bs ! 0) (be_u32 (take 4 (drop 1 bs))) (be_u64 (take 8 (drop 5 bs)))
           (be_u64 (take 8 (drop 13 bs))) (be_u64 (take 8 (drop 21 bs)))
           (be_u16 (take 2 (drop 29 bs))) (be_u16 (take 2 (drop 31 bs))) @ drop 33 bs = bs"
proof -
  have "[bs ! 0] @ drop 1 bs = bs"
    using assms by (cases bs) auto
  then show ?thesis
    using assms split_at [of 1 bs 4] split_at [of 5 bs 8] split_at [of 13 bs 8] split_at [of 21 bs 8]
      split_at [of 29 bs 2] split_at [of 31 bs 2]
    by (simp add: encode_header_def)
qed

lemma decode_bytes_Ok_iff:
  "decode_bytes bs = Ok p \<longleftrightarrow>
     33 \<le> length bs \<and> length bs \<le> 1150 \<and> vp_fragment_index p < vp_fragment_count p \<and>
     p = \<lparr> vp_flags = (case flags_from_bits (bs ! 0) of None \<Rightarrow> 0 | Some f \<Rightarrow> f),
           vp_stream_epoch = be_u32 (take 4 (drop 1 bs)),
           vp_frame_id = be_u64 (take 8 (drop 5 bs)),
           vp_pts_us = be_u64 (take 8 (drop 13 bs)),
           vp_encoded_at_us = be_u64 (take 8 (drop 21 bs)),
           vp_fragment_index = be_u16 (take 2 (drop 29 bs)),
           vp_fragment_count = be_u16 (take 2 (drop 31 bs)),
           vp_payload = drop 33 bs \<rparr>"
  by (auto simp: decode_bytes_def Let_def wire_constants)

lemma decode_header_append:
  assumes "flags_valid f" "x < c" "33 + length rest \<le> 1150"
  shows "decode_bytes (encode_header f e i p a x c @ rest) =
     Ok \<lparr> vp_flags = f, vp_stream_epoch = e, vp_frame_id = i, vp_pts_us = p,
          vp_encoded_at_us = a, vp_fragment_index = x, vp_fragment_count = c, vp_payload = rest \<rparr>"
  using assms unfolding decode_bytes_Ok_iff encode_header_fields
  by (simp add: flags_from_bits_def flags_valid_def)

lemma decode_bytes_flags: "decode_bytes bs = Ok p \<Longrightarrow> flags_valid (vp_flags p)"
  by (auto simp: decode_bytes_Ok_iff flags_from_bits_def flags_valid_def)

lemma decode_bytes_index: "decode_bytes bs = Ok p \<Longrightarrow> vp_fragment_index p < vp_fragment_count p"
  by (blast dest: decode_bytes_Ok_iff [THEN iffD1])

lemma decode_bytes_no_panic: "decode_bytes bs \<noteq> Panic"
  by (simp add: decode_bytes_def Let_def)

lemma encode_decode: "flags_valid (vp_flags p) \<Longrightarrow> encode_packet p = Ok bs \<Longrightarrow> decode_bytes bs = Ok p"
  by (auto simp: encode_packet_Ok_iff decode_header_append)

section \<open>Properties\<close>

text \<open>C16: a packet that encodes decodes to itself: every field of the header and the payload
  survive the wire. The only precondition is that its flags are flags of the protocol.\<close>

theorem encode_decode_roundtrip:
  assumes "flags_valid (vp_flags p)" and "encode_packet p = Ok bs"
  shows "decode_bytes bs = Ok p"
  using assms by (rule encode_decode)

definition sample_packet :: video_packet where
  "sample_packet = \<lparr> vp_flags = 0x03, vp_stream_epoch = 2, vp_frame_id = 42, vp_pts_us = 1000000,
     vp_encoded_at_us = 1004000, vp_fragment_index = 0, vp_fragment_count = 3,
     vp_payload = [104, 50, 54, 52] \<rparr>"

lemma sample_packet_encodes:
  "flags_valid (vp_flags sample_packet) \<and>
   encode_packet sample_packet = Ok (encode_header 3 2 42 1000000 1004000 0 3 @ [104, 50, 54, 52])"
  by (simp add: sample_packet_def flags_valid_def flags_all_def flag_constants encode_packet_Ok_iff)

theorem encode_decode_roundtrip_witness:
  "decode_bytes (encode_header 3 2 42 1000000 1004000 0 3 @ [104, 50, 54, 52]) = Ok sample_packet"
  using encode_decode_roundtrip [of sample_packet] sample_packet_encodes by blast

text \<open>A datagram that decodes is canonical: encoding the decoded packet gives back exactly
  the received bytes whenever the flag byte carries only known bits; with an unknown bit it gives
  the same datagram with the flag byte cleared.\<close>

lemma decode_encode_canonical:
  assumes "decode_bytes bs = Ok p"
  shows "encode_packet p = Ok ((if flags_valid (bs ! 0) then bs ! 0 else 0) # tl bs)"
proof -
  have len: "33 \<le> length bs" and p: "p = \<lparr> vp_flags = (if flags_valid (bs ! 0) then bs ! 0 else 0),
      vp_stream_epoch = be_u32 (take 4 (drop 1 bs)), vp_frame_id = be_u64 (take 8 (drop 5 bs)),
      vp_pts_us = be_u64 (take 8 (drop 13 bs)), vp_encoded_at_us = be_u64 (take 8 (drop 21 bs)),
      vp_fragment_index = be_u16 (take 2 (drop 29 bs)), vp_fragment_count = be_u16 (take 2 (drop 31 bs)),
      vp_payload = drop 33 bs \<rparr>"
    using assms by (auto simp: decode_bytes_Ok_iff flags_from_bits_def flags_valid_def)
  have "encode_header g e i q a x c = g # tl (encode_header f e i q a x c)" for f g e i q a x c
    by (simp add: encode_header_def)
  then have "encode_header (vp_flags p) (vp_stream_epoch p) (vp_frame_id p) (vp_pts_us p)
      (vp_encoded_at_us p) (vp_fragment_index p) (vp_fragment_count p) @ vp_payload p =
      vp_flags p # tl bs"
    using header_of_bytes [OF len] p len
    by (metis (no_types, lifting) append_Cons length_encode_header list.sel(3) list.size(3)
        select_convs(1-8) tl_append2 zero_neq_numeral)
  with assms p show ?thesis
    by (simp add: encode_packet_Ok_iff decode_bytes_Ok_iff)
qed

end
