(* ===== verification/Video_Fec.thy ===== *)
theory Video_Fec
  imports Video_Packet
begin

text \<open>
  Erasure protection of video fragments: \<open>crates/picoo-protocol/src/video_fec.rs\<close>. Grouping of the
  fragments of an access unit, generation of parity shards and local reconstruction. The
  Reed-Solomon codec itself is the crate \<open>reed-solomon-erasure\<close>; it is the parameter \<open>rs_codec\<close> of
  the definitions that call it, and \<open>rs_contract\<close> states what its documentation promises.
\<close>

definition FEC_DATA_SHARDS :: nat where "FEC_DATA_SHARDS = 6"
definition FEC_PARITY_SHARDS :: nat where "FEC_PARITY_SHARDS = 2"

lemmas fec_constants = FEC_DATA_SHARDS_def FEC_PARITY_SHARDS_def

section \<open>Groups\<close>

text \<open>\<open>n as u16\<close> keeps the low 16 bits; a \<open>Range<u16>\<close> is the pair of its bounds.\<close>

definition as_u16 :: "nat \<Rightarrow> nat" where "as_u16 n = n mod 65536"

type_synonym u16_range = "nat \<times> nat"

definition range_len :: "u16_range \<Rightarrow> nat" where "range_len r = snd r - fst r"
definition range_contains :: "u16_range \<Rightarrow> nat \<Rightarrow> bool" where
  "range_contains r i \<longleftrightarrow> fst r \<le> i \<and> i < snd r"
definition range_list :: "u16_range \<Rightarrow> nat list" where "range_list r = [fst r ..< snd r]"

fun fec_ranges_loop :: "nat \<Rightarrow> nat \<Rightarrow> nat \<Rightarrow> nat list \<Rightarrow> u16_range list" where
  "fec_ranges_loop base_size larger_groups start [] = []"
| "fec_ranges_loop base_size larger_groups start (group_index # gs) =
     (let size = base_size + (if group_index < larger_groups then 1 else 0);
          stop = as_u16 (start + as_u16 size)
      in (start, stop) # fec_ranges_loop base_size larger_groups stop gs)"

definition fec_group_ranges :: "u16 \<Rightarrow> u16_range list" where
  "fec_group_ranges fragment_count =
     (if fragment_count = 0 then []
      else let fragment_count = unat fragment_count;
               group_count = div_ceil fragment_count FEC_DATA_SHARDS;
               base_size = fragment_count div group_count;
               larger_groups = fragment_count mod group_count
           in fec_ranges_loop base_size larger_groups 0 [0 ..< group_count])"

definition fec_group_for_fragment :: "u16 \<Rightarrow> u16 \<Rightarrow> u16_range option" where
  "fec_group_for_fragment fragment_count fragment_index =
     (if fragment_count = 0 \<or> fragment_count \<le> fragment_index then None
      else let fragment_count = unat fragment_count;
               fragment_index = unat fragment_index;
               group_count = div_ceil fragment_count FEC_DATA_SHARDS;
               base_size = fragment_count div group_count;
               larger_groups = fragment_count mod group_count;
               larger_size = base_size + 1;
               larger_span = larger_groups * larger_size;
               (start, size) =
                 (if fragment_index < larger_span
                  then ((fragment_index div larger_size) * larger_size, larger_size)
                  else let group_index = larger_groups + (fragment_index - larger_span) div base_size
                       in (larger_span + (group_index - larger_groups) * base_size, base_size))
           in Some (as_u16 start, as_u16 (start + size)))"

section \<open>Parity and reconstruction\<close>

record rs_codec =
  rs_encode_sep :: "nat \<Rightarrow> nat \<Rightarrow> bytes list \<Rightarrow> bytes list option"
  rs_reconstruct_data :: "nat \<Rightarrow> nat \<Rightarrow> bytes option list \<Rightarrow> bytes option list option"

text \<open>
  \<open>fec_codec\<close> looks the codec up in a table built once; the model returns the parameters of the
  codec found at that position.
\<close>

definition codec_table :: "(nat \<times> nat) list" where
  "codec_table = concat (map (\<lambda>parity. map (\<lambda>data. (data, parity)) [2 ..< FEC_DATA_SHARDS + 1])
                          [1 ..< FEC_PARITY_SHARDS + 1])"

definition fec_codec :: "nat \<Rightarrow> nat \<Rightarrow> (nat \<times> nat) option" where
  "fec_codec data_shards parity_shards =
     (if \<not> (2 \<le> data_shards \<and> data_shards \<le> FEC_DATA_SHARDS) \<or>
         \<not> (1 \<le> parity_shards \<and> parity_shards \<le> FEC_PARITY_SHARDS) then None
      else let ix = (parity_shards - 1) * (FEC_DATA_SHARDS - 1) + data_shards - 2
           in if ix < length codec_table then Some (codec_table ! ix) else None)"

definition pad_shard :: "nat \<Rightarrow> bytes \<Rightarrow> bytes" where
  "pad_shard n bs = bs @ replicate (n - length bs) 0"

definition max_len :: "bytes list \<Rightarrow> nat" where
  "max_len shards = foldr (\<lambda>s m. max (length s) m) shards 0"

text \<open>
  \<open>encode_fec_parity_into\<close>: the length of the last data shard, and the parity shards left in
  \<open>parity_scratch\<close>.
\<close>

definition encode_fec_parity_into ::
  "rs_codec \<Rightarrow> bytes list \<Rightarrow> nat \<Rightarrow> (nat \<times> bytes list) option" where
  "encode_fec_parity_into rs data parity_count =
     (if \<not> (2 \<le> length data \<and> length data \<le> FEC_DATA_SHARDS) then None
      else if \<not> (1 \<le> parity_count \<and> parity_count \<le> FEC_PARITY_SHARDS) then None
      else let shard_len = max_len data; last_data_len = length (last data)
           in if last_data_len > 65535 then None
              else (case fec_codec (length data) parity_count of
                      None \<Rightarrow> None
                    | Some (d, p) \<Rightarrow>
                        (case rs_encode_sep rs d p (map (pad_shard shard_len) data) of
                           None \<Rightarrow> None
                         | Some parity \<Rightarrow> Some (last_data_len, parity))))"

record fec_parity_shard =
  fps_group_start :: nat
  fps_parity_index :: nat
  fps_last_data_len :: nat
  fps_bytes :: bytes

definition make_fec_parity_count :: "rs_codec \<Rightarrow> nat \<Rightarrow> bytes list \<Rightarrow> nat \<Rightarrow> fec_parity_shard list option" where
  "make_fec_parity_count rs group_start data parity_count =
     (case encode_fec_parity_into rs data parity_count of
        None \<Rightarrow> None
      | Some (last_data_len, parity) \<Rightarrow>
          Some (map (\<lambda>(parity_index, bytes).
                  \<lparr> fps_group_start = group_start, fps_parity_index = parity_index,
                    fps_last_data_len = last_data_len, fps_bytes = bytes \<rparr>)
                (enumerate 0 (take parity_count parity))))"

definition make_fec_parity :: "rs_codec \<Rightarrow> nat \<Rightarrow> bytes list \<Rightarrow> fec_parity_shard list option" where
  "make_fec_parity rs group_start data = make_fec_parity_count rs group_start data FEC_PARITY_SHARDS"

definition count_none :: "'a option list \<Rightarrow> nat" where
  "count_none xs = length (filter Option.is_none xs)"

definition count_some :: "'a option list \<Rightarrow> nat" where
  "count_some xs = length (filter (\<lambda>x. \<not> Option.is_none x) xs)"

definition flatten_opt :: "'a option list \<Rightarrow> 'a list" where
  "flatten_opt xs = concat (map (\<lambda>x. case x of None \<Rightarrow> [] | Some v \<Rightarrow> [v]) xs)"

definition reconstruct_fec_group ::
  "rs_codec \<Rightarrow> bytes option list \<Rightarrow> bytes option list \<Rightarrow> nat \<Rightarrow> bytes option list option" where
  "reconstruct_fec_group rs data parity last_data_len =
     (if \<not> (2 \<le> length data \<and> length data \<le> FEC_DATA_SHARDS) \<or> length parity \<noteq> FEC_PARITY_SHARDS
      then None
      else let missing = count_none data; available_parity = count_some parity
           in if missing = 0 \<or> missing > available_parity then None
              else let present = flatten_opt data @ flatten_opt parity
                   in if present = [] then None
                      else let shard_len = max_len present
                           in if last_data_len > shard_len then None
                              else (case fec_codec (length data) FEC_PARITY_SHARDS of
                                      None \<Rightarrow> None
                                    | Some (d, p) \<Rightarrow>
                                        (case rs_reconstruct_data rs d p
                                                (map (map_option (pad_shard shard_len)) (data @ parity)) of
                                           None \<Rightarrow> None
                                         | Some shards \<Rightarrow>
                                             Some (map (\<lambda>(index, shard).
                                               map_option (\<lambda>bytes. if index + 1 = length data
                                                                   then take last_data_len bytes else bytes) shard)
                                               (enumerate 0 (take (length data) shards))))))"

text \<open>
  What the documentation of \<open>reed-solomon-erasure\<close> promises of the codec \<open>(d, p)\<close>: \<open>encode_sep\<close>
  of \<open>d\<close> equally long non-empty shards yields \<open>p\<close> shards of that length; \<open>reconstruct_data\<close>
  restores the data shards from any view of the coded shards that lacks at most \<open>p\<close> of them; and
  a code with fewer parity shards is a prefix of the one with more.
\<close>

definition agrees :: "'a option list \<Rightarrow> 'a list \<Rightarrow> bool" where
  "agrees view full \<longleftrightarrow> length view = length full \<and>
     (\<forall>i < length full. view ! i = None \<or> view ! i = Some (full ! i))"

definition rs_contract :: "rs_codec \<Rightarrow> bool" where
  "rs_contract rs \<longleftrightarrow>
     (\<forall>d data L. 2 \<le> d \<and> d \<le> FEC_DATA_SHARDS \<and> length data = d \<and> 0 < L \<and> (\<forall>s \<in> set data. length s = L) \<longrightarrow>
        (\<exists>parity. rs_encode_sep rs d FEC_PARITY_SHARDS data = Some parity \<and>
           length parity = FEC_PARITY_SHARDS \<and> (\<forall>s \<in> set parity. length s = L) \<and>
           (\<forall>p. 1 \<le> p \<and> p \<le> FEC_PARITY_SHARDS \<longrightarrow> rs_encode_sep rs d p data = Some (take p parity)) \<and>
           (\<forall>view. agrees view (data @ parity) \<and> count_none view \<le> FEC_PARITY_SHARDS \<longrightarrow>
              (\<exists>out. rs_reconstruct_data rs d FEC_PARITY_SHARDS view = Some out \<and>
                 take d out = map Some data))))"

section \<open>Lemmas\<close>

text \<open>The balanced partition in closed form: group \<open>g\<close> starts at \<open>g_off base larger g\<close>.\<close>

definition g_off :: "nat \<Rightarrow> nat \<Rightarrow> nat \<Rightarrow> nat" where
  "g_off base larger g = g * base + min g larger"

lemma g_off_0 [simp]: "g_off b l 0 = 0"
  by (simp add: g_off_def)

lemma g_off_Suc: "g_off b l (Suc g) = g_off b l g + (b + (if g < l then 1 else 0))"
  by (simp add: g_off_def)

lemma g_off_mono: "g \<le> h \<Longrightarrow> g_off b l g \<le> g_off b l h"
  by (simp add: g_off_def add_mono)

lemma fec_ranges_loop_eq:
  assumes "g_off b l n < 65536" "i \<le> n"
  shows "fec_ranges_loop b l (g_off b l i) [i ..< n] =
         map (\<lambda>g. (g_off b l g, g_off b l (Suc g))) [i ..< n]"
  using assms(2)
proof (induction rule: inc_induct)
  case (step i)
  have "g_off b l (Suc i) < 65536"
    using g_off_mono [of "Suc i" n b l] step.hyps assms(1) by simp
  then have "as_u16 (g_off b l i + as_u16 (b + (if i < l then 1 else 0))) = g_off b l (Suc i)"
    unfolding g_off_Suc as_u16_def by simp
  with step show ?case by (simp add: upt_conv_Cons Let_def)
qed simp

definition fec_gc :: "u16 \<Rightarrow> nat" where "fec_gc c = div_ceil (unat c) 6"
definition fec_base :: "u16 \<Rightarrow> nat" where "fec_base c = unat c div fec_gc c"
definition fec_larger :: "u16 \<Rightarrow> nat" where "fec_larger c = unat c mod fec_gc c"
definition fec_off :: "u16 \<Rightarrow> nat \<Rightarrow> nat" where "fec_off c = g_off (fec_base c) (fec_larger c)"

lemmas fec_shape_defs = fec_gc_def fec_base_def fec_larger_def fec_off_def

lemma unat_u16_less: "unat (c :: u16) < 65536"
  using unat_less_len [of c] by simp

lemma fec_gc_pos: "c \<noteq> 0 \<Longrightarrow> 0 < fec_gc c"
  by (simp add: fec_gc_def div_ceil_pos unat_gt_0)

lemma fec_larger_less: "c \<noteq> 0 \<Longrightarrow> fec_larger c < fec_gc c"
  by (simp add: fec_larger_def fec_gc_pos)

lemma fec_off_end: "c \<noteq> 0 \<Longrightarrow> fec_off c (fec_gc c) = unat c"
  using fec_larger_less [of c] by (simp add: fec_off_def g_off_def fec_base_def fec_larger_def)

lemma fec_off_Suc:
  "fec_off c (Suc g) = fec_off c g + (fec_base c + (if g < fec_larger c then 1 else 0))"
  by (simp add: fec_off_def g_off_Suc)

lemma fec_off_mono: "g \<le> h \<Longrightarrow> fec_off c g \<le> fec_off c h"
  by (simp add: fec_off_def g_off_mono)

lemma fec_group_ranges_eq:
  "c \<noteq> 0 \<Longrightarrow> fec_group_ranges c = map (\<lambda>g. (fec_off c g, fec_off c (Suc g))) [0 ..< fec_gc c]"
  using fec_ranges_loop_eq [of "fec_base c" "fec_larger c" "fec_gc c" 0] fec_off_end [of c]
    unat_u16_less [of c]
  by (simp add: fec_group_ranges_def Let_def fec_constants fec_shape_defs)

lemma fec_group_ranges_0 [simp]: "fec_group_ranges 0 = []"
  by (simp add: fec_group_ranges_def)

lemma ranges_concat:
  "i \<le> n \<Longrightarrow> concat (map (\<lambda>g. [g_off b l g ..< g_off b l (Suc g)]) [i ..< n]) = [g_off b l i ..< g_off b l n]"
proof (induction rule: inc_induct)
  case (step i)
  have "g_off b l i \<le> g_off b l (Suc i)" "g_off b l (Suc i) \<le> g_off b l n"
    using step by (auto intro: g_off_mono)
  with step show ?case
    by (simp add: upt_conv_Cons upt_join del: upt_Suc)
qed simp

lemma fec_size_bounds:
  assumes "c \<noteq> 0"
  shows "fec_base c + (if g < fec_larger c then 1 else 0) \<le> 6"
    and "2 \<le> unat c \<Longrightarrow> 2 \<le> fec_base c"
    and "1 \<le> fec_base c"
proof -
  let ?n = "unat c" and ?gc = "fec_gc c"
  have n: "?n = fec_base c * ?gc + fec_larger c" by (simp add: fec_base_def fec_larger_def)
  have up: "?n \<le> ?gc * 6" by (simp add: fec_gc_def div_ceil_mult_ge)
  have gc: "0 < ?gc" "fec_larger c < ?gc" using assms fec_gc_pos fec_larger_less by auto
  have "?n < 6 * ?gc + 1" using up by simp
  have base6: "fec_base c \<le> 6"
    using up gc by (simp add: fec_base_def div_le_mono2 less_mult_imp_div_less less_Suc_eq_le [symmetric])
  moreover have "fec_larger c = 0" if "fec_base c = 6"
    using n up that by simp
  ultimately show "fec_base c + (if g < fec_larger c then 1 else 0) \<le> 6"
    by (cases "fec_base c = 6") auto
  have low: "\<not> ?n \<le> (?gc - 1) * 6"
    using gc(1) div_ceil_le_iff [of 6 ?n "?gc - 1"] unfolding fec_gc_def by linarith
  show "2 \<le> fec_base c" if "2 \<le> ?n"
  proof (cases "?gc = 1")
    case True
    with that show ?thesis by (simp add: fec_base_def)
  next
    case False
    with gc low have "2 * ?gc \<le> ?n" by arith
    then show ?thesis using gc by (simp add: fec_base_def less_eq_div_iff_mult_less_eq)
  qed
  show "1 \<le> fec_base c"
  proof -
    have "?gc \<le> ?n" using gc low assms unat_gt_0 [of c] by (cases "?gc = 1") auto
    then show ?thesis using gc by (simp add: fec_base_def less_eq_div_iff_mult_less_eq)
  qed
qed


lemma fec_range_of:
  assumes "c \<noteq> 0" "g < fec_gc c"
  shows "fec_group_ranges c ! g = (fec_off c g, fec_off c (Suc g))" "length (fec_group_ranges c) = fec_gc c"
  using assms by (simp_all add: fec_group_ranges_eq)

text \<open>The direct lookup computes the number of the group and its start.\<close>

lemma dividend_less_times_div': "0 < m \<Longrightarrow> n < m + n div m * (m :: nat)"
  by (metis dividend_less_div_times add.commute)

lemma fec_lookup_eq:
  assumes c: "c \<noteq> 0" and x: "x < c"
  defines "g \<equiv> if unat x < fec_larger c * (fec_base c + 1) then unat x div (fec_base c + 1)
                else fec_larger c + (unat x - fec_larger c * (fec_base c + 1)) div fec_base c"
  shows "fec_group_for_fragment c x = Some (fec_off c g, fec_off c (Suc g))"
    and "g < fec_gc c" and "fec_off c g \<le> unat x" and "unat x < fec_off c (Suc g)"
proof -
  let ?b = "fec_base c" and ?l = "fec_larger c" and ?x = "unat x" and ?n = "unat c"
  have b: "1 \<le> ?b" using fec_size_bounds(3) [OF c] .
  have xn: "?x < ?n" using x by (simp add: word_less_nat_alt)
  have n: "?n = fec_gc c * ?b + ?l" by (simp add: fec_base_def fec_larger_def)
  have l: "?l < fec_gc c" using fec_larger_less [OF c] .
  have facts: "g < fec_gc c \<and> fec_off c g \<le> ?x \<and> ?x < fec_off c (Suc g) \<and>
      fec_group_for_fragment c x = Some (as_u16 (fec_off c g), as_u16 (fec_off c (Suc g)))"
  proof (cases "?x < ?l * (?b + 1)")
    case True
    then have g: "g = ?x div (?b + 1)" by (simp add: g_def)
    have gl: "g < ?l" using True by (simp add: g less_mult_imp_div_less)
    have off: "fec_off c g = g * (?b + 1)" "fec_off c (Suc g) = g * (?b + 1) + (?b + 1)"
      using gl by (simp_all add: fec_off_def g_off_def)
    have "g * (?b + 1) \<le> ?x" unfolding g by (rule div_times_less_eq_dividend)
    moreover have "?x < g * (?b + 1) + (?b + 1)"
      unfolding g add.commute [of "_ * _" "?b + 1"] by (rule dividend_less_times_div') simp
    moreover have "fec_group_for_fragment c x = Some (as_u16 (g * (?b + 1)), as_u16 (g * (?b + 1) + (?b + 1)))"
      using c x True by (simp add: fec_group_for_fragment_def Let_def fec_constants fec_shape_defs g)
    ultimately show ?thesis using gl l off by simp
  next
    case False
    define q where "q = (?x - ?l * (?b + 1)) div ?b"
    have g: "g = ?l + q" using False by (simp add: g_def q_def)
    have off: "fec_off c g = ?l * (?b + 1) + q * ?b" "fec_off c (Suc g) = ?l * (?b + 1) + q * ?b + ?b"
      by (simp_all add: g fec_off_def g_off_def algebra_simps)
    have "q * ?b \<le> ?x - ?l * (?b + 1)" unfolding q_def by (rule div_times_less_eq_dividend)
    moreover have "?x - ?l * (?b + 1) < q * ?b + ?b"
      unfolding q_def add.commute [of "_ * _" ?b] using b by (intro dividend_less_times_div') simp
    ultimately have bounds: "fec_off c g \<le> ?x" "?x < fec_off c (Suc g)" using False off by linarith+
    have "g < fec_gc c"
    proof (rule ccontr)
      assume "\<not> g < fec_gc c"
      then have "?n \<le> fec_off c g" using fec_off_mono [of "fec_gc c" g c] fec_off_end [OF c] by simp
      with bounds(1) xn show False by simp
    qed
    moreover have "fec_group_for_fragment c x =
        Some (as_u16 (?l * (?b + 1) + q * ?b), as_u16 (?l * (?b + 1) + q * ?b + ?b))"
      using c x False by (simp add: fec_group_for_fragment_def Let_def fec_constants fec_shape_defs q_def)
    ultimately show ?thesis using bounds off by simp
  qed
  then show "g < fec_gc c" "fec_off c g \<le> unat x" "unat x < fec_off c (Suc g)" by blast+
  then have "fec_off c g < 65536" "fec_off c (Suc g) < 65536"
    using fec_off_mono [of "Suc g" "fec_gc c" c] fec_off_mono [of g "fec_gc c" c] fec_off_end [OF c]
      unat_u16_less [of c] by simp_all
  with facts show "fec_group_for_fragment c x = Some (fec_off c g, fec_off c (Suc g))"
    by (simp add: as_u16_def)
qed

lemma find_unique:
  assumes "g < length xs" "P (xs ! g)" "\<And>h. h < g \<Longrightarrow> \<not> P (xs ! h)"
  shows "find P xs = Some (xs ! g)"
  using assms
proof (induction xs arbitrary: g)
  case (Cons x xs)
  show ?case
  proof (cases g)
    case 0
    with Cons.prems show ?thesis by simp
  next
    case (Suc k)
    have "\<not> P x" using Cons.prems(3) [of 0] Suc by simp
    moreover have "find P xs = Some (xs ! k)"
    proof (rule Cons.IH)
      fix h assume "h < k"
      with Cons.prems(3) [of "Suc h"] Suc show "\<not> P (xs ! h)" by simp
    qed (use Cons.prems Suc in simp_all)
    ultimately show ?thesis using Suc by simp
  qed
qed simp

lemma fec_groups_bounds:
  "list_all (\<lambda>r. 1 \<le> range_len r \<and> range_len r \<le> 6 \<and> (unat c = 1 \<or> 2 \<le> range_len r))
     (fec_group_ranges c)"
proof (cases "c = 0")
  case False
  have len: "range_len (fec_off c g, fec_off c (Suc g)) = fec_base c + (if g < fec_larger c then 1 else 0)" for g
    by (simp add: range_len_def fec_off_Suc)
  have "unat c = 1 \<or> 2 \<le> unat c" using False unat_gt_0 [of c] by linarith
  then have "\<forall>g. 1 \<le> range_len (fec_off c g, fec_off c (Suc g)) \<and>
      range_len (fec_off c g, fec_off c (Suc g)) \<le> 6 \<and>
      (unat c = 1 \<or> 2 \<le> range_len (fec_off c g, fec_off c (Suc g)))"
    using fec_size_bounds [OF False] unfolding len by (meson le_add1 le_trans)
  then show ?thesis
    using False by (simp add: fec_group_ranges_eq list_all_iff)
qed simp

lemma fec_groups_concat: "concat (map range_list (fec_group_ranges c)) = [0 ..< unat c]"
proof (cases "c = 0")
  case False
  have "concat (map (\<lambda>g. [fec_off c g ..< fec_off c (Suc g)]) [0 ..< fec_gc c]) = [0 ..< unat c]"
    using ranges_concat [of 0 "fec_gc c" "fec_base c" "fec_larger c"] fec_off_end [OF False]
    by (simp add: fec_off_def)
  then show ?thesis
    using False by (simp add: fec_group_ranges_eq range_list_def comp_def)
qed simp

section \<open>Properties\<close>

text \<open>The groups of an access unit partition its fragments: laid end to end they are exactly
  \<open>0, 1, ..., fragment_count - 1\<close>; none is larger than the six shards the code protects, none is
  empty, and as soon as there are two fragments no group is a single unprotected shard.\<close>

lemma fec_groups_partition:
  "concat (map range_list (fec_group_ranges c)) = [0 ..< unat c] \<and>
   list_all (\<lambda>r. 1 \<le> range_len r \<and> range_len r \<le> FEC_DATA_SHARDS \<and> (unat c = 1 \<or> 2 \<le> range_len r))
     (fec_group_ranges c)"
  using fec_groups_concat [of c] fec_groups_bounds [of c] by (simp add: fec_constants)

text \<open>C18: the constant-time lookup of the group of one fragment returns the range a search through
  all groups would find, and \<open>None\<close> exactly when there is none, for every fragment count.\<close>

theorem fec_lookup_is_search:
  "fec_group_for_fragment c x = find (\<lambda>r. range_contains r (unat x)) (fec_group_ranges c)"
proof (cases "c = 0 \<or> c \<le> x")
  case True
  have "\<not> range_contains r (unat x)" if "r \<in> set (fec_group_ranges c)" for r
  proof
    assume "range_contains r (unat x)"
    then have "unat x \<in> set (concat (map range_list (fec_group_ranges c)))"
      using that by (auto simp: range_contains_def range_list_def)
    then have "unat x < unat c" by (simp add: fec_groups_concat)
    with True show False by (auto simp: word_le_nat_alt)
  qed
  then have "find (\<lambda>r. range_contains r (unat x)) (fec_group_ranges c) = None"
    by (simp add: find_None_iff)
  with True show ?thesis by (simp add: fec_group_for_fragment_def)
next
  case False
  then have c: "c \<noteq> 0" and x: "x < c" by auto
  obtain g where g: "fec_group_for_fragment c x = Some (fec_off c g, fec_off c (Suc g))"
      "g < fec_gc c" "fec_off c g \<le> unat x" "unat x < fec_off c (Suc g)"
    using fec_lookup_eq [OF c x] by blast
  have "find (\<lambda>r. range_contains r (unat x)) (fec_group_ranges c) = Some (fec_group_ranges c ! g)"
  proof (rule find_unique)
    fix h assume "h < g"
    then have "fec_off c (Suc h) \<le> fec_off c g" by (intro fec_off_mono) simp
    with g \<open>h < g\<close> c show "\<not> range_contains (fec_group_ranges c ! h) (unat x)"
      by (simp add: fec_range_of range_contains_def)
  qed (use g c in \<open>simp_all add: fec_range_of range_contains_def\<close>)
  with g c show ?thesis by (simp add: fec_range_of)
qed

end
