(* ===== verification/Reassembly.thy ===== *)
theory Reassembly
  imports Video_Fec
begin

text \<open>
  Reassembly of video fragments into access units: \<open>crates/picoo-packet/src/lib.rs\<close> and
  \<open>reassembly_fec.rs\<close>. Frame ids, epochs and fragment indices are the naturals the words of a
  packet denote; instants are naturals on the receiver's monotonic clock; hash maps and hash sets
  are duplicate-free lists, and every theorem is about an arbitrary order of them.
\<close>

section \<open>State\<close>

record frame_key =
  fk_stream_epoch :: nat
  fk_frame_id :: nat

record stored_parity_shard =
  sps_last_data_len :: nat
  sps_bytes :: bytes

record fec_group_state =
  fg_range :: u16_range
  fg_present_mask :: u8
  fg_recovered_mask :: u8
  fg_parity_shards :: "stored_parity_shard option list"

record partial_frame =
  pf_fragments :: "(nat \<times> bytes) list"
  pf_fec_groups :: "fec_group_state list"
  pf_fragment_groups :: "nat list"
  pf_fragment_count :: nat
  pf_flags :: u8
  pf_pts_us :: nat
  pf_encoded_at_us :: nat
  pf_first_fragment_at :: nat

record assembled_access_unit =
  au_data :: bytes
  au_frame_id :: nat
  au_pts_us :: nat
  au_encoded_at_us :: nat
  au_keyframe :: bool
  au_discardable :: bool
  au_stream_epoch :: nat
  au_fragment_count :: nat
  au_first_fragment_at :: nat

datatype reassembly_error =
    TooManyFragments
  | DuplicateFragment
  | EpochMismatch
  | InvalidFecParity
  | InconsistentFrameMetadata

text \<open>\<open>rm_frame_gaps\<close> maps a missing frame id to the instant it was noticed (\<open>PendingFrameGap\<close>).\<close>

record reassembly_map =
  rm_max_frames :: nat
  rm_max_fragments :: nat
  rm_current_epoch :: nat
  rm_expired_through :: "nat option"
  rm_frames :: "(frame_key \<times> partial_frame) list"
  rm_highest_observed :: "nat option"
  rm_frame_gaps :: "(nat \<times> nat) list"
  rm_rejected_frames :: "frame_key list"
  rm_terminal_frames :: "frame_key list"
  rm_drops :: nat
  rm_partial_drops :: nat
  rm_gap_drops :: nat
  rm_missing_fragments :: nat
  rm_resolved_fragments :: nat
  rm_fec_recovered :: nat
  rm_fec_group_checks :: nat
  rm_fec_recovery_attempts :: nat
  rm_reference_loss_pending :: bool
  rm_keyframe_loss_pending :: bool

definition reassembly_new :: "nat \<Rightarrow> nat \<Rightarrow> reassembly_map" where
  "reassembly_new max_frames max_fragments =
     \<lparr> rm_max_frames = max max_frames 1, rm_max_fragments = max_fragments, rm_current_epoch = 0,
       rm_expired_through = None, rm_frames = [], rm_highest_observed = None, rm_frame_gaps = [],
       rm_rejected_frames = [], rm_terminal_frames = [], rm_drops = 0, rm_partial_drops = 0,
       rm_gap_drops = 0, rm_missing_fragments = 0, rm_resolved_fragments = 0, rm_fec_recovered = 0,
       rm_fec_group_checks = 0, rm_fec_recovery_attempts = 0, rm_reference_loss_pending = False,
       rm_keyframe_loss_pending = False \<rparr>"

section \<open>Erasure groups of a frame\<close>

text \<open>\<open>1 << n\<close> on a byte: a shift by the width or more is an overflow.\<close>

definition u8_bit :: "nat \<Rightarrow> (u8, reassembly_error) result" where
  "u8_bit n = (if n < 8 then Ok (push_bit n 1) else Panic)"

definition count_ones8 :: "u8 \<Rightarrow> nat" where
  "count_ones8 w = length (filter (bit w) [0 ..< 8])"

definition validate_parity_shard :: "u16 \<Rightarrow> u16 \<Rightarrow> bytes \<Rightarrow> (unit, reassembly_error) result" where
  "validate_parity_shard fragment_count group_start payload =
     (if length payload \<le> FEC_PARITY_PREFIX_SIZE then Err InvalidFecParity
      else if unat (payload ! 0) \<ge> FEC_PARITY_SHARDS then Err InvalidFecParity
      else
        let last_data_len = be_val [payload ! 1, payload ! 2];
            parity_bytes = drop FEC_PARITY_PREFIX_SIZE payload
        in if last_data_len = 0 \<or> last_data_len > length parity_bytes \<or>
              length parity_bytes > MAX_FEC_FRAGMENT_PAYLOAD then Err InvalidFecParity
           else
             let valid_group = (case fec_group_for_fragment fragment_count group_start of
                                  None \<Rightarrow> False
                                | Some r \<Rightarrow> fst r = unat group_start \<and> range_len r \<ge> 2)
             in if \<not> valid_group then Err InvalidFecParity else Ok ())"

fun assign_group :: "nat \<Rightarrow> nat list \<Rightarrow> nat list \<Rightarrow> (nat list, reassembly_error) result" where
  "assign_group group_ix [] gs = Ok gs"
| "assign_group group_ix (i # is) gs =
     (if i < length gs then assign_group group_ix is (gs[i := group_ix]) else Panic)"

definition new_group :: "u16_range \<Rightarrow> fec_group_state" where
  "new_group r = \<lparr> fg_range = r, fg_present_mask = 0, fg_recovered_mask = 0,
                   fg_parity_shards = replicate FEC_PARITY_SHARDS None \<rparr>"

definition build_fec_state :: "u16 \<Rightarrow> (fec_group_state list \<times> nat list, reassembly_error) result" where
  "build_fec_state fragment_count =
     (let ranges = fec_group_ranges fragment_count
      in rbind (rfold (\<lambda>(group_ix, r). assign_group group_ix (range_list r))
                  (enumerate 0 ranges) (replicate (unat fragment_count) 0))
           (\<lambda>fragment_groups. Ok (map new_group ranges, fragment_groups)))"

definition store_parity_shard ::
  "partial_frame \<Rightarrow> nat \<Rightarrow> bytes \<Rightarrow> (partial_frame \<times> nat, reassembly_error) result" where
  "store_parity_shard frame group_start payload =
     (if length payload < FEC_PARITY_PREFIX_SIZE then Panic
      else
        let parity_index = unat (payload ! 0);
            last_data_len = be_val [payload ! 1, payload ! 2];
            parity_bytes = drop FEC_PARITY_PREFIX_SIZE payload
        in if length (pf_fragment_groups frame) \<le> group_start then Err InvalidFecParity
           else
             let group_ix = pf_fragment_groups frame ! group_start
             in if length (pf_fec_groups frame) \<le> group_ix then Panic
                else
                  let group = pf_fec_groups frame ! group_ix
                  in if \<not> (fst (fg_range group) = group_start \<and> range_len (fg_range group) \<ge> 2)
                     then Err InvalidFecParity
                     else if length (fg_parity_shards group) \<le> parity_index then Panic
                     else if fg_parity_shards group ! parity_index \<noteq> None then Err DuplicateFragment
                     else
                       let shard = \<lparr> sps_last_data_len = last_data_len, sps_bytes = parity_bytes \<rparr>;
                           group' = group \<lparr> fg_parity_shards :=
                                              (fg_parity_shards group)[parity_index := Some shard] \<rparr>
                       in Ok (frame \<lparr> pf_fec_groups := (pf_fec_groups frame)[group_ix := group'] \<rparr>,
                              group_ix))"

definition mark_data_present :: "partial_frame \<Rightarrow> nat \<Rightarrow> (partial_frame \<times> nat, reassembly_error) result" where
  "mark_data_present frame fragment_index =
     (if length (pf_fragment_groups frame) \<le> fragment_index then Panic
      else
        let group_ix = pf_fragment_groups frame ! fragment_index
        in if length (pf_fec_groups frame) \<le> group_ix then Panic
           else
             let group = pf_fec_groups frame ! group_ix
             in if fragment_index < fst (fg_range group) then Panic
                else rbind (u8_bit (fragment_index - fst (fg_range group)))
                  (\<lambda>bit. let group' = group \<lparr> fg_present_mask := fg_present_mask group OR bit \<rparr>
                         in Ok (frame \<lparr> pf_fec_groups := (pf_fec_groups frame)[group_ix := group'] \<rparr>,
                                group_ix)))"

definition is_recovered_fragment :: "partial_frame \<Rightarrow> nat \<Rightarrow> (bool, reassembly_error) result" where
  "is_recovered_fragment frame fragment_index =
     (if length (pf_fragment_groups frame) \<le> fragment_index then Ok False
      else
        let group_ix = pf_fragment_groups frame ! fragment_index
        in if length (pf_fec_groups frame) \<le> group_ix then Panic
           else
             let group = pf_fec_groups frame ! group_ix
             in if fragment_index < fst (fg_range group) then Panic
                else rbind (u8_bit (fragment_index - fst (fg_range group)))
                  (\<lambda>bit. Ok (fg_recovered_mask group AND bit \<noteq> 0)))"

text \<open>
  The loop of \<open>recover_affected_group\<close> over the rebuilt shards: a shard whose bit is missing and
  that the codec produced is stored, every other one is skipped.
\<close>

fun store_rebuilt ::
  "u8 \<Rightarrow> nat \<Rightarrow> (nat \<times> bytes option) list \<Rightarrow> (nat \<times> bytes) list \<times> u8 \<times> nat
     \<Rightarrow> ((nat \<times> bytes) list \<times> u8 \<times> nat, reassembly_error) result" where
  "store_rebuilt missing_mask start [] acc = Ok acc"
| "store_rebuilt missing_mask start ((offset, shard) # rest) (fragments, recovered_mask, recovered_total) =
     rbind (u8_bit offset) (\<lambda>bit.
       if missing_mask AND bit = 0
       then store_rebuilt missing_mask start rest (fragments, recovered_mask, recovered_total)
       else (case shard of
               None \<Rightarrow> store_rebuilt missing_mask start rest (fragments, recovered_mask, recovered_total)
             | Some bytes \<Rightarrow>
                 store_rebuilt missing_mask start rest
                   (AList.update (start + offset) bytes fragments, recovered_mask OR bit,
                    recovered_total + 1)))"

definition apply_rebuilt ::
  "partial_frame \<Rightarrow> nat \<Rightarrow> u8 \<Rightarrow> bytes option list
     \<Rightarrow> (partial_frame \<times> nat \<times> bool \<times> bool, reassembly_error) result" where
  "apply_rebuilt frame group_ix missing_mask rebuilt =
     (let group = pf_fec_groups frame ! group_ix
      in rbind (store_rebuilt missing_mask (fst (fg_range group))
                  (enumerate 0 rebuilt) (pf_fragments frame, 0, 0))
           (\<lambda>(fragments, recovered_mask, recovered_total).
              let group' = group \<lparr> fg_present_mask := fg_present_mask group OR recovered_mask,
                                   fg_recovered_mask := fg_recovered_mask group OR recovered_mask \<rparr>
              in Ok (frame \<lparr> pf_fragments := fragments,
                             pf_fec_groups := (pf_fec_groups frame)[group_ix := group'] \<rparr>,
                     recovered_total, True, True)))"

definition recover_affected_group ::
  "rs_codec \<Rightarrow> partial_frame \<Rightarrow> nat \<Rightarrow> (partial_frame \<times> nat \<times> bool \<times> bool, reassembly_error) result" where
  "recover_affected_group rs frame group_ix =
     (if length (pf_fec_groups frame) \<le> group_ix then Panic
      else
        let group = pf_fec_groups frame ! group_ix;
            group_len = range_len (fg_range group)
        in if group_len < 2 then Ok (frame, 0, False, False)
           else rbind (u8_bit group_len) (\<lambda>top.
             let complete_mask = top - 1;
                 missing_mask = complete_mask AND NOT (fg_present_mask group);
                 missing_count = count_ones8 missing_mask
             in if missing_count = 0 \<or> missing_count > FEC_PARITY_SHARDS then Ok (frame, 0, True, False)
                else if missing_count > count_some (fg_parity_shards group) then Ok (frame, 0, True, False)
                else
                  let stored = flatten_opt (fg_parity_shards group)
                  in (case stored of
                        [] \<Rightarrow> Ok (frame, 0, True, False)
                      | first # _ \<Rightarrow>
                          let last_data_len = sps_last_data_len first
                          in if list_ex (\<lambda>shard. sps_last_data_len shard \<noteq> last_data_len) stored
                             then Ok (frame, 0, True, False)
                             else
                               let data = map (map_of (pf_fragments frame)) (range_list (fg_range group));
                                   parity = map (map_option sps_bytes) (fg_parity_shards group)
                               in (case reconstruct_fec_group rs data parity last_data_len of
                                     None \<Rightarrow> Ok (frame, 0, True, True)
                                   | Some rebuilt \<Rightarrow> apply_rebuilt frame group_ix missing_mask rebuilt))))"

section \<open>Operations of the reassembly map\<close>

definition is_keyframe :: "u8 \<Rightarrow> bool" where
  "is_keyframe flags \<longleftrightarrow> flags_contains flags KEYFRAME"

definition oldest_pending_pts_us :: "reassembly_map \<Rightarrow> nat option" where
  "oldest_pending_pts_us m = min_opt (map (\<lambda>(_, frame). pf_pts_us frame) (rm_frames m))"

definition oldest_unresolved_frame_id :: "reassembly_map \<Rightarrow> nat option" where
  "oldest_unresolved_frame_id m =
     min_opt (map (\<lambda>(key, _). fk_frame_id key) (rm_frames m) @ map fst (rm_frame_gaps m))"

definition next_expiration_at :: "reassembly_map \<Rightarrow> nat \<Rightarrow> nat option" where
  "next_expiration_at m max_age =
     min_opt (map (\<lambda>(_, frame). pf_first_fragment_at frame + max_age) (rm_frames m) @
              map (\<lambda>(_, noticed_at). noticed_at + max_age) (rm_frame_gaps m))"

definition remember_terminal :: "frame_key \<Rightarrow> reassembly_map \<Rightarrow> reassembly_map" where
  "remember_terminal key m =
     (let capacity = max (min (rm_max_frames m * 2) u64_max) 1;
          terminal = (if length (rm_terminal_frames m) \<ge> capacity
                      then (case min_by fk_frame_id (rm_terminal_frames m) of
                              None \<Rightarrow> rm_terminal_frames m
                            | Some oldest \<Rightarrow> removeAll oldest (rm_terminal_frames m))
                      else rm_terminal_frames m)
      in m \<lparr> rm_terminal_frames := List.insert key terminal \<rparr>)"

definition record_incomplete_drop :: "partial_frame \<Rightarrow> reassembly_map \<Rightarrow> reassembly_map" where
  "record_incomplete_drop frame m =
     (let missing = pf_fragment_count frame - as_u16 (length (pf_fragments frame))
      in m \<lparr> rm_reference_loss_pending :=
               (rm_reference_loss_pending m \<or> \<not> flags_contains (pf_flags frame) DISCARDABLE),
             rm_keyframe_loss_pending := (rm_keyframe_loss_pending m \<or> is_keyframe (pf_flags frame)),
             rm_missing_fragments := sat_add64 (rm_missing_fragments m) missing,
             rm_resolved_fragments := sat_add64 (rm_resolved_fragments m) (pf_fragment_count frame),
             rm_drops := sat_add64 (rm_drops m) 1,
             rm_partial_drops := sat_add64 (rm_partial_drops m) 1 \<rparr>)"

definition reset_pending_for_epoch :: "reassembly_map \<Rightarrow> reassembly_map" where
  "reset_pending_for_epoch m =
     m \<lparr> rm_frames := [], rm_highest_observed := None, rm_frame_gaps := [], rm_expired_through := None,
         rm_rejected_frames := [], rm_terminal_frames := [], rm_reference_loss_pending := False,
         rm_keyframe_loss_pending := False \<rparr>"

definition remove_frame :: "frame_key \<Rightarrow> reassembly_map \<Rightarrow> reassembly_map" where
  "remove_frame key m = m \<lparr> rm_frames := AList.delete key (rm_frames m) \<rparr>"

definition drop_oldest :: "reassembly_map \<Rightarrow> reassembly_map" where
  "drop_oldest m =
     (let oldest_non_keyframe =
            min_by fk_frame_id (map fst (filter (\<lambda>(_, frame). \<not> is_keyframe (pf_flags frame)) (rm_frames m)));
          oldest = (case oldest_non_keyframe of
                      None \<Rightarrow> min_by fk_frame_id (map fst (rm_frames m)) | Some key \<Rightarrow> Some key)
      in (case oldest of
            None \<Rightarrow> m
          | Some key \<Rightarrow>
              remember_terminal key
                (case map_of (rm_frames m) key of
                   None \<Rightarrow> m
                 | Some frame \<Rightarrow> record_incomplete_drop frame (remove_frame key m))))"

definition drop_oldest_rejected :: "reassembly_map \<Rightarrow> reassembly_map" where
  "drop_oldest_rejected m =
     (case min_by fk_frame_id (rm_rejected_frames m) of
        None \<Rightarrow> m
      | Some key \<Rightarrow> m \<lparr> rm_rejected_frames := removeAll key (rm_rejected_frames m) \<rparr>)"

definition raise_expired :: "nat \<Rightarrow> nat option \<Rightarrow> nat option" where
  "raise_expired frame_id expired = Some (case expired of None \<Rightarrow> frame_id | Some e \<Rightarrow> max e frame_id)"

definition expired_by :: "nat option \<Rightarrow> nat \<Rightarrow> bool" where
  "expired_by expired frame_id \<longleftrightarrow> (case expired of None \<Rightarrow> False | Some e \<Rightarrow> frame_id \<le> e)"

definition clear_pending :: "reassembly_map \<Rightarrow> reassembly_map" where
  "clear_pending m =
     (let abandoned = map fst (rm_frames m);
          latest_abandoned = max_opt (map fk_frame_id abandoned @ map fst (rm_frame_gaps m));
          m1 = m \<lparr> rm_frames := [],
                   rm_expired_through := (case latest_abandoned of
                                            None \<Rightarrow> rm_expired_through m
                                          | Some latest \<Rightarrow> raise_expired latest (rm_expired_through m)),
                   rm_frame_gaps := [] \<rparr>
      in fold remember_terminal abandoned m1)"

definition enter_epoch :: "nat \<Rightarrow> reassembly_map \<Rightarrow> reassembly_map" where
  "enter_epoch epoch m =
     (if epoch > rm_current_epoch m
      then (reset_pending_for_epoch m) \<lparr> rm_current_epoch := epoch \<rparr> else m)"

definition discard_stale_access_unit ::
  "nat \<Rightarrow> nat \<Rightarrow> u8 \<Rightarrow> reassembly_map \<Rightarrow> reassembly_map \<times> bool" where
  "discard_stale_access_unit stream_epoch frame_id flags m =
     (if stream_epoch < rm_current_epoch m then (m, False)
      else
        let m1 = enter_epoch stream_epoch m;
            key = \<lparr> fk_stream_epoch = stream_epoch, fk_frame_id = frame_id \<rparr>
        in if expired_by (rm_expired_through m1) frame_id \<or> key \<in> set (rm_terminal_frames m1)
           then (m1, False)
           else
             let effective_flags = (case map_of (rm_frames m1) key of
                                      None \<Rightarrow> flags | Some frame \<Rightarrow> pf_flags frame);
                 m2 = remove_frame key m1;
                 m3 = m2 \<lparr> rm_reference_loss_pending :=
                             (rm_reference_loss_pending m2 \<or> \<not> flags_contains effective_flags DISCARDABLE),
                           rm_keyframe_loss_pending :=
                             (rm_keyframe_loss_pending m2 \<or> is_keyframe effective_flags),
                           rm_frame_gaps := AList.delete frame_id (rm_frame_gaps m2),
                           rm_rejected_frames := removeAll key (rm_rejected_frames m2) \<rparr>;
                 m4 = remember_terminal key m3
             in (m4 \<lparr> rm_expired_through := raise_expired frame_id (rm_expired_through m4) \<rparr>, True))"

definition take_keyframe_loss :: "reassembly_map \<Rightarrow> bool \<times> reassembly_map" where
  "take_keyframe_loss m =
     (rm_keyframe_loss_pending m, m \<lparr> rm_keyframe_loss_pending := False \<rparr>)"

definition take_reference_chain_loss :: "reassembly_map \<Rightarrow> bool \<times> reassembly_map" where
  "take_reference_chain_loss m =
     (let pending = rm_reference_loss_pending m
      in (pending, m \<lparr> rm_reference_loss_pending := False,
                       rm_keyframe_loss_pending := (if pending then False else rm_keyframe_loss_pending m) \<rparr>))"

definition drop_expired_frame :: "frame_key \<Rightarrow> reassembly_map \<Rightarrow> reassembly_map" where
  "drop_expired_frame key m =
     (case map_of (rm_frames m) key of
        None \<Rightarrow> m | Some frame \<Rightarrow> record_incomplete_drop frame (remove_frame key m))"

definition expired_boundary :: "nat \<Rightarrow> reassembly_map \<Rightarrow> nat option" where
  "expired_boundary deadline m =
     (let partial = max_opt (map (\<lambda>(key, _). fk_frame_id key)
                       (filter (\<lambda>(_, frame). pf_first_fragment_at frame \<le> deadline) (rm_frames m)));
          gap = max_opt (map fst (filter (\<lambda>(_, noticed_at). noticed_at \<le> deadline) (rm_frame_gaps m)))
      in (case (partial, gap) of
            (Some p, Some g) \<Rightarrow> Some (max p g)
          | (None, g) \<Rightarrow> g
          | (p, None) \<Rightarrow> p))"

definition expire_incomplete_older_than :: "nat \<Rightarrow> nat \<Rightarrow> reassembly_map \<Rightarrow> reassembly_map" where
  "expire_incomplete_older_than now max_age m =
     (if now < max_age then m
      else
        (case expired_boundary (now - max_age) m of
           None \<Rightarrow> m
         | Some expired_through \<Rightarrow>
             let expired = filter (\<lambda>key. fk_frame_id key \<le> expired_through) (map fst (rm_frames m));
                 m1 = fold drop_expired_frame expired m;
                 expired_gaps = filter (\<lambda>frame_id. frame_id \<le> expired_through) (map fst (rm_frame_gaps m1));
                 m2 = (if expired_gaps = [] then m1
                       else m1 \<lparr> rm_reference_loss_pending := True,
                                 rm_drops := sat_add64 (rm_drops m1) (length expired_gaps),
                                 rm_gap_drops := sat_add64 (rm_gap_drops m1) (length expired_gaps),
                                 rm_frame_gaps := fold AList.delete expired_gaps (rm_frame_gaps m1) \<rparr>)
             in m2 \<lparr> rm_expired_through := raise_expired expired_through (rm_expired_through m2),
                     rm_rejected_frames :=
                       filter (\<lambda>rejected. expired_through < fk_frame_id rejected) (rm_rejected_frames m2) \<rparr>))"

text \<open>\<open>entry(id).or_insert(gap)\<close> for each id of \<open>first_missing..frame_id\<close>.\<close>

definition note_gap :: "nat \<Rightarrow> nat \<Rightarrow> (nat \<times> nat) list \<Rightarrow> (nat \<times> nat) list" where
  "note_gap now missing_id gaps =
     (case map_of gaps missing_id of None \<Rightarrow> AList.update missing_id now gaps | Some _ \<Rightarrow> gaps)"

definition gap_capacity :: "reassembly_map \<Rightarrow> nat" where
  "gap_capacity m = max (min (rm_max_frames m * 2) u64_max) 1"

definition observe_frame_id :: "nat \<Rightarrow> nat \<Rightarrow> reassembly_map \<Rightarrow> reassembly_map \<times> nat option" where
  "observe_frame_id frame_id now m =
     (let inferred = map_of (rm_frame_gaps m) frame_id;
          m1 = m \<lparr> rm_frame_gaps := AList.delete frame_id (rm_frame_gaps m) \<rparr>
      in (case rm_highest_observed m1 of
            None \<Rightarrow> (m1 \<lparr> rm_highest_observed := Some frame_id \<rparr>, inferred)
          | Some highest \<Rightarrow>
              if frame_id \<le> highest then (m1, inferred)
              else
                let first_missing = sat_add64 highest 1;
                    missing_count = frame_id - first_missing;
                    m2 = (if missing_count > gap_capacity m1
                          then m1 \<lparr> rm_frame_gaps := [],
                                    rm_expired_through := raise_expired (frame_id - 1) (rm_expired_through m1),
                                    rm_reference_loss_pending := True,
                                    rm_drops := sat_add64 (rm_drops m1) missing_count,
                                    rm_gap_drops := sat_add64 (rm_gap_drops m1) missing_count \<rparr>
                          else m1 \<lparr> rm_frame_gaps :=
                                      fold (note_gap now) [first_missing ..< frame_id] (rm_frame_gaps m1) \<rparr>)
                in (m2 \<lparr> rm_highest_observed := Some frame_id \<rparr>, inferred)))"

section \<open>Ingest\<close>

type_synonym ingest_result = "(assembled_access_unit option, reassembly_error) result"

definition packet_key :: "video_packet \<Rightarrow> frame_key" where
  "packet_key p = \<lparr> fk_stream_epoch = unat (vp_stream_epoch p), fk_frame_id = unat (vp_frame_id p) \<rparr>"

definition new_partial_frame :: "video_packet \<Rightarrow> nat \<Rightarrow> (partial_frame, reassembly_error) result" where
  "new_partial_frame p first_fragment_at =
     rbind (build_fec_state (vp_fragment_count p)) (\<lambda>(fec_groups, fragment_groups).
       Ok \<lparr> pf_fragments = [], pf_fec_groups = fec_groups, pf_fragment_groups = fragment_groups,
            pf_fragment_count = unat (vp_fragment_count p), pf_flags = vp_flags p,
            pf_pts_us = unat (vp_pts_us p), pf_encoded_at_us = unat (vp_encoded_at_us p),
            pf_first_fragment_at = first_fragment_at \<rparr>)"

definition reject_too_many :: "video_packet \<Rightarrow> reassembly_map \<Rightarrow> reassembly_map" where
  "reject_too_many p m =
     (let key = packet_key p;
          m1 = (if length (rm_rejected_frames m) \<ge> max (rm_max_frames m) 1
                then drop_oldest_rejected m else m)
      in if key \<in> set (rm_rejected_frames m1) then m1
         else m1 \<lparr> rm_rejected_frames := List.insert key (rm_rejected_frames m1),
                   rm_drops := sat_add64 (rm_drops m1) 1,
                   rm_reference_loss_pending :=
                     (rm_reference_loss_pending m1 \<or> \<not> flags_contains (vp_flags p) DISCARDABLE),
                   rm_keyframe_loss_pending :=
                     (rm_keyframe_loss_pending m1 \<or> is_keyframe (vp_flags p)) \<rparr>)"

text \<open>
  \<open>store_fragment\<close> is the part of the entry block that stores the packet in its frame: a parity
  shard in its group, a data fragment in the fragment map. \<open>Inl\<close> is an early return.
\<close>

definition store_fragment ::
  "partial_frame \<Rightarrow> video_packet \<Rightarrow> (ingest_result, partial_frame \<times> nat) sum" where
  "store_fragment frame p =
     (let index = unat (vp_fragment_index p)
      in if flags_contains (vp_flags p) FEC_PARITY
         then (case store_parity_shard frame index (vp_payload p) of
                 Ok (frame', group_ix) \<Rightarrow> Inr (frame', group_ix)
               | Err e \<Rightarrow> Inl (Err e)
               | Panic \<Rightarrow> Inl Panic)
         else if map_of (pf_fragments frame) index \<noteq> None
         then (case is_recovered_fragment frame index of
                 Ok True \<Rightarrow> Inl (Ok None)
               | Ok False \<Rightarrow> Inl (Err DuplicateFragment)
               | Err e \<Rightarrow> Inl (Err e)
               | Panic \<Rightarrow> Inl Panic)
         else (case mark_data_present
                      (frame \<lparr> pf_fragments := AList.update index (vp_payload p) (pf_fragments frame) \<rparr>) index of
                 Ok (frame', group_ix) \<Rightarrow> Inr (frame', group_ix)
               | Err e \<Rightarrow> Inl (Err e)
               | Panic \<Rightarrow> Inl Panic))"

definition semantic_flags :: u8 where "semantic_flags = KEYFRAME OR DISCARDABLE"

definition same_timeline :: "partial_frame \<Rightarrow> video_packet \<Rightarrow> bool" where
  "same_timeline frame p \<longleftrightarrow>
     pf_pts_us frame = unat (vp_pts_us p) \<and> pf_encoded_at_us frame = unat (vp_encoded_at_us p) \<and>
     pf_flags frame AND semantic_flags = vp_flags p AND semantic_flags"

definition put_frame :: "frame_key \<Rightarrow> partial_frame \<Rightarrow> reassembly_map \<Rightarrow> reassembly_map" where
  "put_frame key frame m = m \<lparr> rm_frames := AList.update key frame (rm_frames m) \<rparr>"

text \<open>
  The assembly loop \<open>for index in 0..entry.fragment_count\<close>: \<open>None\<close> when a fragment is absent.
\<close>

fun assemble :: "(nat \<times> bytes) list \<Rightarrow> nat list \<Rightarrow> bytes option" where
  "assemble fragments [] = Some []"
| "assemble fragments (index # rest) =
     (case map_of fragments index of
        None \<Rightarrow> None
      | Some chunk \<Rightarrow> map_option (\<lambda>bs. chunk @ bs) (assemble fragments rest))"

definition finish_frame ::
  "frame_key \<Rightarrow> partial_frame \<Rightarrow> reassembly_map \<Rightarrow> reassembly_map \<times> ingest_result" where
  "finish_frame key entry m =
     (if as_u16 (length (pf_fragments entry)) \<noteq> pf_fragment_count entry then (m, Ok None)
      else
        let m1 = remove_frame key m
        in (case assemble (pf_fragments entry) [0 ..< pf_fragment_count entry] of
              None \<Rightarrow> (remember_terminal key (record_incomplete_drop entry m1), Ok None)
            | Some assembled \<Rightarrow>
                let m2 = remember_terminal key m1
                in (m2 \<lparr> rm_resolved_fragments :=
                           sat_add64 (rm_resolved_fragments m2) (pf_fragment_count entry) \<rparr>,
                    Ok (Some \<lparr> au_data = assembled, au_frame_id = fk_frame_id key,
                               au_pts_us = pf_pts_us entry, au_encoded_at_us = pf_encoded_at_us entry,
                               au_keyframe = is_keyframe (pf_flags entry),
                               au_discardable = flags_contains (pf_flags entry) DISCARDABLE,
                               au_stream_epoch = fk_stream_epoch key,
                               au_fragment_count = pf_fragment_count entry,
                               au_first_fragment_at = pf_first_fragment_at entry \<rparr>))))"

definition ingest_entry ::
  "rs_codec \<Rightarrow> frame_key \<Rightarrow> partial_frame \<Rightarrow> video_packet \<Rightarrow> reassembly_map
     \<Rightarrow> reassembly_map \<times> ingest_result" where
  "ingest_entry rs key entry p m =
     (if pf_fragment_count entry \<noteq> unat (vp_fragment_count p)
      then (remember_terminal key (record_incomplete_drop entry (remove_frame key m)), Ok None)
      else if \<not> same_timeline entry p
      then (remember_terminal key (record_incomplete_drop entry (remove_frame key m)),
            Err InconsistentFrameMetadata)
      else
        (case store_fragment entry p of
           Inl r \<Rightarrow> (m, r)
         | Inr (entry1, group_ix) \<Rightarrow>
             (case recover_affected_group rs entry1 group_ix of
                Ok (entry2, recovered_now, group_checked, recovery_attempted) \<Rightarrow>
                  let m1 = put_frame key entry2 m
                  in finish_frame key entry2
                       (m1 \<lparr> rm_fec_recovered := sat_add64 (rm_fec_recovered m1) recovered_now,
                             rm_fec_group_checks :=
                               sat_add64 (rm_fec_group_checks m1) (if group_checked then 1 else 0),
                             rm_fec_recovery_attempts :=
                               sat_add64 (rm_fec_recovery_attempts m1) (if recovery_attempted then 1 else 0) \<rparr>)
              | Err e \<Rightarrow> (m, Err e)
              | Panic \<Rightarrow> (m, Panic))))"

text \<open>The capacity check before a new frame is created, and the check of a parity shard.\<close>

definition make_room :: "frame_key \<Rightarrow> reassembly_map \<Rightarrow> reassembly_map" where
  "make_room key m =
     (if length (rm_frames m) \<ge> rm_max_frames m \<and> map_of (rm_frames m) key = None
      then drop_oldest m else m)"

definition check_parity :: "video_packet \<Rightarrow> (unit, reassembly_error) result" where
  "check_parity p =
     (if flags_contains (vp_flags p) FEC_PARITY
      then validate_parity_shard (vp_fragment_count p) (vp_fragment_index p) (vp_payload p)
      else Ok ())"

text \<open>The frame of the packet, created when it is absent; then the entry block.\<close>

definition ingest_admitted ::
  "rs_codec \<Rightarrow> video_packet \<Rightarrow> nat \<Rightarrow> reassembly_map \<Rightarrow> reassembly_map \<times> ingest_result" where
  "ingest_admitted rs p first_fragment_at m =
     (let key = packet_key p
      in (case check_parity p of
            Err e \<Rightarrow> (m, Err e)
          | Panic \<Rightarrow> (m, Panic)
          | Ok _ \<Rightarrow>
              (case map_of (rm_frames m) key of
                 Some entry \<Rightarrow> ingest_entry rs key entry p m
               | None \<Rightarrow>
                   (case new_partial_frame p first_fragment_at of
                      Ok entry \<Rightarrow> ingest_entry rs key entry p (put_frame key entry m)
                    | Err e \<Rightarrow> (m, Err e)
                    | Panic \<Rightarrow> (m, Panic)))))"

definition ingest_at ::
  "rs_codec \<Rightarrow> video_packet \<Rightarrow> nat \<Rightarrow> reassembly_map \<Rightarrow> reassembly_map \<times> ingest_result" where
  "ingest_at rs p now m =
     (if unat (vp_stream_epoch p) < rm_current_epoch m then (m, Ok None)
      else
        let m1 = enter_epoch (unat (vp_stream_epoch p)) m;
            key = packet_key p;
            (m2, inferred) = observe_frame_id (unat (vp_frame_id p)) now m1
        in if expired_by (rm_expired_through m2) (unat (vp_frame_id p)) \<or> key \<in> set (rm_terminal_frames m2)
           then (m2, Ok None)
           else if key \<in> set (rm_rejected_frames m2) then (m2, Err TooManyFragments)
           else if unat (vp_fragment_count p) > rm_max_fragments m2
           then (reject_too_many p m2, Err TooManyFragments)
           else ingest_admitted rs p (case inferred of None \<Rightarrow> now | Some t \<Rightarrow> t) (make_room key m2))"

end
