(* ===== verification/Reassembly_Inv.thy ===== *)
theory Reassembly_Inv
  imports Reassembly
begin

text \<open>
  The invariant of the reassembly map: the erasure groups of every pending frame follow the
  partition of its fragments, the presence masks agree with the stored fragments, the bounded
  collections stay bounded. Every operation keeps it, and under it no operation panics.
\<close>

section \<open>Bytes as bit masks\<close>

lemma u8_bit_Ok [simp]: "n < 8 \<Longrightarrow> u8_bit n = Ok (2 ^ n)"
  by (simp add: u8_bit_def)

lemma bit_u8_single [simp]: "bit (2 ^ n :: u8) i \<longleftrightarrow> i = n \<and> n < 8"
  by (auto simp: bit_exp_iff possible_bit_word)

lemma and_single_eq_0: "n < 8 \<Longrightarrow> w AND 2 ^ n = (0 :: u8) \<longleftrightarrow> \<not> bit w n"
  unfolding bit_eq_iff [of "w AND 2 ^ n" "0 :: u8"] by (auto simp: bit_and_iff)

lemma bit_complete_mask: "n < 8 \<Longrightarrow> bit (2 ^ n - 1 :: u8) i \<longleftrightarrow> i < n"
  by (auto simp: mask_eq_exp_minus_1 [symmetric] bit_mask_iff possible_bit_word)

section \<open>Well-formed frames\<close>

definition group_ok :: "(nat \<times> bytes) list \<Rightarrow> fec_group_state \<Rightarrow> bool" where
  "group_ok frags gr \<longleftrightarrow>
     length (fg_parity_shards gr) = FEC_PARITY_SHARDS \<and>
     (\<forall>off < range_len (fg_range gr).
        (bit (fg_present_mask gr) off \<longleftrightarrow> map_of frags (fst (fg_range gr) + off) \<noteq> None) \<and>
        (bit (fg_recovered_mask gr) off \<longrightarrow> bit (fg_present_mask gr) off))"

definition index_ok :: "u16 \<Rightarrow> nat list \<Rightarrow> bool" where
  "index_ok c fgs \<longleftrightarrow> length fgs = unat c \<and>
     (\<forall>i < unat c. fgs ! i < length (fec_group_ranges c) \<and>
        range_contains (fec_group_ranges c ! (fgs ! i)) i)"

definition frame_wf :: "u16 \<Rightarrow> partial_frame \<Rightarrow> bool" where
  "frame_wf c frame \<longleftrightarrow> c \<noteq> 0 \<and> pf_fragment_count frame = unat c \<and> hm_ok (pf_fragments frame) \<and>
     (\<forall>i \<in> fst ` set (pf_fragments frame). i < unat c) \<and>
     map fg_range (pf_fec_groups frame) = fec_group_ranges c \<and>
     index_ok c (pf_fragment_groups frame) \<and>
     (\<forall>gr \<in> set (pf_fec_groups frame). group_ok (pf_fragments frame) gr)"

definition frame_pending :: "partial_frame \<Rightarrow> bool" where
  "frame_pending frame \<longleftrightarrow> (\<exists>c. frame_wf c frame \<and> length (pf_fragments frame) < unat c)"

lemma fec_range_unique:
  assumes "c \<noteq> 0" "g < fec_gc c" "h < fec_gc c"
    "range_contains (fec_group_ranges c ! g) i" "range_contains (fec_group_ranges c ! h) i"
  shows "g = h"
proof (rule ccontr)
  assume "g \<noteq> h"
  then have "fec_off c (Suc g) \<le> fec_off c h \<or> fec_off c (Suc h) \<le> fec_off c g"
    using fec_off_mono [of "Suc g" h c] fec_off_mono [of "Suc h" g c] by linarith
  then show False using assms by (auto simp: fec_range_of range_contains_def)
qed

lemma fec_range_len:
  assumes "r \<in> set (fec_group_ranges c)"
  shows "1 \<le> range_len r" "range_len r \<le> 6" "snd r \<le> unat c"
proof -
  from fec_groups_bounds [of c] assms show "1 \<le> range_len r" "range_len r \<le> 6"
    by (auto simp: list_all_iff)
  then have "snd r - 1 \<in> set (range_list r)" by (auto simp: range_len_def range_list_def)
  then have "snd r - 1 \<in> set (concat (map range_list (fec_group_ranges c)))" using assms by auto
  then have "snd r - 1 < unat c" by (simp add: fec_groups_concat)
  then show "snd r \<le> unat c" by simp
qed

lemma frame_wf_groups:
  assumes "frame_wf c frame"
  shows "length (pf_fec_groups frame) = length (fec_group_ranges c)"
    and "g < length (pf_fec_groups frame) \<Longrightarrow> fg_range (pf_fec_groups frame ! g) = fec_group_ranges c ! g"
proof -
  from assms have eq: "map fg_range (pf_fec_groups frame) = fec_group_ranges c"
    by (simp add: frame_wf_def)
  then show len: "length (pf_fec_groups frame) = length (fec_group_ranges c)"
    by (metis length_map)
  show "g < length (pf_fec_groups frame) \<Longrightarrow> fg_range (pf_fec_groups frame ! g) = fec_group_ranges c ! g"
    by (metis eq nth_map)
qed

text \<open>The group of a fragment: where \<open>fragment_groups\<close> points, and what is known there.\<close>

lemma frame_wf_group_of:
  assumes wf: "frame_wf c frame" and i: "i < unat c"
  defines "g \<equiv> pf_fragment_groups frame ! i"
  shows "i < length (pf_fragment_groups frame)" "g < length (pf_fec_groups frame)"
    and "fst (fg_range (pf_fec_groups frame ! g)) \<le> i"
    and "i - fst (fg_range (pf_fec_groups frame ! g)) < range_len (fg_range (pf_fec_groups frame ! g))"
    and "range_len (fg_range (pf_fec_groups frame ! g)) \<le> 6"
proof -
  have idx: "index_ok c (pf_fragment_groups frame)" using wf by (simp add: frame_wf_def)
  then show "i < length (pf_fragment_groups frame)" using i by (simp add: index_ok_def)
  have g: "g < length (fec_group_ranges c)" "range_contains (fec_group_ranges c ! g) i"
    using idx i by (simp_all add: index_ok_def g_def)
  then show gl: "g < length (pf_fec_groups frame)" using frame_wf_groups [OF wf] by simp
  have r: "fg_range (pf_fec_groups frame ! g) = fec_group_ranges c ! g"
    using frame_wf_groups(2) [OF wf gl] .
  show "fst (fg_range (pf_fec_groups frame ! g)) \<le> i"
    "i - fst (fg_range (pf_fec_groups frame ! g)) < range_len (fg_range (pf_fec_groups frame ! g))"
    using g by (auto simp: r range_contains_def range_len_def)
  show "range_len (fg_range (pf_fec_groups frame ! g)) \<le> 6"
    using g fec_range_len(2) [of "fec_group_ranges c ! g" c] by (simp add: r)
qed

lemma group_okD:
  assumes "group_ok frags gr" "off < range_len (fg_range gr)"
  shows "bit (fg_present_mask gr) off \<longleftrightarrow> map_of frags (fst (fg_range gr) + off) \<noteq> None"
    and "bit (fg_recovered_mask gr) off \<Longrightarrow> bit (fg_present_mask gr) off"
  using assms by (auto simp: group_ok_def)

section \<open>A new frame\<close>

lemma assign_group_Ok:
  "\<forall>i \<in> set is. i < length gs \<Longrightarrow>
     \<exists>gs'. assign_group g is gs = Ok gs' \<and> length gs' = length gs \<and>
           (\<forall>i < length gs. gs' ! i = (if i \<in> set is then g else gs ! i))"
proof (induction "is" arbitrary: gs)
  case (Cons j js)
  then have "\<forall>i \<in> set js. i < length (gs[j := g])" by simp
  from Cons.IH [OF this] obtain gs' where "assign_group g js (gs[j := g]) = Ok gs'" "length gs' = length gs"
      "\<forall>i < length gs. gs' ! i = (if i \<in> set js then g else gs[j := g] ! i)"
    unfolding length_list_update by (elim exE conjE) (rule that)
  with Cons.prems show ?case by (auto simp: nth_list_update)
qed simp

lemma assign_groups_Ok:
  assumes "c \<noteq> 0" "n \<le> fec_gc c"
  shows "\<exists>gs. rfold (\<lambda>(g, r). assign_group g (range_list r))
                 (map (\<lambda>g. (g, fec_off c g, fec_off c (Suc g))) [0 ..< n]) (replicate (unat c) 0) = Ok gs \<and>
              length gs = unat c \<and>
              (\<forall>i < fec_off c n. gs ! i < n \<and> fec_off c (gs ! i) \<le> i \<and> i < fec_off c (Suc (gs ! i)))"
  using assms(2)
proof (induction n)
  case 0
  show ?case by (simp add: fec_off_def)
next
  case (Suc n)
  obtain gs where gs: "rfold (\<lambda>(g, r). assign_group g (range_list r))
       (map (\<lambda>g. (g, fec_off c g, fec_off c (Suc g))) [0 ..< n]) (replicate (unat c) 0) = Ok gs"
       "length gs = unat c"
       "\<forall>i < fec_off c n. gs ! i < n \<and> fec_off c (gs ! i) \<le> i \<and> i < fec_off c (Suc (gs ! i))"
    using Suc.IH [OF Suc_leD [OF Suc.prems]] by (elim exE conjE) (rule that)
  have "fec_off c (Suc n) \<le> unat c"
    using fec_off_mono [OF Suc.prems, of c] fec_off_end [OF assms(1)] by simp
  then have within: "\<forall>i \<in> set [fec_off c n ..< fec_off c (Suc n)]. i < length gs" using gs(2) by auto
  obtain gs' where gs': "assign_group n [fec_off c n ..< fec_off c (Suc n)] gs = Ok gs'"
      "length gs' = length gs"
      "\<forall>i < length gs. gs' ! i = (if i \<in> set [fec_off c n ..< fec_off c (Suc n)] then n else gs ! i)"
    using assign_group_Ok [OF within] by blast
  have "gs' ! i < Suc n \<and> fec_off c (gs' ! i) \<le> i \<and> i < fec_off c (Suc (gs' ! i))"
    if i: "i < fec_off c (Suc n)" for i
    using gs(3) gs'(3) within that \<open>fec_off c (Suc n) \<le> unat c\<close> gs(2)
    by (cases "i < fec_off c n") (auto simp: not_less intro: less_SucI)
  with gs gs' show ?case by (auto simp: rfold_append range_list_def)
qed

lemma enumerate_ranges:
  "c \<noteq> 0 \<Longrightarrow> enumerate 0 (fec_group_ranges c) =
     map (\<lambda>g. (g, fec_off c g, fec_off c (Suc g))) [0 ..< fec_gc c]"
  by (simp add: fec_group_ranges_eq enumerate_map_upt)

lemma group_ok_new: "group_ok [] (new_group r)"
  by (simp add: group_ok_def new_group_def)

lemma new_partial_frame_eq:
  assumes "rfold (\<lambda>(g, r). assign_group g (range_list r)) (enumerate 0 (fec_group_ranges (vp_fragment_count p)))
       (replicate (unat (vp_fragment_count p)) 0) = Ok gs"
  shows "new_partial_frame p t = Ok
     \<lparr> pf_fragments = [], pf_fec_groups = map new_group (fec_group_ranges (vp_fragment_count p)),
       pf_fragment_groups = gs, pf_fragment_count = unat (vp_fragment_count p), pf_flags = vp_flags p,
       pf_pts_us = unat (vp_pts_us p), pf_encoded_at_us = unat (vp_encoded_at_us p),
       pf_first_fragment_at = t \<rparr>"
  using assms by (simp add: new_partial_frame_def build_fec_state_def Let_def)

lemma new_partial_frame_Ok:
  assumes "vp_fragment_count p \<noteq> 0"
  obtains frame where "new_partial_frame p t = Ok frame" "frame_wf (vp_fragment_count p) frame"
    "pf_fragments frame = []" "pf_flags frame = vp_flags p" "pf_pts_us frame = unat (vp_pts_us p)"
    "pf_encoded_at_us frame = unat (vp_encoded_at_us p)" "pf_first_fragment_at frame = t"
    "pf_fec_groups frame = map new_group (fec_group_ranges (vp_fragment_count p))"
proof -
  let ?c = "vp_fragment_count p"
  obtain gs where gs: "rfold (\<lambda>(g, r). assign_group g (range_list r)) (enumerate 0 (fec_group_ranges ?c))
       (replicate (unat ?c) 0) = Ok gs" "length gs = unat ?c"
      "\<forall>i < unat ?c. gs ! i < fec_gc ?c \<and> fec_off ?c (gs ! i) \<le> i \<and> i < fec_off ?c (Suc (gs ! i))"
    using assign_groups_Ok [OF assms order_refl] fec_off_end [OF assms] enumerate_ranges [OF assms] by auto
  have "index_ok ?c gs"
    using gs assms by (simp add: index_ok_def fec_group_ranges_eq range_contains_def)
  moreover have "map fg_range (map new_group rs) = rs" for rs
    by (simp add: comp_def new_group_def)
  ultimately show thesis
    using that [OF new_partial_frame_eq [OF gs(1)]] gs(1,2) assms
    by (simp add: frame_wf_def hm_ok_def group_ok_new comp_def)
qed

section \<open>Storing one fragment\<close>

lemma group_ok_other:
  assumes "group_ok frags gr" "\<not> range_contains (fg_range gr) i"
  shows "group_ok (AList.update i bs frags) gr"
proof -
  have "fst (fg_range gr) + off \<noteq> i" if "off < range_len (fg_range gr)" for off
    using assms(2) that by (auto simp: range_contains_def range_len_def)
  then show ?thesis using assms(1) by (auto simp: group_ok_def update_conv')
qed

lemma set_fragments_groups:
  assumes wf: "frame_wf c frame" and g: "g < length (pf_fec_groups frame)"
    and frags: "hm_ok frags" "\<forall>i \<in> fst ` set frags. i < unat c"
    and same: "fg_range gr = fg_range (pf_fec_groups frame ! g)"
    and new: "group_ok frags gr"
    and others: "\<And>h. h < length (pf_fec_groups frame) \<Longrightarrow> h \<noteq> g \<Longrightarrow> group_ok frags (pf_fec_groups frame ! h)"
  shows "frame_wf c (frame \<lparr> pf_fragments := frags, pf_fec_groups := (pf_fec_groups frame)[g := gr] \<rparr>)"
proof -
  have "map fg_range ((pf_fec_groups frame)[g := gr]) = map fg_range (pf_fec_groups frame)"
    using same g by (metis list_update_id map_update)
  moreover have "\<forall>x \<in> set ((pf_fec_groups frame)[g := gr]). group_ok frags x"
    using new others g unfolding all_set_conv_all_nth by (auto simp: nth_list_update)
  ultimately show ?thesis using wf frags by (simp add: frame_wf_def)
qed

text \<open>\<open>same_identity\<close>: the metadata of a frame, which no later packet changes.\<close>

definition same_identity :: "partial_frame \<Rightarrow> partial_frame \<Rightarrow> bool" where
  "same_identity f f' \<longleftrightarrow> pf_fragment_count f' = pf_fragment_count f \<and> pf_flags f' = pf_flags f \<and>
     pf_pts_us f' = pf_pts_us f \<and> pf_encoded_at_us f' = pf_encoded_at_us f \<and>
     pf_first_fragment_at f' = pf_first_fragment_at f \<and> pf_fragment_groups f' = pf_fragment_groups f"

lemma same_identity_trans: "same_identity f f' \<Longrightarrow> same_identity f' f'' \<Longrightarrow> same_identity f f''"
  by (simp add: same_identity_def)

lemma mark_data_present_Ok:
  assumes wf: "frame_wf c frame" and i: "i < unat c" and new: "map_of (pf_fragments frame) i = None"
  obtains frame' where
    "mark_data_present (frame \<lparr> pf_fragments := AList.update i bs (pf_fragments frame) \<rparr>) i =
       Ok (frame', pf_fragment_groups frame ! i)"
    "frame_wf c frame'" "pf_fragments frame' = AList.update i bs (pf_fragments frame)"
    "map fg_parity_shards (pf_fec_groups frame') = map fg_parity_shards (pf_fec_groups frame)"
    "same_identity frame frame'"
proof -
  define g where "g = pf_fragment_groups frame ! i"
  define gr where "gr = pf_fec_groups frame ! g"
  define off where "off = i - fst (fg_range gr)"
  define gr' where "gr' = gr \<lparr> fg_present_mask := fg_present_mask gr OR 2 ^ off \<rparr>"
  note gro = frame_wf_group_of [OF wf i, folded g_def gr_def]
  have off: "off < range_len (fg_range gr)" "off < 8" "fst (fg_range gr) + off = i"
    using gro by (simp_all add: off_def)
  define frame' where "frame' = frame \<lparr> pf_fragments := AList.update i bs (pf_fragments frame),
      pf_fec_groups := (pf_fec_groups frame)[g := gr'] \<rparr>"
  have ok: "group_ok (pf_fragments frame) gr"
    using wf gro(2) by (simp add: frame_wf_def gr_def)
  have "group_ok (AList.update i bs (pf_fragments frame)) gr'"
    using ok off by (auto simp: group_ok_def gr'_def bit_or_iff update_conv')
  moreover have "group_ok (AList.update i bs (pf_fragments frame)) (pf_fec_groups frame ! h)"
    if h: "h < length (pf_fec_groups frame)" "h \<noteq> g" for h
  proof (rule group_ok_other)
    show "group_ok (pf_fragments frame) (pf_fec_groups frame ! h)" using wf h by (simp add: frame_wf_def)
    have c: "c \<noteq> 0" "length (pf_fec_groups frame) = fec_gc c"
      using wf by (auto simp: frame_wf_def frame_wf_groups [OF wf] fec_group_ranges_eq)
    have "range_contains (fec_group_ranges c ! g) i"
      using wf i by (simp add: frame_wf_def index_ok_def g_def)
    then show "\<not> range_contains (fg_range (pf_fec_groups frame ! h)) i"
      using fec_range_unique [OF c(1), of h g i] h gro(2) c frame_wf_groups(2) [OF wf] by auto
  qed
  ultimately have "frame_wf c frame'"
    unfolding frame'_def
    using wf gro(2) i
    by (intro set_fragments_groups [OF wf])
      (auto simp: gr'_def gr_def frame_wf_def hm_ok_def distinct_update dom_update)
  moreover have "mark_data_present (frame \<lparr> pf_fragments := AList.update i bs (pf_fragments frame) \<rparr>) i =
      Ok (frame', g)"
    using gro off by (simp add: mark_data_present_def Let_def frame'_def gr'_def off_def g_def gr_def)
  moreover have "map fg_parity_shards ((pf_fec_groups frame)[g := gr']) = map fg_parity_shards (pf_fec_groups frame)"
    using gro(2) by (simp add: map_update gr'_def gr_def list_update_same_conv)
  ultimately show thesis
    using that [of frame'] by (simp add: frame'_def g_def same_identity_def)
qed

lemma validate_parity_shard_Ok:
  assumes "validate_parity_shard c start payload = Ok u"
  shows "3 < length payload" "unat (payload ! 0) < 2" "start < c"
  using assms
  by (auto simp: validate_parity_shard_def Let_def wire_constants fec_constants fec_group_for_fragment_def
      split: if_splits option.splits)

lemma validate_parity_shard_no_panic: "validate_parity_shard c start payload \<noteq> Panic"
  by (simp add: validate_parity_shard_def Let_def)

lemma store_parity_shard_wf:
  assumes wf: "frame_wf c frame" and v: "validate_parity_shard c x payload = Ok u"
  shows "store_parity_shard frame (unat x) payload \<noteq> Panic"
    and "store_parity_shard frame (unat x) payload = Ok (frame', g) \<Longrightarrow>
         frame_wf c frame' \<and> g < length (pf_fec_groups frame') \<and>
         pf_fragments frame' = pf_fragments frame \<and> same_identity frame frame'"
proof -
  note v' = validate_parity_shard_Ok [OF v]
  have x: "unat x < unat c" using v'(3) by (simp add: word_less_nat_alt)
  note gro = frame_wf_group_of [OF wf x]
  let ?g = "pf_fragment_groups frame ! unat x"
  let ?gr = "pf_fec_groups frame ! ?g"
  have ok: "group_ok (pf_fragments frame) ?gr" using wf gro(2) by (simp add: frame_wf_def)
  then have two: "length (fg_parity_shards ?gr) = 2" by (simp add: group_ok_def fec_constants)
  show "store_parity_shard frame (unat x) payload \<noteq> Panic"
    using v' gro(1,2) two by (simp add: store_parity_shard_def Let_def wire_constants)
  assume st: "store_parity_shard frame (unat x) payload = Ok (frame', g)"
  obtain sh where f: "g = ?g" "frame' = frame \<lparr> pf_fec_groups := (pf_fec_groups frame)[?g :=
      ?gr \<lparr> fg_parity_shards := (fg_parity_shards ?gr)[unat (payload ! 0) := Some sh] \<rparr>] \<rparr>"
    using st by (auto simp: store_parity_shard_def Let_def split: if_splits)
  have "frame_wf c (frame \<lparr> pf_fragments := pf_fragments frame, pf_fec_groups := (pf_fec_groups frame)[?g :=
      ?gr \<lparr> fg_parity_shards := (fg_parity_shards ?gr)[unat (payload ! 0) := Some sh] \<rparr>] \<rparr>)"
    using wf ok by (intro set_fragments_groups [OF wf gro(2)]) (auto simp: frame_wf_def group_ok_def)
  then show "frame_wf c frame' \<and> g < length (pf_fec_groups frame') \<and>
      pf_fragments frame' = pf_fragments frame \<and> same_identity frame frame'"
    using f gro(2) by (simp add: same_identity_def)
qed

lemma is_recovered_fragment_Ok:
  assumes "frame_wf c frame" "i < unat c"
  shows "\<exists>b. is_recovered_fragment frame i = Ok b"
  using frame_wf_group_of [OF assms] by (simp add: is_recovered_fragment_def Let_def)

section \<open>Recovery\<close>

text \<open>
  \<open>filled\<close> lists the offsets the rebuilding loop stores: missing before, and produced by the codec.
\<close>

definition filled :: "u8 \<Rightarrow> (nat \<times> bytes option) list \<Rightarrow> nat set" where
  "filled missing rebuilt = {off. bit missing off \<and> (\<exists>bs. (off, Some bs) \<in> set rebuilt)}"

lemma filled_Cons:
  "filled missing ((off, sh) # rest) =
     (if bit missing off \<and> sh \<noteq> None then insert off (filled missing rest) else filled missing rest)"
  by (auto simp: filled_def)

lemma store_rebuilt_Ok:
  assumes "\<forall>(off, sh) \<in> set rebuilt. off < 8" "hm_ok frags"
  shows "\<exists>frags' rmask' n'. store_rebuilt missing start rebuilt (frags, rmask, n) = Ok (frags', rmask', n') \<and>
     hm_ok frags' \<and> (\<forall>off. bit rmask' off \<longleftrightarrow> bit rmask off \<or> off \<in> filled missing rebuilt) \<and>
     dom (map_of frags') = dom (map_of frags) \<union> (\<lambda>off. start + off) ` filled missing rebuilt \<and>
     (\<forall>i. i \<notin> (\<lambda>off. start + off) ` filled missing rebuilt \<longrightarrow> map_of frags' i = map_of frags i)"
  using assms
proof (induction rebuilt arbitrary: frags rmask n)
  case Nil
  then show ?case by (simp add: filled_def)
next
  case (Cons x rest)
  obtain off sh where x: "x = (off, sh)" by force
  have off: "off < 8" and rest: "\<forall>(off, sh) \<in> set rest. off < 8" using Cons.prems x by auto
  show ?case
  proof (cases "bit missing off \<and> sh \<noteq> None")
    case False
    then show ?thesis
      using Cons.IH [OF rest Cons.prems(2), of rmask n] off
      by (auto simp: x filled_Cons and_single_eq_0 split: option.splits)
  next
    case True
    then obtain bs where sh: "sh = Some bs" by auto
    have "hm_ok (AList.update (start + off) bs frags)"
      using Cons.prems(2) by (simp add: hm_ok_def distinct_update)
    from Cons.IH [OF rest this, of "rmask OR 2 ^ off" "n + 1"] obtain frags' rmask' n' where
      ih: "store_rebuilt missing start rest (AList.update (start + off) bs frags, rmask OR 2 ^ off, n + 1)
             = Ok (frags', rmask', n')" "hm_ok frags'"
          "\<forall>o'. bit rmask' o' \<longleftrightarrow> bit (rmask OR 2 ^ off) o' \<or> o' \<in> filled missing rest"
          "dom (map_of frags') = dom (map_of (AList.update (start + off) bs frags)) \<union>
             (\<lambda>off. start + off) ` filled missing rest"
          "\<forall>i. i \<notin> (\<lambda>off. start + off) ` filled missing rest \<longrightarrow>
             map_of frags' i = map_of (AList.update (start + off) bs frags) i"
      by (elim exE conjE) (rule that)
    have f: "filled missing (x # rest) = insert off (filled missing rest)"
      using True by (simp add: x filled_Cons)
    have "store_rebuilt missing start (x # rest) (frags, rmask, n) = Ok (frags', rmask', n')"
      using ih(1) True off by (simp add: x sh and_single_eq_0)
    moreover have "bit rmask' o' \<longleftrightarrow> bit rmask o' \<or> o' \<in> filled missing (x # rest)" for o'
      using ih(3) off by (auto simp: f bit_or_iff)
    moreover have "dom (map_of frags') = dom (map_of frags) \<union>
        (\<lambda>off. start + off) ` filled missing (x # rest)"
      using ih(4) by (auto simp: f update_conv')
    moreover have "map_of frags' i = map_of frags i"
      if "i \<notin> (\<lambda>off. start + off) ` filled missing (x # rest)" for i
      using ih(5) that by (auto simp: f update_conv')
    ultimately show ?thesis using ih(2) by blast
  qed
qed

lemma length_range_list [simp]: "length (range_list r) = range_len r"
  by (simp add: range_list_def range_len_def)

lemma reconstruct_length:
  assumes "reconstruct_fec_group rs data parity l = Some out"
  shows "length out \<le> length data"
  using assms by (auto simp: reconstruct_fec_group_def Let_def split: if_splits option.splits)

text \<open>Rebuilt shards fill holes of their own group; nothing stored is overwritten.\<close>

lemma rebuilt_frame_wf:
  assumes wf: "frame_wf c frame" and g: "g < length (pf_fec_groups frame)"
  defines "gr \<equiv> pf_fec_groups frame ! g"
  defines "missing \<equiv> (2 ^ range_len (fg_range gr) - 1) AND NOT (fg_present_mask gr)"
  assumes rebuilt: "length rebuilt \<le> range_len (fg_range gr)"
    and st: "store_rebuilt missing (fst (fg_range gr)) (enumerate 0 rebuilt) (pf_fragments frame, 0, 0)
               = Ok (frags', rmask, n)"
  shows "frame_wf c (frame \<lparr> pf_fragments := frags', pf_fec_groups := (pf_fec_groups frame)[g :=
            gr \<lparr> fg_present_mask := fg_present_mask gr OR rmask,
                 fg_recovered_mask := fg_recovered_mask gr OR rmask \<rparr>] \<rparr>)"
    and "\<forall>i. map_of (pf_fragments frame) i \<noteq> None \<longrightarrow> map_of frags' i = map_of (pf_fragments frame) i"
proof -
  let ?start = "fst (fg_range gr)" and ?len = "range_len (fg_range gr)"
  let ?F = "filled missing (enumerate 0 rebuilt)"
  have r: "fg_range gr = fec_group_ranges c ! g" "g < length (fec_group_ranges c)"
    using frame_wf_groups [OF wf] g by (simp_all add: gr_def)
  have len6: "?len \<le> 6" and end_le: "snd (fg_range gr) \<le> unat c"
    using fec_range_len [of "fg_range gr" c] r by simp_all
  have ok: "group_ok (pf_fragments frame) gr" using wf g by (simp add: frame_wf_def gr_def)
  have hm: "hm_ok (pf_fragments frame)" using wf by (simp add: frame_wf_def)
  have miss: "bit missing off \<longleftrightarrow> off < ?len \<and> \<not> bit (fg_present_mask gr) off" if "off < 8" for off
    using that len6 by (auto simp: missing_def bit_and_iff bit_not_iff bit_complete_mask possible_bit_word)
  have off8: "\<forall>(off, sh) \<in> set (enumerate 0 rebuilt). off < 8"
    using rebuilt len6 by (auto simp: in_set_enumerate_eq)
  have F: "off < ?len \<and> \<not> bit (fg_present_mask gr) off" if "off \<in> ?F" for off
    using that miss [of off] rebuilt len6 by (auto simp: filled_def in_set_enumerate_eq)
  from store_rebuilt_Ok [OF off8 hm, of missing ?start 0 0] st
  have res: "hm_ok frags'" "\<forall>off. bit rmask off \<longleftrightarrow> off \<in> ?F"
      "dom (map_of frags') = dom (map_of (pf_fragments frame)) \<union> (\<lambda>off. ?start + off) ` ?F"
      "\<forall>i. i \<notin> (\<lambda>off. ?start + off) ` ?F \<longrightarrow> map_of frags' i = map_of (pf_fragments frame) i"
    by auto
  have hole: "map_of (pf_fragments frame) (?start + off) = None" if "off \<in> ?F" for off
    using F [OF that] group_okD(1) [OF ok, of off] by simp
  then show "\<forall>i. map_of (pf_fragments frame) i \<noteq> None \<longrightarrow> map_of frags' i = map_of (pf_fragments frame) i"
    using res(4) hole by (metis imageE)
  let ?gr' = "gr \<lparr> fg_present_mask := fg_present_mask gr OR rmask,
                   fg_recovered_mask := fg_recovered_mask gr OR rmask \<rparr>"
  have look: "map_of frags' (?start + off) \<noteq> None \<longleftrightarrow>
      map_of (pf_fragments frame) (?start + off) \<noteq> None \<or> off \<in> ?F" for off
  proof -
    have "?start + off \<in> dom (map_of frags') \<longleftrightarrow> ?start + off \<in> dom (map_of (pf_fragments frame)) \<or> off \<in> ?F"
      unfolding res(3) by auto
    then show ?thesis by (simp add: domIff)
  qed
  have new: "group_ok frags' ?gr'"
  proof -
    have "length (fg_parity_shards ?gr') = FEC_PARITY_SHARDS" using ok by (simp add: group_ok_def)
    moreover have "bit (fg_present_mask ?gr') off \<longleftrightarrow> map_of frags' (fst (fg_range ?gr') + off) \<noteq> None"
      "bit (fg_recovered_mask ?gr') off \<longrightarrow> bit (fg_present_mask ?gr') off"
      if "off < range_len (fg_range ?gr')" for off
      using group_okD [OF ok, of off] look [of off] res(2) that by (auto simp: bit_or_iff)
    ultimately show ?thesis unfolding group_ok_def by blast
  qed
  have others: "group_ok frags' (pf_fec_groups frame ! h)"
    if h: "h < length (pf_fec_groups frame)" "h \<noteq> g" for h
  proof -
    let ?h = "pf_fec_groups frame ! h"
    have okh: "group_ok (pf_fragments frame) ?h" using wf h by (simp add: frame_wf_def)
    have c: "c \<noteq> 0" "length (pf_fec_groups frame) = fec_gc c"
      using wf by (auto simp: frame_wf_def frame_wf_groups [OF wf] fec_group_ranges_eq)
    have "fst (fg_range ?h) + off \<noteq> ?start + o'" if "off < range_len (fg_range ?h)" "o' \<in> ?F" for off o'
    proof
      assume eq: "fst (fg_range ?h) + off = ?start + o'"
      have "range_contains (fec_group_ranges c ! h) (?start + o')"
        using that(1) eq frame_wf_groups(2) [OF wf h(1)] by (auto simp: range_contains_def range_len_def)
      moreover have "range_contains (fec_group_ranges c ! g) (?start + o')"
        using F [OF that(2)] r by (auto simp: range_contains_def range_len_def)
      ultimately show False using fec_range_unique [OF c(1)] h g c by metis
    qed
    then have "map_of frags' (fst (fg_range ?h) + off) = map_of (pf_fragments frame) (fst (fg_range ?h) + off)"
      if "off < range_len (fg_range ?h)" for off
      using res(4) that by blast
    with okh show ?thesis by (auto simp: group_ok_def)
  qed
  have "\<forall>i \<in> fst ` set frags'. i < unat c"
  proof -
    have "?start + off < unat c" if "off \<in> ?F" for off
      using F [OF that] end_le by (auto simp: range_len_def)
    moreover have "\<forall>i \<in> dom (map_of (pf_fragments frame)). i < unat c"
      using wf by (auto simp: frame_wf_def dom_map_of_conv_image_fst)
    ultimately have "\<forall>i \<in> dom (map_of frags'). i < unat c" using res(3) by auto
    then show ?thesis by (simp add: dom_map_of_conv_image_fst)
  qed
  then show "frame_wf c (frame \<lparr> pf_fragments := frags', pf_fec_groups := (pf_fec_groups frame)[g := ?gr'] \<rparr>)"
    using set_fragments_groups [OF wf g res(1) _ _ new others] by (simp add: gr_def)
qed

lemma recover_affected_group_Ok:
  assumes wf: "frame_wf c frame" and g: "g < length (pf_fec_groups frame)"
  obtains frame' n checked attempted where
    "recover_affected_group rs frame g = Ok (frame', n, checked, attempted)" "frame_wf c frame'"
    "same_identity frame frame'"
    "\<forall>i. map_of (pf_fragments frame) i \<noteq> None \<longrightarrow> map_of (pf_fragments frame') i = map_of (pf_fragments frame) i"
proof -
  let ?gr = "pf_fec_groups frame ! g"
  have len6: "range_len (fg_range ?gr) \<le> 6"
    using fec_range_len(2) [of "fg_range ?gr" c] frame_wf_groups [OF wf] g by simp
  let ?missing = "(2 ^ range_len (fg_range ?gr) - 1) AND NOT (fg_present_mask ?gr)"
  have "(\<exists>b a. recover_affected_group rs frame g = Ok (frame, 0, b, a)) \<or>
    (\<exists>rebuilt. length rebuilt \<le> range_len (fg_range ?gr) \<and>
       recover_affected_group rs frame g = apply_rebuilt frame g ?missing rebuilt)"
  proof (cases "\<exists>b a. recover_affected_group rs frame g = Ok (frame, 0, b, a)")
    case False
    then obtain parity l out where "reconstruct_fec_group rs
        (map (map_of (pf_fragments frame)) (range_list (fg_range ?gr))) parity l = Some out"
      "recover_affected_group rs frame g = apply_rebuilt frame g ?missing out"
      using g len6 by (auto simp: recover_affected_group_def Let_def split: option.splits list.splits if_splits)
    then show ?thesis using reconstruct_length by fastforce
  qed blast
  then show thesis
  proof (elim disjE exE conjE)
    fix b a assume "recover_affected_group rs frame g = Ok (frame, 0, b, a)"
    then show thesis using that wf by (simp add: same_identity_def)
  next
    fix rebuilt assume len: "length rebuilt \<le> range_len (fg_range ?gr)"
      and eq: "recover_affected_group rs frame g = apply_rebuilt frame g ?missing rebuilt"
    have "\<forall>(off, sh) \<in> set (enumerate 0 rebuilt). off < 8" "hm_ok (pf_fragments frame)"
      using len len6 wf by (auto simp: in_set_enumerate_eq frame_wf_def)
    from store_rebuilt_Ok [OF this, of ?missing "fst (fg_range ?gr)" 0 0]
    obtain frags' rmask n where
      st: "store_rebuilt ?missing (fst (fg_range ?gr)) (enumerate 0 rebuilt) (pf_fragments frame, 0, 0)
             = Ok (frags', rmask, n)" by (elim exE conjE) (rule that)
    let ?gr' = "?gr \<lparr> fg_present_mask := fg_present_mask ?gr OR rmask,
                      fg_recovered_mask := fg_recovered_mask ?gr OR rmask \<rparr>"
    let ?frame' = "frame \<lparr> pf_fragments := frags', pf_fec_groups := (pf_fec_groups frame)[g := ?gr'] \<rparr>"
    show thesis
    proof (rule that)
      show "recover_affected_group rs frame g = Ok (?frame', n, True, True)"
        by (simp only: eq apply_rebuilt_def Let_def st rbind.simps prod.case)
      show "frame_wf c ?frame'" by (rule rebuilt_frame_wf(1) [OF wf g len st])
      show "same_identity frame ?frame'" by (simp add: same_identity_def)
      have "pf_fragments ?frame' = frags'" by simp
      then show "\<forall>i. map_of (pf_fragments frame) i \<noteq> None \<longrightarrow>
          map_of (pf_fragments ?frame') i = map_of (pf_fragments frame) i"
        using rebuilt_frame_wf(2) [OF wf g len st] by (simp only:)
    qed
  qed
qed

section \<open>The invariant of the map\<close>

definition frames_ok :: "nat \<Rightarrow> nat \<Rightarrow> nat \<Rightarrow> (frame_key \<times> partial_frame) list \<Rightarrow> bool" where
  "frames_ok max_frames max_fragments epoch frames \<longleftrightarrow>
     hm_ok frames \<and> length frames \<le> max_frames \<and>
     (\<forall>(key, frame) \<in> set frames. fk_stream_epoch key = epoch \<and> frame_pending frame \<and>
        pf_fragment_count frame \<le> max_fragments)"

definition keys_ok :: "nat \<Rightarrow> nat \<Rightarrow> frame_key list \<Rightarrow> bool" where
  "keys_ok cap epoch keys \<longleftrightarrow> distinct keys \<and> length keys \<le> cap \<and> (\<forall>key \<in> set keys. fk_stream_epoch key = epoch)"

definition map_ok :: "reassembly_map \<Rightarrow> bool" where
  "map_ok m \<longleftrightarrow> 1 \<le> rm_max_frames m \<and>
     frames_ok (rm_max_frames m) (rm_max_fragments m) (rm_current_epoch m) (rm_frames m) \<and>
     hm_ok (rm_frame_gaps m) \<and>
     keys_ok (rm_max_frames m) (rm_current_epoch m) (rm_rejected_frames m) \<and>
     keys_ok (gap_capacity m) (rm_current_epoch m) (rm_terminal_frames m) \<and>
     fst ` set (rm_frames m) \<inter> set (rm_terminal_frames m) = {}"

lemma gap_capacity_pos: "1 \<le> gap_capacity m"
  by (simp add: gap_capacity_def)

lemma gap_capacity_cong: "rm_max_frames m' = rm_max_frames m \<Longrightarrow> gap_capacity m' = gap_capacity m"
  by (simp add: gap_capacity_def)

text \<open>Evicting the oldest key before an insertion keeps a bounded set bounded.\<close>

lemma length_removeAll_distinct: "distinct xs \<Longrightarrow> x \<in> set xs \<Longrightarrow> length (removeAll x xs) = length xs - 1"
  by (simp add: distinct_remove1_removeAll [symmetric] length_remove1)

lemma keys_ok_insert:
  assumes "keys_ok cap e keys" "length keys < cap" "fk_stream_epoch key = e"
  shows "keys_ok cap e (List.insert key keys)"
  using assms by (auto simp: keys_ok_def List.insert_def)

lemma keys_ok_removeAll:
  assumes "keys_ok cap e keys"
  shows "keys_ok cap e (removeAll key keys)"
  using assms order_trans [OF length_filter_le, of keys cap "\<lambda>x. key \<noteq> x"]
  by (auto simp: keys_ok_def distinct_removeAll removeAll_filter_not_eq)

definition evict_oldest :: "nat \<Rightarrow> frame_key list \<Rightarrow> frame_key list" where
  "evict_oldest cap keys =
     (if cap \<le> length keys
      then (case min_by fk_frame_id keys of None \<Rightarrow> keys | Some old \<Rightarrow> removeAll old keys) else keys)"

lemma keys_ok_evict:
  assumes "keys_ok cap e keys" "1 \<le> cap"
  shows "length (evict_oldest cap keys) < cap" "keys_ok cap e (evict_oldest cap keys)"
    "set (evict_oldest cap keys) \<subseteq> set keys"
proof -
  let ?k = "evict_oldest cap keys"
  note evict_oldest_def [simp]
  have "keys \<noteq> []" if "cap \<le> length keys" using that assms(2) by auto
  then have old: "\<exists>x \<in> set keys. ?k = removeAll x keys" if "cap \<le> length keys"
    using that min_by_Some [of fk_frame_id keys] by (auto split: option.splits)
  show "length ?k < cap"
  proof (cases "cap \<le> length keys")
    case True
    then obtain x where "x \<in> set keys" "?k = removeAll x keys" using old by blast
    moreover have "distinct keys" "length keys \<le> cap" using assms by (auto simp: keys_ok_def)
    ultimately show ?thesis using assms(2) by (simp add: length_removeAll_distinct)
  qed simp
  show "keys_ok cap e ?k" using assms keys_ok_removeAll by (auto split: option.splits)
  show "set ?k \<subseteq> set keys" by (auto split: option.splits)
qed

lemma remember_terminal_eq:
  "remember_terminal key m =
     m \<lparr> rm_terminal_frames := List.insert key (evict_oldest (gap_capacity m) (rm_terminal_frames m)) \<rparr>"
  by (simp add: remember_terminal_def gap_capacity_def evict_oldest_def Let_def)

lemma remember_terminal_fields [simp]:
  "rm_max_frames (remember_terminal key m) = rm_max_frames m"
  "rm_max_fragments (remember_terminal key m) = rm_max_fragments m"
  "rm_current_epoch (remember_terminal key m) = rm_current_epoch m"
  "rm_expired_through (remember_terminal key m) = rm_expired_through m"
  "rm_frames (remember_terminal key m) = rm_frames m"
  "rm_highest_observed (remember_terminal key m) = rm_highest_observed m"
  "rm_frame_gaps (remember_terminal key m) = rm_frame_gaps m"
  "rm_rejected_frames (remember_terminal key m) = rm_rejected_frames m"
  "key \<in> set (rm_terminal_frames (remember_terminal key m))"
  by (simp_all add: remember_terminal_eq)

lemma remember_terminal_subset:
  "set (rm_terminal_frames (remember_terminal key m)) \<subseteq> insert key (set (rm_terminal_frames m))"
  by (auto simp: remember_terminal_eq evict_oldest_def split: option.splits if_splits)

lemma record_drop_fields [simp]:
  "rm_max_frames (record_incomplete_drop f m) = rm_max_frames m"
  "rm_max_fragments (record_incomplete_drop f m) = rm_max_fragments m"
  "rm_current_epoch (record_incomplete_drop f m) = rm_current_epoch m"
  "rm_expired_through (record_incomplete_drop f m) = rm_expired_through m"
  "rm_frames (record_incomplete_drop f m) = rm_frames m"
  "rm_highest_observed (record_incomplete_drop f m) = rm_highest_observed m"
  "rm_frame_gaps (record_incomplete_drop f m) = rm_frame_gaps m"
  "rm_rejected_frames (record_incomplete_drop f m) = rm_rejected_frames m"
  "rm_terminal_frames (record_incomplete_drop f m) = rm_terminal_frames m"
  by (simp_all add: record_incomplete_drop_def Let_def)

lemma frames_ok_delete: "frames_ok mf fr e frames \<Longrightarrow> frames_ok mf fr e (AList.delete key frames)"
  unfolding frames_ok_def
  by (intro conjI ballI hm.ok_del order_trans [OF length_delete_le, of frames mf key])
    (use set_alist_delete [of key frames] in \<open>auto dest!: subsetD\<close>)

lemma frames_ok_update:
  assumes "frames_ok mf fr e frames" "map_of frames key \<noteq> None \<or> length frames < mf"
    "fk_stream_epoch key = e" "frame_pending frame" "pf_fragment_count frame \<le> fr"
  shows "frames_ok mf fr e (AList.update key frame frames)"
  using assms hm.ok_put [of frames key frame] hm.put_within [of frames key mf frame]
    set_alist_update [of key frame frames]
  unfolding frames_ok_def by (auto simp del: not_None_eq)

lemma frames_ok_lookup:
  "frames_ok mf fr e frames \<Longrightarrow> map_of frames key = Some frame \<Longrightarrow>
     fk_stream_epoch key = e \<and> frame_pending frame \<and> pf_fragment_count frame \<le> fr"
  by (fastforce simp: frames_ok_def dest: map_of_SomeD)

lemma gap_capacity_simps [simp]:
  "gap_capacity (remember_terminal key m) = gap_capacity m"
  "gap_capacity (record_incomplete_drop f m) = gap_capacity m"
  "gap_capacity (remove_frame key m) = gap_capacity m"
  by (simp_all add: gap_capacity_def remove_frame_def)

lemma map_ok_remember:
  assumes "map_ok m" "fk_stream_epoch key = rm_current_epoch m" "key \<notin> fst ` set (rm_frames m)"
  shows "map_ok (remember_terminal key m)"
proof -
  let ?t = "evict_oldest (gap_capacity m) (rm_terminal_frames m)"
  have t: "keys_ok (gap_capacity m) (rm_current_epoch m) (rm_terminal_frames m)"
    using assms(1) by (simp add: map_ok_def)
  note ev = keys_ok_evict [OF t gap_capacity_pos]
  have "keys_ok (gap_capacity m) (rm_current_epoch m) (List.insert key ?t)"
    using keys_ok_insert [OF ev(2,1) assms(2)] .
  moreover have "rm_terminal_frames (remember_terminal key m) = List.insert key ?t"
    by (simp add: remember_terminal_eq)
  ultimately show ?thesis
    using assms ev(3) unfolding map_ok_def by auto
qed

lemma map_ok_record [simp]: "map_ok (record_incomplete_drop f m) = map_ok m"
  by (simp add: map_ok_def)

lemma remove_frame_keys: "fst ` set (rm_frames (remove_frame key m)) = fst ` set (rm_frames m) - {key}"
  by (auto simp: remove_frame_def dom_map_of_conv_image_fst [symmetric] delete_conv')

lemma map_ok_remove:
  assumes "map_ok m"
  shows "map_ok (remove_frame key m)"
proof -
  have "fst ` set (rm_frames (remove_frame key m)) \<subseteq> fst ` set (rm_frames m)"
    by (auto simp: remove_frame_keys)
  with assms show ?thesis
    by (auto simp: map_ok_def remove_frame_def gap_capacity_def intro!: frames_ok_delete)
qed

lemma remove_frame_fields [simp]:
  "rm_max_frames (remove_frame key m) = rm_max_frames m"
  "rm_max_fragments (remove_frame key m) = rm_max_fragments m"
  "rm_current_epoch (remove_frame key m) = rm_current_epoch m"
  "rm_expired_through (remove_frame key m) = rm_expired_through m"
  "rm_frames (remove_frame key m) = AList.delete key (rm_frames m)"
  "rm_highest_observed (remove_frame key m) = rm_highest_observed m"
  "rm_frame_gaps (remove_frame key m) = rm_frame_gaps m"
  "rm_rejected_frames (remove_frame key m) = rm_rejected_frames m"
  "rm_terminal_frames (remove_frame key m) = rm_terminal_frames m"
  by (simp_all add: remove_frame_def)

text \<open>The key an early removal retires: recorded or assembled, then terminal.\<close>

lemma map_ok_retire:
  assumes "map_ok m" "fk_stream_epoch key = rm_current_epoch m"
  shows "map_ok (remember_terminal key (record_incomplete_drop f (remove_frame key m)))"
    and "map_ok (remember_terminal key (remove_frame key m))"
  using assms AList.delete_notin_dom [of key "rm_frames m"]
  by (simp_all add: map_ok_remember map_ok_remove)

lemma drop_oldest_cases:
  assumes "rm_frames m \<noteq> []"
  obtains key frame where "map_of (rm_frames m) key = Some frame"
    "drop_oldest m = remember_terminal key (record_incomplete_drop frame (remove_frame key m))"
proof -
  let ?nk = "min_by fk_frame_id (map fst (filter (\<lambda>(_, frame). \<not> is_keyframe (pf_flags frame)) (rm_frames m)))"
  let ?o = "case ?nk of None \<Rightarrow> min_by fk_frame_id (map fst (rm_frames m)) | Some key \<Rightarrow> Some key"
  have "\<exists>key \<in> fst ` set (rm_frames m). ?o = Some key"
  proof (cases ?nk)
    case None
    then show ?thesis
      using assms min_by_Some [of fk_frame_id "map fst (rm_frames m)"]
      by (cases "min_by fk_frame_id (map fst (rm_frames m))") auto
  next
    case (Some key)
    then show ?thesis using min_by_Some [OF Some] by auto
  qed
  then obtain key where key: "key \<in> fst ` set (rm_frames m)" "?o = Some key" by blast
  then obtain frame where "map_of (rm_frames m) key = Some frame"
    by (auto simp: dom_map_of_conv_image_fst [symmetric])
  with key show thesis
    using that [of key frame] by (simp add: drop_oldest_def Let_def)
qed

lemma map_ok_drop_oldest:
  assumes "map_ok m" "rm_max_frames m \<le> length (rm_frames m)"
  shows "map_ok (drop_oldest m)" "length (rm_frames (drop_oldest m)) < rm_max_frames m"
proof -
  have "rm_frames m \<noteq> []" using assms by (auto simp: map_ok_def)
  then obtain key frame where d: "map_of (rm_frames m) key = Some frame"
      "drop_oldest m = remember_terminal key (record_incomplete_drop frame (remove_frame key m))"
    by (rule drop_oldest_cases)
  have ok: "frames_ok (rm_max_frames m) (rm_max_fragments m) (rm_current_epoch m) (rm_frames m)"
    and mf: "1 \<le> rm_max_frames m" using assms by (auto simp: map_ok_def)
  have "fk_stream_epoch key = rm_current_epoch m" using frames_ok_lookup [OF ok d(1)] by simp
  then show "map_ok (drop_oldest m)" using map_ok_retire [OF assms(1)] d(2) by simp
  show "length (rm_frames (drop_oldest m)) < rm_max_frames m"
    using d ok mf hm.len_del [of "rm_frames m" key] by (auto simp: frames_ok_def)
qed

lemma drop_oldest_fields [simp]:
  "rm_max_frames (drop_oldest m) = rm_max_frames m"
  "rm_max_fragments (drop_oldest m) = rm_max_fragments m"
  "rm_current_epoch (drop_oldest m) = rm_current_epoch m"
  "rm_expired_through (drop_oldest m) = rm_expired_through m"
  "rm_highest_observed (drop_oldest m) = rm_highest_observed m"
  "rm_frame_gaps (drop_oldest m) = rm_frame_gaps m"
  "rm_rejected_frames (drop_oldest m) = rm_rejected_frames m"
  by (simp_all add: drop_oldest_def Let_def split: option.split)

lemma map_ok_enter_epoch: "map_ok m \<Longrightarrow> map_ok (enter_epoch e m)"
  by (auto simp: map_ok_def enter_epoch_def reset_pending_for_epoch_def frames_ok_def hm_ok_def keys_ok_def
      gap_capacity_def)

lemma hm_ok_note_gaps: "hm_ok gaps \<Longrightarrow> hm_ok (fold (note_gap now) ids gaps)"
proof (induction ids arbitrary: gaps)
  case (Cons i ids)
  then show ?case using hm.ok_put [of gaps i now] by (simp add: note_gap_def split: option.split)
qed simp

lemma map_ok_observe:
  assumes "map_ok m"
  shows "map_ok (fst (observe_frame_id f now m))"
proof -
  have gaps: "hm_ok (AList.delete f (rm_frame_gaps m))"
    using assms by (intro hm.ok_del) (simp add: map_ok_def)
  have "hm_ok []" by (simp add: hm_ok_def)
  with assms gaps show ?thesis
    by (auto simp: map_ok_def observe_frame_id_def Let_def gap_capacity_def hm_ok_note_gaps split: option.split)
qed

lemma observe_fields [simp]:
  "rm_max_frames (fst (observe_frame_id f now m)) = rm_max_frames m"
  "rm_max_fragments (fst (observe_frame_id f now m)) = rm_max_fragments m"
  "rm_current_epoch (fst (observe_frame_id f now m)) = rm_current_epoch m"
  "rm_frames (fst (observe_frame_id f now m)) = rm_frames m"
  "rm_rejected_frames (fst (observe_frame_id f now m)) = rm_rejected_frames m"
  "rm_terminal_frames (fst (observe_frame_id f now m)) = rm_terminal_frames m"
  by (simp_all add: observe_frame_id_def Let_def split: option.split)

lemma drop_oldest_rejected_eq:
  "drop_oldest_rejected m = m \<lparr> rm_rejected_frames :=
     (case min_by fk_frame_id (rm_rejected_frames m) of
        None \<Rightarrow> rm_rejected_frames m | Some key \<Rightarrow> removeAll key (rm_rejected_frames m)) \<rparr>"
  by (simp add: drop_oldest_rejected_def split: option.split)

lemma map_ok_reject:
  assumes "map_ok m" "unat (vp_stream_epoch p) = rm_current_epoch m"
  shows "map_ok (reject_too_many p m)"
proof -
  have r: "keys_ok (rm_max_frames m) (rm_current_epoch m) (rm_rejected_frames m)" and mf: "1 \<le> rm_max_frames m"
    using assms by (auto simp: map_ok_def)
  let ?k = "evict_oldest (rm_max_frames m) (rm_rejected_frames m)"
  note ev = keys_ok_evict [OF r mf]
  have ins: "keys_ok (rm_max_frames m) (rm_current_epoch m) (List.insert (packet_key p) ?k)"
    using keys_ok_insert [OF ev(2,1)] assms(2) by (simp add: packet_key_def)
  have evict: "(if max (rm_max_frames m) 1 \<le> length (rm_rejected_frames m)
      then drop_oldest_rejected m else m) = m \<lparr> rm_rejected_frames := ?k \<rparr>"
    using mf by (simp add: evict_oldest_def drop_oldest_rejected_eq split: option.split)
  have "map_ok (m \<lparr> rm_rejected_frames := ks \<rparr>)" if "keys_ok (rm_max_frames m) (rm_current_epoch m) ks" for ks
    using assms(1) that by (simp add: map_ok_def gap_capacity_def)
  with ev(2) ins show ?thesis
    unfolding reject_too_many_def Let_def evict by (auto simp: map_ok_def gap_capacity_def List.insert_def)
qed

section \<open>Expiry and discarding\<close>

lemma map_ok_fold_terminal:
  assumes "map_ok m" "\<forall>key \<in> set keys. fk_stream_epoch key = rm_current_epoch m" "rm_frames m = []"
  shows "map_ok (fold remember_terminal keys m)"
  using assms
proof (induction keys arbitrary: m)
  case (Cons k keys)
  then show ?case by (simp add: map_ok_remember)
qed simp

lemma map_ok_clear_pending:
  assumes "map_ok m"
  shows "map_ok (clear_pending m)"
proof -
  have "\<forall>key \<in> set (map fst (rm_frames m)). fk_stream_epoch key = rm_current_epoch m"
    using assms by (auto simp: map_ok_def frames_ok_def)
  moreover have "map_ok (m \<lparr> rm_frames := [], rm_expired_through := e, rm_frame_gaps := [] \<rparr>)" for e
    using assms by (simp add: map_ok_def frames_ok_def hm_ok_def gap_capacity_def)
  ultimately show ?thesis
    unfolding clear_pending_def Let_def by (intro map_ok_fold_terminal) simp_all
qed

lemma map_ok_drop_expired: "map_ok m \<Longrightarrow> map_ok (drop_expired_frame key m)"
  by (auto simp: drop_expired_frame_def map_ok_remove split: option.split)

lemma map_ok_fold_expired: "map_ok m \<Longrightarrow> map_ok (fold drop_expired_frame keys m)"
  by (induction keys arbitrary: m) (auto simp: map_ok_drop_expired)

lemma hm_ok_fold_delete: "hm_ok g \<Longrightarrow> hm_ok (fold AList.delete ids g)"
  by (induction ids arbitrary: g) (auto simp: hm.ok_del)

lemma map_ok_expire:
  assumes "map_ok m"
  shows "map_ok (expire_incomplete_older_than now age m)"
proof -
  have 1: "map_ok (m1 \<lparr> rm_expired_through := e, rm_rejected_frames := filter P (rm_rejected_frames m1) \<rparr>)"
    and 2: "map_ok (m1 \<lparr> rm_reference_loss_pending := True, rm_drops := d, rm_gap_drops := gd,
          rm_frame_gaps := fold AList.delete gs (rm_frame_gaps m1), rm_expired_through := e,
          rm_rejected_frames := filter P (rm_rejected_frames m1) \<rparr>)"
    if "map_ok m1" for m1 gs d gd e P
    using that order_trans [OF length_filter_le, of "rm_rejected_frames m1" _ P]
    by (auto simp: map_ok_def keys_ok_def gap_capacity_def hm_ok_fold_delete)
  show ?thesis
    using assms
    by (simp add: expire_incomplete_older_than_def Let_def 1 2 map_ok_fold_expired split: option.split)
qed

lemma map_ok_discard:
  assumes "map_ok m"
  shows "map_ok (fst (discard_stale_access_unit e f flags m))"
proof (cases "e < rm_current_epoch m")
  case False
  define m1 where "m1 = enter_epoch e m"
  have m1: "map_ok m1" "rm_current_epoch m1 = e"
    using assms False map_ok_enter_epoch [OF assms, of e]
    by (auto simp: m1_def enter_epoch_def)
  let ?key = "\<lparr> fk_stream_epoch = e, fk_frame_id = f \<rparr>"
  define m3 where "m3 b c = (remove_frame ?key m1) \<lparr> rm_reference_loss_pending := b,
      rm_keyframe_loss_pending := c, rm_frame_gaps := AList.delete f (rm_frame_gaps m1),
      rm_rejected_frames := removeAll ?key (rm_rejected_frames m1) \<rparr>" for b c
  have "map_ok (m3 b c)" for b c
    using map_ok_remove [OF m1(1), of ?key] m1
    by (auto simp: m3_def map_ok_def gap_capacity_def intro: hm.ok_del keys_ok_removeAll)
  then have "map_ok (remember_terminal ?key (m3 b c))" for b c
    using m1(2) AList.delete_notin_dom [of ?key "rm_frames m1"]
    by (intro map_ok_remember) (simp_all add: m3_def)
  moreover have "map_ok (x \<lparr> rm_expired_through := e' \<rparr>) = map_ok x" for x e'
    by (simp add: map_ok_def gap_capacity_def)
  ultimately show ?thesis
    using m1(1) False by (simp add: discard_stale_access_unit_def m1_def [symmetric] m3_def Let_def)
qed (use assms in \<open>simp add: discard_stale_access_unit_def\<close>)

lemma map_ok_take: "map_ok m \<Longrightarrow> map_ok (snd (take_keyframe_loss m))"
  "map_ok m \<Longrightarrow> map_ok (snd (take_reference_chain_loss m))"
  by (simp_all add: take_keyframe_loss_def take_reference_chain_loss_def map_ok_def gap_capacity_def Let_def)

lemma map_ok_new: "map_ok (reassembly_new mf fr)"
  by (simp add: reassembly_new_def map_ok_def frames_ok_def keys_ok_def hm_ok_def)

section \<open>Ingest keeps the invariant\<close>

lemma store_fragment_wf:
  assumes wf: "frame_wf c frame" and count: "vp_fragment_count p = c"
    and idx: "vp_fragment_index p < vp_fragment_count p"
    and parity: "flags_contains (vp_flags p) FEC_PARITY \<Longrightarrow>
       \<exists>u. validate_parity_shard (vp_fragment_count p) (vp_fragment_index p) (vp_payload p) = Ok u"
  shows "store_fragment frame p \<noteq> Inl Panic"
    and "store_fragment frame p = Inl r \<Longrightarrow> r = Ok None \<or> (\<exists>e. r = Err e)"
    and "store_fragment frame p = Inr (frame', g) \<Longrightarrow>
      frame_wf c frame' \<and> g < length (pf_fec_groups frame') \<and> same_identity frame frame' \<and>
      (\<forall>i. map_of (pf_fragments frame) i \<noteq> None \<longrightarrow>
             map_of (pf_fragments frame') i = map_of (pf_fragments frame) i)"
proof -
  let ?i = "unat (vp_fragment_index p)"
  have i: "?i < unat c" using idx count by (simp add: word_less_nat_alt)
  let ?P = "\<lambda>f g. frame_wf c f \<and> g < length (pf_fec_groups f) \<and> same_identity frame f \<and>
      (\<forall>i. map_of (pf_fragments frame) i \<noteq> None \<longrightarrow> map_of (pf_fragments f) i = map_of (pf_fragments frame) i)"
  have "(\<exists>f g. store_fragment frame p = Inr (f, g) \<and> ?P f g) \<or> store_fragment frame p = Inl (Ok None) \<or>
      (\<exists>e. store_fragment frame p = Inl (Err e))"
  proof (cases "flags_contains (vp_flags p) FEC_PARITY")
    case True
    then obtain u where v: "validate_parity_shard c (vp_fragment_index p) (vp_payload p) = Ok u"
      using parity count by blast
    note sp = store_parity_shard_wf [OF wf v]
    show ?thesis
    proof (cases "store_parity_shard frame ?i (vp_payload p)")
      case (Ok fg)
      then have "?P (fst fg) (snd fg)" using sp(2) [of "fst fg" "snd fg"] by simp
      with Ok True show ?thesis by (cases fg) (simp add: store_fragment_def)
    qed (use True sp(1) in \<open>simp_all add: store_fragment_def\<close>)
  next
    case False
    show ?thesis
    proof (cases "map_of (pf_fragments frame) ?i")
      case None
      obtain f where f: "mark_data_present (frame \<lparr> pf_fragments := AList.update ?i (vp_payload p)
            (pf_fragments frame) \<rparr>) ?i = Ok (f, pf_fragment_groups frame ! ?i)" "frame_wf c f"
          "pf_fragments f = AList.update ?i (vp_payload p) (pf_fragments frame)" "same_identity frame f"
        by (rule mark_data_present_Ok [OF wf i None, of "vp_payload p"])
      have "pf_fragment_groups frame ! ?i < length (pf_fec_groups f)"
        using frame_wf_group_of(2) [OF wf i] frame_wf_groups(1) [OF wf] frame_wf_groups(1) [OF f(2)] by simp
      then have "?P f (pf_fragment_groups frame ! ?i)"
        using f(2-) None by (auto simp: update_conv')
      with f(1) None False show ?thesis by (simp add: store_fragment_def)
    next
      case (Some bs)
      obtain b where "is_recovered_fragment frame ?i = Ok b" using is_recovered_fragment_Ok [OF wf i] by blast
      with Some False show ?thesis by (cases b) (simp_all add: store_fragment_def)
    qed
  qed
  then show "store_fragment frame p \<noteq> Inl Panic"
    and "store_fragment frame p = Inl r \<Longrightarrow> r = Ok None \<or> (\<exists>e. r = Err e)"
    and "store_fragment frame p = Inr (frame', g) \<Longrightarrow> ?P frame' g"
    by auto
qed

lemma frame_wf_length:
  assumes "frame_wf c frame"
  shows "length (pf_fragments frame) \<le> unat c" "as_u16 (length (pf_fragments frame)) = length (pf_fragments frame)"
proof -
  have d: "distinct (map fst (pf_fragments frame))" "fst ` set (pf_fragments frame) \<subseteq> {0 ..< unat c}"
    using assms by (auto simp: frame_wf_def hm_ok_def)
  have "card (fst ` set (pf_fragments frame)) \<le> card {0 ..< unat c}"
    by (intro card_mono d(2)) simp
  moreover have "card (fst ` set (pf_fragments frame)) = length (pf_fragments frame)"
    using distinct_card [OF d(1)] by simp
  ultimately show le: "length (pf_fragments frame) \<le> unat c" by simp
  then show "as_u16 (length (pf_fragments frame)) = length (pf_fragments frame)"
    using unat_u16_less [of c] by (simp add: as_u16_def)
qed

text \<open>A frame that holds as many fragments as it announces holds each of them.\<close>

lemma frame_wf_full:
  assumes "frame_wf c frame" "length (pf_fragments frame) = unat c" "i < unat c"
  shows "map_of (pf_fragments frame) i \<noteq> None"
proof -
  have d: "distinct (map fst (pf_fragments frame))" "fst ` set (pf_fragments frame) \<subseteq> {0 ..< unat c}"
    using assms by (auto simp: frame_wf_def hm_ok_def)
  have "card (fst ` set (pf_fragments frame)) = unat c"
    using distinct_card [OF d(1)] assms(2) by simp
  then have "fst ` set (pf_fragments frame) = {0 ..< unat c}"
    using d(2) by (intro card_subset_eq) auto
  then show ?thesis using assms(3) by (simp add: map_of_eq_None_iff)
qed

lemma assemble_Some_iff:
  "assemble frags ids = Some bs \<longleftrightarrow>
     (\<forall>i \<in> set ids. map_of frags i \<noteq> None) \<and> bs = concat (map (\<lambda>i. the (map_of frags i)) ids)"
  by (induction ids arbitrary: bs) (auto split: option.splits)

lemma assemble_full:
  assumes "frame_wf c frame" "length (pf_fragments frame) = unat c"
  shows "assemble (pf_fragments frame) [0 ..< unat c] =
           Some (concat (map (\<lambda>i. the (map_of (pf_fragments frame) i)) [0 ..< unat c]))"
  using frame_wf_full [OF assms] by (simp add: assemble_Some_iff)

text \<open>Counters do not matter to the invariant.\<close>

lemma map_ok_counters:
  "map_ok (m \<lparr> rm_fec_recovered := a, rm_fec_group_checks := b, rm_fec_recovery_attempts := d \<rparr>) = map_ok m"
  "map_ok (m \<lparr> rm_resolved_fragments := n \<rparr>) = map_ok m"
  by (simp_all add: map_ok_def gap_capacity_def)

lemma map_ok_put_frame:
  assumes "map_ok m" "map_of (rm_frames m) key \<noteq> None \<or> length (rm_frames m) < rm_max_frames m"
    "fk_stream_epoch key = rm_current_epoch m" "frame_pending frame"
    "pf_fragment_count frame \<le> rm_max_fragments m" "key \<notin> set (rm_terminal_frames m)"
  shows "map_ok (put_frame key frame m)"
proof -
  have "fst ` set (AList.update key frame (rm_frames m)) = insert key (fst ` set (rm_frames m))"
    by (simp add: dom_map_of_conv_image_fst [symmetric] update_conv')
  with assms show ?thesis
    by (auto simp: map_ok_def put_frame_def gap_capacity_def intro!: frames_ok_update)
qed

lemma finish_frame_ok:
  assumes ok: "map_ok m" and key: "fk_stream_epoch key = rm_current_epoch m" "map_of (rm_frames m) key \<noteq> None"
    and wf: "frame_wf c entry" and le: "unat c \<le> rm_max_fragments m"
    and fin: "finish_frame key entry (put_frame key entry m \<lparr> rm_fec_recovered := a,
        rm_fec_group_checks := b, rm_fec_recovery_attempts := d \<rparr>) = (m', r)"
  shows "map_ok m'" "r \<noteq> Panic"
proof -
  let ?m = "put_frame key entry m \<lparr> rm_fec_recovered := a, rm_fec_group_checks := b,
        rm_fec_recovery_attempts := d \<rparr>"
  have c: "pf_fragment_count entry = unat c" using wf by (simp add: frame_wf_def)
  have "key \<notin> set (rm_terminal_frames m)"
  proof -
    have "key \<in> fst ` set (rm_frames m)" using key(2) by (metis map_of_eq_None_iff)
    then show ?thesis using ok unfolding map_ok_def by blast
  qed
  note put = map_ok_put_frame [OF ok disjI1 [OF key(2)] key(1) _ _ this, of entry]
  have "map_ok m' \<and> r \<noteq> Panic"
  proof (cases "length (pf_fragments entry) = unat c")
    case True
    have rm: "map_ok (remove_frame key ?m)"
    proof -
      have "remove_frame key ?m = remove_frame key m \<lparr> rm_fec_recovered := a, rm_fec_group_checks := b,
        rm_fec_recovery_attempts := d \<rparr>"
        by (simp add: remove_frame_def put_frame_def delete_update_same)
      then show ?thesis using map_ok_remove [OF ok] by (simp only: map_ok_counters)
    qed
    have "key \<notin> fst ` set (rm_frames (remove_frame key ?m))"
      unfolding remove_frame_fields by (rule AList.delete_notin_dom)
    then have "map_ok (remember_terminal key (remove_frame key ?m))"
      using map_ok_remember [OF rm] key(1) by (simp add: put_frame_def)
    then show ?thesis
      using fin c True frame_wf_length(2) [OF wf] assemble_full [OF wf True]
      by (auto simp: finish_frame_def Let_def map_ok_counters)
  next
    case False
    then have "frame_pending entry" using wf frame_wf_length(1) [OF wf] by (auto simp: frame_pending_def)
    then have "map_ok (put_frame key entry m)" using put le c by simp
    then show ?thesis
      using fin c False frame_wf_length(2) [OF wf] by (auto simp: finish_frame_def map_ok_counters)
  qed
  then show "map_ok m'" "r \<noteq> Panic" by simp_all
qed

lemma frame_pending_wf:
  assumes "frame_pending frame" "pf_fragment_count frame = unat c"
  shows "frame_wf c frame"
proof -
  obtain ca where ca: "frame_wf ca frame" using assms(1) by (auto simp: frame_pending_def)
  then have "ca = c" using assms(2) by (simp add: frame_wf_def word_unat_eq_iff)
  with ca show ?thesis by simp
qed

lemma drop_oldest_terminal:
  "set (rm_terminal_frames (drop_oldest m)) \<subseteq> set (rm_terminal_frames m) \<union> fst ` set (rm_frames m)"
proof (cases "rm_frames m = []")
  case False
  then obtain key frame where d: "map_of (rm_frames m) key = Some frame"
      "drop_oldest m = remember_terminal key (record_incomplete_drop frame (remove_frame key m))"
    by (rule drop_oldest_cases)
  have "key \<in> fst ` set (rm_frames m)" using map_of_SomeD [OF d(1)] by force
  then show ?thesis
    using remember_terminal_subset [of key "record_incomplete_drop frame (remove_frame key m)"] d(2) by auto
qed (simp add: drop_oldest_def)

lemma ingest_entry_ok:
  assumes ok: "map_ok m" and key: "fk_stream_epoch key = rm_current_epoch m"
    and entry: "map_of (rm_frames m) key = Some entry"
    and idx: "vp_fragment_index p < vp_fragment_count p"
    and parity: "flags_contains (vp_flags p) FEC_PARITY \<Longrightarrow>
       \<exists>u. validate_parity_shard (vp_fragment_count p) (vp_fragment_index p) (vp_payload p) = Ok u"
    and res: "ingest_entry rs key entry p m = (m', r)"
  shows "map_ok m' \<and> r \<noteq> Panic"
proof -
  let ?c = "vp_fragment_count p"
  have pend: "frame_pending entry" "pf_fragment_count entry \<le> rm_max_fragments m"
    using frames_ok_lookup [of _ _ _ "rm_frames m" key entry] ok entry by (auto simp: map_ok_def)
  have retire: "map_ok (remember_terminal key (record_incomplete_drop entry (remove_frame key m)))"
    using map_ok_retire(1) [OF ok key] .
  consider "pf_fragment_count entry \<noteq> unat ?c \<or> \<not> same_timeline entry p"
    | "pf_fragment_count entry = unat ?c" "same_timeline entry p" by blast
  then show ?thesis
  proof cases
    case 1
    then show ?thesis using res retire by (auto simp: ingest_entry_def split: if_splits)
  next
    case 2
    have wf: "frame_wf ?c entry" using frame_pending_wf [OF pend(1) 2(1)] .
    note sf = store_fragment_wf [OF wf refl idx parity]
    show ?thesis
    proof (cases "store_fragment entry p")
      case (Inl r')
      then show ?thesis using sf(1) ok res 2 by (auto simp: ingest_entry_def)
    next
      case (Inr fg)
      obtain f g where fg: "fg = (f, g)" by force
      have f: "frame_wf ?c f" "g < length (pf_fec_groups f)" using sf(3) [of f g] Inr fg by auto
      obtain f' n b a where rec: "recover_affected_group rs f g = Ok (f', n, b, a)" "frame_wf ?c f'"
        by (rule recover_affected_group_Ok [OF f])
      have "unat ?c \<le> rm_max_fragments m" using pend(2) 2(1) by simp
      from finish_frame_ok [OF ok key _ rec(2) this]
      show ?thesis
        using res 2 Inr fg rec(1) entry by (auto simp: ingest_entry_def Let_def)
    qed
  qed
qed

lemma check_parity_no_panic: "check_parity p \<noteq> Panic"
  by (simp add: check_parity_def validate_parity_shard_no_panic)

lemma map_ok_make_room:
  assumes "map_ok m" "key \<notin> set (rm_terminal_frames m)"
  shows "map_ok (make_room key m)" "key \<notin> set (rm_terminal_frames (make_room key m))"
    "map_of (rm_frames (make_room key m)) key \<noteq> None \<or>
       length (rm_frames (make_room key m)) < rm_max_frames (make_room key m)"
  using assms map_ok_drop_oldest [OF assms(1)] drop_oldest_terminal [of m]
  by (auto simp: make_room_def map_of_eq_None_iff)

lemma make_room_fields [simp]:
  "rm_max_frames (make_room key m) = rm_max_frames m"
  "rm_max_fragments (make_room key m) = rm_max_fragments m"
  "rm_current_epoch (make_room key m) = rm_current_epoch m"
  "rm_expired_through (make_room key m) = rm_expired_through m"
  "rm_highest_observed (make_room key m) = rm_highest_observed m"
  by (simp_all add: make_room_def)

lemma make_room_rejected [simp]: "rm_rejected_frames (make_room key m) = rm_rejected_frames m"
  by (simp add: make_room_def)

lemma make_room_None: "map_of (rm_frames m) k = None \<Longrightarrow> map_of (rm_frames (make_room key m)) k = None"
proof (cases "rm_frames m = []")
  case False
  assume k: "map_of (rm_frames m) k = None"
  obtain key' frame where "drop_oldest m =
      remember_terminal key' (record_incomplete_drop frame (remove_frame key' m))"
    using drop_oldest_cases [OF False] by metis
  with k show ?thesis by (auto simp: make_room_def delete_conv')
qed (simp add: make_room_def drop_oldest_def)

lemma ingest_admitted_ok:
  assumes ok: "map_ok m" and key: "unat (vp_stream_epoch p) = rm_current_epoch m"
    and room: "map_of (rm_frames m) (packet_key p) \<noteq> None \<or> length (rm_frames m) < rm_max_frames m"
    and fresh: "packet_key p \<notin> set (rm_terminal_frames m)"
    and idx: "vp_fragment_index p < vp_fragment_count p"
    and count: "unat (vp_fragment_count p) \<le> rm_max_fragments m"
    and res: "ingest_admitted rs p t m = (m', r)"
  shows "map_ok m' \<and> r \<noteq> Panic"
proof (cases "check_parity p")
  case (Ok u)
  let ?key = "packet_key p"
  have epoch: "fk_stream_epoch ?key = rm_current_epoch m" using key by (simp add: packet_key_def)
  have par: "\<exists>u. validate_parity_shard (vp_fragment_count p) (vp_fragment_index p) (vp_payload p) = Ok u"
    if "flags_contains (vp_flags p) FEC_PARITY" using Ok that by (simp add: check_parity_def)
  show ?thesis
  proof (cases "map_of (rm_frames m) ?key")
    case (Some entry)
    then show ?thesis
      using ingest_entry_ok [OF ok epoch Some idx par] res Ok by (simp add: ingest_admitted_def Let_def)
  next
    case None
    have c: "vp_fragment_count p \<noteq> 0" using idx by auto
    obtain f where f: "new_partial_frame p t = Ok f" "frame_wf (vp_fragment_count p) f" "pf_fragments f = []"
      by (rule new_partial_frame_Ok [OF c])
    have "frame_pending f" "pf_fragment_count f \<le> rm_max_fragments m"
      using f c count by (auto simp: frame_pending_def frame_wf_def unat_gt_0)
    then have put: "map_ok (put_frame ?key f m)"
      using map_ok_put_frame [OF ok room epoch _ _ fresh] by blast
    have "fk_stream_epoch ?key = rm_current_epoch (put_frame ?key f m)"
      "map_of (rm_frames (put_frame ?key f m)) ?key = Some f"
      using epoch by (simp_all add: put_frame_def update_conv')
    from ingest_entry_ok [OF put this idx par] show ?thesis
      using res Ok None f(1) by (simp add: ingest_admitted_def Let_def)
  qed
qed (use res ok check_parity_no_panic in \<open>auto simp: ingest_admitted_def\<close>)

lemma ingest_at_ok:
  assumes ok: "map_ok m" and idx: "vp_fragment_index p < vp_fragment_count p"
    and res: "ingest_at rs p now m = (m', r)"
  shows "map_ok m' \<and> r \<noteq> Panic"
proof (cases "unat (vp_stream_epoch p) < rm_current_epoch m")
  case True
  then show ?thesis using ok res by (auto simp: ingest_at_def)
next
  case False
  define m1 where "m1 = enter_epoch (unat (vp_stream_epoch p)) m"
  obtain m2 inferred where obs: "observe_frame_id (unat (vp_frame_id p)) now m1 = (m2, inferred)" by force
  have m1: "map_ok m1" "rm_current_epoch m1 = unat (vp_stream_epoch p)"
    using False map_ok_enter_epoch [OF ok, of "unat (vp_stream_epoch p)"] by (auto simp: m1_def enter_epoch_def)
  have m2: "map_ok m2" "rm_current_epoch m2 = unat (vp_stream_epoch p)"
    using m1 map_ok_observe [OF m1(1)] observe_fields(3) [of "unat (vp_frame_id p)" now m1] obs
    by (simp_all, metis fst_conv)
  let ?key = "packet_key p"
  have eq: "ingest_at rs p now m =
      (if expired_by (rm_expired_through m2) (unat (vp_frame_id p)) \<or> ?key \<in> set (rm_terminal_frames m2)
       then (m2, Ok None)
       else if ?key \<in> set (rm_rejected_frames m2) then (m2, Err TooManyFragments)
       else if unat (vp_fragment_count p) > rm_max_fragments m2 then (reject_too_many p m2, Err TooManyFragments)
       else ingest_admitted rs p (case inferred of None \<Rightarrow> now | Some t \<Rightarrow> t) (make_room ?key m2))"
    using False by (simp add: ingest_at_def Let_def m1_def [symmetric] obs)
  consider "expired_by (rm_expired_through m2) (unat (vp_frame_id p)) \<or> ?key \<in> set (rm_terminal_frames m2) \<or>
      ?key \<in> set (rm_rejected_frames m2)"
    | "?key \<notin> set (rm_rejected_frames m2)" "unat (vp_fragment_count p) > rm_max_fragments m2"
    | "?key \<notin> set (rm_terminal_frames m2)" "unat (vp_fragment_count p) \<le> rm_max_fragments m2"
      "ingest_at rs p now m = ingest_admitted rs p (case inferred of None \<Rightarrow> now | Some t \<Rightarrow> t) (make_room ?key m2)"
    using eq by force
  then show ?thesis
  proof cases
    case 1
    then show ?thesis
      using res m2 eq by (auto split: if_splits)
  next
    case 2
    then show ?thesis
      using res m2 eq map_ok_reject [OF m2(1), of p] by (auto split: if_splits)
  next
    case 3
    note room = map_ok_make_room [OF m2(1) 3(1)]
    show ?thesis
      using ingest_admitted_ok [OF room(1) _ room(3,2) idx _ res [unfolded 3(3)]] 3(2) m2(2) by simp
  qed
qed

section \<open>Reachable states\<close>

text \<open>
  The states a receiver can bring the map to: a new map, datagrams that decode, and the other
  public operations, in any order and with any clock readings.
\<close>

inductive reassembly_step :: "rs_codec \<Rightarrow> reassembly_map \<Rightarrow> reassembly_map \<Rightarrow> bool" for rs where
  ingest: "decode_bytes bs = Ok p \<Longrightarrow> reassembly_step rs m (fst (ingest_at rs p now m))"
| expire: "reassembly_step rs m (expire_incomplete_older_than now age m)"
| clear: "reassembly_step rs m (clear_pending m)"
| discard: "reassembly_step rs m (fst (discard_stale_access_unit e f flags m))"
| take_keyframe: "reassembly_step rs m (snd (take_keyframe_loss m))"
| take_chain: "reassembly_step rs m (snd (take_reference_chain_loss m))"

inductive reassembly_reachable :: "rs_codec \<Rightarrow> reassembly_map \<Rightarrow> bool" for rs where
  start: "reassembly_reachable rs (reassembly_new max_frames max_fragments)"
| step: "reassembly_reachable rs m \<Longrightarrow> reassembly_step rs m m' \<Longrightarrow> reassembly_reachable rs m'"

lemma step_map_ok: "reassembly_step rs m m' \<Longrightarrow> map_ok m \<Longrightarrow> map_ok m'"
proof (induction rule: reassembly_step.induct)
  case (ingest bs p m now)
  then show ?case
    using ingest_at_ok [OF ingest.prems decode_bytes_index [OF ingest.hyps], of rs now] by (metis prod.collapse)
qed (simp_all add: map_ok_expire map_ok_clear_pending map_ok_discard map_ok_take)

lemma reachable_map_ok: "reassembly_reachable rs m \<Longrightarrow> map_ok m"
  by (induction rule: reassembly_reachable.induct) (auto simp: map_ok_new intro: step_map_ok)

definition no_codec :: rs_codec where
  "no_codec = \<lparr> rs_encode_sep = \<lambda>d p data. None, rs_reconstruct_data = \<lambda>d p view. None \<rparr>"

section \<open>Properties\<close>

text \<open>C15: in every reachable state, whatever the erasure codec returns, the bounded collections
  stay bounded: at most \<open>max_frames\<close> pending frames and rejected keys, at most twice as many terminal
  keys, and each pending frame announces at most \<open>max_fragments\<close> fragments and still lacks one.\<close>

theorem reassembly_bounded:
  assumes "reassembly_reachable rs m"
  shows "length (rm_frames m) \<le> rm_max_frames m \<and> length (rm_rejected_frames m) \<le> rm_max_frames m \<and>
    length (rm_terminal_frames m) \<le> 2 * rm_max_frames m \<and>
    (\<forall>frame \<in> snd ` set (rm_frames m).
       pf_fragment_count frame \<le> rm_max_fragments m \<and> length (pf_fragments frame) < pf_fragment_count frame)"
proof -
  have ok: "map_ok m" using reachable_map_ok [OF assms] .
  have "gap_capacity m \<le> 2 * rm_max_frames m" using ok by (auto simp: gap_capacity_def map_ok_def)
  then have "length (rm_terminal_frames m) \<le> 2 * rm_max_frames m"
    using ok unfolding map_ok_def keys_ok_def by linarith
  moreover have "pf_fragment_count frame \<le> rm_max_fragments m \<and> length (pf_fragments frame) < pf_fragment_count frame"
    if "frame \<in> snd ` set (rm_frames m)" for frame
    using ok that by (fastforce simp: map_ok_def frames_ok_def frame_pending_def frame_wf_def)
  ultimately show ?thesis using ok by (simp add: map_ok_def frames_ok_def keys_ok_def)
qed

lemma sample_reachable:
  "reassembly_reachable no_codec (fst (ingest_at no_codec sample_packet 5 (reassembly_new 2 16)))"
  using encode_decode [of sample_packet] sample_packet_encodes
  by (blast intro: reassembly_reachable.intros reassembly_step.intros)

theorem reassembly_bounded_witness:
  "length (rm_terminal_frames (fst (ingest_at no_codec sample_packet 5 (reassembly_new 2 16)))) \<le>
     2 * rm_max_frames (fst (ingest_at no_codec sample_packet 5 (reassembly_new 2 16)))"
  using reassembly_bounded [OF sample_reachable] by blast

text \<open>C11: no datagram that decodes makes the reassembly panic: every index into the group tables,
  the shift counts of the masks, the subtraction of a group start and the \<open>expect\<close> on an entry are
  in range in every reachable state.\<close>

theorem ingest_never_panics:
  assumes "reassembly_reachable rs m" and "decode_bytes bs = Ok p"
  shows "snd (ingest_at rs p now m) \<noteq> Panic"
  using ingest_at_ok [OF reachable_map_ok [OF assms(1)] decode_bytes_index [OF assms(2)], of rs now]
  by (metis prod.collapse)

theorem ingest_never_panics_witness:
  "snd (ingest_at no_codec sample_packet 9 (fst (ingest_at no_codec sample_packet 5 (reassembly_new 2 16)))) \<noteq> Panic"
proof -
  obtain bs where "decode_bytes bs = Ok sample_packet"
    using encode_decode [of sample_packet] sample_packet_encodes by blast
  then show ?thesis by (rule ingest_never_panics [OF sample_reachable])
qed

end
