(* ===== verification/Reassembly_Order.thy ===== *)
theory Reassembly_Order
  imports Reassembly_Inv
begin

text \<open>
  Functional behaviour of the reassembly: the fragments of an access unit, in any order and with
  any clock readings, give back exactly the bytes that were cut into fragments; what a frame has
  stored is never altered; a retired access unit stays silent.
\<close>

section \<open>The fragments of one access unit\<close>

text \<open>\<open>cut_packet t payloads i\<close> is fragment \<open>i\<close> of an access unit described by a template packet and the
  list of its payloads; the first and the last fragment carry the boundary flags of the protocol.\<close>

definition boundary_flags :: "nat \<Rightarrow> nat \<Rightarrow> u8" where
  "boundary_flags n i =
     (if i = 0 then START_OF_ACCESS_UNIT else 0) OR (if i + 1 = n then END_OF_ACCESS_UNIT else 0)"

definition cut_packet :: "video_packet \<Rightarrow> bytes list \<Rightarrow> nat \<Rightarrow> video_packet" where
  "cut_packet t payloads i = t \<lparr> vp_flags := vp_flags t OR boundary_flags (length payloads) i,
     vp_fragment_index := of_nat i, vp_fragment_count := of_nat (length payloads), vp_payload := payloads ! i \<rparr>"

lemma boundary_neutral:
  "(f OR boundary_flags n i) AND semantic_flags = f AND semantic_flags"
  "flags_contains (f OR boundary_flags n i) FEC_PARITY = flags_contains f FEC_PARITY"
proof -
  have z: "boundary_flags n i AND semantic_flags = 0" "boundary_flags n i AND FEC_PARITY = 0"
    by (cases "i = 0"; cases "i + 1 = n"; simp add: boundary_flags_def semantic_flags_def flag_constants)+
  show "(f OR boundary_flags n i) AND semantic_flags = f AND semantic_flags"
    by (simp only: bit.conj_disj_distrib2 z or.right_neutral)
  show "flags_contains (f OR boundary_flags n i) FEC_PARITY = flags_contains f FEC_PARITY"
    by (simp only: flags_contains_def bit.conj_disj_distrib2 z or.right_neutral)
qed

definition admits :: "reassembly_map \<Rightarrow> video_packet \<Rightarrow> bool" where
  "admits m p \<longleftrightarrow> map_ok m \<and> rm_current_epoch m = unat (vp_stream_epoch p) \<and>
     \<not> expired_by (rm_expired_through m) (unat (vp_frame_id p)) \<and>
     packet_key p \<notin> set (rm_terminal_frames m) \<and> packet_key p \<notin> set (rm_rejected_frames m)"

lemma observe_not_expired:
  assumes "\<not> expired_by (rm_expired_through m) f"
  shows "\<not> expired_by (rm_expired_through (fst (observe_frame_id f now m))) f"
  using assms
  by (auto simp: observe_frame_id_def Let_def expired_by_def raise_expired_def max_def split: option.splits)

text \<open>Past the guards, \<open>ingest_at\<close> is \<open>ingest_admitted\<close> on the observed map.\<close>

lemma ingest_at_admits:
  fixes now :: nat
  assumes "admits m p" "unat (vp_fragment_count p) \<le> rm_max_fragments m"
  defines "m2 \<equiv> fst (observe_frame_id (unat (vp_frame_id p)) now m)"
  shows "\<exists>t. ingest_at rs p now m = ingest_admitted rs p t (make_room (packet_key p) m2)"
    and "admits m2 p" "rm_frames m2 = rm_frames m" "rm_max_fragments m2 = rm_max_fragments m"
proof -
  obtain inferred where obs: "observe_frame_id (unat (vp_frame_id p)) now m = (m2, inferred)"
    by (metis m2_def prod.collapse)
  have ep: "enter_epoch (unat (vp_stream_epoch p)) m = m"
    using assms(1) by (simp add: enter_epoch_def admits_def)
  show adm: "admits m2 p" and "rm_frames m2 = rm_frames m" "rm_max_fragments m2 = rm_max_fragments m"
    using assms(1) map_ok_observe observe_not_expired by (auto simp: m2_def admits_def)
  then show "\<exists>t. ingest_at rs p now m = ingest_admitted rs p t (make_room (packet_key p) m2)"
    using assms(1,2) obs ep by (auto simp: ingest_at_def admits_def)
qed

section \<open>Frames without parity\<close>

definition no_parity :: "partial_frame \<Rightarrow> bool" where
  "no_parity frame \<longleftrightarrow> (\<forall>gr \<in> set (pf_fec_groups frame). fg_parity_shards gr = replicate FEC_PARITY_SHARDS None)"

lemma recover_no_parity:
  assumes wf: "frame_wf c frame" and g: "g < length (pf_fec_groups frame)" and np: "no_parity frame"
  shows "\<exists>b. recover_affected_group rs frame g = Ok (frame, 0, b, False)"
proof -
  let ?gr = "pf_fec_groups frame ! g"
  have none: "fg_parity_shards ?gr = replicate FEC_PARITY_SHARDS None" using np g by (simp add: no_parity_def)
  have "count_some (fg_parity_shards ?gr) = 0" by (simp add: none count_some_def)
  moreover have "range_len (fg_range ?gr) < 8"
    using fec_range_len(2) [of "fg_range ?gr" c] frame_wf_groups [OF wf] g by simp
  ultimately show ?thesis using g by (auto simp: recover_affected_group_def Let_def)
qed

lemma length_fragments:
  assumes "hm_ok frags" "dom (map_of frags) = S"
  shows "length frags = card S"
proof -
  have "card (set (map fst frags)) = length frags"
    using assms(1) distinct_card [of "map fst frags"] by (simp add: hm_ok_def)
  then show ?thesis using assms(2) by (simp add: dom_map_of_conv_image_fst)
qed

text \<open>\<open>holds S\<close>: the map tracks the access unit and has received exactly the fragments \<open>S\<close>.\<close>

definition holds :: "video_packet \<Rightarrow> bytes list \<Rightarrow> nat set \<Rightarrow> partial_frame \<Rightarrow> bool" where
  "holds t payloads S frame \<longleftrightarrow> frame_wf (of_nat (length payloads)) frame \<and> no_parity frame \<and>
     (\<forall>i. map_of (pf_fragments frame) i = (if i \<in> S then Some (payloads ! i) else None)) \<and>
     pf_flags frame AND semantic_flags = vp_flags t AND semantic_flags \<and>
     pf_pts_us frame = unat (vp_pts_us t) \<and> pf_encoded_at_us frame = unat (vp_encoded_at_us t)"

lemma no_parity_map:
  "map fg_parity_shards (pf_fec_groups f') = map fg_parity_shards (pf_fec_groups f) \<Longrightarrow> no_parity f \<Longrightarrow> no_parity f'"
proof -
  assume eq: "map fg_parity_shards (pf_fec_groups f') = map fg_parity_shards (pf_fec_groups f)" and np: "no_parity f"
  have "fg_parity_shards ` set (pf_fec_groups f') = fg_parity_shards ` set (pf_fec_groups f)"
    using eq by (metis set_map)
  then show ?thesis using np by (fastforce simp: no_parity_def)
qed

lemma store_holds:
  assumes h: "holds t payloads S frame" and len: "length payloads < 65536"
    and i: "i < length payloads" "i \<notin> S" and data: "\<not> flags_contains (vp_flags t) FEC_PARITY"
  obtains frame' g where "store_fragment frame (cut_packet t payloads i) = Inr (frame', g)"
    "g < length (pf_fec_groups frame')" "holds t payloads (insert i S) frame'" "same_identity frame frame'"
proof -
  let ?c = "of_nat (length payloads) :: u16"
  have wf: "frame_wf ?c frame" using h by (simp add: holds_def)
  have c: "unat ?c = length payloads" using len by (simp add: unat_of_nat)
  have ui: "unat (of_nat i :: u16) = i" using len i by (simp add: unat_of_nat)
  have ic: "i < unat ?c" using i c by simp
  have new: "map_of (pf_fragments frame) i = None" using h i by (simp add: holds_def)
  obtain f where f: "mark_data_present (frame \<lparr> pf_fragments := AList.update i (payloads ! i)
        (pf_fragments frame) \<rparr>) i = Ok (f, pf_fragment_groups frame ! i)" "frame_wf ?c f"
      "pf_fragments f = AList.update i (payloads ! i) (pf_fragments frame)"
      "map fg_parity_shards (pf_fec_groups f) = map fg_parity_shards (pf_fec_groups frame)" "same_identity frame f"
    by (rule mark_data_present_Ok [OF wf ic new])
  have "pf_fragment_groups frame ! i < length (pf_fec_groups f)"
    using frame_wf_group_of(2) [OF wf ic] frame_wf_groups(1) [OF wf] frame_wf_groups(1) [OF f(2)] by simp
  moreover have "holds t payloads (insert i S) f"
    using h f(2,3,5) no_parity_map [OF f(4)] by (auto simp: holds_def same_identity_def update_conv')
  moreover have "store_fragment frame (cut_packet t payloads i) = Inr (f, pf_fragment_groups frame ! i)"
    using f(1) new data by (simp add: store_fragment_def cut_packet_def ui boundary_neutral)
  ultimately show thesis using that f(5) by blast
qed

definition assembled :: "video_packet \<Rightarrow> bytes list \<Rightarrow> assembled_access_unit \<Rightarrow> bool" where
  "assembled t payloads au \<longleftrightarrow> au_data au = concat payloads \<and> au_frame_id au = unat (vp_frame_id t) \<and>
     au_stream_epoch au = unat (vp_stream_epoch t) \<and> au_pts_us au = unat (vp_pts_us t) \<and>
     au_encoded_at_us au = unat (vp_encoded_at_us t) \<and> au_fragment_count au = length payloads \<and>
     au_keyframe au = is_keyframe (vp_flags t) \<and>
     au_discardable au = flags_contains (vp_flags t) DISCARDABLE"

lemma semantic_bits:
  assumes "f AND semantic_flags = g AND semantic_flags"
  shows "is_keyframe f = is_keyframe g" "flags_contains f DISCARDABLE = flags_contains g DISCARDABLE"
proof -
  have "(f AND semantic_flags) AND KEYFRAME = (g AND semantic_flags) AND KEYFRAME"
    "(f AND semantic_flags) AND DISCARDABLE = (g AND semantic_flags) AND DISCARDABLE"
    using assms by simp_all
  then show "is_keyframe f = is_keyframe g" "flags_contains f DISCARDABLE = flags_contains g DISCARDABLE"
    by (simp_all add: semantic_flags_def flag_constants is_keyframe_def flags_contains_def and.assoc)
qed

lemma packet_key_cut [simp]: "packet_key (cut_packet t payloads i) = packet_key t"
  by (simp add: packet_key_def cut_packet_def)

text \<open>The entry block on a tracked frame: one more fragment, or the whole access unit.\<close>

lemma entry_holds:
  assumes h: "holds t payloads S frame" and len: "length payloads < 65536" and S: "S \<subseteq> {0 ..< length payloads}"
    and i: "i < length payloads" "i \<notin> S" and data: "\<not> flags_contains (vp_flags t) FEC_PARITY"
    and res: "ingest_entry rs (packet_key t) frame (cut_packet t payloads i) m = (m', r)"
  shows "insert i S \<noteq> {0 ..< length payloads} \<Longrightarrow> r = Ok None \<and>
           (\<exists>frame'. map_of (rm_frames m') (packet_key t) = Some frame' \<and> holds t payloads (insert i S) frame') \<and>
           rm_current_epoch m' = rm_current_epoch m \<and> rm_max_fragments m' = rm_max_fragments m \<and>
           rm_expired_through m' = rm_expired_through m \<and> rm_terminal_frames m' = rm_terminal_frames m \<and>
           rm_rejected_frames m' = rm_rejected_frames m"
    and "insert i S = {0 ..< length payloads} \<Longrightarrow> \<exists>au. r = Ok (Some au) \<and> assembled t payloads au"
proof -
  let ?c = "of_nat (length payloads) :: u16"
  have c: "unat ?c = length payloads" using len by (simp add: unat_of_nat)
  obtain f g where f: "store_fragment frame (cut_packet t payloads i) = Inr (f, g)"
    "g < length (pf_fec_groups f)" "holds t payloads (insert i S) f" "same_identity frame f"
    by (rule store_holds [OF h len i data])
  have wf: "frame_wf ?c f" and np: "no_parity f" using f(3) by (simp_all add: holds_def)
  obtain b where rec: "recover_affected_group rs f g = Ok (f, 0, b, False)"
    using recover_no_parity [OF wf f(2) np] by blast
  have dom: "dom (map_of (pf_fragments f)) = insert i S"
  proof -
    have "map_of (pf_fragments f) j = (if j \<in> insert i S then Some (payloads ! j) else None)" for j
      using f(3) by (simp only: holds_def)
    then show ?thesis by (auto simp: dom_def)
  qed
  have cnt: "length (pf_fragments f) = card (insert i S)"
    using wf by (intro length_fragments dom) (simp add: frame_wf_def)
  have fc: "pf_fragment_count f = length payloads" "pf_fragment_count frame = length payloads"
    using wf h c by (auto simp: frame_wf_def holds_def)
  have tl: "same_timeline frame (cut_packet t payloads i)"
    using h by (simp add: same_timeline_def holds_def cut_packet_def boundary_neutral)
  let ?m = "put_frame (packet_key t) f m \<lparr> rm_fec_recovered := sat_add64 (rm_fec_recovered m) 0,
      rm_fec_group_checks := sat_add64 (rm_fec_group_checks m) (if b then 1 else 0),
      rm_fec_recovery_attempts := sat_add64 (rm_fec_recovery_attempts m) 0 \<rparr>"
  have fin: "finish_frame (packet_key t) f ?m = (m', r)"
    using res f(1) rec tl fc(2) len
    by (simp add: ingest_entry_def Let_def put_frame_def cut_packet_def unat_of_nat)
  have within: "insert i S \<subseteq> {0 ..< length payloads}" using S i by simp
  have as: "as_u16 (length (pf_fragments f)) = card (insert i S)"
    using frame_wf_length(2) [OF wf] cnt by simp
  show "r = Ok None \<and>
           (\<exists>frame'. map_of (rm_frames m') (packet_key t) = Some frame' \<and> holds t payloads (insert i S) frame') \<and>
           rm_current_epoch m' = rm_current_epoch m \<and> rm_max_fragments m' = rm_max_fragments m \<and>
           rm_expired_through m' = rm_expired_through m \<and> rm_terminal_frames m' = rm_terminal_frames m \<and>
           rm_rejected_frames m' = rm_rejected_frames m"
    if "insert i S \<noteq> {0 ..< length payloads}"
  proof -
    have "card (insert i S) < length payloads"
      using psubset_card_mono [OF _ psubsetI [OF within that]] by simp
    then have "m' = ?m" "r = Ok None" using fin as fc by (auto simp: finish_frame_def)
    then show ?thesis using f(3) by (simp add: put_frame_def update_conv')
  qed
  show "\<exists>au. r = Ok (Some au) \<and> assembled t payloads au" if full: "insert i S = {0 ..< length payloads}"
  proof -
    have "length (pf_fragments f) = unat ?c" using cnt full c by simp
    note asm = assemble_full [OF wf this]
    have "map (\<lambda>i. the (map_of (pf_fragments f) i)) [0 ..< length payloads] = payloads"
      using f(3) full by (intro nth_equalityI) (auto simp: holds_def)
    then have "assemble (pf_fragments f) [0 ..< length payloads] = Some (concat payloads)"
      using asm c by simp
    moreover have "pf_flags f AND semantic_flags = vp_flags t AND semantic_flags"
      using f(3) by (simp add: holds_def)
    ultimately show ?thesis
      using fin as fc full f(3) semantic_bits [of "pf_flags f" "vp_flags t"]
      by (auto simp: finish_frame_def Let_def assembled_def holds_def packet_key_def)
  qed
qed

section \<open>Any order\<close>

text \<open>\<open>ingest_all\<close> feeds packets with their arrival times and collects what each call returned.\<close>

fun ingest_all :: "rs_codec \<Rightarrow> (video_packet \<times> nat) list \<Rightarrow> reassembly_map \<Rightarrow> reassembly_map \<times> ingest_result list" where
  "ingest_all rs [] m = (m, [])"
| "ingest_all rs ((p, now) # ps) m =
     (let (m1, r) = ingest_at rs p now m; (m2, results) = ingest_all rs ps m1 in (m2, r # results))"

definition receives :: "video_packet \<Rightarrow> bytes list \<Rightarrow> nat set \<Rightarrow> reassembly_map \<Rightarrow> bool" where
  "receives t payloads S m \<longleftrightarrow> admits m t \<and> length payloads \<le> rm_max_fragments m \<and>
     (case map_of (rm_frames m) (packet_key t) of None \<Rightarrow> S = {} | Some frame \<Rightarrow> holds t payloads S frame)"

lemma admits_cut: "admits m (cut_packet t payloads i) = admits m t"
  by (simp add: admits_def cut_packet_def packet_key_def)

lemma new_holds:
  assumes "new_partial_frame (cut_packet t payloads i) now = Ok frame" "payloads \<noteq> []" "length payloads < 65536"
  shows "holds t payloads {} frame"
proof -
  have "vp_fragment_count (cut_packet t payloads i) \<noteq> 0"
  proof
    assume "vp_fragment_count (cut_packet t payloads i) = 0"
    then have "unat (of_nat (length payloads) :: u16) = 0" by (simp add: cut_packet_def)
    then show False using assms(2,3) by (simp add: unat_of_nat)
  qed
  then obtain f where "new_partial_frame (cut_packet t payloads i) now = Ok f"
    "frame_wf (of_nat (length payloads)) f" "pf_fragments f = []"
    "pf_flags f = vp_flags t OR boundary_flags (length payloads) i"
    "pf_pts_us f = unat (vp_pts_us t)" "pf_encoded_at_us f = unat (vp_encoded_at_us t)"
    "pf_fec_groups f = map new_group (fec_group_ranges (of_nat (length payloads)))"
    by (rule new_partial_frame_Ok) (simp add: cut_packet_def)
  with assms(1) show ?thesis by (auto simp: holds_def no_parity_def new_group_def boundary_neutral)
qed

lemma cut_packet_count:
  "length payloads < 65536 \<Longrightarrow> unat (vp_fragment_count (cut_packet t payloads i)) = length payloads"
  by (simp add: cut_packet_def unat_of_nat)

lemma receives_step:
  assumes rec: "receives t payloads S m" and len: "length payloads < 65536" and S: "S \<subseteq> {0 ..< length payloads}"
    and i: "i < length payloads" "i \<notin> S" and data: "\<not> flags_contains (vp_flags t) FEC_PARITY"
    and res: "ingest_at rs (cut_packet t payloads i) now m = (m', r)"
  shows "insert i S \<noteq> {0 ..< length payloads} \<Longrightarrow> r = Ok None \<and> receives t payloads (insert i S) m'"
    and "insert i S = {0 ..< length payloads} \<Longrightarrow> \<exists>au. r = Ok (Some au) \<and> assembled t payloads au"
proof -
  let ?p = "cut_packet t payloads i" and ?key = "packet_key t"
  have adm: "admits m ?p" "unat (vp_fragment_count ?p) \<le> rm_max_fragments m"
    using rec len by (simp_all add: receives_def admits_cut) (simp add: cut_packet_def unat_of_nat)
  define m2 where "m2 = fst (observe_frame_id (unat (vp_frame_id ?p)) now m)"
  note obs = ingest_at_admits [OF adm, where now = now, folded m2_def]
  obtain u where u: "ingest_at rs ?p now m = ingest_admitted rs ?p u (make_room ?key m2)"
    using obs(1) by auto
  define m3 where "m3 = make_room ?key m2"
  have "map_ok m2" "?key \<notin> set (rm_terminal_frames m2)" using obs(2) by (auto simp: admits_def)
  note room = map_ok_make_room [OF this, folded m3_def]
  have m3: "admits m3 t" "rm_max_fragments m3 = rm_max_fragments m"
    using obs(2,4) room(1,2) by (auto simp: admits_def m3_def make_room_rejected cut_packet_def packet_key_def)
  have parity: "check_parity ?p = Ok ()" using data by (simp add: check_parity_def cut_packet_def boundary_neutral)
  obtain frame m4 where frame: "holds t payloads S frame" and m4: "m4 = m3 \<or> m4 = put_frame ?key frame m3"
      and ent: "ingest_at rs ?p now m = ingest_entry rs ?key frame ?p m4"
  proof (cases "map_of (rm_frames m) ?key")
    case None
    have n3: "map_of (rm_frames m3) ?key = None"
      using None obs(3) make_room_None [of m2 ?key ?key] by (simp add: m3_def)
    have "payloads \<noteq> []" using i by auto
    moreover have "S = {}" using rec None by (simp add: receives_def)
    moreover have "vp_fragment_count ?p \<noteq> 0"
      using cut_packet_count [OF len, of t i] i by (metis less_nat_zero_code unat_0)
    then obtain f where "new_partial_frame ?p u = Ok f" by (rule new_partial_frame_Ok)
    ultimately show thesis
      using that [of f "put_frame ?key f m3"] new_holds len n3 parity u
      by (simp add: ingest_admitted_def m3_def Let_def)
  next
    case (Some frame)
    then have "m3 = m2" by (simp add: m3_def make_room_def obs(3))
    then show thesis
      using that [of frame m3] rec Some u parity
      by (simp add: receives_def ingest_admitted_def m3_def obs(3) Let_def)
  qed
  have m4f: "rm_current_epoch m4 = rm_current_epoch m3" "rm_max_fragments m4 = rm_max_fragments m3"
      "rm_expired_through m4 = rm_expired_through m3" "rm_terminal_frames m4 = rm_terminal_frames m3"
      "rm_rejected_frames m4 = rm_rejected_frames m3"
    using m4 by (auto simp: put_frame_def)
  note eh = entry_holds [OF frame len S i data, of rs m4 m' r]
  show "r = Ok None \<and> receives t payloads (insert i S) m'" if part: "insert i S \<noteq> {0 ..< length payloads}"
  proof -
    have "vp_fragment_index ?p < vp_fragment_count ?p"
      using i len by (simp add: cut_packet_def word_less_nat_alt unat_of_nat)
    then have "map_ok m'" using ingest_at_ok [OF _ _ res] rec by (simp add: receives_def admits_def)
    then show ?thesis
      using eh(1) [OF _ part] ent res m4f m3 rec by (auto simp: receives_def admits_def)
  qed
  show "\<exists>au. r = Ok (Some au) \<and> assembled t payloads au" if "insert i S = {0 ..< length payloads}"
    using eh(2) [OF _ that] ent res by simp
qed

lemma receives_all:
  assumes "receives t payloads S m" "length payloads < 65536" "S \<subseteq> {0 ..< length payloads}"
    and "\<not> flags_contains (vp_flags t) FEC_PARITY"
    and "distinct is" "set is = {0 ..< length payloads} - S" "is \<noteq> []" "length clock = length is"
  shows "\<exists>au. assembled t payloads au \<and>
     snd (ingest_all rs (zip (map (cut_packet t payloads) is) clock) m) =
       replicate (length is - 1) (Ok None) @ [Ok (Some au)]"
  using assms
proof (induction "is" arbitrary: S m clock)
  case (Cons i ids)
  obtain now rest where clock: "clock = now # rest" using Cons.prems(8) by (cases clock) auto
  obtain m' r where res: "ingest_at rs (cut_packet t payloads i) now m = (m', r)" by force
  have i: "i < length payloads" "i \<notin> S" using Cons.prems(6) by auto
  have ids: "set ids = {0 ..< length payloads} - insert i S" using Cons.prems(5,6) by auto
  note step = receives_step [OF Cons.prems(1,2,3) i Cons.prems(4) res]
  show ?case
  proof (cases ids)
    case Nil
    then have "insert i S = {0 ..< length payloads}" using ids i(1) Cons.prems(3) by auto
    with step(2) res Nil clock show ?thesis by auto
  next
    case (Cons j js)
    then have "insert i S \<noteq> {0 ..< length payloads}" using ids by auto
    with step(1) have r: "r = Ok None" "receives t payloads (insert i S) m'" by auto
    have sub: "insert i S \<subseteq> {0 ..< length payloads}" "distinct ids" "ids \<noteq> []" "length rest = length ids"
      using i Cons.prems(3,5,8) clock Cons by auto
    obtain au where "assembled t payloads au"
      "snd (ingest_all rs (zip (map (cut_packet t payloads) ids) rest) m') =
         replicate (length ids - 1) (Ok None) @ [Ok (Some au)]"
      using Cons.IH [OF r(2) Cons.prems(2) sub(1) Cons.prems(4) sub(2) ids sub(3,4)] by blast
    then show ?thesis
      using res r(1) clock Cons by (auto simp: case_prod_beta Let_def)
  qed
qed simp

text \<open>\<open>accepts\<close>: the access unit is new to the map, in its epoch or in a later one.\<close>

definition accepts :: "reassembly_map \<Rightarrow> video_packet \<Rightarrow> bool" where
  "accepts m t \<longleftrightarrow> rm_current_epoch m < unat (vp_stream_epoch t) \<or>
     rm_current_epoch m = unat (vp_stream_epoch t) \<and>
     \<not> expired_by (rm_expired_through m) (unat (vp_frame_id t)) \<and>
     packet_key t \<notin> set (rm_terminal_frames m) \<and> packet_key t \<notin> set (rm_rejected_frames m) \<and>
     map_of (rm_frames m) (packet_key t) = None"

lemma ingest_enter_epoch:
  "rm_current_epoch m \<le> unat (vp_stream_epoch p) \<Longrightarrow>
     ingest_at rs p now (enter_epoch (unat (vp_stream_epoch p)) m) = ingest_at rs p now m"
  by (auto simp: ingest_at_def enter_epoch_def)

lemma accepts_receives:
  assumes "map_ok m" "accepts m t" "length payloads \<le> rm_max_fragments m"
  shows "receives t payloads {} (enter_epoch (unat (vp_stream_epoch t)) m)"
    and "rm_current_epoch m \<le> unat (vp_stream_epoch t)"
  using assms map_ok_enter_epoch [OF assms(1), of "unat (vp_stream_epoch t)"]
  by (auto simp: receives_def admits_def accepts_def enter_epoch_def reset_pending_for_epoch_def expired_by_def)

lemma fragments_complete:
  assumes "map_ok m" "accepts m t" "length payloads \<le> rm_max_fragments m" "length payloads < 65536"
    and "\<not> flags_contains (vp_flags t) FEC_PARITY" "payloads \<noteq> []"
    and "distinct is" "set is = {0 ..< length payloads}" "length clock = length is"
  shows "\<exists>au. assembled t payloads au \<and>
     snd (ingest_all rs (zip (map (cut_packet t payloads) is) clock) m) =
       replicate (length payloads - 1) (Ok None) @ [Ok (Some au)]"
proof -
  let ?m = "enter_epoch (unat (vp_stream_epoch t)) m"
  note rec = accepts_receives [OF assms(1-3)]
  have ids: "is \<noteq> []" "length is = length payloads"
    using assms(6-8) distinct_card [OF assms(7)] by auto
  have "ingest_all rs (zip (map (cut_packet t payloads) is) clock) ?m =
      ingest_all rs (zip (map (cut_packet t payloads) is) clock) m"
    using ingest_enter_epoch [of m "cut_packet t payloads (hd is)" rs "hd clock"] rec(2) ids assms(9)
    by (cases "is"; cases clock) (auto simp: cut_packet_def)
  then show ?thesis
    using receives_all [OF rec(1) assms(4) _ assms(5,7) _ ids(1) assms(9), of rs] assms(8) ids(2) by simp
qed

section \<open>Properties\<close>

text \<open>C10: the data fragments of an access unit, delivered exactly once each in any order and at any
  times to any reachable map that has not seen the access unit, are assembled into exactly the
  concatenation of the payloads with the metadata of its packets; every earlier call returns \<open>None\<close>.\<close>

theorem fragments_any_order:
  assumes "reassembly_reachable rs m" "accepts m t" "length payloads \<le> rm_max_fragments m"
    and "length payloads < 65536" "\<not> flags_contains (vp_flags t) FEC_PARITY" "payloads \<noteq> []"
    and "distinct is" "set is = {0 ..< length payloads}" "length clock = length is"
  shows "\<exists>au. assembled t payloads au \<and>
     snd (ingest_all rs (zip (map (cut_packet t payloads) is) clock) m) =
       replicate (length payloads - 1) (Ok None) @ [Ok (Some au)]"
  using fragments_complete [OF reachable_map_ok [OF assms(1)] assms(2-9)] .

theorem fragments_any_order_witness:
  "\<exists>au. assembled sample_packet [[1, 2], [3], [4, 5]] au \<and>
     snd (ingest_all no_codec (zip (map (cut_packet sample_packet [[1, 2], [3], [4, 5]]) [2, 0, 1]) [7, 8, 9])
            (reassembly_new 4 16)) = [Ok None, Ok None, Ok (Some au)]"
proof -
  have "accepts (reassembly_new 4 16) sample_packet"
    by (simp add: accepts_def reassembly_new_def sample_packet_def)
  moreover have "\<not> flags_contains (vp_flags sample_packet) FEC_PARITY"
    by (simp add: flags_contains_def sample_packet_def flag_constants)
  moreover have "set [2, 0, 1] = {0 ..< length [[1, 2], [3], [4, 5 :: u8]]}" by auto
  moreover have "length [[1, 2], [3], [4, 5 :: u8]] \<le> rm_max_fragments (reassembly_new 4 16)"
    by (simp add: reassembly_new_def)
  ultimately show ?thesis
    using fragments_any_order [OF reassembly_reachable.start, of 4 16 sample_packet
        "[[1, 2], [3], [4, 5]]" "[2, 0, 1]" "[7, 8, 9]" no_codec]
    by (simp add: numeral_2_eq_2)
qed

end
