(* ===== verification/Reassembly_Retire.thy ===== *)
theory Reassembly_Retire
  imports Reassembly_Order
begin

text \<open>
  What a pending frame keeps and what a retired access unit can no longer do: stored fragments are
  never altered, an assembled access unit is terminal, and the expired boundary only rises within
  an epoch, so nothing at or below it is ever rebuilt.
\<close>

section \<open>Lookups\<close>

definition keeps :: "partial_frame \<Rightarrow> partial_frame \<Rightarrow> bool" where
  "keeps f f' \<longleftrightarrow> same_identity f f' \<and>
     (\<forall>i. map_of (pf_fragments f) i \<noteq> None \<longrightarrow> map_of (pf_fragments f') i = map_of (pf_fragments f) i)"

lemma keeps_refl [simp]: "keeps f f"
  by (simp add: keeps_def same_identity_def)

lemma keeps_trans: "keeps f f' \<Longrightarrow> keeps f' f'' \<Longrightarrow> keeps f f''"
  by (simp add: keeps_def same_identity_def)

text \<open>\<open>frames_kept\<close>: every frame that survives a step keeps what it had.\<close>

definition frames_kept :: "reassembly_map \<Rightarrow> reassembly_map \<Rightarrow> bool" where
  "frames_kept m m' \<longleftrightarrow> (\<forall>key f f'. map_of (rm_frames m) key = Some f \<longrightarrow>
     map_of (rm_frames m') key = Some f' \<longrightarrow> keeps f f')"

lemma frames_kept_same: "rm_frames m' = rm_frames m \<Longrightarrow> frames_kept m m'"
  by (auto simp: frames_kept_def)

lemma frames_kept_delete: "rm_frames m' = AList.delete key (rm_frames m) \<Longrightarrow> frames_kept m m'"
  by (auto simp: frames_kept_def delete_conv' split: if_splits)

lemma frames_kept_update:
  assumes "rm_frames m' = AList.update key frame (rm_frames m)"
    "map_of (rm_frames m) key = None \<or> (\<exists>f. map_of (rm_frames m) key = Some f \<and> keeps f frame)"
  shows "frames_kept m m'"
  using assms by (auto simp: frames_kept_def update_conv' split: if_splits)

lemma drop_oldest_frames:
  obtains "rm_frames (drop_oldest m) = rm_frames m"
    | key where "rm_frames (drop_oldest m) = AList.delete key (rm_frames m)"
proof (cases "rm_frames m = []")
  case True
  then show thesis using that(1) by (simp add: drop_oldest_def)
next
  case False
  then show thesis
    using drop_oldest_cases [OF False] that(2) by (metis record_drop_fields(5) remember_terminal_fields(5) remove_frame_fields(5))
qed

lemma make_room_subset:
  "map_of (rm_frames (make_room key m)) k = Some f \<Longrightarrow> map_of (rm_frames m) k = Some f"
  by (cases m rule: drop_oldest_frames) (auto simp: make_room_def delete_conv' split: if_splits)

lemma make_room_kept: "frames_kept m (make_room key m)"
  by (cases m rule: drop_oldest_frames)
    (auto simp: make_room_def intro: frames_kept_same frames_kept_delete)

text \<open>The frame list after the entry block.\<close>

lemma finish_frame_frames:
  assumes "finish_frame key entry m = (m', r)"
  shows "rm_frames m' = rm_frames m \<or> rm_frames m' = AList.delete key (rm_frames m)"
  using assms by (auto simp: finish_frame_def Let_def split: if_splits option.splits)

lemma ingest_entry_frames:
  assumes ok: "map_ok m" and entry: "map_of (rm_frames m) key = Some entry"
    and idx: "vp_fragment_index p < vp_fragment_count p"
    and parity: "flags_contains (vp_flags p) FEC_PARITY \<Longrightarrow>
       \<exists>u. validate_parity_shard (vp_fragment_count p) (vp_fragment_index p) (vp_payload p) = Ok u"
    and res: "ingest_entry rs key entry p m = (m', r)"
  obtains "rm_frames m' = rm_frames m" | "rm_frames m' = AList.delete key (rm_frames m)"
    | frame where "rm_frames m' = AList.update key frame (rm_frames m)" "keeps entry frame"
proof -
  let ?c = "vp_fragment_count p"
  have pend: "frame_pending entry"
    using frames_ok_lookup [of _ _ _ "rm_frames m" key entry] ok entry by (auto simp: map_ok_def)
  consider "pf_fragment_count entry \<noteq> unat ?c \<or> \<not> same_timeline entry p"
    | "pf_fragment_count entry = unat ?c" "same_timeline entry p" by blast
  then show thesis
  proof cases
    case 1
    then have "rm_frames m' = AList.delete key (rm_frames m)"
      using res by (auto simp: ingest_entry_def split: if_splits)
    then show thesis by (rule that(2))
  next
    case 2
    have wf: "frame_wf ?c entry" using frame_pending_wf [OF pend 2(1)] .
    note sf = store_fragment_wf [OF wf refl idx parity]
    show thesis
    proof (cases "store_fragment entry p")
      case (Inl r')
      then show thesis using that(1) res 2 by (auto simp: ingest_entry_def)
    next
      case (Inr fg)
      obtain f g where fg: "fg = (f, g)" by force
      have f: "frame_wf ?c f" "g < length (pf_fec_groups f)" "keeps entry f"
        using sf(3) [of f g] Inr fg by (auto simp: keeps_def)
      obtain f' n b a where rec: "recover_affected_group rs f g = Ok (f', n, b, a)"
          "frame_wf ?c f'" "same_identity f f'"
          "\<forall>i. map_of (pf_fragments f) i \<noteq> None \<longrightarrow> map_of (pf_fragments f') i = map_of (pf_fragments f) i"
        by (rule recover_affected_group_Ok [OF f(1,2)])
      have k: "keeps entry f'" using f(3) rec(3,4) by (auto simp: keeps_def intro: same_identity_trans)
      have "rm_frames m' = AList.update key f' (rm_frames m) \<or> rm_frames m' = AList.delete key (rm_frames m)"
        using res 2 Inr fg rec(1)
        by (auto simp: ingest_entry_def Let_def put_frame_def delete_update_same dest!: finish_frame_frames)
      then show thesis using that(2,3) k by blast
    qed
  qed
qed

lemma ingest_admitted_frames:
  assumes ok: "map_ok m" and key: "unat (vp_stream_epoch p) = rm_current_epoch m"
    and room: "map_of (rm_frames m) (packet_key p) \<noteq> None \<or> length (rm_frames m) < rm_max_frames m"
    and fresh: "packet_key p \<notin> set (rm_terminal_frames m)"
    and idx: "vp_fragment_index p < vp_fragment_count p"
    and count: "unat (vp_fragment_count p) \<le> rm_max_fragments m"
    and res: "ingest_admitted rs p t m = (m', r)"
  shows "k \<noteq> packet_key p \<Longrightarrow> map_of (rm_frames m') k = map_of (rm_frames m) k"
    and "map_of (rm_frames m) (packet_key p) = Some f \<Longrightarrow> map_of (rm_frames m') (packet_key p) = Some f' \<Longrightarrow>
           keeps f f'"
proof -
  let ?key = "packet_key p"
  have "(\<forall>k. k \<noteq> ?key \<longrightarrow> map_of (rm_frames m') k = map_of (rm_frames m) k) \<and>
      (\<forall>f f'. map_of (rm_frames m) ?key = Some f \<longrightarrow> map_of (rm_frames m') ?key = Some f' \<longrightarrow> keeps f f')"
  proof (cases "check_parity p")
    case (Ok u)
    have par: "\<exists>u. validate_parity_shard (vp_fragment_count p) (vp_fragment_index p) (vp_payload p) = Ok u"
      if "flags_contains (vp_flags p) FEC_PARITY" using Ok that by (simp add: check_parity_def)
    show ?thesis
    proof (cases "map_of (rm_frames m) ?key")
      case (Some entry)
      then have ent: "ingest_entry rs ?key entry p m = (m', r)"
        using res Ok by (simp add: ingest_admitted_def Let_def)
      show ?thesis
        by (rule ingest_entry_frames [OF ok Some idx _ ent], erule par)
          (auto simp: Some update_conv' delete_conv')
    next
      case None
      have c: "vp_fragment_count p \<noteq> 0" using idx by auto
      obtain f where f: "new_partial_frame p t = Ok f" "frame_wf (vp_fragment_count p) f" "pf_fragments f = []"
        by (rule new_partial_frame_Ok [OF c])
      have "frame_pending f" "pf_fragment_count f \<le> rm_max_fragments m"
        using f c count by (auto simp: frame_pending_def frame_wf_def unat_gt_0)
      then have put: "map_ok (put_frame ?key f m)"
        using map_ok_put_frame [OF ok room _ _ _ fresh] key by (simp add: packet_key_def)
      have look: "map_of (rm_frames (put_frame ?key f m)) ?key = Some f"
        "rm_frames (put_frame ?key f m) = AList.update ?key f (rm_frames m)"
        by (simp_all add: put_frame_def update_conv')
      have ent: "ingest_entry rs ?key f p (put_frame ?key f m) = (m', r)"
        using res Ok None f(1) by (simp add: ingest_admitted_def Let_def)
      show ?thesis
        by (rule ingest_entry_frames [OF put look(1) idx _ ent], erule par)
          (auto simp: None look(2) update_conv' delete_conv')
    qed
  qed (use res check_parity_no_panic in \<open>auto simp: ingest_admitted_def\<close>)
  then show "k \<noteq> packet_key p \<Longrightarrow> map_of (rm_frames m') k = map_of (rm_frames m) k"
    and "map_of (rm_frames m) (packet_key p) = Some f \<Longrightarrow> map_of (rm_frames m') (packet_key p) = Some f' \<Longrightarrow>
           keeps f f'" by blast+
qed

text \<open>The shape of one call of \<open>ingest_at\<close>: refused by a guard, or admitted.\<close>

lemma ingest_at_shape:
  assumes ok: "map_ok m" and res: "ingest_at rs p now m = (m', r)"
    and epoch: "\<not> unat (vp_stream_epoch p) < rm_current_epoch m"
  obtains (refused) m2 where "map_ok m2" "rm_current_epoch m2 = unat (vp_stream_epoch p)"
      "rm_frames m2 = rm_frames (enter_epoch (unat (vp_stream_epoch p)) m)" "rm_frames m' = rm_frames m2"
      "r = Ok None \<or> (\<exists>e. r = Err e)"
    | (admitted) m2 t where "map_ok m2" "rm_current_epoch m2 = unat (vp_stream_epoch p)"
      "rm_frames m2 = rm_frames (enter_epoch (unat (vp_stream_epoch p)) m)"
      "packet_key p \<notin> set (rm_terminal_frames m2)" "unat (vp_fragment_count p) \<le> rm_max_fragments m2"
      "ingest_admitted rs p t (make_room (packet_key p) m2) = (m', r)"
proof -
  define m1 where "m1 = enter_epoch (unat (vp_stream_epoch p)) m"
  obtain m2 inferred where obs: "observe_frame_id (unat (vp_frame_id p)) now m1 = (m2, inferred)" by force
  have m1: "map_ok m1" "rm_current_epoch m1 = unat (vp_stream_epoch p)"
    using epoch map_ok_enter_epoch [OF ok, of "unat (vp_stream_epoch p)"] by (auto simp: m1_def enter_epoch_def)
  have m2: "map_ok m2" "rm_current_epoch m2 = unat (vp_stream_epoch p)" "rm_frames m2 = rm_frames m1"
    using m1 map_ok_observe [OF m1(1)] observe_fields [of "unat (vp_frame_id p)" now m1] obs by (metis fst_conv)+
  let ?key = "packet_key p"
  have eq: "ingest_at rs p now m =
      (if expired_by (rm_expired_through m2) (unat (vp_frame_id p)) \<or> ?key \<in> set (rm_terminal_frames m2)
       then (m2, Ok None)
       else if ?key \<in> set (rm_rejected_frames m2) then (m2, Err TooManyFragments)
       else if unat (vp_fragment_count p) > rm_max_fragments m2 then (reject_too_many p m2, Err TooManyFragments)
       else ingest_admitted rs p (case inferred of None \<Rightarrow> now | Some t \<Rightarrow> t) (make_room ?key m2))"
    using epoch by (simp add: ingest_at_def Let_def m1_def [symmetric] obs)
  have rej: "rm_frames (reject_too_many p m2) = rm_frames m2"
    by (simp add: reject_too_many_def Let_def drop_oldest_rejected_eq)
  have fr: "rm_frames m2 = rm_frames (enter_epoch (unat (vp_stream_epoch p)) m)" using m2(3) m1_def by simp
  show thesis
  proof (cases "expired_by (rm_expired_through m2) (unat (vp_frame_id p)) \<or> ?key \<in> set (rm_terminal_frames m2) \<or>
      ?key \<in> set (rm_rejected_frames m2) \<or> unat (vp_fragment_count p) > rm_max_fragments m2")
    case True
    then show thesis using refused [OF m2(1,2) fr] res eq rej by (auto split: if_splits)
  next
    case False
    then show thesis using admitted [OF m2(1,2) fr] res eq by simp
  qed
qed

lemma ingest_frames_kept:
  assumes ok: "map_ok m" and idx: "vp_fragment_index p < vp_fragment_count p"
    and res: "ingest_at rs p now m = (m', r)"
  shows "frames_kept m m'"
proof (cases "unat (vp_stream_epoch p) < rm_current_epoch m")
  case True
  then show ?thesis using res by (auto simp: ingest_at_def intro: frames_kept_same)
next
  case False
  let ?key = "packet_key p"
  have enter: "map_of (rm_frames (enter_epoch (unat (vp_stream_epoch p)) m)) k =
      (if rm_current_epoch m < unat (vp_stream_epoch p) then None else map_of (rm_frames m) k)" for k
    by (simp add: enter_epoch_def reset_pending_for_epoch_def)
  have old: "fk_stream_epoch k = rm_current_epoch m" if "map_of (rm_frames m) k = Some f" for k f
    using frames_ok_lookup [of _ _ _ "rm_frames m" k f] ok that by (auto simp: map_ok_def)
  from ok res False show ?thesis
  proof (cases rule: ingest_at_shape)
    case (refused m2)
    then show ?thesis using enter by (auto simp: frames_kept_def split: if_splits)
  next
    case (admitted m2 t)
    note room = map_ok_make_room [OF admitted(1,4)]
    note fr = ingest_admitted_frames [OF room(1) _ room(3,2) idx _ admitted(6)]
    have same: "map_of (rm_frames (make_room ?key m2)) ?key = map_of (rm_frames m2) ?key"
      using make_room_None [of m2 ?key ?key] by (cases "map_of (rm_frames m2) ?key") (auto simp: make_room_def)
    show ?thesis
      unfolding frames_kept_def
    proof (intro allI impI)
      fix k f f'
      assume k: "map_of (rm_frames m) k = Some f" "map_of (rm_frames m') k = Some f'"
      show "keeps f f'"
      proof (cases "k = ?key")
        case True
        have "rm_current_epoch m = unat (vp_stream_epoch p)" using old [OF k(1)] True by (simp add: packet_key_def)
        then have "map_of (rm_frames m2) ?key = Some f" using k(1) True enter admitted(3) by simp
        with fr(2) same k(2) True admitted(2,5) show ?thesis by simp
      next
        case False
        then have "map_of (rm_frames (make_room ?key m2)) k = Some f'"
          using fr(1) [OF _ _ False] k(2) admitted(2,5) by simp
        then have "map_of (rm_frames m2) k = Some f'" by (rule make_room_subset)
        then show ?thesis using k(1) enter admitted(3) by (auto split: if_splits)
      qed
    qed
  qed
qed

section \<open>Every step\<close>

text \<open>The other operations only remove frames.\<close>

definition frames_sub :: "reassembly_map \<Rightarrow> reassembly_map \<Rightarrow> bool" where
  "frames_sub m m' \<longleftrightarrow> (\<forall>key f. map_of (rm_frames m') key = Some f \<longrightarrow> map_of (rm_frames m) key = Some f)"

lemma frames_sub_kept: "frames_sub m m' \<Longrightarrow> frames_kept m m'"
  by (force simp: frames_sub_def frames_kept_def)

lemma frames_sub_expired: "frames_sub m (fold drop_expired_frame keys m)"
proof (induction keys arbitrary: m)
  case (Cons k keys)
  have "frames_sub m (drop_expired_frame k m)"
    by (auto simp: frames_sub_def drop_expired_frame_def delete_conv' split: option.splits if_splits)
  with Cons [of "drop_expired_frame k m"] show ?case by (auto simp: frames_sub_def)
qed (simp add: frames_sub_def)

lemma frames_sub_expire: "frames_sub m (expire_incomplete_older_than now age m)"
  using frames_sub_expired [of m]
  by (auto simp: expire_incomplete_older_than_def Let_def frames_sub_def split: option.split)

lemma fold_terminal_frames [simp]:
  "rm_frames (fold remember_terminal keys m) = rm_frames m"
  "rm_current_epoch (fold remember_terminal keys m) = rm_current_epoch m"
  "rm_expired_through (fold remember_terminal keys m) = rm_expired_through m"
  by (induction keys arbitrary: m) auto

lemma frames_sub_discard: "frames_sub m (fst (discard_stale_access_unit e f flags m))"
  by (auto simp: frames_sub_def discard_stale_access_unit_def Let_def enter_epoch_def reset_pending_for_epoch_def
      delete_conv' split: if_splits)

lemma step_frames_kept:
  assumes "map_ok m" "reassembly_step rs m m'"
  shows "frames_kept m m'"
  using assms(2,1)
proof (induction rule: reassembly_step.induct)
  case (ingest bs p m now)
  then show ?case
    using ingest_frames_kept [OF ingest.prems decode_bytes_index [OF ingest.hyps]] by (metis prod.collapse)
qed (auto simp: clear_pending_def take_keyframe_loss_def take_reference_chain_loss_def Let_def
    intro!: frames_sub_kept frames_sub_expire frames_sub_discard simp: frames_sub_def)

section \<open>The expired boundary\<close>

definition boundary_le :: "nat option \<Rightarrow> nat option \<Rightarrow> bool" where
  "boundary_le e e' \<longleftrightarrow> (\<forall>f. expired_by e f \<longrightarrow> expired_by e' f)"

lemma boundary_le_refl [simp]: "boundary_le e e"
  by (simp add: boundary_le_def)

lemma boundary_le_raise [simp]: "boundary_le e (raise_expired f e)"
  by (auto simp: boundary_le_def expired_by_def raise_expired_def split: option.splits)

text \<open>\<open>advances\<close>: the epoch never falls, and within an epoch the boundary never falls.\<close>

definition advances :: "reassembly_map \<Rightarrow> reassembly_map \<Rightarrow> bool" where
  "advances m m' \<longleftrightarrow> rm_current_epoch m \<le> rm_current_epoch m' \<and>
     (rm_current_epoch m' = rm_current_epoch m \<longrightarrow> boundary_le (rm_expired_through m) (rm_expired_through m'))"

lemma advances_refl [simp]: "advances m m"
  by (simp add: advances_def)

lemma advances_trans: "advances m m' \<Longrightarrow> advances m' m'' \<Longrightarrow> advances m m''"
  by (auto simp: advances_def boundary_le_def)

lemma advances_fields:
  "rm_current_epoch m' = rm_current_epoch m \<Longrightarrow> rm_expired_through m' = rm_expired_through m \<Longrightarrow> advances m m'"
  by (simp add: advances_def)

lemma advances_enter: "advances m (enter_epoch e m)"
  by (simp add: advances_def enter_epoch_def)

lemma advances_observe: "advances m (fst (observe_frame_id f now m))"
  by (auto simp: advances_def observe_frame_id_def Let_def split: option.split)

lemma finish_frame_epoch:
  assumes "finish_frame key entry m = (m', r)"
  shows "rm_current_epoch m' = rm_current_epoch m" "rm_expired_through m' = rm_expired_through m"
  using assms by (auto simp: finish_frame_def Let_def split: if_splits option.splits)

lemma ingest_entry_epoch:
  assumes "ingest_entry rs key entry p m = (m', r)"
  shows "rm_current_epoch m' = rm_current_epoch m" "rm_expired_through m' = rm_expired_through m"
  using assms
  by (auto simp: ingest_entry_def Let_def put_frame_def dest: finish_frame_epoch
      split: if_splits sum.splits result.splits prod.splits)

lemma ingest_admitted_epoch:
  assumes "ingest_admitted rs p t m = (m', r)"
  shows "rm_current_epoch m' = rm_current_epoch m" "rm_expired_through m' = rm_expired_through m"
  using assms
  by (auto simp: ingest_admitted_def Let_def put_frame_def dest: ingest_entry_epoch
      split: result.splits option.splits)

lemma reject_epoch [simp]:
  "rm_current_epoch (reject_too_many p m) = rm_current_epoch m"
  "rm_expired_through (reject_too_many p m) = rm_expired_through m"
  "rm_terminal_frames (reject_too_many p m) = rm_terminal_frames m"
  by (simp_all add: reject_too_many_def Let_def drop_oldest_rejected_eq)

lemma advances_ingest: "advances m (fst (ingest_at rs p now m))"
proof (cases "unat (vp_stream_epoch p) < rm_current_epoch m")
  case True
  then show ?thesis by (simp add: ingest_at_def)
next
  case False
  define m1 where "m1 = enter_epoch (unat (vp_stream_epoch p)) m"
  obtain m2 inferred where obs: "observe_frame_id (unat (vp_frame_id p)) now m1 = (m2, inferred)" by force
  have 12: "advances m m2"
    using advances_trans [OF advances_enter advances_observe] obs m1_def by (metis fst_conv)
  obtain m' r where adm: "ingest_admitted rs p (case inferred of None \<Rightarrow> now | Some t \<Rightarrow> t)
      (make_room (packet_key p) m2) = (m', r)" by force
  have "advances m2 m'" using ingest_admitted_epoch [OF adm] by (intro advances_fields) simp_all
  then have "advances m m'" using 12 by (rule advances_trans [rotated])
  moreover have "advances m (reject_too_many p m2)" using 12 by (simp add: advances_def)
  ultimately show ?thesis
    using False 12 adm by (simp add: ingest_at_def Let_def m1_def [symmetric] obs)
qed

lemma fold_expired_epoch [simp]:
  "rm_current_epoch (fold drop_expired_frame keys m) = rm_current_epoch m"
  "rm_expired_through (fold drop_expired_frame keys m) = rm_expired_through m"
proof (induction keys arbitrary: m)
  case (Cons k keys)
  { case 1 show ?case using Cons by (simp add: drop_expired_frame_def split: option.split) }
  { case 2 show ?case using Cons by (simp add: drop_expired_frame_def split: option.split) }
qed simp_all

lemma advances_expire: "advances m (expire_incomplete_older_than now age m)"
  by (simp add: expire_incomplete_older_than_def Let_def advances_def split: option.split)

lemma advances_discard: "advances m (fst (discard_stale_access_unit e f flags m))"
  using advances_enter [of m e]
  by (auto simp: discard_stale_access_unit_def Let_def advances_def boundary_le_def
      intro: boundary_le_raise [unfolded boundary_le_def, rule_format])

lemma step_advances: "reassembly_step rs m m' \<Longrightarrow> advances m m'"
proof (induction rule: reassembly_step.induct)
  case (clear m)
  then show ?case by (simp add: advances_def clear_pending_def Let_def split: option.split)
qed (simp_all add: advances_ingest advances_expire advances_discard,
    simp_all add: take_keyframe_loss_def take_reference_chain_loss_def Let_def advances_def)

lemma steps_advance: "(reassembly_step rs)\<^sup>*\<^sup>* m m' \<Longrightarrow> advances m m'"
  by (induction rule: rtranclp_induct) (auto intro: step_advances advances_trans)

lemma ingest_retired:
  assumes "rm_current_epoch m = unat (vp_stream_epoch p)"
    "expired_by (rm_expired_through m) (unat (vp_frame_id p)) \<or> packet_key p \<in> set (rm_terminal_frames m)"
  shows "snd (ingest_at rs p now m) = Ok None" "rm_frames (fst (ingest_at rs p now m)) = rm_frames m"
    "rm_terminal_frames (fst (ingest_at rs p now m)) = rm_terminal_frames m"
    "rm_current_epoch (fst (ingest_at rs p now m)) = rm_current_epoch m"
proof -
  obtain m2 inferred where obs: "observe_frame_id (unat (vp_frame_id p)) now m = (m2, inferred)" by force
  have m2: "rm_frames m2 = rm_frames m" "rm_terminal_frames m2 = rm_terminal_frames m"
    "rm_current_epoch m2 = rm_current_epoch m"
    using observe_fields [of "unat (vp_frame_id p)" now m] obs by (metis fst_conv)+
  have "boundary_le (rm_expired_through m) (rm_expired_through m2)"
    using advances_observe [of m "unat (vp_frame_id p)" now] obs
      observe_fields(3) [of "unat (vp_frame_id p)" now m] by (simp add: advances_def)
  then have "ingest_at rs p now m = (m2, Ok None)"
    using assms obs m2 by (auto simp: ingest_at_def enter_epoch_def boundary_le_def)
  then show "snd (ingest_at rs p now m) = Ok None" "rm_frames (fst (ingest_at rs p now m)) = rm_frames m"
    "rm_terminal_frames (fst (ingest_at rs p now m)) = rm_terminal_frames m"
    "rm_current_epoch (fst (ingest_at rs p now m)) = rm_current_epoch m" using m2 by simp_all
qed

text \<open>An assembled access unit leaves its key in the terminal set.\<close>

lemma finish_frame_terminal:
  assumes "finish_frame key entry m = (m', Ok (Some au))"
  shows "key \<in> set (rm_terminal_frames m')" "rm_current_epoch m' = rm_current_epoch m"
    "au_frame_id au = fk_frame_id key" "au_stream_epoch au = fk_stream_epoch key"
  using assms by (auto simp: finish_frame_def Let_def split: if_splits option.splits)

lemma store_fragment_silent: "store_fragment frame p \<noteq> Inl (Ok (Some au))"
  by (auto simp: store_fragment_def Let_def split: result.split bool.split)

lemma ingest_entry_terminal:
  assumes "ingest_entry rs key entry p m = (m', Ok (Some au))"
  shows "key \<in> set (rm_terminal_frames m')" "rm_current_epoch m' = rm_current_epoch m"
    "au_frame_id au = fk_frame_id key" "au_stream_epoch au = fk_stream_epoch key"
  using assms store_fragment_silent [of entry p au]
  by (auto simp: ingest_entry_def Let_def put_frame_def dest: finish_frame_terminal
      split: if_splits sum.splits result.splits prod.splits)

lemma ingest_admitted_terminal:
  assumes "ingest_admitted rs p t m = (m', Ok (Some au))"
  shows "packet_key p \<in> set (rm_terminal_frames m')" "rm_current_epoch m' = rm_current_epoch m"
    "au_frame_id au = unat (vp_frame_id p)" "au_stream_epoch au = unat (vp_stream_epoch p)"
  using assms
  by (auto simp: ingest_admitted_def Let_def put_frame_def packet_key_def dest: ingest_entry_terminal
      split: result.splits option.splits)

lemma ingest_at_terminal:
  assumes "map_ok m" "ingest_at rs p now m = (m', Ok (Some au))"
  shows "packet_key p \<in> set (rm_terminal_frames m')" "rm_current_epoch m' = unat (vp_stream_epoch p)"
    "au_frame_id au = unat (vp_frame_id p)" "au_stream_epoch au = unat (vp_stream_epoch p)"
proof -
  have ep: "\<not> unat (vp_stream_epoch p) < rm_current_epoch m" using assms(2) by (auto simp: ingest_at_def)
  have "packet_key p \<in> set (rm_terminal_frames m') \<and> rm_current_epoch m' = unat (vp_stream_epoch p) \<and>
    au_frame_id au = unat (vp_frame_id p) \<and> au_stream_epoch au = unat (vp_stream_epoch p)"
    using assms ep
  proof (cases rule: ingest_at_shape)
    case (admitted m2 t)
    then show ?thesis using ingest_admitted_terminal [OF admitted(6)] by simp
  qed auto
  then show "packet_key p \<in> set (rm_terminal_frames m')" "rm_current_epoch m' = unat (vp_stream_epoch p)"
    "au_frame_id au = unat (vp_frame_id p)" "au_stream_epoch au = unat (vp_stream_epoch p)" by auto
qed

section \<open>How long a retired key is remembered\<close>

text \<open>Within its epoch a key is forgotten only after the terminal set has filled up with others.\<close>

definition retired :: "frame_key \<Rightarrow> reassembly_map \<Rightarrow> bool" where
  "retired key m \<longleftrightarrow> key \<in> set (rm_terminal_frames m) \<or> gap_capacity m \<le> length (rm_terminal_frames m)"

lemma retired_cong:
  "rm_terminal_frames m' = rm_terminal_frames m \<Longrightarrow> rm_max_frames m' = rm_max_frames m \<Longrightarrow> retired k m' = retired k m"
  by (simp add: retired_def gap_capacity_def)

lemma length_evict:
  assumes "distinct keys" "1 \<le> cap" "cap \<le> length keys"
  shows "length (evict_oldest cap keys) = length keys - 1"
proof -
  have "keys \<noteq> []" using assms by auto
  then obtain x where "min_by fk_frame_id keys = Some x" "x \<in> set keys"
    using min_by_Some [of fk_frame_id keys] by (cases "min_by fk_frame_id keys") auto
  with assms show ?thesis by (simp add: evict_oldest_def length_removeAll_distinct)
qed

lemma set_evict: "set (evict_oldest cap keys) \<subseteq> set keys"
  by (auto simp: evict_oldest_def split: option.splits if_splits)

lemma retired_remember:
  assumes "retired k m" "key \<notin> set (rm_terminal_frames m)" "distinct (rm_terminal_frames m)"
  shows "retired k (remember_terminal key m)"
proof (cases "gap_capacity m \<le> length (rm_terminal_frames m)")
  case True
  have "key \<notin> set (evict_oldest (gap_capacity m) (rm_terminal_frames m))" using assms(2) set_evict by blast
  then have "length (rm_terminal_frames (remember_terminal key m)) = length (rm_terminal_frames m)"
    using length_evict [OF assms(3) gap_capacity_pos True] True gap_capacity_pos [of m]
    by (simp add: remember_terminal_eq List.insert_def)
  with True show ?thesis by (simp add: retired_def)
next
  case False
  with assms(1) show ?thesis by (simp add: retired_def remember_terminal_eq evict_oldest_def)
qed

lemma map_ok_distinct: "map_ok m \<Longrightarrow> distinct (rm_terminal_frames m)"
  by (simp add: map_ok_def keys_ok_def)

lemma retired_retire:
  assumes "retired k m" "key \<notin> set (rm_terminal_frames m)" "distinct (rm_terminal_frames m)"
  shows "retired k (remember_terminal key (record_incomplete_drop f (remove_frame key m)))"
    and "retired k (remember_terminal key (remove_frame key m))"
proof -
  have same: "retired k (record_incomplete_drop f (remove_frame key m))" "retired k (remove_frame key m)"
    using assms(1) by (simp_all add: retired_def)
  show "retired k (remember_terminal key (record_incomplete_drop f (remove_frame key m)))"
    using assms(2,3) by (intro retired_remember [OF same(1)]) simp_all
  show "retired k (remember_terminal key (remove_frame key m))"
    using assms(2,3) by (intro retired_remember [OF same(2)]) simp_all
qed

lemma retired_drop_oldest:
  assumes "map_ok m" "retired k m"
  shows "retired k (drop_oldest m)"
proof (cases "rm_frames m = []")
  case True
  with assms show ?thesis by (simp add: drop_oldest_def)
next
  case False
  obtain key frame where d: "map_of (rm_frames m) key = Some frame"
      "drop_oldest m = remember_terminal key (record_incomplete_drop frame (remove_frame key m))"
    by (rule drop_oldest_cases [OF False])
  have "key \<notin> set (rm_terminal_frames m)"
    using assms(1) d(1) by (force simp: map_ok_def dest: map_of_SomeD)
  from retired_retire(1) [OF assms(2) this map_ok_distinct [OF assms(1)]] d(2) show ?thesis by simp
qed

lemma retired_make_room: "map_ok m \<Longrightarrow> retired k m \<Longrightarrow> retired k (make_room key m)"
  by (simp add: make_room_def retired_drop_oldest)

lemma retired_finish:
  assumes "retired k m" "key \<notin> set (rm_terminal_frames m)" "distinct (rm_terminal_frames m)"
  shows "retired k (fst (finish_frame key entry m))"
proof -
  have "retired k (m1 \<lparr> rm_resolved_fragments := n \<rparr>) = retired k m1" for m1 n by (rule retired_cong) simp_all
  with assms(1) retired_retire(1) [OF assms, of entry] retired_retire(2) [OF assms] show ?thesis
    by (simp add: finish_frame_def Let_def split: option.split)
qed

lemma retired_entry:
  assumes "retired k m" "key \<notin> set (rm_terminal_frames m)" "distinct (rm_terminal_frames m)"
  shows "retired k (fst (ingest_entry rs key entry p m))"
proof -
  have finish: "retired k (fst (finish_frame key e (put_frame key e m \<lparr> rm_fec_recovered := a,
      rm_fec_group_checks := b, rm_fec_recovery_attempts := c \<rparr>)))" for e a b c
    using assms by (intro retired_finish) (simp_all add: put_frame_def retired_def gap_capacity_def)
  show ?thesis
    using assms(1) retired_retire(1) [OF assms, of entry] finish
    by (simp add: ingest_entry_def Let_def split: sum.split result.split)
qed

lemma retired_admitted:
  assumes "retired k m" "packet_key p \<notin> set (rm_terminal_frames m)" "distinct (rm_terminal_frames m)"
  shows "retired k (fst (ingest_admitted rs p t m))"
proof -
  have "retired k (fst (ingest_entry rs (packet_key p) e p (put_frame (packet_key p) e m)))" for e
    using assms by (intro retired_entry) (simp_all add: put_frame_def retired_def gap_capacity_def)
  then show ?thesis
    using assms(1) retired_entry [OF assms] by (simp add: ingest_admitted_def Let_def split: result.split option.split)
qed

lemma retired_reject: "retired k m \<Longrightarrow> retired k (reject_too_many p m)"
  by (simp add: retired_def gap_capacity_def) (simp add: reject_too_many_def Let_def drop_oldest_rejected_eq)

lemma ingest_epoch:
  assumes "\<not> unat (vp_stream_epoch p) < rm_current_epoch m"
  shows "rm_current_epoch (fst (ingest_at rs p now m)) = unat (vp_stream_epoch p)"
proof -
  define m1 where "m1 = enter_epoch (unat (vp_stream_epoch p)) m"
  obtain m2 inferred where obs: "observe_frame_id (unat (vp_frame_id p)) now m1 = (m2, inferred)" by force
  obtain m' r where adm: "ingest_admitted rs p (case inferred of None \<Rightarrow> now | Some t \<Rightarrow> t)
      (make_room (packet_key p) m2) = (m', r)" by force
  have "rm_current_epoch m1 = unat (vp_stream_epoch p)" using assms by (auto simp: m1_def enter_epoch_def)
  then have "rm_current_epoch m2 = unat (vp_stream_epoch p)"
    using observe_fields(3) [of "unat (vp_frame_id p)" now m1] obs by simp
  with ingest_admitted_epoch(1) [OF adm] adm show ?thesis
    by (simp add: ingest_at_def Let_def m1_def [symmetric] obs assms)
qed

lemma retired_ingest:
  assumes ok: "map_ok m" and ret: "retired k m"
    and epoch: "rm_current_epoch (fst (ingest_at rs p now m)) = rm_current_epoch m"
  shows "retired k (fst (ingest_at rs p now m))"
proof (cases "unat (vp_stream_epoch p) < rm_current_epoch m")
  case True
  with ret show ?thesis by (simp add: ingest_at_def)
next
  case False
  let ?key = "packet_key p"
  have same: "enter_epoch (unat (vp_stream_epoch p)) m = m"
    using ingest_epoch [OF False, of rs now] epoch by (simp add: enter_epoch_def)
  obtain m2 inferred where obs: "observe_frame_id (unat (vp_frame_id p)) now m = (m2, inferred)" by force
  have m2: "map_ok m2" "rm_terminal_frames m2 = rm_terminal_frames m" "rm_max_frames m2 = rm_max_frames m"
    using map_ok_observe [OF ok, of "unat (vp_frame_id p)" now] observe_fields [of "unat (vp_frame_id p)" now m] obs
    by (metis fst_conv)+
  have ret2: "retired k m2" using ret retired_cong [OF m2(2,3)] by simp
  have "retired k (fst (ingest_admitted rs p t (make_room ?key m2)))" if "?key \<notin> set (rm_terminal_frames m2)" for t
    using map_ok_make_room [OF m2(1) that] retired_make_room [OF m2(1) ret2]
    by (intro retired_admitted) (simp_all add: map_ok_distinct)
  with ret2 retired_reject [OF ret2, of p] show ?thesis
    by (simp add: ingest_at_def Let_def same obs False)
qed

lemma retired_fold_remember:
  assumes "retired k m" "distinct keys" "set keys \<inter> set (rm_terminal_frames m) = {}" "distinct (rm_terminal_frames m)"
  shows "retired k (fold remember_terminal keys m)"
  using assms
proof (induction keys arbitrary: m)
  case (Cons key keys)
  let ?m = "remember_terminal key m"
  have "retired k ?m" using Cons.prems by (intro retired_remember) simp_all
  moreover have "set keys \<inter> set (rm_terminal_frames ?m) = {}"
    using Cons.prems(2,3) remember_terminal_subset [of key m] by auto
  moreover have "distinct (rm_terminal_frames ?m)"
    using Cons.prems(4) by (auto simp: remember_terminal_eq evict_oldest_def distinct_removeAll split: option.split)
  ultimately show ?case using Cons.IH Cons.prems(2) by simp
qed simp

lemma retired_clear:
  assumes "map_ok m" "retired k m"
  shows "retired k (clear_pending m)"
  unfolding clear_pending_def Let_def
  using assms by (intro retired_fold_remember)
    (auto simp: retired_def gap_capacity_def map_ok_def frames_ok_def hm_ok_def keys_ok_def)

lemma fold_expired_terminal [simp]:
  "rm_terminal_frames (fold drop_expired_frame keys m) = rm_terminal_frames m"
  "rm_max_frames (fold drop_expired_frame keys m) = rm_max_frames m"
proof (induction keys arbitrary: m)
  case (Cons k keys)
  { case 1 show ?case using Cons by (simp add: drop_expired_frame_def split: option.split) }
  { case 2 show ?case using Cons by (simp add: drop_expired_frame_def split: option.split) }
qed simp_all

lemma expire_terminal [simp]:
  "rm_terminal_frames (expire_incomplete_older_than now age m) = rm_terminal_frames m"
  "rm_max_frames (expire_incomplete_older_than now age m) = rm_max_frames m"
  by (simp_all add: expire_incomplete_older_than_def Let_def split: option.split)

lemma retired_expire: "retired k m \<Longrightarrow> retired k (expire_incomplete_older_than now age m)"
  by (simp add: retired_cong [OF expire_terminal])

lemma retired_discard:
  assumes ok: "map_ok m" and ret: "retired k m"
    and epoch: "rm_current_epoch (fst (discard_stale_access_unit e f flags m)) = rm_current_epoch m"
  shows "retired k (fst (discard_stale_access_unit e f flags m))"
proof -
  have "rm_current_epoch (fst (discard_stale_access_unit e f flags m)) = max e (rm_current_epoch m)"
    by (simp add: discard_stale_access_unit_def Let_def enter_epoch_def)
  with epoch consider "e < rm_current_epoch m" | "rm_current_epoch m = e" by linarith
  then show ?thesis
  proof cases
    case 1
    with ret show ?thesis by (simp add: discard_stale_access_unit_def)
  next
    case 2
    let ?key = "\<lparr> fk_stream_epoch = e, fk_frame_id = f \<rparr>"
    have "retired k (remember_terminal ?key (remove_frame ?key m \<lparr> rm_reference_loss_pending := a,
        rm_keyframe_loss_pending := b, rm_frame_gaps := c, rm_rejected_frames := d \<rparr>))"
      if "?key \<notin> set (rm_terminal_frames m)" for a b c d
      using that ret map_ok_distinct [OF ok] by (intro retired_remember) (simp_all add: retired_def gap_capacity_def)
    moreover have "retired k (m' \<lparr> rm_expired_through := x \<rparr>) = retired k m'" for m' x
      by (rule retired_cong) simp_all
    ultimately show ?thesis
      using ret 2 by (simp add: discard_stale_access_unit_def Let_def enter_epoch_def)
  qed
qed

lemma step_retired:
  "reassembly_step rs m m' \<Longrightarrow> map_ok m \<Longrightarrow> retired k m \<Longrightarrow> rm_current_epoch m' = rm_current_epoch m \<Longrightarrow> retired k m'"
proof (induction rule: reassembly_step.induct)
  case (take_keyframe m)
  then show ?case by (simp add: take_keyframe_loss_def retired_def gap_capacity_def)
next
  case (take_chain m)
  then show ?case by (simp add: take_reference_chain_loss_def Let_def retired_def gap_capacity_def)
qed (simp_all add: retired_ingest retired_expire retired_clear retired_discard)

lemma steps_retired:
  assumes "(reassembly_step rs)\<^sup>*\<^sup>* m m'" "map_ok m" "retired k m"
  shows "map_ok m' \<and> (rm_current_epoch m' = rm_current_epoch m \<longrightarrow> retired k m')"
  using assms(1)
proof (induction rule: rtranclp_induct)
  case (step m1 m2)
  have "rm_current_epoch m \<le> rm_current_epoch m1" "rm_current_epoch m1 \<le> rm_current_epoch m2"
    using steps_advance [OF step.hyps(1)] step_advances [OF step.hyps(2)] by (simp_all add: advances_def)
  then show ?case
    using step.IH step_map_ok [OF step.hyps(2)] step_retired [OF step.hyps(2)] by auto
qed (use assms(2,3) in simp)

section \<open>Properties\<close>

text \<open>C12: no step of the reassembly alters what a pending frame has stored. In particular parity
  reconstruction fills holes only: whatever the codec returns, it never overwrites a fragment that
  arrived, and the metadata of the frame stays as its first packet set it.\<close>

theorem stored_fragments_kept:
  assumes "reassembly_reachable rs m" "reassembly_step rs m m'"
    and "map_of (rm_frames m) key = Some f" "map_of (rm_frames m') key = Some f'"
  shows "(\<forall>i bs. map_of (pf_fragments f) i = Some bs \<longrightarrow> map_of (pf_fragments f') i = Some bs) \<and>
    pf_pts_us f' = pf_pts_us f \<and> pf_encoded_at_us f' = pf_encoded_at_us f \<and> pf_flags f' = pf_flags f \<and>
    pf_fragment_count f' = pf_fragment_count f \<and> pf_first_fragment_at f' = pf_first_fragment_at f"
  using step_frames_kept [OF reachable_map_ok [OF assms(1)] assms(2)] assms(3,4)
  by (fastforce simp: frames_kept_def keeps_def same_identity_def)

definition one_of_three :: reassembly_map where
  "one_of_three = fst (ingest_at no_codec (cut_packet sample_packet [[1], [2], [3]] 0) 5 (reassembly_new 2 16))"

definition two_of_three :: reassembly_map where
  "two_of_three = fst (ingest_at no_codec (cut_packet sample_packet [[1], [2], [3]] 1) 6 one_of_three)"

lemma sample_data: "\<not> flags_contains (vp_flags sample_packet) FEC_PARITY"
  by (simp add: flags_contains_def sample_packet_def flag_constants)

lemma cut_sample_decodes:
  assumes "i < 3"
  shows "\<exists>bs. decode_bytes bs = Ok (cut_packet sample_packet [[1], [2], [3]] i)"
proof -
  have "flags_valid (vp_flags (cut_packet sample_packet [[1], [2], [3]] i))"
    by (simp add: cut_packet_def boundary_flags_def sample_packet_def flags_valid_def flags_all_def flag_constants)
  moreover have "length ([[1], [2], [3 :: u8]] ! i) \<le> 1" using assms by (auto simp: nth_Cons' less_Suc_eq numeral_3_eq_3)
  moreover have "of_nat i < (3 :: u16)" using assms by (auto simp: less_Suc_eq numeral_3_eq_3)
  ultimately show ?thesis
    using encode_decode [of "cut_packet sample_packet [[1], [2], [3]] i"]
    by (auto simp: encode_packet_Ok_iff cut_packet_def)
qed

lemma sample_receives:
  "receives sample_packet [[1], [2], [3]] {0} one_of_three \<and> receives sample_packet [[1], [2], [3]] {0, 1} two_of_three"
proof -
  let ?ps = "[[1], [2], [3 :: u8]]"
  have acc: "accepts (reassembly_new 2 16) sample_packet" and fit: "length ?ps \<le> rm_max_fragments (reassembly_new 2 16)"
    by (simp_all add: accepts_def reassembly_new_def sample_packet_def)
  note rec = accepts_receives [OF map_ok_new acc fit]
  have eq: "ingest_at no_codec (cut_packet sample_packet ?ps 0) 5
      (enter_epoch (unat (vp_stream_epoch sample_packet)) (reassembly_new 2 16)) =
      ingest_at no_codec (cut_packet sample_packet ?ps 0) 5 (reassembly_new 2 16)"
    using ingest_enter_epoch [of "reassembly_new 2 16" "cut_packet sample_packet ?ps 0"] rec(2)
    by (simp add: cut_packet_def)
  have ne: "{0} \<noteq> {0 ..< length ?ps}" "{0, 1} \<noteq> {0 ..< length ?ps}"
    by (auto simp: set_eq_iff)
  have one: "receives sample_packet ?ps {0} one_of_three"
    using receives_step(1) [OF rec(1) _ _ _ _ sample_data, of 0 no_codec 5] eq ne(1)
    by (simp add: one_of_three_def) (metis prod.collapse)
  have "receives sample_packet ?ps {0, 1} two_of_three"
    using receives_step(1) [OF one _ _ _ _ sample_data, of 1 no_codec 6] ne(2)
    by (simp add: two_of_three_def insert_commute) (metis prod.collapse)
  with one show ?thesis ..
qed

theorem stored_fragments_kept_witness:
  "\<exists>f. map_of (rm_frames two_of_three) (packet_key sample_packet) = Some f \<and>
       map_of (pf_fragments f) 0 = Some [1] \<and> map_of (pf_fragments f) 1 = Some [2]"
proof -
  let ?ps = "[[1], [2], [3 :: u8]]" and ?key = "packet_key sample_packet"
  obtain f where f: "map_of (rm_frames one_of_three) ?key = Some f" "holds sample_packet ?ps {0} f"
    using sample_receives by (auto simp: receives_def split: option.splits)
  obtain f' where f': "map_of (rm_frames two_of_three) ?key = Some f'" "holds sample_packet ?ps {0, 1} f'"
    using sample_receives by (auto simp: receives_def split: option.splits)
  obtain bs where bs: "decode_bytes bs = Ok (cut_packet sample_packet ?ps 0)" using cut_sample_decodes [of 0] by auto
  obtain bs' where bs': "decode_bytes bs' = Ok (cut_packet sample_packet ?ps 1)" using cut_sample_decodes [of 1] by auto
  have "reassembly_reachable no_codec one_of_three"
    unfolding one_of_three_def
    by (rule reassembly_reachable.step [OF reassembly_reachable.start reassembly_step.ingest [OF bs]])
  moreover have "reassembly_step no_codec one_of_three two_of_three"
    unfolding two_of_three_def by (rule reassembly_step.ingest [OF bs'])
  moreover have "map_of (pf_fragments f) 0 = Some [1]" "map_of (pf_fragments f') 1 = Some [2]"
    using f(2) f'(2) by (simp_all add: holds_def)
  ultimately show ?thesis using stored_fragments_kept [OF _ _ f(1) f'(1)] f'(1) by blast
qed

text \<open>C13: what has expired stays expired. Once the boundary has passed an access unit, no later
  sequence of operations in the epoch lets one of its packets return an access unit or create a
  pending frame.\<close>

theorem expired_stays_silent:
  assumes "(reassembly_step rs)\<^sup>*\<^sup>* m m'" "rm_current_epoch m' = rm_current_epoch m"
    and "unat (vp_stream_epoch p) \<le> rm_current_epoch m" "expired_by (rm_expired_through m) (unat (vp_frame_id p))"
  shows "snd (ingest_at rs p now m') = Ok None \<and> rm_frames (fst (ingest_at rs p now m')) = rm_frames m'"
proof (cases "unat (vp_stream_epoch p) < rm_current_epoch m")
  case True
  then show ?thesis using assms(2) by (simp add: ingest_at_def)
next
  case False
  have "expired_by (rm_expired_through m') (unat (vp_frame_id p))"
    using steps_advance [OF assms(1)] assms(2,4) by (simp add: advances_def boundary_le_def)
  then show ?thesis using ingest_retired [of m' p rs now] False assms(2,3) by simp
qed

theorem expired_stays_silent_witness:
  "snd (ingest_at no_codec sample_packet 9
     (clear_pending (fst (discard_stale_access_unit 2 42 1 (reassembly_new 2 16))))) = Ok None"
proof -
  let ?m = "fst (discard_stale_access_unit 2 42 1 (reassembly_new 2 16))"
  have m: "rm_current_epoch ?m = 2" "rm_expired_through ?m = Some 42"
    by (simp_all add: discard_stale_access_unit_def Let_def enter_epoch_def reassembly_new_def
        reset_pending_for_epoch_def expired_by_def raise_expired_def)
  have c: "rm_current_epoch (clear_pending ?m) = rm_current_epoch ?m"
    by (simp add: clear_pending_def Let_def)
  show ?thesis
    using expired_stays_silent [OF r_into_rtranclp [of "reassembly_step no_codec", OF reassembly_step.clear] c,
        of sample_packet 9] m
    by (simp add: sample_packet_def expired_by_def)
qed

text \<open>C14: an access unit is delivered once. The packet that completes it retires its key. Whatever
  happens afterwards (packets of other access units, losses, expiry, clearing), every further packet of it is
  ignored without touching a frame, for as long as the key is remembered and also after the stream has
  moved on to another epoch; and within the epoch the key is only forgotten once the terminal set has
  filled up, to twice the frame capacity, with the keys of other access units.\<close>

theorem delivered_then_silent:
  assumes "reassembly_reachable rs m" "decode_bytes bs = Ok p" "ingest_at rs p now m = (m', Ok (Some au))"
    and "(reassembly_step rs)\<^sup>*\<^sup>* m' m''" and "packet_key q = packet_key p"
  shows "au_frame_id au = unat (vp_frame_id p) \<and> packet_key p \<in> set (rm_terminal_frames m') \<and>
    (packet_key p \<in> set (rm_terminal_frames m'') \<or> unat (vp_stream_epoch p) < rm_current_epoch m'' \<or>
      gap_capacity m'' \<le> length (rm_terminal_frames m'')) \<and>
    (packet_key p \<in> set (rm_terminal_frames m'') \<or> unat (vp_stream_epoch p) < rm_current_epoch m'' \<longrightarrow>
      snd (ingest_at rs q now' m'') = Ok None \<and> rm_frames (fst (ingest_at rs q now' m'')) = rm_frames m'' \<and>
      rm_terminal_frames (fst (ingest_at rs q now' m'')) = rm_terminal_frames m'')"
proof -
  have ok: "map_ok m" by (rule reachable_map_ok [OF assms(1)])
  note t = ingest_at_terminal [OF ok assms(3)]
  have q: "unat (vp_stream_epoch q) = unat (vp_stream_epoch p)" using assms(5) by (simp add: packet_key_def)
  have ok': "map_ok m'"
    using ingest_at_ok [OF ok decode_bytes_index [OF assms(2)] assms(3)] by simp
  have le: "unat (vp_stream_epoch p) \<le> rm_current_epoch m''"
    using steps_advance [OF assms(4)] t(2) by (simp add: advances_def)
  have kept: "retired (packet_key p) m''" if "\<not> unat (vp_stream_epoch p) < rm_current_epoch m''"
    using steps_retired [OF assms(4) ok', of "packet_key p"] t(1,2) le that by (simp add: retired_def)
  have quiet: "snd (ingest_at rs q now' m'') = Ok None \<and> rm_frames (fst (ingest_at rs q now' m'')) = rm_frames m'' \<and>
      rm_terminal_frames (fst (ingest_at rs q now' m'')) = rm_terminal_frames m''"
    if "packet_key p \<in> set (rm_terminal_frames m'') \<or> unat (vp_stream_epoch p) < rm_current_epoch m''"
  proof (cases "unat (vp_stream_epoch p) < rm_current_epoch m''")
    case True
    then show ?thesis by (simp add: ingest_at_def q)
  next
    case False
    then show ?thesis using ingest_retired [of m'' q rs now'] that le assms(5) q by simp
  qed
  show ?thesis using t(1,3) kept quiet by (auto simp: retired_def)
qed

text \<open>A frame of one fragment is delivered; then losses are expired and reported, and its packet comes again.\<close>

theorem delivered_then_silent_witness:
  "\<exists>au m'. ingest_at no_codec (cut_packet sample_packet [[7]] 0) 5 (reassembly_new 2 16) = (m', Ok (Some au)) \<and>
     au_frame_id au = 42 \<and>
     snd (ingest_at no_codec (cut_packet sample_packet [[7]] 0) 9
       (snd (take_reference_chain_loss (expire_incomplete_older_than 8 3 m')))) = Ok None"
proof -
  let ?p = "cut_packet sample_packet [[7]] 0"
  have "accepts (reassembly_new 2 16) sample_packet"
    by (simp add: accepts_def reassembly_new_def sample_packet_def)
  then obtain au where "snd (ingest_all no_codec (zip (map (cut_packet sample_packet [[7]]) [0]) [5])
      (reassembly_new 2 16)) = [Ok (Some au)]"
    using fragments_complete [OF map_ok_new _ _ _ sample_data, of 2 16 "[[7]]" "[0]" "[5]" no_codec]
    by (auto simp: reassembly_new_def)
  then have "snd (ingest_at no_codec ?p 5 (reassembly_new 2 16)) = Ok (Some au)"
    by (simp add: case_prod_beta Let_def)
  then obtain m' where m': "ingest_at no_codec ?p 5 (reassembly_new 2 16) = (m', Ok (Some au))"
    by (metis prod.collapse)
  have "flags_valid (vp_flags ?p)"
    by (simp add: cut_packet_def boundary_flags_def sample_packet_def flags_valid_def flags_all_def flag_constants)
  then obtain bs where bs: "decode_bytes bs = Ok ?p"
    using encode_decode [of ?p] by (auto simp: encode_packet_Ok_iff cut_packet_def)
  let ?m = "snd (take_reference_chain_loss (expire_incomplete_older_than 8 3 m'))"
  have run: "(reassembly_step no_codec)\<^sup>*\<^sup>* m' ?m"
    by (meson converse_rtranclp_into_rtranclp r_into_rtranclp reassembly_step.take_chain reassembly_step.expire)
  have "rm_terminal_frames ?m = rm_terminal_frames m'" by (simp add: take_reference_chain_loss_def Let_def)
  with delivered_then_silent [OF reassembly_reachable.start bs m' run, of ?p 9] m'
  show ?thesis by (auto simp: cut_packet_def sample_packet_def)
qed

end
