(* ===== verification/F64.thy ===== *)
theory F64
  imports Prelude Complex_Main "HOL-Library.Log_Nat"
begin

text \<open>
  Double-precision numbers as far as the program uses them: NaN, the infinities and finite values as
  the rationals they denote, with results rounded to 53 significant bits, ties to even. The two zeros
  are one value (the program only compares, scales and clamps), and the exponent range is not bounded:
  every finite value the program computes lies far inside it.
\<close>

named_theorems f64_simps \<open>evaluation of comparisons and arithmetic on finite values\<close>

datatype f64 = NaN | Infinite bool | Fin rat

section \<open>Rounding\<close>

definition pow2 :: "int \<Rightarrow> rat" where
  "pow2 k = (if 0 \<le> k then 2 ^ nat k else 1 / 2 ^ nat (- k))"

text \<open>Nearest integer, ties to even.\<close>

definition rne :: "rat \<Rightarrow> int" where
  "rne x = (let f = \<lfloor>x\<rfloor>; d = x - of_int f
            in if d < 1 / 2 then f else if d > 1 / 2 then f + 1 else if even f then f else f + 1)"

text \<open>The exponent \<open>e\<close> with \<open>2 ^ e \<le> \<bar>x\<bar> < 2 ^ (e + 1)\<close>, from the lengths of numerator and denominator.\<close>

definition f64_exponent :: "rat \<Rightarrow> int" where
  "f64_exponent x =
     (let (n, d) = quotient_of x; k = int (floorlog 2 (nat \<bar>n\<bar>)) - int (floorlog 2 (nat d))
      in if pow2 k \<le> \<bar>x\<bar> then k else k - 1)"

definition fl :: "rat \<Rightarrow> rat" where
  "fl x = (if x = 0 then 0 else let u = pow2 (f64_exponent x - 52) in of_int (rne (x / u)) * u)"

section \<open>Operations\<close>

definition f64_of_nat :: "nat \<Rightarrow> f64" where "f64_of_nat n = Fin (fl (of_nat n))"

text \<open>A decimal literal is the nearest double.\<close>

definition f64_lit :: "rat \<Rightarrow> f64" where "f64_lit x = Fin (fl x)"

fun f64_mul :: "f64 \<Rightarrow> f64 \<Rightarrow> f64" where
  "f64_mul (Fin x) (Fin y) = Fin (fl (x * y))"
| "f64_mul NaN b = NaN"
| "f64_mul a NaN = NaN"
| "f64_mul (Infinite s) (Infinite t) = Infinite (s = t)"
| "f64_mul (Infinite s) (Fin y) = (if y = 0 then NaN else Infinite (s = (0 < y)))"
| "f64_mul (Fin x) (Infinite t) = (if x = 0 then NaN else Infinite (t = (0 < x)))"

fun f64_add :: "f64 \<Rightarrow> f64 \<Rightarrow> f64" where
  "f64_add (Fin x) (Fin y) = Fin (fl (x + y))"
| "f64_add NaN b = NaN"
| "f64_add a NaN = NaN"
| "f64_add (Infinite s) (Infinite t) = (if s = t then Infinite s else NaN)"
| "f64_add (Infinite s) (Fin y) = Infinite s"
| "f64_add (Fin x) (Infinite t) = Infinite t"

text \<open>Division by zero gives NaN or the infinity of the dividend's sign (the zeros being one value).\<close>

fun f64_div :: "f64 \<Rightarrow> f64 \<Rightarrow> f64" where
  "f64_div (Fin x) (Fin y) =
     (if y = 0 then (if x = 0 then NaN else Infinite (0 < x)) else Fin (fl (x / y)))"
| "f64_div NaN b = NaN"
| "f64_div a NaN = NaN"
| "f64_div (Infinite s) (Infinite t) = NaN"
| "f64_div (Infinite s) (Fin y) = Infinite (s = (0 \<le> y))"
| "f64_div (Fin x) (Infinite t) = Fin 0"

fun f64_neg :: "f64 \<Rightarrow> f64" where
  "f64_neg NaN = NaN"
| "f64_neg (Infinite s) = Infinite (\<not> s)"
| "f64_neg (Fin x) = Fin (- x)"

definition f64_sub :: "f64 \<Rightarrow> f64 \<Rightarrow> f64" where "f64_sub a b = f64_add a (f64_neg b)"

fun f64_abs :: "f64 \<Rightarrow> f64" where
  "f64_abs NaN = NaN"
| "f64_abs (Infinite s) = Infinite True"
| "f64_abs (Fin x) = Fin \<bar>x\<bar>"

text \<open>Comparisons: every comparison with NaN is false. \<open>Infinite True\<close> is the positive infinity.\<close>

fun f64_lt :: "f64 \<Rightarrow> f64 \<Rightarrow> bool" where
  "f64_lt (Fin x) (Fin y) = (x < y)"
| "f64_lt NaN b = False"
| "f64_lt a NaN = False"
| "f64_lt (Infinite s) (Infinite t) = (\<not> s \<and> t)"
| "f64_lt (Infinite s) (Fin y) = (\<not> s)"
| "f64_lt (Fin x) (Infinite t) = t"

fun f64_is_nan :: "f64 \<Rightarrow> bool" where
  "f64_is_nan NaN = True"
| "f64_is_nan (Infinite s) = False"
| "f64_is_nan (Fin x) = False"

definition f64_le :: "f64 \<Rightarrow> f64 \<Rightarrow> bool" where
  "f64_le a b \<longleftrightarrow> f64_lt a b \<or> (a = b \<and> \<not> f64_is_nan a)"

fun f64_is_finite :: "f64 \<Rightarrow> bool" where
  "f64_is_finite (Fin x) = True"
| "f64_is_finite NaN = False"
| "f64_is_finite (Infinite s) = False"

text \<open>\<open>clamp(lo, hi)\<close> keeps NaN; \<open>max\<close> ignores a NaN argument.\<close>

definition f64_clamp :: "f64 \<Rightarrow> f64 \<Rightarrow> f64 \<Rightarrow> f64" where
  "f64_clamp lo hi x = (let y = (if f64_lt x lo then lo else x) in if f64_lt hi y then hi else y)"

definition f64_max :: "f64 \<Rightarrow> f64 \<Rightarrow> f64" where
  "f64_max a b = (if f64_is_nan a then b else if f64_is_nan b then a else if f64_lt a b then b else a)"

text \<open>\<open>x as u32\<close> and \<open>x as u64\<close> truncate and saturate; NaN is 0.\<close>

fun f64_to_nat :: "nat \<Rightarrow> f64 \<Rightarrow> nat" where
  "f64_to_nat m NaN = 0"
| "f64_to_nat m (Infinite s) = (if s then m else 0)"
| "f64_to_nat m (Fin x) = min m (nat \<lfloor>x\<rfloor>)"

section \<open>Facts\<close>

lemma pow2_pos: "0 < pow2 k"
  by (simp add: pow2_def)

lemma pow2_diff: "pow2 (int a - int b) = 2 ^ a / 2 ^ b"
proof (cases "b \<le> a")
  case True
  then show ?thesis by (simp add: pow2_def nat_diff_distrib power_diff)
next
  case False
  then have "nat (int b - int a) = b - a" "(2 :: rat) ^ b = 2 ^ a * 2 ^ (b - a)"
    by (auto simp: power_add [symmetric])
  with False show ?thesis by (simp add: pow2_def)
qed

lemma pow2_Suc: "pow2 (k + 1) = 2 * pow2 k"
proof -
  obtain a b where k: "k = int a - int b" by (metis int_diff_cases)
  then have "k + 1 = int (Suc a) - int b" by simp
  then show ?thesis unfolding k by (simp only: pow2_diff power_Suc times_divide_eq_right)
qed

lemma floorlog_bounds:
  assumes "0 < n"
  shows "2 ^ (floorlog 2 n - 1) \<le> n" "n < 2 ^ floorlog 2 n" "1 \<le> floorlog 2 n"
  using floorlog_bounds [of n 2] assms by (auto simp: floorlog_def)

text \<open>The exponent is the one of the binade of \<open>x\<close>.\<close>

lemma f64_exponent_bounds:
  assumes "x \<noteq> 0"
  shows "pow2 (f64_exponent x) \<le> \<bar>x\<bar>" "\<bar>x\<bar> < 2 * pow2 (f64_exponent x)"
proof -
  obtain n d where q: "quotient_of x = (n, d)" by force
  have d: "0 < d" and x: "x = of_int n / of_int d"
    using quotient_of_denom_pos [OF q] quotient_of_div [OF q] by auto
  have n: "n \<noteq> 0" using assms x by auto
  define N D where "N = nat \<bar>n\<bar>" and "D = nat d"
  have ND: "0 < N" "0 < D" and xa: "\<bar>x\<bar> = of_nat N / of_nat D"
    using n d by (simp_all add: N_def D_def x abs_divide)
  define a b where "a = floorlog 2 N" and "b = floorlog 2 D"
  note fa = floorlog_bounds [OF ND(1), folded a_def] and fb = floorlog_bounds [OF ND(2), folded b_def]
  have e: "f64_exponent x = (if pow2 (int a - int b) \<le> \<bar>x\<bar> then int a - int b else int a - int b - 1)"
    by (simp add: f64_exponent_def q N_def D_def a_def b_def)
  have na: "(2 :: rat) ^ a \<le> 2 * of_nat N" "(of_nat N :: rat) < 2 ^ a"
  proof -
    have "2 * 2 ^ (a - 1) \<le> 2 * N" using fa(1) by simp
    also have "(2 :: nat) * 2 ^ (a - 1) = 2 ^ a" using fa(3) by (cases a) simp_all
    finally show "(2 :: rat) ^ a \<le> 2 * of_nat N" by (metis of_nat_le_iff of_nat_mult of_nat_numeral of_nat_power)
    show "(of_nat N :: rat) < 2 ^ a" using fa(2) by (metis of_nat_less_iff of_nat_numeral of_nat_power)
  qed
  have nb: "(2 :: rat) ^ b \<le> 2 * of_nat D" "(of_nat D :: rat) < 2 ^ b"
  proof -
    have "2 * 2 ^ (b - 1) \<le> 2 * D" using fb(1) by simp
    also have "(2 :: nat) * 2 ^ (b - 1) = 2 ^ b" using fb(3) by (cases b) simp_all
    finally show "(2 :: rat) ^ b \<le> 2 * of_nat D" by (metis of_nat_le_iff of_nat_mult of_nat_numeral of_nat_power)
    show "(of_nat D :: rat) < 2 ^ b" using fb(2) by (metis of_nat_less_iff of_nat_numeral of_nat_power)
  qed
  have D: "(0 :: rat) < of_nat D" using ND by simp
  have up: "\<bar>x\<bar> < 2 * pow2 (int a - int b)"
  proof -
    have "of_nat N * 2 ^ b < 2 ^ a * (2 ^ b :: rat)" using na(2) by simp
    also have "\<dots> \<le> 2 ^ a * (2 * of_nat D)" using nb(1) by (intro mult_left_mono) simp_all
    finally show ?thesis unfolding xa pow2_diff using D by (simp add: field_simps)
  qed
  have low: "pow2 (int a - int b) \<le> 2 * \<bar>x\<bar>"
  proof -
    have "2 ^ a * of_nat D \<le> 2 * of_nat N * (of_nat D :: rat)" using na(1) D by (intro mult_right_mono) simp_all
    also have "\<dots> \<le> 2 * of_nat N * 2 ^ b" using nb(2) by (intro mult_left_mono) simp_all
    finally show ?thesis unfolding xa pow2_diff using D by (simp add: field_simps)
  qed
  have half: "2 * pow2 (int a - int b - 1) = pow2 (int a - int b)" using pow2_Suc [of "int a - int b - 1"] by simp
  show "pow2 (f64_exponent x) \<le> \<bar>x\<bar>" using low half by (simp add: e)
  show "\<bar>x\<bar> < 2 * pow2 (f64_exponent x)" using up half by (simp add: e)
qed

lemma rne_error: "\<bar>of_int (rne x) - x\<bar> \<le> 1 / 2"
proof -
  define r where "r = (of_int \<lfloor>x\<rfloor> :: rat)"
  have r: "r \<le> x" "x < r + 1" unfolding r_def by linarith+
  have "of_int (rne x) = r \<and> x - r \<le> 1 / 2 \<or> of_int (rne x) = r + 1 \<and> 1 / 2 \<le> x - r"
    unfolding rne_def Let_def r_def by (simp add: not_less)
  with r show ?thesis unfolding abs_le_iff by linarith
qed

lemma rne_of_int [simp]: "rne (of_int k) = k"
  by (simp add: rne_def)

text \<open>Rounding has relative error at most \<open>2 ^ -53\<close>.\<close>

lemma fl_error: "\<bar>fl x - x\<bar> \<le> \<bar>x\<bar> / 2 ^ 53"
proof (cases "x = 0")
  case False
  let ?e = "f64_exponent x"
  define u where "u = pow2 (?e - 52)"
  have u: "0 < u" by (simp add: u_def pow2_pos)
  obtain i j where ij: "?e = int i - int j" by (metis int_diff_cases)
  have "?e - 52 = int i - int (j + 52)" by (simp add: ij)
  then have "u = 2 ^ i / 2 ^ (j + 52)" unfolding u_def by (simp only: pow2_diff)
  also have "\<dots> = pow2 ?e / 2 ^ 52" unfolding ij pow2_diff by (simp add: power_add)
  finally have uu: "u = pow2 ?e / 2 ^ 52" .
  have "fl x = of_int (rne (x / u)) * u" using False by (simp add: fl_def u_def Let_def)
  then have "fl x - x = (of_int (rne (x / u)) - x / u) * u" using u by (simp add: algebra_simps)
  then have "\<bar>fl x - x\<bar> = \<bar>of_int (rne (x / u)) - x / u\<bar> * u" using u by (simp add: abs_mult)
  also have "\<dots> \<le> 1 / 2 * u" using rne_error u by (intro mult_right_mono) simp_all
  also have "\<dots> = pow2 ?e / 2 ^ 53" by (simp add: uu)
  also have "\<dots> \<le> \<bar>x\<bar> / 2 ^ 53" using f64_exponent_bounds(1) [OF False] by (simp add: divide_right_mono)
  finally show ?thesis .
qed (simp add: fl_def)

lemma fl_0 [simp]: "fl 0 = 0"
  by (simp add: fl_def)

lemma fl_bounds:
  assumes "0 \<le> x"
  shows "x * (1 - 1 / 2 ^ 53) \<le> fl x" "fl x \<le> x * (1 + 1 / 2 ^ 53)"
proof -
  have "- (x / 2 ^ 53) \<le> fl x - x" "fl x - x \<le> x / 2 ^ 53"
    using fl_error [of x] assms unfolding abs_le_iff by simp_all
  then show "x * (1 - 1 / 2 ^ 53) \<le> fl x" "fl x \<le> x * (1 + 1 / 2 ^ 53)" by (simp_all add: algebra_simps)
qed

lemma fl_nonneg: "0 \<le> x \<Longrightarrow> 0 \<le> fl x"
  using fl_bounds(1) [of x] by (rule order_trans [rotated]) (simp_all add: mult_nonneg_nonneg)

text \<open>Integers below \<open>2 ^ 53\<close> are represented exactly.\<close>

lemma fl_of_nat: "n < 2 ^ 53 \<Longrightarrow> fl (of_nat n) = of_nat n"
proof (cases "n = 0")
  case False
  assume n: "n < 2 ^ 53"
  let ?x = "of_nat n :: rat"
  let ?e = "f64_exponent ?x"
  have x: "?x \<noteq> 0" using False by simp
  note ex = f64_exponent_bounds [OF x]
  have "?e < 53"
  proof (rule ccontr)
    assume "\<not> ?e < 53"
    then have "pow2 ?e = 2 ^ nat ?e" "53 \<le> nat ?e" by (simp_all add: pow2_def)
    then have "2 ^ 53 \<le> pow2 ?e" by (metis power_increasing one_le_numeral)
    moreover have "?x < 2 ^ 53" using n by (metis of_nat_less_iff of_nat_numeral of_nat_power)
    ultimately show False using ex(1) by simp
  qed
  moreover define m where "m = nat (52 - ?e)"
  ultimately have u: "pow2 (?e - 52) = 1 / 2 ^ m" by (cases "?e = 52") (simp_all add: pow2_def)
  have "?x / pow2 (?e - 52) = of_int (int (n * 2 ^ m))" by (simp add: u)
  then have "rne (?x / pow2 (?e - 52)) = int (n * 2 ^ m)" by (simp only: rne_of_int)
  then have "fl ?x = of_int (int (n * 2 ^ m)) * pow2 (?e - 52)" using x by (simp add: fl_def Let_def)
  then show ?thesis by (simp add: u)
qed simp

lemma f64_of_nat_exact: "n < 2 ^ 53 \<Longrightarrow> f64_of_nat n = Fin (of_nat n)"
  by (simp add: f64_of_nat_def fl_of_nat)

lemma f64_clamp_bounds:
  assumes "lo \<le> hi"
  shows "f64_clamp (Fin lo) (Fin hi) (Fin x) = Fin (if x < lo then lo else if hi < x then hi else x)"
  using assms by (auto simp: f64_clamp_def Let_def)

lemma f64_max_Fin: "f64_max (Fin x) (Fin y) = Fin (max x y)"
  by (simp add: f64_max_def max_def)

lemma rne_ge: "of_int k - 1 / 2 < x \<Longrightarrow> k \<le> rne x"
proof -
  assume "of_int k - 1 / 2 < x"
  moreover have "x - 1 / 2 \<le> of_int (rne x)" using rne_error [of x] by linarith
  ultimately have "(of_int k :: rat) < of_int (rne x + 1)" by simp
  then show ?thesis using of_int_less_iff by fastforce
qed

lemma rne_le: "x < of_int k + 1 / 2 \<Longrightarrow> rne x \<le> k"
proof -
  assume "x < of_int k + 1 / 2"
  moreover have "of_int (rne x) \<le> x + 1 / 2" using rne_error [of x] by linarith
  ultimately have "(of_int (rne x) :: rat) < of_int (k + 1)" by simp
  then show ?thesis using of_int_less_iff by fastforce
qed

lemma f64_lit_numeral: "numeral n < (2 ^ 53 :: nat) \<Longrightarrow> f64_lit (numeral n) = Fin (numeral n)"
  using fl_of_nat [of "numeral n"] by (simp add: f64_lit_def)

end
