(* ===== verification/Rate_Control.thy ===== *)
theory Rate_Control
  imports F64
begin

text \<open>
  Bitrate adaptation within the committed source format: \<open>crates/picoo-rate-control/src/lib.rs\<close>, with
  the statistics record of \<open>crates/picoo-metrics/src/lib.rs\<close>.
\<close>

section \<open>Statistics and ladders\<close>

record receiver_stats =
  st_rtt_ms :: f64
  st_packet_loss :: f64
  st_jitter_ms :: f64
  st_reassembly_drop :: nat
  st_decoder_drop :: nat
  st_frame_age_ms :: f64
  st_receive_bitrate :: nat
  st_jitter_buffer_target_ms :: f64
  st_jitter_buffer_actual_delay_ms :: f64
  st_jitter_buffer_occupancy_ms :: f64
  st_capture_to_encode_ms :: "f64 option"
  st_encode_to_arrival_ms :: "f64 option"
  st_jitter_residence_ms :: "f64 option"
  st_decode_ms :: "f64 option"
  st_frame_publish_age_ms :: "f64 option"
  st_end_to_end_latency_ms :: "f64 option"
  st_clock_uncertainty_ms :: "f64 option"
  st_receive_queue_age_ms :: f64
  st_sender_queue_age_ms :: f64
  st_sender_queue_dropped_access_units :: nat
  st_sender_quic_lost_packets :: nat
  st_sender_quic_sent_packets :: nat
  st_sender_video_buffered_bytes :: nat

definition receiver_stats_default :: receiver_stats where
  "receiver_stats_default = \<lparr> st_rtt_ms = Fin 0, st_packet_loss = Fin 0, st_jitter_ms = Fin 0,
     st_reassembly_drop = 0, st_decoder_drop = 0, st_frame_age_ms = Fin 0, st_receive_bitrate = 0,
     st_jitter_buffer_target_ms = Fin 0, st_jitter_buffer_actual_delay_ms = Fin 0,
     st_jitter_buffer_occupancy_ms = Fin 0, st_capture_to_encode_ms = None, st_encode_to_arrival_ms = None,
     st_jitter_residence_ms = None, st_decode_ms = None, st_frame_publish_age_ms = None,
     st_end_to_end_latency_ms = None, st_clock_uncertainty_ms = None, st_receive_queue_age_ms = Fin 0,
     st_sender_queue_age_ms = Fin 0, st_sender_queue_dropped_access_units = 0,
     st_sender_quic_lost_packets = 0, st_sender_quic_sent_packets = 0, st_sender_video_buffered_bytes = 0 \<rparr>"

definition LADDER_720_MIN_BPS :: nat where "LADDER_720_MIN_BPS = 1500000"
definition LADDER_720_MAX_BPS :: nat where "LADDER_720_MAX_BPS = 5000000"
definition LADDER_720_INITIAL_BPS :: nat where "LADDER_720_INITIAL_BPS = 3000000"
definition LADDER_1080_MIN_BPS :: nat where "LADDER_1080_MIN_BPS = 3000000"
definition LADDER_1080_MAX_BPS :: nat where "LADDER_1080_MAX_BPS = 10000000"
definition LADDER_1080_INITIAL_BPS :: nat where "LADDER_1080_INITIAL_BPS = 6000000"

lemmas ladder_constants = LADDER_720_MIN_BPS_def LADDER_720_MAX_BPS_def LADDER_720_INITIAL_BPS_def
  LADDER_1080_MIN_BPS_def LADDER_1080_MAX_BPS_def LADDER_1080_INITIAL_BPS_def

definition is_supported_height :: "nat \<Rightarrow> bool" where
  "is_supported_height height \<longleftrightarrow> height = 720 \<or> height = 1080"

record bitrate_ladder =
  bl_min_bps :: nat
  bl_max_bps :: nat
  bl_initial_bps :: nat

definition ladder_for_height :: "nat \<Rightarrow> bitrate_ladder option" where
  "ladder_for_height height =
     (if height = 1080
      then Some \<lparr> bl_min_bps = LADDER_1080_MIN_BPS, bl_max_bps = LADDER_1080_MAX_BPS,
                  bl_initial_bps = LADDER_1080_INITIAL_BPS \<rparr>
      else if height = 720
      then Some \<lparr> bl_min_bps = LADDER_720_MIN_BPS, bl_max_bps = LADDER_720_MAX_BPS,
                  bl_initial_bps = LADDER_720_INITIAL_BPS \<rparr>
      else None)"

section \<open>Controller\<close>

record bitrate_controller =
  bc_current_bitrate_bps :: nat
  bc_min_bps :: nat
  bc_max_bps :: nat
  bc_stable_seconds :: nat
  bc_stale_frame_ticks :: nat
  bc_last_sender_queue_drops :: nat
  bc_last_sender_quic_lost_packets :: nat
  bc_last_sender_quic_sent_packets :: nat
  bc_thermal_hold :: bool
  bc_active_height :: nat
  bc_preferred_height :: nat

datatype bitrate_action = Hold | Increase | Decrease

definition bitrate_controller_new :: "nat \<Rightarrow> nat \<Rightarrow> nat \<Rightarrow> bitrate_controller" where
  "bitrate_controller_new initial_bps min_bps max_bps =
     \<lparr> bc_current_bitrate_bps = initial_bps, bc_min_bps = min_bps, bc_max_bps = max_bps,
       bc_stable_seconds = 0, bc_stale_frame_ticks = 0, bc_last_sender_queue_drops = 0,
       bc_last_sender_quic_lost_packets = 0, bc_last_sender_quic_sent_packets = 0,
       bc_thermal_hold = False, bc_active_height = 1080, bc_preferred_height = 1080 \<rparr>"

definition controller_for_height :: "nat \<Rightarrow> bitrate_controller option" where
  "controller_for_height height =
     (case ladder_for_height height of
        None \<Rightarrow> None
      | Some ladder \<Rightarrow>
          Some (bitrate_controller_new (bl_initial_bps ladder) (bl_min_bps ladder) (bl_max_bps ladder)
                  \<lparr> bc_active_height := height, bc_preferred_height := height \<rparr>))"

text \<open>\<open>Ord::clamp\<close> asserts \<open>min <= max\<close>.\<close>

definition u32_clamp :: "nat \<Rightarrow> nat \<Rightarrow> nat \<Rightarrow> (nat, unit) result" where
  "u32_clamp lo hi x = (if hi < lo then Panic else Ok (clamp_nat lo hi x))"

definition apply_ladder :: "bitrate_ladder \<Rightarrow> bool \<Rightarrow> bitrate_controller \<Rightarrow> (bitrate_controller, unit) result" where
  "apply_ladder ladder reset_current c =
     (let c1 = c \<lparr> bc_min_bps := bl_min_bps ladder, bc_max_bps := bl_max_bps ladder \<rparr>
      in if reset_current then Ok (c1 \<lparr> bc_current_bitrate_bps := bl_initial_bps ladder \<rparr>)
         else rbind (u32_clamp (bl_min_bps ladder) (bl_max_bps ladder) (bc_current_bitrate_bps c1))
                (\<lambda>b. Ok (c1 \<lparr> bc_current_bitrate_bps := b \<rparr>)))"

definition set_preferred_height :: "nat \<Rightarrow> bitrate_controller \<Rightarrow> (bitrate_controller \<times> bool, unit) result" where
  "set_preferred_height height c =
     (case ladder_for_height height of
        None \<Rightarrow> Ok (c, False)
      | Some ladder \<Rightarrow>
          let c1 = c \<lparr> bc_preferred_height := height \<rparr>
          in if bc_active_height c1 = height
             then rbind (apply_ladder ladder False c1) (\<lambda>c2. Ok (c2, True))
             else Ok (c1, True))"

definition set_thermal_hold :: "bool \<Rightarrow> bitrate_controller \<Rightarrow> bitrate_controller" where
  "set_thermal_hold hold c =
     (if bc_thermal_hold c \<noteq> hold then c \<lparr> bc_thermal_hold := hold, bc_stable_seconds := 0 \<rparr> else c)"

definition sync_encode_height :: "nat \<Rightarrow> bitrate_controller \<Rightarrow> (bitrate_controller \<times> bool, unit) result" where
  "sync_encode_height height c =
     (case ladder_for_height height of
        None \<Rightarrow> Ok (c, False)
      | Some ladder \<Rightarrow>
          if height \<noteq> bc_active_height c
          then rbind (apply_ladder ladder True (c \<lparr> bc_active_height := height \<rparr>))
                 (\<lambda>c1. Ok (c1 \<lparr> bc_stable_seconds := 0, bc_stale_frame_ticks := 0 \<rparr>, True))
          else Ok (c, True))"

text \<open>
  \<open>observe_window\<close> is the head of \<open>update\<close>: the counters it advances and the loss ratio of the
  sender's QUIC endpoint in this window.
\<close>

definition quic_loss :: "receiver_stats \<Rightarrow> bitrate_controller \<Rightarrow> f64" where
  "quic_loss stats c =
     (let lost = st_sender_quic_lost_packets stats - bc_last_sender_quic_lost_packets c;
          sent = st_sender_quic_sent_packets stats - bc_last_sender_quic_sent_packets c
      in if sent = 0 then Fin 0 else f64_div (f64_of_nat lost) (f64_of_nat sent))"

definition observe_window :: "receiver_stats \<Rightarrow> bitrate_controller \<Rightarrow> bitrate_controller" where
  "observe_window stats c =
     c \<lparr> bc_stale_frame_ticks := (if f64_lt (f64_lit 200) (st_frame_age_ms stats)
                                  then sat_add32 (bc_stale_frame_ticks c) 1 else 0),
         bc_last_sender_queue_drops := st_sender_queue_dropped_access_units stats,
         bc_last_sender_quic_lost_packets := st_sender_quic_lost_packets stats,
         bc_last_sender_quic_sent_packets := st_sender_quic_sent_packets stats \<rparr>"

definition congested :: "receiver_stats \<Rightarrow> bitrate_controller \<Rightarrow> bool" where
  "congested stats c \<longleftrightarrow>
     f64_lt (f64_lit (3 / 100)) (st_packet_loss stats) \<or>
     st_reassembly_drop stats > 0 \<or>
     st_decoder_drop stats > 0 \<or>
     f64_lt (f64_lit 50) (st_sender_queue_age_ms stats) \<or>
     st_sender_queue_dropped_access_units stats > bc_last_sender_queue_drops c \<or>
     st_sender_video_buffered_bytes stats > 96 * 1024 \<or>
     f64_lt (f64_lit (2 / 100)) (quic_loss stats c) \<or>
     bc_stale_frame_ticks (observe_window stats c) \<ge> 3"

definition clean :: "receiver_stats \<Rightarrow> bitrate_controller \<Rightarrow> bool" where
  "clean stats c \<longleftrightarrow>
     f64_lt (st_packet_loss stats) (f64_lit (1 / 100)) \<and>
     st_reassembly_drop stats = 0 \<and>
     st_decoder_drop stats = 0 \<and>
     f64_le (st_sender_queue_age_ms stats) (f64_lit 50) \<and>
     st_sender_video_buffered_bytes stats \<le> 32 * 1024 \<and>
     f64_lt (quic_loss stats c) (f64_lit (5 / 1000)) \<and>
     f64_lt (st_frame_age_ms stats) (f64_lit 200)"

definition scaled :: "nat \<Rightarrow> rat \<Rightarrow> nat" where
  "scaled bps factor = f64_to_nat u32_max (f64_mul (f64_of_nat bps) (f64_lit factor))"

definition update :: "receiver_stats \<Rightarrow> bitrate_controller \<Rightarrow> (bitrate_controller \<times> bitrate_action, unit) result" where
  "update stats c =
     (let c1 = observe_window stats c
      in if congested stats c
         then
           (let c2 = c1 \<lparr> bc_stable_seconds := 0 \<rparr>
            in if bc_current_bitrate_bps c2 \<le> bc_min_bps c2 then Ok (c2, Hold)
               else rbind (u32_clamp (bc_min_bps c2) (bc_max_bps c2) (scaled (bc_current_bitrate_bps c2) (8 / 10)))
                      (\<lambda>b. Ok (c2 \<lparr> bc_current_bitrate_bps := b \<rparr>, Decrease)))
         else if clean stats c
         then
           (if bc_thermal_hold c1 then Ok (c1 \<lparr> bc_stable_seconds := 0 \<rparr>, Hold)
            else
              let c2 = c1 \<lparr> bc_stable_seconds := sat_add32 (bc_stable_seconds c1) 1 \<rparr>
              in if bc_stable_seconds c2 \<ge> 5
                 then rbind (u32_clamp (bc_min_bps c2) (bc_max_bps c2) (scaled (bc_current_bitrate_bps c2) (11 / 10)))
                        (\<lambda>b. Ok (c2 \<lparr> bc_current_bitrate_bps := b, bc_stable_seconds := 0 \<rparr>, Increase))
                 else Ok (c2, Hold))
         else Ok (c1 \<lparr> bc_stable_seconds := 0 \<rparr>, Hold))"

section \<open>Lemmas\<close>

definition controller_ok :: "bitrate_controller \<Rightarrow> bool" where
  "controller_ok c \<longleftrightarrow> bc_min_bps c \<le> bc_current_bitrate_bps c \<and>
     bc_current_bitrate_bps c \<le> bc_max_bps c \<and> bc_max_bps c \<le> u32_max"

lemma scaled_eq:
  assumes "b \<le> u32_max"
  shows "scaled b k = min u32_max (nat \<lfloor>fl (of_nat b * fl k)\<rfloor>)"
  using assms by (simp add: scaled_def f64_of_nat_exact f64_lit_def u32_max_eval)

lemma scaled_less:
  assumes "0 < b" "b \<le> u32_max"
  shows "scaled b (8 / 10) < b"
proof -
  let ?x = "of_nat b * fl (8 / 10)"
  have "?x \<le> of_nat b * (8 / 10 * (1 + 1 / 2 ^ 53))"
    using fl_bounds(2) [of "8 / 10"] by (intro mult_left_mono) simp_all
  moreover have "0 \<le> ?x" using fl_nonneg [of "8 / 10"] by simp
  ultimately have "fl ?x \<le> of_nat b * (8 / 10 * (1 + 1 / 2 ^ 53)) * (1 + 1 / 2 ^ 53)"
    using fl_bounds(2) [of ?x] by (meson mult_right_mono order_trans zero_le_numeral zero_le_power
        add_nonneg_nonneg divide_nonneg_nonneg zero_le_one)
  also have "\<dots> < of_nat b" using assms(1) by simp
  finally have "fl ?x < of_nat b" .
  then have "\<lfloor>fl ?x\<rfloor> < int b" by (simp add: floor_less_iff)
  then have "nat \<lfloor>fl ?x\<rfloor> < b" using assms(1) by linarith
  then show ?thesis unfolding scaled_eq [OF assms(2)] by (simp add: min_less_iff_disj)
qed

lemma scaled_ge:
  assumes "b \<le> u32_max"
  shows "b \<le> scaled b (11 / 10)"
proof -
  let ?x = "of_nat b * fl (11 / 10)"
  have "of_nat b * (11 / 10 * (1 - 1 / 2 ^ 53)) \<le> ?x"
    using fl_bounds(1) [of "11 / 10"] by (intro mult_left_mono) simp_all
  then have "of_nat b * (11 / 10 * (1 - 1 / 2 ^ 53)) * (1 - 1 / 2 ^ 53) \<le> ?x * (1 - 1 / 2 ^ 53)"
    by (intro mult_right_mono) simp_all
  also have "\<dots> \<le> fl ?x" using fl_bounds(1) [of ?x] fl_nonneg [of "11 / 10"] by simp
  finally have "of_nat b \<le> fl ?x" by (rule order_trans [rotated]) simp
  then have "int b \<le> \<lfloor>fl ?x\<rfloor>" by (simp add: le_floor_iff)
  then have "b \<le> nat \<lfloor>fl ?x\<rfloor>" by linarith
  then show ?thesis unfolding scaled_eq [OF assms] using assms by simp
qed

lemma observe_window_fields [simp]:
  "bc_current_bitrate_bps (observe_window stats c) = bc_current_bitrate_bps c"
  "bc_min_bps (observe_window stats c) = bc_min_bps c"
  "bc_max_bps (observe_window stats c) = bc_max_bps c"
  "bc_stable_seconds (observe_window stats c) = bc_stable_seconds c"
  "bc_thermal_hold (observe_window stats c) = bc_thermal_hold c"
  "bc_active_height (observe_window stats c) = bc_active_height c"
  by (simp_all add: observe_window_def)

text \<open>What one update does, as a case distinction over its action.\<close>

definition update_spec :: "receiver_stats \<Rightarrow> bitrate_controller \<Rightarrow> bitrate_controller \<Rightarrow> bitrate_action \<Rightarrow> bool" where
  "update_spec stats c c' action \<longleftrightarrow>
     bc_min_bps c' = bc_min_bps c \<and> bc_max_bps c' = bc_max_bps c \<and>
     (case action of
        Hold \<Rightarrow> bc_current_bitrate_bps c' = bc_current_bitrate_bps c \<and>
          bc_stable_seconds c' = (if \<not> congested stats c \<and> clean stats c \<and> \<not> bc_thermal_hold c
                                  then sat_add32 (bc_stable_seconds c) 1 else 0)
      | Decrease \<Rightarrow> congested stats c \<and> bc_current_bitrate_bps c' < bc_current_bitrate_bps c \<and>
          bc_stable_seconds c' = 0
      | Increase \<Rightarrow> \<not> congested stats c \<and> clean stats c \<and> \<not> bc_thermal_hold c \<and> bc_stable_seconds c \<ge> 4 \<and>
          bc_current_bitrate_bps c \<le> bc_current_bitrate_bps c' \<and> bc_stable_seconds c' = 0)"

lemma update_Ok:
  assumes "controller_ok c"
  obtains c' action where "update stats c = Ok (c', action)" "controller_ok c'" "update_spec stats c c' action"
proof -
  let ?b = "bc_current_bitrate_bps c" and ?lo = "bc_min_bps c" and ?hi = "bc_max_bps c"
  have ok: "?lo \<le> ?b" "?b \<le> ?hi" "?hi \<le> u32_max" using assms by (auto simp: controller_ok_def)
  have clamp: "u32_clamp ?lo ?hi x = Ok (clamp_nat ?lo ?hi x)" "?lo \<le> clamp_nat ?lo ?hi x" "clamp_nat ?lo ?hi x \<le> ?hi" for x
    using ok clamp_nat_bounds [of ?lo ?hi x] by (simp_all add: u32_clamp_def)
  have dec: "clamp_nat ?lo ?hi (scaled ?b (8 / 10)) < ?b" if "?lo < ?b"
    using scaled_less [of ?b] that ok by (simp add: clamp_nat_def)
  have inc: "?b \<le> clamp_nat ?lo ?hi (scaled ?b (11 / 10))"
    using scaled_ge [of ?b] ok by (simp add: clamp_nat_def)
  have "\<exists>c' action. update stats c = Ok (c', action) \<and> controller_ok c' \<and> update_spec stats c c' action"
  proof (cases "congested stats c")
    case True
    then show ?thesis
      using ok clamp dec by (auto simp: update_def Let_def controller_ok_def update_spec_def)
  next
    case False
    then show ?thesis
      using ok clamp inc by (auto simp: update_def Let_def controller_ok_def update_spec_def sat_add_def)
  qed
  then show thesis using that by blast
qed

section \<open>Reachable controllers\<close>

inductive rate_reachable :: "bitrate_controller \<Rightarrow> bool" where
  start: "controller_for_height height = Some c \<Longrightarrow> rate_reachable c"
| window: "rate_reachable c \<Longrightarrow> update stats c = Ok (c', action) \<Longrightarrow> rate_reachable c'"
| thermal: "rate_reachable c \<Longrightarrow> rate_reachable (set_thermal_hold hold c)"
| preferred: "rate_reachable c \<Longrightarrow> set_preferred_height height c = Ok (c', b) \<Longrightarrow> rate_reachable c'"
| sync: "rate_reachable c \<Longrightarrow> sync_encode_height height c = Ok (c', b) \<Longrightarrow> rate_reachable c'"

definition on_ladder :: "bitrate_controller \<Rightarrow> bool" where
  "on_ladder c \<longleftrightarrow> (\<exists>ladder. ladder_for_height (bc_active_height c) = Some ladder \<and>
     bc_min_bps c = bl_min_bps ladder \<and> bc_max_bps c = bl_max_bps ladder)"

lemma ladder_ok:
  "ladder_for_height h = Some ladder \<Longrightarrow> bl_min_bps ladder \<le> bl_initial_bps ladder \<and>
     bl_initial_bps ladder \<le> bl_max_bps ladder \<and> bl_max_bps ladder \<le> u32_max"
  by (auto simp: ladder_for_height_def ladder_constants u32_max_eval split: if_splits)

lemma update_height: "update stats c = Ok (c', a) \<Longrightarrow> bc_active_height c' = bc_active_height c"
  by (auto simp: update_def Let_def result_iff split: if_splits)

lemma apply_ladder_Ok:
  assumes "ladder_for_height h = Some ladder"
  shows "\<exists>c'. apply_ladder ladder reset c = Ok c' \<and> controller_ok c' \<and> bc_min_bps c' = bl_min_bps ladder \<and>
     bc_max_bps c' = bl_max_bps ladder \<and> bc_active_height c' = bc_active_height c"
  using ladder_ok [OF assms] clamp_nat_bounds [of "bl_min_bps ladder" "bl_max_bps ladder"]
  by (auto simp: apply_ladder_def Let_def u32_clamp_def controller_ok_def)

lemma set_preferred_Ok:
  assumes "controller_ok c" "on_ladder c"
  shows "\<exists>c' b. set_preferred_height h c = Ok (c', b) \<and> controller_ok c' \<and> on_ladder c'"
proof (cases "ladder_for_height h")
  case (Some ladder)
  obtain c' where "apply_ladder ladder False (c \<lparr> bc_preferred_height := h \<rparr>) = Ok c'" "controller_ok c'"
    "bc_min_bps c' = bl_min_bps ladder" "bc_max_bps c' = bl_max_bps ladder" "bc_active_height c' = bc_active_height c"
    using apply_ladder_Ok [OF Some, of False "c \<lparr> bc_preferred_height := h \<rparr>"] by auto
  with Some assms show ?thesis
    by (auto simp: set_preferred_height_def Let_def on_ladder_def controller_ok_def)
qed (use assms in \<open>auto simp: set_preferred_height_def\<close>)

lemma sync_encode_Ok:
  assumes "controller_ok c" "on_ladder c"
  shows "\<exists>c' b. sync_encode_height h c = Ok (c', b) \<and> controller_ok c' \<and> on_ladder c'"
proof (cases "ladder_for_height h")
  case (Some ladder)
  obtain c' where "apply_ladder ladder True (c \<lparr> bc_active_height := h \<rparr>) = Ok c'" "controller_ok c'"
    "bc_min_bps c' = bl_min_bps ladder" "bc_max_bps c' = bl_max_bps ladder" "bc_active_height c' = h"
    using apply_ladder_Ok [OF Some, of True "c \<lparr> bc_active_height := h \<rparr>"] by auto
  with Some assms show ?thesis
    by (auto simp: sync_encode_height_def Let_def on_ladder_def controller_ok_def)
qed (use assms in \<open>auto simp: sync_encode_height_def\<close>)

lemma rate_reachable_ok: "rate_reachable c \<Longrightarrow> controller_ok c \<and> on_ladder c"
proof (induction rule: rate_reachable.induct)
  case (start height c)
  then obtain ladder where "ladder_for_height height = Some ladder"
      "c = bitrate_controller_new (bl_initial_bps ladder) (bl_min_bps ladder) (bl_max_bps ladder)
         \<lparr> bc_active_height := height, bc_preferred_height := height \<rparr>"
    by (auto simp: controller_for_height_def split: option.splits)
  then show ?case using ladder_ok by (auto simp: controller_ok_def on_ladder_def bitrate_controller_new_def)
next
  case (window c stats c' action)
  then have ok: "controller_ok c" by simp
  obtain c2 a2 where "update stats c = Ok (c2, a2)" "controller_ok c2" "update_spec stats c c2 a2"
    by (rule update_Ok [OF ok])
  with window update_height [OF window.hyps(2)] show ?case
    by (auto simp: on_ladder_def update_spec_def)
next
  case (thermal c hold)
  then show ?case by (simp add: set_thermal_hold_def controller_ok_def on_ladder_def)
next
  case (preferred c height c' b)
  then show ?case using set_preferred_Ok [of c height] by auto
next
  case (sync c height c' b)
  then show ?case using sync_encode_Ok [of c height] by auto
qed

text \<open>A run of reporting windows.\<close>

fun run_updates ::
  "receiver_stats list \<Rightarrow> bitrate_controller \<Rightarrow> (bitrate_controller \<times> bitrate_action list, unit) result" where
  "run_updates [] c = Ok (c, [])"
| "run_updates (s # ss) c =
     rbind (update s c) (\<lambda>(c1, a). rbind (run_updates ss c1) (\<lambda>(c2, as). Ok (c2, a # as)))"

definition loss_free :: "receiver_stats \<Rightarrow> bool" where
  "loss_free s \<longleftrightarrow> f64_lt (st_packet_loss s) (f64_lit (1 / 100)) \<and> st_reassembly_drop s = 0 \<and>
     st_decoder_drop s = 0 \<and> f64_lt (st_frame_age_ms s) (f64_lit 200)"

lemma clean_loss_free: "clean s c \<Longrightarrow> loss_free s"
  by (simp add: clean_def loss_free_def)

lemma run_updates_growth:
  assumes "controller_ok c" "run_updates ss c = Ok (c', as)" "i < length as" "as ! i = Increase"
  shows "4 \<le> i + bc_stable_seconds c \<and>
    (\<forall>j \<le> i. i \<le> j + 4 \<longrightarrow> loss_free (ss ! j) \<and> (j < i \<longrightarrow> as ! j = Hold))"
  using assms
proof (induction ss arbitrary: c c' as i)
  case (Cons s ss)
  obtain c1 a where u: "update s c = Ok (c1, a)" "controller_ok c1" "update_spec s c c1 a"
    by (rule update_Ok [OF Cons.prems(1)])
  obtain as' where as: "run_updates ss c1 = Ok (c', as')" "as = a # as'"
    using Cons.prems(2) u(1) by (auto simp: result_iff)
  show ?case
  proof (cases i)
    case 0
    then have "a = Increase" using Cons.prems(4) as by simp
    with u(3) 0 show ?thesis by (auto simp: update_spec_def clean_loss_free)
  next
    case (Suc k)
    then have k: "k < length as'" "as' ! k = Increase" using Cons.prems as by auto
    note ih = Cons.IH [OF u(2) as(1) k]
    have "loss_free s \<and> a = Hold \<and> bc_stable_seconds c1 \<le> bc_stable_seconds c + 1 \<or> bc_stable_seconds c1 = 0"
      using u(3) by (cases a) (auto simp: update_spec_def clean_loss_free sat_add_def split: if_splits)
    then show ?thesis
    proof (elim disjE conjE)
      assume a: "loss_free s" "a = Hold" "bc_stable_seconds c1 \<le> bc_stable_seconds c + 1"
      have "loss_free ((s # ss) ! j) \<and> (j < i \<longrightarrow> as ! j = Hold)" if "j \<le> i" "i \<le> j + 4" for j
        using that ih a Suc as(2) by (cases j) auto
      with ih a(3) Suc show ?thesis by auto
    next
      assume z: "bc_stable_seconds c1 = 0"
      then have "4 \<le> k" using ih by simp
      then have "loss_free ((s # ss) ! j) \<and> (j < i \<longrightarrow> as ! j = Hold)" if "j \<le> i" "i \<le> j + 4" for j
        using that ih Suc as(2) by (cases j) auto
      with \<open>4 \<le> k\<close> Suc show ?thesis by auto
    qed
  qed
qed simp

section \<open>A concrete run\<close>

definition controller_720 :: bitrate_controller where
  "controller_720 = bitrate_controller_new 3000000 1500000 5000000
     \<lparr> bc_active_height := 720, bc_preferred_height := 720 \<rparr>"

lemma controller_720_new: "controller_for_height 720 = Some controller_720"
  by (simp add: controller_for_height_def ladder_for_height_def ladder_constants controller_720_def)

lemma fl_pos: "0 < x \<Longrightarrow> 0 < fl x"
  using fl_bounds(1) [of x] by (rule less_le_trans [rotated]) simp_all

lemma fl_small_rates: "fl 200 = 200" "fl 50 = 50"
  using fl_of_nat [of 200] fl_of_nat [of 50] by simp_all

lemma default_window:
  assumes "bc_last_sender_queue_drops c = 0" "bc_last_sender_quic_sent_packets c = 0"
    "bc_last_sender_quic_lost_packets c = 0" "bc_stale_frame_ticks c = 0"
  shows "\<not> congested receiver_stats_default c" "clean receiver_stats_default c"
    "observe_window receiver_stats_default c = c"
  using assms fl_pos [of "1 / 100"] fl_pos [of "3 / 100"] fl_pos [of "2 / 100"] fl_pos [of "5 / 1000"]
  by (simp_all add: congested_def clean_def receiver_stats_default_def quic_loss_def observe_window_def
      f64_lit_def f64_le_def fl_small_rates)

lemma five_default_windows:
  "\<exists>c'. run_updates (replicate 5 receiver_stats_default) controller_720 = Ok (c', [Hold, Hold, Hold, Hold, Increase])"
proof -
  let ?d = receiver_stats_default
  define ctl where "ctl k = controller_720 \<lparr> bc_stable_seconds := k \<rparr>" for k
  have win: "\<not> congested ?d (ctl k)" "clean ?d (ctl k)" "observe_window ?d (ctl k) = ctl k" for k
    by (rule default_window; simp add: ctl_def controller_720_def bitrate_controller_new_def)+
  have hold: "update ?d (ctl k) = Ok (ctl (Suc k), Hold)" if "k < 4" for k
    using that by (simp add: update_def Let_def win)
      (simp add: ctl_def sat_add_def u32_max_eval controller_720_def bitrate_controller_new_def)
  have inc: "\<exists>c. update ?d (ctl 4) = Ok (c, Increase)"
    by (simp add: update_def Let_def win)
      (simp add: ctl_def sat_add_def u32_max_eval controller_720_def bitrate_controller_new_def u32_clamp_def)
  obtain c where c: "update ?d (ctl 4) = Ok (c, Increase)" using inc by blast
  have "controller_720 = ctl 0" by (simp add: ctl_def controller_720_def bitrate_controller_new_def)
  moreover have "replicate 5 ?d = [?d, ?d, ?d, ?d, ?d]" by (simp add: numeral_eq_Suc)
  moreover have "update ?d (ctl 0) = Ok (ctl 1, Hold)" "update ?d (ctl 1) = Ok (ctl 2, Hold)"
    "update ?d (ctl 2) = Ok (ctl 3, Hold)" "update ?d (ctl 3) = Ok (ctl 4, Hold)"
    using hold [of 0] hold [of 1] hold [of 2] hold [of 3] by (simp_all add: numeral_eq_Suc)
  ultimately show ?thesis using c by simp
qed

section \<open>Properties\<close>

text \<open>C21: whatever windows, thermal changes and height changes arrive, the controller never leaves
  the ladder of the active height, and no \<open>clamp\<close> it performs panics.\<close>

theorem bitrate_stays_on_ladder:
  assumes "rate_reachable c"
  shows "\<exists>ladder. ladder_for_height (bc_active_height c) = Some ladder \<and>
      bl_min_bps ladder \<le> bc_current_bitrate_bps c \<and> bc_current_bitrate_bps c \<le> bl_max_bps ladder \<and>
      update stats c \<noteq> Panic \<and> set_preferred_height h c \<noteq> Panic \<and> sync_encode_height h c \<noteq> Panic"
proof -
  have ok: "controller_ok c" "on_ladder c" using rate_reachable_ok [OF assms] by simp_all
  obtain c' a where "update stats c = Ok (c', a)" by (rule update_Ok [OF ok(1)])
  then show ?thesis
    using ok set_preferred_Ok [OF ok, of h] sync_encode_Ok [OF ok, of h]
    by (auto simp: on_ladder_def controller_ok_def)
qed

theorem bitrate_stays_on_ladder_witness:
  "1500000 \<le> bc_current_bitrate_bps controller_720 \<and> update receiver_stats_default controller_720 \<noteq> Panic \<and>
   set_preferred_height 1080 controller_720 \<noteq> Panic"
  using bitrate_stays_on_ladder [OF rate_reachable.start [OF controller_720_new], of receiver_stats_default 1080]
  by (auto simp: controller_720_def bitrate_controller_new_def)

text \<open>The direction of every adjustment. Congestion above the floor strictly lowers the bitrate
  and never raises it; a rise happens only in a clean window without a thermal hold and does not
  lower the bitrate; a hold leaves it alone.\<close>

lemma bitrate_moves_as_decided:
  assumes "rate_reachable c" "update stats c = Ok (c', action)"
  shows "(action = Decrease \<longleftrightarrow> congested stats c \<and> bc_min_bps c < bc_current_bitrate_bps c) \<and>
    (action = Decrease \<longrightarrow> bc_current_bitrate_bps c' < bc_current_bitrate_bps c) \<and>
    (action = Increase \<longrightarrow> \<not> congested stats c \<and> clean stats c \<and> \<not> bc_thermal_hold c \<and>
       bc_current_bitrate_bps c \<le> bc_current_bitrate_bps c') \<and>
    (action = Hold \<longrightarrow> bc_current_bitrate_bps c' = bc_current_bitrate_bps c)"
proof -
  have ok: "controller_ok c" using rate_reachable_ok [OF assms(1)] by simp
  obtain c2 a2 where "update stats c = Ok (c2, a2)" "update_spec stats c c2 a2" by (rule update_Ok [OF ok])
  then have spec: "update_spec stats c c' action" using assms(2) by simp
  have "action = Decrease \<longleftrightarrow> congested stats c \<and> bc_min_bps c < bc_current_bitrate_bps c"
    using assms(2) by (auto simp: update_def Let_def result_iff split: if_splits)
  with spec show ?thesis by (auto simp: update_spec_def)
qed

text \<open>Growth needs five windows in a row without loss, drops or stale frames: in any run from a
  fresh controller, an increase at position \<open>i\<close> is preceded by four loss-free windows in which the
  controller held.\<close>

lemma growth_needs_five_clean_windows:
  assumes "controller_for_height h = Some c" "run_updates ss c = Ok (c', as)" "i < length as" "as ! i = Increase"
  shows "4 \<le> i \<and> (\<forall>j \<le> i. i \<le> j + 4 \<longrightarrow> loss_free (ss ! j) \<and> (j < i \<longrightarrow> as ! j = Hold))"
proof -
  have "controller_ok c" using rate_reachable_ok [OF rate_reachable.start [OF assms(1)]] by simp
  moreover have "bc_stable_seconds c = 0"
    using assms(1) by (auto simp: controller_for_height_def bitrate_controller_new_def split: option.splits)
  ultimately show ?thesis using run_updates_growth [of c ss c' as i] assms(2-4) by simp
qed

end
