(* ===== verification/Network_Health.thy ===== *)
theory Network_Health
  imports F64
begin

text \<open>
  Network health episodes with hysteresis: \<open>crates/picoo-session/src/network_health.rs\<close>. The tracker
  is compared with a two-state automaton that only counts windows.
\<close>

definition BAD_WINDOWS_TO_ENTER :: nat where "BAD_WINDOWS_TO_ENTER = 2"
definition CLEAN_WINDOWS_TO_RECOVER :: nat where "CLEAN_WINDOWS_TO_RECOVER = 5"
definition BAD_PACKET_LOSS_THRESHOLD :: f64 where "BAD_PACKET_LOSS_THRESHOLD = f64_lit (3 / 100)"
definition CLEAN_PACKET_LOSS_THRESHOLD :: f64 where "CLEAN_PACKET_LOSS_THRESHOLD = f64_lit (1 / 100)"

lemmas health_constants = BAD_WINDOWS_TO_ENTER_def CLEAN_WINDOWS_TO_RECOVER_def

datatype network_degradation = FragmentLoss

record network_episode =
  ne_started_at :: nat
  ne_causes :: "network_degradation list"
  ne_bad_windows :: nat
  ne_clean_windows :: nat
  ne_worst_packet_loss :: f64

datatype network_health = Healthy | Degraded network_episode

fun is_degraded :: "network_health \<Rightarrow> bool" where
  "is_degraded Healthy = False"
| "is_degraded (Degraded e) = True"

fun episode :: "network_health \<Rightarrow> network_episode option" where
  "episode Healthy = None"
| "episode (Degraded e) = Some e"

record health_tracker =
  nt_health :: network_health
  nt_pending_bad_windows :: nat
  nt_pending_started_at :: "nat option"
  nt_pending_worst_packet_loss :: f64

definition tracker_default :: health_tracker where
  "tracker_default = \<lparr> nt_health = Healthy, nt_pending_bad_windows = 0, nt_pending_started_at = None,
     nt_pending_worst_packet_loss = Fin 0 \<rparr>"

definition clear_pending_windows :: "health_tracker \<Rightarrow> health_tracker" where
  "clear_pending_windows t = t \<lparr> nt_pending_bad_windows := 0, nt_pending_started_at := None,
     nt_pending_worst_packet_loss := Fin 0 \<rparr>"

definition tracker_reset :: "health_tracker \<Rightarrow> health_tracker" where
  "tracker_reset t = clear_pending_windows (t \<lparr> nt_health := Healthy \<rparr>)"

definition observe_healthy :: "f64 \<Rightarrow> nat \<Rightarrow> health_tracker \<Rightarrow> health_tracker" where
  "observe_healthy loss observed_at t =
     (if f64_lt BAD_PACKET_LOSS_THRESHOLD loss
      then
        let t1 = (if nt_pending_bad_windows t = 0
                  then t \<lparr> nt_pending_started_at := Some observed_at, nt_pending_worst_packet_loss := loss \<rparr>
                  else t);
            t2 = t1 \<lparr> nt_pending_bad_windows := sat_add32 (nt_pending_bad_windows t1) 1,
                      nt_pending_worst_packet_loss := f64_max (nt_pending_worst_packet_loss t1) loss \<rparr>
        in if nt_pending_bad_windows t2 \<ge> BAD_WINDOWS_TO_ENTER
           then clear_pending_windows (t2 \<lparr> nt_health := Degraded
                  \<lparr> ne_started_at = (case nt_pending_started_at t2 of None \<Rightarrow> observed_at | Some s \<Rightarrow> s),
                    ne_causes = [FragmentLoss], ne_bad_windows = nt_pending_bad_windows t2,
                    ne_clean_windows = 0, ne_worst_packet_loss = nt_pending_worst_packet_loss t2 \<rparr> \<rparr>)
           else t2
      else clear_pending_windows t)"

definition observe_degraded :: "f64 \<Rightarrow> network_episode \<Rightarrow> health_tracker \<Rightarrow> health_tracker" where
  "observe_degraded loss e t =
     (if f64_lt BAD_PACKET_LOSS_THRESHOLD loss
      then t \<lparr> nt_health := Degraded (e
             \<lparr> ne_bad_windows := sat_add32 (ne_bad_windows e) 1, ne_clean_windows := 0,
               ne_worst_packet_loss := f64_max (ne_worst_packet_loss e) loss,
               ne_causes := (if FragmentLoss \<in> set (ne_causes e) then ne_causes e
                             else ne_causes e @ [FragmentLoss]) \<rparr>) \<rparr>
      else if f64_lt loss CLEAN_PACKET_LOSS_THRESHOLD
      then
        let e1 = e \<lparr> ne_clean_windows := sat_add32 (ne_clean_windows e) 1 \<rparr>
        in if ne_clean_windows e1 \<ge> CLEAN_WINDOWS_TO_RECOVER then t \<lparr> nt_health := Healthy \<rparr>
           else t \<lparr> nt_health := Degraded e1 \<rparr>
      else t \<lparr> nt_health := Degraded (e \<lparr> ne_clean_windows := 0 \<rparr>) \<rparr>)"

definition observe_packet_loss :: "f64 \<Rightarrow> nat \<Rightarrow> health_tracker \<Rightarrow> health_tracker" where
  "observe_packet_loss packet_loss observed_at t =
     (if \<not> f64_is_finite packet_loss
      then (case nt_health t of
              Healthy \<Rightarrow> clear_pending_windows t
            | Degraded e \<Rightarrow> t \<lparr> nt_health := Degraded (e \<lparr> ne_clean_windows := 0 \<rparr>) \<rparr>)
      else
        let loss = f64_clamp (Fin 0) (Fin 1) packet_loss
        in (case nt_health t of
              Healthy \<Rightarrow> observe_healthy loss observed_at t
            | Degraded e \<Rightarrow> observe_degraded loss e t))"

section \<open>The counting automaton\<close>

text \<open>A window is bad, clean, or neither (between the thresholds, or not a number).\<close>

definition bad_window :: "f64 \<Rightarrow> bool" where
  "bad_window l \<longleftrightarrow> f64_is_finite l \<and> f64_lt BAD_PACKET_LOSS_THRESHOLD l"

definition clean_window :: "f64 \<Rightarrow> bool" where
  "clean_window l \<longleftrightarrow> f64_is_finite l \<and> f64_lt l CLEAN_PACKET_LOSS_THRESHOLD"

datatype health_state = Calm nat | Ill nat

fun count_window :: "f64 \<Rightarrow> health_state \<Rightarrow> health_state" where
  "count_window l (Calm n) =
     (if bad_window l then (if n + 1 \<ge> BAD_WINDOWS_TO_ENTER then Ill 0 else Calm (n + 1)) else Calm 0)"
| "count_window l (Ill k) =
     (if clean_window l then (if k + 1 \<ge> CLEAN_WINDOWS_TO_RECOVER then Calm 0 else Ill (k + 1)) else Ill 0)"

definition health_abs :: "health_tracker \<Rightarrow> health_state" where
  "health_abs t = (case nt_health t of Healthy \<Rightarrow> Calm (nt_pending_bad_windows t)
                                     | Degraded e \<Rightarrow> Ill (ne_clean_windows e))"

section \<open>Lemmas\<close>

lemma threshold_values:
  obtains b c where "BAD_PACKET_LOSS_THRESHOLD = Fin b" "CLEAN_PACKET_LOSS_THRESHOLD = Fin c" "0 < c" "c < b" "b < 1"
proof -
  have "fl (1 / 100) \<le> 1 / 100 * (1 + 1 / 2 ^ 53)" "1 / 100 * (1 - 1 / 2 ^ 53) \<le> fl (1 / 100)"
    "fl (3 / 100) \<le> 3 / 100 * (1 + 1 / 2 ^ 53)" "3 / 100 * (1 - 1 / 2 ^ 53) \<le> fl (3 / 100)"
    by (rule fl_bounds; simp)+
  then have "0 < fl (1 / 100)" "fl (1 / 100) < fl (3 / 100)" "fl (3 / 100) < 1" by simp_all
  then show thesis
    using that by (simp add: BAD_PACKET_LOSS_THRESHOLD_def CLEAN_PACKET_LOSS_THRESHOLD_def f64_lit_def)
qed

text \<open>Clamping to the unit interval does not move a window across a threshold.\<close>

lemma clamp_windows:
  assumes "f64_is_finite l"
  shows "f64_lt BAD_PACKET_LOSS_THRESHOLD (f64_clamp (Fin 0) (Fin 1) l) = bad_window l"
    and "f64_lt (f64_clamp (Fin 0) (Fin 1) l) CLEAN_PACKET_LOSS_THRESHOLD = clean_window l"
proof -
  obtain x where l: "l = Fin x" using assms by (cases l) auto
  obtain b c where t: "BAD_PACKET_LOSS_THRESHOLD = Fin b" "CLEAN_PACKET_LOSS_THRESHOLD = Fin c"
    "0 < c" "c < b" "b < 1" by (rule threshold_values)
  show "f64_lt BAD_PACKET_LOSS_THRESHOLD (f64_clamp (Fin 0) (Fin 1) l) = bad_window l"
    "f64_lt (f64_clamp (Fin 0) (Fin 1) l) CLEAN_PACKET_LOSS_THRESHOLD = clean_window l"
    using t(3-5) unfolding bad_window_def clean_window_def l t(1,2) by (auto simp: f64_clamp_bounds)
qed

lemma bad_not_clean: "bad_window l \<Longrightarrow> \<not> clean_window l"
proof -
  obtain b c where t: "BAD_PACKET_LOSS_THRESHOLD = Fin b" "CLEAN_PACKET_LOSS_THRESHOLD = Fin c"
    "0 < c" "c < b" "b < 1" by (rule threshold_values)
  assume "bad_window l"
  then show ?thesis using t(3-5) unfolding bad_window_def clean_window_def t(1,2) by (cases l) auto
qed

definition tracker_ok :: "health_tracker \<Rightarrow> bool" where
  "tracker_ok t \<longleftrightarrow> (case nt_health t of
     Healthy \<Rightarrow> nt_pending_bad_windows t < BAD_WINDOWS_TO_ENTER
   | Degraded e \<Rightarrow> nt_pending_bad_windows t = 0 \<and> ne_clean_windows e < CLEAN_WINDOWS_TO_RECOVER)"

lemma observe_step:
  assumes "tracker_ok t"
  shows "tracker_ok (observe_packet_loss l now t)"
    "health_abs (observe_packet_loss l now t) = count_window l (health_abs t)"
proof -
  have "tracker_ok (observe_packet_loss l now t) \<and>
      health_abs (observe_packet_loss l now t) = count_window l (health_abs t)"
  proof (cases "f64_is_finite l")
    case True
    note cw = clamp_windows [OF True]
    show ?thesis
    proof (cases "nt_health t")
      case Healthy
      then show ?thesis
        using assms True by (simp add: tracker_ok_def observe_packet_loss_def Let_def observe_healthy_def cw
            health_abs_def clear_pending_windows_def sat_add_def u32_max_eval health_constants)
    next
      case (Degraded e)
      then show ?thesis
        using assms True bad_not_clean [of l]
        by (auto simp: tracker_ok_def observe_packet_loss_def Let_def observe_degraded_def cw
            health_abs_def sat_add_def u32_max_eval health_constants)
    qed
  next
    case False
    then have "\<not> bad_window l" "\<not> clean_window l" by (simp_all add: bad_window_def clean_window_def)
    with False assms show ?thesis
      by (auto simp: tracker_ok_def observe_packet_loss_def health_abs_def clear_pending_windows_def
          health_constants split: network_health.splits)
  qed
  then show "tracker_ok (observe_packet_loss l now t)"
    "health_abs (observe_packet_loss l now t) = count_window l (health_abs t)" by simp_all
qed

definition run_tracker :: "(f64 \<times> nat) list \<Rightarrow> health_tracker" where
  "run_tracker obs = fold (\<lambda>(l, now). observe_packet_loss l now) obs tracker_default"

lemma run_tracker_snoc [simp]:
  "run_tracker [] = tracker_default"
  "run_tracker (obs @ [(l, now)]) = observe_packet_loss l now (run_tracker obs)"
  by (simp_all add: run_tracker_def)

definition trailing :: "('a \<Rightarrow> bool) \<Rightarrow> 'a list \<Rightarrow> nat" where
  "trailing P xs = length (takeWhile P (rev xs))"

lemma trailing_snoc [simp]: "trailing P (xs @ [x]) = (if P x then Suc (trailing P xs) else 0)"
  by (simp add: trailing_def)

lemma run_tracker_counts:
  "tracker_ok (run_tracker obs) \<and>
   (case health_abs (run_tracker obs) of
      Calm n \<Rightarrow> n < 2 \<and> n \<le> trailing bad_window (map fst obs)
    | Ill k \<Rightarrow> k < 5 \<and> k \<le> trailing clean_window (map fst obs))"
proof (induction obs rule: rev_induct)
  case Nil
  show ?case by (simp add: tracker_default_def tracker_ok_def health_abs_def trailing_def health_constants)
next
  case (snoc ob obs)
  obtain l now where ob: "ob = (l, now)" by force
  note st = observe_step [of "run_tracker obs" l now]
  show ?case
    using snoc st by (cases "health_abs (run_tracker obs)") (auto simp: ob health_constants)
qed

lemma is_degraded_abs: "is_degraded (nt_health t) \<longleftrightarrow> (\<exists>k. health_abs t = Ill k)"
  by (cases "nt_health t") (auto simp: health_abs_def)

section \<open>Properties\<close>

text \<open>The tracker refines the counting automaton: after any observations its state is the
  automaton's, whatever the loss values (NaN and infinities included) and the clock.\<close>

lemma tracker_refines_automaton:
  "health_abs (run_tracker obs) = fold (\<lambda>(l, now). count_window l) obs (Calm 0)"
proof (induction obs rule: rev_induct)
  case Nil
  show ?case by (simp add: tracker_default_def health_abs_def)
next
  case (snoc ob obs)
  obtain l now where ob: "ob = (l, now)" by force
  have "tracker_ok (run_tracker obs)" using run_tracker_counts by blast
  then show ?case using snoc observe_step(2) by (simp add: ob)
qed

text \<open>Hysteresis. The tracker becomes degraded only on the second bad window in a row, and
  becomes healthy again only on the fifth clean window in a row.\<close>

lemma health_hysteresis:
  "(\<not> is_degraded (nt_health (run_tracker obs)) \<and> is_degraded (nt_health (run_tracker (obs @ [(l, now)])))
      \<longrightarrow> 2 \<le> trailing bad_window (map fst obs @ [l])) \<and>
   (is_degraded (nt_health (run_tracker obs)) \<and> \<not> is_degraded (nt_health (run_tracker (obs @ [(l, now)])))
      \<longrightarrow> 5 \<le> trailing clean_window (map fst obs @ [l]))"
proof -
  have c: "tracker_ok (run_tracker obs)"
    "case health_abs (run_tracker obs) of Calm n \<Rightarrow> n < 2 \<and> n \<le> trailing bad_window (map fst obs)
       | Ill k \<Rightarrow> k < 5 \<and> k \<le> trailing clean_window (map fst obs)"
    using run_tracker_counts [of obs] by auto
  show ?thesis
    using c(2) observe_step(2) [OF c(1), of l now]
    by (cases "health_abs (run_tracker obs)") (auto simp: is_degraded_abs health_constants split: if_splits)
qed

lemma total_loss_bad: "bad_window (Fin 1)"
proof -
  obtain b c where t: "BAD_PACKET_LOSS_THRESHOLD = Fin b" "CLEAN_PACKET_LOSS_THRESHOLD = Fin c"
    "0 < c" "c < b" "b < 1" by (rule threshold_values)
  then show ?thesis unfolding bad_window_def t(1) by simp
qed

end
