(* ===== verification/Jitter.thy ===== *)
theory Jitter
  imports F64 "HOL-Library.Multiset"
begin

text \<open>
  The deadline-driven jitter buffer: \<open>crates/picoo-jitter/src/lib.rs\<close>. Times are microseconds as
  naturals with saturating sums; transit samples are integers (the 128-bit differences of two 64-bit
  times are exact).
\<close>

section \<open>State\<close>

definition STARTUP_TARGET_US :: nat where "STARTUP_TARGET_US = 33000"
definition MIN_TARGET_US :: nat where "MIN_TARGET_US = 16000"
definition MAX_TARGET_US :: nat where "MAX_TARGET_US = 80000"
definition MAX_OBSERVED_DECODE_US :: nat where "MAX_OBSERVED_DECODE_US = 250000"
definition DEFAULT_DECODE_US :: nat where "DEFAULT_DECODE_US = 5000"
definition RENDER_MARGIN_US :: nat where "RENDER_MARGIN_US = 5000"
definition SAMPLE_WINDOW :: nat where "SAMPLE_WINDOW = 150"
definition MAX_BUFFERED_FRAMES :: nat where "MAX_BUFFERED_FRAMES = 16"

lemmas jitter_constants = STARTUP_TARGET_US_def MIN_TARGET_US_def MAX_TARGET_US_def
  MAX_OBSERVED_DECODE_US_def DEFAULT_DECODE_US_def RENDER_MARGIN_US_def SAMPLE_WINDOW_def
  MAX_BUFFERED_FRAMES_def

record jitter_frame =
  jf_stream_generation :: nat
  jf_frame_id :: nat
  jf_pts_us :: nat
  jf_encoded_at_us :: nat
  jf_received_at_us :: nat
  jf_data :: bytes
  jf_keyframe :: bool
  jf_discardable :: bool

record timing_stats =
  ts_target_delay_ms :: f64
  ts_actual_delay_ms :: f64
  ts_occupancy_ms :: f64

record buffered_frame =
  bf_frame :: jitter_frame
  bf_first_fragment_at_us :: nat
  bf_completed_at_us :: nat

record jitter_buffer =
  jb_frames :: "buffered_frame list"
  jb_last_emitted_pts_us :: "nat option"
  jb_base_transit_us :: "int option"
  jb_last_observed_pts_us :: "nat option"
  jb_transit_samples_us :: "int list"
  jb_decode_times_us :: "nat list"
  jb_adaptive_target_us :: nat
  jb_fixed_target_us :: "nat option"
  jb_emitted_delay_sum_us :: nat
  jb_emitted_count :: nat

datatype push_outcome =
    Accepted
  | AcceptedAfterReferenceDrop
  | DroppedLate bool \<comment> \<open>\<open>requires_refresh\<close>\<close>

record front_descriptor =
  ff_stream_generation :: nat
  ff_frame_id :: nat
  ff_keyframe :: bool
  ff_discardable :: bool

definition jitter_new :: jitter_buffer where
  "jitter_new = \<lparr> jb_frames = [], jb_last_emitted_pts_us = None, jb_base_transit_us = None,
     jb_last_observed_pts_us = None, jb_transit_samples_us = [], jb_decode_times_us = [],
     jb_adaptive_target_us = STARTUP_TARGET_US, jb_fixed_target_us = None,
     jb_emitted_delay_sum_us = 0, jb_emitted_count = 0 \<rparr>"

abbreviation bf_pts :: "buffered_frame \<Rightarrow> nat" where "bf_pts b \<equiv> jf_pts_us (bf_frame b)"

section \<open>Timing\<close>

definition push_bounded :: "'a list \<Rightarrow> 'a \<Rightarrow> 'a list" where
  "push_bounded samples v = (if length samples = SAMPLE_WINDOW then tl samples else samples) @ [v]"

definition percentile :: "nat list \<Rightarrow> nat \<Rightarrow> nat option" where
  "percentile samples p =
     (if samples = [] then None
      else let sorted = sort samples; index = ((length sorted - 1) * p) div 100
           in if index < length sorted then Some (sorted ! index) else None)"

definition mapped_time_us :: "int option \<Rightarrow> nat \<Rightarrow> nat" where
  "mapped_time_us base_transit_us pts_us =
     (let mapped = int pts_us + (case base_transit_us of None \<Rightarrow> 0 | Some b \<Rightarrow> b)
      in nat (max 0 (min (int u64_max) mapped)))"

definition target_us :: "jitter_buffer \<Rightarrow> nat" where
  "target_us j = (case jb_fixed_target_us j of None \<Rightarrow> jb_adaptive_target_us j | Some t \<Rightarrow> t)"

definition decode_budget_us :: "jitter_buffer \<Rightarrow> nat" where
  "decode_budget_us j =
     sat_add64 (case percentile (jb_decode_times_us j) 95 of None \<Rightarrow> DEFAULT_DECODE_US | Some d \<Rightarrow> d)
       RENDER_MARGIN_US"

definition decode_release_at_us :: "jitter_buffer \<Rightarrow> nat \<Rightarrow> nat" where
  "decode_release_at_us j pts_us =
     (let holdback = target_us j - decode_budget_us j
      in sat_add64 (mapped_time_us (jb_base_transit_us j) pts_us) holdback)"

text \<open>\<open>(sample - base).max(0) as u64\<close> keeps the low 64 bits.\<close>

definition queueing_delay :: "int \<Rightarrow> int \<Rightarrow> nat" where
  "queueing_delay base sample = nat (max 0 (sample - base)) mod (u64_max + 1)"

definition desired_target_us :: "jitter_buffer \<Rightarrow> nat" where
  "desired_target_us j =
     (let base = (case jb_base_transit_us j of None \<Rightarrow> 0 | Some b \<Rightarrow> b);
          delays = map (queueing_delay base) (jb_transit_samples_us j);
          arrival_delay_p95 = (case percentile delays 95 of None \<Rightarrow> 0 | Some d \<Rightarrow> d);
          decode_p95 = (case percentile (jb_decode_times_us j) 95 of None \<Rightarrow> DEFAULT_DECODE_US | Some d \<Rightarrow> d)
      in clamp_nat MIN_TARGET_US MAX_TARGET_US
           (sat_add64 (sat_add64 arrival_delay_p95 decode_p95) RENDER_MARGIN_US))"

definition update_target :: "jitter_buffer \<Rightarrow> jitter_buffer" where
  "update_target j =
     (if jb_fixed_target_us j \<noteq> None then j
      else if length (jb_transit_samples_us j) < 5 then j
      else let desired = desired_target_us j
           in if desired \<ge> jb_adaptive_target_us j then j \<lparr> jb_adaptive_target_us := desired \<rparr>
              else j \<lparr> jb_adaptive_target_us := max (jb_adaptive_target_us j - 1000) desired \<rparr>)"

definition min_sample :: "int list \<Rightarrow> int option" where
  "min_sample xs = (case xs of [] \<Rightarrow> None | x # r \<Rightarrow> Some (foldl min x r))"

definition observe_arrival :: "nat \<Rightarrow> nat \<Rightarrow> jitter_buffer \<Rightarrow> jitter_buffer" where
  "observe_arrival pts_us completed_at_us j =
     (let transit_us = int completed_at_us - int pts_us
      in if (case jb_last_observed_pts_us j of None \<Rightarrow> False | Some l \<Rightarrow> pts_us \<le> l) then j
         else
           let samples = push_bounded (jb_transit_samples_us j) transit_us
           in update_target (j \<lparr> jb_last_observed_pts_us := Some pts_us, jb_transit_samples_us := samples,
                                 jb_base_transit_us := min_sample samples \<rparr>))"

definition set_fixed_target_ms :: "nat option \<Rightarrow> jitter_buffer \<Rightarrow> jitter_buffer" where
  "set_fixed_target_ms target_ms j =
     j \<lparr> jb_fixed_target_us := map_option (\<lambda>v. sat_mul64 v 1000) target_ms \<rparr>"

definition observe_decode_time_us :: "nat \<Rightarrow> jitter_buffer \<Rightarrow> jitter_buffer" where
  "observe_decode_time_us decode_time_us j =
     update_target (j \<lparr> jb_decode_times_us :=
       push_bounded (jb_decode_times_us j) (min decode_time_us MAX_OBSERVED_DECODE_US) \<rparr>)"

section \<open>Queue\<close>

definition position :: "('a \<Rightarrow> bool) \<Rightarrow> 'a list \<Rightarrow> nat option" where
  "position P xs = (let k = length (takeWhile (\<lambda>x. \<not> P x) xs) in if k < length xs then Some k else None)"

definition remove_at :: "nat \<Rightarrow> 'a list \<Rightarrow> 'a list" where
  "remove_at k xs = take k xs @ drop (Suc k) xs"

text \<open>\<open>while self.frames.len() > MAX_BUFFERED_FRAMES\<close>: evict the first delta frame, or the front.\<close>

definition evict_index :: "buffered_frame list \<Rightarrow> nat" where
  "evict_index frames =
     (case position (\<lambda>b. \<not> jf_keyframe (bf_frame b)) frames of None \<Rightarrow> 0 | Some k \<Rightarrow> k)"

function enforce_loop :: "buffered_frame list \<Rightarrow> bool \<Rightarrow> buffered_frame list \<times> bool" where
  "enforce_loop frames broken =
     (if length frames > MAX_BUFFERED_FRAMES
      then let index = evict_index frames
           in enforce_loop (remove_at index frames)
                (if index < length frames \<and> \<not> jf_discardable (bf_frame (frames ! index)) then True else broken)
      else (frames, broken))"
  by pat_completeness auto

lemma position_less: "position P xs = Some k \<Longrightarrow> k < length xs"
  by (auto simp: position_def Let_def split: if_splits)

lemma evict_index_less: "frames \<noteq> [] \<Longrightarrow> evict_index frames < length frames"
  by (auto simp: evict_index_def dest: position_less split: option.split)

lemma length_remove_at: "k < length xs \<Longrightarrow> length (remove_at k xs) = length xs - 1"
  by (simp add: remove_at_def)

termination enforce_loop
proof (relation "measure (\<lambda>(frames, b). length frames)")
  fix frames b x assume "length frames > MAX_BUFFERED_FRAMES" and x: "x = evict_index frames"
  then have "frames \<noteq> []" by auto
  then show "((remove_at x frames, if x < length frames \<and> \<not> jf_discardable (bf_frame (frames ! x)) then True else b),
      frames, b) \<in> measure (\<lambda>(frames, b). length frames)"
    using evict_index_less [of frames] x by (simp add: length_remove_at)
qed simp

declare enforce_loop.simps [simp del]

definition enforce_limits :: "jitter_buffer \<Rightarrow> jitter_buffer \<times> bool" where
  "enforce_limits j =
     (let (frames, broken) = enforce_loop (jb_frames j) False in (j \<lparr> jb_frames := frames \<rparr>, broken))"

definition insert_at :: "nat \<Rightarrow> 'a \<Rightarrow> 'a list \<Rightarrow> 'a list" where
  "insert_at k x xs = take k xs @ x # drop k xs"

definition push_at :: "jitter_frame \<Rightarrow> nat \<Rightarrow> nat \<Rightarrow> jitter_buffer \<Rightarrow> jitter_buffer \<times> push_outcome" where
  "push_at frame first_fragment_at_us completed_at_us j =
     (if (case jb_last_emitted_pts_us j of None \<Rightarrow> False | Some emitted \<Rightarrow> jf_pts_us frame \<le> emitted)
      then (j, DroppedLate (\<not> jf_discardable frame))
      else
        let j1 = observe_arrival (jf_pts_us frame) completed_at_us j;
            index = (case position (\<lambda>b. bf_pts b > jf_pts_us frame) (jb_frames j1) of
                       None \<Rightarrow> length (jb_frames j1) | Some k \<Rightarrow> k);
            buffered = \<lparr> bf_frame = frame, bf_first_fragment_at_us = first_fragment_at_us,
                         bf_completed_at_us = completed_at_us \<rparr>;
            (j2, broken) = enforce_limits (j1 \<lparr> jb_frames := insert_at index buffered (jb_frames j1) \<rparr>)
        in (j2, if broken then AcceptedAfterReferenceDrop else Accepted))"

definition u128_max :: nat where "u128_max = 2 ^ 128 - 1"

definition pop_ready :: "nat \<Rightarrow> jitter_buffer \<Rightarrow> jitter_buffer \<times> jitter_frame option" where
  "pop_ready now_us j =
     (case jb_frames j of
        [] \<Rightarrow> (j, None)
      | front # rest \<Rightarrow>
          if now_us < decode_release_at_us j (bf_pts front) then (j, None)
          else (j \<lparr> jb_frames := rest, jb_last_emitted_pts_us := Some (bf_pts front),
                    jb_emitted_delay_sum_us :=
                      sat_add u128_max (jb_emitted_delay_sum_us j) (now_us - bf_first_fragment_at_us front),
                    jb_emitted_count := sat_add64 (jb_emitted_count j) 1 \<rparr>,
                Some (bf_frame front)))"

definition expired :: "nat \<Rightarrow> nat \<Rightarrow> buffered_frame \<Rightarrow> bool" where
  "expired now_us max_queue_age_us b \<longleftrightarrow> sat_add64 (bf_completed_at_us b) max_queue_age_us < now_us"

definition drop_expired :: "nat \<Rightarrow> nat \<Rightarrow> jitter_buffer \<Rightarrow> jitter_buffer \<times> bool" where
  "drop_expired now_us max_queue_age_us j =
     (if jb_fixed_target_us j \<noteq> None then (j, False)
      else let age = max max_queue_age_us (target_us j)
           in (j \<lparr> jb_frames := filter (\<lambda>b. \<not> expired now_us age b) (jb_frames j) \<rparr>,
               list_ex (\<lambda>b. expired now_us age b \<and> \<not> jf_discardable (bf_frame b)) (jb_frames j)))"

definition occupancy_ms :: "jitter_buffer \<Rightarrow> f64" where
  "occupancy_ms j =
     (case jb_frames j of
        [] \<Rightarrow> Fin 0
      | front # rest \<Rightarrow>
          let back = last (front # rest)
          in if bf_pts back \<ge> bf_pts front
             then f64_div (f64_of_nat (bf_pts back - bf_pts front)) (f64_lit 1000) else Fin 0)"

definition target_delay_ms :: "jitter_buffer \<Rightarrow> f64" where
  "target_delay_ms j = f64_div (f64_of_nat (target_us j)) (f64_lit 1000)"

definition take_timing_stats :: "jitter_buffer \<Rightarrow> jitter_buffer \<times> timing_stats" where
  "take_timing_stats j =
     (let actual_delay_ms =
            (if jb_emitted_count j = 0 then Fin 0
             else f64_div (f64_div (f64_of_nat (jb_emitted_delay_sum_us j)) (f64_of_nat (jb_emitted_count j)))
                    (f64_lit 1000));
          j1 = j \<lparr> jb_emitted_delay_sum_us := 0, jb_emitted_count := 0 \<rparr>
      in (j1, \<lparr> ts_target_delay_ms = target_delay_ms j1, ts_actual_delay_ms = actual_delay_ms,
                ts_occupancy_ms = occupancy_ms j1 \<rparr>))"

definition front_pts_us :: "jitter_buffer \<Rightarrow> nat option" where
  "front_pts_us j = map_option bf_pts (case jb_frames j of [] \<Rightarrow> None | b # _ \<Rightarrow> Some b)"

definition front_frame_id :: "jitter_buffer \<Rightarrow> nat option" where
  "front_frame_id j = map_option (\<lambda>b. jf_frame_id (bf_frame b)) (case jb_frames j of [] \<Rightarrow> None | b # _ \<Rightarrow> Some b)"

definition front_frame_descriptor :: "jitter_buffer \<Rightarrow> front_descriptor option" where
  "front_frame_descriptor j =
     map_option (\<lambda>b. \<lparr> ff_stream_generation = jf_stream_generation (bf_frame b),
                       ff_frame_id = jf_frame_id (bf_frame b), ff_keyframe = jf_keyframe (bf_frame b),
                       ff_discardable = jf_discardable (bf_frame b) \<rparr>)
       (case jb_frames j of [] \<Rightarrow> None | b # _ \<Rightarrow> Some b)"

definition next_release_delay_us :: "nat \<Rightarrow> jitter_buffer \<Rightarrow> nat option" where
  "next_release_delay_us now_us j =
     map_option (\<lambda>b. decode_release_at_us j (bf_pts b) - now_us)
       (case jb_frames j of [] \<Rightarrow> None | b # _ \<Rightarrow> Some b)"

definition next_expiration_delay_us :: "nat \<Rightarrow> nat \<Rightarrow> jitter_buffer \<Rightarrow> nat option" where
  "next_expiration_delay_us now_us max_queue_age_us j =
     (if jb_fixed_target_us j \<noteq> None then None
      else let age = max max_queue_age_us (target_us j)
           in map_option (\<lambda>deadline. deadline - now_us)
                (min_opt (map (\<lambda>b. sat_add64 (sat_add64 (bf_completed_at_us b) age) 1) (jb_frames j))))"

definition discard_queued :: "jitter_buffer \<Rightarrow> jitter_buffer" where
  "discard_queued j = j \<lparr> jb_frames := [], jb_last_emitted_pts_us := None \<rparr>"

definition jitter_clear :: "jitter_buffer \<Rightarrow> jitter_buffer" where
  "jitter_clear j = jitter_new \<lparr> jb_fixed_target_us := jb_fixed_target_us j \<rparr>"

section \<open>Lemmas: the queue\<close>

abbreviation queue_sorted :: "buffered_frame list \<Rightarrow> bool" where
  "queue_sorted frames \<equiv> sorted (map bf_pts frames)"

lemma insert_at_mset [simp]: "mset (insert_at k x xs) = add_mset x (mset xs)"
  by (metis append_take_drop_id insert_at_def mset.simps(2) mset_append union_mset_add_mset_right)

lemma length_insert_at [simp]: "length (insert_at k x xs) = Suc (length xs)"
  by (metis insert_at_mset size_add_mset size_mset)

lemma set_insert_at [simp]: "set (insert_at k x xs) = insert x (set xs)"
  by (metis insert_at_mset set_mset_add_mset_insert set_mset_mset)

lemma remove_at_mset: "k < length xs \<Longrightarrow> add_mset (xs ! k) (mset (remove_at k xs)) = mset xs"
  using id_take_nth_drop [of k xs] by (simp add: remove_at_def) (metis mset.simps(2) mset_append union_mset_add_mset_right)

lemma set_remove_at: "set (remove_at k xs) \<subseteq> set xs"
  by (auto simp: remove_at_def dest: in_set_takeD in_set_dropD)

lemma queue_sorted_middle: "queue_sorted (a @ x # c) \<Longrightarrow> queue_sorted (a @ c)"
  by (auto simp: sorted_append)

lemma sorted_remove_at: "k < length xs \<Longrightarrow> queue_sorted xs \<Longrightarrow> queue_sorted (remove_at k xs)"
  unfolding remove_at_def by (rule queue_sorted_middle [of _ "xs ! k"]) (simp only: id_take_nth_drop [symmetric])

lemma position_spec:
  "position P xs = Some k \<Longrightarrow> k < length xs \<and> P (xs ! k) \<and> (\<forall>i < k. \<not> P (xs ! i))"
  by (auto simp: position_def Let_def nth_length_takeWhile dest: nth_length_takeWhile [of "\<lambda>x. \<not> P x" xs]
      takeWhile_nth [of _ "\<lambda>x. \<not> P x" xs] split: if_splits)
    (metis nth_mem set_takeWhileD takeWhile_nth)

lemma position_None: "position P xs = None \<Longrightarrow> \<forall>x \<in> set xs. \<not> P x"
  by (auto simp: position_def Let_def split: if_splits)
    (metis length_takeWhile_le linorder_not_less order_le_imp_less_or_eq takeWhile_eq_take set_takeWhileD take_all_iff)

lemma queue_sorted_insert:
  "queue_sorted (a @ c) \<Longrightarrow> \<forall>b \<in> set a. bf_pts b \<le> bf_pts x \<Longrightarrow> \<forall>b \<in> set c. bf_pts x \<le> bf_pts b \<Longrightarrow>
     queue_sorted (a @ x # c)"
  by (auto simp: sorted_append)

text \<open>Inserting before the first later frame keeps the queue ordered.\<close>

lemma insert_sorted:
  assumes "queue_sorted xs"
    "k = (case position (\<lambda>b. bf_pts b > bf_pts x) xs of None \<Rightarrow> length xs | Some k \<Rightarrow> k)"
  shows "queue_sorted (insert_at k x xs)"
proof -
  have low: "\<forall>b \<in> set (take k xs). bf_pts b \<le> bf_pts x"
  proof (cases "position (\<lambda>b. bf_pts b > bf_pts x) xs")
    case None
    then show ?thesis using position_None [OF None] assms(2) by auto
  next
    case (Some j)
    then show ?thesis using position_spec [OF Some] assms(2) by (auto simp: in_set_conv_nth not_less)
  qed
  have high: "\<forall>b \<in> set (drop k xs). bf_pts x \<le> bf_pts b"
  proof (cases "position (\<lambda>b. bf_pts b > bf_pts x) xs")
    case None
    then show ?thesis using assms(2) by simp
  next
    case (Some j)
    then have j: "j < length xs" "bf_pts x < bf_pts (xs ! j)" "k = j"
      using position_spec [OF Some] assms(2) by auto
    have "bf_pts (xs ! j) \<le> bf_pts b" if "b \<in> set (drop j xs)" for b
    proof -
      have "sorted (map bf_pts (xs ! j # drop (Suc j) xs))"
        using assms(1) j(1) by (metis Cons_nth_drop_Suc drop_map sorted_wrt_drop)
      then show ?thesis using that j(1) by (auto simp: Cons_nth_drop_Suc [symmetric])
    qed
    with j show ?thesis by fastforce
  qed
  show ?thesis
    unfolding insert_at_def using low high assms(1) by (intro queue_sorted_insert) simp_all
qed

definition reference :: "buffered_frame \<Rightarrow> bool" where
  "reference b \<longleftrightarrow> \<not> jf_discardable (bf_frame b)"

text \<open>The eviction loop: what it keeps, and that it reports every reference frame it drops.\<close>

lemma enforce_loop_spec:
  "length (fst (enforce_loop frames broken)) \<le> MAX_BUFFERED_FRAMES \<and>
   (queue_sorted frames \<longrightarrow> queue_sorted (fst (enforce_loop frames broken))) \<and>
   mset (fst (enforce_loop frames broken)) \<subseteq># mset frames \<and>
   (broken \<longrightarrow> snd (enforce_loop frames broken)) \<and>
   (\<not> snd (enforce_loop frames broken) \<longrightarrow>
      filter_mset reference (mset (fst (enforce_loop frames broken))) = filter_mset reference (mset frames)) \<and>
   (length frames \<le> MAX_BUFFERED_FRAMES \<longrightarrow> enforce_loop frames broken = (frames, broken))"
proof (induction frames broken rule: enforce_loop.induct)
  case (1 frames broken)
  show ?case
  proof (cases "length frames > MAX_BUFFERED_FRAMES")
    case True
    then have "frames \<noteq> []" by auto
    then have k: "evict_index frames < length frames" by (rule evict_index_less)
    let ?k = "evict_index frames"
    let ?b = "if ?k < length frames \<and> \<not> jf_discardable (bf_frame (frames ! ?k)) then True else broken"
    have eq: "enforce_loop frames broken = enforce_loop (remove_at ?k frames) ?b"
      by (subst enforce_loop.simps) (simp add: True Let_def)
    have ms: "mset frames = add_mset (frames ! ?k) (mset (remove_at ?k frames))"
      using remove_at_mset [OF k] by simp
    have sub: "mset (remove_at ?k frames) \<subseteq># mset frames" by (simp add: ms)
    note ih = "1.IH" [OF True refl]
    show ?thesis
      unfolding eq using ih sorted_remove_at [OF k] k True sub
      by (auto simp: ms reference_def intro: subset_mset.order_trans)
  next
    case False
    then have eq: "enforce_loop frames broken = (frames, broken)" by (subst enforce_loop.simps) simp
    show ?thesis unfolding eq using False by simp
  qed
qed

section \<open>The invariant\<close>

definition jitter_ok :: "jitter_buffer \<Rightarrow> bool" where
  "jitter_ok j \<longleftrightarrow> queue_sorted (jb_frames j) \<and> length (jb_frames j) \<le> MAX_BUFFERED_FRAMES \<and>
     (\<forall>e. jb_last_emitted_pts_us j = Some e \<longrightarrow> (\<forall>b \<in> set (jb_frames j). e \<le> bf_pts b)) \<and>
     MIN_TARGET_US \<le> jb_adaptive_target_us j \<and> jb_adaptive_target_us j \<le> MAX_TARGET_US \<and>
     length (jb_transit_samples_us j) \<le> SAMPLE_WINDOW \<and> length (jb_decode_times_us j) \<le> SAMPLE_WINDOW"

lemma desired_target_bounds: "MIN_TARGET_US \<le> desired_target_us j \<and> desired_target_us j \<le> MAX_TARGET_US"
  unfolding desired_target_us_def Let_def by (rule clamp_nat_bounds) (simp add: jitter_constants)

lemma update_target_fields [simp]:
  "jb_frames (update_target j) = jb_frames j"
  "jb_last_emitted_pts_us (update_target j) = jb_last_emitted_pts_us j"
  "jb_transit_samples_us (update_target j) = jb_transit_samples_us j"
  "jb_decode_times_us (update_target j) = jb_decode_times_us j"
  "jb_fixed_target_us (update_target j) = jb_fixed_target_us j"
  by (simp_all add: update_target_def Let_def)

lemma update_target_bounds:
  assumes "MIN_TARGET_US \<le> jb_adaptive_target_us j" "jb_adaptive_target_us j \<le> MAX_TARGET_US"
  shows "MIN_TARGET_US \<le> jb_adaptive_target_us (update_target j)"
    "jb_adaptive_target_us (update_target j) \<le> MAX_TARGET_US"
    "jb_adaptive_target_us j \<le> jb_adaptive_target_us (update_target j) + 1000"
  using assms desired_target_bounds [of j] by (auto simp: update_target_def Let_def)

lemma length_push_bounded: "length xs \<le> SAMPLE_WINDOW \<Longrightarrow> length (push_bounded xs v) \<le> SAMPLE_WINDOW"
  by (auto simp: push_bounded_def jitter_constants)

lemma observe_arrival_fields [simp]:
  "jb_frames (observe_arrival p t j) = jb_frames j"
  "jb_last_emitted_pts_us (observe_arrival p t j) = jb_last_emitted_pts_us j"
  "jb_decode_times_us (observe_arrival p t j) = jb_decode_times_us j"
  "jb_fixed_target_us (observe_arrival p t j) = jb_fixed_target_us j"
  by (simp_all add: observe_arrival_def Let_def)

lemma observe_arrival_ok: "jitter_ok j \<Longrightarrow> jitter_ok (observe_arrival p t j)"
  using update_target_bounds by (auto simp: jitter_ok_def observe_arrival_def Let_def length_push_bounded)

lemma push_at_cases:
  assumes "push_at f a b j = (j', out)"
  obtains (late) e where "jb_last_emitted_pts_us j = Some e" "jf_pts_us f \<le> e" "j' = j"
      "out = DroppedLate (\<not> jf_discardable f)"
    | (queued) k broken where "\<forall>e. jb_last_emitted_pts_us j = Some e \<longrightarrow> e < jf_pts_us f"
      "k = (case position (\<lambda>b. bf_pts b > jf_pts_us f) (jb_frames j) of
              None \<Rightarrow> length (jb_frames j) | Some k \<Rightarrow> k)"
      "j' = (observe_arrival (jf_pts_us f) b j) \<lparr> jb_frames := fst (enforce_loop (insert_at k
          \<lparr> bf_frame = f, bf_first_fragment_at_us = a, bf_completed_at_us = b \<rparr> (jb_frames j)) False) \<rparr>"
      "broken = snd (enforce_loop (insert_at k
          \<lparr> bf_frame = f, bf_first_fragment_at_us = a, bf_completed_at_us = b \<rparr> (jb_frames j)) False)"
      "out = (if broken then AcceptedAfterReferenceDrop else Accepted)"
  using assms
  by (auto simp: push_at_def Let_def enforce_limits_def case_prod_beta not_le split: option.splits if_splits)

lemma push_at_ok:
  assumes ok: "jitter_ok j" and push: "push_at f a b j = (j', out)"
  shows "jitter_ok j'"
  using push
proof (cases rule: push_at_cases)
  case late
  with ok show ?thesis by simp
next
  case (queued k broken)
  let ?x = "\<lparr> bf_frame = f, bf_first_fragment_at_us = a, bf_completed_at_us = b \<rparr>"
  let ?q = "insert_at k ?x (jb_frames j)"
  note loop = enforce_loop_spec [of ?q False]
  have "queue_sorted ?q"
    using insert_sorted [of "jb_frames j" k ?x] queued(2) ok by (simp add: jitter_ok_def)
  moreover have "set (fst (enforce_loop ?q False)) \<subseteq> insert ?x (set (jb_frames j))"
    using loop set_mset_mono by (metis set_insert_at set_mset_mset)
  ultimately show ?thesis
    using ok observe_arrival_ok [OF ok, of "jf_pts_us f" b] queued(1,3) loop
    by (auto simp: jitter_ok_def)
qed

text \<open>The operations of the buffer as one datatype, their run, and the frames it emits.\<close>

datatype jitter_op =
    Push jitter_frame nat nat
  | Pop nat
  | DropExpired nat nat
  | ObserveDecode nat
  | TakeStats
  | SetFixed "nat option"

fun jitter_apply :: "jitter_op \<Rightarrow> jitter_buffer \<Rightarrow> jitter_buffer \<times> jitter_frame option" where
  "jitter_apply (Push f a b) j = (fst (push_at f a b j), None)"
| "jitter_apply (Pop now) j = pop_ready now j"
| "jitter_apply (DropExpired now age) j = (fst (drop_expired now age j), None)"
| "jitter_apply (ObserveDecode d) j = (observe_decode_time_us d j, None)"
| "jitter_apply TakeStats j = (fst (take_timing_stats j), None)"
| "jitter_apply (SetFixed t) j = (set_fixed_target_ms t j, None)"

fun jitter_run :: "jitter_op list \<Rightarrow> jitter_buffer \<Rightarrow> jitter_buffer \<times> jitter_frame list" where
  "jitter_run [] j = (j, [])"
| "jitter_run (p # ps) j =
     (let (j1, out) = jitter_apply p j; (j2, outs) = jitter_run ps j1
      in (j2, (case out of None \<Rightarrow> outs | Some f \<Rightarrow> f # outs)))"

lemma pop_ready_cases:
  obtains (none) "pop_ready now j = (j, None)"
    | (some) b rest j' where "jb_frames j = b # rest" "decode_release_at_us j (bf_pts b) \<le> now"
      "pop_ready now j = (j', Some (bf_frame b))" "jb_frames j' = rest"
      "jb_last_emitted_pts_us j' = Some (bf_pts b)"
      "jb_adaptive_target_us j' = jb_adaptive_target_us j"
      "jb_transit_samples_us j' = jb_transit_samples_us j" "jb_decode_times_us j' = jb_decode_times_us j"
proof (cases "jb_frames j")
  case Nil
  then show thesis using none by (simp add: pop_ready_def)
next
  case (Cons b rest)
  then show thesis
    using none some [of b rest "fst (pop_ready now j)"]
    by (cases "now < decode_release_at_us j (bf_pts b)") (simp_all add: pop_ready_def)
qed

lemma sorted_filter_queue: "queue_sorted xs \<Longrightarrow> queue_sorted (filter P xs)"
  by (induction xs) auto

lemma jitter_apply_ok:
  assumes ok: "jitter_ok j"
  shows "jitter_ok (fst (jitter_apply p j))"
proof (cases p)
  case (Push f a b)
  then show ?thesis using push_at_ok [OF ok, of f a b] by (cases "push_at f a b j") simp
next
  case (Pop now)
  then show ?thesis
    using ok by (cases j rule: pop_ready_cases [of now]) (auto simp: jitter_ok_def)
next
  case (DropExpired now age)
  then show ?thesis
    using ok by (auto simp: drop_expired_def Let_def jitter_ok_def sorted_filter_queue
        intro: order_trans [OF length_filter_le])
next
  case (ObserveDecode d)
  then show ?thesis
    using ok update_target_bounds [of "j \<lparr> jb_decode_times_us := push_bounded (jb_decode_times_us j)
        (min d MAX_OBSERVED_DECODE_US) \<rparr>"]
    by (auto simp: jitter_ok_def observe_decode_time_us_def length_push_bounded)
qed (use ok in \<open>simp_all add: jitter_ok_def take_timing_stats_def set_fixed_target_ms_def Let_def\<close>)

lemma jitter_new_ok: "jitter_ok jitter_new"
  by (simp add: jitter_ok_def jitter_new_def jitter_constants)

lemma jitter_run_ok: "jitter_ok j \<Longrightarrow> jitter_ok (fst (jitter_run ps j))"
proof (induction ps arbitrary: j)
  case (Cons p ps)
  then show ?case using jitter_apply_ok [of j p] by (auto simp: case_prod_beta Let_def)
qed simp

text \<open>The playout clock never moves back.\<close>

lemma jitter_apply_emits:
  assumes ok: "jitter_ok j" and step: "jitter_apply p j = (j', out)"
  shows "(\<forall>f. out = Some f \<longrightarrow> jb_last_emitted_pts_us j' = Some (jf_pts_us f)) \<and>
    (out = None \<longrightarrow> jb_last_emitted_pts_us j' = jb_last_emitted_pts_us j) \<and>
    (\<forall>e f. jb_last_emitted_pts_us j = Some e \<longrightarrow> out = Some f \<longrightarrow> e \<le> jf_pts_us f)"
proof (cases p)
  case (Push f a b)
  obtain j1 o1 where push: "push_at f a b j = (j1, o1)" by force
  then show ?thesis by (cases rule: push_at_cases) (use Push step push in auto)
next
  case (Pop now)
  then show ?thesis
    using ok step by (cases j rule: pop_ready_cases [of now]) (auto simp: jitter_ok_def)
qed (use step in \<open>auto simp: drop_expired_def observe_decode_time_us_def take_timing_stats_def
    set_fixed_target_ms_def Let_def split: if_splits\<close>)

lemma jitter_run_sorted:
  assumes "jitter_ok j"
  shows "sorted (map jf_pts_us (snd (jitter_run ps j))) \<and>
    (\<forall>e. jb_last_emitted_pts_us j = Some e \<longrightarrow> (\<forall>f \<in> set (snd (jitter_run ps j)). e \<le> jf_pts_us f))"
  using assms
proof (induction ps arbitrary: j)
  case (Cons p ps)
  obtain j1 out where st: "jitter_apply p j = (j1, out)" by force
  have "jitter_ok j1" using jitter_apply_ok [OF Cons.prems, of p] st by simp
  note ih = Cons.IH [OF this] and em = jitter_apply_emits [OF Cons.prems st]
  show ?case
  proof (cases out)
    case None
    then show ?thesis using ih em st by (simp add: case_prod_beta Let_def)
  next
    case (Some f)
    then show ?thesis using ih em st by (auto simp: case_prod_beta Let_def dest: order_trans)
  qed
qed simp

text \<open>The clock of the buffer is the time of the frame emitted last.\<close>

lemma jitter_run_last:
  assumes "jitter_ok j"
  shows "jb_last_emitted_pts_us (fst (jitter_run ps j)) =
    (if snd (jitter_run ps j) = [] then jb_last_emitted_pts_us j else Some (jf_pts_us (last (snd (jitter_run ps j)))))"
  using assms
proof (induction ps arbitrary: j)
  case (Cons p ps)
  obtain j1 out where st: "jitter_apply p j = (j1, out)" by force
  have "jitter_ok j1" using jitter_apply_ok [OF Cons.prems, of p] st by simp
  from Cons.IH [OF this] jitter_apply_emits [OF Cons.prems st] show ?case
    by (cases out) (simp_all add: case_prod_beta Let_def st)
qed simp

lemma sorted_le_last: "sorted xs \<Longrightarrow> x \<in> set xs \<Longrightarrow> x \<le> last xs" for x :: nat
  by (induction xs) auto

text \<open>What leaves the queue, or stays in it, was pushed.\<close>

fun pushed_frames :: "jitter_op list \<Rightarrow> jitter_frame list" where
  "pushed_frames (Push f a b # ps) = f # pushed_frames ps"
| "pushed_frames (_ # ps) = pushed_frames ps"
| "pushed_frames [] = []"

definition queued_frames :: "jitter_buffer \<Rightarrow> jitter_frame multiset" where
  "queued_frames j = mset (map bf_frame (jb_frames j))"

lemma push_at_frames: "queued_frames (fst (push_at f a b j)) \<subseteq># add_mset f (queued_frames j)"
proof -
  obtain j' out where push: "push_at f a b j = (j', out)" by force
  then show ?thesis
  proof (cases rule: push_at_cases)
    case late
    with push show ?thesis by simp
  next
    case (queued k broken)
    let ?q = "insert_at k \<lparr> bf_frame = f, bf_first_fragment_at_us = a, bf_completed_at_us = b \<rparr> (jb_frames j)"
    have "image_mset bf_frame (mset (fst (enforce_loop ?q False))) \<subseteq># image_mset bf_frame (mset ?q)"
      using enforce_loop_spec [of ?q False] by (intro image_mset_subseteq_mono) blast
    with push queued(3) show ?thesis by (simp add: queued_frames_def)
  qed
qed

lemma jitter_apply_frames:
  assumes "jitter_apply p j = (j', out)"
  shows "mset (case out of None \<Rightarrow> [] | Some f \<Rightarrow> [f]) + queued_frames j' \<subseteq># mset (pushed_frames [p]) + queued_frames j"
proof (cases p)
  case (Push f a b)
  then show ?thesis using assms push_at_frames [of f a b j] by auto
next
  case (Pop now)
  then show ?thesis
    using assms by (cases j rule: pop_ready_cases [of now]) (auto simp: queued_frames_def)
next
  case (DropExpired now age)
  have "image_mset bf_frame (mset (filter P xs)) \<subseteq># image_mset bf_frame (mset xs)" for P xs
    by (intro image_mset_subseteq_mono) simp
  then show ?thesis
    using assms DropExpired by (auto simp: drop_expired_def queued_frames_def Let_def simp del: mset_filter split: if_splits)
qed (use assms in \<open>auto simp: queued_frames_def observe_decode_time_us_def take_timing_stats_def
    set_fixed_target_ms_def Let_def\<close>)

lemma pushed_frames_Cons: "pushed_frames (p # ps) = pushed_frames [p] @ pushed_frames ps"
  by (cases p) simp_all

lemma jitter_run_frames:
  "mset (snd (jitter_run ps j)) + queued_frames (fst (jitter_run ps j)) \<subseteq># mset (pushed_frames ps) + queued_frames j"
proof (induction ps arbitrary: j)
  case (Cons p ps)
  obtain j1 out where st: "jitter_apply p j = (j1, out)" by force
  let ?o = "mset (case out of None \<Rightarrow> [] | Some f \<Rightarrow> [f])" and ?P = "mset (pushed_frames [p])" and ?Q = "mset (pushed_frames ps)"
  let ?r = "mset (snd (jitter_run ps j1)) + queued_frames (fst (jitter_run ps j1))"
  have "?o + ?r \<subseteq># ?o + (?Q + queued_frames j1)" using Cons.IH [of j1] by (intro subset_mset.add_left_mono)
  also have "\<dots> = ?Q + (?o + queued_frames j1)" by (simp add: ac_simps)
  also have "\<dots> \<subseteq># ?Q + (?P + queued_frames j)" using jitter_apply_frames [OF st] by (intro subset_mset.add_left_mono)
  also have "\<dots> = mset (pushed_frames (p # ps)) + queued_frames j"
    by (subst pushed_frames_Cons) (simp add: ac_simps)
  finally show ?case by (cases out) (simp_all add: st case_prod_beta Let_def)
qed simp

section \<open>Properties\<close>

text \<open>C19: playout order. Whatever is pushed, popped, expired or measured between two clearings of the
  buffer, the frames it emits carry non-decreasing presentation times and are, with those still
  queued, frames that were pushed, each at most as often as it was pushed; a frame at or before the time of
  one already emitted is refused without touching the buffer. The queue is ordered and holds at most
  sixteen frames, and the adaptive target stays between 16 and 80 milliseconds.\<close>

theorem jitter_emits_in_order:
  assumes "jitter_run ps jitter_new = (j, emitted)"
  shows "sorted (map jf_pts_us emitted) \<and>
    mset emitted + mset (map bf_frame (jb_frames j)) \<subseteq># mset (pushed_frames ps) \<and>
    (\<forall>f \<in> set emitted. \<forall>g a b. jf_pts_us g \<le> jf_pts_us f \<longrightarrow> push_at g a b j = (j, DroppedLate (\<not> jf_discardable g))) \<and>
    queue_sorted (jb_frames j) \<and> length (jb_frames j) \<le> 16 \<and>
    16000 \<le> jb_adaptive_target_us j \<and> jb_adaptive_target_us j \<le> 80000"
proof -
  have j: "j = fst (jitter_run ps jitter_new)" and e: "emitted = snd (jitter_run ps jitter_new)" using assms by simp_all
  have s: "sorted (map jf_pts_us emitted)" unfolding e using jitter_run_sorted [OF jitter_new_ok] by blast
  have "push_at g a b j = (j, DroppedLate (\<not> jf_discardable g))"
    if "f \<in> set emitted" "jf_pts_us g \<le> jf_pts_us f" for f g a b
  proof -
    have "jf_pts_us g \<le> jf_pts_us (last emitted)"
      using sorted_le_last [OF s, of "jf_pts_us f"] that by (cases "emitted = []") (auto simp: last_map)
    moreover have "jb_last_emitted_pts_us j = Some (jf_pts_us (last emitted))"
      using jitter_run_last [OF jitter_new_ok, of ps] that(1) by (auto simp: j e split: if_splits)
    ultimately show ?thesis by (simp add: push_at_def)
  qed
  then show ?thesis
    using s jitter_run_frames [of ps jitter_new] jitter_run_ok [OF jitter_new_ok, of ps]
    by (auto simp: j e jitter_ok_def jitter_constants jitter_new_def queued_frames_def)
qed

definition sample_frame :: "nat \<Rightarrow> nat \<Rightarrow> jitter_frame" where
  "sample_frame frame_id pts_us = \<lparr> jf_stream_generation = 1, jf_frame_id = frame_id, jf_pts_us = pts_us,
     jf_encoded_at_us = 0, jf_received_at_us = 0, jf_data = [], jf_keyframe = False, jf_discardable = False \<rparr>"

text \<open>Two frames pushed in the wrong order leave in the right one; a frame as old as the last of them is late.\<close>

theorem jitter_emits_in_order_witness:
  "snd (jitter_run [Push (sample_frame 2 40) 0 90, Push (sample_frame 1 20) 0 95, Pop 100000, Pop 100000] jitter_new) =
     [sample_frame 1 20, sample_frame 2 40] \<and>
   push_at (sample_frame 3 40) 0 99 (fst (jitter_run [Push (sample_frame 2 40) 0 90, Push (sample_frame 1 20) 0 95,
     Pop 100000, Pop 100000] jitter_new)) =
     (fst (jitter_run [Push (sample_frame 2 40) 0 90, Push (sample_frame 1 20) 0 95, Pop 100000, Pop 100000] jitter_new),
      DroppedLate True)"
proof -
  let ?ps = "[Push (sample_frame 2 40) 0 90, Push (sample_frame 1 20) 0 95, Pop 100000, Pop 100000]"
  have emitted: "snd (jitter_run ?ps jitter_new) = [sample_frame 1 20, sample_frame 2 40]"
    by (simp add: sample_frame_def jitter_new_def push_at_def observe_arrival_def update_target_def push_bounded_def
        min_sample_def enforce_limits_def enforce_loop.simps position_def insert_at_def jitter_constants pop_ready_def
        decode_release_at_us_def target_us_def decode_budget_us_def percentile_def mapped_time_us_def
        sat_add_def u64_max_eval)
  have "jitter_run ?ps jitter_new = (fst (jitter_run ?ps jitter_new), [sample_frame 1 20, sample_frame 2 40])"
    using emitted by (metis prod.collapse)
  from jitter_emits_in_order [OF this]
  have "push_at (sample_frame 3 40) 0 99 (fst (jitter_run ?ps jitter_new)) =
      (fst (jitter_run ?ps jitter_new), DroppedLate True)"
    by (simp add: sample_frame_def)
  with emitted show ?thesis by blast
qed

text \<open>No silent loss of a reference frame. A push that does not report a reference drop leaves
  in the queue every non-discardable frame that was there and the pushed one; a late push is refused
  without touching the queue and asks for a refresh exactly when the frame was a reference.\<close>

lemma push_reports_reference_loss:
  "case push_at f a b j of
     (j', Accepted) \<Rightarrow> filter_mset reference (mset (jb_frames j')) =
        filter_mset reference (add_mset \<lparr> bf_frame = f, bf_first_fragment_at_us = a, bf_completed_at_us = b \<rparr>
          (mset (jb_frames j)))
   | (j', DroppedLate refresh) \<Rightarrow> j' = j \<and> refresh = (\<not> jf_discardable f)
   | (j', AcceptedAfterReferenceDrop) \<Rightarrow> length (jb_frames j) \<ge> 16"
proof -
  obtain j' out where push: "push_at f a b j = (j', out)" by force
  then show ?thesis
  proof (cases rule: push_at_cases)
    case late
    with push show ?thesis by simp
  next
    case (queued k broken)
    with push show ?thesis
      using enforce_loop_spec [of "insert_at k \<lparr> bf_frame = f, bf_first_fragment_at_us = a, bf_completed_at_us = b \<rparr>
        (jb_frames j)" False]
      by (auto simp: jitter_constants)
  qed
qed

text \<open>Expiry reports reference loss exactly: \<open>drop_expired\<close> returns true if and only if a
  non-discardable frame left the queue.\<close>

lemma drop_expired_reports_reference_loss:
  "snd (drop_expired now age j) \<longleftrightarrow>
     filter_mset reference (mset (jb_frames (fst (drop_expired now age j)))) \<noteq> filter_mset reference (mset (jb_frames j))"
proof -
  have "filter_mset reference (mset (filter (\<lambda>b. \<not> expired now g b) xs)) \<noteq> filter_mset reference (mset xs) \<longleftrightarrow>
      list_ex (\<lambda>b. expired now g b \<and> reference b) xs" for g xs
  proof -
    let ?E = "filter (\<lambda>b. expired now g b) xs" and ?K = "filter (\<lambda>b. \<not> expired now g b) xs"
    have "mset xs = mset ?E + mset ?K"
      unfolding mset_filter by (rule multiset_partition)
    then have "filter_mset reference (mset xs) = filter_mset reference (mset ?E) + filter_mset reference (mset ?K)"
      by (metis filter_union_mset)
    then have "filter_mset reference (mset ?K) \<noteq> filter_mset reference (mset xs) \<longleftrightarrow>
        filter_mset reference (mset ?E) \<noteq> {#}" by auto
    also have "\<dots> \<longleftrightarrow> filter reference ?E \<noteq> []" by (simp only: mset_filter [symmetric] mset_zero_iff)
    also have "\<dots> \<longleftrightarrow> list_ex (\<lambda>b. expired now g b \<and> reference b) xs"
      by (auto simp: filter_empty_conv list_ex_iff)
    finally show ?thesis .
  qed
  then show ?thesis by (simp add: drop_expired_def Let_def reference_def)
qed

text \<open>The wake-up delay is exact: the buffer emits a frame \<open>t\<close> microseconds from now if and
  only if \<open>t\<close> is at least \<open>next_release_delay_us\<close>, and never while the queue is empty.\<close>

lemma release_delay_exact:
  "case next_release_delay_us now j of
     None \<Rightarrow> jb_frames j = [] \<and> snd (pop_ready (now + t) j) = None
   | Some d \<Rightarrow> (snd (pop_ready (now + t) j) \<noteq> None) = (d \<le> t)"
  by (cases "jb_frames j") (auto simp: next_release_delay_us_def pop_ready_def)

end
