(* ===== verification/Session_State.thy ===== *)
theory Session_State
  imports Prelude
begin

text \<open>
  Runtime state shared by sender and receiver, user-visible statuses and the reconnect backoff:
  \<open>crates/picoo-session/src/runtime_state.rs\<close> and \<open>crates/picoo-session/src/lib.rs\<close>; and the
  interface that both lifecycle reducers implement.
\<close>

section \<open>Orthogonal runtime state\<close>

datatype connection_state = ConnIdle | ConnListening | ConnConnecting | ConnConnected nat | ConnReconnecting nat
datatype trust_state = TrustUnknown | TrustPairing | TrustAuthenticated | TrustRejected
datatype stream_state = StreamIdle | StreamNegotiating | StreamAwaitingRefresh nat | StreamStreaming nat | StreamStopping
datatype output_state = OutputReady | OutputPermissionRequired | OutputVirtualCameraUnavailable
datatype health_flag = HealthHealthy | HealthNetworkDegraded

fun is_streaming :: "stream_state \<Rightarrow> bool" where
  "is_streaming (StreamStreaming g) = True"
| "is_streaming (StreamAwaitingRefresh g) = True"
| "is_streaming StreamIdle = False"
| "is_streaming StreamNegotiating = False"
| "is_streaming StreamStopping = False"

record session_runtime_state =
  rt_connection :: connection_state
  rt_trust :: trust_state
  rt_stream :: stream_state
  rt_output :: output_state
  rt_health :: health_flag

definition runtime_default :: session_runtime_state where
  "runtime_default = \<lparr> rt_connection = ConnIdle, rt_trust = TrustUnknown, rt_stream = StreamIdle,
     rt_output = OutputReady, rt_health = HealthHealthy \<rparr>"

definition set_connection :: "connection_state \<Rightarrow> session_runtime_state \<Rightarrow> session_runtime_state" where
  "set_connection c rt = rt \<lparr> rt_connection := c \<rparr>"
definition set_trust :: "trust_state \<Rightarrow> session_runtime_state \<Rightarrow> session_runtime_state" where
  "set_trust t rt = rt \<lparr> rt_trust := t \<rparr>"
definition set_stream :: "stream_state \<Rightarrow> session_runtime_state \<Rightarrow> session_runtime_state" where
  "set_stream s rt = rt \<lparr> rt_stream := s \<rparr>"
definition set_output :: "output_state \<Rightarrow> session_runtime_state \<Rightarrow> session_runtime_state" where
  "set_output out rt = rt \<lparr> rt_output := out \<rparr>"
definition set_health :: "health_flag \<Rightarrow> session_runtime_state \<Rightarrow> session_runtime_state" where
  "set_health h rt = rt \<lparr> rt_health := h \<rparr>"

definition reset_session :: "connection_state \<Rightarrow> session_runtime_state \<Rightarrow> session_runtime_state" where
  "reset_session c rt = rt \<lparr> rt_connection := c, rt_trust := TrustUnknown, rt_stream := StreamIdle,
     rt_health := HealthHealthy \<rparr>"

section \<open>Statuses\<close>

datatype receiver_status =
    RxDiscovering | RxPairing | RxConnecting | RxNegotiating | RxStreaming | RxReconnecting
  | RxDisconnected | RxPermissionRequired | RxVirtualCameraUnavailable | RxNetworkUnstable

fun receiver_label :: "receiver_status \<Rightarrow> string" where
  "receiver_label RxDiscovering = ''Discovering''"
| "receiver_label RxPairing = ''Pairing''"
| "receiver_label RxConnecting = ''Connecting''"
| "receiver_label RxNegotiating = ''Negotiating''"
| "receiver_label RxStreaming = ''Streaming''"
| "receiver_label RxReconnecting = ''Reconnecting''"
| "receiver_label RxDisconnected = ''Disconnected''"
| "receiver_label RxPermissionRequired = ''Permission Required''"
| "receiver_label RxVirtualCameraUnavailable = ''Virtual Camera Unavailable''"
| "receiver_label RxNetworkUnstable = ''Network Unstable''"

datatype sender_status =
    TxDisconnected | TxDiscovering | TxPairing | TxConnecting | TxNegotiating | TxStreaming
  | TxReconnecting | TxPermissionRequired | TxNetworkUnstable

definition sender_status_all :: "sender_status list" where
  "sender_status_all = [TxDisconnected, TxDiscovering, TxPairing, TxConnecting, TxNegotiating, TxStreaming,
     TxReconnecting, TxPermissionRequired, TxNetworkUnstable]"

fun sender_label :: "sender_status \<Rightarrow> string" where
  "sender_label TxDiscovering = ''Discovering''"
| "sender_label TxPairing = ''Pairing''"
| "sender_label TxConnecting = ''Connecting''"
| "sender_label TxNegotiating = ''Negotiating''"
| "sender_label TxStreaming = ''Streaming''"
| "sender_label TxReconnecting = ''Reconnecting''"
| "sender_label TxDisconnected = ''Disconnected''"
| "sender_label TxPermissionRequired = ''Permission Required''"
| "sender_label TxNetworkUnstable = ''Network Unstable''"

fun sender_code :: "sender_status \<Rightarrow> int" where
  "sender_code TxDisconnected = 0"
| "sender_code TxDiscovering = 1"
| "sender_code TxPairing = 2"
| "sender_code TxConnecting = 3"
| "sender_code TxNegotiating = 4"
| "sender_code TxStreaming = 5"
| "sender_code TxReconnecting = 6"
| "sender_code TxPermissionRequired = 7"
| "sender_code TxNetworkUnstable = 8"

definition connected_receiver_status :: "session_runtime_state \<Rightarrow> receiver_status" where
  "connected_receiver_status rt =
     (if rt_trust rt = TrustPairing then RxPairing
      else if rt_stream rt = StreamNegotiating then RxNegotiating
      else if is_streaming (rt_stream rt) \<and> rt_trust rt = TrustAuthenticated
      then (if rt_health rt = HealthNetworkDegraded then RxNetworkUnstable else RxStreaming)
      else RxConnecting)"

definition receiver_status_of :: "session_runtime_state \<Rightarrow> receiver_status" where
  "receiver_status_of rt =
     (if rt_output rt = OutputPermissionRequired then RxPermissionRequired
      else
        (case rt_connection rt of
           ConnIdle \<Rightarrow> if rt_output rt = OutputVirtualCameraUnavailable then RxVirtualCameraUnavailable
                       else RxDisconnected
         | ConnListening \<Rightarrow> if rt_output rt = OutputVirtualCameraUnavailable then RxVirtualCameraUnavailable
                            else RxDiscovering
         | ConnConnecting \<Rightarrow> RxConnecting
         | ConnReconnecting n \<Rightarrow> RxReconnecting
         | ConnConnected g \<Rightarrow> connected_receiver_status rt))"

definition connected_sender_status :: "session_runtime_state \<Rightarrow> sender_status" where
  "connected_sender_status rt =
     (if rt_trust rt = TrustPairing then TxPairing
      else if rt_stream rt = StreamNegotiating then TxNegotiating
      else if is_streaming (rt_stream rt) \<and> rt_trust rt = TrustAuthenticated
      then (if rt_health rt = HealthNetworkDegraded then TxNetworkUnstable else TxStreaming)
      else TxConnecting)"

definition sender_status_of :: "session_runtime_state \<Rightarrow> sender_status" where
  "sender_status_of rt =
     (if rt_output rt = OutputPermissionRequired then TxPermissionRequired
      else
        (case rt_connection rt of
           ConnIdle \<Rightarrow> TxDisconnected
         | ConnListening \<Rightarrow> TxDiscovering
         | ConnConnecting \<Rightarrow> TxConnecting
         | ConnReconnecting n \<Rightarrow> TxReconnecting
         | ConnConnected g \<Rightarrow> connected_sender_status rt))"

section \<open>Reconnect backoff\<close>

record reconnect_backoff = rb_attempt :: nat

definition backoff_default :: reconnect_backoff where "backoff_default = \<lparr> rb_attempt = 0 \<rparr>"

text \<open>\<open>self.attempt += 1\<close> overflows after \<open>2 ^ 32 - 1\<close> attempts without a reset.\<close>

definition next_delay_ms :: "reconnect_backoff \<Rightarrow> (reconnect_backoff \<times> nat, unit) result" where
  "next_delay_ms b =
     (let delay = (if rb_attempt b = 0 then 500 else if rb_attempt b = 1 then 1000
                   else if rb_attempt b = 2 then 2000 else 5000)
      in if rb_attempt b = u32_max then Panic
         else Ok (b \<lparr> rb_attempt := rb_attempt b + 1 \<rparr>, delay))"

definition backoff_reset :: "reconnect_backoff \<Rightarrow> reconnect_backoff" where
  "backoff_reset b = b \<lparr> rb_attempt := 0 \<rparr>"

section \<open>Effects of a reducer\<close>

text \<open>A fixed inline set of three optional effects; \<open>effect_items\<close> iterates over the present ones.\<close>

type_synonym 'f effects = "'f option list"

definition effects_none :: "'f effects" where "effects_none = [None, None, None]"
definition effects_one :: "'f \<Rightarrow> 'f effects" where "effects_one a = [Some a, None, None]"
definition effects_two :: "'f \<Rightarrow> 'f \<Rightarrow> 'f effects" where "effects_two a b = [Some a, Some b, None]"
definition effects_three :: "'f \<Rightarrow> 'f \<Rightarrow> 'f \<Rightarrow> 'f effects" where
  "effects_three a b c = [Some a, Some b, Some c]"
definition effects_contains :: "'f \<Rightarrow> 'f effects \<Rightarrow> bool" where
  "effects_contains e es \<longleftrightarrow> Some e \<in> set es"
definition effect_items :: "'f effects \<Rightarrow> 'f list" where
  "effect_items es = concat (map (\<lambda>x. case x of None \<Rightarrow> [] | Some v \<Rightarrow> [v]) es)"

lemmas effects_defs = effects_none_def effects_one_def effects_two_def effects_three_def

lemma effect_items_simps [simp]:
  "effect_items effects_none = []" "effect_items (effects_one a) = [a]"
  "effect_items (effects_two a b) = [a, b]" "effect_items (effects_three a b c) = [a, b, c]"
  by (simp_all add: effects_defs effect_items_def)

lemma effects_contains_items: "effects_contains e es \<longleftrightarrow> e \<in> set (effect_items es)"
  by (force simp: effects_contains_def effect_items_def split: option.splits)

section \<open>The contract of a lifecycle reducer\<close>

text \<open>\<open>run_events\<close> feeds a list of events to a reducer and collects the effects it emits, in order.\<close>

fun run_events :: "('s \<Rightarrow> 'e \<Rightarrow> 's \<times> 'f effects) \<Rightarrow> 'e list \<Rightarrow> 's \<Rightarrow> 's \<times> 'f list" where
  "run_events reduce [] s = (s, [])"
| "run_events reduce (e # es) s =
     (let (s1, out) = reduce s e; (s2, outs) = run_events reduce es s1 in (s2, effect_items out @ outs))"

text \<open>
  \<open>gate\<close> is the connection generation an event is addressed to and \<open>routed\<close> the generations a state
  answers to; \<open>released\<close> recognises the effects that release the resources of a session. A reducer
  ignores events of other generations, activates only the generation a transport connected, and
  never leaves an active generation without releasing it.
\<close>

locale lifecycle =
  fixes reduce :: "'s \<Rightarrow> 'e \<Rightarrow> 's \<times> 'f effects"
    and init :: 's
    and active :: "'s \<Rightarrow> nat option"
    and connection :: "'s \<Rightarrow> connection_state"
    and routed :: "'s \<Rightarrow> nat set"
    and gate :: "'e \<Rightarrow> nat option"
    and opens :: "'e \<Rightarrow> nat option"
    and released :: "'f \<Rightarrow> bool"
    and ok :: "'s \<Rightarrow> bool"
  assumes init_ok: "ok init"
    and reduce_ok: "ok s \<Longrightarrow> ok (fst (reduce s e))"
    and init_idle: "active init = None"
    and connected_iff: "ok s \<Longrightarrow> active s = Some g \<longleftrightarrow> connection s = ConnConnected g"
    and stale: "ok s \<Longrightarrow> gate e = Some g \<Longrightarrow> g \<notin> routed s \<Longrightarrow> reduce s e = (s, effects_none)"
    and activates: "ok s \<Longrightarrow> active (fst (reduce s e)) = Some g \<Longrightarrow> active s = Some g \<or> opens e = Some g"
    and leaves: "ok s \<Longrightarrow> active s = Some g \<Longrightarrow> active (fst (reduce s e)) \<noteq> Some g \<Longrightarrow>
       \<exists>f \<in> set (effect_items (snd (reduce s e))). released f"
begin

lemma run_ok: "ok s \<Longrightarrow> ok (fst (run_events reduce es s))"
proof (induction es arbitrary: s)
  case (Cons e es)
  then show ?case using reduce_ok [of s e] by (auto simp: case_prod_beta Let_def)
qed simp

lemma run_connected: "active (fst (run_events reduce es init)) = Some g \<longleftrightarrow> connection (fst (run_events reduce es init)) = ConnConnected g"
  by (rule connected_iff [OF run_ok [OF init_ok]])

lemma run_activated:
  "ok s \<Longrightarrow> active (fst (run_events reduce es s)) = Some g \<Longrightarrow> active s = Some g \<or> (\<exists>e \<in> set es. opens e = Some g)"
proof (induction es arbitrary: s)
  case (Cons e es)
  then show ?case
    using Cons.IH [of "fst (reduce s e)"] reduce_ok [of s e] activates [of s e g]
    by (auto simp: case_prod_beta Let_def)
qed simp

lemma run_released:
  "ok s \<Longrightarrow> active s = Some g \<Longrightarrow> active (fst (run_events reduce es s)) \<noteq> Some g \<Longrightarrow> \<exists>f \<in> set (snd (run_events reduce es s)). released f"
proof (induction es arbitrary: s)
  case (Cons e es)
  show ?case
  proof (cases "active (fst (reduce s e)) = Some g")
    case True
    then show ?thesis
      using Cons.IH [of "fst (reduce s e)"] Cons.prems reduce_ok [of s e] by (auto simp: case_prod_beta Let_def)
  next
    case False
    then show ?thesis using leaves [OF Cons.prems(1,2)] by (auto simp: case_prod_beta Let_def)
  qed
qed simp

text \<open>Events of generations the state does not answer to may be dropped from any run.\<close>

lemma run_stale:
  "ok s \<Longrightarrow> \<forall>e \<in> set es. \<exists>g. gate e = Some g \<and> g \<notin> routed s \<Longrightarrow> run_events reduce es s = (s, [])"
proof (induction es)
  case (Cons e es)
  then obtain g where "gate e = Some g" "g \<notin> routed s" by auto
  with Cons stale [of s e g] show ?case by simp
qed simp

lemma run_append: "run_events reduce (es @ es') s = (fst (run_events reduce es' (fst (run_events reduce es s))), snd (run_events reduce es s) @ snd (run_events reduce es' (fst (run_events reduce es s))))"
  by (induction es arbitrary: s) (auto simp: case_prod_beta Let_def)

lemma run_drop_stale:
  assumes "\<forall>e \<in> set mid. \<exists>g. gate e = Some g \<and> g \<notin> routed (fst (run_events reduce es init))"
  shows "run_events reduce (es @ mid @ es') init = run_events reduce (es @ es') init"
  using run_stale [OF run_ok [OF init_ok] assms] by (simp add: run_append)

end

section \<open>Properties\<close>

text \<open>What the user sees. The streaming statuses are shown exactly for a connected, authenticated
  session whose stream is running and whose output has permission; sender and receiver agree on them.\<close>

lemma streaming_status_iff:
  "(receiver_status_of rt = RxStreaming \<or> receiver_status_of rt = RxNetworkUnstable) =
     (rt_output rt \<noteq> OutputPermissionRequired \<and> (\<exists>g. rt_connection rt = ConnConnected g) \<and>
      rt_trust rt = TrustAuthenticated \<and> is_streaming (rt_stream rt)) \<and>
   (receiver_status_of rt = RxStreaming) = (sender_status_of rt = TxStreaming) \<and>
   (receiver_status_of rt = RxNetworkUnstable) = (sender_status_of rt = TxNetworkUnstable)"
  by (cases "rt_connection rt"; cases "rt_stream rt")
    (auto simp: receiver_status_of_def sender_status_of_def connected_receiver_status_def connected_sender_status_def)

text \<open>The stable status codes are a bijection onto 0 to 8 in the order of \<open>ALL\<close>.\<close>

lemma sender_codes_stable:
  "map sender_code sender_status_all = map int [0 ..< 9] \<and> set sender_status_all = UNIV \<and>
   inj sender_code \<and> inj sender_label"
proof -
  have "inj sender_code" by (rule injI) (rename_tac a b, case_tac a; case_tac b; simp)
  moreover have "inj sender_label" by (rule injI) (rename_tac a b, case_tac a; case_tac b; simp)
  moreover have "x \<in> set sender_status_all" for x by (cases x) (simp_all add: sender_status_all_def)
  moreover have "map sender_code sender_status_all = map int [0 ..< 9]"
    by (simp add: sender_status_all_def upt_conv_Cons)
  ultimately show ?thesis by blast
qed

end
