(* ===== verification/Receiver_Reducer.thy ===== *)
theory Receiver_Reducer
  imports Session_State
begin

text \<open>
  The receiver's lifecycle reducer: \<open>crates/picoo-receiver/src/session/reducer.rs\<close>.
\<close>

record receiver_reducer_state =
  rx_runtime :: session_runtime_state
  rx_active_generation :: "nat option"
  rx_resources_active :: bool
  rx_listening :: bool
  rx_disconnect_hold_pending :: bool

definition receiver_default :: receiver_reducer_state where
  "receiver_default = \<lparr> rx_runtime = runtime_default, rx_active_generation = None, rx_resources_active = True,
     rx_listening = False, rx_disconnect_hold_pending = False \<rparr>"

datatype receiver_close_reason =
  CloseLocal | CloseInvalidControl | CloseDecoderUnavailable | ClosePairingExpired | ClosePairingRejected
  | ClosePublicKeyChanged

datatype receiver_event =
    ListenerStarted
  | RxTransportConnected nat
  | RxTransportDisconnected nat bool \<comment> \<open>generation, \<open>retain_frame\<close>\<close>
  | RxControlReceived nat
  | RxVideoReceived nat
  | StopStream nat
  | AbortConnection nat receiver_close_reason
  | UserClose
  | DisconnectHoldElapsed

datatype receiver_effect =
    RxPrepareConnection
  | RxAcceptControl
  | RxAcceptVideo
  | RxResetSessionResources
  | CloseActiveTransport receiver_close_reason
  | ScheduleDisconnectHold
  | PublishWaitingPlaceholder
  | PublishReconnectingPlaceholder

definition reset_to_available_idle :: "receiver_reducer_state \<Rightarrow> receiver_reducer_state" where
  "reset_to_available_idle s =
     (let connection = (if rx_listening s then ConnListening else ConnIdle)
      in s \<lparr> rx_runtime := reset_session connection (rx_runtime s) \<rparr>)"

fun receiver_reduce ::
  "receiver_reducer_state \<Rightarrow> receiver_event \<Rightarrow> receiver_reducer_state \<times> receiver_effect effects" where
  "receiver_reduce s ListenerStarted =
     (let s1 = s \<lparr> rx_listening := True, rx_runtime := set_output OutputReady (rx_runtime s) \<rparr>
      in (if rx_active_generation s1 = None
          then s1 \<lparr> rx_runtime := set_connection ConnListening (rx_runtime s1) \<rparr> else s1, effects_none))"
| "receiver_reduce s (RxTransportConnected generation) =
     (s \<lparr> rx_active_generation := Some generation, rx_resources_active := True,
          rx_disconnect_hold_pending := False,
          rx_runtime := reset_session (ConnConnected generation) (rx_runtime s) \<rparr>,
      effects_one RxPrepareConnection)"
| "receiver_reduce s (RxControlReceived generation) =
     (if rx_active_generation s = Some generation then (s, effects_one RxAcceptControl) else (s, effects_none))"
| "receiver_reduce s (RxVideoReceived generation) =
     (if rx_active_generation s = Some generation then (s, effects_one RxAcceptVideo) else (s, effects_none))"
| "receiver_reduce s (RxTransportDisconnected generation retain_frame) =
     (if rx_active_generation s = Some generation
      then
        let s1 = s \<lparr> rx_active_generation := None, rx_resources_active := False \<rparr>
        in if retain_frame
           then (s1 \<lparr> rx_disconnect_hold_pending := True,
                      rx_runtime := reset_session (ConnReconnecting 1) (rx_runtime s1) \<rparr>,
                 effects_two RxResetSessionResources ScheduleDisconnectHold)
           else (reset_to_available_idle (s1 \<lparr> rx_disconnect_hold_pending := False \<rparr>),
                 effects_two RxResetSessionResources PublishWaitingPlaceholder)
      else (s, effects_none))"
| "receiver_reduce s (StopStream generation) =
     (if rx_active_generation s = Some generation
      then (reset_to_available_idle (s \<lparr> rx_active_generation := None, rx_resources_active := False,
                                         rx_disconnect_hold_pending := False \<rparr>),
            effects_three RxResetSessionResources (CloseActiveTransport CloseLocal) PublishWaitingPlaceholder)
      else (s, effects_none))"
| "receiver_reduce s (AbortConnection generation reason) =
     (if rx_active_generation s = Some generation
      then (reset_to_available_idle (s \<lparr> rx_active_generation := None, rx_resources_active := False,
                                         rx_disconnect_hold_pending := False \<rparr>),
            effects_three RxResetSessionResources (CloseActiveTransport reason) PublishWaitingPlaceholder)
      else (s, effects_none))"
| "receiver_reduce s UserClose =
     (if rx_resources_active s \<or> rx_active_generation s \<noteq> None \<or> rx_disconnect_hold_pending s
      then (s \<lparr> rx_active_generation := None, rx_resources_active := False, rx_listening := False,
                rx_disconnect_hold_pending := False, rx_runtime := runtime_default \<rparr>,
            effects_three RxResetSessionResources (CloseActiveTransport CloseLocal) PublishWaitingPlaceholder)
      else (s, effects_none))"
| "receiver_reduce s DisconnectHoldElapsed =
     (if rx_disconnect_hold_pending s
      then (reset_to_available_idle (s \<lparr> rx_disconnect_hold_pending := False \<rparr>),
            effects_one PublishReconnectingPlaceholder)
      else (s, effects_none))"

section \<open>The reducer keeps the lifecycle contract\<close>

definition rx_connection :: "receiver_reducer_state \<Rightarrow> connection_state" where
  "rx_connection s = rt_connection (rx_runtime s)"

definition rx_routed :: "receiver_reducer_state \<Rightarrow> nat set" where
  "rx_routed s = set_option (rx_active_generation s)"

fun rx_gate :: "receiver_event \<Rightarrow> nat option" where
  "rx_gate (RxTransportDisconnected g r) = Some g"
| "rx_gate (RxControlReceived g) = Some g"
| "rx_gate (RxVideoReceived g) = Some g"
| "rx_gate (StopStream g) = Some g"
| "rx_gate (AbortConnection g r) = Some g"
| "rx_gate ListenerStarted = None"
| "rx_gate (RxTransportConnected g) = None"
| "rx_gate UserClose = None"
| "rx_gate DisconnectHoldElapsed = None"

fun rx_opens :: "receiver_event \<Rightarrow> nat option" where
  "rx_opens (RxTransportConnected g) = Some g"
| "rx_opens (RxTransportDisconnected g r) = None"
| "rx_opens (RxControlReceived g) = None"
| "rx_opens (RxVideoReceived g) = None"
| "rx_opens (StopStream g) = None"
| "rx_opens (AbortConnection g r) = None"
| "rx_opens ListenerStarted = None"
| "rx_opens UserClose = None"
| "rx_opens DisconnectHoldElapsed = None"

text \<open>A receiver is released by a reset, or by preparing the connection that supersedes it.\<close>

definition rx_released :: "receiver_effect \<Rightarrow> bool" where
  "rx_released f \<longleftrightarrow> f = RxResetSessionResources \<or> f = RxPrepareConnection"

definition rx_ok :: "receiver_reducer_state \<Rightarrow> bool" where
  "rx_ok s \<longleftrightarrow> (\<forall>g. rx_active_generation s = Some g \<longleftrightarrow> rx_connection s = ConnConnected g) \<and>
     (rx_active_generation s \<noteq> None \<longrightarrow> rx_resources_active s \<and> \<not> rx_disconnect_hold_pending s)"

lemmas rx_defs = rx_ok_def rx_connection_def reset_session_def set_connection_def set_output_def
  reset_to_available_idle_def runtime_default_def Let_def

lemma rx_reduce_ok: "rx_ok s \<Longrightarrow> rx_ok (fst (receiver_reduce s e))"
  by (cases e) (auto simp: rx_defs)

interpretation rx: lifecycle receiver_reduce receiver_default rx_active_generation rx_connection rx_routed
  rx_gate rx_opens rx_released rx_ok
proof unfold_locales
  show "rx_ok receiver_default" by (simp add: rx_defs receiver_default_def)
  show "rx_ok (fst (receiver_reduce s e))" if "rx_ok s" for s e using rx_reduce_ok [OF that] .
  show "rx_active_generation receiver_default = None" by (simp add: receiver_default_def)
  show "rx_active_generation s = Some g \<longleftrightarrow> rx_connection s = ConnConnected g" if "rx_ok s" for s g
    using that by (simp add: rx_ok_def)
  show "receiver_reduce s e = (s, effects_none)" if "rx_ok s" "rx_gate e = Some g" "g \<notin> rx_routed s" for s e g
    using that by (cases e) (auto simp: rx_routed_def)
  show "rx_active_generation s = Some g \<or> rx_opens e = Some g"
    if "rx_ok s" "rx_active_generation (fst (receiver_reduce s e)) = Some g" for s e g
    using that by (cases e) (auto simp: rx_defs split: if_splits)
  show "\<exists>f \<in> set (effect_items (snd (receiver_reduce s e))). rx_released f"
    if "rx_ok s" "rx_active_generation s = Some g" "rx_active_generation (fst (receiver_reduce s e)) \<noteq> Some g" for s e g
    using that by (cases e) (auto simp: rx_defs rx_released_def split: if_splits)
qed

section \<open>Properties\<close>

text \<open>Events of other connection generations are dead. Any block of control, video, disconnect,
  stop and abort events addressed to generations other than the active one can be dropped from any
  run of the receiver without changing its final state or the effects it emits.\<close>

lemma receiver_stale_events_dropped:
  assumes "\<forall>e \<in> set mid. \<exists>g. rx_gate e = Some g \<and> g \<notin> rx_routed (fst (run_events receiver_reduce es receiver_default))"
  shows "run_events receiver_reduce (es @ mid @ es') receiver_default =
    run_events receiver_reduce (es @ es') receiver_default"
  by (rule rx.run_drop_stale [OF assms])

text \<open>A session of the receiver never ends silently. If a generation is active at some point of a
  run and not at a later point, the effects in between contain a reset of the session's resources or
  the preparation of the connection that replaces it.\<close>

lemma receiver_session_released:
  assumes "rx_active_generation (fst (run_events receiver_reduce es receiver_default)) = Some g"
    and "rx_active_generation (fst (run_events receiver_reduce (es @ later) receiver_default)) \<noteq> Some g"
  shows "\<exists>f \<in> set (snd (run_events receiver_reduce later (fst (run_events receiver_reduce es receiver_default)))).
    f = RxResetSessionResources \<or> f = RxPrepareConnection"
  using rx.run_released [OF rx.run_ok [OF rx.init_ok] assms(1), of later] assms(2)
  by (simp add: rx.run_append rx_released_def)

text \<open>The receiver reports itself connected exactly while a generation is active, that generation
  was opened by a transport of the run, and while it is active its resources are held and no
  disconnect hold is pending. Closing twice is idempotent and silent.\<close>

lemma receiver_connected_consistent:
  "(rx_connection (fst (run_events receiver_reduce es receiver_default)) = ConnConnected g) =
     (rx_active_generation (fst (run_events receiver_reduce es receiver_default)) = Some g \<and>
      g \<in> set (List.map_filter rx_opens es) \<and>
      rx_resources_active (fst (run_events receiver_reduce es receiver_default)) \<and>
      \<not> rx_disconnect_hold_pending (fst (run_events receiver_reduce es receiver_default))) \<and>
   receiver_reduce (fst (receiver_reduce s UserClose)) UserClose =
     (fst (receiver_reduce s UserClose), effects_none)"
proof -
  let ?s = "fst (run_events receiver_reduce es receiver_default)"
  have ok: "rx_ok ?s" by (rule rx.run_ok [OF rx.init_ok])
  have "g \<in> set (List.map_filter rx_opens es) \<and> rx_resources_active ?s \<and> \<not> rx_disconnect_hold_pending ?s"
    if act: "rx_active_generation ?s = Some g"
  proof -
    have "\<exists>e \<in> set es. rx_opens e = Some g"
      using rx.run_activated [OF rx.init_ok act] rx.init_idle by simp
    then show ?thesis using act ok by (force simp: rx_ok_def map_filter_def)
  qed
  then show ?thesis using rx.run_connected [of es g] by (auto simp: Let_def)
qed

end
