(* ===== verification/Sender_Reducer.thy ===== *)
theory Sender_Reducer
  imports Session_State
begin

text \<open>
  The sender's lifecycle reducer: \<open>crates/picoo-sender/src/session/reducer.rs\<close>. The effects container is
  the one of \<open>Session_State\<close>; the model shows the same lifecycle contract as the receiver's and that an
  abandoned connection is not reconnected behind the user's back.
\<close>

record sender_reducer_state =
  tx_runtime :: session_runtime_state
  tx_active_generation :: "nat option"
  tx_pending_generation :: "nat option"
  tx_resources_active :: bool
  tx_reconnect_enabled :: bool
  tx_reconnect_pending :: bool

definition sender_default :: sender_reducer_state where
  "sender_default = \<lparr> tx_runtime = runtime_default, tx_active_generation = None, tx_pending_generation = None,
     tx_resources_active = False, tx_reconnect_enabled = True, tx_reconnect_pending = False \<rparr>"

datatype sender_event =
    ConnectRequested
  | TransportConnectStarted nat
  | ExplicitConnectFailed
  | TxTransportConnected nat
  | TxControlReceived nat
  | TxTransportDisconnected nat bool \<comment> \<open>generation, \<open>endpoint_available\<close>\<close>
  | AuthenticationRejected nat
  | UserDisconnect bool \<comment> \<open>\<open>domain_resources_active\<close>\<close>
  | ReconnectPolicyChanged bool
  | ReconnectArmed nat
  | ReconnectDeadlineElapsed
  | ReconnectConnectFailed

datatype sender_effect =
    TxAcceptControl
  | TxResetSessionResources
  | CloseTransport nat
  | TxPrepareConnection nat
  | ScheduleReconnect
  | StartReconnect
  | DisableReconnect
  | ClearConnectionIntent

text \<open>\<open>state.active_generation.take().or_else(|| state.pending_generation.take())\<close>: the second slot is only
  emptied when the first was empty.\<close>

definition take_generation :: "sender_reducer_state \<Rightarrow> sender_reducer_state \<times> nat option" where
  "take_generation s =
     (case tx_active_generation s of
        Some g \<Rightarrow> (s \<lparr> tx_active_generation := None \<rparr>, Some g)
      | None \<Rightarrow> (s \<lparr> tx_pending_generation := None \<rparr>, tx_pending_generation s))"

fun sender_reduce ::
  "sender_reducer_state \<Rightarrow> sender_event \<Rightarrow> sender_reducer_state \<times> sender_effect effects" where
  "sender_reduce s ConnectRequested =
     (let (s1, previous_generation) = take_generation s
      in (s1 \<lparr> tx_resources_active := True, tx_reconnect_enabled := True, tx_reconnect_pending := False,
               tx_runtime := reset_session ConnConnecting (tx_runtime s1) \<rparr>,
          case previous_generation of
            Some generation \<Rightarrow> effects_two TxResetSessionResources (CloseTransport generation)
          | None \<Rightarrow> effects_none))"
| "sender_reduce s (TransportConnectStarted generation) =
     (if rt_connection (tx_runtime s) = ConnConnecting \<and> tx_active_generation s = None
      then (s \<lparr> tx_pending_generation := Some generation \<rparr>, effects_none) else (s, effects_none))"
| "sender_reduce s ExplicitConnectFailed =
     (if tx_active_generation s = None \<and> rt_connection (tx_runtime s) = ConnConnecting
      then (s \<lparr> tx_resources_active := False, tx_reconnect_enabled := False, tx_pending_generation := None,
                tx_runtime := runtime_default \<rparr>,
            effects_one ClearConnectionIntent)
      else (s, effects_none))"
| "sender_reduce s (TxTransportConnected generation) =
     (if rt_connection (tx_runtime s) = ConnConnecting \<and> tx_pending_generation s = Some generation
      then (s \<lparr> tx_pending_generation := None, tx_active_generation := Some generation,
                tx_resources_active := True, tx_reconnect_pending := False,
                tx_runtime := reset_session (ConnConnected generation) (tx_runtime s) \<rparr>,
            effects_one (TxPrepareConnection generation))
      else (s, effects_none))"
| "sender_reduce s (TxControlReceived generation) =
     (if tx_active_generation s = Some generation then (s, effects_one TxAcceptControl) else (s, effects_none))"
| "sender_reduce s (TxTransportDisconnected generation endpoint_available) =
     (if tx_active_generation s = Some generation \<or> tx_pending_generation s = Some generation
      then (s \<lparr> tx_active_generation := None, tx_pending_generation := None, tx_resources_active := False,
                tx_runtime := runtime_default \<rparr>,
            if tx_reconnect_enabled s \<and> endpoint_available
            then effects_two TxResetSessionResources ScheduleReconnect
            else effects_one TxResetSessionResources)
      else (s, effects_none))"
| "sender_reduce s (AuthenticationRejected generation) =
     (if tx_active_generation s = Some generation
      then (s \<lparr> tx_active_generation := None, tx_pending_generation := None, tx_resources_active := False,
                tx_reconnect_enabled := False, tx_reconnect_pending := False, tx_runtime := runtime_default \<rparr>,
            effects_three TxResetSessionResources (CloseTransport generation) DisableReconnect)
      else (s, effects_none))"
| "sender_reduce s (UserDisconnect domain_resources_active) =
     (if tx_resources_active s \<or> tx_active_generation s \<noteq> None \<or> tx_reconnect_pending s \<or> domain_resources_active
      then
        let (s1, previous_generation) = take_generation s
        in (s1 \<lparr> tx_resources_active := False, tx_reconnect_enabled := False, tx_reconnect_pending := False,
                 tx_runtime := runtime_default \<rparr>,
            case previous_generation of
              Some generation \<Rightarrow> effects_three TxResetSessionResources (CloseTransport generation) ClearConnectionIntent
            | None \<Rightarrow> effects_two TxResetSessionResources ClearConnectionIntent)
      else (s, effects_none))"
| "sender_reduce s (ReconnectPolicyChanged enabled) =
     (let s1 = s \<lparr> tx_reconnect_enabled := enabled \<rparr>
      in (if \<not> enabled \<and> tx_reconnect_pending s1
          then s1 \<lparr> tx_reconnect_pending := False, tx_runtime := runtime_default \<rparr> else s1,
          effects_none))"
| "sender_reduce s (ReconnectArmed attempt) =
     (if tx_reconnect_enabled s \<and> tx_active_generation s = None
      then (s \<lparr> tx_reconnect_pending := True,
                tx_runtime := reset_session (ConnReconnecting attempt) (tx_runtime s) \<rparr>, effects_none)
      else (s, effects_none))"
| "sender_reduce s ReconnectDeadlineElapsed =
     (if tx_reconnect_pending s
      then (s \<lparr> tx_reconnect_pending := False, tx_resources_active := True,
                tx_runtime := reset_session ConnConnecting (tx_runtime s) \<rparr>, effects_one StartReconnect)
      else (s, effects_none))"
| "sender_reduce s ReconnectConnectFailed =
     (if tx_active_generation s = None \<and>
         (case rt_connection (tx_runtime s) of
            ConnConnecting \<Rightarrow> True | ConnReconnecting n \<Rightarrow> True
          | ConnIdle \<Rightarrow> False | ConnListening \<Rightarrow> False | ConnConnected g \<Rightarrow> False)
      then (s \<lparr> tx_resources_active := False, tx_pending_generation := None, tx_runtime := runtime_default \<rparr>,
            if tx_reconnect_enabled s then effects_one ScheduleReconnect else effects_none)
      else (s, effects_none))"

section \<open>The reducer keeps the lifecycle contract\<close>

definition tx_connection :: "sender_reducer_state \<Rightarrow> connection_state" where
  "tx_connection s = rt_connection (tx_runtime s)"

definition tx_routed :: "sender_reducer_state \<Rightarrow> nat set" where
  "tx_routed s = set_option (tx_active_generation s) \<union> set_option (tx_pending_generation s)"

fun tx_gate :: "sender_event \<Rightarrow> nat option" where
  "tx_gate (TxTransportConnected g) = Some g"
| "tx_gate (TxControlReceived g) = Some g"
| "tx_gate (TxTransportDisconnected g a) = Some g"
| "tx_gate (AuthenticationRejected g) = Some g"
| "tx_gate ConnectRequested = None"
| "tx_gate (TransportConnectStarted g) = None"
| "tx_gate ExplicitConnectFailed = None"
| "tx_gate (UserDisconnect b) = None"
| "tx_gate (ReconnectPolicyChanged b) = None"
| "tx_gate (ReconnectArmed n) = None"
| "tx_gate ReconnectDeadlineElapsed = None"
| "tx_gate ReconnectConnectFailed = None"

definition tx_opens :: "sender_event \<Rightarrow> nat option" where
  "tx_opens e = (case e of TxTransportConnected g \<Rightarrow> Some g | _ \<Rightarrow> None)"

definition tx_released :: "sender_effect \<Rightarrow> bool" where
  "tx_released f \<longleftrightarrow> f = TxResetSessionResources"

definition tx_ok :: "sender_reducer_state \<Rightarrow> bool" where
  "tx_ok s \<longleftrightarrow> (\<forall>g. tx_active_generation s = Some g \<longleftrightarrow> tx_connection s = ConnConnected g) \<and>
     (tx_active_generation s \<noteq> None \<longrightarrow>
        tx_pending_generation s = None \<and> tx_resources_active s \<and> \<not> tx_reconnect_pending s) \<and>
     (tx_reconnect_pending s \<longrightarrow> tx_reconnect_enabled s \<and> tx_connection s \<noteq> ConnConnecting)"

lemmas tx_defs = tx_ok_def tx_connection_def reset_session_def runtime_default_def take_generation_def
  Let_def

lemma tx_reduce_ok: "tx_ok s \<Longrightarrow> tx_ok (fst (sender_reduce s e))"
  by (cases e) (auto simp: tx_defs split: option.splits connection_state.splits)

interpretation tx: lifecycle sender_reduce sender_default tx_active_generation tx_connection tx_routed
  tx_gate tx_opens tx_released tx_ok
proof unfold_locales
  show "tx_ok sender_default" by (simp add: tx_defs sender_default_def)
  show "tx_ok (fst (sender_reduce s e))" if "tx_ok s" for s e using tx_reduce_ok [OF that] .
  show "tx_active_generation sender_default = None" by (simp add: sender_default_def)
  show "tx_active_generation s = Some g \<longleftrightarrow> tx_connection s = ConnConnected g" if "tx_ok s" for s g
    using that by (simp add: tx_ok_def)
  show "sender_reduce s e = (s, effects_none)" if "tx_ok s" "tx_gate e = Some g" "g \<notin> tx_routed s" for s e g
    using that by (cases e) (auto simp: tx_routed_def)
  show "tx_active_generation s = Some g \<or> tx_opens e = Some g"
    if "tx_ok s" "tx_active_generation (fst (sender_reduce s e)) = Some g" for s e g
    using that by (cases e) (auto simp: tx_defs tx_opens_def split: if_splits option.splits)
  show "\<exists>f \<in> set (effect_items (snd (sender_reduce s e))). tx_released f"
    if "tx_ok s" "tx_active_generation s = Some g" "tx_active_generation (fst (sender_reduce s e)) \<noteq> Some g" for s e g
    using that by (cases e) (auto simp: tx_defs tx_released_def split: if_splits option.splits)
qed

section \<open>Reconnection\<close>

text \<open>Effects that dial again without the user, and the events that allow it.\<close>

definition redials :: "sender_effect \<Rightarrow> bool" where
  "redials f \<longleftrightarrow> f = ScheduleReconnect \<or> f = StartReconnect"

definition allows_redial :: "sender_event \<Rightarrow> bool" where
  "allows_redial e \<longleftrightarrow> e = ConnectRequested \<or> e = ReconnectPolicyChanged True"

definition abandons :: "sender_effect \<Rightarrow> bool" where
  "abandons f \<longleftrightarrow> f = DisableReconnect \<or> f = ClearConnectionIntent"

lemma abandon_disables:
  "tx_ok s \<Longrightarrow> f \<in> set (effect_items (snd (sender_reduce s e))) \<Longrightarrow> abandons f \<Longrightarrow>
   \<not> tx_reconnect_enabled (fst (sender_reduce s e))"
  by (cases e) (auto simp: tx_defs abandons_def split: if_splits option.splits)

lemma disabled_step:
  "tx_ok s \<Longrightarrow> \<not> tx_reconnect_enabled s \<Longrightarrow> \<not> allows_redial e \<Longrightarrow>
   \<not> tx_reconnect_enabled (fst (sender_reduce s e)) \<and> (\<forall>f \<in> set (effect_items (snd (sender_reduce s e))). \<not> redials f)"
  by (cases e) (auto simp: tx_defs redials_def allows_redial_def split: if_splits option.splits)

lemma disabled_run:
  "tx_ok s \<Longrightarrow> \<not> tx_reconnect_enabled s \<Longrightarrow> \<forall>e \<in> set es. \<not> allows_redial e \<Longrightarrow>
   \<forall>f \<in> set (snd (run_events sender_reduce es s)). \<not> redials f"
proof (induction es arbitrary: s)
  case (Cons e es)
  have "\<not> allows_redial e" "\<forall>e \<in> set es. \<not> allows_redial e" using Cons.prems(3) by auto
  then show ?case
    using Cons.IH [OF tx_reduce_ok [OF Cons.prems(1), of e]] disabled_step [OF Cons.prems(1,2), of e]
    by (auto simp: case_prod_beta Let_def)
qed simp

section \<open>Properties\<close>

text \<open>Transport events of generations the sender neither uses nor dials are dead: dropping them from
  any run leaves the final state and the effects unchanged.\<close>

lemma sender_stale_events_dropped:
  assumes "\<forall>e \<in> set mid. \<exists>g. tx_gate e = Some g \<and> g \<notin> tx_routed (fst (run_events sender_reduce es sender_default))"
  shows "run_events sender_reduce (es @ mid @ es') sender_default =
    run_events sender_reduce (es @ es') sender_default"
  by (rule tx.run_drop_stale [OF assms])

text \<open>A session of the sender never ends silently: between a point where a generation is active and a
  later point where it is not, a reset of the session's resources is emitted.\<close>

lemma sender_session_released:
  assumes "tx_active_generation (fst (run_events sender_reduce es sender_default)) = Some g"
    and "tx_active_generation (fst (run_events sender_reduce (es @ later) sender_default)) \<noteq> Some g"
  shows "TxResetSessionResources \<in> set (snd (run_events sender_reduce later (fst (run_events sender_reduce es sender_default))))"
  using tx.run_released [OF tx.run_ok [OF tx.init_ok] assms(1), of later] assms(2)
  by (auto simp: tx.run_append tx_released_def)

text \<open>C20: an abandoned connection is not redialled. Once an event of the run has disabled reconnecting or
  cleared the connection intent (a rejected authentication, a failed explicit connect, a user
  disconnect), no later event schedules or starts a reconnect unless the user connects again or turns
  the reconnect policy on.\<close>

theorem sender_never_redials_abandoned:
  assumes "f \<in> set (effect_items (snd (sender_reduce (fst (run_events sender_reduce es sender_default)) e)))"
    and "abandons f" and "\<forall>e' \<in> set later. \<not> allows_redial e'"
  shows "{ScheduleReconnect, StartReconnect} \<inter>
    set (snd (run_events sender_reduce later (fst (run_events sender_reduce (es @ [e]) sender_default)))) = {}"
proof -
  let ?s = "fst (run_events sender_reduce es sender_default)"
  have ok: "tx_ok ?s" by (rule tx.run_ok [OF tx.init_ok])
  have "fst (run_events sender_reduce (es @ [e]) sender_default) = fst (sender_reduce ?s e)"
    by (simp add: tx.run_append case_prod_beta Let_def)
  then show ?thesis
    using disabled_run [OF tx_reduce_ok [OF ok, of e] abandon_disables [OF ok assms(1,2)] assms(3)]
    by (auto simp: redials_def)
qed

theorem sender_never_redials_abandoned_witness:
  "{ScheduleReconnect, StartReconnect} \<inter>
     set (snd (run_events sender_reduce [TxTransportDisconnected 4 True, ReconnectArmed 1, ReconnectDeadlineElapsed]
       (fst (run_events sender_reduce ([ConnectRequested, TransportConnectStarted 4, TxTransportConnected 4]
          @ [AuthenticationRejected 4]) sender_default)))) = {}"
  by (rule sender_never_redials_abandoned [where f = DisableReconnect])
    (simp_all add: sender_default_def tx_defs abandons_def allows_redial_def)

end
