(* ===== verification/Sender_Schedule.thy ===== *)
theory Sender_Schedule
  imports Video_Fec "HOL-Library.Multiset"
begin

text \<open>
  The transmission order of an access unit's datagrams: \<open>schedule_fec_datagrams\<close> of
  \<open>crates/picoo-sender/src/lib.rs\<close>. The code takes datagrams out of two arrays of options; the lemmas show
  that every datagram is taken exactly once and give the order in closed form.
\<close>

section \<open>The scheduler\<close>

datatype slot = DataSlot nat | ParitySlot nat

definition SLOTS :: "slot list" where
  "SLOTS = [DataSlot 0, DataSlot 1, DataSlot 2, DataSlot 3, DataSlot 4, DataSlot 5, ParitySlot 0, ParitySlot 1]"

record schedule_state =
  ss_data :: "bytes option list"
  ss_parity :: "bytes option list list"
  ss_scheduled :: "bytes list"

definition emit :: "bytes option \<Rightarrow> schedule_state \<Rightarrow> schedule_state" where
  "emit packet st = (case packet of None \<Rightarrow> st | Some p \<Rightarrow> st \<lparr> ss_scheduled := ss_scheduled st @ [p] \<rparr>)"

text \<open>One turn of the inner loop; \<open>data[index]\<close> panics out of bounds, the parity lookups do not.\<close>

definition schedule_step :: "slot \<times> nat \<times> u16_range \<Rightarrow> schedule_state \<Rightarrow> (schedule_state, unit) result" where
  "schedule_step = (\<lambda>(slot, group_index, r) st.
     (case slot of
        DataSlot offset \<Rightarrow>
          let index = fst r + offset
          in if index < snd r
             then if index < length (ss_data st)
                  then Ok (emit (ss_data st ! index) (st \<lparr> ss_data := (ss_data st)[index := None] \<rparr>))
                  else Panic
             else Ok st
      | ParitySlot index \<Rightarrow>
          if group_index < length (ss_parity st) \<and> index < length (ss_parity st ! group_index)
          then Ok (emit (ss_parity st ! group_index ! index)
                 (st \<lparr> ss_parity := (ss_parity st)[group_index := (ss_parity st ! group_index)[index := None]] \<rparr>))
          else Ok st))"

definition turns :: "u16_range list \<Rightarrow> (slot \<times> nat \<times> u16_range) list" where
  "turns groups = concat (map (\<lambda>slot. map (\<lambda>(i, r). (slot, i, r)) (enumerate 0 groups)) SLOTS)"

definition schedule_fec_datagrams ::
  "bytes list \<Rightarrow> bytes list list \<Rightarrow> u16_range list \<Rightarrow> (bytes list, unit) result" where
  "schedule_fec_datagrams data_datagrams parity_datagrams_by_group groups =
     rbind (rfold schedule_step (turns groups)
              \<lparr> ss_data = map Some data_datagrams, ss_parity = map (map Some) parity_datagrams_by_group,
                ss_scheduled = [] \<rparr>)
       (\<lambda>st. Ok (ss_scheduled st))"

section \<open>Every datagram once\<close>

text \<open>The cell a turn takes its datagram from, if any, and what a pair of arrays holds there.\<close>

fun cell_of :: "nat list \<Rightarrow> slot \<times> nat \<times> u16_range \<Rightarrow> slot option \<times> nat" where
  "cell_of ps (DataSlot k, gi, r) = (if fst r + k < snd r then Some (DataSlot (fst r + k)) else None, 0)"
| "cell_of ps (ParitySlot k, gi, r) = (if gi < length ps \<and> k < ps ! gi then Some (ParitySlot k) else None, gi)"

definition cells :: "nat list \<Rightarrow> (slot \<times> nat \<times> u16_range) list \<Rightarrow> (slot \<times> nat) list" where
  "cells ps ts = List.map_filter (\<lambda>t. case cell_of ps t of (None, i) \<Rightarrow> None | (Some s, i) \<Rightarrow> Some (s, i)) ts"

fun content :: "bytes list \<Rightarrow> bytes list list \<Rightarrow> slot \<times> nat \<Rightarrow> bytes" where
  "content ds ps (DataSlot i, g) = ds ! i"
| "content ds ps (ParitySlot i, g) = ps ! g ! i"

fun holds_cell :: "bytes list \<Rightarrow> bytes list list \<Rightarrow> schedule_state \<Rightarrow> slot \<times> nat \<Rightarrow> bool" where
  "holds_cell ds ps st (DataSlot i, g) \<longleftrightarrow> i < length (ss_data st) \<and> ss_data st ! i = Some (ds ! i) \<and> g = 0"
| "holds_cell ds ps st (ParitySlot i, g) \<longleftrightarrow> g < length (ss_parity st) \<and> i < length (ss_parity st ! g) \<and>
     ss_parity st ! g ! i = Some (ps ! g ! i)"

lemma cells_simps [simp]:
  "cells ps [] = []"
  "cells ps (t # ts) = (case cell_of ps t of (None, i) \<Rightarrow> cells ps ts | (Some s, i) \<Rightarrow> (s, i) # cells ps ts)"
  by (simp_all add: cells_def map_filter_simps split: prod.splits option.splits)

lemma cells_append [simp]: "cells ps (ts @ us) = cells ps ts @ cells ps us"
  by (simp add: cells_def map_filter_def)

lemma schedule_step_cell:
  assumes "map length (ss_parity st) = shape"
    and "\<And>s i. cell_of shape t = (Some s, i) \<Longrightarrow> holds_cell ds ps st (s, i)"
  obtains st' where "schedule_step t st = Ok st'" "map length (ss_parity st') = shape"
    "ss_scheduled st' = ss_scheduled st @ (case cell_of shape t of (None, i) \<Rightarrow> [] | (Some s, i) \<Rightarrow> [content ds ps (s, i)])"
    "\<And>c. holds_cell ds ps st c \<Longrightarrow> (case cell_of shape t of (None, i) \<Rightarrow> True | (Some s, i) \<Rightarrow> c \<noteq> (s, i)) \<Longrightarrow>
       holds_cell ds ps st' c"
proof -
  obtain sl gi r where t: "t = (sl, gi, r)" by (cases t)
  show thesis
  proof (cases sl)
    case (DataSlot k)
    show thesis
    proof (cases "fst r + k < snd r")
      case True
      then have h: "fst r + k < length (ss_data st)" "ss_data st ! (fst r + k) = Some (ds ! (fst r + k))"
        using assms(2) t DataSlot by auto
      let ?st = "st \<lparr> ss_data := (ss_data st)[fst r + k := None],
        ss_scheduled := ss_scheduled st @ [ds ! (fst r + k)] \<rparr>"
      have "holds_cell ds ps ?st c" if "holds_cell ds ps st c" "c \<noteq> (DataSlot (fst r + k), 0)" for c
        using that by (cases "(ds, ps, st, c)" rule: holds_cell.cases) auto
      then show thesis
        using that [of ?st] h True assms(1) t DataSlot by (simp add: schedule_step_def emit_def Let_def)
    next
      case False
      then show thesis using that [of st] assms(1) t DataSlot by (simp add: schedule_step_def Let_def)
    qed
  next
    case (ParitySlot k)
    have shape: "gi < length shape \<and> k < shape ! gi \<longleftrightarrow> gi < length (ss_parity st) \<and> k < length (ss_parity st ! gi)"
      using assms(1) by auto
    show thesis
    proof (cases "gi < length shape \<and> k < shape ! gi")
      case True
      then have h: "ss_parity st ! gi ! k = Some (ps ! gi ! k)" using assms(2) t ParitySlot by auto
      let ?st = "st \<lparr> ss_parity := (ss_parity st)[gi := (ss_parity st ! gi)[k := None]],
        ss_scheduled := ss_scheduled st @ [ps ! gi ! k] \<rparr>"
      have "holds_cell ds ps ?st c" if "holds_cell ds ps st c" "c \<noteq> (ParitySlot k, gi)" for c
        using that True shape
        by (cases "(ds, ps, st, c)" rule: holds_cell.cases) (auto simp: nth_list_update)
      moreover have "map length (ss_parity ?st) = shape"
        using assms(1) True shape by (auto simp: map_update list_update_same_conv)
      ultimately show thesis
        using that [of ?st] h True shape t ParitySlot by (simp add: schedule_step_def emit_def Let_def)
    next
      case False
      then show thesis using that [of st] assms(1) shape t ParitySlot by (auto simp: schedule_step_def)
    qed
  qed
qed

lemma schedule_fold:
  assumes "map length (ss_parity st) = shape" "distinct (cells shape ts)"
    and "\<forall>c \<in> set (cells shape ts). holds_cell ds ps st c"
  shows "\<exists>st'. rfold schedule_step ts st = Ok st' \<and>
    ss_scheduled st' = ss_scheduled st @ map (content ds ps) (cells shape ts)"
  using assms
proof (induction ts arbitrary: st)
  case (Cons t ts)
  obtain st1 where st1: "schedule_step t st = Ok st1" "map length (ss_parity st1) = shape"
      "ss_scheduled st1 = ss_scheduled st @ (case cell_of shape t of (None, i) \<Rightarrow> [] | (Some s, i) \<Rightarrow> [content ds ps (s, i)])"
      "\<And>c. holds_cell ds ps st c \<Longrightarrow> (case cell_of shape t of (None, i) \<Rightarrow> True | (Some s, i) \<Rightarrow> c \<noteq> (s, i)) \<Longrightarrow>
         holds_cell ds ps st1 c"
    using Cons.prems by (elim schedule_step_cell [of st shape t ds ps]) auto
  have "distinct (cells shape ts)" "\<forall>c \<in> set (cells shape ts). holds_cell ds ps st1 c"
    using Cons.prems(2,3) st1(4) by (auto split: prod.splits option.splits)
  with Cons.IH [OF st1(2)] st1(1,3) show ?case
    by (auto split: prod.splits option.splits)
qed simp

section \<open>The closed form\<close>

text \<open>Round \<open>k\<close> sends shard \<open>k\<close> of every group that has one.\<close>

definition data_order :: "u16_range list \<Rightarrow> nat list" where
  "data_order groups = concat (map (\<lambda>k. map (\<lambda>r. fst r + k) (filter (\<lambda>r. k < range_len r) groups)) [0 ..< 6])"

definition parity_order :: "nat list \<Rightarrow> nat \<Rightarrow> (nat \<times> nat) list" where
  "parity_order shape n = concat (map (\<lambda>k. map (\<lambda>g. (g, k)) (filter (\<lambda>g. g < length shape \<and> k < shape ! g) [0 ..< n])) [0, 1])"

lemma cells_data_round:
  "cells shape (map (\<lambda>(i, r). (DataSlot k, i, r)) (enumerate n groups)) =
     map (\<lambda>r. (DataSlot (fst r + k), 0)) (filter (\<lambda>r. k < range_len r) groups)"
  by (induction groups arbitrary: n) (auto simp: range_len_def)

lemma cells_parity_round:
  "cells shape (map (\<lambda>(i, r). (ParitySlot k, i, r)) (enumerate n groups)) =
     map (\<lambda>g. (ParitySlot k, g)) (filter (\<lambda>g. g < length shape \<and> k < shape ! g) [n ..< n + length groups])"
proof (induction groups arbitrary: n)
  case (Cons r groups)
  have "[n ..< n + length (r # groups)] = n # [Suc n ..< Suc n + length groups]"
    by (simp add: upt_conv_Cons del: upt_Suc)
  with Cons [of "Suc n"] show ?case by (simp del: upt_Suc)
qed simp

lemma SLOTS_eq: "SLOTS = map DataSlot [0 ..< 6] @ map ParitySlot [0, 1]"
  by (simp add: SLOTS_def eval_nat_numeral)

lemma cells_concat: "cells shape (concat tss) = concat (map (cells shape) tss)"
  by (induction tss) auto

lemma cells_turns:
  "cells shape (turns groups) =
     map (\<lambda>i. (DataSlot i, 0)) (data_order groups) @ map (\<lambda>(g, k). (ParitySlot k, g)) (parity_order shape (length groups))"
  unfolding turns_def SLOTS_eq cells_concat data_order_def parity_order_def
  by (simp add: cells_data_round [simplified] cells_parity_round [simplified] comp_def map_concat del: upt_Suc)

text \<open>The order visits every index of a partition exactly once.\<close>

lemma mset_data_order:
  assumes "\<forall>r \<in> set groups. range_len r \<le> 6"
  shows "mset (data_order groups) = mset (concat (map range_list groups))"
  using assms
proof (induction groups)
  case Nil
  have none: "concat (map (\<lambda>k. []) ks) = ([] :: nat list)" for ks :: "nat list" by (induction ks) auto
  show ?case by (simp only: data_order_def list.map filter.simps none concat.simps)
next
  case (Cons r groups)
  have split: "mset (concat (map (\<lambda>k. (if P k then [f k] else []) @ h k) ks)) =
      mset (map f (filter P ks)) + mset (concat (map h ks))" for P :: "nat \<Rightarrow> bool" and f h and ks :: "nat list"
    by (induction ks) auto
  have "filter (\<lambda>k. k < range_len r) [0 ..< 6] = [0 ..< range_len r]"
    using Cons.prems upt_join [of 0 "range_len r" 6] by (metis (no_types, lifting) filter_append filter_False
        filter_True append_Nil2 atLeastLessThan_iff le0 linorder_not_less list.set_intros(1) set_upt)
  then have "mset (map (\<lambda>k. fst r + k) (filter (\<lambda>k. k < range_len r) [0 ..< 6])) = mset (range_list r)"
    using map_add_upt [of "fst r" "range_len r"] by (cases "fst r \<le> snd r")
      (simp_all add: range_list_def range_len_def add.commute)
  moreover have "data_order (r # groups) =
      concat (map (\<lambda>k. (if k < range_len r then [fst r + k] else []) @
        map (\<lambda>r. fst r + k) (filter (\<lambda>r. k < range_len r) groups)) [0 ..< 6])"
    unfolding data_order_def by (rule arg_cong [of _ _ concat]) (rule map_cong, simp_all)
  ultimately show ?case
    using Cons split [of "\<lambda>k. k < range_len r" "\<lambda>k. fst r + k"] by (simp add: data_order_def)
qed

lemma mset_parity_order:
  assumes "\<forall>p \<in> set ps. length p \<le> 2"
  shows "mset (map (\<lambda>(g, k). ps ! g ! k) (parity_order (map length ps) (length ps))) = mset (concat ps)"
proof -
  have two: "mset p = (if 0 < length p then {#p ! 0#} else {#}) + (if 1 < length p then {#p ! 1#} else {#})"
    if "length p \<le> 2" for p :: "'a list"
    using that by (cases p; cases "tl p") (auto simp: Suc_le_eq)
  have round: "mset (map (\<lambda>g. ps ! g ! k) (filter (\<lambda>g. g < length ps \<and> k < map length ps ! g) [0 ..< length ps])) =
      sum_list (map (\<lambda>p. if k < length p then {#p ! k#} else {#}) ps)" for k
  proof (induction ps rule: rev_induct)
    case (snoc p ps)
    have "map (\<lambda>g. (ps @ [p]) ! g ! k)
          (filter (\<lambda>g. g < length (ps @ [p]) \<and> k < map length (ps @ [p]) ! g) [0 ..< length ps]) =
        map (\<lambda>g. ps ! g ! k) (filter (\<lambda>g. g < length ps \<and> k < map length ps ! g) [0 ..< length ps])"
      by (rule map_cong [OF filter_cong]) (auto simp: nth_append)
    then have "mset (map (\<lambda>g. (ps @ [p]) ! g ! k)
          (filter (\<lambda>g. g < length (ps @ [p]) \<and> k < map length (ps @ [p]) ! g) [0 ..< length ps])) =
        sum_list (map (\<lambda>p. if k < length p then {#p ! k#} else {#}) ps)"
      using snoc by metis
    then show ?case by (simp add: nth_append)
  qed simp
  have "sum_list (map (\<lambda>p. if 0 < length p then {#p ! 0#} else {#}) ps) +
      sum_list (map (\<lambda>p. if 1 < length p then {#p ! 1#} else {#}) ps) = mset (concat ps)"
    using assms
  proof (induction ps)
    case (Cons p ps)
    then show ?case using two [of p] by (simp add: ac_simps)
  qed simp
  then show ?thesis
    using round [of 0] round [of 1] by (simp add: parity_order_def comp_def del: upt_Suc)
qed

lemma distinct_parity_order: "distinct (parity_order shape n)"
  by (auto simp: parity_order_def distinct_map inj_on_def)

lemma schedule_eq:
  assumes part: "concat (map range_list groups) = [0 ..< length ds]"
    and six: "\<forall>r \<in> set groups. range_len r \<le> 6" and len: "length ps = length groups"
  shows "schedule_fec_datagrams ds ps groups =
    Ok (map (\<lambda>i. ds ! i) (data_order groups) @ map (\<lambda>(g, k). ps ! g ! k) (parity_order (map length ps) (length groups)))"
proof -
  let ?st = "\<lparr> ss_data = map Some ds, ss_parity = map (map Some) ps, ss_scheduled = [] \<rparr>"
  let ?shape = "map length ps"
  have ms: "mset (data_order groups) = mset [0 ..< length ds]"
    using mset_data_order [OF six] part by simp
  then have data: "distinct (data_order groups)" "set (data_order groups) = {0 ..< length ds}"
    using mset_eq_imp_distinct_iff [OF ms] mset_eq_setD [OF ms] by simp_all
  have dist: "distinct (cells ?shape (turns groups))"
    unfolding cells_turns using data(1) distinct_parity_order
    by (auto simp: distinct_map inj_on_def)
  have "holds_cell ds ps ?st c" if "c \<in> set (cells ?shape (turns groups))" for c
    using that data(2) unfolding cells_turns by (auto simp: parity_order_def)
  then obtain st' where "rfold schedule_step (turns groups) ?st = Ok st'"
      "ss_scheduled st' = map (content ds ps) (cells ?shape (turns groups))"
    using schedule_fold [of ?st ?shape "turns groups" ds ps] dist by (auto simp: comp_def)
  then show ?thesis
    unfolding cells_turns by (simp add: schedule_fec_datagrams_def comp_def case_prod_beta)
qed

section \<open>Interleaving of the groups of an access unit\<close>

lemma concat_rounds:
  "concat (map (\<lambda>k. map (f k) [0 ..< n]) [0 ..< b]) = map (\<lambda>p. f (p div n) (p mod n)) [0 ..< b * n]"
proof (induction b)
  case (Suc b)
  have "map (\<lambda>p. f (p div n) (p mod n)) [b * n ..< b * n + n] = map (f b) [0 ..< n]"
    by (rule nth_equalityI) simp_all
  moreover have "[0 ..< b * n + n] = [0 ..< b * n] @ [b * n ..< b * n + n]" by (rule upt_join [symmetric]) simp_all
  ultimately have "map (\<lambda>p. f (p div n) (p mod n)) [0 ..< b * n + n] =
      map (\<lambda>p. f (p div n) (p mod n)) [0 ..< b * n] @ map (f b) [0 ..< n]"
    by (simp only: map_append)
  moreover have "Suc b * n = b * n + n" by simp
  moreover have "concat (map (\<lambda>k. map (f k) [0 ..< n]) [0 ..< Suc b]) =
      concat (map (\<lambda>k. map (f k) [0 ..< n]) [0 ..< b]) @ map (f b) [0 ..< n]" by simp
  ultimately show ?case by (simp only: Suc)
qed simp

text \<open>Position \<open>p\<close> of the transmission is shard \<open>p div G\<close> of group \<open>p mod G\<close>.\<close>

lemma data_order_eq:
  assumes c: "c \<noteq> 0"
  shows "data_order (fec_group_ranges c) = map (\<lambda>p. fec_off c (p mod fec_gc c) + p div fec_gc c) [0 ..< unat c]"
proof -
  let ?G = "fec_gc c" and ?b = "fec_base c" and ?l = "fec_larger c"
  have l: "?l < ?G" using fec_larger_less [OF c] .
  have n: "unat c = ?b * ?G + ?l" by (simp add: fec_base_def fec_larger_def)
  let ?f = "\<lambda>k g. fec_off c g + k"
  have size: "range_len (fec_off c g, fec_off c (Suc g)) = ?b + (if g < ?l then 1 else 0)" for g
    by (simp add: range_len_def fec_off_Suc)
  have round: "map (\<lambda>r. fst r + k) (filter (\<lambda>r. k < range_len r) (fec_group_ranges c)) =
      (if k < ?b then map (?f k) [0 ..< ?G] else if k = ?b then map (?f k) [0 ..< ?l] else [])" for k
  proof -
    have "filter (\<lambda>g. k < ?b + (if g < ?l then 1 else 0)) [0 ..< ?G] =
        (if k < ?b then [0 ..< ?G] else if k = ?b then [0 ..< ?l] else [])"
      using upt_join [of 0 ?l ?G, symmetric] l by (auto simp: filter_empty_conv)
    then show ?thesis
      by (simp add: fec_group_ranges_eq [OF c] filter_map comp_def size cong: if_cong)
  qed
  have b6: "?b + (if 0 < ?l then 1 else 0) \<le> 6" using fec_size_bounds(1) [OF c, of 0] .
  have last: "map (\<lambda>p. fec_off c (p mod ?G) + p div ?G) [?b * ?G ..< ?b * ?G + ?l] = map (?f ?b) [0 ..< ?l]"
    using l by (intro nth_equalityI) simp_all
  have rounds: "[0 ..< 6] = [0 ..< ?b] @ [?b ..< 6]" using upt_join [of 0 ?b 6] b6 by simp
  have rest: "concat (map (\<lambda>k. if k < ?b then map (?f k) [0 ..< ?G] else if k = ?b then map (?f k) [0 ..< ?l] else [])
      [?b ..< 6]) = map (?f ?b) [0 ..< ?l]"
  proof (cases "?b = 6")
    case True
    then have "?l = 0" using b6 by (cases "?l = 0") simp_all
    with True show ?thesis by simp
  next
    case False
    then have "[?b ..< 6] = ?b # [Suc ?b ..< 6]" using b6 by (simp add: upt_conv_Cons)
    then show ?thesis by (simp add: concat_eq_Nil_conv del: upt_Suc)
  qed
  have "data_order (fec_group_ranges c) =
      concat (map (\<lambda>k. map (?f k) [0 ..< ?G]) [0 ..< ?b]) @ map (?f ?b) [0 ..< ?l]"
    unfolding data_order_def round rounds map_append concat_append rest
    by (rule arg_cong2 [where f = "(@)"], rule arg_cong [where f = concat]) simp_all
  also have "\<dots> = map (\<lambda>p. fec_off c (p mod ?G) + p div ?G) [0 ..< unat c]"
    unfolding concat_rounds last [symmetric] n by (simp add: upt_join flip: map_append)
  finally show ?thesis .
qed

section \<open>Properties\<close>

text \<open>C23: every datagram is sent exactly once, data before parity, and the erasure groups are interleaved:
  with \<open>G\<close> groups, data datagram \<open>p\<close> of the transmission is shard \<open>p div G\<close> of group \<open>p mod G\<close>, so any
  \<open>G\<close> consecutive data datagrams, and hence a burst of \<open>G\<close> losses, hit \<open>G\<close> different groups.\<close>

theorem schedule_interleaves_groups:
  assumes "c \<noteq> 0" "length ds = unat c" "length ps = length (fec_group_ranges c)" "\<forall>p \<in> set ps. length p \<le> FEC_PARITY_SHARDS"
  shows "\<exists>parity. schedule_fec_datagrams ds ps (fec_group_ranges c) =
      Ok (map (\<lambda>p. ds ! (fst (fec_group_ranges c ! (p mod length (fec_group_ranges c))) +
                           p div length (fec_group_ranges c))) [0 ..< length ds] @ parity) \<and>
    mset parity = mset (concat ps)"
proof -
  let ?groups = "fec_group_ranges c"
  have G: "length ?groups = fec_gc c" using fec_range_of(2) [OF assms(1)] fec_gc_pos [OF assms(1)] by blast
  have part: "concat (map range_list ?groups) = [0 ..< length ds]" by (simp only: fec_groups_concat assms(2))
  have six: "\<forall>r \<in> set ?groups. range_len r \<le> 6"
    using fec_groups_bounds [of c] by (auto simp: list_all_iff)
  have "map (\<lambda>i. ds ! i) (data_order ?groups) =
      map (\<lambda>p. ds ! (fst (?groups ! (p mod fec_gc c)) + p div fec_gc c)) [0 ..< length ds]"
    using fec_range_of(1) [OF assms(1)] fec_gc_pos [OF assms(1)]
    by (simp add: data_order_eq [OF assms(1)] assms(2))
  moreover have "mset (map (\<lambda>(g, k). ps ! g ! k) (parity_order (map length ps) (length ?groups))) = mset (concat ps)"
    using mset_parity_order [of ps] assms(3,4) by (simp add: fec_constants)
  ultimately show ?thesis
    using schedule_eq [OF part six assms(3)] unfolding G by metis
qed

theorem schedule_interleaves_groups_witness:
  "\<exists>parity. schedule_fec_datagrams [[0], [1], [2], [3], [4], [5], [6]] [[[100]], [[101]]] (fec_group_ranges 7) =
      Ok ([[0], [4], [1], [5], [2], [6], [3]] @ parity) \<and> mset parity = mset [[100], [101]]"
proof -
  have g: "fec_group_ranges 7 = [(0, 4), (4, 7)]"
    by (simp add: fec_group_ranges_def fec_constants div_ceil_def as_u16_def upt_conv_Cons Let_def
        numeral_2_eq_2 [symmetric])
  have "\<exists>parity. schedule_fec_datagrams [[0], [1], [2], [3], [4], [5], [6]] [[[100]], [[101]]] (fec_group_ranges 7) =
      Ok (map (\<lambda>p. [[0], [1], [2], [3], [4], [5], [6]] ! (fst (fec_group_ranges 7 ! (p mod length (fec_group_ranges 7))) +
        p div length (fec_group_ranges 7))) [0 ..< length [[0], [1], [2], [3], [4], [5], [6 :: u8]]] @ parity) \<and>
      mset parity = mset (concat [[[100]], [[101]]])"
    by (rule schedule_interleaves_groups) (simp_all add: g fec_constants)
  moreover have "[0 ..< length [[0], [1], [2], [3], [4], [5], [6 :: u8]]] = [0, 1, 2, 3, 4, 5, 6]"
    by (simp add: eval_nat_numeral)
  ultimately show ?thesis by (simp only: g) (simp add: numeral_2_eq_2 [symmetric])
qed

end
