(* ===== verification/Sender_Pipeline.thy ===== *)
theory Sender_Pipeline
  imports Sender_Schedule Reassembly_Order
begin

text \<open>
  The sender's packetizer: \<open>SenderPipeline\<close> and \<open>packetize_into_pending\<close> of \<open>crates/picoo-sender/src/lib.rs\<close>
  and \<open>VideoDatagramBatch\<close> of \<open>crates/picoo-transport/src/lib.rs\<close>. The scratch vectors of the pipeline
  are buffers that are cleared before each use and are not part of the state.
\<close>

section \<open>Batches\<close>

record video_batch =
  vb_datagrams :: "bytes list"
  vb_encoded_bytes :: nat
  vb_keyframe :: bool

datatype video_batch_error = BatchEmpty | BatchDatagramTooLarge | InvalidDatagram video_packet_error

definition batch_new :: "bytes list \<Rightarrow> (video_batch, video_batch_error) result" where
  "batch_new datagrams =
     (if datagrams = [] then Err BatchEmpty
      else if \<exists>item \<in> set datagrams. length item > MAX_DATAGRAM_SIZE then Err BatchDatagramTooLarge
      else
        (case decode_bytes (datagrams ! 0) of
           Err e \<Rightarrow> Err (InvalidDatagram e)
         | Panic \<Rightarrow> Panic
         | Ok p \<Rightarrow> Ok \<lparr> vb_datagrams = datagrams, vb_encoded_bytes = sum_list (map length datagrams),
                        vb_keyframe = flags_contains (vp_flags p) KEYFRAME \<rparr>))"

section \<open>The pipeline\<close>

text \<open>The errors the packetizer itself returns.\<close>

datatype packetize_error =
    EmptyAccessUnit | AccessUnitTooLarge | FrameIdExhausted
  | PacketError video_packet_error | VideoBatchError video_batch_error

record sender_stats =
  sst_access_units :: nat
  sst_packets :: nat
  sst_bytes :: nat
  sst_dropped_access_units :: nat

datatype fec_protection = FecNone | FecLight | FecStrong

fun parity_shards :: "fec_protection \<Rightarrow> nat" where
  "parity_shards FecNone = 0"
| "parity_shards FecLight = 1"
| "parity_shards FecStrong = 2"

record fragment_descriptor =
  fd_index :: nat
  fd_start :: nat
  fd_end :: nat

record sender_pipeline =
  sp_frame_id :: u64
  sp_stats :: sender_stats
  sp_pending :: "video_batch list"

definition PENDING_ACCESS_UNIT_CAPACITY :: nat where "PENDING_ACCESS_UNIT_CAPACITY = 3"

definition pipeline_default :: sender_pipeline where
  "pipeline_default = \<lparr> sp_frame_id = 0, sp_stats = \<lparr> sst_access_units = 0, sst_packets = 0, sst_bytes = 0,
     sst_dropped_access_units = 0 \<rparr>, sp_pending = [] \<rparr>"

definition pending_datagram_count :: "sender_pipeline \<Rightarrow> nat" where
  "pending_datagram_count s = sum_list (map (\<lambda>b. length (vb_datagrams b)) (sp_pending s))"

definition take_pending_batches :: "sender_pipeline \<Rightarrow> sender_pipeline \<times> video_batch list" where
  "take_pending_batches s = (s \<lparr> sp_pending := [] \<rparr>, sp_pending s)"

definition clear_pending_packets :: "sender_pipeline \<Rightarrow> sender_pipeline" where
  "clear_pending_packets s = s \<lparr> sp_pending := [] \<rparr>"

text \<open>What one access unit's datagrams have in common.\<close>

record au_header =
  ah_keyframe :: bool
  ah_epoch :: u32
  ah_frame_id :: u64
  ah_pts_us :: u64
  ah_encoded_at_us :: u64
  ah_fragment_count :: u16

definition fragment_descriptors :: "nat \<Rightarrow> nat \<Rightarrow> fragment_descriptor list" where
  "fragment_descriptors len fragment_count =
     map (\<lambda>index. let start = index * MAX_FEC_FRAGMENT_PAYLOAD
                  in \<lparr> fd_index = index, fd_start = start, fd_end = min (start + MAX_FEC_FRAGMENT_PAYLOAD) len \<rparr>)
       [0 ..< fragment_count]"

definition chunk :: "bytes \<Rightarrow> fragment_descriptor \<Rightarrow> bytes" where
  "chunk data d = take (fd_end d - fd_start d) (drop (fd_start d) data)"

definition base_flags :: "bool \<Rightarrow> u8" where
  "base_flags keyframe = (if keyframe then KEYFRAME else 0)"

definition fragment_flags :: "au_header \<Rightarrow> nat \<Rightarrow> u8" where
  "fragment_flags h index =
     base_flags (ah_keyframe h)
       OR (if index = 0 then START_OF_ACCESS_UNIT else 0)
       OR (if index + 1 = unat (ah_fragment_count h) then END_OF_ACCESS_UNIT else 0)"

definition packet_result :: "('a, video_packet_error) result \<Rightarrow> ('a, packetize_error) result" where
  "packet_result r = (case r of Ok x \<Rightarrow> Ok x | Err e \<Rightarrow> Err (PacketError e) | Panic \<Rightarrow> Panic)"

definition data_datagram :: "au_header \<Rightarrow> bytes \<Rightarrow> fragment_descriptor \<Rightarrow> (bytes, packetize_error) result" where
  "data_datagram h data d =
     packet_result (encode_datagram (fragment_flags h (fd_index d)) (ah_epoch h) (ah_frame_id h) (ah_pts_us h)
       (ah_encoded_at_us h) (of_nat (fd_index d)) (ah_fragment_count h) (chunk data d))"

definition parity_datagram ::
  "au_header \<Rightarrow> u16_range \<Rightarrow> nat \<Rightarrow> nat \<times> bytes \<Rightarrow> (bytes, packetize_error) result" where
  "parity_datagram h r last_data_len = (\<lambda>(parity_index, parity_bytes).
     packet_result (encode_datagram_segments (base_flags (ah_keyframe h) OR FEC_PARITY) (ah_epoch h)
       (ah_frame_id h) (ah_pts_us h) (ah_encoded_at_us h) (of_nat (fst r)) (ah_fragment_count h)
       [of_nat parity_index # u16_be (of_nat last_data_len), parity_bytes]))"

definition group_parity ::
  "rs_codec \<Rightarrow> fec_protection \<Rightarrow> au_header \<Rightarrow> bytes \<Rightarrow> fragment_descriptor list \<Rightarrow> u16_range
     \<Rightarrow> (bytes list, packetize_error) result" where
  "group_parity rs fec h data ds r =
     (if parity_shards fec = 0 then Ok []
      else
        (case encode_fec_parity_into rs (map (\<lambda>i. chunk data (ds ! i)) (range_list r)) (parity_shards fec) of
           None \<Rightarrow> Ok []
         | Some (last_data_len, parity) \<Rightarrow> rmap (parity_datagram h r last_data_len) (enumerate 0 parity)))"

text \<open>Room for one more access unit: the oldest batch that is not a keyframe goes first.\<close>

fun first_delta :: "video_batch list \<Rightarrow> nat option" where
  "first_delta [] = None"
| "first_delta (b # bs) = (if \<not> vb_keyframe b then Some 0 else map_option Suc (first_delta bs))"

definition drop_pending :: "sender_pipeline \<Rightarrow> sender_pipeline" where
  "drop_pending s =
     (if length (sp_pending s) = PENDING_ACCESS_UNIT_CAPACITY
      then
        let drop_index = (case first_delta (sp_pending s) of None \<Rightarrow> 0 | Some k \<Rightarrow> k)
        in s \<lparr> sp_pending := take drop_index (sp_pending s) @ drop (Suc drop_index) (sp_pending s),
               sp_stats := (sp_stats s) \<lparr> sst_dropped_access_units :=
                 sat_add64 (sst_dropped_access_units (sp_stats s)) 1 \<rparr> \<rparr>
      else s)"

text \<open>\<open>stats.x += n\<close> on a \<open>u64\<close> overflows with a panic.\<close>

definition count_packetized :: "nat \<Rightarrow> nat \<Rightarrow> sender_stats \<Rightarrow> (sender_stats, packetize_error) result" where
  "count_packetized created len st =
     (if sst_access_units st + 1 > u64_max \<or> sst_packets st + created > u64_max \<or> sst_bytes st + len > u64_max
      then Panic
      else Ok (st \<lparr> sst_access_units := sst_access_units st + 1, sst_packets := sst_packets st + created,
                    sst_bytes := sst_bytes st + len \<rparr>))"

definition au_datagrams ::
  "rs_codec \<Rightarrow> fec_protection \<Rightarrow> au_header \<Rightarrow> bytes \<Rightarrow> (bytes list \<times> nat, packetize_error) result" where
  "au_datagrams rs fec h data =
     (let ds = fragment_descriptors (length data) (unat (ah_fragment_count h));
          groups = fec_group_ranges (ah_fragment_count h)
      in rbind (rmap (data_datagram h data) ds)
          (\<lambda>data_datagrams. rbind (rmap (group_parity rs fec h data ds) groups)
            (\<lambda>parity_datagrams_by_group.
               (case schedule_fec_datagrams data_datagrams parity_datagrams_by_group groups of
                  Ok datagrams \<Rightarrow>
                    Ok (datagrams, length data_datagrams + sum_list (map length parity_datagrams_by_group))
                | Err e \<Rightarrow> Panic
                | Panic \<Rightarrow> Panic))))"

definition header_of :: "bytes \<Rightarrow> bool \<Rightarrow> u64 \<Rightarrow> u64 \<Rightarrow> u32 \<Rightarrow> sender_pipeline \<Rightarrow> au_header" where
  "header_of data keyframe pts_us encoded_at_us stream_epoch s =
     \<lparr> ah_keyframe = keyframe, ah_epoch = stream_epoch, ah_frame_id = sp_frame_id s, ah_pts_us = pts_us,
       ah_encoded_at_us = encoded_at_us,
       ah_fragment_count = of_nat (div_ceil (length data) MAX_FEC_FRAGMENT_PAYLOAD) \<rparr>"

definition packetize ::
  "rs_codec \<Rightarrow> bytes \<Rightarrow> bool \<Rightarrow> u64 \<Rightarrow> u64 \<Rightarrow> u32 \<Rightarrow> fec_protection \<Rightarrow> sender_pipeline
     \<Rightarrow> sender_pipeline \<times> (nat, packetize_error) result" where
  "packetize rs data keyframe pts_us encoded_at_us stream_epoch fec s =
     (if data = [] then (s, Err EmptyAccessUnit)
      else
        let fragment_count = div_ceil (length data) MAX_FEC_FRAGMENT_PAYLOAD
        in if fragment_count > MAX_VIDEO_FRAGMENTS_PER_ACCESS_UNIT then (s, Err AccessUnitTooLarge)
           else if fragment_count > 65535 then (s, Panic)
           else if sp_frame_id s = - 1 then (s, Err FrameIdExhausted)
           else
             let s1 = s \<lparr> sp_frame_id := sp_frame_id s + 1 \<rparr>;
                 h = header_of data keyframe pts_us encoded_at_us stream_epoch s1
             in (case au_datagrams rs fec h data of
                   Err e \<Rightarrow> (s1, Err e)
                 | Panic \<Rightarrow> (s1, Panic)
                 | Ok (datagrams, created) \<Rightarrow>
                     let s2 = drop_pending s1
                     in (case batch_new datagrams of
                           Err e \<Rightarrow> (s2, Err (VideoBatchError e))
                         | Panic \<Rightarrow> (s2, Panic)
                         | Ok batch \<Rightarrow>
                             let s3 = s2 \<lparr> sp_pending := sp_pending s2 @ [batch] \<rparr>
                             in (case count_packetized created (length data) (sp_stats s3) of
                                   Ok st \<Rightarrow> (s3 \<lparr> sp_stats := st \<rparr>, Ok created)
                                 | Err e \<Rightarrow> (s3, Err e)
                                 | Panic \<Rightarrow> (s3, Panic)))))"

text \<open>The three public entry points.\<close>

definition ingest_timed_access_unit where
  "ingest_timed_access_unit rs data keyframe pts_us encoded_at_us stream_epoch fec s =
     packetize rs data keyframe pts_us encoded_at_us stream_epoch fec s"

definition ingest_access_unit where
  "ingest_access_unit rs data keyframe pts_us stream_epoch fec s =
     ingest_timed_access_unit rs data keyframe pts_us pts_us stream_epoch fec s"

definition ingest_owned_access_unit where
  "ingest_owned_access_unit rs data keyframe pts_us stream_epoch fec s =
     packetize rs data keyframe pts_us pts_us stream_epoch fec s"

end
