(* ===== verification/Transmission.thy ===== *)
theory Transmission
  imports Sender_Pipeline Reassembly_Retire "HOL-Library.Sublist"
begin

text \<open>
  From the sender's packetizer to the receiver's reassembly: the datagrams that
  \<open>packetize_into_pending\<close> queues for an access unit, delivered to \<open>ReassemblyMap\<close>, give the access unit
  back.
\<close>

section \<open>Runs of the reassembly\<close>

lemma ingest_all_append:
  "ingest_all rs (ps @ qs) m =
     (fst (ingest_all rs qs (fst (ingest_all rs ps m))),
      snd (ingest_all rs ps m) @ snd (ingest_all rs qs (fst (ingest_all rs ps m))))"
  by (induction ps arbitrary: m) (auto simp: case_prod_beta Let_def split: prod.splits)

lemma ingest_all_ok:
  assumes "map_ok m" "\<forall>(p, now) \<in> set ps. vp_fragment_index p < vp_fragment_count p"
  shows "map_ok (fst (ingest_all rs ps m))"
  using assms
proof (induction ps arbitrary: m)
  case (Cons x ps)
  obtain p now where x: "x = (p, now)" by force
  obtain m1 r where r: "ingest_at rs p now m = (m1, r)" by force
  have "map_ok m1" using ingest_at_ok [OF Cons.prems(1) _ r] Cons.prems(2) x by auto
  then show ?case using Cons.IH Cons.prems(2) x r by (simp add: case_prod_beta Let_def)
qed simp

lemma retired_run:
  assumes "rm_current_epoch m = unat (vp_stream_epoch t)" "packet_key t \<in> set (rm_terminal_frames m)"
    and "\<forall>(p, now) \<in> set ps. packet_key p = packet_key t"
  shows "snd (ingest_all rs ps m) = replicate (length ps) (Ok None)"
  using assms
proof (induction ps arbitrary: m)
  case (Cons x ps)
  obtain p now where x: "x = (p, now)" by force
  have key: "packet_key p = packet_key t" "unat (vp_stream_epoch p) = unat (vp_stream_epoch t)"
    using Cons.prems(3) x by (auto simp: packet_key_def)
  note ret = ingest_retired [of m p rs now]
  have "snd (ingest_all rs ps (fst (ingest_at rs p now m))) = replicate (length ps) (Ok None)"
    using Cons.IH [of "fst (ingest_at rs p now m)"] Cons.prems ret key by auto
  moreover have "snd (ingest_at rs p now m) = Ok None" using ret Cons.prems key by simp
  ultimately show ?case by (simp add: x case_prod_beta Let_def)
qed simp

text \<open>All fragments in any order complete the access unit; whatever follows of it is ignored.\<close>

lemma fragments_then_silent:
  assumes ok: "map_ok m" and acc: "accepts m t" and fits: "length payloads \<le> rm_max_fragments m" "length payloads < 65536"
    and data: "\<not> flags_contains (vp_flags t) FEC_PARITY" and ne: "payloads \<noteq> []"
    and ids: "distinct is" "set is = {0 ..< length payloads}"
    and clock: "length clock = length is + length qs" and keys: "\<forall>q \<in> set qs. packet_key q = packet_key t"
  shows "\<exists>au. assembled t payloads au \<and>
    snd (ingest_all rs (zip (map (cut_packet t payloads) is @ qs) clock) m) =
      replicate (length payloads - 1) (Ok None) @ Ok (Some au) # replicate (length qs) (Ok None)"
proof -
  let ?n = "length payloads"
  have len: "length is = ?n" using distinct_card [OF ids(1)] ids(2) by simp
  define ps where "ps = zip (map (cut_packet t payloads) is) (take (length is) clock)"
  define rest where "rest = zip qs (drop (length is) clock)"
  have all: "zip (map (cut_packet t payloads) is @ qs) clock = ps @ rest"
    using clock by (simp add: ps_def rest_def zip_append1)
  obtain au where au: "assembled t payloads au"
    "snd (ingest_all rs ps m) = replicate (?n - 1) (Ok None) @ [Ok (Some au)]"
    using fragments_complete [OF ok acc fits data ne ids, of "take (length is) clock" rs] clock
    by (auto simp: ps_def)
  have "length ps = ?n" using len clock by (simp add: ps_def)
  then have "ps \<noteq> []" using ne by auto
  then obtain p now where last: "ps = butlast ps @ [(p, now)]" by (metis append_butlast_last_id prod.collapse)
  have mem: "\<forall>(p, now) \<in> set ps. \<exists>i < ?n. p = cut_packet t payloads i"
    using ids(2) by (force simp: ps_def dest: set_zip_leftD)
  have key: "packet_key p = packet_key t" "unat (vp_stream_epoch p) = unat (vp_stream_epoch t)"
  proof -
    have "(p, now) \<in> set ps" using last by (metis in_set_conv_decomp)
    then show "packet_key p = packet_key t" "unat (vp_stream_epoch p) = unat (vp_stream_epoch t)"
      using mem by (auto simp: packet_key_def cut_packet_def)
  qed
  let ?m1 = "fst (ingest_all rs (butlast ps) m)"
  have idx: "\<forall>(p, now) \<in> set ps. vp_fragment_index p < vp_fragment_count p"
    using mem fits(2) by (fastforce simp: cut_packet_def word_less_nat_alt unat_of_nat)
  then have "map_ok ?m1" by (intro ingest_all_ok [OF ok]) (auto dest: in_set_butlastD)
  moreover have split: "ingest_all rs ps m = (fst (ingest_at rs p now ?m1),
      snd (ingest_all rs (butlast ps) m) @ [snd (ingest_at rs p now ?m1)])"
    using ingest_all_append [of rs "butlast ps" "[(p, now)]" m] last by (simp add: case_prod_beta Let_def)
  then have "snd (ingest_at rs p now ?m1) = Ok (Some au)"
    using au(2) by simp
  then have "ingest_at rs p now ?m1 = (fst (ingest_all rs ps m), Ok (Some au))"
    using split by (simp add: prod_eq_iff)
  ultimately have "packet_key t \<in> set (rm_terminal_frames (fst (ingest_all rs ps m)))"
    "rm_current_epoch (fst (ingest_all rs ps m)) = unat (vp_stream_epoch t)"
    using ingest_at_terminal key by metis+
  then have "snd (ingest_all rs rest (fst (ingest_all rs ps m))) = replicate (length qs) (Ok None)"
    using retired_run [of "fst (ingest_all rs ps m)" t rest rs] keys clock
    by (force simp: rest_def dest: set_zip_leftD)
  then show ?thesis using au all ingest_all_append [of rs ps rest m] by auto
qed

section \<open>What the packetizer puts on the wire\<close>

text \<open>What the packetizer relies on of the erasure code: \<open>encode_sep\<close> yields one shard per parity
  shard asked for, each as long as the data shards.\<close>

definition rs_sizes :: "rs_codec \<Rightarrow> bool" where
  "rs_sizes rs \<longleftrightarrow> (\<forall>d p data out L. data \<noteq> [] \<longrightarrow> rs_encode_sep rs d p data = Some out \<longrightarrow>
     (\<forall>s \<in> set data. length s = L) \<longrightarrow>
     length out = p \<and> (\<forall>s \<in> set out. length s = L))"

definition template :: "au_header \<Rightarrow> video_packet" where
  "template h = \<lparr> vp_flags = base_flags (ah_keyframe h), vp_stream_epoch = ah_epoch h, vp_frame_id = ah_frame_id h,
     vp_pts_us = ah_pts_us h, vp_encoded_at_us = ah_encoded_at_us h, vp_fragment_index = 0,
     vp_fragment_count = ah_fragment_count h, vp_payload = [] \<rparr>"

definition au_payloads :: "au_header \<Rightarrow> bytes \<Rightarrow> bytes list" where
  "au_payloads h data = map (chunk data) (fragment_descriptors (length data) (unat (ah_fragment_count h)))"

lemma payload_limit: "MAX_FEC_FRAGMENT_PAYLOAD = 1114"
  by (simp add: wire_constants)

lemma length_au_payloads [simp]: "length (au_payloads h data) = unat (ah_fragment_count h)"
  by (simp add: au_payloads_def fragment_descriptors_def)

lemma chunks_concat:
  "concat (map (\<lambda>i. take (min (i * P + P) (length data) - i * P) (drop (i * P) data)) [0 ..< k]) = take (k * P) data"
proof (induction k)
  case (Suc k)
  have "take (min (k * P + P) (length data) - k * P) (drop (k * P) data) = take P (drop (k * P) data)"
    by (cases "k * P + P \<le> length data") (simp_all add: min_def)
  moreover have "take (Suc k * P) data = take (k * P) data @ take P (drop (k * P) data)"
    using take_add [of "k * P" P data] by (simp add: add.commute)
  ultimately show ?case using Suc by simp
qed simp

lemma au_payloads_concat:
  "length data \<le> unat (ah_fragment_count h) * 1114 \<Longrightarrow> concat (au_payloads h data) = data"
  using chunks_concat [of 1114 data "unat (ah_fragment_count h)"]
  by (simp add: au_payloads_def fragment_descriptors_def chunk_def payload_limit Let_def comp_def)

lemma au_payloads_nth:
  "i < unat (ah_fragment_count h) \<Longrightarrow>
     au_payloads h data ! i = chunk data (fragment_descriptors (length data) (unat (ah_fragment_count h)) ! i)"
  by (simp add: au_payloads_def fragment_descriptors_def)

lemma descriptor_nth:
  "i < n \<Longrightarrow> fd_index (fragment_descriptors len n ! i) = i \<and> length (chunk data (fragment_descriptors len n ! i)) \<le> 1114"
  by (auto simp: fragment_descriptors_def chunk_def payload_limit Let_def min_def)

lemma base_flags_facts:
  "flags_valid (base_flags k OR boundary_flags n i)" "flags_valid (base_flags k OR FEC_PARITY)"
  "\<not> flags_contains (base_flags k) FEC_PARITY" "flags_contains (base_flags k) KEYFRAME = k"
  "flags_contains (base_flags k) DISCARDABLE = False"
  by (simp_all add: base_flags_def boundary_flags_def flags_valid_def flags_all_def flags_contains_def flag_constants)

lemma template_simps [simp]:
  "vp_flags (template h) = base_flags (ah_keyframe h)" "vp_stream_epoch (template h) = ah_epoch h"
  "vp_frame_id (template h) = ah_frame_id h" "vp_pts_us (template h) = ah_pts_us h"
  "vp_encoded_at_us (template h) = ah_encoded_at_us h" "vp_fragment_count (template h) = ah_fragment_count h"
  by (simp_all add: template_def)

lemma data_datagram_Ok:
  assumes i: "i < unat (ah_fragment_count h)"
  shows "\<exists>bs. data_datagram h data (fragment_descriptors (length data) (unat (ah_fragment_count h)) ! i) = Ok bs \<and>
    decode_bytes bs = Ok (cut_packet (template h) (au_payloads h data) i)"
proof -
  let ?d = "fragment_descriptors (length data) (unat (ah_fragment_count h)) ! i"
  let ?p = "cut_packet (template h) (au_payloads h data) i"
  have d: "fd_index ?d = i" "length (chunk data ?d) \<le> 1114" using descriptor_nth [OF i] by auto
  have idx: "(of_nat i :: u16) < ah_fragment_count h"
    using i unat_u16_less [of "ah_fragment_count h"] by (simp add: word_less_nat_alt unat_of_nat)
  have p: "vp_flags ?p = fragment_flags h i" "vp_fragment_index ?p = of_nat i"
      "vp_fragment_count ?p = ah_fragment_count h" "vp_payload ?p = chunk data ?d"
      "vp_stream_epoch ?p = ah_epoch h" "vp_frame_id ?p = ah_frame_id h" "vp_pts_us ?p = ah_pts_us h"
      "vp_encoded_at_us ?p = ah_encoded_at_us h"
    using au_payloads_nth [OF i, of data]
    by (simp_all add: cut_packet_def fragment_flags_def boundary_flags_def or.assoc)
  have "flags_valid (vp_flags ?p)" unfolding cut_packet_def by (simp add: base_flags_facts)
  moreover have "data_datagram h data ?d = packet_result (encode_packet ?p)"
    using p d(1) by (simp add: data_datagram_def encode_packet_def)
  moreover obtain bs where "encode_packet ?p = Ok bs"
    using d(2) idx p by (simp add: encode_packet_Ok_iff)
  ultimately show ?thesis using encode_decode [of ?p bs] by (simp add: packet_result_def)
qed

lemma group_range:
  assumes "r \<in> set (fec_group_ranges c)"
  shows "fst r < unat c" "range_len r \<le> 6" "\<forall>i \<in> set (range_list r). i < unat c"
proof -
  have "set (range_list r) \<subseteq> {0 ..< unat c}"
  proof -
    have "set (range_list r) \<subseteq> set (concat (map range_list (fec_group_ranges c)))" using assms by auto
    then show ?thesis by (simp only: fec_groups_concat set_upt)
  qed
  moreover have "1 \<le> range_len r" "range_len r \<le> 6"
    using assms fec_groups_bounds [of c] by (auto simp: list_all_iff)
  ultimately show "fst r < unat c" "range_len r \<le> 6" "\<forall>i \<in> set (range_list r). i < unat c"
    by (auto simp: range_list_def range_len_def subset_iff)
qed

lemma codec_table_eq:
  "codec_table = [(2, 1), (3, 1), (4, 1), (5, 1), (6, 1), (2, 2), (3, 2), (4, 2), (5, 2), (6, 2)]"
  by code_simp

lemma fec_codec_Some: "fec_codec d p = Some (d', p') \<Longrightarrow> d' = d \<and> p' = p"
proof -
  assume a: "fec_codec d p = Some (d', p')"
  then have "d \<in> {2, 3, 4, 5, 6}" "p \<in> {1, 2}" by (auto simp: fec_codec_def fec_constants split: if_splits)
  with a show ?thesis by (auto simp: fec_codec_def fec_constants codec_table_eq)
qed

lemma max_len_ge: "s \<in> set ss \<Longrightarrow> length s \<le> max_len ss"
  by (induction ss) (auto simp: max_len_def)

lemma max_len_le: "\<forall>s \<in> set ss. length s \<le> n \<Longrightarrow> max_len ss \<le> n"
  by (induction ss) (auto simp: max_len_def)

lemma encode_fec_sizes:
  assumes "rs_sizes rs" "encode_fec_parity_into rs data p = Some (last_len, parity)" "\<forall>s \<in> set data. length s \<le> L"
  shows "length parity = p \<and> (\<forall>s \<in> set parity. length s \<le> L)"
proof -
  obtain d' p' where c: "fec_codec (length data) p = Some (d', p')"
      "rs_encode_sep rs d' p' (map (pad_shard (max_len data)) data) = Some parity"
    using assms(2) by (auto simp: encode_fec_parity_into_def Let_def split: if_splits option.splits prod.splits)
  have "\<forall>s \<in> set (map (pad_shard (max_len data)) data). length s = max_len data"
    using max_len_ge by (auto simp: pad_shard_def)
  moreover have "map (pad_shard (max_len data)) data \<noteq> []"
    using assms(2) by (auto simp: encode_fec_parity_into_def)
  ultimately have "length parity = p'" "\<forall>s \<in> set parity. length s = max_len data"
    using assms(1) c(2) unfolding rs_sizes_def by blast+
  then show ?thesis using fec_codec_Some [OF c(1)] max_len_le [OF assms(3)] by auto
qed

lemma parity_datagram_Ok:
  assumes "fst r < unat (ah_fragment_count h)" "length (snd x) \<le> 1114"
  shows "\<exists>bs q. parity_datagram h r last_len x = Ok bs \<and> decode_bytes bs = Ok q \<and> packet_key q = packet_key (template h)"
proof -
  have "(of_nat (fst r) :: u16) < ah_fragment_count h"
    using assms(1) unat_u16_less [of "ah_fragment_count h"] by (simp add: word_less_nat_alt unat_of_nat)
  then have "encode_datagram_segments (base_flags (ah_keyframe h) OR FEC_PARITY) (ah_epoch h) (ah_frame_id h)
      (ah_pts_us h) (ah_encoded_at_us h) (of_nat (fst r)) (ah_fragment_count h)
      [of_nat (fst x) # u16_be (of_nat last_len), snd x] =
    Ok (encode_header (base_flags (ah_keyframe h) OR FEC_PARITY) (ah_epoch h) (ah_frame_id h)
      (ah_pts_us h) (ah_encoded_at_us h) (of_nat (fst r)) (ah_fragment_count h) @
      (of_nat (fst x) # u16_be (of_nat last_len)) @ snd x)"
    using assms(2) by (simp add: encode_segments_Ok_iff)
  moreover note decode_header_append [OF base_flags_facts(2) \<open>of_nat (fst r) < ah_fragment_count h\<close>,
      of "(of_nat (fst x) # u16_be (of_nat last_len)) @ snd x" "ah_keyframe h" "ah_epoch h" "ah_frame_id h"
      "ah_pts_us h" "ah_encoded_at_us h"]
  ultimately show ?thesis
    using assms(2) by (simp add: parity_datagram_def case_prod_beta packet_result_def packet_key_def)
qed

definition tells :: "au_header \<Rightarrow> bytes \<Rightarrow> bool" where
  "tells h bs \<longleftrightarrow> (\<exists>q. decode_bytes bs = Ok q \<and> packet_key q = packet_key (template h))"

lemma group_parity_Ok:
  assumes rs: "rs_sizes rs" and r: "r \<in> set (fec_group_ranges (ah_fragment_count h))"
  shows "\<exists>bss. group_parity rs fec h data (fragment_descriptors (length data) (unat (ah_fragment_count h))) r = Ok bss \<and>
    length bss \<le> 2 \<and> (\<forall>bs \<in> set bss. tells h bs)"
proof -
  let ?n = "unat (ah_fragment_count h)"
  let ?chunks = "map (\<lambda>i. chunk data (fragment_descriptors (length data) ?n ! i)) (range_list r)"
  have two: "parity_shards fec \<le> 2" by (cases fec) simp_all
  show ?thesis
  proof (cases "encode_fec_parity_into rs ?chunks (parity_shards fec)")
    case (Some x)
    obtain last_len parity where x: "x = (last_len, parity)" by force
    have "\<forall>s \<in> set ?chunks. length s \<le> 1114" using group_range(3) [OF r] descriptor_nth by auto
    then have sizes: "length parity = parity_shards fec" "\<forall>s \<in> set parity. length s \<le> 1114"
      using encode_fec_sizes [OF rs Some [unfolded x]] by blast+
    have "\<exists>bs. parity_datagram h r last_len y = Ok bs \<and> tells h bs" if "y \<in> set (enumerate 0 parity)" for y
    proof -
      have "snd y \<in> set parity" using that set_zip_rightD [of "fst y" "snd y"] by (simp add: enumerate_eq_zip)
      then show ?thesis
        using parity_datagram_Ok [OF group_range(1) [OF r], of y last_len] sizes(2) by (auto simp: tells_def)
    qed
    then obtain bss where "rmap (parity_datagram h r last_len) (enumerate 0 parity) = Ok bss"
        "list_all2 (\<lambda>y bs. tells h bs) (enumerate 0 parity) bss"
      using rmap_list_all2 [of "enumerate 0 parity" "parity_datagram h r last_len" "\<lambda>y. tells h"] by auto
    then show ?thesis
      using Some x sizes(1) two list_all2_lengthD
      by (fastforce simp: group_parity_def list_all2_conv_all_nth in_set_conv_nth)
  qed (simp add: group_parity_def)
qed

lemma decode_all:
  "\<forall>x \<in> set xs. \<exists>q. decode_bytes x = Ok q \<and> P q \<Longrightarrow> \<exists>qs. map decode_bytes xs = map Ok qs \<and> (\<forall>q \<in> set qs. P q)"
proof (induction xs)
  case (Cons x xs)
  then obtain q qs where "decode_bytes x = Ok q" "P q" "map decode_bytes xs = map Ok qs" "\<forall>q \<in> set qs. P q" by auto
  then have "map decode_bytes (x # xs) = map Ok (q # qs) \<and> (\<forall>q \<in> set (q # qs). P q)" by simp
  then show ?case by blast
qed simp

lemma data_order_perm:
  "distinct (data_order (fec_group_ranges c))" "set (data_order (fec_group_ranges c)) = {0 ..< unat c}"
  "length (data_order (fec_group_ranges c)) = unat c"
proof -
  have ms: "mset (data_order (fec_group_ranges c)) = mset [0 ..< unat c]"
    using mset_data_order [of "fec_group_ranges c"] group_range(2) fec_groups_concat [of c] by auto
  then show "distinct (data_order (fec_group_ranges c))" "set (data_order (fec_group_ranges c)) = {0 ..< unat c}"
    "length (data_order (fec_group_ranges c)) = unat c"
    using mset_eq_imp_distinct_iff [OF ms] mset_eq_setD [OF ms] mset_eq_length [OF ms] by simp_all
qed

lemma au_datagrams_Ok:
  fixes h :: au_header
  assumes rs: "rs_sizes rs"
  defines "t \<equiv> template h" and "order \<equiv> data_order (fec_group_ranges (ah_fragment_count h))"
  obtains datagrams qs where "au_datagrams rs fec h data = Ok (datagrams, length datagrams)"
    "map decode_bytes datagrams = map Ok (map (cut_packet t (au_payloads h data)) order @ qs)"
    "\<forall>q \<in> set qs. packet_key q = packet_key t" "length qs \<le> 2 * unat (ah_fragment_count h)"
proof -
  let ?n = "unat (ah_fragment_count h)" and ?groups = "fec_group_ranges (ah_fragment_count h)"
  let ?ds = "fragment_descriptors (length data) ?n"
  have "\<exists>bs. data_datagram h data d = Ok bs \<and> decode_bytes bs = Ok (cut_packet t (au_payloads h data) (fd_index d))"
    if mem: "d \<in> set ?ds" for d
  proof -
    have "length ?ds = ?n" by (simp add: fragment_descriptors_def)
    then obtain i where "i < ?n" "?ds ! i = d" using mem [unfolded in_set_conv_nth] by auto
    then show ?thesis using data_datagram_Ok [of i h data] descriptor_nth [of i ?n] by (auto simp: t_def)
  qed
  then obtain dd where dd: "rmap (data_datagram h data) ?ds = Ok dd"
      "list_all2 (\<lambda>d bs. decode_bytes bs = Ok (cut_packet t (au_payloads h data) (fd_index d))) ?ds dd"
    using rmap_list_all2 [of ?ds "data_datagram h data"
        "\<lambda>d bs. decode_bytes bs = Ok (cut_packet t (au_payloads h data) (fd_index d))"] by auto
  have ld: "length dd = ?n" using list_all2_lengthD [OF dd(2)] by (simp add: fragment_descriptors_def)
  have dec: "decode_bytes (dd ! i) = Ok (cut_packet t (au_payloads h data) i)" if "i < ?n" for i
    using list_all2_nthD [OF dd(2), of i] descriptor_nth [OF that] that by (simp add: fragment_descriptors_def)
  obtain ps where ps: "rmap (group_parity rs fec h data ?ds) ?groups = Ok ps"
      "list_all2 (\<lambda>r bss. length bss \<le> 2 \<and> (\<forall>bs \<in> set bss. tells h bs)) ?groups ps"
    using rmap_list_all2 [of ?groups "group_parity rs fec h data ?ds"
        "\<lambda>r bss. length bss \<le> 2 \<and> (\<forall>bs \<in> set bss. tells h bs)"] group_parity_Ok [OF rs] by auto
  have pl: "length ps = length ?groups" using list_all2_lengthD [OF ps(2)] by simp
  have pp: "\<forall>p \<in> set ps. length p \<le> 2 \<and> (\<forall>bs \<in> set p. tells h bs)"
    using ps(2) unfolding list_all2_conv_all_nth by (metis in_set_conv_nth)
  let ?par = "map (\<lambda>(g, k). ps ! g ! k) (parity_order (map length ps) (length ?groups))"
  have sched: "schedule_fec_datagrams dd ps ?groups = Ok (map (\<lambda>i. dd ! i) order @ ?par)"
  proof -
    have "concat (map range_list ?groups) = [0 ..< length dd]" by (simp only: fec_groups_concat ld)
    moreover have "\<forall>r \<in> set ?groups. range_len r \<le> 6" using group_range(2) by blast
    ultimately show ?thesis unfolding order_def using pl by (rule schedule_eq)
  qed
  have "\<forall>p \<in> set ps. length p \<le> 2" using pp by blast
  then have ms: "mset ?par = mset (concat ps)" unfolding pl [symmetric] by (rule mset_parity_order)
  have lp: "length ?par = sum_list (map length ps)" unfolding mset_eq_length [OF ms] by (rule length_concat)
  have "\<forall>x \<in> set (concat ps). tells h x" using pp by auto
  then have "\<forall>x \<in> set ?par. tells h x" unfolding mset_eq_setD [OF ms] .
  then obtain qs where qs: "map decode_bytes ?par = map Ok qs" "\<forall>q \<in> set qs. packet_key q = packet_key t"
    using decode_all [of ?par "\<lambda>q. packet_key q = packet_key t"] by (auto simp: tells_def t_def)
  have "map decode_bytes (map (\<lambda>i. dd ! i) order) = map Ok (map (cut_packet t (au_payloads h data)) order)"
    using dec data_order_perm(2) [of "ah_fragment_count h"] by (simp add: order_def)
  with qs(1) have decs: "map decode_bytes (map (\<lambda>i. dd ! i) order @ ?par) =
      map Ok (map (cut_packet t (au_payloads h data)) order @ qs)"
    by simp
  have au: "au_datagrams rs fec h data = Ok (map (\<lambda>i. dd ! i) order @ ?par, length (map (\<lambda>i. dd ! i) order @ ?par))"
    using dd(1) ps(1) sched lp ld data_order_perm(3) [of "ah_fragment_count h"]
    by (simp add: au_datagrams_def Let_def order_def)
  have "length qs = sum_list (map length ps)" using qs(1) lp by (metis length_map)
  also have "\<dots> \<le> sum_list (map (\<lambda>_. 2) ps)" using pp by (intro sum_list_mono) auto
  also have "\<dots> \<le> 2 * ?n"
  proof (cases "ah_fragment_count h = 0")
    case False
    have "length ps = fec_gc (ah_fragment_count h)" using pl fec_range_of(2) [OF False, of 0] fec_gc_pos [OF False] by simp
    moreover have "fec_gc (ah_fragment_count h) \<le> ?n"
      using div_ceil_le_iff [of 6 ?n ?n] by (simp add: fec_gc_def)
    ultimately show ?thesis by (simp add: sum_list_triv)
  qed (use pl in simp)
  finally show thesis using that au decs qs(2) by blast
qed

text \<open>The successful branch of \<open>packetize\<close>.\<close>

lemma batch_of_au:
  assumes "map decode_bytes datagrams = map Ok pkts" "pkts \<noteq> []"
  shows "\<exists>b. batch_new datagrams = Ok b \<and> vb_datagrams b = datagrams \<and>
    vb_keyframe b = flags_contains (vp_flags (pkts ! 0)) KEYFRAME"
proof -
  have len: "length datagrams = length pkts" using assms(1) by (metis length_map)
  have dec: "decode_bytes (datagrams ! i) = Ok (pkts ! i)" if "i < length pkts" for i
    using that assms(1) len by (metis nth_map)
  have "length item \<le> 1150" if item: "item \<in> set datagrams" for item
  proof -
    obtain i where "i < length datagrams" "datagrams ! i = item" using item by (auto simp: in_set_conv_nth)
    then show ?thesis using dec [of i] len decode_bytes_Ok_iff [of item "pkts ! i"] by simp
  qed
  then have "\<not> (\<exists>item \<in> set datagrams. MAX_DATAGRAM_SIZE < length item)"
    by (auto simp: wire_constants linorder_not_less)
  then show ?thesis using dec [of 0] assms(2) len by (auto simp: batch_new_def)
qed

definition fragments_needed :: "bytes \<Rightarrow> nat" where
  "fragments_needed data = div_ceil (length data) MAX_FEC_FRAGMENT_PAYLOAD"

lemma fragments_needed_bounds:
  assumes "data \<noteq> []"
  shows "0 < fragments_needed data" "length data \<le> fragments_needed data * 1114"
    "fragments_needed data \<le> 1024 \<longleftrightarrow> length data \<le> 1024 * 1114"
  using assms div_ceil_mult_ge [of 1114 "length data"] div_ceil_pos [of 1114 "length data"]
    div_ceil_le_iff [of 1114 "length data" 1024]
  by (simp_all add: fragments_needed_def payload_limit)

lemma drop_pending_fields [simp]: "sp_frame_id (drop_pending s) = sp_frame_id s"
  "sst_access_units (sp_stats (drop_pending s)) = sst_access_units (sp_stats s)"
  "sst_packets (sp_stats (drop_pending s)) = sst_packets (sp_stats s)"
  "sst_bytes (sp_stats (drop_pending s)) = sst_bytes (sp_stats s)"
  by (simp_all add: drop_pending_def Let_def)

definition sent :: "bytes \<Rightarrow> bool \<Rightarrow> u64 \<Rightarrow> u64 \<Rightarrow> u32 \<Rightarrow> sender_pipeline \<Rightarrow> video_packet" where
  "sent data keyframe pts enc ep s = template (header_of data keyframe pts enc ep (s \<lparr> sp_frame_id := sp_frame_id s + 1 \<rparr>))"

lemma packetize_shape:
  assumes rs: "rs_sizes rs" and ne: "data \<noteq> []" and fits: "length data \<le> 1024 * 1114" and id: "sp_frame_id s \<noteq> - 1"
  obtains b pkts qs payloads order where
    "packetize rs data keyframe pts enc ep fec s =
      (let s2 = drop_pending (s \<lparr> sp_frame_id := sp_frame_id s + 1 \<rparr>); s3 = s2 \<lparr> sp_pending := sp_pending s2 @ [b] \<rparr>
       in case count_packetized (length pkts) (length data) (sp_stats s3) of
            Ok st \<Rightarrow> (s3 \<lparr> sp_stats := st \<rparr>, Ok (length pkts)) | Err e \<Rightarrow> (s3, Err e) | Panic \<Rightarrow> (s3, Panic))"
    "map decode_bytes (vb_datagrams b) = map Ok pkts"
    "pkts = map (cut_packet (sent data keyframe pts enc ep s) payloads) order @ qs"
    "concat payloads = data" "length payloads = fragments_needed data"
    "distinct order" "set order = {0 ..< length payloads}"
    "\<forall>q \<in> set qs. packet_key q = packet_key (sent data keyframe pts enc ep s)"
    "length qs \<le> 2 * fragments_needed data" "vb_keyframe b = keyframe"
proof -
  let ?s1 = "s \<lparr> sp_frame_id := sp_frame_id s + 1 \<rparr>"
  let ?h = "header_of data keyframe pts enc ep ?s1"
  note need = fragments_needed_bounds [OF ne]
  have n1024: "fragments_needed data \<le> 1024" using need(3) fits by simp
  then have c: "unat (ah_fragment_count ?h) = fragments_needed data"
    by (simp add: header_of_def fragments_needed_def unat_of_nat)
  let ?order = "data_order (fec_group_ranges (ah_fragment_count ?h))"
  obtain dg qs where au: "au_datagrams rs fec ?h data = Ok (dg, length dg)"
      "map decode_bytes dg = map Ok (map (cut_packet (template ?h) (au_payloads ?h data)) ?order @ qs)"
      "\<forall>q \<in> set qs. packet_key q = packet_key (template ?h)" "length qs \<le> 2 * unat (ah_fragment_count ?h)"
    by (rule au_datagrams_Ok [OF rs, of fec ?h data])
  let ?pkts = "map (cut_packet (template ?h) (au_payloads ?h data)) ?order @ qs"
  have ne_order: "?order \<noteq> []" using data_order_perm(3) [of "ah_fragment_count ?h"] c need(1) by auto
  then have "?pkts \<noteq> []" by simp
  then obtain b where b: "batch_new dg = Ok b" "vb_datagrams b = dg"
      "vb_keyframe b = flags_contains (vp_flags (?pkts ! 0)) KEYFRAME"
    using batch_of_au [OF au(2)] by blast
  have kf: "vb_keyframe b = keyframe"
    using ne_order unfolding b(3)
    by (simp add: nth_append cut_packet_def boundary_flags_def flags_contains_def flag_constants base_flags_def header_of_def)
  have len: "length dg = length ?pkts" using au(2) by (metis length_map)
  have "\<not> MAX_VIDEO_FRAGMENTS_PER_ACCESS_UNIT < div_ceil (length data) MAX_FEC_FRAGMENT_PAYLOAD"
    "\<not> 65535 < div_ceil (length data) MAX_FEC_FRAGMENT_PAYLOAD"
    using n1024 by (simp_all add: fragments_needed_def) (simp add: wire_constants)
  then have "packetize rs data keyframe pts enc ep fec s =
      (let s2 = drop_pending ?s1; s3 = s2 \<lparr> sp_pending := sp_pending s2 @ [b] \<rparr>
       in case count_packetized (length dg) (length data) (sp_stats s3) of
            Ok st \<Rightarrow> (s3 \<lparr> sp_stats := st \<rparr>, Ok (length dg)) | Err e \<Rightarrow> (s3, Err e) | Panic \<Rightarrow> (s3, Panic))"
    using ne id au(1) b(1) by (simp add: packetize_def Let_def)
  moreover have lp: "length (au_payloads ?h data) = fragments_needed data" by (simp only: length_au_payloads c)
  moreover have "set ?order = {0 ..< length (au_payloads ?h data)}"
    by (simp only: length_au_payloads data_order_perm)
  ultimately show thesis
    unfolding len
    by (intro that [of b ?pkts "au_payloads ?h data" ?order qs])
      (use au(2-4) b(2) kf c need(2) au_payloads_concat [of data ?h]
        data_order_perm [of "ah_fragment_count ?h"] in \<open>simp_all add: sent_def\<close>)
qed

lemma count_packetized_Ok: "count_packetized n l st = Ok st' \<Longrightarrow>
    st' = st \<lparr> sst_access_units := sst_access_units st + 1, sst_packets := sst_packets st + n, sst_bytes := sst_bytes st + l \<rparr>"
  by (simp add: count_packetized_def split: if_splits)

lemma packetize_rejects:
  "data = [] \<Longrightarrow> packetize rs data keyframe pts enc ep fec s = (s, Err EmptyAccessUnit)"
  "length data > 1024 * 1114 \<Longrightarrow> packetize rs data keyframe pts enc ep fec s = (s, Err AccessUnitTooLarge)"
  "data \<noteq> [] \<Longrightarrow> length data \<le> 1024 * 1114 \<Longrightarrow> sp_frame_id s = - 1 \<Longrightarrow>
     packetize rs data keyframe pts enc ep fec s = (s, Err FrameIdExhausted)"
proof -
  show "data = [] \<Longrightarrow> packetize rs data keyframe pts enc ep fec s = (s, Err EmptyAccessUnit)"
    by (simp add: packetize_def)
  show "packetize rs data keyframe pts enc ep fec s = (s, Err AccessUnitTooLarge)" if "length data > 1024 * 1114"
  proof -
    have ne: "data \<noteq> []" using that by auto
    then have "1024 < div_ceil (length data) MAX_FEC_FRAGMENT_PAYLOAD"
      using fragments_needed_bounds(3) [OF ne] that by (simp add: fragments_needed_def)
    then show ?thesis using ne by (simp add: packetize_def MAX_VIDEO_FRAGMENTS_PER_ACCESS_UNIT_def)
  qed
  show "packetize rs data keyframe pts enc ep fec s = (s, Err FrameIdExhausted)"
    if "data \<noteq> []" "length data \<le> 1024 * 1114" "sp_frame_id s = - 1"
  proof -
    have "div_ceil (length data) MAX_FEC_FRAGMENT_PAYLOAD \<le> 1024"
      using fragments_needed_bounds(3) [OF that(1)] that(2) by (simp add: fragments_needed_def)
    then show ?thesis using that by (simp add: packetize_def MAX_VIDEO_FRAGMENTS_PER_ACCESS_UNIT_def)
  qed
qed

lemma packetize_Ok:
  assumes rs: "rs_sizes rs" and ok: "packetize rs data keyframe pts enc ep fec s = (s', Ok created)"
  obtains b pkts qs payloads order where "data \<noteq> []" "length data \<le> 1024 * 1114"
    "sp_pending s' = sp_pending (drop_pending s) @ [b]" "sp_frame_id s' = sp_frame_id s + 1" "created = length pkts"
    "map decode_bytes (vb_datagrams b) = map Ok pkts"
    "pkts = map (cut_packet (sent data keyframe pts enc ep s) payloads) order @ qs"
    "concat payloads = data" "length payloads = fragments_needed data"
    "distinct order" "set order = {0 ..< length payloads}"
    "\<forall>q \<in> set qs. packet_key q = packet_key (sent data keyframe pts enc ep s)" "vb_keyframe b = keyframe"
proof -
  have ne: "data \<noteq> []" and fits: "length data \<le> 1024 * 1114" and id: "sp_frame_id s \<noteq> - 1"
    using ok packetize_rejects [where rs = rs and data = data and s = s and keyframe = keyframe and pts = pts and enc = enc and ep = ep and fec = fec] by (fastforce simp: not_le)+
  obtain b pkts qs payloads order where p: "packetize rs data keyframe pts enc ep fec s =
      (let s2 = drop_pending (s \<lparr> sp_frame_id := sp_frame_id s + 1 \<rparr>); s3 = s2 \<lparr> sp_pending := sp_pending s2 @ [b] \<rparr>
       in case count_packetized (length pkts) (length data) (sp_stats s3) of
            Ok st \<Rightarrow> (s3 \<lparr> sp_stats := st \<rparr>, Ok (length pkts)) | Err e \<Rightarrow> (s3, Err e) | Panic \<Rightarrow> (s3, Panic))"
    and facts: "map decode_bytes (vb_datagrams b) = map Ok pkts"
    "pkts = map (cut_packet (sent data keyframe pts enc ep s) payloads) order @ qs"
    "concat payloads = data" "length payloads = fragments_needed data"
    "distinct order" "set order = {0 ..< length payloads}"
    "\<forall>q \<in> set qs. packet_key q = packet_key (sent data keyframe pts enc ep s)" "vb_keyframe b = keyframe"
    by (rule packetize_shape [OF rs ne fits id, of keyframe pts enc ep fec])
  have pend: "sp_pending (drop_pending (s \<lparr> sp_frame_id := i \<rparr>)) = sp_pending (drop_pending s)" for i
    by (simp add: drop_pending_def Let_def)
  have "sp_pending s' = sp_pending (drop_pending s) @ [b] \<and> sp_frame_id s' = sp_frame_id s + 1 \<and> created = length pkts"
    using ok unfolding p by (auto simp: Let_def pend split: result.splits)
  then show thesis using that [of b pkts payloads order qs] ne fits facts by simp
qed

lemma packetize_succeeds:
  assumes "rs_sizes rs"
    and "sst_access_units (sp_stats s) < u64_max" "sst_packets (sp_stats s) + 3072 \<le> u64_max"
    and "sst_bytes (sp_stats s) + 1140736 \<le> u64_max"
    and "data \<noteq> []" "length data \<le> 1140736" "sp_frame_id s \<noteq> - 1"
  shows "\<exists>s' created. packetize rs data keyframe pts enc ep fec s = (s', Ok created) \<and>
    fragments_needed data \<le> created \<and> created \<le> 3 * fragments_needed data \<and> sp_frame_id s' = sp_frame_id s + 1"
proof -
  have fits: "length data \<le> 1024 * 1114" using assms(6) by simp
  obtain b pkts qs payloads order where p: "packetize rs data keyframe pts enc ep fec s =
      (let s2 = drop_pending (s \<lparr> sp_frame_id := sp_frame_id s + 1 \<rparr>); s3 = s2 \<lparr> sp_pending := sp_pending s2 @ [b] \<rparr>
       in case count_packetized (length pkts) (length data) (sp_stats s3) of
            Ok st \<Rightarrow> (s3 \<lparr> sp_stats := st \<rparr>, Ok (length pkts)) | Err e \<Rightarrow> (s3, Err e) | Panic \<Rightarrow> (s3, Panic))"
    and facts: "map decode_bytes (vb_datagrams b) = map Ok pkts"
    "pkts = map (cut_packet (sent data keyframe pts enc ep s) payloads) order @ qs"
    "concat payloads = data" "length payloads = fragments_needed data"
    "distinct order" "set order = {0 ..< length payloads}"
    "\<forall>q \<in> set qs. packet_key q = packet_key (sent data keyframe pts enc ep s)"
    "length qs \<le> 2 * fragments_needed data" "vb_keyframe b = keyframe"
    by (rule packetize_shape [OF assms(1,5) fits assms(7), of keyframe pts enc ep fec])
  have "length order = length payloads" using distinct_card [OF facts(5)] facts(6) by simp
  then have created: "fragments_needed data \<le> length pkts" "length pkts \<le> 3 * fragments_needed data"
    using facts(2,4,8) by simp_all
  moreover have "fragments_needed data \<le> 1024" using fragments_needed_bounds(3) [OF assms(5)] fits by simp
  ultimately show ?thesis
    using p assms(2-6) by (simp add: Let_def count_packetized_def)
qed




text \<open>A code that repeats the first shard, for concrete runs.\<close>

definition copy_codec :: rs_codec where
  "copy_codec = \<lparr> rs_encode_sep = \<lambda>d p data. Some (replicate p (hd data)), rs_reconstruct_data = \<lambda>d p view. None \<rparr>"

lemma copy_codec_sizes: "rs_sizes copy_codec" by (auto simp: rs_sizes_def copy_codec_def)

lemma default_succeeds:
  assumes "data \<noteq> []" "length data \<le> 1140736"
  obtains s' created where "packetize copy_codec data keyframe pts enc ep fec pipeline_default = (s', Ok created)"
proof -
  have "\<exists>s' created. packetize copy_codec data keyframe pts enc ep fec pipeline_default = (s', Ok created) \<and>
    fragments_needed data \<le> created \<and> created \<le> 3 * fragments_needed data \<and>
    sp_frame_id s' = sp_frame_id pipeline_default + 1"
    by (rule packetize_succeeds [OF copy_codec_sizes _ _ _ assms]) (simp_all add: pipeline_default_def u64_max_eval)
  then show thesis using that by blast
qed

section \<open>Properties\<close>

text \<open>C1: from capture to assembly. The datagrams that a successful \<open>packetize\<close> queues for an access unit
  all decode; delivered in the order they were queued, to any reachable reassembly map that has not
  seen the access unit, they give back exactly the access unit with its metadata, at the last data
  datagram; the parity datagrams that follow are ignored. The erasure code only has to return parity
  shards of the size of its input.\<close>

theorem capture_to_assembly:
  assumes "rs_sizes rs" "packetize rs data keyframe pts enc ep fec s = (s', Ok created)"
    and "reassembly_reachable rs' m" "accepts m (sent data keyframe pts enc ep s)"
    and "fragments_needed data \<le> rm_max_fragments m" "length clock = created"
  shows "\<exists>b pkts au. last (sp_pending s') = b \<and> map decode_bytes (vb_datagrams b) = map Ok pkts \<and>
    snd (ingest_all rs' (zip pkts clock) m) = replicate (fragments_needed data - 1) (Ok None) @
      Ok (Some au) # replicate (created - fragments_needed data) (Ok None) \<and>
    au_data au = data \<and> au_frame_id au = unat (sp_frame_id s') \<and> au_stream_epoch au = unat ep \<and>
    au_pts_us au = unat pts \<and> au_encoded_at_us au = unat enc \<and> au_keyframe au = keyframe \<and> \<not> au_discardable au"
proof -
  let ?t = "sent data keyframe pts enc ep s"
  obtain b pkts qs payloads order where p: "data \<noteq> []" "length data \<le> 1024 * 1114"
    "sp_pending s' = sp_pending (drop_pending s) @ [b]" "sp_frame_id s' = sp_frame_id s + 1" "created = length pkts"
    "map decode_bytes (vb_datagrams b) = map Ok pkts"
    "pkts = map (cut_packet ?t payloads) order @ qs"
    "concat payloads = data" "length payloads = fragments_needed data"
    "distinct order" "set order = {0 ..< length payloads}"
    "\<forall>q \<in> set qs. packet_key q = packet_key ?t" "vb_keyframe b = keyframe"
    by (rule packetize_Ok [OF assms(1,2)])
  note need = fragments_needed_bounds [OF p(1)]
  have t: "vp_flags ?t = base_flags keyframe" "vp_frame_id ?t = sp_frame_id s'" "vp_stream_epoch ?t = ep"
      "vp_pts_us ?t = pts" "vp_encoded_at_us ?t = enc"
    by (simp_all add: sent_def header_of_def p(4))
  have lo: "length order = length payloads" using distinct_card [OF p(10)] p(11) by simp
  have small: "length payloads < 65536" using need(3) p(2,9) by linarith
  have "\<not> flags_contains (vp_flags ?t) FEC_PARITY" unfolding t by (rule base_flags_facts)
  moreover have "payloads \<noteq> []" using need(1) p(9) by auto
  moreover have "length clock = length order + length qs" using assms(6) p(5,7) by simp
  ultimately obtain au where au: "assembled ?t payloads au"
    "snd (ingest_all rs' (zip pkts clock) m) = replicate (length payloads - 1) (Ok None) @
      Ok (Some au) # replicate (length qs) (Ok None)"
    using fragments_then_silent [OF reachable_map_ok [OF assms(3)] assms(4) _ small _ _ p(10,11) _ p(12), of clock rs']
      assms(5) p(9) unfolding p(7) by auto
  have "created - fragments_needed data = length qs" using p(5,7,9) lo by simp
  then have run: "snd (ingest_all rs' (zip pkts clock) m) = replicate (fragments_needed data - 1) (Ok None) @
      Ok (Some au) # replicate (created - fragments_needed data) (Ok None)"
    using au(2) p(9) by simp
  have fields: "au_data au = data" "au_frame_id au = unat (sp_frame_id s')" "au_stream_epoch au = unat ep"
      "au_pts_us au = unat pts" "au_encoded_at_us au = unat enc" "au_keyframe au = keyframe" "\<not> au_discardable au"
    using au(1) p(8) base_flags_facts(4,5) [of keyframe] by (simp_all add: assembled_def t is_keyframe_def)
  have "last (sp_pending s') = b" using p(3) by simp
  then show ?thesis using p(6) run fields by blast
qed

theorem capture_to_assembly_witness:
  "\<exists>s' created (b :: video_batch) pkts au. packetize copy_codec (replicate 1500 7) True 10 20 1 FecStrong pipeline_default = (s', Ok created) \<and>
     map decode_bytes (vb_datagrams b) = map Ok pkts \<and>
     snd (ingest_all no_codec (zip pkts (replicate created 5)) (reassembly_new 4 16)) =
       Ok None # Ok (Some au) # replicate (created - 2) (Ok None) \<and> au_data au = replicate 1500 7"
proof -
  let ?data = "replicate 1500 7 :: bytes"
  obtain s' created where p: "packetize copy_codec ?data True 10 20 1 FecStrong pipeline_default = (s', Ok created)"
    by (rule default_succeeds [of ?data True 10 20 1 FecStrong]) simp_all
  have n: "fragments_needed ?data = 2" by (simp add: fragments_needed_def payload_limit div_ceil_def)
  have "accepts (reassembly_new 4 16) (sent ?data True 10 20 1 pipeline_default)"
    by (simp add: accepts_def sent_def header_of_def reassembly_new_def)
  moreover have "fragments_needed ?data \<le> rm_max_fragments (reassembly_new 4 16)"
    by (simp add: n reassembly_new_def)
  moreover have "length (replicate created (5 :: nat)) = created" by simp
  ultimately obtain b :: video_batch and pkts au where r: "map decode_bytes (vb_datagrams b) = map Ok pkts"
      "snd (ingest_all no_codec (zip pkts (replicate created 5)) (reassembly_new 4 16)) =
         replicate (2 - 1) (Ok None) @ Ok (Some au) # replicate (created - 2) (Ok None)" "au_data au = ?data"
    using capture_to_assembly [OF copy_codec_sizes p reassembly_reachable.start, of 4 16 "replicate created 5" no_codec]
    unfolding n by blast
  have "replicate (2 - 1) (Ok None) @ Ok (Some au) # replicate (created - 2) (Ok None) =
      Ok None # Ok (Some au) # replicate (created - 2) (Ok None)" by simp
  then show ?thesis using p r by metis
qed

text \<open>The packetizer fails only as documented. It rejects an empty access unit, one that needs more
  than 1024 fragments and an exhausted frame id, each time without touching the pipeline, and accepts
  every other access unit (unless a statistics counter is about to overflow its 64 bits), queuing at
  most two parity datagrams per fragment beside the fragments.\<close>

lemma packetize_outcome:
  assumes "rs_sizes rs"
    and "sst_access_units (sp_stats s) < u64_max" "sst_packets (sp_stats s) + 3072 \<le> u64_max"
    and "sst_bytes (sp_stats s) + 1140736 \<le> u64_max"
  shows "(data = [] \<and> packetize rs data keyframe pts enc ep fec s = (s, Err EmptyAccessUnit)) \<or>
    (1140736 < length data \<and> packetize rs data keyframe pts enc ep fec s = (s, Err AccessUnitTooLarge)) \<or>
    (data \<noteq> [] \<and> length data \<le> 1140736 \<and> sp_frame_id s = - 1 \<and>
       packetize rs data keyframe pts enc ep fec s = (s, Err FrameIdExhausted)) \<or>
    (data \<noteq> [] \<and> length data \<le> 1140736 \<and> sp_frame_id s \<noteq> - 1 \<and>
       (\<exists>s' created. packetize rs data keyframe pts enc ep fec s = (s', Ok created) \<and>
          fragments_needed data \<le> created \<and> created \<le> 3 * fragments_needed data \<and>
          sp_frame_id s' = sp_frame_id s + 1))"
proof (cases "data \<noteq> [] \<and> length data \<le> 1140736 \<and> sp_frame_id s \<noteq> - 1")
  case False
  then show ?thesis using packetize_rejects [where rs = rs and data = data and s = s and keyframe = keyframe and pts = pts and enc = enc and ep = ep and fec = fec] by fastforce
next
  case True
  then obtain s' created where "packetize rs data keyframe pts enc ep fec s = (s', Ok created)"
      "fragments_needed data \<le> created" "created \<le> 3 * fragments_needed data" "sp_frame_id s' = sp_frame_id s + 1"
    using packetize_succeeds [OF assms, of data keyframe pts enc ep fec] by auto
  with True show ?thesis by blast
qed



end
