(* ===== verification/Receiver_Timing.thy ===== *)
theory Receiver_Timing
  imports F64
begin

text \<open>
  Receiver-local timing and statistics: \<open>crates/picoo-receiver/src/session/stats.rs\<close>. Instants and
  durations are nanoseconds; a microsecond count is their quotient by 1000.
\<close>

definition MEDIA_DEADLINE_MIN_MS :: f64 where "MEDIA_DEADLINE_MIN_MS = f64_lit 200"
definition MEDIA_DEADLINE_MAX_MS :: f64 where "MEDIA_DEADLINE_MAX_MS = f64_lit 300"

text \<open>\<open>Duration::as_secs_f64\<close>, and \<open>Duration::from_secs_f64\<close>: nanoseconds to nearest, ties to even; a
  negative or overflowing value panics.\<close>

definition as_secs_f64 :: "nat \<Rightarrow> f64" where
  "as_secs_f64 d = f64_add (f64_of_nat (d div 1000000000)) (f64_div (f64_of_nat (d mod 1000000000)) (f64_lit 1000000000))"

fun from_secs_f64 :: "f64 \<Rightarrow> (nat, 'e) result" where
  "from_secs_f64 (Fin x) =
     (if x < 0 \<or> x \<ge> 2 ^ 64 then Panic else Ok (nat (rne (x * 1000000000))))"
| "from_secs_f64 NaN = Panic"
| "from_secs_f64 (Infinite s) = Panic"

definition media_deadline_from_observations :: "f64 \<Rightarrow> f64 \<Rightarrow> f64 \<Rightarrow> f64 \<Rightarrow> (nat, 'e) result" where
  "media_deadline_from_observations rtt_ms jitter_ms frame_ms playout_target_ms =
     (let playout_bound_ms = f64_add (f64_mul (f64_lit 2) playout_target_ms) frame_ms;
          network_bound_ms = f64_add (f64_add rtt_ms (f64_mul (f64_lit 3) jitter_ms)) frame_ms;
          deadline_ms = f64_clamp MEDIA_DEADLINE_MIN_MS MEDIA_DEADLINE_MAX_MS
                          (f64_max playout_bound_ms network_bound_ms)
      in from_secs_f64 (f64_div deadline_ms (f64_lit 1000)))"

record stats_reporter =
  sr_last_sent :: nat
  sr_window_bytes :: nat
  sr_last_reassembly_drops :: nat
  sr_last_missing_fragments :: nat
  sr_last_resolved_fragments :: nat
  sr_last_fec_recovered_fragments :: nat
  sr_window_decoder_drops :: nat
  sr_window_decoded_frames :: nat
  sr_window_max_receive_queue_age_ms :: f64

definition stats_reporter_new :: "nat \<Rightarrow> stats_reporter" where
  "stats_reporter_new now = \<lparr> sr_last_sent = now, sr_window_bytes = 0, sr_last_reassembly_drops = 0,
     sr_last_missing_fragments = 0, sr_last_resolved_fragments = 0, sr_last_fec_recovered_fragments = 0,
     sr_window_decoder_drops = 0, sr_window_decoded_frames = 0, sr_window_max_receive_queue_age_ms = Fin 0 \<rparr>"

text \<open>The window counters are reset every second; their 64 bits do not overflow.\<close>

definition record_packet :: "nat \<Rightarrow> stats_reporter \<Rightarrow> stats_reporter" where
  "record_packet payload_len r = r \<lparr> sr_window_bytes := sr_window_bytes r + payload_len \<rparr>"

definition record_decoder_drop :: "stats_reporter \<Rightarrow> stats_reporter" where
  "record_decoder_drop r = r \<lparr> sr_window_decoder_drops := sr_window_decoder_drops r + 1 \<rparr>"

definition record_decoded_frame :: "stats_reporter \<Rightarrow> stats_reporter" where
  "record_decoded_frame r = r \<lparr> sr_window_decoded_frames := sr_window_decoded_frames r + 1 \<rparr>"

definition record_receive_queue_age :: "nat \<Rightarrow> stats_reporter \<Rightarrow> stats_reporter" where
  "record_receive_queue_age age r = r \<lparr> sr_window_max_receive_queue_age_ms :=
     f64_max (sr_window_max_receive_queue_age_ms r) (f64_mul (as_secs_f64 age) (f64_lit 1000)) \<rparr>"

definition stats_due :: "nat \<Rightarrow> stats_reporter \<Rightarrow> bool" where
  "stats_due now r \<longleftrightarrow> now - sr_last_sent r \<ge> 1000000000"

record interarrival_jitter =
  ij_last :: "(nat \<times> nat) option"
  ij_estimate_us :: f64

definition interarrival_default :: interarrival_jitter where
  "interarrival_default = \<lparr> ij_last = None, ij_estimate_us = Fin 0 \<rparr>"

definition interarrival_observe :: "nat \<Rightarrow> nat \<Rightarrow> interarrival_jitter \<Rightarrow> interarrival_jitter" where
  "interarrival_observe arrived_at pts_us j =
     (case ij_last j of
        None \<Rightarrow> j \<lparr> ij_last := Some (arrived_at, pts_us) \<rparr>
      | Some (last_arrival, last_pts_us) \<Rightarrow>
          if pts_us \<le> last_pts_us then j
          else
            let arrival_delta_us = f64_of_nat ((arrived_at - last_arrival) div 1000);
                pts_delta_us = f64_of_nat (pts_us - last_pts_us);
                variation_us = f64_abs (f64_sub arrival_delta_us pts_delta_us)
            in j \<lparr> ij_estimate_us :=
                     f64_add (ij_estimate_us j) (f64_div (f64_sub variation_us (ij_estimate_us j)) (f64_lit 16)),
                   ij_last := Some (arrived_at, pts_us) \<rparr>)"

definition interarrival_ms :: "interarrival_jitter \<Rightarrow> f64" where
  "interarrival_ms j = f64_div (ij_estimate_us j) (f64_lit 1000)"

definition observed_fragment_loss_ratio :: "nat \<Rightarrow> nat \<Rightarrow> f64" where
  "observed_fragment_loss_ratio resolved_fragments missing_fragments =
     (if resolved_fragments = 0 then Fin 0
      else f64_div (f64_of_nat (min missing_fragments resolved_fragments)) (f64_of_nat resolved_fragments))"

section \<open>The deadline\<close>

lemma clamp_range:
  "\<not> f64_is_nan x \<Longrightarrow> \<exists>d. f64_clamp (Fin 200) (Fin 300) x = Fin d \<and> 200 \<le> d \<and> d \<le> 300"
  by (cases x) (auto simp: f64_clamp_def Let_def)

lemma duration_range:
  assumes "200 \<le> d" "d \<le> 300"
  shows "\<exists>t. from_secs_f64 (Fin (fl (d / 1000))) = Ok t \<and> 200000000 \<le> t \<and> t \<le> 300000000"
proof -
  have "0 \<le> d / 1000" using assms by simp
  note b = fl_bounds [OF this]
  have lo: "1999999999 / 10000000000 \<le> fl (d / 1000)"
    using assms by (intro order_trans [OF _ b(1)]) (simp add: field_simps)
  have hi: "fl (d / 1000) \<le> 3000000001 / 10000000000"
    using assms by (intro order_trans [OF b(2)]) (simp add: field_simps)
  have "200000000 \<le> rne (fl (d / 1000) * 1000000000)" "rne (fl (d / 1000) * 1000000000) \<le> 300000000"
    using lo hi by (intro rne_ge rne_le; simp)+
  then show ?thesis using lo hi by (simp add: le_nat_iff nat_le_iff)
qed

section \<open>Properties\<close>

text \<open>The media deadline is hard bounded. Unless both of its two estimates are not numbers, it is computed
  without a panic and lies between 200 and 300 milliseconds, whatever the round trip, the jitter and
  the playout target are, infinite values included.\<close>

lemma media_deadline_bounded:
  assumes "\<not> f64_is_nan (f64_add (f64_mul (f64_lit 2) playout_target_ms) frame_ms) \<or>
    \<not> f64_is_nan (f64_add (f64_add rtt_ms (f64_mul (f64_lit 3) jitter_ms)) frame_ms)"
  shows "\<exists>t. media_deadline_from_observations rtt_ms jitter_ms frame_ms playout_target_ms = Ok t \<and>
    200000000 \<le> t \<and> t \<le> 300000000"
proof -
  let ?x = "f64_max (f64_add (f64_mul (f64_lit 2) playout_target_ms) frame_ms)
    (f64_add (f64_add rtt_ms (f64_mul (f64_lit 3) jitter_ms)) frame_ms)"
  have "\<not> f64_is_nan ?x" using assms by (auto simp: f64_max_def)
  then obtain d where d: "f64_clamp (Fin 200) (Fin 300) ?x = Fin d" "200 \<le> d" "d \<le> 300"
    using clamp_range by blast
  show ?thesis
    using duration_range [OF d(2,3)] d(1)
    by (simp add: media_deadline_from_observations_def Let_def MEDIA_DEADLINE_MIN_MS_def MEDIA_DEADLINE_MAX_MS_def
        f64_lit_numeral)
qed

end
