(* ===== verification/Media_Format.thy ===== *)
theory Media_Format
  imports Prelude
begin

text \<open>
  Decoder offers and their admission: \<open>crates/picoo-protocol/src/media_format.rs\<close>, over the messages of
  \<open>proto/picoo_camera.proto\<close>. An enumeration field of a message is the integer on the wire; \<open>try_from\<close>
  reads it as a member of the enumeration. Unsigned fields are natural numbers below \<open>2 ^ 32\<close>.
\<close>

section \<open>Messages\<close>

datatype video_codec = CodecUnspecified | Avc | Hevc
datatype video_profile = ProfileUnspecified | AvcHigh | HevcMain
datatype video_tier = TierUnspecified | TierAvc | TierHevcMain | TierHevcHigh
datatype color_range = RangeUnspecified | RangeLimited | RangeFull

fun codec_i32 :: "video_codec \<Rightarrow> int" where
  "codec_i32 CodecUnspecified = 0" | "codec_i32 Avc = 1" | "codec_i32 Hevc = 2"

fun profile_i32 :: "video_profile \<Rightarrow> int" where
  "profile_i32 ProfileUnspecified = 0" | "profile_i32 AvcHigh = 1" | "profile_i32 HevcMain = 2"

fun tier_i32 :: "video_tier \<Rightarrow> int" where
  "tier_i32 TierUnspecified = 0" | "tier_i32 TierAvc = 1" | "tier_i32 TierHevcMain = 2" | "tier_i32 TierHevcHigh = 3"

fun range_i32 :: "color_range \<Rightarrow> int" where
  "range_i32 RangeUnspecified = 0" | "range_i32 RangeLimited = 1" | "range_i32 RangeFull = 2"

definition codec_try_from :: "int \<Rightarrow> video_codec option" where
  "codec_try_from v = (if v = 0 then Some CodecUnspecified else if v = 1 then Some Avc else if v = 2 then Some Hevc else None)"

definition profile_try_from :: "int \<Rightarrow> video_profile option" where
  "profile_try_from v =
     (if v = 0 then Some ProfileUnspecified else if v = 1 then Some AvcHigh else if v = 2 then Some HevcMain else None)"

definition tier_try_from :: "int \<Rightarrow> video_tier option" where
  "tier_try_from v =
     (if v = 0 then Some TierUnspecified else if v = 1 then Some TierAvc else if v = 2 then Some TierHevcMain
      else if v = 3 then Some TierHevcHigh else None)"

definition range_try_from :: "int \<Rightarrow> color_range option" where
  "range_try_from v =
     (if v = 0 then Some RangeUnspecified else if v = 1 then Some RangeLimited else if v = 2 then Some RangeFull else None)"

definition CHROMA_YUV420 :: int where "CHROMA_YUV420 = 1"
definition COLOR_BT709 :: int where "COLOR_BT709 = 1"

record resolution =
  rs_width :: nat
  rs_height :: nat

record frame_rate =
  fr_numerator :: nat
  fr_denominator :: nat

record visible_rect =
  vr_x :: nat
  vr_y :: nat
  vr_width :: nat
  vr_height :: nat

record color_description =
  cd_range :: int
  cd_primaries :: int
  cd_transfer :: int
  cd_matrix :: int

record video_format =
  vf_codec :: int
  vf_profile :: int
  vf_bit_depth :: nat
  vf_chroma :: int
  vf_coded_size :: "resolution option"
  vf_visible_rect :: "visible_rect option"
  vf_frame_rate :: "frame_rate option"
  vf_color :: "color_description option"
  vf_tier :: int

record decoder_offer =
  do_format :: "video_format option"
  do_max_access_unit_bytes :: nat
  do_max_level_idc :: nat

type_synonym capabilities = "decoder_offer list"

record stream_config =
  sc_codec :: int
  sc_profile :: int
  sc_level_idc :: nat
  sc_width :: nat
  sc_height :: nat
  sc_fps :: nat
  sc_bitrate :: nat
  sc_rotation :: nat
  sc_mirrored :: bool
  sc_color_range :: int
  sc_codec_configuration :: bytes
  sc_stream_epoch :: nat

section \<open>Validation\<close>

definition MAX_DECODER_OFFERS :: nat where "MAX_DECODER_OFFERS = 16"
definition MAX_MEDIA_ACCESS_UNIT_BYTES :: nat where "MAX_MEDIA_ACCESS_UNIT_BYTES = 2 * 1024 * 1024"

type_synonym media_format_error = string

definition sdr_709 :: "video_codec \<Rightarrow> resolution \<Rightarrow> frame_rate \<Rightarrow> color_range \<Rightarrow> video_format" where
  "sdr_709 codec coded_size rate crange =
     \<lparr> vf_codec = codec_i32 codec,
       vf_profile = profile_i32 (case codec of Avc \<Rightarrow> AvcHigh | Hevc \<Rightarrow> HevcMain | CodecUnspecified \<Rightarrow> ProfileUnspecified),
       vf_bit_depth = 8, vf_chroma = CHROMA_YUV420, vf_coded_size = Some coded_size,
       vf_visible_rect = Some \<lparr> vr_x = 0, vr_y = 0, vr_width = rs_width coded_size, vr_height = rs_height coded_size \<rparr>,
       vf_frame_rate = Some rate,
       vf_color = Some \<lparr> cd_range = range_i32 crange, cd_primaries = COLOR_BT709, cd_transfer = COLOR_BT709,
                         cd_matrix = COLOR_BT709 \<rparr>,
       vf_tier = tier_i32 (case codec of Avc \<Rightarrow> TierAvc | Hevc \<Rightarrow> TierHevcMain | CodecUnspecified \<Rightarrow> TierUnspecified) \<rparr>"

text \<open>\<open>checked_add(..).is_none_or(|end| end > limit)\<close>\<close>

definition ends_beyond :: "nat \<Rightarrow> nat \<Rightarrow> nat \<Rightarrow> bool" where
  "ends_beyond start len limit \<longleftrightarrow> start + len > u32_max \<or> start + len > limit"

definition check_codec :: "video_format \<Rightarrow> (unit, media_format_error) result" where
  "check_codec f =
     (case codec_try_from (vf_codec f) of
        None \<Rightarrow> Err ''unknown codec''
      | Some codec \<Rightarrow>
          (case profile_try_from (vf_profile f) of
             None \<Rightarrow> Err ''unknown profile''
           | Some profile \<Rightarrow>
               if \<not> (codec = Avc \<and> profile = AvcHigh \<or> codec = Hevc \<and> profile = HevcMain)
               then Err ''codec/profile combination''
               else if \<not> (codec = Avc \<and> tier_try_from (vf_tier f) = Some TierAvc \<or>
                          codec = Hevc \<and> tier_try_from (vf_tier f) \<in> {Some TierHevcMain, Some TierHevcHigh})
               then Err ''codec/tier combination''
               else if vf_bit_depth f \<noteq> 8 \<or> vf_chroma f \<noteq> CHROMA_YUV420 then Err ''requires 8-bit 4:2:0''
               else Ok ()))"

definition check_geometry :: "video_format \<Rightarrow> (unit, media_format_error) result" where
  "check_geometry f =
     (case vf_coded_size f of
        None \<Rightarrow> Err ''missing coded size''
      | Some sz \<Rightarrow>
          if (rs_width sz, rs_height sz) \<notin> {(1280, 720), (1280, 736), (1920, 1080), (1920, 1088)}
          then Err ''unsupported coded size''
          else
            (case vf_visible_rect f of
               None \<Rightarrow> Err ''missing visible rect''
             | Some rect \<Rightarrow>
                 if (vr_width rect, vr_height rect) \<notin> {(1280, 720), (1920, 1080)} \<or>
                    (\<exists>v \<in> {vr_x rect, vr_y rect, vr_width rect, vr_height rect}. v mod 2 \<noteq> 0) \<or>
                    ends_beyond (vr_x rect) (vr_width rect) (rs_width sz) \<or>
                    ends_beyond (vr_y rect) (vr_height rect) (rs_height sz)
                 then Err ''visible rect outside 4:2:0 coded image'' else Ok ()))"

definition check_presentation :: "video_format \<Rightarrow> (unit, media_format_error) result" where
  "check_presentation f =
     (case vf_frame_rate f of
        None \<Rightarrow> Err ''missing frame rate''
      | Some fps \<Rightarrow>
          if fr_denominator fps \<noteq> 1 \<or> fr_numerator fps \<notin> {30, 60}
          then Err ''requires explicit 30/1 or 60/1 frame rate''
          else
            (case vf_color f of
               None \<Rightarrow> Err ''missing color description''
             | Some color \<Rightarrow>
                 if range_try_from (cd_range color) \<notin> {Some RangeLimited, Some RangeFull} \<or>
                    cd_primaries color \<noteq> COLOR_BT709 \<or> cd_transfer color \<noteq> COLOR_BT709 \<or> cd_matrix color \<noteq> COLOR_BT709
                 then Err ''requires explicit BT.709 SDR color description'' else Ok ()))"

definition format_validate :: "video_format \<Rightarrow> (unit, media_format_error) result" where
  "format_validate f = rbind (check_codec f) (\<lambda>_. rbind (check_geometry f) (\<lambda>_. check_presentation f))"

section \<open>Levels\<close>

type_synonym level_limit = "nat \<times> nat \<times> nat"

definition AVC_LIMITS :: "level_limit list" where
  "AVC_LIMITS = [(31, 3600, 108000), (32, 5120, 216000), (40, 8192, 245760), (42, 8704, 522240)]"

definition HEVC_LIMITS :: "level_limit list" where
  "HEVC_LIMITS = [(93, 983040, 33177600), (120, 2228224, 66846720), (123, 2228224, 133693440)]"

definition workload :: "video_codec \<Rightarrow> resolution \<Rightarrow> nat" where
  "workload codec sz =
     (case codec of
        Avc \<Rightarrow> div_ceil (rs_width sz) 16 * div_ceil (rs_height sz) 16
      | Hevc \<Rightarrow> rs_width sz * rs_height sz
      | CodecUnspecified \<Rightarrow> 0)"

text \<open>\<open>find(..).expect(..)\<close>, with the products in 64 bits (the factors have 32).\<close>

definition find_level :: "nat \<Rightarrow> nat \<Rightarrow> level_limit list \<Rightarrow> (nat, media_format_error) result" where
  "find_level picture numerator limits =
     (case find (\<lambda>(_, max_picture, max_rate). picture \<le> max_picture \<and> picture * numerator \<le> max_rate) limits of
        None \<Rightarrow> Panic
      | Some (level, _, _) \<Rightarrow> Ok level)"

definition minimum_level_idc :: "video_format \<Rightarrow> (nat, media_format_error) result" where
  "minimum_level_idc f =
     (case (vf_coded_size f, vf_frame_rate f, codec_try_from (vf_codec f)) of
        (Some sz, Some fps, Some Avc) \<Rightarrow> find_level (workload Avc sz) (fr_numerator fps) AVC_LIMITS
      | (Some sz, Some fps, Some Hevc) \<Rightarrow> find_level (workload Hevc sz) (fr_numerator fps) HEVC_LIMITS
      | _ \<Rightarrow> Panic)"

definition known_level :: "video_format \<Rightarrow> nat \<Rightarrow> bool" where
  "known_level f level =
     (case codec_try_from (vf_codec f) of
        Some Avc \<Rightarrow> level \<in> {31, 32, 40, 41, 42, 50, 51, 52}
      | Some Hevc \<Rightarrow> level \<in> {93, 120, 123, 150, 153, 156}
      | _ \<Rightarrow> False)"

text \<open>The conjunctions and disjunctions evaluate from the left, so \<open>minimum_level_idc\<close> runs only for known levels.\<close>

definition accepts_level :: "video_format \<Rightarrow> nat \<Rightarrow> (bool, media_format_error) result" where
  "accepts_level f level =
     (if \<not> known_level f level then Ok False
      else rbind (minimum_level_idc f)
        (\<lambda>minimum. Ok (level \<ge> minimum \<and> (vf_tier f \<noteq> tier_i32 TierHevcHigh \<or> level \<ge> 120))))"

definition validate_offer :: "decoder_offer list \<Rightarrow> decoder_offer \<Rightarrow> (unit, media_format_error) result" where
  "validate_offer earlier offer =
     (case do_format offer of
        None \<Rightarrow> Err ''missing offer format''
      | Some f \<Rightarrow>
          rbind (format_validate f) (\<lambda>_. rbind (accepts_level f (do_max_level_idc offer)) (\<lambda>accepted.
            if \<not> accepted then Err ''decoder level ceiling''
            else if do_max_access_unit_bytes offer = 0 \<or> do_max_access_unit_bytes offer > MAX_MEDIA_ACCESS_UNIT_BYTES
            then Err ''access unit budget''
            else if \<exists>other \<in> set earlier. do_format other = do_format offer then Err ''duplicate format''
            else Ok ())))"

fun validate_offers :: "decoder_offer list \<Rightarrow> decoder_offer list \<Rightarrow> (unit, media_format_error) result" where
  "validate_offers earlier [] = Ok ()"
| "validate_offers earlier (offer # offers) =
     rbind (validate_offer earlier offer) (\<lambda>_. validate_offers (earlier @ [offer]) offers)"

definition caps_validate :: "capabilities \<Rightarrow> (unit, media_format_error) result" where
  "caps_validate offers =
     (if offers = [] \<or> length offers > MAX_DECODER_OFFERS then Err ''decoder offer count''
      else validate_offers [] offers)"

definition caps_supports :: "capabilities \<Rightarrow> video_format \<Rightarrow> nat \<Rightarrow> nat \<Rightarrow> (bool, media_format_error) result" where
  "caps_supports offers f level_idc access_unit_bytes =
     (case caps_validate offers of
        Panic \<Rightarrow> Panic
      | Err e \<Rightarrow> Ok False
      | Ok _ \<Rightarrow>
          (case format_validate f of
             Panic \<Rightarrow> Panic
           | Err e \<Rightarrow> Ok False
           | Ok _ \<Rightarrow>
               rbind (accepts_level f level_idc) (\<lambda>accepted. Ok (accepted \<and> access_unit_bytes > 0 \<and>
                 (\<exists>offer \<in> set offers. do_format offer = Some f \<and> level_idc \<le> do_max_level_idc offer \<and>
                    access_unit_bytes \<le> do_max_access_unit_bytes offer)))))"

section \<open>Facts\<close>

definition supported_size :: "resolution \<Rightarrow> bool" where
  "supported_size sz \<longleftrightarrow> (rs_width sz, rs_height sz) \<in> {(1280, 720), (1280, 736), (1920, 1080), (1920, 1088)}"

text \<open>What a validated format is, as a predicate.\<close>

definition format_ok :: "video_format \<Rightarrow> bool" where
  "format_ok f \<longleftrightarrow>
     (codec_try_from (vf_codec f) = Some Avc \<and> vf_profile f = profile_i32 AvcHigh \<and> vf_tier f = tier_i32 TierAvc \<or>
      codec_try_from (vf_codec f) = Some Hevc \<and> vf_profile f = profile_i32 HevcMain \<and>
        vf_tier f \<in> {tier_i32 TierHevcMain, tier_i32 TierHevcHigh}) \<and>
     vf_bit_depth f = 8 \<and> vf_chroma f = CHROMA_YUV420 \<and>
     (\<exists>sz rect fps color. vf_coded_size f = Some sz \<and> supported_size sz \<and>
        vf_visible_rect f = Some rect \<and> (vr_width rect, vr_height rect) \<in> {(1280, 720), (1920, 1080)} \<and>
        even (vr_x rect) \<and> even (vr_y rect) \<and>
        vr_x rect + vr_width rect \<le> rs_width sz \<and> vr_y rect + vr_height rect \<le> rs_height sz \<and>
        vf_frame_rate f = Some fps \<and> fr_denominator fps = 1 \<and> fr_numerator fps \<in> {30, 60} \<and>
        vf_color f = Some color \<and> cd_range color \<in> {range_i32 RangeLimited, range_i32 RangeFull} \<and>
        cd_primaries color = COLOR_BT709 \<and> cd_transfer color = COLOR_BT709 \<and> cd_matrix color = COLOR_BT709)"

lemma codec_i32_iff: "codec_try_from v = Some c \<longleftrightarrow> v = codec_i32 c"
  by (cases c) (auto simp: codec_try_from_def)

lemma profile_i32_iff: "profile_try_from v = Some p \<longleftrightarrow> v = profile_i32 p"
  by (cases p) (auto simp: profile_try_from_def)

lemma tier_i32_iff: "tier_try_from v = Some t \<longleftrightarrow> v = tier_i32 t"
  by (cases t) (auto simp: tier_try_from_def)

lemma range_i32_iff: "range_try_from v = Some r \<longleftrightarrow> v = range_i32 r"
  by (cases r) (auto simp: range_try_from_def)

lemmas enum_iff = codec_i32_iff profile_i32_iff tier_i32_iff range_i32_iff

lemma if_Err: "(if b then Err e else r) = Ok x \<longleftrightarrow> \<not> b \<and> r = Ok x" "(if b then Err e else r) = Panic \<longleftrightarrow> \<not> b \<and> r = Panic"
  by simp_all

lemma rbind_Panic: "rbind r f = Panic \<longleftrightarrow> r = Panic \<or> (\<exists>x. r = Ok x \<and> f x = Panic)"
  by (cases r) simp_all

lemma check_codec_no_panic: "check_codec f \<noteq> Panic"
  by (simp add: check_codec_def split: option.split)

lemma check_geometry_no_panic: "check_geometry f \<noteq> Panic"
  by (cases "vf_coded_size f"; cases "vf_visible_rect f") (simp_all add: check_geometry_def if_Err del: if_split)

lemma check_presentation_no_panic: "check_presentation f \<noteq> Panic"
  by (cases "vf_frame_rate f"; cases "vf_color f") (simp_all add: check_presentation_def if_Err del: if_split)

lemma check_no_panic: "format_validate f \<noteq> Panic"
  by (simp add: format_validate_def rbind_Panic check_codec_no_panic check_geometry_no_panic check_presentation_no_panic)

lemma check_codec_Ok:
  "check_codec f = Ok () \<longleftrightarrow>
     (vf_codec f = codec_i32 Avc \<and> vf_profile f = profile_i32 AvcHigh \<and> vf_tier f = tier_i32 TierAvc \<or>
      vf_codec f = codec_i32 Hevc \<and> vf_profile f = profile_i32 HevcMain \<and>
        vf_tier f \<in> {tier_i32 TierHevcMain, tier_i32 TierHevcHigh}) \<and>
     vf_bit_depth f = 8 \<and> vf_chroma f = CHROMA_YUV420"
  by (auto simp: check_codec_def enum_iff codec_try_from_def profile_try_from_def tier_try_from_def split: option.splits if_splits)

lemma check_geometry_Ok:
  "check_geometry f = Ok () \<longleftrightarrow>
     (\<exists>sz rect. vf_coded_size f = Some sz \<and> supported_size sz \<and>
        vf_visible_rect f = Some rect \<and> (vr_width rect, vr_height rect) \<in> {(1280, 720), (1920, 1080)} \<and>
        even (vr_x rect) \<and> even (vr_y rect) \<and>
        vr_x rect + vr_width rect \<le> rs_width sz \<and> vr_y rect + vr_height rect \<le> rs_height sz)"
proof (cases "vf_coded_size f"; cases "vf_visible_rect f")
  fix sz rect assume s: "vf_coded_size f = Some sz" "vf_visible_rect f = Some rect"
  define W where "W \<longleftrightarrow> (vr_width rect, vr_height rect) \<in> {(1280, 720), (1920, 1080)}"
  define P where "P \<longleftrightarrow> (\<exists>v \<in> {vr_x rect, vr_y rect, vr_width rect, vr_height rect}. v mod 2 \<noteq> 0)"
  define X where "X \<longleftrightarrow> ends_beyond (vr_x rect) (vr_width rect) (rs_width sz)"
  define Y where "Y \<longleftrightarrow> ends_beyond (vr_y rect) (vr_height rect) (rs_height sz)"
  have P: "P \<longleftrightarrow> \<not> (even (vr_x rect) \<and> even (vr_y rect))" if W
    using that unfolding W_def P_def by (auto simp: even_iff_mod_2_eq_zero)
  have beyond: "ends_beyond v w l \<longleftrightarrow> l < v + w" if "l \<le> 1920" for v w l
    using that by (auto simp: ends_beyond_def u32_max_eval)
  have XY: "X \<longleftrightarrow> rs_width sz < vr_x rect + vr_width rect" "Y \<longleftrightarrow> rs_height sz < vr_y rect + vr_height rect"
    if "supported_size sz"
    using that unfolding X_def Y_def by (intro beyond; auto simp: supported_size_def)+
  have "check_geometry f = Ok () \<longleftrightarrow> supported_size sz \<and> \<not> (\<not> W \<or> P \<or> X \<or> Y)"
    unfolding check_geometry_def s option.case if_Err supported_size_def W_def P_def X_def Y_def by simp
  also have "\<dots> \<longleftrightarrow> supported_size sz \<and> W \<and> even (vr_x rect) \<and> even (vr_y rect) \<and>
      vr_x rect + vr_width rect \<le> rs_width sz \<and> vr_y rect + vr_height rect \<le> rs_height sz"
    using P XY by (cases W; cases "supported_size sz") auto
  finally show ?thesis unfolding W_def using s by simp
qed (simp_all add: check_geometry_def)

lemma check_presentation_Ok:
  "check_presentation f = Ok () \<longleftrightarrow>
     (\<exists>fps color. vf_frame_rate f = Some fps \<and> fr_denominator fps = 1 \<and> fr_numerator fps \<in> {30, 60} \<and>
        vf_color f = Some color \<and> cd_range color \<in> {range_i32 RangeLimited, range_i32 RangeFull} \<and>
        cd_primaries color = COLOR_BT709 \<and> cd_transfer color = COLOR_BT709 \<and> cd_matrix color = COLOR_BT709)"
  by (auto simp: check_presentation_def enum_iff split: option.splits if_splits)

lemma rbind_unit_Ok: "rbind r f = Ok x \<longleftrightarrow> (\<exists>y. r = Ok y \<and> f y = Ok x)"
  by (cases r) simp_all

lemma validate_Ok: "format_validate f = Ok () \<longleftrightarrow> format_ok f"
  unfolding format_validate_def rbind_unit_Ok unit_all_eq1
  by (simp add: check_codec_Ok check_geometry_Ok check_presentation_Ok format_ok_def codec_i32_iff) blast

text \<open>The level tables cover every validated format.\<close>

lemma minimum_level_ok:
  assumes "format_ok f"
  obtains sz fps level where "vf_coded_size f = Some sz" "vf_frame_rate f = Some fps"
    "minimum_level_idc f = Ok level" "known_level f level"
proof -
  from assms obtain sz fps where s: "vf_coded_size f = Some sz" "supported_size sz" "vf_frame_rate f = Some fps"
      "fr_numerator fps = 30 \<or> fr_numerator fps = 60" by (auto simp: format_ok_def)
  from assms have c: "codec_try_from (vf_codec f) = Some Avc \<or> codec_try_from (vf_codec f) = Some Hevc"
    by (auto simp: format_ok_def)
  have "\<exists>level. minimum_level_idc f = Ok level \<and> known_level f level"
    using s c
    by (auto simp: minimum_level_idc_def known_level_def find_level_def supported_size_def workload_def div_ceil_def
        AVC_LIMITS_def HEVC_LIMITS_def)
  then show thesis using that s by blast
qed

lemma accepts_level_ok:
  assumes "format_ok f"
  shows "\<exists>b. accepts_level f level = Ok b"
  using minimum_level_ok [OF assms] by (metis accepts_level_def rbind.simps(1))

lemma validate_offer_no_panic: "validate_offer earlier offer \<noteq> Panic"
proof (cases "do_format offer")
  case (Some f)
  show ?thesis
  proof (cases "format_validate f")
    case (Ok u)
    then obtain b where "accepts_level f (do_max_level_idc offer) = Ok b"
      using accepts_level_ok [of f "do_max_level_idc offer"] validate_Ok by auto
    then show ?thesis using Some Ok by (simp add: validate_offer_def)
  qed (use Some check_no_panic [of f] in \<open>simp_all add: validate_offer_def\<close>)
qed (simp add: validate_offer_def)

lemma validate_offers_no_panic: "validate_offers earlier offers \<noteq> Panic"
proof (induction offers arbitrary: earlier)
  case (Cons offer offers)
  then show ?case using validate_offer_no_panic [of earlier offer] by (cases "validate_offer earlier offer") simp_all
qed simp

lemma validate_offer_Ok:
  "validate_offer earlier offer = Ok () \<longleftrightarrow>
     (\<exists>f. do_format offer = Some f \<and> format_ok f \<and> accepts_level f (do_max_level_idc offer) = Ok True \<and>
        0 < do_max_access_unit_bytes offer \<and> do_max_access_unit_bytes offer \<le> MAX_MEDIA_ACCESS_UNIT_BYTES \<and>
        (\<forall>other \<in> set earlier. do_format other \<noteq> Some f))"
  by (auto simp: validate_offer_def rbind_unit_Ok validate_Ok split: option.splits if_splits)

lemma validate_offers_Ok:
  "validate_offers earlier offers = Ok () \<Longrightarrow> offer \<in> set offers \<Longrightarrow>
   \<exists>earlier. validate_offer earlier offer = Ok ()"
proof (induction offers arbitrary: earlier)
  case (Cons x offers)
  then show ?case by (cases "validate_offer earlier x") auto
qed simp

lemma validate_offers_distinct:
  "validate_offers earlier offers = Ok () \<Longrightarrow> distinct (map do_format earlier) \<Longrightarrow>
   distinct (map do_format (earlier @ offers))"
proof (induction offers arbitrary: earlier)
  case (Cons x offers)
  then obtain "validate_offer earlier x = Ok ()" "validate_offers (earlier @ [x]) offers = Ok ()"
    by (cases "validate_offer earlier x") auto
  moreover from this have "distinct (map do_format (earlier @ [x]))"
    using Cons.prems(2) by (auto simp: validate_offer_Ok)
  ultimately show ?case using Cons.IH [of "earlier @ [x]"] by simp
qed simp

lemma find_level_Ok:
  "find_level picture numerator limits = Ok level \<Longrightarrow>
   \<exists>max_picture max_rate. (level, max_picture, max_rate) \<in> set limits \<and> picture \<le> max_picture \<and>
     picture * numerator \<le> max_rate"
  by (auto simp: find_level_def find_Some_iff split: option.splits) (metis nth_mem)

text \<open>The level's row of the table holds the pictures of the format and their rate.\<close>

definition fits_level :: "video_format \<Rightarrow> nat \<Rightarrow> bool" where
  "fits_level f level \<longleftrightarrow>
     (\<exists>sz fps codec limits row max_picture max_rate. vf_coded_size f = Some sz \<and> vf_frame_rate f = Some fps \<and>
        codec_try_from (vf_codec f) = Some codec \<and> limits = (if codec = Avc then AVC_LIMITS else HEVC_LIMITS) \<and>
        (row, max_picture, max_rate) \<in> set limits \<and> row \<le> level \<and>
        workload codec sz \<le> max_picture \<and> workload codec sz * fr_numerator fps \<le> max_rate)"

lemma minimum_level_fits:
  assumes "minimum_level_idc f = Ok minimum" "minimum \<le> level"
  shows "fits_level f level"
proof -
  obtain sz fps where s: "vf_coded_size f = Some sz" "vf_frame_rate f = Some fps"
    using assms(1) by (auto simp: minimum_level_idc_def split: option.splits)
  consider "codec_try_from (vf_codec f) = Some Avc" | "codec_try_from (vf_codec f) = Some Hevc"
    using assms(1) s by (auto simp: minimum_level_idc_def split: option.splits video_codec.splits)
  then show ?thesis
    using assms s find_level_Ok by cases (fastforce simp: fits_level_def minimum_level_idc_def)+
qed

lemma accepts_level_fits: "accepts_level f level = Ok True \<Longrightarrow> fits_level f level"
  by (auto simp: accepts_level_def rbind_unit_Ok split: if_splits intro: minimum_level_fits)

lemma caps_validate_no_panic: "caps_validate offers \<noteq> Panic"
  by (simp add: caps_validate_def validate_offers_no_panic)

lemma caps_validate_Ok:
  assumes "caps_validate offers = Ok u"
  shows "distinct (map do_format offers)" "length offers \<le> 16"
    "offer \<in> set offers \<Longrightarrow> do_max_access_unit_bytes offer \<le> MAX_MEDIA_ACCESS_UNIT_BYTES"
proof -
  have v: "validate_offers [] offers = Ok ()" "length offers \<le> 16"
    using assms by (auto simp: caps_validate_def MAX_DECODER_OFFERS_def split: if_splits)
  then show "distinct (map do_format offers)" "length offers \<le> 16"
    using validate_offers_distinct [of "[]" offers] by simp_all
  show "offer \<in> set offers \<Longrightarrow> do_max_access_unit_bytes offer \<le> MAX_MEDIA_ACCESS_UNIT_BYTES"
    using validate_offers_Ok [OF v(1)] by (auto simp: validate_offer_Ok)
qed

lemma caps_supports_total: "\<exists>b. caps_supports offers f level n = Ok b"
proof (cases "format_validate f")
  case (Ok u)
  then obtain b where "accepts_level f level = Ok b" using accepts_level_ok [of f level] validate_Ok by auto
  then show ?thesis
    using Ok caps_validate_no_panic [of offers]
    by (cases "caps_validate offers") (auto simp: caps_supports_def intro: exI [of _ False])
next
  case (Err e)
  then show ?thesis
    using caps_validate_no_panic [of offers]
    by (cases "caps_validate offers") (auto simp: caps_supports_def intro: exI [of _ False])
qed (use check_no_panic [of f] in simp)

lemma caps_supports_True:
  "caps_supports offers f level n = Ok True \<longleftrightarrow>
     (\<exists>u. caps_validate offers = Ok u) \<and> format_ok f \<and> accepts_level f level = Ok True \<and> 0 < n \<and>
     (\<exists>offer \<in> set offers. do_format offer = Some f \<and> level \<le> do_max_level_idc offer \<and>
        n \<le> do_max_access_unit_bytes offer)"
  by (auto simp: caps_supports_def rbind_unit_Ok validate_Ok [symmetric] split: result.splits)

section \<open>Properties\<close>

text \<open>C27: admission against a list of decoder offers always comes to a verdict, whatever the peer sent. A
  stream that is admitted has a well-formed format, is backed by exactly one offer, whose level and
  access unit budget (at most 2 MiB) cover it, and its pictures and their rate fit the limits of its
  level; and smaller access units of the stream are admitted too.\<close>

theorem decoder_admission_sound:
  "(\<exists>b. caps_supports offers f level n = Ok b) \<and>
   (caps_supports offers f level n = Ok True \<longrightarrow>
      format_ok f \<and> fits_level f level \<and> 0 < n \<and> n \<le> 2 * 1024 * 1024 \<and> length offers \<le> 16 \<and>
      (\<exists>!offer. offer \<in> set offers \<and> do_format offer = Some f) \<and>
      (\<forall>offer \<in> set offers. do_format offer = Some f \<longrightarrow>
         level \<le> do_max_level_idc offer \<and> n \<le> do_max_access_unit_bytes offer) \<and>
      (\<forall>n'. 0 < n' \<and> n' \<le> n \<longrightarrow> caps_supports offers f level n' = Ok True))"
proof (intro conjI impI caps_supports_total)
  assume sup: "caps_supports offers f level n = Ok True"
  then obtain u offer where u: "caps_validate offers = Ok u"
      and o: "offer \<in> set offers" "do_format offer = Some f" "level \<le> do_max_level_idc offer"
        "n \<le> do_max_access_unit_bytes offer"
    by (auto simp: caps_supports_True)
  note v = caps_validate_Ok [OF u]
  show "format_ok f" "0 < n" using sup by (simp_all add: caps_supports_True)
  show "fits_level f level" using sup accepts_level_fits by (simp add: caps_supports_True)
  show "n \<le> 2 * 1024 * 1024" "length offers \<le> 16"
    using v(2) v(3) [OF o(1)] o(4) by (simp_all add: MAX_MEDIA_ACCESS_UNIT_BYTES_def)
  have unique: "other = offer" if "other \<in> set offers" "do_format other = Some f" for other
    using that o v(1) by (metis distinct_map inj_onD)
  then show "\<exists>!offer. offer \<in> set offers \<and> do_format offer = Some f" using o by blast
  show "\<forall>other \<in> set offers. do_format other = Some f \<longrightarrow>
      level \<le> do_max_level_idc other \<and> n \<le> do_max_access_unit_bytes other"
    using unique o(3,4) by blast
  show "\<forall>n'. 0 < n' \<and> n' \<le> n \<longrightarrow> caps_supports offers f level n' = Ok True"
    using sup by (auto simp: caps_supports_True)
qed

definition sample_format :: video_format where
  "sample_format = sdr_709 Avc \<lparr> rs_width = 1280, rs_height = 720 \<rparr> \<lparr> fr_numerator = 30, fr_denominator = 1 \<rparr> RangeLimited"

definition sample_offers :: capabilities where
  "sample_offers = [\<lparr> do_format = Some sample_format, do_max_access_unit_bytes = 1000000, do_max_level_idc = 40 \<rparr>]"

lemma sample_admitted: "caps_supports sample_offers sample_format 31 500000 = Ok True"
proof -
  have f: "format_ok sample_format"
    by (simp add: format_ok_def sample_format_def sdr_709_def supported_size_def codec_try_from_def)
  have l: "accepts_level sample_format 31 = Ok True" "accepts_level sample_format 40 = Ok True"
    by (simp_all add: accepts_level_def known_level_def minimum_level_idc_def sample_format_def sdr_709_def
        codec_try_from_def find_level_def AVC_LIMITS_def workload_def div_ceil_def)
  have "validate_offers [] sample_offers = Ok ()"
    using f l by (simp add: sample_offers_def validate_offer_Ok MAX_MEDIA_ACCESS_UNIT_BYTES_def)
  then show ?thesis
    using f l by (simp add: caps_supports_True caps_validate_def) (simp add: sample_offers_def MAX_DECODER_OFFERS_def)
qed

theorem decoder_admission_sound_witness:
  "caps_supports sample_offers sample_format 31 1 = Ok True \<and> fits_level sample_format 31"
  using decoder_admission_sound [of sample_offers sample_format 31 500000] sample_admitted by auto

end
