(* ===== verification/Control_Messages.thy ===== *)
theory Control_Messages
  imports Media_Format F64 Video_Packet
begin

text \<open>
  The control protocol: the messages of \<open>proto/picoo_camera.proto\<close> as the code sees them, the
  envelope of \<open>crates/picoo-protocol/src/lib.rs\<close>, and the receiver's phase whitelist of
  \<open>control_gate.rs\<close>. The byte encoding of a message is generated by \<open>prost\<close> and is an argument where
  the envelope is read or written.
\<close>

section \<open>Messages\<close>

record client_hello =
  ch_sender_id :: string
  ch_device_name :: string
  ch_public_key :: bytes
  ch_sender_nonce :: bytes

record server_hello =
  sh_receiver_id :: string
  sh_display_name :: string
  sh_public_key :: bytes
  sh_pairing_required :: bool
  sh_receiver_nonce :: bytes
  sh_transcript_hash :: bytes
  sh_identity_signature :: bytes

text \<open>\<open>PairingConfirm\<close>, \<open>PairingApproval\<close>, \<open>PairingCommit\<close> and \<open>PairingComplete\<close> have these fields.\<close>

record identity_proof =
  ip_transcript_hash :: bytes
  ip_identity_signature :: bytes

record camera_command =
  cm_command :: int
  cm_resolution :: "resolution option"
  cm_mirrored :: bool

record sender_stats =
  st_access_units :: nat
  st_submitted_datagrams :: nat
  st_video_queue_age_ms :: f64
  st_video_dropped_access_units :: nat
  st_quic_lost_packets :: nat
  st_quic_sent_packets :: nat
  st_video_buffered_bytes :: nat

record clock_sync_ping =
  cp_sample_id :: nat
  cp_receiver_send_us :: nat
  cp_stream_epoch :: nat

record clock_sync_pong =
  cq_sample_id :: nat
  cq_receiver_send_us :: nat
  cq_sender_receive_us :: nat
  cq_sender_send_us :: nat
  cq_stream_epoch :: nat

record session_error =
  er_code :: string
  er_message :: string

definition REQUEST_KEYFRAME :: int where "REQUEST_KEYFRAME = 1"
definition CAMERA_UNSPECIFIED :: int where "CAMERA_UNSPECIFIED = 0"

record receiver_stats_message =
  rsm_rtt_ms :: f64
  rsm_packet_loss :: f64
  rsm_jitter_ms :: f64
  rsm_reassembly_drop :: nat
  rsm_decoder_drop :: nat
  rsm_frame_age_ms :: f64
  rsm_receive_bitrate :: nat
  rsm_jitter_buffer_target_ms :: f64
  rsm_jitter_buffer_actual_delay_ms :: f64
  rsm_jitter_buffer_occupancy_ms :: f64
  rsm_pre_fec_packet_loss :: f64
  rsm_capture_to_encode_ms :: "f64 option"
  rsm_encode_to_arrival_ms :: "f64 option"
  rsm_jitter_residence_ms :: "f64 option"
  rsm_decode_ms :: "f64 option"
  rsm_frame_publish_age_ms :: "f64 option"
  rsm_end_to_end_latency_ms :: "f64 option"
  rsm_clock_uncertainty_ms :: "f64 option"
  rsm_receive_queue_age_ms :: f64

text \<open>The \<open>oneof\<close> of the envelope.\<close>

datatype control_payload =
    ClientHelloMsg client_hello
  | ServerHelloMsg server_hello
  | CapabilitiesMsg capabilities
  | PairingConfirmMsg identity_proof
  | PairingApprovalMsg identity_proof
  | PairingCommitMsg identity_proof
  | PairingCompleteMsg identity_proof
  | StreamConfigMsg stream_config
  | StartStreamMsg
  | StopStreamMsg
  | CameraCommandMsg camera_command
  | EncoderCommandMsg int
  | RequestKeyframeMsg
  | ReceiverStatsMsg receiver_stats_message
  | SenderStatsMsg sender_stats
  | HeartbeatMsg
  | ClockSyncPingMsg clock_sync_ping
  | ClockSyncPongMsg clock_sync_pong
  | SessionErrorMsg session_error

record control_envelope =
  ce_message_id :: nat
  ce_connection_generation :: nat
  ce_payload :: "control_payload option"

datatype control_envelope_error =
  EnvelopeDecode | MissingMessageId | MissingConnectionGeneration | MissingPayload

definition decode_control_envelope ::
  "(bytes \<Rightarrow> control_envelope option) \<Rightarrow> bytes \<Rightarrow> (control_envelope, control_envelope_error) result" where
  "decode_control_envelope prost bytes =
     rbind (ok_or (prost bytes) EnvelopeDecode) (\<lambda>envelope.
       if ce_message_id envelope = 0 then Err MissingMessageId
       else if ce_connection_generation envelope = 0 then Err MissingConnectionGeneration
       else if ce_payload envelope = None then Err MissingPayload
       else Ok envelope)"

definition encode_control_envelope ::
  "(control_envelope \<Rightarrow> bytes) \<Rightarrow> control_payload \<Rightarrow> nat \<Rightarrow> nat \<Rightarrow> bytes" where
  "encode_control_envelope prost payload message_id connection_generation =
     prost \<lparr> ce_message_id = message_id, ce_connection_generation = connection_generation,
             ce_payload = Some payload \<rparr>"

section \<open>What the transport delivers\<close>

text \<open>The close reason of a disconnect is not looked at; a video batch carries its arrival time.\<close>

datatype transport_event =
    TransportConnected nat
  | TransportDisconnected nat
  | TransportControl nat bytes
  | TransportVideo nat "video_packet list" nat

definition ALPN :: string where "ALPN = ''picoocam''"

section \<open>The receiver's phases\<close>

datatype receiver_control_phase = AwaitingClientHello | PhasePairing | AuthenticatedIdle | PhaseStreaming

fun receiver_payload_allowed :: "receiver_control_phase \<Rightarrow> control_payload \<Rightarrow> bool" where
  "receiver_payload_allowed AwaitingClientHello payload = (case payload of ClientHelloMsg _ \<Rightarrow> True | _ \<Rightarrow> False)"
| "receiver_payload_allowed PhasePairing payload =
     (case payload of PairingCommitMsg _ \<Rightarrow> True | PairingConfirmMsg _ \<Rightarrow> True | StartStreamMsg \<Rightarrow> True
      | StopStreamMsg \<Rightarrow> True | _ \<Rightarrow> False)"
| "receiver_payload_allowed AuthenticatedIdle payload =
     (case payload of StartStreamMsg \<Rightarrow> True | StopStreamMsg \<Rightarrow> True | SenderStatsMsg _ \<Rightarrow> True
      | StreamConfigMsg _ \<Rightarrow> True | _ \<Rightarrow> False)"
| "receiver_payload_allowed PhaseStreaming payload =
     (case payload of StartStreamMsg \<Rightarrow> True | StopStreamMsg \<Rightarrow> True | SenderStatsMsg _ \<Rightarrow> True
      | StreamConfigMsg _ \<Rightarrow> True | ClockSyncPongMsg _ \<Rightarrow> True | _ \<Rightarrow> False)"

text \<open>What the receiver knows of the sender on its connection.\<close>

record active_sender =
  snd_id :: string
  snd_name :: string
  snd_public_key :: bytes
  snd_video_allowed :: bool

end
