(* ===== verification/Media_Scheduler.thy ===== *)
theory Media_Scheduler
  imports Prelude
begin

text \<open>
  The receiver's playout decision, \<open>schedule_media\<close>: \<open>crates/picoo-receiver/src/media_scheduler.rs\<close>.
  Durations are natural numbers.
\<close>

datatype media_wait_reason =
  OlderAccessUnit | PlayoutTarget | HardExpiration | RefreshConfirmation | DecoderCapacity | MediaEvent

datatype recovery_admission = RecoveryReady | RecoveryDrop | WaitForRefresh

datatype decoder_admission = DecoderReady | WaitForCapacity | DropDiscardable

datatype media_schedule_decision =
    DecodeReadyFrame
  | DiscardReadyFrame
  | DiscardRecoveryBlockedFrame
  | DiscardExpired
  | WaitUntil nat media_wait_reason
  | WaitForEvent media_wait_reason
  | ScheduleIdle

fun wake_delay :: "media_schedule_decision \<Rightarrow> nat option" where
  "wake_delay DecodeReadyFrame = Some 0"
| "wake_delay DiscardReadyFrame = Some 0"
| "wake_delay DiscardRecoveryBlockedFrame = Some 0"
| "wake_delay DiscardExpired = Some 0"
| "wake_delay (WaitUntil delay reason) = Some delay"
| "wake_delay (WaitForEvent reason) = None"
| "wake_delay ScheduleIdle = None"

record media_schedule_input =
  msi_front_frame_id :: "nat option"
  msi_oldest_unresolved_frame_id :: "nat option"
  msi_release_delay :: "nat option"
  msi_expiration_delay :: "nat option"
  msi_recovery_admission :: recovery_admission
  msi_decoder_admission :: decoder_admission

text \<open>\<open>expiration.map_or(WaitForEvent(reason), |delay| WaitUntil { delay, reason })\<close>, used three times.\<close>

definition wait_or_event :: "nat option \<Rightarrow> media_wait_reason \<Rightarrow> media_schedule_decision" where
  "wait_or_event expiration reason =
     (case expiration of None \<Rightarrow> WaitForEvent reason | Some delay \<Rightarrow> WaitUntil delay reason)"

definition schedule_admitted :: "media_schedule_input \<Rightarrow> media_schedule_decision" where
  "schedule_admitted input =
     (case msi_recovery_admission input of
        RecoveryDrop \<Rightarrow> DiscardRecoveryBlockedFrame
      | WaitForRefresh \<Rightarrow> wait_or_event (msi_expiration_delay input) RefreshConfirmation
      | RecoveryReady \<Rightarrow>
          (case msi_decoder_admission input of
             DecoderReady \<Rightarrow> DecodeReadyFrame
           | DropDiscardable \<Rightarrow> DiscardReadyFrame
           | WaitForCapacity \<Rightarrow> wait_or_event (msi_expiration_delay input) DecoderCapacity))"

definition blocked_by_older :: "media_schedule_input \<Rightarrow> nat \<Rightarrow> bool" where
  "blocked_by_older input candidate =
     (case msi_oldest_unresolved_frame_id input of None \<Rightarrow> False | Some unresolved \<Rightarrow> unresolved < candidate)"

definition schedule_media :: "media_schedule_input \<Rightarrow> media_schedule_decision" where
  "schedule_media input =
     (case msi_front_frame_id input of
        None \<Rightarrow> ScheduleIdle
      | Some candidate \<Rightarrow>
          if msi_expiration_delay input = Some 0 then DiscardExpired
          else if blocked_by_older input candidate
          then wait_or_event (msi_expiration_delay input) OlderAccessUnit
          else
            (case (msi_release_delay input, msi_expiration_delay input) of
               (Some release, Some expiration) \<Rightarrow>
                 if expiration < release then WaitUntil expiration HardExpiration
                 else if release = 0 then schedule_admitted input
                 else WaitUntil release PlayoutTarget
             | (Some release, None) \<Rightarrow>
                 if release = 0 then schedule_admitted input else WaitUntil release PlayoutTarget
             | (None, Some delay) \<Rightarrow> WaitUntil delay HardExpiration
             | (None, None) \<Rightarrow> WaitForEvent MediaEvent))"

lemmas schedule_defs = schedule_media_def schedule_admitted_def wait_or_event_def

definition advances_frame :: "media_schedule_decision \<Rightarrow> bool" where
  "advances_frame d \<longleftrightarrow> d = DecodeReadyFrame \<or> d = DiscardReadyFrame \<or> d = DiscardRecoveryBlockedFrame \<or> d = DiscardExpired"

lemma decodes_admitted:
  assumes "schedule_media input = DecodeReadyFrame"
  shows "msi_recovery_admission input = RecoveryReady \<and> msi_decoder_admission input = DecoderReady"
  using assms unfolding schedule_defs
  by (auto split: option.splits recovery_admission.splits decoder_admission.splits prod.splits if_splits)

section \<open>Properties\<close>

text \<open>The scheduler never spins and never oversleeps. A wake-up is immediate exactly when the decision
  takes the front frame out of the queue; and whenever a frame waits with a hard expiration, the
  scheduler arms a timer that fires no later than it.\<close>

lemma schedule_never_spins:
  "(wake_delay (schedule_media input) = Some 0) = advances_frame (schedule_media input) \<and>
   (case (msi_front_frame_id input, msi_expiration_delay input) of
      (Some f, Some e) \<Rightarrow> (\<exists>d. wake_delay (schedule_media input) = Some d \<and> d \<le> e)
    | other \<Rightarrow> True)"
  unfolding schedule_defs advances_frame_def
  by (auto split: option.splits recovery_admission.splits decoder_admission.splits prod.splits)

text \<open>A frame is decoded exactly when it is the front frame, no older access unit is unresolved, its
  playout time has come, it has not expired, and both the recovery and the decoder admit it.\<close>

lemma decode_iff_due:
  "(schedule_media input = DecodeReadyFrame) =
     (\<exists>f. msi_front_frame_id input = Some f \<and> \<not> blocked_by_older input f \<and>
        msi_release_delay input = Some 0 \<and> msi_expiration_delay input \<noteq> Some 0 \<and>
        msi_recovery_admission input = RecoveryReady \<and> msi_decoder_admission input = DecoderReady)"
  unfolding schedule_defs
  by (auto split: option.splits recovery_admission.splits decoder_admission.splits prod.splits)

end
