(* ===== verification/Decoder_Queue.thy ===== *)
theory Decoder_Queue
  imports Media_Scheduler
begin

text \<open>
  The bounded work queue between the receiver and its decoder thread: \<open>WorkQueue\<close> of
  \<open>crates/picoo-receiver/src/session/decoder_worker.rs\<close>, with \<open>FrameKind\<close> and \<open>AccessUnitTimeline\<close> of
  \<open>crates/picoo-media-decode/src/submission.rs\<close>. Every method holds the queue's lock, so the threads'
  interleavings are the sequences of operations. \<open>'c\<close> stands for the negotiated stream configuration,
  which the queue only carries.
\<close>

datatype frame_kind = Key | ReferenceDelta | DiscardableDelta

definition kind_is_keyframe :: "frame_kind \<Rightarrow> bool" where
  "kind_is_keyframe k \<longleftrightarrow> k = Key"

definition requires_refresh_when_dropped :: "frame_kind \<Rightarrow> bool" where
  "requires_refresh_when_dropped k \<longleftrightarrow> k \<noteq> DiscardableDelta"

record access_unit_timeline =
  tl_connection_generation :: nat
  tl_stream_generation :: nat
  tl_frame_id :: nat
  tl_source_pts_us :: nat
  tl_encoded_at_us :: nat
  tl_received_at_us :: nat
  tl_decode_submitted_at_us :: nat
  tl_kind :: frame_kind

record encoded_access_unit =
  eau_connection_generation :: nat
  eau_stream_generation :: nat
  eau_frame_id :: nat
  eau_source_pts_us :: nat
  eau_encoded_at_us :: nat
  eau_received_at_us :: nat
  eau_decode_submitted_at_us :: nat
  eau_kind :: frame_kind
  eau_data :: bytes

definition timeline :: "encoded_access_unit \<Rightarrow> access_unit_timeline" where
  "timeline au = \<lparr> tl_connection_generation = eau_connection_generation au,
     tl_stream_generation = eau_stream_generation au, tl_frame_id = eau_frame_id au,
     tl_source_pts_us = eau_source_pts_us au, tl_encoded_at_us = eau_encoded_at_us au,
     tl_received_at_us = eau_received_at_us au, tl_decode_submitted_at_us = eau_decode_submitted_at_us au,
     tl_kind = eau_kind au \<rparr>"

record 'c decode_job =
  dj_config_revision :: nat
  dj_access_unit :: encoded_access_unit
  dj_stream_config :: "'c option"
  dj_decoder_generation :: u64

datatype 'c work_item = Decode "'c decode_job" | Reset | Shutdown

record 'c queue_state =
  qs_items :: "'c work_item list"
  qs_stopped :: bool
  qs_decoder_generation :: u64

datatype decode_submit_outcome = Queued | Dropped bool \<comment> \<open>\<open>requires_refresh\<close>\<close>

definition MAX_PENDING_DECODE_JOBS :: nat where "MAX_PENDING_DECODE_JOBS = 2"

definition queue_new :: "'c queue_state" where
  "queue_new = \<lparr> qs_items = [], qs_stopped = False, qs_decoder_generation = 0 \<rparr>"

fun is_decode :: "'c work_item \<Rightarrow> bool" where
  "is_decode (Decode j) = True" | "is_decode Reset = False" | "is_decode Shutdown = False"

fun is_reset :: "'c work_item \<Rightarrow> bool" where
  "is_reset Reset = True" | "is_reset (Decode j) = False" | "is_reset Shutdown = False"

abbreviation job_kind :: "'c decode_job \<Rightarrow> frame_kind" where "job_kind j \<equiv> eau_kind (dj_access_unit j)"

fun is_discardable :: "'c work_item \<Rightarrow> bool" where
  "is_discardable (Decode j) = (job_kind j = DiscardableDelta)"
| "is_discardable Reset = False" | "is_discardable Shutdown = False"

definition pending :: "'c work_item list \<Rightarrow> nat" where
  "pending items = length (filter is_decode items)"

definition enqueue :: "'c decode_job \<Rightarrow> 'c work_item list \<Rightarrow> 'c queue_state \<Rightarrow> 'c queue_state" where
  "enqueue job items st =
     st \<lparr> qs_items := items @ [Decode (job \<lparr> dj_decoder_generation := qs_decoder_generation st \<rparr>)] \<rparr>"

text \<open>\<open>remove_first\<close> is \<open>position\<close> followed by \<open>remove(index)\<close>: the first discardable job.\<close>

fun remove_first :: "('a \<Rightarrow> bool) \<Rightarrow> 'a list \<Rightarrow> 'a list option" where
  "remove_first P [] = None"
| "remove_first P (x # xs) = (if P x then Some xs else map_option (\<lambda>ys. x # ys) (remove_first P xs))"

definition submit :: "'c decode_job \<Rightarrow> 'c queue_state \<Rightarrow> 'c queue_state \<times> decode_submit_outcome" where
  "submit job st =
     (if qs_stopped st then (st, Dropped (requires_refresh_when_dropped (job_kind job)))
      else if job_kind job = Key
      then (enqueue job (filter (\<lambda>item. \<not> is_decode item) (qs_items st)) st, Queued)
      else if pending (qs_items st) \<ge> MAX_PENDING_DECODE_JOBS
      then
        (if job_kind job = ReferenceDelta
         then (case remove_first is_discardable (qs_items st) of
                 Some items \<Rightarrow> (enqueue job items st, Queued)
               | None \<Rightarrow> (st, Dropped True))
         else (st, Dropped False))
      else (enqueue job (qs_items st) st, Queued))"

definition admission :: "frame_kind \<Rightarrow> 'c queue_state \<Rightarrow> decoder_admission" where
  "admission kind st =
     (if qs_stopped st \<or> kind = Key then DecoderReady
      else if pending (qs_items st) < MAX_PENDING_DECODE_JOBS then DecoderReady
      else if kind = ReferenceDelta \<and> (\<exists>item \<in> set (qs_items st). is_discardable item) then DecoderReady
      else if kind = DiscardableDelta then DropDiscardable
      else WaitForCapacity)"

definition queue_reset :: "'c queue_state \<Rightarrow> 'c queue_state" where
  "queue_reset st =
     (if qs_stopped st then st
      else st \<lparr> qs_decoder_generation := qs_decoder_generation st + 1,
                qs_items := filter (\<lambda>item. \<not> (is_decode item \<or> is_reset item)) (qs_items st) @ [Reset] \<rparr>)"

definition queue_shutdown :: "'c queue_state \<Rightarrow> 'c queue_state" where
  "queue_shutdown st =
     (if qs_stopped st then st else st \<lparr> qs_stopped := True, qs_items := [Shutdown] \<rparr>)"

text \<open>\<open>pop\<close> waits while the queue is empty: the model returns \<open>None\<close>.\<close>

definition pop :: "'c queue_state \<Rightarrow> ('c queue_state \<times> 'c work_item) option" where
  "pop st = (case qs_items st of [] \<Rightarrow> None | item # items \<Rightarrow> Some (st \<lparr> qs_items := items \<rparr>, item))"

definition is_current_generation :: "u64 \<Rightarrow> 'c queue_state \<Rightarrow> bool" where
  "is_current_generation g st \<longleftrightarrow> qs_decoder_generation st = g"

section \<open>Runs\<close>

datatype 'c queue_op = QSubmit "'c decode_job" | QPop | QReset | QShutdown

text \<open>A run collects the jobs accepted and the items the decoder thread took.\<close>

fun queue_step :: "'c queue_op \<Rightarrow> 'c queue_state \<Rightarrow> 'c queue_state \<times> 'c work_item list \<times> 'c work_item list" where
  "queue_step (QSubmit job) st =
     (let (st', outcome) = submit job st
      in (st', if outcome = Queued then [Decode (job \<lparr> dj_decoder_generation := qs_decoder_generation st \<rparr>)] else [], []))"
| "queue_step QPop st = (case pop st of None \<Rightarrow> (st, [], []) | Some (st', item) \<Rightarrow> (st', [], [item]))"
| "queue_step QReset st = (queue_reset st, [], [])"
| "queue_step QShutdown st = (queue_shutdown st, [], [])"

fun queue_run :: "'c queue_op list \<Rightarrow> 'c queue_state \<Rightarrow> 'c queue_state \<times> 'c work_item list \<times> 'c work_item list" where
  "queue_run [] st = (st, [], [])"
| "queue_run (q # qs) st =
     (let (st1, acc, out) = queue_step q st; (st2, accs, outs) = queue_run qs st1 in (st2, acc @ accs, out @ outs))"

definition queue_ok :: "'c queue_state \<Rightarrow> bool" where
  "queue_ok st \<longleftrightarrow>
     (if qs_stopped st then set (qs_items st) \<subseteq> {Shutdown}
      else \<exists>rs jobs. qs_items st = rs @ map Decode jobs \<and> (rs = [] \<or> rs = [Reset]) \<and>
             length jobs \<le> MAX_PENDING_DECODE_JOBS \<and>
             (\<forall>j \<in> set jobs. dj_decoder_generation j = qs_decoder_generation st))"

lemma filter_decode_split [simp]:
  "filter (\<lambda>item. \<not> is_decode item) (map Decode jobs) = []"
  "filter (\<lambda>item. \<not> is_decode item \<and> \<not> is_reset item) (map Decode jobs) = []"
  "rs = [] \<or> rs = [Reset] \<Longrightarrow> filter (\<lambda>item. \<not> is_decode item) rs = rs"
  "rs = [] \<or> rs = [Reset] \<Longrightarrow> filter (\<lambda>item. \<not> is_decode item \<and> \<not> is_reset item) rs = []"
  "rs = [] \<or> rs = [Reset] \<Longrightarrow> pending (rs @ map Decode jobs) = length jobs"
  by (auto simp: pending_def filter_map comp_def filter_empty_conv)

lemma remove_first_jobs:
  "remove_first is_discardable (map Decode jobs) = Some items \<Longrightarrow>
     \<exists>js j ks. jobs = js @ j # ks \<and> items = map Decode (js @ ks) \<and> job_kind j = DiscardableDelta"
proof (induction jobs arbitrary: items)
  case (Cons j jobs)
  show ?case
  proof (cases "job_kind j = DiscardableDelta")
    case True
    with Cons.prems show ?thesis by (auto intro!: exI [of _ "[]"])
  next
    case False
    then obtain items' where i: "remove_first is_discardable (map Decode jobs) = Some items'" "items = Decode j # items'"
      using Cons.prems by auto
    from Cons.IH [OF i(1)] obtain js j' ks where
      "jobs = js @ j' # ks" "items' = map Decode (js @ ks)" "job_kind j' = DiscardableDelta" by blast
    with i(2) show ?thesis by (auto intro!: exI [of _ "j # js"])
  qed
qed simp

lemma remove_first_items:
  assumes "rs = [] \<or> rs = [Reset]" "remove_first is_discardable (rs @ map Decode jobs) = Some items"
  obtains js j ks where "jobs = js @ j # ks" "items = rs @ map Decode (js @ ks)" "job_kind j = DiscardableDelta"
  using assms remove_first_jobs [of jobs] by fastforce

lemma queue_okI:
  "\<not> qs_stopped st \<Longrightarrow> qs_items st = rs @ map Decode jobs \<Longrightarrow> rs = [] \<or> rs = [Reset] \<Longrightarrow> length jobs \<le> 2 \<Longrightarrow>
   \<forall>j \<in> set jobs. dj_decoder_generation j = qs_decoder_generation st \<Longrightarrow> queue_ok st"
  by (auto simp: queue_ok_def MAX_PENDING_DECODE_JOBS_def)

lemma submit_ok:
  assumes ok: "queue_ok st" and run: "\<not> qs_stopped st"
  shows "queue_ok (fst (submit job st))"
proof -
  obtain rs jobs where i: "qs_items st = rs @ map Decode jobs" "rs = [] \<or> rs = [Reset]" "length jobs \<le> 2"
      "\<forall>j \<in> set jobs. dj_decoder_generation j = qs_decoder_generation st"
    using ok run by (auto simp: queue_ok_def MAX_PENDING_DECODE_JOBS_def)
  let ?job = "job \<lparr> dj_decoder_generation := qs_decoder_generation st \<rparr>"
  have add: "queue_ok (enqueue job (rs @ map Decode js) st)"
    if "set js \<subseteq> set jobs" "length js \<le> 1" for js
    using that i run by (intro queue_okI [of _ rs "js @ [?job]"]) (auto simp: enqueue_def)
  show ?thesis
  proof (cases "job_kind job = Key")
    case True
    then show ?thesis using add [of "[]"] i run by (simp add: submit_def)
  next
    case False
    show ?thesis
    proof (cases "length jobs = 2")
      case True
      have "queue_ok (enqueue job items st)" if rem: "remove_first is_discardable (qs_items st) = Some items" for items
      proof -
        obtain js j ks where "jobs = js @ j # ks" "items = rs @ map Decode (js @ ks)"
          by (rule remove_first_items [OF i(2) rem [unfolded i(1)]])
        then show ?thesis using add [of "js @ ks"] True by auto
      qed
      then show ?thesis
        using False True i ok run by (auto simp: submit_def MAX_PENDING_DECODE_JOBS_def split: option.split)
    next
      case False
      then have "length jobs \<le> 1" using i(3) by simp
      then show ?thesis
        using add [of jobs] \<open>job_kind job \<noteq> Key\<close> i run by (simp add: submit_def MAX_PENDING_DECODE_JOBS_def)
    qed
  qed
qed

lemma queue_step_ok: "queue_ok st \<Longrightarrow> queue_ok (fst (queue_step q st))"
proof -
  assume ok: "queue_ok st"
  show ?thesis
  proof (cases q)
    case (QSubmit job)
    then show ?thesis using submit_ok [OF ok, of job] ok
      by (cases "qs_stopped st") (simp_all add: case_prod_beta Let_def submit_def)
  next
    case QPop
    show ?thesis
    proof (cases "qs_items st")
      case (Cons item items)
      then show ?thesis
      proof (cases "qs_stopped st")
        case True
        then show ?thesis using ok QPop Cons by (simp add: pop_def queue_ok_def)
      next
        case False
        then obtain rs jobs where i: "qs_items st = rs @ map Decode jobs" "rs = [] \<or> rs = [Reset]" "length jobs \<le> 2"
            "\<forall>j \<in> set jobs. dj_decoder_generation j = qs_decoder_generation st"
          using ok by (auto simp: queue_ok_def MAX_PENDING_DECODE_JOBS_def)
        then have "\<exists>jobs'. items = map Decode jobs' \<and> set jobs' \<subseteq> set jobs \<and> length jobs' \<le> length jobs"
          using Cons by (cases rs) (auto simp: Cons_eq_map_conv)
        then obtain jobs' where "items = map Decode jobs'" "set jobs' \<subseteq> set jobs" "length jobs' \<le> length jobs" by blast
        then show ?thesis
          using QPop Cons False i by (intro queue_okI [of _ "[]" jobs']) (auto simp: pop_def)
      qed
    qed (use ok QPop in \<open>simp add: pop_def\<close>)
  next
    case QReset
    show ?thesis
    proof (cases "qs_stopped st")
      case True
      then show ?thesis using ok QReset by (simp add: queue_reset_def)
    next
      case False
      then have "qs_items (queue_reset st) = [Reset]"
        using ok by (auto simp: queue_reset_def queue_ok_def)
      then show ?thesis
        using False QReset by (intro queue_okI [of _ "[Reset]" "[]"]) (simp_all add: queue_reset_def)
    qed
  next
    case QShutdown
    then show ?thesis using ok by (simp add: queue_shutdown_def queue_ok_def)
  qed
qed

lemma queue_run_ok: "queue_ok st \<Longrightarrow> queue_ok (fst (queue_run qs st))"
proof (induction qs arbitrary: st)
  case (Cons q qs)
  then show ?case using queue_step_ok [of st q] by (simp add: case_prod_beta Let_def)
qed simp

lemma queue_new_ok: "queue_ok queue_new"
  by (intro queue_okI [of _ "[]" "[]"]) (simp_all add: queue_new_def)

lemma running_shape:
  assumes "queue_ok st" "\<not> qs_stopped st"
  obtains rs jobs where "qs_items st = rs @ map Decode jobs" "rs = [] \<or> rs = [Reset]" "length jobs \<le> 2"
    "\<forall>j \<in> set jobs. dj_decoder_generation j = qs_decoder_generation st"
  using assms by (auto simp: queue_ok_def MAX_PENDING_DECODE_JOBS_def)

text \<open>Once admitted, always admitted: the decoder thread only makes room.\<close>

definition admits_kind :: "frame_kind \<Rightarrow> 'c queue_state \<Rightarrow> bool" where
  "admits_kind kind st \<longleftrightarrow> kind = Key \<or> pending (qs_items st) < 2 \<or>
     kind = ReferenceDelta \<and> (\<exists>item \<in> set (qs_items st). is_discardable item)"

lemma admission_iff: "\<not> qs_stopped st \<Longrightarrow> admission kind st = DecoderReady \<longleftrightarrow> admits_kind kind st"
  by (auto simp: admission_def admits_kind_def MAX_PENDING_DECODE_JOBS_def)

lemma is_discardable_decode: "is_discardable item \<Longrightarrow> is_decode item"
  by (cases item) simp_all

lemma admits_pop:
  assumes "queue_ok st" "\<not> qs_stopped st" "admits_kind kind st"
  shows "admits_kind kind (fst (queue_step QPop st)) \<and> \<not> qs_stopped (fst (queue_step QPop st))"
proof (cases "qs_items st")
  case (Cons item items)
  obtain rs jobs where i: "qs_items st = rs @ map Decode jobs" "rs = [] \<or> rs = [Reset]" "length jobs \<le> 2"
    by (rule running_shape [OF assms(1,2)])
  then have le: "pending (qs_items st) \<le> 2" by simp
  have "pending items < 2" if "is_decode item" using le that by (simp add: Cons pending_def)
  moreover have "pending items \<le> pending (qs_items st)" by (simp add: Cons pending_def)
  moreover have "\<exists>item \<in> set items. is_discardable item"
    if "\<not> is_decode item" "\<exists>item \<in> set (qs_items st). is_discardable item"
    using that is_discardable_decode Cons by auto
  ultimately show ?thesis
    using assms(2,3) by (cases "is_decode item") (auto simp: pop_def Cons admits_kind_def)
qed (use assms in \<open>simp add: pop_def\<close>)

text \<open>Everything but a submission: what may come between the admission of a frame and its submission.\<close>

fun no_submission :: "'c queue_op \<Rightarrow> bool" where
  "no_submission (QSubmit job) = False"
| "no_submission QPop = True" | "no_submission QReset = True" | "no_submission QShutdown = True"

lemma admits_reset: "queue_ok st \<Longrightarrow> \<not> qs_stopped st \<Longrightarrow> admits_kind kind (queue_reset st)"
  by (auto simp: queue_ok_def queue_reset_def admits_kind_def pending_def)

lemma stopped_step:
  "no_submission q \<Longrightarrow> qs_stopped (fst (queue_step q st)) \<longleftrightarrow> qs_stopped st \<or> q = QShutdown"
  by (cases q) (auto simp: pop_def queue_reset_def queue_shutdown_def split: option.split list.split)

lemma admits_step:
  assumes "queue_ok st" "no_submission q" "admits_kind kind st" "\<not> qs_stopped (fst (queue_step q st))"
  shows "admits_kind kind (fst (queue_step q st))"
  using assms stopped_step [OF assms(2), of st] admits_pop [OF assms(1) _ assms(3)] admits_reset [OF assms(1)]
  by (cases q) auto

lemma admits_between:
  assumes "queue_ok st" "list_all no_submission qs"
  shows "qs_stopped (fst (queue_run qs st)) \<longleftrightarrow> qs_stopped st \<or> QShutdown \<in> set qs"
    and "admits_kind kind st \<Longrightarrow> \<not> qs_stopped (fst (queue_run qs st)) \<Longrightarrow> admits_kind kind (fst (queue_run qs st))"
proof -
  have "(qs_stopped (fst (queue_run qs st)) \<longleftrightarrow> qs_stopped st \<or> QShutdown \<in> set qs) \<and>
      (admits_kind kind st \<longrightarrow> \<not> qs_stopped (fst (queue_run qs st)) \<longrightarrow> admits_kind kind (fst (queue_run qs st)))"
    using assms
  proof (induction qs arbitrary: st)
    case (Cons q qs)
    have q: "no_submission q" and qs: "list_all no_submission qs" using Cons.prems(2) by simp_all
    let ?st = "fst (queue_step q st)"
    have run: "fst (queue_run (q # qs) st) = fst (queue_run qs ?st)" by (simp add: case_prod_beta Let_def)
    note ih = Cons.IH [OF queue_step_ok [OF Cons.prems(1)] qs, of q]
    show ?case
      using ih stopped_step [OF q, of st] admits_step [OF Cons.prems(1) q, of kind] unfolding run by auto
  qed simp
  then show "qs_stopped (fst (queue_run qs st)) \<longleftrightarrow> qs_stopped st \<or> QShutdown \<in> set qs"
    and "admits_kind kind st \<Longrightarrow> \<not> qs_stopped (fst (queue_run qs st)) \<Longrightarrow> admits_kind kind (fst (queue_run qs st))"
    by blast+
qed

lemma remove_first_None: "remove_first P xs = None \<longleftrightarrow> (\<forall>x \<in> set xs. \<not> P x)"
  by (induction xs) auto

lemma submit_admitted: "\<not> qs_stopped st \<Longrightarrow> admits_kind (job_kind job) st \<Longrightarrow> snd (submit job st) = Queued"
  using remove_first_None [of is_discardable "qs_items st"]
  by (auto simp: submit_def admits_kind_def MAX_PENDING_DECODE_JOBS_def split: option.split)

text \<open>Reference jobs of a list of items.\<close>

fun is_reference :: "'c work_item \<Rightarrow> bool" where
  "is_reference (Decode j) = (job_kind j \<noteq> DiscardableDelta)"
| "is_reference Reset = False" | "is_reference Shutdown = False"

fun keeps_chain :: "'c queue_op \<Rightarrow> bool" where
  "keeps_chain (QSubmit job) = (job_kind job \<noteq> Key)"
| "keeps_chain QPop = True" | "keeps_chain QReset = False" | "keeps_chain QShutdown = False"

lemma remove_first_references:
  "remove_first is_discardable items = Some items' \<Longrightarrow> filter is_reference items' = filter is_reference items"
proof (induction items arbitrary: items')
  case (Cons x xs)
  then show ?case by (cases x) (auto split: if_splits)
qed simp

lemma chain_step:
  assumes "keeps_chain q" "queue_step q st = (st', acc, out)"
  shows "filter is_reference (qs_items st @ acc) = filter is_reference (out @ qs_items st')"
proof (cases q)
  case (QSubmit job)
  then have nk: "job_kind job \<noteq> Key" using assms(1) by simp
  show ?thesis
    using assms(2) nk unfolding QSubmit
    by (auto simp: submit_def enqueue_def Let_def split: if_splits option.splits dest: remove_first_references)
next
  case QPop
  then show ?thesis using assms(2) by (cases "qs_items st") (auto simp: pop_def)
qed (use assms in simp_all)

lemma chain_run:
  "\<forall>q \<in> set qs. keeps_chain q \<Longrightarrow> queue_run qs st = (st', acc, out) \<Longrightarrow>
   filter is_reference (qs_items st @ acc) = filter is_reference (out @ qs_items st')"
proof (induction qs arbitrary: st acc out)
  case (Cons q qs)
  obtain st1 a1 o1 where s: "queue_step q st = (st1, a1, o1)" by (metis prod_cases3)
  obtain a2 o2 where r: "queue_run qs st1 = (st', a2, o2)" "acc = a1 @ a2" "out = o1 @ o2"
    using Cons.prems(2) s by (auto simp: Let_def split: prod.splits)
  have "filter is_reference (qs_items st @ a1) = filter is_reference (o1 @ qs_items st1)"
    using chain_step [OF _ s] Cons.prems(1) by simp
  moreover have "filter is_reference (qs_items st1 @ a2) = filter is_reference (o2 @ qs_items st')"
    using Cons.IH [OF _ r(1)] Cons.prems(1) by simp
  ultimately show ?case unfolding r(2,3) by (metis append.assoc filter_append)
qed simp

text \<open>What restarts the chain, and what a refusal does.\<close>

lemma chain_restart:
  assumes "\<not> qs_stopped st"
  shows "job_kind job = Key \<Longrightarrow> snd (submit job st) = Queued \<and> filter is_reference (qs_items (fst (submit job st))) =
      [Decode (job \<lparr> dj_decoder_generation := qs_decoder_generation st \<rparr>)]"
    and "filter is_reference (qs_items (queue_reset st)) = []"
    and "filter is_reference (qs_items (queue_shutdown st)) = []"
proof -
  have "\<not> is_reference item" if "\<not> is_decode item" for item :: "'c work_item" using that by (cases item) simp_all
  then have "filter is_reference (filter (\<lambda>item. \<not> is_decode item \<and> P item) items) = []" for P and items :: "'c work_item list"
    by (auto simp: filter_empty_conv)
  from this [of "\<lambda>_. True"] this [of "\<lambda>item. \<not> is_reset item"] assms
  show "job_kind job = Key \<Longrightarrow> snd (submit job st) = Queued \<and> filter is_reference (qs_items (fst (submit job st))) =
      [Decode (job \<lparr> dj_decoder_generation := qs_decoder_generation st \<rparr>)]"
    and "filter is_reference (qs_items (queue_reset st)) = []"
    and "filter is_reference (qs_items (queue_shutdown st)) = []"
    by (simp_all add: submit_def enqueue_def queue_reset_def queue_shutdown_def)
qed

lemma refused_unchanged:
  "snd (submit job st) \<noteq> Queued \<Longrightarrow> submit job st = (st, Dropped (requires_refresh_when_dropped (job_kind job)))"
  by (cases "job_kind job") (auto simp: submit_def requires_refresh_when_dropped_def split: option.splits if_splits)

section \<open>Properties\<close>

text \<open>In every reachable state at most two access units wait for the decoder, all of them belong to the
  current decoder generation, and a reset of the decoder is only ever the next item of work.\<close>

lemma decoder_queue_bounded:
  "pending (qs_items (fst (queue_run qs queue_new))) \<le> MAX_PENDING_DECODE_JOBS \<and>
   dj_decoder_generation ` {j. Decode j \<in> set (qs_items (fst (queue_run qs queue_new)))}
     \<subseteq> {qs_decoder_generation (fst (queue_run qs queue_new))} \<and>
   Reset \<notin> set (tl (qs_items (fst (queue_run qs queue_new))))"
proof -
  let ?st = "fst (queue_run qs queue_new)"
  have ok: "queue_ok ?st" by (rule queue_run_ok [OF queue_new_ok])
  show ?thesis
  proof (cases "qs_stopped ?st")
    case True
    then have stop: "set (qs_items ?st) \<subseteq> {Shutdown}" using ok by (simp add: queue_ok_def)
    then have "filter is_decode (qs_items ?st) = []" by (auto simp: filter_empty_conv)
    moreover have "set (tl (qs_items ?st)) \<subseteq> {Shutdown}" using stop list.set_sel(2) by (cases "qs_items ?st") auto
    ultimately show ?thesis using stop by (auto simp: pending_def)
  next
    case False
    obtain rs jobs where i: "qs_items ?st = rs @ map Decode jobs" "rs = [] \<or> rs = [Reset]" "length jobs \<le> 2"
        "\<forall>j \<in> set jobs. dj_decoder_generation j = qs_decoder_generation ?st"
      by (rule running_shape [OF ok False])
    have "Reset \<notin> set (tl (map Decode jobs))" by (cases jobs) auto
    then show ?thesis using i by (auto simp: MAX_PENDING_DECODE_JOBS_def)
  qed
qed

text \<open>C24: the admission is a promise for as long as the queue runs. If the queue admits a kind of frame,
  then whatever happens before the next submission (the decoder thread takes items, the decoder is reset,
  the queue is shut down), a job of that kind is queued exactly if the queue has not been stopped by then.
  A stopped queue, which also admits everything, refuses the job and asks for a refresh if it is a
  reference.\<close>

theorem admission_is_promise:
  assumes "queue_run qs queue_new = (st, acc, out)" "admission (job_kind job) st = DecoderReady"
    and "list_all no_submission between" "queue_run between st = (st', acc', out')"
  shows "snd (submit job st') =
      (if qs_stopped st' then Dropped (requires_refresh_when_dropped (job_kind job)) else Queued) \<and>
    (qs_stopped st' \<longleftrightarrow> qs_stopped st \<or> QShutdown \<in> set between)"
proof -
  have ok: "queue_ok st" using queue_run_ok [OF queue_new_ok, of qs] assms(1) by simp
  have st': "st' = fst (queue_run between st)" using assms(4) by simp
  have "snd (submit job st') = Queued" if run: "\<not> qs_stopped st'"
  proof -
    have "\<not> qs_stopped st" using run admits_between(1) [OF ok assms(3)] by (simp add: st')
    then have "admits_kind (job_kind job) st'"
      using admits_between(2) [OF ok assms(3)] run assms(2) by (simp add: st' admission_iff)
    then show ?thesis by (rule submit_admitted [OF run])
  qed
  moreover have "qs_stopped st' \<longleftrightarrow> qs_stopped st \<or> QShutdown \<in> set between"
    using admits_between(1) [OF ok assms(3)] by (simp add: st')
  ultimately show ?thesis by (simp add: submit_def)
qed

definition sample_job :: "frame_kind \<Rightarrow> nat \<Rightarrow> unit decode_job" where
  "sample_job kind frame_id = \<lparr> dj_config_revision = 1,
     dj_access_unit = \<lparr> eau_connection_generation = 1, eau_stream_generation = 1, eau_frame_id = frame_id,
       eau_source_pts_us = 0, eau_encoded_at_us = 0, eau_received_at_us = 0, eau_decode_submitted_at_us = 0,
       eau_kind = kind, eau_data = [] \<rparr>,
     dj_stream_config = None, dj_decoder_generation = 0 \<rparr>"

lemmas sample_queue = sample_job_def queue_new_def submit_def enqueue_def pending_def MAX_PENDING_DECODE_JOBS_def pop_def

theorem admission_is_promise_witness:
  "let st = fst (queue_run [QSubmit (sample_job ReferenceDelta 1), QSubmit (sample_job DiscardableDelta 2)] queue_new)
   in snd (submit (sample_job ReferenceDelta 3) (fst (queue_run [QPop] st))) = Queued \<and>
      snd (submit (sample_job ReferenceDelta 3) (fst (queue_run [QPop, QShutdown] st))) = Dropped True"
proof -
  define st where "st = fst (queue_run [QSubmit (sample_job ReferenceDelta 1), QSubmit (sample_job DiscardableDelta 2)] queue_new)"
  obtain acc out where run: "queue_run [QSubmit (sample_job ReferenceDelta 1), QSubmit (sample_job DiscardableDelta 2)] queue_new = (st, acc, out)"
    unfolding st_def by (metis prod.collapse)
  have adm: "admission (job_kind (sample_job ReferenceDelta 3)) st = DecoderReady" and up: "\<not> qs_stopped st"
    by (simp_all add: st_def sample_queue admission_def)
  have "snd (submit (sample_job ReferenceDelta 3) (fst (queue_run ops st))) =
      (if QShutdown \<in> set ops then Dropped True else Queued)" if "list_all no_submission ops" for ops
    using admission_is_promise [OF run adm that] up
    by (cases "queue_run ops st") (simp add: requires_refresh_when_dropped_def sample_job_def)
  from this [of "[QPop]"] this [of "[QPop, QShutdown]"] show ?thesis
    unfolding Let_def st_def [symmetric] by (simp del: queue_run.simps)
qed

text \<open>C25: what becomes of the reference frames. As long as no key frame, reset or shutdown arrives, the
  decoder thread takes exactly the reference frames that were accepted, in order (the rest of them still
  wait), whatever else is submitted, refused or evicted. Only a restart of the chain takes waiting
  references away: an accepted key frame supersedes them and is the only one left, a reset or a shutdown
  leaves none. A job that is refused changes nothing and asks for a refresh exactly if it is a reference.\<close>

theorem references_reach_decoder:
  assumes "list_all keeps_chain qs" "queue_run qs st = (st', acc, out)"
  shows "filter is_reference (qs_items st @ acc) = filter is_reference (out @ qs_items st') \<and>
    (\<not> qs_stopped st' \<longrightarrow>
       (job_kind job = Key \<longrightarrow> snd (submit job st') = Queued \<and> filter is_reference (qs_items (fst (submit job st'))) =
          [Decode (job \<lparr> dj_decoder_generation := qs_decoder_generation st' \<rparr>)]) \<and>
       filter is_reference (qs_items (queue_reset st')) = [] \<and>
       filter is_reference (qs_items (queue_shutdown st')) = []) \<and>
    (snd (submit job st') \<noteq> Queued \<longrightarrow>
       submit job st' = (st', Dropped (requires_refresh_when_dropped (job_kind job))))"
  using chain_run [OF _ assms(2)] assms(1) chain_restart(1) [of st' job] chain_restart(2,3) [of st']
    refused_unchanged [of job st']
  by (auto simp: list_all_iff)

theorem references_reach_decoder_witness:
  "\<exists>(st' :: unit queue_state) acc out. queue_run [QSubmit (sample_job ReferenceDelta 1), QSubmit (sample_job DiscardableDelta 2),
      QSubmit (sample_job ReferenceDelta 3), QPop] queue_new = (st', acc, out) \<and>
     filter is_reference acc = filter is_reference (out @ qs_items st') \<and>
     map job_kind (List.map_filter (\<lambda>item. case item of Decode j \<Rightarrow> Some j | _ \<Rightarrow> None) (qs_items st')) = [ReferenceDelta]"
proof -
  obtain st' :: "unit queue_state" and acc out where run: "queue_run [QSubmit (sample_job ReferenceDelta 1), QSubmit (sample_job DiscardableDelta 2),
      QSubmit (sample_job ReferenceDelta 3), QPop] queue_new = (st', acc, out)" by (metis prod_cases3)
  have "list_all keeps_chain [QSubmit (sample_job ReferenceDelta 1), QSubmit (sample_job DiscardableDelta 2),
      QSubmit (sample_job ReferenceDelta 3), QPop]" by (simp add: sample_job_def)
  from references_reach_decoder [OF this run, of "sample_job Key 4"] have "filter is_reference acc = filter is_reference (out @ qs_items st')"
    by (simp add: queue_new_def)
  moreover have "map job_kind (List.map_filter (\<lambda>item. case item of Decode j \<Rightarrow> Some j | _ \<Rightarrow> None) (qs_items st')) = [ReferenceDelta]"
    using run by (auto simp: sample_queue map_filter_def)
  ultimately show ?thesis
    using run by (intro exI [of _ st'] exI [of _ acc] exI [of _ out] conjI)
qed

end
