(* ===== verification/Decoder_Recovery.thy ===== *)
theory Decoder_Recovery
  imports Jitter Decoder_Queue
begin

text \<open>
  The receiver's repair of a broken prediction chain, \<open>DecoderRecovery\<close>:
  \<open>crates/picoo-receiver/src/session/recovery.rs\<close>. After a loss only a fresh keyframe is let through,
  until the decoder confirms that very keyframe; keyframe requests are spaced by a second. Instants
  are nanoseconds.
\<close>

definition KEYFRAME_REQUEST_MIN_INTERVAL :: nat where "KEYFRAME_REQUEST_MIN_INTERVAL = 1000000000"

datatype recovery_reason =
    InitialConfig
  | EpochChanged
  | ReferenceAccessUnitLost
  | ReferenceAccessUnitLate
  | DecoderFailed \<comment> \<open>\<open>DecoderError\<close>\<close>
  | DecoderQueuePressure
  | RandomAccessResync
  | ManualRepair

fun reason_label :: "recovery_reason \<Rightarrow> string" where
  "reason_label InitialConfig = ''initial_config''"
| "reason_label EpochChanged = ''epoch_changed''"
| "reason_label ReferenceAccessUnitLost = ''reference_access_unit_lost''"
| "reason_label ReferenceAccessUnitLate = ''reference_access_unit_late''"
| "reason_label DecoderFailed = ''decoder_error''"
| "reason_label DecoderQueuePressure = ''decoder_queue_pressure''"
| "reason_label RandomAccessResync = ''random_access_resync''"
| "reason_label ManualRepair = ''manual_repair''"

record refresh_candidate =
  rc_connection_generation :: nat
  rc_stream_generation :: nat
  rc_frame_id :: nat

definition candidate_of :: "access_unit_timeline \<Rightarrow> refresh_candidate" where
  "candidate_of t = \<lparr> rc_connection_generation = tl_connection_generation t,
     rc_stream_generation = tl_stream_generation t, rc_frame_id = tl_frame_id t \<rparr>"

definition candidate_matches :: "refresh_candidate \<Rightarrow> access_unit_timeline \<Rightarrow> bool" where
  "candidate_matches c t \<longleftrightarrow> rc_connection_generation c = tl_connection_generation t \<and>
     rc_stream_generation c = tl_stream_generation t \<and> rc_frame_id c = tl_frame_id t"

datatype recovery_phase = Healthy | AwaitingRefresh | RefreshInFlight refresh_candidate

record recovery_transition =
  rt_newly_awaiting :: bool
  rt_invalidated_candidate :: bool

definition requires_media_cleanup :: "recovery_transition \<Rightarrow> bool" where
  "requires_media_cleanup t \<longleftrightarrow> rt_newly_awaiting t \<or> rt_invalidated_candidate t"

record decoder_recovery =
  dr_phase :: recovery_phase
  dr_reason :: "recovery_reason option"
  dr_last_request_at :: "nat option"

definition recovery_new :: decoder_recovery where
  "recovery_new = \<lparr> dr_phase = Healthy, dr_reason = None, dr_last_request_at = None \<rparr>"

fun phase_in_flight :: "recovery_phase \<Rightarrow> bool" where
  "phase_in_flight (RefreshInFlight c) = True"
| "phase_in_flight Healthy = False"
| "phase_in_flight AwaitingRefresh = False"

definition enter :: "recovery_reason \<Rightarrow> decoder_recovery \<Rightarrow> decoder_recovery \<times> recovery_transition" where
  "enter reason r =
     (r \<lparr> dr_phase := AwaitingRefresh, dr_reason := Some reason \<rparr>,
      \<lparr> rt_newly_awaiting = (dr_phase r = Healthy), rt_invalidated_candidate = phase_in_flight (dr_phase r) \<rparr>)"

definition recovery_admits :: "nat \<Rightarrow> front_descriptor \<Rightarrow> decoder_recovery \<Rightarrow> recovery_admission" where
  "recovery_admits connection_generation frame r =
     (case dr_phase r of
        Healthy \<Rightarrow> RecoveryReady
      | AwaitingRefresh \<Rightarrow> if ff_keyframe frame then RecoveryReady else RecoveryDrop
      | RefreshInFlight c \<Rightarrow>
          if ff_keyframe frame then RecoveryReady
          else if ff_discardable frame then RecoveryDrop
          else if rc_connection_generation c = connection_generation \<and>
                  rc_stream_generation c = ff_stream_generation frame \<and> ff_frame_id frame > rc_frame_id c
          then WaitForRefresh
          else RecoveryDrop)"

definition accepts_completion :: "access_unit_timeline \<Rightarrow> decoder_recovery \<Rightarrow> bool" where
  "accepts_completion t r =
     (case dr_phase r of Healthy \<Rightarrow> True | AwaitingRefresh \<Rightarrow> False | RefreshInFlight c \<Rightarrow> candidate_matches c t)"

definition is_refresh_candidate :: "access_unit_timeline \<Rightarrow> decoder_recovery \<Rightarrow> bool" where
  "is_refresh_candidate t r =
     (case dr_phase r of RefreshInFlight c \<Rightarrow> candidate_matches c t | Healthy \<Rightarrow> False | AwaitingRefresh \<Rightarrow> False)"

definition note_refresh_submitted :: "access_unit_timeline \<Rightarrow> decoder_recovery \<Rightarrow> decoder_recovery" where
  "note_refresh_submitted t r =
     (if kind_is_keyframe (tl_kind t) \<and> dr_phase r \<noteq> Healthy
      then r \<lparr> dr_phase := RefreshInFlight (candidate_of t) \<rparr> else r)"

definition is_awaiting_refresh :: "decoder_recovery \<Rightarrow> bool" where
  "is_awaiting_refresh r \<longleftrightarrow> dr_phase r \<noteq> Healthy"

definition request_due :: "nat \<Rightarrow> decoder_recovery \<Rightarrow> bool" where
  "request_due now r \<longleftrightarrow> is_awaiting_refresh r \<and>
     (case dr_last_request_at r of None \<Rightarrow> True | Some prev \<Rightarrow> now - prev \<ge> KEYFRAME_REQUEST_MIN_INTERVAL)"

definition next_request_at :: "nat \<Rightarrow> decoder_recovery \<Rightarrow> nat option" where
  "next_request_at now r =
     (if is_awaiting_refresh r
      then Some (case dr_last_request_at r of None \<Rightarrow> now | Some prev \<Rightarrow> prev + KEYFRAME_REQUEST_MIN_INTERVAL)
      else None)"

definition note_request :: "nat \<Rightarrow> decoder_recovery \<Rightarrow> decoder_recovery" where
  "note_request now r = r \<lparr> dr_last_request_at := Some now \<rparr>"

definition mark_recovered :: "access_unit_timeline \<Rightarrow> decoder_recovery \<Rightarrow> decoder_recovery \<times> bool" where
  "mark_recovered t r =
     (if \<not> is_refresh_candidate t r then (r, False)
      else (r \<lparr> dr_phase := Healthy, dr_reason := None \<rparr>, True))"

definition reset_recovery :: "decoder_recovery \<Rightarrow> decoder_recovery" where
  "reset_recovery r = r \<lparr> dr_phase := Healthy, dr_reason := None, dr_last_request_at := None \<rparr>"

section \<open>Runs\<close>

text \<open>
  The calls the session makes: it asks for a keyframe when one is due (\<open>maybe_request_recovery_keyframe\<close>)
  or when the user insists (\<open>force_decoder_recovery_request\<close>).
\<close>

datatype recovery_op =
    REnter recovery_reason
  | RSubmitted access_unit_timeline
  | RConfirmed access_unit_timeline
  | RRequestIfDue nat
  | RForceRequest recovery_reason nat
  | RResetSession

fun recovery_apply :: "recovery_op \<Rightarrow> decoder_recovery \<Rightarrow> decoder_recovery" where
  "recovery_apply (REnter reason) r = fst (enter reason r)"
| "recovery_apply (RSubmitted t) r = note_refresh_submitted t r"
| "recovery_apply (RConfirmed t) r = fst (mark_recovered t r)"
| "recovery_apply (RRequestIfDue now) r = (if request_due now r then note_request now r else r)"
| "recovery_apply (RForceRequest reason now) r = note_request now (fst (enter reason r))"
| "recovery_apply RResetSession r = reset_recovery r"

definition recovery_run :: "recovery_op list \<Rightarrow> decoder_recovery \<Rightarrow> decoder_recovery" where
  "recovery_run rops r = fold recovery_apply rops r"

fun breaks_chain :: "recovery_op \<Rightarrow> bool" where
  "breaks_chain (REnter reason) = True"
| "breaks_chain (RForceRequest reason now) = True"
| "breaks_chain (RSubmitted t) = False"
| "breaks_chain (RConfirmed t) = False"
| "breaks_chain (RRequestIfDue now) = False"
| "breaks_chain RResetSession = False"

text \<open>A repair: the submission of a keyframe and its confirmation, with no new loss in between.\<close>

definition repaired :: "recovery_op list \<Rightarrow> bool" where
  "repaired rops \<longleftrightarrow> (\<exists>a t b t' c. rops = a @ RSubmitted t # b @ RConfirmed t' # c \<and>
     kind_is_keyframe (tl_kind t) \<and> candidate_of t' = candidate_of t \<and> (\<forall>q \<in> set b. \<not> breaks_chain q))"

definition repairing :: "refresh_candidate \<Rightarrow> recovery_op list \<Rightarrow> bool" where
  "repairing c rops \<longleftrightarrow> (\<exists>a t b. rops = a @ RSubmitted t # b \<and> kind_is_keyframe (tl_kind t) \<and>
     candidate_of t = c \<and> (\<forall>q \<in> set b. \<not> breaks_chain q))"

lemma candidate_matches_iff: "candidate_matches c t \<longleftrightarrow> candidate_of t = c"
  by (cases c) (auto simp: candidate_matches_def candidate_of_def)

lemma repairing_snoc:
  assumes "repairing c rops" "\<not> breaks_chain q"
  shows "repairing c (rops @ [q])"
proof -
  obtain a t b where "rops = a @ RSubmitted t # b" "kind_is_keyframe (tl_kind t)" "candidate_of t = c"
      "\<forall>q \<in> set b. \<not> breaks_chain q"
    using assms(1) by (auto simp: repairing_def)
  then show ?thesis
    unfolding repairing_def using assms(2) by (intro exI [of _ a] exI [of _ t] exI [of _ "b @ [q]"]) auto
qed

lemma repaired_snoc: "repaired rops \<Longrightarrow> repaired (rops @ [q])"
  unfolding repaired_def by (metis append.assoc append_Cons)

lemma repairing_submit: "kind_is_keyframe (tl_kind t) \<Longrightarrow> repairing (candidate_of t) (rops @ [RSubmitted t])"
  unfolding repairing_def by (intro exI [of _ rops] exI [of _ t] exI [of _ "[]"]) simp

lemma repairing_confirm: "repairing (candidate_of t') rops \<Longrightarrow> repaired (rops @ [RConfirmed t'])"
  unfolding repairing_def repaired_def by (metis append.assoc append_Cons)

lemmas recovery_defs = enter_def note_refresh_submitted_def mark_recovered_def note_request_def
  is_refresh_candidate_def

lemma repair_progress:
  assumes "RResetSession \<notin> set rops" "dr_phase r = AwaitingRefresh"
  shows "case dr_phase (recovery_run rops r) of
           Healthy \<Rightarrow> repaired rops | AwaitingRefresh \<Rightarrow> True | RefreshInFlight c \<Rightarrow> repairing c rops"
  using assms(1)
proof (induction rops rule: rev_induct)
  case Nil
  then show ?case using assms(2) by (simp add: recovery_run_def)
next
  case (snoc q rops)
  let ?r = "recovery_run rops r"
  have run: "recovery_run (rops @ [q]) r = recovery_apply q ?r" by (simp add: recovery_run_def)
  from snoc have ih: "case dr_phase ?r of
      Healthy \<Rightarrow> repaired rops | AwaitingRefresh \<Rightarrow> True | RefreshInFlight c \<Rightarrow> repairing c rops" by simp
  have keep: ?case if "dr_phase (recovery_apply q ?r) = dr_phase ?r" "\<not> breaks_chain q"
    using ih that repaired_snoc repairing_snoc by (simp add: run split: recovery_phase.splits)
  have broken: ?case if "dr_phase (recovery_apply q ?r) = AwaitingRefresh"
    by (simp add: run that)
  show ?case
  proof (cases q)
    case (RSubmitted t)
    show ?thesis
    proof (cases "kind_is_keyframe (tl_kind t) \<and> dr_phase ?r \<noteq> Healthy")
      case True
      then show ?thesis
        unfolding run using repairing_submit [of t rops] by (simp add: RSubmitted note_refresh_submitted_def)
    next
      case False
      then have "recovery_apply q ?r = ?r" using RSubmitted by (auto simp: note_refresh_submitted_def)
      then show ?thesis using keep RSubmitted by simp
    qed
  next
    case (RConfirmed t)
    show ?thesis
    proof (cases "is_refresh_candidate t ?r")
      case True
      then have "dr_phase ?r = RefreshInFlight (candidate_of t)"
        by (auto simp: is_refresh_candidate_def candidate_matches_iff split: recovery_phase.splits)
      then show ?thesis
        unfolding run using ih repairing_confirm [of t rops] True by (simp add: RConfirmed mark_recovered_def)
    next
      case False
      then show ?thesis using keep RConfirmed by (simp add: mark_recovered_def)
    qed
  qed (use keep broken snoc.prems in \<open>auto simp: recovery_defs\<close>)
qed

text \<open>The automatic requests of a run, and the instants of all its requests.\<close>

fun requests :: "recovery_op list \<Rightarrow> decoder_recovery \<Rightarrow> (nat \<times> bool) list" where
  "requests [] r = []"
| "requests (q # rops) r =
     (case q of RRequestIfDue now \<Rightarrow> if request_due now r then [(now, True)] else []
              | RForceRequest reason now \<Rightarrow> [(now, False)] | _ \<Rightarrow> [])
     @ requests rops (recovery_apply q r)"

fun clock_of :: "recovery_op \<Rightarrow> nat list" where
  "clock_of (RRequestIfDue now) = [now]"
| "clock_of (RForceRequest reason now) = [now]"
| "clock_of (REnter reason) = []"
| "clock_of (RSubmitted t) = []"
| "clock_of (RConfirmed t) = []"
| "clock_of RResetSession = []"

definition spaced :: "nat \<times> bool \<Rightarrow> nat \<times> bool \<Rightarrow> bool" where
  "spaced x y \<longleftrightarrow> (snd y \<longrightarrow> fst x + KEYFRAME_REQUEST_MIN_INTERVAL \<le> fst y)"

lemma request_dueD:
  "request_due now r \<Longrightarrow> dr_last_request_at r = Some prev \<Longrightarrow> prev + KEYFRAME_REQUEST_MIN_INTERVAL \<le> now"
  by (auto simp: request_due_def KEYFRAME_REQUEST_MIN_INTERVAL_def)

lemma keeps_last_request:
  "clock_of q = [] \<Longrightarrow> q \<noteq> RResetSession \<Longrightarrow> dr_last_request_at (recovery_apply q r) = dr_last_request_at r"
  by (cases q) (auto simp: recovery_defs)

lemma requests_after:
  assumes "RResetSession \<notin> set rops" "dr_last_request_at r = Some prev" "sorted (prev # concat (map clock_of rops))"
  shows "\<forall>y \<in> set (requests rops r). spaced (prev, b) y"
  using assms
proof (induction rops arbitrary: r prev b)
  case (Cons q rops)
  show ?case
  proof (cases "clock_of q")
    case Nil
    then have "requests (q # rops) r = requests rops (recovery_apply q r)" by (cases q) simp_all
    moreover have "q \<noteq> RResetSession" using Cons.prems(1) by auto
    ultimately show ?thesis
      using Nil Cons.prems Cons.IH [of "recovery_apply q r" prev b] keeps_last_request [of q r] by simp
  next
    case (Cons now rest)
    have le: "prev \<le> now" "sorted (now # concat (map clock_of rops))" "sorted (prev # concat (map clock_of rops))"
      using Cons Cons.prems(3) by (cases q; auto)+
    have new: "\<forall>y \<in> set (requests rops r'). spaced (prev, b) y" if "dr_last_request_at r' = Some now" for r'
      using Cons.IH [OF _ that le(2), of b] Cons.prems(1) le(1) by (fastforce simp: spaced_def)
    have old: "\<forall>y \<in> set (requests rops r'). spaced (prev, b) y" if "dr_last_request_at r' = Some prev" for r'
      using Cons.IH [OF _ that le(3)] Cons.prems(1) by simp
    show ?thesis
    proof (cases q)
      case (RRequestIfDue t)
      then show ?thesis
        using Cons Cons.prems(2) old [of r] new [of "note_request now r"] request_dueD [of now r prev]
        by (cases "request_due now r") (auto simp: note_request_def, simp add: spaced_def)
    next
      case (RForceRequest reason t)
      then show ?thesis
        using Cons new [of "note_request now (fst (enter reason r))"]
        by (simp add: note_request_def) (simp add: spaced_def)
    qed (use Cons in simp_all)
  qed
qed simp

lemma requests_spaced:
  "RResetSession \<notin> set rops \<Longrightarrow> sorted (concat (map clock_of rops)) \<Longrightarrow> sorted_wrt spaced (requests rops r)"
proof (induction rops arbitrary: r)
  case (Cons q rops)
  have "sorted (concat (map clock_of rops))" using Cons.prems by (simp add: sorted_append)
  then have ih: "sorted_wrt spaced (requests rops r')" for r' using Cons by simp
  show ?case
  proof (cases q)
    case (RRequestIfDue now)
    then show ?thesis
      using ih requests_after [of rops "note_request now r" now True] Cons.prems by (simp add: note_request_def)
  next
    case (RForceRequest reason now)
    then show ?thesis
      using ih requests_after [of rops "note_request now (fst (enter reason r))" now False] Cons.prems
      by (simp add: note_request_def)
  qed (simp_all add: ih)
qed simp

section \<open>Properties\<close>

text \<open>C26: a broken prediction chain is repaired only by a fresh keyframe. Whatever the session does after a
  loss, as long as it is not reset, the recovery is over only if a keyframe was submitted to the
  decoder, no further loss was noticed, and the decoder then confirmed that very keyframe.\<close>

theorem recovery_needs_fresh_keyframe:
  assumes "RResetSession \<notin> set rops" "dr_phase (recovery_run rops (fst (enter reason r))) = Healthy"
  shows "repaired rops"
  using repair_progress [OF assms(1), of "fst (enter reason r)"] assms(2) by (simp add: enter_def)

definition sample_timeline :: "nat \<Rightarrow> access_unit_timeline" where
  "sample_timeline f = \<lparr> tl_connection_generation = 1, tl_stream_generation = 2, tl_frame_id = f,
     tl_source_pts_us = 0, tl_encoded_at_us = 0, tl_received_at_us = 0, tl_decode_submitted_at_us = 0,
     tl_kind = Key \<rparr>"

lemmas sample_recovery = sample_timeline_def recovery_run_def recovery_new_def recovery_defs candidate_of_def
  candidate_matches_def kind_is_keyframe_def

theorem recovery_needs_fresh_keyframe_witness:
  "repaired [RSubmitted (sample_timeline 7), RRequestIfDue 5, RConfirmed (sample_timeline 6), RConfirmed (sample_timeline 7)]"
  by (rule recovery_needs_fresh_keyframe [where r = recovery_new and reason = DecoderFailed])
    (simp_all add: sample_recovery request_due_def is_awaiting_refresh_def)

text \<open>Keyframe requests are rate limited across recoveries. In a run without a session reset and with a
  clock that does not go back, an automatic request comes at least a second after every earlier
  request, even if the recovery ended and started again in between; and the instant that the session
  sleeps to is exactly the one at which the request becomes due.\<close>

lemma keyframe_requests_spaced:
  assumes "RResetSession \<notin> set rops" "sorted (concat (map clock_of rops))"
  shows "sorted_wrt spaced (requests rops r) \<and>
    request_due now r' = (\<exists>t. next_request_at now r' = Some t \<and> t \<le> now)"
  using requests_spaced [OF assms]
  by (auto simp: request_due_def next_request_at_def KEYFRAME_REQUEST_MIN_INTERVAL_def split: option.splits)

end
