(* ===== verification/Receiver_Media.thy ===== *)
theory Receiver_Media
  imports Reassembly_Inv Receiver_Timing Control_Messages Decoder_Recovery Session_State
begin

text \<open>
  The receiver's media path as one state machine: \<open>ReceiverSession\<close> of
  \<open>crates/picoo-receiver/src/session/mod.rs\<close> with its handlers in \<open>media_ingress.rs\<close>, \<open>media.rs\<close>,
  \<open>recovery.rs\<close> and \<open>media_publish.rs\<close>, on a platform without the recording and native-output features.

  A handler maps a session to the session it leaves and its result. What the session reads from outside
  is a record: the clock (one reading per handler, in nanoseconds), the transport's active session and
  round trip, and whether the transport takes the control message of a given id. Instants of the session are
  nanoseconds; the jitter buffer counts microseconds since \<open>timing_origin\<close>. Plain 64-bit event
  counters (\<open>+= 1\<close>) do not overflow in the lifetime of a session and are naturals.
\<close>

section \<open>State\<close>

record media_env =
  en_now :: nat
  en_active_session :: "nat option"
  en_rtt_ms :: "f64 option"
  en_send_ok :: "nat \<Rightarrow> bool"

datatype receiver_error =
    TransportFailed | ProtocolError string | NotListening | PublishFailed | StoreFailed | DecodePlatform string
  | StaleTrustedIdentityReplacement

record ingress_stats =
  is_access_units :: nat
  is_packets_received :: nat
  is_receive_queue_expired :: nat
  is_fec_recovered_fragments :: nat
  is_partial_drops :: nat
  is_gap_drops :: nat
  is_packets_dropped_unpaired :: nat
  is_decode_invocations :: nat
  is_decoded_frames :: nat
  is_orientation_transform_frames :: nat
  is_orientation_transform_total_us :: nat
  is_orientation_transform_max_us :: nat
  is_recovery_dropped :: nat
  is_capacity_dropped :: nat
  is_decoder_resets :: nat
  is_recovery_reference_lost :: nat
  is_recovery_reference_late :: nat
  is_recovery_jitter_capacity :: nat
  is_recovery_arrived_after_playout :: nat
  is_recovery_jitter_expired :: nat
  is_recovery_decoder_errors :: nat
  is_keyframe_requests :: nat
  is_control_rejected_unpaired :: nat

definition ingress_default :: ingress_stats where
  "ingress_default = \<lparr> is_access_units = 0, is_packets_received = 0, is_receive_queue_expired = 0,
     is_fec_recovered_fragments = 0, is_partial_drops = 0, is_gap_drops = 0, is_packets_dropped_unpaired = 0,
     is_decode_invocations = 0, is_decoded_frames = 0, is_orientation_transform_frames = 0,
     is_orientation_transform_total_us = 0, is_orientation_transform_max_us = 0, is_recovery_dropped = 0,
     is_capacity_dropped = 0, is_decoder_resets = 0, is_recovery_reference_lost = 0,
     is_recovery_reference_late = 0, is_recovery_jitter_capacity = 0, is_recovery_arrived_after_playout = 0,
     is_recovery_jitter_expired = 0, is_recovery_decoder_errors = 0, is_keyframe_requests = 0,
     is_control_rejected_unpaired = 0 \<rparr>"

text \<open>A picture handed to the frame store: its timeline, rotation and mirroring (\<open>publish_decoded_frame\<close>).\<close>

record published_frame =
  pub_timeline :: access_unit_timeline
  pub_rotation :: nat
  pub_mirrored :: bool

record media_session =
  ms_reassembly :: reassembly_map
  ms_jitter :: jitter_buffer
  ms_interarrival :: interarrival_jitter
  ms_recovery :: decoder_recovery
  ms_queue :: "stream_config queue_state"
  ms_runtime :: session_runtime_state
  ms_config :: "stream_config option"
  ms_config_revision :: nat
  ms_budget :: "nat option"
  ms_waiting_epoch :: "nat option"
  ms_pending_idr :: "assembled_access_unit option"
  ms_permit_unpaired :: bool
  ms_sender :: "active_sender option"
  ms_control_generation :: "nat option"
  ms_next_message_id :: nat
  ms_last_message_id :: nat
  ms_ingress :: ingress_stats
  ms_stats :: stats_reporter
  ms_timing_origin :: nat
  ms_completions :: nat
  ms_completions_skipped :: nat
  ms_published :: "published_frame list"
  ms_sent :: "(nat \<times> nat \<times> control_payload) list"

type_synonym 'a outcome = "media_session \<times> ('a, receiver_error) result"

text \<open>The \<open>?\<close> operator: the rest runs only after success.\<close>

definition and_then :: "unit outcome \<Rightarrow> (media_session \<Rightarrow> 'a outcome) \<Rightarrow> 'a outcome" where
  "and_then out f =
     (case snd out of Ok u \<Rightarrow> f (fst out) | Err e \<Rightarrow> (fst out, Err e) | Panic \<Rightarrow> (fst out, Panic))"

definition count_ingress :: "(ingress_stats \<Rightarrow> ingress_stats) \<Rightarrow> media_session \<Rightarrow> media_session" where
  "count_ingress f s = s \<lparr> ms_ingress := f (ms_ingress s) \<rparr>"

section \<open>Requests to the sender\<close>

definition send_control_payload :: "media_env \<Rightarrow> control_payload \<Rightarrow> media_session \<Rightarrow> unit outcome" where
  "send_control_payload env payload s =
     (case ms_control_generation s of
        None \<Rightarrow> (s, Err (ProtocolError ''control generation is not established''))
      | Some generation \<Rightarrow>
          let message_id = ms_next_message_id s;
              s1 = s \<lparr> ms_next_message_id := sat_add64 message_id 1 \<rparr>
          in if en_send_ok env message_id
             then (s1 \<lparr> ms_sent := ms_sent s1 @ [(message_id, generation, payload)] \<rparr>, Ok ())
             else (s1, Err TransportFailed))"

definition send_request_keyframe_now :: "media_env \<Rightarrow> media_session \<Rightarrow> unit outcome" where
  "send_request_keyframe_now env s =
     and_then (send_control_payload env (EncoderCommandMsg REQUEST_KEYFRAME) s) (\<lambda>s1.
       (count_ingress (\<lambda>i. i \<lparr> is_keyframe_requests := sat_add64 (is_keyframe_requests i) 1 \<rparr>) s1, Ok ()))"

definition maybe_request_recovery_keyframe :: "media_env \<Rightarrow> media_session \<Rightarrow> unit outcome" where
  "maybe_request_recovery_keyframe env s =
     (if \<not> request_due (en_now env) (ms_recovery s) then (s, Ok ())
      else case en_active_session env of
             None \<Rightarrow> (s, Ok ())
           | Some session \<Rightarrow>
               and_then (send_request_keyframe_now env s) (\<lambda>s1.
                 (s1 \<lparr> ms_recovery := note_request (en_now env) (ms_recovery s1) \<rparr>, Ok ())))"

section \<open>Recovery\<close>

definition config_epoch_or_zero :: "media_session \<Rightarrow> nat" where
  "config_epoch_or_zero s = (case ms_config s of None \<Rightarrow> 0 | Some config \<Rightarrow> sc_stream_epoch config)"

definition show_awaiting :: "media_session \<Rightarrow> media_session" where
  "show_awaiting s =
     (if is_streaming (rt_stream (ms_runtime s))
      then s \<lparr> ms_runtime := set_stream (StreamAwaitingRefresh (config_epoch_or_zero s)) (ms_runtime s) \<rparr> else s)"

definition count_reason :: "recovery_reason \<Rightarrow> ingress_stats \<Rightarrow> ingress_stats" where
  "count_reason reason i =
     (case reason of
        ReferenceAccessUnitLost \<Rightarrow> i \<lparr> is_recovery_reference_lost := sat_add64 (is_recovery_reference_lost i) 1 \<rparr>
      | ReferenceAccessUnitLate \<Rightarrow> i \<lparr> is_recovery_reference_late := sat_add64 (is_recovery_reference_late i) 1 \<rparr>
      | DecoderFailed \<Rightarrow> i \<lparr> is_recovery_decoder_errors := sat_add64 (is_recovery_decoder_errors i) 1 \<rparr>
      | _ \<Rightarrow> i)"

definition discard_dependent_media :: "media_session \<Rightarrow> media_session" where
  "discard_dependent_media s =
     s \<lparr> ms_reassembly := snd (take_reference_chain_loss (clear_pending (ms_reassembly s))),
         ms_jitter := discard_queued (ms_jitter s) \<rparr>"

definition reset_decoder_worker :: "media_session \<Rightarrow> media_session" where
  "reset_decoder_worker s =
     (count_ingress (\<lambda>i. i \<lparr> is_decoder_resets := sat_add64 (is_decoder_resets i) 1 \<rparr>) s)
       \<lparr> ms_queue := queue_reset (ms_queue s) \<rparr>"

definition enter_decoder_recovery ::
  "media_env \<Rightarrow> recovery_reason \<Rightarrow> bool \<Rightarrow> media_session \<Rightarrow> unit outcome" where
  "enter_decoder_recovery env reason reset_decoder s =
     (let (recovery, transition) = enter reason (ms_recovery s);
          s1 = show_awaiting (s \<lparr> ms_recovery := recovery \<rparr>);
          s2 = (if rt_newly_awaiting transition then count_ingress (count_reason reason) s1 else s1);
          discard_chain = (requires_media_cleanup transition \<or> reason = RandomAccessResync);
          s3 = (if discard_chain then discard_dependent_media s2 else s2);
          s4 = (if reset_decoder \<and> (discard_chain \<or> reason = DecoderFailed) then reset_decoder_worker s3 else s3)
      in maybe_request_recovery_keyframe env s4)"

definition mark_decoder_refresh_accepted :: "access_unit_timeline \<Rightarrow> media_session \<Rightarrow> media_session" where
  "mark_decoder_refresh_accepted t s =
     (let (recovery, recovered) = mark_recovered t (ms_recovery s);
          s1 = s \<lparr> ms_recovery := recovery \<rparr>
      in if \<not> recovered then s1
         else (case rt_stream (ms_runtime s1) of
                 StreamAwaitingRefresh g \<Rightarrow>
                   s1 \<lparr> ms_runtime := set_stream (StreamStreaming (config_epoch_or_zero s1)) (ms_runtime s1) \<rparr>
               | _ \<Rightarrow> s1))"

definition force_decoder_recovery_request :: "media_env \<Rightarrow> recovery_reason \<Rightarrow> media_session \<Rightarrow> unit outcome" where
  "force_decoder_recovery_request env reason s =
     (let (recovery, transition) = enter reason (ms_recovery s);
          s1 = show_awaiting (s \<lparr> ms_recovery := recovery \<rparr>);
          s2 = (if requires_media_cleanup transition then discard_dependent_media s1 else s1)
      in case en_active_session env of
           None \<Rightarrow> (s2, Err NotListening)
         | Some session \<Rightarrow>
             and_then (send_request_keyframe_now env s2) (\<lambda>s3.
               (s3 \<lparr> ms_recovery := note_request (en_now env) (ms_recovery s3) \<rparr>, Ok ())))"

section \<open>Deadlines\<close>

definition sender_allowed :: "media_session \<Rightarrow> bool" where
  "sender_allowed s \<longleftrightarrow> (case ms_sender s of None \<Rightarrow> False | Some sender \<Rightarrow> snd_video_allowed sender)"

definition video_allowed :: "media_session \<Rightarrow> bool" where
  "video_allowed s \<longleftrightarrow> ms_permit_unpaired s \<or> sender_allowed s"

definition request_keyframe :: "media_env \<Rightarrow> media_session \<Rightarrow> unit outcome" where
  "request_keyframe env s =
     (if \<not> video_allowed s then (s, Err (ProtocolError ''RequestKeyframe requires paired streaming session''))
      else force_decoder_recovery_request env ManualRepair s)"

definition media_deadline :: "media_env \<Rightarrow> media_session \<Rightarrow> (nat, receiver_error) result" where
  "media_deadline env s =
     (let rtt_ms = (case en_rtt_ms env of None \<Rightarrow> Fin 0 | Some rtt \<Rightarrow> f64_max rtt (Fin 0));
          frame_ms = (case ms_config s of
                        None \<Rightarrow> f64_div (f64_lit 1000) (f64_lit 30)
                      | Some config \<Rightarrow> f64_div (f64_lit 1000) (f64_of_nat (max (sc_fps config) 1)))
      in media_deadline_from_observations rtt_ms (interarrival_ms (ms_interarrival s)) frame_ms
           (target_delay_ms (ms_jitter s)))"

definition micros_since_origin :: "nat \<Rightarrow> media_session \<Rightarrow> nat" where
  "micros_since_origin t s = (t - ms_timing_origin s) div 1000"

definition count_drops :: "reassembly_map \<Rightarrow> media_session \<Rightarrow> media_session" where
  "count_drops before s =
     count_ingress (\<lambda>i. i \<lparr>
       is_partial_drops := sat_add64 (is_partial_drops i) (rm_partial_drops (ms_reassembly s) - rm_partial_drops before),
       is_gap_drops := sat_add64 (is_gap_drops i) (rm_gap_drops (ms_reassembly s) - rm_gap_drops before) \<rparr>) s"

definition take_loss :: "media_session \<Rightarrow> bool \<times> media_session" where
  "take_loss s =
     (let (loss, m) = take_reference_chain_loss (ms_reassembly s) in (loss, s \<lparr> ms_reassembly := m \<rparr>))"

definition expire_reassembly_deadline :: "media_env \<Rightarrow> media_session \<Rightarrow> unit outcome" where
  "expire_reassembly_deadline env s =
     (case media_deadline env s of
        Err e \<Rightarrow> (s, Err e)
      | Panic \<Rightarrow> (s, Panic)
      | Ok deadline \<Rightarrow>
          let s1 = s \<lparr> ms_reassembly := expire_incomplete_older_than (en_now env) deadline (ms_reassembly s) \<rparr>;
              (loss, s2) = take_loss (count_drops (ms_reassembly s) s1)
          in if loss then enter_decoder_recovery env ReferenceAccessUnitLost True s2 else (s2, Ok ()))"

section \<open>Ingress\<close>

definition jitter_frame_of :: "assembled_access_unit \<Rightarrow> nat \<Rightarrow> jitter_frame" where
  "jitter_frame_of au completed_at_us =
     \<lparr> jf_stream_generation = au_stream_epoch au, jf_frame_id = au_frame_id au, jf_pts_us = au_pts_us au,
       jf_encoded_at_us = au_encoded_at_us au, jf_received_at_us = completed_at_us, jf_data = au_data au,
       jf_keyframe = au_keyframe au, jf_discardable = au_discardable au \<rparr>"

definition push_assembled :: "media_env \<Rightarrow> assembled_access_unit \<Rightarrow> media_session \<Rightarrow> unit outcome" where
  "push_assembled env au s =
     (let completed_at = en_now env;
          s1 = s \<lparr> ms_interarrival := interarrival_observe completed_at (au_pts_us au) (ms_interarrival s) \<rparr>;
          completed_at_us = micros_since_origin completed_at s1;
          (j, out) = push_at (jitter_frame_of au completed_at_us)
                       (micros_since_origin (au_first_fragment_at au) s1) completed_at_us (ms_jitter s1);
          s2 = s1 \<lparr> ms_jitter := j \<rparr>
      in (case out of
            AcceptedAfterReferenceDrop \<Rightarrow>
              enter_decoder_recovery env ReferenceAccessUnitLate True
                (count_ingress (\<lambda>i. i \<lparr> is_recovery_jitter_capacity := sat_add64 (is_recovery_jitter_capacity i) 1 \<rparr>) s2)
          | DroppedLate requires_refresh \<Rightarrow>
              if requires_refresh
              then enter_decoder_recovery env ReferenceAccessUnitLate True
                (count_ingress (\<lambda>i. i \<lparr> is_recovery_arrived_after_playout :=
                   sat_add64 (is_recovery_arrived_after_playout i) 1 \<rparr>) s2)
              else (s2, Ok ())
          | Accepted \<Rightarrow> (s2, Ok ())))"

definition supersedes_unresolved :: "assembled_access_unit \<Rightarrow> media_session \<Rightarrow> bool" where
  "supersedes_unresolved au s \<longleftrightarrow> au_keyframe au \<and>
     (case oldest_unresolved_frame_id (ms_reassembly s) of None \<Rightarrow> False | Some missing \<Rightarrow> missing < au_frame_id au)"

definition queue_assembled_access_unit :: "media_env \<Rightarrow> assembled_access_unit \<Rightarrow> media_session \<Rightarrow> unit outcome" where
  "queue_assembled_access_unit env au s =
     and_then (if supersedes_unresolved au s then enter_decoder_recovery env RandomAccessResync True s else (s, Ok ()))
       (push_assembled env au)"

definition release_pending_stream_config_idr :: "media_env \<Rightarrow> nat \<Rightarrow> media_session \<Rightarrow> unit outcome" where
  "release_pending_stream_config_idr env stream_epoch s =
     (case ms_pending_idr s of
        None \<Rightarrow> (s, Ok ())
      | Some au \<Rightarrow>
          if au_stream_epoch au = stream_epoch
          then queue_assembled_access_unit env au (s \<lparr> ms_pending_idr := None \<rparr>) else (s, Ok ()))"

text \<open>\<open>HashSet::insert\<close> is true for a new key.\<close>

fun discard_stale :: "video_packet list \<Rightarrow> (nat \<times> nat) list \<Rightarrow> media_session \<Rightarrow> media_session" where
  "discard_stale [] terminated s = s"
| "discard_stale (p # ps) terminated s =
     (let key = (unat (vp_stream_epoch p), unat (vp_frame_id p))
      in if key \<in> set terminated then discard_stale ps terminated s
         else
           let (m, discarded) = discard_stale_access_unit (fst key) (snd key) (vp_flags p) (ms_reassembly s);
               s1 = s \<lparr> ms_reassembly := m \<rparr>;
               s2 = (if discarded
                     then count_ingress (\<lambda>i. i \<lparr> is_receive_queue_expired := sat_add64 (is_receive_queue_expired i) 1 \<rparr>) s1
                     else s1)
           in discard_stale ps (key # terminated) s2)"

definition discard_stale_video_batch :: "media_env \<Rightarrow> video_packet list \<Rightarrow> media_session \<Rightarrow> unit outcome" where
  "discard_stale_video_batch env packets s =
     (let (loss, s1) = take_loss (discard_stale packets [] s)
      in if loss then enter_decoder_recovery env ReferenceAccessUnitLate True s1 else (s1, Ok ()))"

text \<open>Until the stream configuration of its epoch has arrived, a packet waits for it; \<open>None\<close> is an early return.\<close>

definition await_config :: "nat \<Rightarrow> media_session \<Rightarrow> media_session" where
  "await_config epoch s =
     (if ms_waiting_epoch s = Some epoch then s
      else s \<lparr> ms_pending_idr := None, ms_waiting_epoch := Some epoch \<rparr>)"

definition route_epoch :: "nat \<Rightarrow> media_session \<Rightarrow> (media_session \<times> bool) option" where
  "route_epoch packet_epoch s =
     (let waits_for_later = (case ms_waiting_epoch s of None \<Rightarrow> False | Some w \<Rightarrow> packet_epoch < w)
      in (case ms_config s of
            None \<Rightarrow>
              if ms_permit_unpaired s then Some (s, False)
              else if waits_for_later then None
              else Some (await_config packet_epoch s, True)
          | Some config \<Rightarrow>
              if packet_epoch < sc_stream_epoch config then None
              else if packet_epoch = sc_stream_epoch config then Some (s, False)
              else if waits_for_later then None
              else Some (await_config packet_epoch s, True)))"

definition count_ingested :: "reassembly_map \<Rightarrow> media_session \<Rightarrow> media_session" where
  "count_ingested before s =
     count_drops before (count_ingress (\<lambda>i. i \<lparr> is_fec_recovered_fragments := sat_add64 (is_fec_recovered_fragments i)
       (rm_fec_recovered (ms_reassembly s) - rm_fec_recovered before) \<rparr>) s)"

definition accept_assembled :: "media_env \<Rightarrow> bool \<Rightarrow> assembled_access_unit \<Rightarrow> media_session \<Rightarrow> unit outcome" where
  "accept_assembled env defer_until_config au s =
     (if defer_until_config
      then (if au_keyframe au \<and> ms_waiting_epoch s = Some (au_stream_epoch au)
            then s \<lparr> ms_pending_idr := Some au \<rparr> else s, Ok ())
      else queue_assembled_access_unit env au s)"

definition ingest_routed ::
  "media_env \<Rightarrow> rs_codec \<Rightarrow> video_packet \<Rightarrow> nat \<Rightarrow> bool \<Rightarrow> media_session \<Rightarrow> unit outcome" where
  "ingest_routed env rs packet received_at defer_until_config s =
     (let s1 = s \<lparr> ms_stats := record_packet (length (vp_payload packet)) (ms_stats s) \<rparr>;
          (m, result) = ingest_at rs packet received_at (ms_reassembly s1);
          s2 = count_ingested (ms_reassembly s1) (s1 \<lparr> ms_reassembly := m \<rparr>)
      in and_then
           (case result of
              Ok (Some au) \<Rightarrow> accept_assembled env defer_until_config au s2
            | Ok None \<Rightarrow> (s2, Ok ())
            | Err e \<Rightarrow> (s2, Ok ())
            | Panic \<Rightarrow> (s2, Panic))
           (\<lambda>s3. let (loss, s4) = take_loss s3
                 in if loss \<and> \<not> defer_until_config
                    then enter_decoder_recovery env ReferenceAccessUnitLost True s4 else (s4, Ok ())))"

definition ingest_video_packet ::
  "media_env \<Rightarrow> rs_codec \<Rightarrow> video_packet \<Rightarrow> nat \<Rightarrow> media_session \<Rightarrow> unit outcome" where
  "ingest_video_packet env rs packet received_at s =
     and_then (expire_reassembly_deadline env s) (\<lambda>s1.
       let s2 = count_ingress (\<lambda>i. i \<lparr> is_packets_received := is_packets_received i + 1 \<rparr>) s1
       in if \<not> video_allowed s2
          then (count_ingress (\<lambda>i. i \<lparr> is_packets_dropped_unpaired := is_packets_dropped_unpaired i + 1 \<rparr>) s2, Ok ())
          else (case route_epoch (unat (vp_stream_epoch packet)) s2 of
                  None \<Rightarrow> (s2, Ok ())
                | Some (s3, defer_until_config) \<Rightarrow> ingest_routed env rs packet received_at defer_until_config s3))"

section \<open>Playout\<close>

definition media_connection_generation :: "media_env \<Rightarrow> media_session \<Rightarrow> nat" where
  "media_connection_generation env s =
     (case ms_control_generation s of
        Some g \<Rightarrow> g
      | None \<Rightarrow> (case en_active_session env of None \<Rightarrow> 0 | Some session \<Rightarrow> session))"

definition frame_kind_of :: "bool \<Rightarrow> bool \<Rightarrow> frame_kind" where
  "frame_kind_of keyframe discardable =
     (if keyframe then Key else if discardable then DiscardableDelta else ReferenceDelta)"

definition publish_timeline_access_unit :: "media_env \<Rightarrow> encoded_access_unit \<Rightarrow> media_session \<Rightarrow> unit outcome" where
  "publish_timeline_access_unit env au s =
     (let s1 = count_ingress (\<lambda>i. i \<lparr> is_access_units := is_access_units i + 1 \<rparr>) s;
          dropped = count_ingress (\<lambda>i. i \<lparr> is_recovery_dropped := sat_add64 (is_recovery_dropped i) 1 \<rparr>)
      in if (case ms_budget s1 of None \<Rightarrow> False | Some budget \<Rightarrow> length (eau_data au) > budget)
         then (s1, Err (ProtocolError ''access unit exceeds admitted decoder budget''))
         else if (case ms_config s1 of None \<Rightarrow> False | Some config \<Rightarrow> sc_stream_epoch config \<noteq> eau_stream_generation au)
         then (dropped s1, Ok ())
         else
           let (queue, outcome) = submit \<lparr> dj_config_revision = ms_config_revision s1, dj_access_unit = au,
                 dj_stream_config = ms_config s1, dj_decoder_generation = 0 \<rparr> (ms_queue s1);
               s2 = s1 \<lparr> ms_queue := queue \<rparr>
           in (case outcome of
                 Queued \<Rightarrow> (s2 \<lparr> ms_recovery := note_refresh_submitted (timeline au) (ms_recovery s2) \<rparr>, Ok ())
               | Dropped requires_refresh \<Rightarrow>
                   if requires_refresh then enter_decoder_recovery env DecoderQueuePressure True (dropped s2)
                   else (dropped s2, Ok ())))"

definition media_schedule_decision ::
  "media_env \<Rightarrow> nat \<Rightarrow> nat \<Rightarrow> media_session \<Rightarrow> media_schedule_decision" where
  "media_schedule_decision env now_us max_queue_age_us s =
     (let front = front_frame_descriptor (ms_jitter s)
      in schedule_media
           \<lparr> msi_front_frame_id = front_frame_id (ms_jitter s),
             msi_oldest_unresolved_frame_id = oldest_unresolved_frame_id (ms_reassembly s),
             msi_release_delay = next_release_delay_us now_us (ms_jitter s),
             msi_expiration_delay = next_expiration_delay_us now_us max_queue_age_us (ms_jitter s),
             msi_recovery_admission =
               (case front of None \<Rightarrow> RecoveryReady
                | Some frame \<Rightarrow> recovery_admits (media_connection_generation env s) frame (ms_recovery s)),
             msi_decoder_admission =
               (case front of None \<Rightarrow> DecoderReady
                | Some frame \<Rightarrow> admission (frame_kind_of (ff_keyframe frame) (ff_discardable frame)) (ms_queue s)) \<rparr>)"

definition encoded_of :: "media_env \<Rightarrow> nat \<Rightarrow> jitter_frame \<Rightarrow> media_session \<Rightarrow> encoded_access_unit" where
  "encoded_of env now_us frame s =
     \<lparr> eau_connection_generation = media_connection_generation env s,
       eau_stream_generation = jf_stream_generation frame, eau_frame_id = jf_frame_id frame,
       eau_source_pts_us = jf_pts_us frame, eau_encoded_at_us = jf_encoded_at_us frame,
       eau_received_at_us = jf_received_at_us frame, eau_decode_submitted_at_us = now_us,
       eau_kind = frame_kind_of (jf_keyframe frame) (jf_discardable frame), eau_data = jf_data frame \<rparr>"

text \<open>One turn of the loop of \<open>drain_jitter\<close>; \<open>Ok True\<close> goes on with the next one.\<close>

definition drain_step :: "media_env \<Rightarrow> nat \<Rightarrow> nat \<Rightarrow> media_session \<Rightarrow> bool outcome" where
  "drain_step env now_us max_queue_age_us s =
     (case media_schedule_decision env now_us max_queue_age_us s of
        DiscardExpired \<Rightarrow>
          let (j, lost) = drop_expired now_us max_queue_age_us (ms_jitter s);
              s1 = s \<lparr> ms_jitter := j \<rparr>
          in if lost
             then and_then (enter_decoder_recovery env ReferenceAccessUnitLate True
                    (count_ingress (\<lambda>i. i \<lparr> is_recovery_jitter_expired := sat_add64 (is_recovery_jitter_expired i) 1 \<rparr>) s1))
                    (\<lambda>s2. (s2, Ok False))
             else (s1, Ok True)
      | DecodeReadyFrame \<Rightarrow>
          (case pop_ready now_us (ms_jitter s) of
             (j, None) \<Rightarrow> (s \<lparr> ms_jitter := j \<rparr>, Ok False)
           | (j, Some frame) \<Rightarrow>
               and_then (publish_timeline_access_unit env (encoded_of env now_us frame s) (s \<lparr> ms_jitter := j \<rparr>))
                 (\<lambda>s2. (s2, Ok True)))
      | DiscardReadyFrame \<Rightarrow>
          (case pop_ready now_us (ms_jitter s) of
             (j, None) \<Rightarrow> (s \<lparr> ms_jitter := j \<rparr>, Ok False)
           | (j, Some frame) \<Rightarrow>
               (count_ingress (\<lambda>i. i \<lparr> is_capacity_dropped := sat_add64 (is_capacity_dropped i) 1 \<rparr>)
                  (s \<lparr> ms_jitter := j \<rparr>), Ok True))
      | DiscardRecoveryBlockedFrame \<Rightarrow>
          (case pop_ready now_us (ms_jitter s) of
             (j, None) \<Rightarrow> (s \<lparr> ms_jitter := j \<rparr>, Ok False)
           | (j, Some frame) \<Rightarrow>
               (count_ingress (\<lambda>i. i \<lparr> is_recovery_dropped := sat_add64 (is_recovery_dropped i) 1 \<rparr>)
                  (s \<lparr> ms_jitter := j \<rparr>), Ok True))
      | WaitUntil delay reason \<Rightarrow> (s, Ok False)
      | WaitForEvent reason \<Rightarrow> (s, Ok False)
      | ScheduleIdle \<Rightarrow> (s, Ok False))"

text \<open>The loop has no bound of its own: \<open>None\<close> is a loop that does not end.\<close>

partial_function (option) drain_loop :: "media_env \<Rightarrow> nat \<Rightarrow> nat \<Rightarrow> media_session \<Rightarrow> unit outcome option" where
  "drain_loop env now_us max_queue_age_us s =
     (case drain_step env now_us max_queue_age_us s of
        (s1, Ok continue) \<Rightarrow> if continue then drain_loop env now_us max_queue_age_us s1 else Some (s1, Ok ())
      | (s1, Err e) \<Rightarrow> Some (s1, Err e)
      | (s1, Panic) \<Rightarrow> Some (s1, Panic))"

definition drain_jitter :: "media_env \<Rightarrow> media_session \<Rightarrow> unit outcome option" where
  "drain_jitter env s =
     (case media_deadline env s of
        Err e \<Rightarrow> Some (s, Err e)
      | Panic \<Rightarrow> Some (s, Panic)
      | Ok deadline \<Rightarrow> drain_loop env (micros_since_origin (en_now env) s) (deadline div 1000) s)"

section \<open>Decoder completions\<close>

record decode_token =
  dt_timeline :: access_unit_timeline
  dt_decoder_generation :: u64
  dt_config_revision :: nat
  dt_stream_config :: "stream_config option"

text \<open>
  A decoded picture: its token, the rotation the picture itself carries, and whether the frame
  store takes it (the pixel transform of \<open>publish_decoded_frame\<close> can fail).
\<close>

record decoded_output =
  out_token :: decode_token
  out_rotation :: nat
  out_publishable :: bool

record decode_outcome =
  oc_refresh_accepted :: bool
  oc_frames :: "decoded_output list"

definition decoder_timeline_is_current :: "media_env \<Rightarrow> access_unit_timeline \<Rightarrow> media_session \<Rightarrow> bool" where
  "decoder_timeline_is_current env t s \<longleftrightarrow>
     (tl_connection_generation t = 0 \<or>
        (case ms_control_generation s of
           Some generation \<Rightarrow> generation = tl_connection_generation t
         | None \<Rightarrow> ms_permit_unpaired s \<and> media_connection_generation env s = tl_connection_generation t)) \<and>
     (case ms_config s of
        None \<Rightarrow> ms_permit_unpaired s \<and> en_active_session env \<noteq> None
      | Some config \<Rightarrow> sc_stream_epoch config = tl_stream_generation t)"

definition note_decode_skip :: "media_session \<Rightarrow> media_session" where
  "note_decode_skip s = s \<lparr> ms_completions_skipped := sat_add64 (ms_completions_skipped s) 1 \<rparr>"

definition publication_gate :: "media_env \<Rightarrow> decode_token \<Rightarrow> media_session \<Rightarrow> bool" where
  "publication_gate env token s \<longleftrightarrow> is_current_generation (dt_decoder_generation token) (ms_queue s) \<and>
     decoder_timeline_is_current env (dt_timeline token) s \<and>
     accepts_completion (dt_timeline token) (ms_recovery s)"

definition picture_of :: "decoded_output \<Rightarrow> published_frame" where
  "picture_of output =
     (let token = out_token output
      in \<lparr> pub_timeline = dt_timeline token,
           pub_rotation = (case dt_stream_config token of None \<Rightarrow> out_rotation output | Some c \<Rightarrow> sc_rotation c),
           pub_mirrored = (case dt_stream_config token of None \<Rightarrow> False | Some c \<Rightarrow> sc_mirrored c) \<rparr>)"

definition publish_output :: "decoded_output \<Rightarrow> media_session \<Rightarrow> unit outcome" where
  "publish_output output s =
     (if \<not> out_publishable output then (s, Err PublishFailed)
      else (count_ingress (\<lambda>i. i \<lparr> is_decoded_frames := is_decoded_frames i + 1 \<rparr>)
              (s \<lparr> ms_published := ms_published s @ [picture_of output],
                  ms_stats := record_decoded_frame (ms_stats s) \<rparr>), Ok ()))"

fun publish_outputs :: "media_env \<Rightarrow> decoded_output list \<Rightarrow> media_session \<Rightarrow> unit outcome" where
  "publish_outputs env [] s = (s, Ok ())"
| "publish_outputs env (output # outputs) s =
     (if \<not> publication_gate env (out_token output) s then publish_outputs env outputs (note_decode_skip s)
      else and_then (publish_output output s) (publish_outputs env outputs))"

definition handle_decoder_result ::
  "media_env \<Rightarrow> access_unit_timeline \<Rightarrow> (decode_outcome, string) result \<Rightarrow> media_session \<Rightarrow> unit outcome" where
  "handle_decoder_result env t result s =
     (case result of
        Err e \<Rightarrow> enter_decoder_recovery env DecoderFailed True (s \<lparr> ms_stats := record_decoder_drop (ms_stats s) \<rparr>)
      | Panic \<Rightarrow> (s, Panic)
      | Ok outcome \<Rightarrow>
          if kind_is_keyframe (tl_kind t) \<and> oc_refresh_accepted outcome
          then publish_outputs env (oc_frames outcome) (mark_decoder_refresh_accepted t s)
          else if kind_is_keyframe (tl_kind t) \<and> is_refresh_candidate t (ms_recovery s)
          then enter_decoder_recovery env DecoderFailed True s
          else publish_outputs env (oc_frames outcome) s)"

text \<open>The \<open>Completed\<close> event of \<open>drain_decoder_events\<close>.\<close>

definition handle_completion ::
  "media_env \<Rightarrow> access_unit_timeline \<Rightarrow> u64 \<Rightarrow> nat \<Rightarrow> (decode_outcome, string) result \<Rightarrow> media_session \<Rightarrow> unit outcome" where
  "handle_completion env t decoder_generation decode_time_us result s =
     (let s1 = s \<lparr> ms_completions := sat_add64 (ms_completions s) 1,
                   ms_jitter := observe_decode_time_us decode_time_us (ms_jitter s) \<rparr>
      in if \<not> is_current_generation decoder_generation (ms_queue s1) \<or> \<not> decoder_timeline_is_current env t s1
         then (note_decode_skip s1, Ok ())
         else if \<not> accepts_completion t (ms_recovery s1) then (note_decode_skip s1, Ok ())
         else handle_decoder_result env t result s1)"

section \<open>Teardown\<close>

text \<open>The media part of \<open>reset_session_resources\<close>.\<close>

definition reset_session_resources :: "nat \<Rightarrow> media_session \<Rightarrow> media_session" where
  "reset_session_resources now s = s \<lparr>
     ms_queue := queue_reset (ms_queue s), ms_sender := None,
     ms_reassembly := reassembly_new 8 MAX_VIDEO_FRAGMENTS_PER_ACCESS_UNIT,
     ms_stats := stats_reporter_new now, ms_jitter := jitter_clear (ms_jitter s),
     ms_interarrival := interarrival_default, ms_completions_skipped := 0, ms_config := None, ms_budget := None,
     ms_waiting_epoch := None, ms_pending_idr := None, ms_recovery := reset_recovery (ms_recovery s),
     ms_control_generation := None, ms_next_message_id := 1, ms_last_message_id := 0 \<rparr>"

definition media_session_new :: "nat \<Rightarrow> media_session" where
  "media_session_new now =
     \<lparr> ms_reassembly = reassembly_new 8 MAX_VIDEO_FRAGMENTS_PER_ACCESS_UNIT, ms_jitter = jitter_new,
       ms_interarrival = interarrival_default, ms_recovery = recovery_new, ms_queue = queue_new,
       ms_runtime = runtime_default, ms_config = None, ms_config_revision = 0, ms_budget = None,
       ms_waiting_epoch = None, ms_pending_idr = None, ms_permit_unpaired = False, ms_sender = None,
       ms_control_generation = None, ms_next_message_id = 1, ms_last_message_id = 0, ms_ingress = ingress_default,
       ms_stats = stats_reporter_new now, ms_timing_origin = now, ms_completions = 0, ms_completions_skipped = 0,
       ms_published = [], ms_sent = [] \<rparr>"

end
