(* ===== verification/Receiver_Media_Props.thy ===== *)
theory Receiver_Media_Props
  imports Receiver_Media "HOL-Library.Sublist"
begin

text \<open>
  What the receiver's media path keeps: the playout loop ends, a broken prediction chain lets only
  keyframes through, a random access point survives the cleanup it causes, and only pictures of the
  current stream are published.
\<close>

section \<open>The frame rule of the handlers\<close>

text \<open>The part of a session that sending a request leaves alone.\<close>

definition same_media :: "media_session \<Rightarrow> media_session \<Rightarrow> bool" where
  "same_media s s' \<longleftrightarrow> ms_reassembly s' = ms_reassembly s \<and> ms_jitter s' = ms_jitter s \<and> ms_queue s' = ms_queue s \<and>
     dr_phase (ms_recovery s') = dr_phase (ms_recovery s) \<and> ms_config s' = ms_config s \<and> ms_budget s' = ms_budget s \<and>
     ms_config_revision s' = ms_config_revision s \<and> ms_waiting_epoch s' = ms_waiting_epoch s \<and>
     ms_pending_idr s' = ms_pending_idr s \<and> ms_permit_unpaired s' = ms_permit_unpaired s \<and>
     ms_sender s' = ms_sender s \<and> ms_control_generation s' = ms_control_generation s \<and>
     ms_published s' = ms_published s \<and> ms_timing_origin s' = ms_timing_origin s \<and>
     ms_interarrival s' = ms_interarrival s"

lemma same_media_refl [simp]: "same_media s s"
  by (simp add: same_media_def)

lemma count_ingress_fields [simp]:
  "ms_reassembly (count_ingress f s) = ms_reassembly s" "ms_jitter (count_ingress f s) = ms_jitter s"
  "ms_queue (count_ingress f s) = ms_queue s" "ms_recovery (count_ingress f s) = ms_recovery s"
  "ms_config (count_ingress f s) = ms_config s" "ms_budget (count_ingress f s) = ms_budget s"
  "ms_config_revision (count_ingress f s) = ms_config_revision s"
  "ms_waiting_epoch (count_ingress f s) = ms_waiting_epoch s" "ms_pending_idr (count_ingress f s) = ms_pending_idr s"
  "ms_permit_unpaired (count_ingress f s) = ms_permit_unpaired s"
  "ms_sender (count_ingress f s) = ms_sender s"
  "ms_control_generation (count_ingress f s) = ms_control_generation s"
  "ms_published (count_ingress f s) = ms_published s" "ms_timing_origin (count_ingress f s) = ms_timing_origin s"
  "ms_runtime (count_ingress f s) = ms_runtime s" "ms_interarrival (count_ingress f s) = ms_interarrival s"
  by (simp_all add: count_ingress_def)

lemma and_then_cases:
  assumes "and_then out f = (s', r)"
  obtains (ok) u where "snd out = Ok u" "f (fst out) = (s', r)"
    | (stop) "s' = fst out" "\<forall>x. r \<noteq> Ok x"
  using assms by (cases "snd out") (auto simp: and_then_def)

lemma and_then_Ok: "and_then out f = (s', Ok x) \<longleftrightarrow> (\<exists>u. snd out = Ok u \<and> f (fst out) = (s', Ok x))"
  by (cases "snd out") (auto simp: and_then_def)

lemma send_same: "same_media s (fst (send_control_payload env payload s))"
  by (simp add: send_control_payload_def same_media_def Let_def split: option.split)

lemma request_same: "same_media s (fst (send_request_keyframe_now env s))"
  using send_same [of s env "EncoderCommandMsg REQUEST_KEYFRAME"]
  by (simp add: send_request_keyframe_now_def and_then_def same_media_def split: result.split)

lemma maybe_request_same: "same_media s (fst (maybe_request_recovery_keyframe env s))"
  using request_same [of s env]
  by (simp add: maybe_request_recovery_keyframe_def and_then_def same_media_def note_request_def
      split: result.split option.split)

text \<open>The state in which \<open>enter_decoder_recovery\<close> asks for a keyframe.\<close>

definition recovering :: "recovery_reason \<Rightarrow> bool \<Rightarrow> media_session \<Rightarrow> media_session" where
  "recovering reason reset_decoder s =
     (let cleanup = (\<not> dr_phase (ms_recovery s) = AwaitingRefresh \<or> reason = RandomAccessResync);
          s1 = show_awaiting (s \<lparr> ms_recovery := fst (enter reason (ms_recovery s)) \<rparr>);
          s2 = (if dr_phase (ms_recovery s) = Healthy then count_ingress (count_reason reason) s1 else s1);
          s3 = (if cleanup then discard_dependent_media s2 else s2)
      in if reset_decoder \<and> (cleanup \<or> reason = DecoderFailed) then reset_decoder_worker s3 else s3)"

lemma cleanup_iff:
  "requires_media_cleanup (snd (enter reason r)) \<longleftrightarrow> dr_phase r \<noteq> AwaitingRefresh"
  by (cases "dr_phase r") (simp_all add: requires_media_cleanup_def enter_def)

lemma newly_iff: "rt_newly_awaiting (snd (enter reason r)) \<longleftrightarrow> dr_phase r = Healthy"
  by (simp add: enter_def)

lemma enter_recovery_eq:
  "enter_decoder_recovery env reason reset_decoder s =
     maybe_request_recovery_keyframe env (recovering reason reset_decoder s)"
  by (cases "dr_phase (ms_recovery s) = AwaitingRefresh"; cases "reason = RandomAccessResync")
    (simp_all add: enter_decoder_recovery_def recovering_def Let_def case_prod_beta cleanup_iff newly_iff)

lemma show_awaiting_fields [simp]:
  "ms_reassembly (show_awaiting s) = ms_reassembly s" "ms_jitter (show_awaiting s) = ms_jitter s"
  "ms_queue (show_awaiting s) = ms_queue s" "ms_recovery (show_awaiting s) = ms_recovery s"
  "ms_config (show_awaiting s) = ms_config s" "ms_budget (show_awaiting s) = ms_budget s"
  "ms_config_revision (show_awaiting s) = ms_config_revision s"
  "ms_waiting_epoch (show_awaiting s) = ms_waiting_epoch s" "ms_pending_idr (show_awaiting s) = ms_pending_idr s"
  "ms_permit_unpaired (show_awaiting s) = ms_permit_unpaired s"
  "ms_sender (show_awaiting s) = ms_sender s"
  "ms_control_generation (show_awaiting s) = ms_control_generation s"
  "ms_published (show_awaiting s) = ms_published s" "ms_timing_origin (show_awaiting s) = ms_timing_origin s"
  "ms_interarrival (show_awaiting s) = ms_interarrival s"
  by (simp_all add: show_awaiting_def)

lemma recovering_fields [simp]:
  "ms_config (recovering reason rst s) = ms_config s" "ms_budget (recovering reason rst s) = ms_budget s"
  "ms_config_revision (recovering reason rst s) = ms_config_revision s"
  "ms_waiting_epoch (recovering reason rst s) = ms_waiting_epoch s"
  "ms_pending_idr (recovering reason rst s) = ms_pending_idr s"
  "ms_permit_unpaired (recovering reason rst s) = ms_permit_unpaired s"
  "ms_sender (recovering reason rst s) = ms_sender s"
  "ms_control_generation (recovering reason rst s) = ms_control_generation s"
  "ms_published (recovering reason rst s) = ms_published s"
  "ms_timing_origin (recovering reason rst s) = ms_timing_origin s"
  "ms_interarrival (recovering reason rst s) = ms_interarrival s"
  "dr_phase (ms_recovery (recovering reason rst s)) = AwaitingRefresh"
  by (simp_all add: recovering_def Let_def discard_dependent_media_def reset_decoder_worker_def enter_def)

lemma recovering_media:
  "ms_jitter (recovering reason rst s) = ms_jitter s \<or> ms_jitter (recovering reason rst s) = discard_queued (ms_jitter s)"
  "ms_queue (recovering reason rst s) = ms_queue s \<or> ms_queue (recovering reason rst s) = queue_reset (ms_queue s)"
  by (simp_all add: recovering_def Let_def discard_dependent_media_def reset_decoder_worker_def)

lemma enter_recovery_same: "same_media (recovering reason rst s) (fst (enter_decoder_recovery env reason rst s))"
  by (simp add: enter_recovery_eq maybe_request_same)

section \<open>The playout loop\<close>

lemma discard_queued_fields [simp]:
  "jb_frames (discard_queued j) = []" "jb_fixed_target_us (discard_queued j) = jb_fixed_target_us j"
  by (simp_all add: discard_queued_def)

lemma recovering_frames: "length (jb_frames (ms_jitter (recovering reason rst s))) \<le> length (jb_frames (ms_jitter s))"
  using recovering_media(1) [of reason rst s] by auto

lemma enter_recovery_frames:
  "length (jb_frames (ms_jitter (fst (enter_decoder_recovery env reason rst s)))) \<le> length (jb_frames (ms_jitter s))"
  using enter_recovery_same [of reason rst s env] recovering_frames [of reason rst s] by (simp add: same_media_def)

text \<open>What submitting an access unit can do: nothing, queue a job, or run into a full queue.\<close>

definition job_for :: "encoded_access_unit \<Rightarrow> media_session \<Rightarrow> stream_config decode_job" where
  "job_for au s = \<lparr> dj_config_revision = ms_config_revision s, dj_access_unit = au, dj_stream_config = ms_config s,
     dj_decoder_generation = 0 \<rparr>"

definition decodable :: "encoded_access_unit \<Rightarrow> media_session \<Rightarrow> bool" where
  "decodable au s \<longleftrightarrow> (\<forall>budget. ms_budget s = Some budget \<longrightarrow> length (eau_data au) \<le> budget) \<and>
     (\<forall>config. ms_config s = Some config \<longrightarrow> sc_stream_epoch config = eau_stream_generation au)"

lemma publish_cases:
  assumes "publish_timeline_access_unit env au s = (s', r)"
  obtains (dropped) "same_media s s'"
    | (queued) q s1 where "decodable au s" "submit (job_for au s) (ms_queue s) = (q, Queued)" "same_media s s1"
        "s' = s1 \<lparr> ms_queue := q, ms_recovery := note_refresh_submitted (timeline au) (ms_recovery s) \<rparr>" "r = Ok ()"
    | (overrun) q s1 where "decodable au s" "submit (job_for au s) (ms_queue s) = (q, Dropped True)"
        "same_media (s \<lparr> ms_queue := q \<rparr>) s1" "(s', r) = enter_decoder_recovery env DecoderQueuePressure True s1"
proof -
  let ?s1 = "count_ingress (\<lambda>i. i \<lparr> is_access_units := is_access_units i + 1 \<rparr>) s"
  let ?drop = "count_ingress (\<lambda>i. i \<lparr> is_recovery_dropped := sat_add64 (is_recovery_dropped i) 1 \<rparr>)"
  obtain q out where sub: "submit (job_for au s) (ms_queue s) = (q, out)" by fastforce
  show thesis
  proof (cases "decodable au s")
    case False
    then have "same_media s s'"
      using assms unfolding publish_timeline_access_unit_def Let_def decodable_def
      by (auto simp: same_media_def split: option.splits if_splits)
    then show thesis by (rule dropped)
  next
    case True
    then have "\<not> (case ms_budget s of None \<Rightarrow> False | Some budget \<Rightarrow> length (eau_data au) > budget)"
      "\<not> (case ms_config s of None \<Rightarrow> False | Some config \<Rightarrow> sc_stream_epoch config \<noteq> eau_stream_generation au)"
      by (auto simp: decodable_def split: option.splits)
    then have eq: "(s', r) = (case out of
          Queued \<Rightarrow> (?s1 \<lparr> ms_queue := q, ms_recovery := note_refresh_submitted (timeline au) (ms_recovery s) \<rparr>, Ok ())
        | Dropped requires_refresh \<Rightarrow>
            if requires_refresh then enter_decoder_recovery env DecoderQueuePressure True (?drop (?s1 \<lparr> ms_queue := q \<rparr>))
            else (?drop (?s1 \<lparr> ms_queue := q \<rparr>), Ok ()))"
      using assms sub by (cases out) (auto simp: publish_timeline_access_unit_def Let_def job_for_def)
    show thesis
    proof (cases out)
      case Queued
      then show thesis using queued [OF True, of q ?s1] sub eq by (simp add: same_media_def)
    next
      case (Dropped refresh)
      show thesis
      proof (cases refresh)
        case True': True
        then show thesis
          using overrun [OF True, of q "?drop (?s1 \<lparr> ms_queue := q \<rparr>)"] sub eq Dropped by (simp add: same_media_def)
      next
        case False
        then have "q = ms_queue s" using sub Dropped by (auto simp: submit_def Let_def split: if_splits option.splits)
        then show thesis using dropped eq Dropped False by (simp add: same_media_def)
      qed
    qed
  qed
qed

lemma publish_frames:
  "length (jb_frames (ms_jitter (fst (publish_timeline_access_unit env au s)))) \<le> length (jb_frames (ms_jitter s))"
proof -
  obtain s' r where p: "publish_timeline_access_unit env au s = (s', r)" by fastforce
  from p show ?thesis
  proof (cases rule: publish_cases)
    case (overrun q s1)
    then have "fst (enter_decoder_recovery env DecoderQueuePressure True s1) = s'" by (metis fst_conv)
    then show ?thesis
      using enter_recovery_frames [of env DecoderQueuePressure True s1] overrun(3) p by (simp add: same_media_def)
  qed (use p in \<open>auto simp: same_media_def\<close>)
qed

text \<open>An expired front frame is really dropped: the deadline that the scheduler saw is the one that counts.\<close>

lemma drop_expired_shrinks:
  assumes "next_expiration_delay_us now age j = Some 0" "now < u64_max"
  shows "length (jb_frames (fst (drop_expired now age j))) < length (jb_frames j)"
proof -
  let ?age = "max age (target_us j)"
  obtain deadline where f: "jb_fixed_target_us j = None" and d: "deadline \<le> now"
      "min_opt (map (\<lambda>b. sat_add64 (sat_add64 (bf_completed_at_us b) ?age) 1) (jb_frames j)) = Some deadline"
    using assms(1) by (auto simp: next_expiration_delay_us_def Let_def split: if_splits)
  then obtain b where b: "b \<in> set (jb_frames j)" "deadline = sat_add64 (sat_add64 (bf_completed_at_us b) ?age) 1"
    using min_opt_Some [OF d(2)] by auto
  then have "expired now ?age b" using d(1) assms(2) by (auto simp: expired_def sat_add_def)
  then have "length (filter (\<lambda>b. \<not> expired now ?age b) (jb_frames j)) < length (jb_frames j)"
    using b(1) by (intro length_filter_less [of b]) simp_all
  then show ?thesis using f by (simp add: drop_expired_def Let_def)
qed

lemma pop_ready_shrinks: "pop_ready now j = (j', Some frame) \<Longrightarrow> length (jb_frames j') < length (jb_frames j)"
  by (auto simp: pop_ready_def split: list.splits if_splits)

lemma discards_expired_only:
  "media_schedule_decision env now age s = DiscardExpired \<Longrightarrow> next_expiration_delay_us now age (ms_jitter s) = Some 0"
  by (auto simp: media_schedule_decision_def schedule_defs Let_def split: option.splits if_splits
      recovery_admission.splits decoder_admission.splits)

lemma drain_step_shrinks:
  assumes "drain_step env now age s = (s1, Ok True)" "now < u64_max"
  shows "length (jb_frames (ms_jitter s1)) < length (jb_frames (ms_jitter s))"
proof (cases "media_schedule_decision env now age s")
  case DecodeReadyFrame
  then obtain j frame u where p: "pop_ready now (ms_jitter s) = (j, Some frame)"
      "snd (publish_timeline_access_unit env (encoded_of env now frame s) (s \<lparr> ms_jitter := j \<rparr>)) = Ok u"
      "s1 = fst (publish_timeline_access_unit env (encoded_of env now frame s) (s \<lparr> ms_jitter := j \<rparr>))"
    using assms(1) by (auto simp: drain_step_def and_then_Ok split: prod.splits option.splits)
  then show ?thesis
    using publish_frames [of env "encoded_of env now frame s" "s \<lparr> ms_jitter := j \<rparr>"] pop_ready_shrinks [OF p(1)] by simp
next
  case DiscardExpired
  then show ?thesis
    using assms drop_expired_shrinks [OF discards_expired_only [OF DiscardExpired] assms(2)]
    by (auto simp: drain_step_def Let_def case_prod_beta and_then_Ok split: if_splits)
qed (use assms in \<open>auto simp: drain_step_def dest: pop_ready_shrinks split: prod.splits option.splits\<close>)

lemma drain_loop_returns:
  assumes "now < u64_max"
  shows "\<exists>out. drain_loop env now age s = Some out"
proof (induction s rule: measure_induct_rule [where f = "\<lambda>s. length (jb_frames (ms_jitter s))"])
  case (less s)
  obtain s1 r where step: "drain_step env now age s = (s1, r)" by fastforce
  show ?case
  proof (cases "r = Ok True")
    case True
    then show ?thesis
      using less [of s1] drain_step_shrinks [of env now age s s1] step assms by (simp add: drain_loop.simps [of env now age s])
  next
    case False
    then show ?thesis using step by (cases r) (simp_all add: drain_loop.simps [of env now age s])
  qed
qed

section \<open>While recovering\<close>

text \<open>What the playout loop may add to the decoder's queue.\<close>

definition may_queue :: "media_session \<Rightarrow> stream_config work_item \<Rightarrow> bool" where
  "may_queue s item \<longleftrightarrow> item = Reset \<or>
     (\<exists>job. item = Decode job \<and> dj_stream_config job = ms_config s \<and> decodable (dj_access_unit job) s \<and>
        (job_kind job = Key \<or> dr_phase (ms_recovery s) = Healthy))"

definition drains_to :: "media_session \<Rightarrow> media_session \<Rightarrow> bool" where
  "drains_to s s' \<longleftrightarrow> ms_config s' = ms_config s \<and> ms_budget s' = ms_budget s \<and>
     (dr_phase (ms_recovery s') = Healthy \<longrightarrow> dr_phase (ms_recovery s) = Healthy) \<and>
     set (qs_items (ms_queue s')) \<subseteq> set (qs_items (ms_queue s)) \<union> Collect (may_queue s)"

lemma drains_to_trans: "drains_to s s1 \<Longrightarrow> drains_to s1 s2 \<Longrightarrow> drains_to s s2"
  by (fastforce simp: drains_to_def may_queue_def decodable_def)

lemma same_media_drains: "same_media s s' \<Longrightarrow> drains_to s s'"
  by (auto simp: same_media_def drains_to_def)

lemma queue_reset_items: "set (qs_items (queue_reset q)) \<subseteq> insert Reset (set (qs_items q))"
  by (auto simp: queue_reset_def)

lemma enter_drains: "drains_to s (fst (enter_decoder_recovery env reason rst s))"
proof -
  have "set (qs_items (ms_queue (recovering reason rst s))) \<subseteq> insert Reset (set (qs_items (ms_queue s)))"
    using recovering_media(2) [of reason rst s] queue_reset_items [of "ms_queue s"] by auto
  then have "drains_to s (recovering reason rst s)" by (auto simp: drains_to_def may_queue_def)
  then show ?thesis by (rule drains_to_trans) (rule same_media_drains [OF enter_recovery_same])
qed

lemma remove_first_subset: "remove_first P xs = Some ys \<Longrightarrow> set ys \<subseteq> set xs"
  by (induction xs arbitrary: ys) (auto split: if_splits)

lemma submit_items:
  assumes "submit job q = (q', out)"
  shows "set (qs_items q') \<subseteq>
    set (qs_items q) \<union> (if out = Queued then {Decode (job \<lparr> dj_decoder_generation := qs_decoder_generation q \<rparr>)} else {})"
  using assms remove_first_subset [of is_discardable "qs_items q"]
  by (auto simp: submit_def enqueue_def split: if_splits option.splits)

lemma note_submitted_phase: "dr_phase (note_refresh_submitted t r) = Healthy \<longleftrightarrow> dr_phase r = Healthy"
  by (simp add: note_refresh_submitted_def)

lemma publish_drains:
  assumes "eau_kind au = Key \<or> dr_phase (ms_recovery s) = Healthy"
  shows "drains_to s (fst (publish_timeline_access_unit env au s))"
proof -
  obtain s' r where p: "publish_timeline_access_unit env au s = (s', r)" by fastforce
  from p show ?thesis
  proof (cases rule: publish_cases)
    case dropped
    then show ?thesis using p same_media_drains by simp
  next
    case (queued q s1)
    have "may_queue s (Decode (job_for au s \<lparr> dj_decoder_generation := qs_decoder_generation (ms_queue s) \<rparr>))"
      using assms queued(1) by (simp add: may_queue_def job_for_def)
    then show ?thesis
      using queued p submit_items [OF queued(2)]
      by (auto simp: drains_to_def same_media_def note_submitted_phase)
  next
    case (overrun q s1)
    have "drains_to s s1"
      using overrun(3) submit_items [OF overrun(2)] by (auto simp: drains_to_def same_media_def)
    moreover have "s' = fst (enter_decoder_recovery env DecoderQueuePressure True s1)" using overrun(4) by (metis fst_conv)
    ultimately show ?thesis using p enter_drains drains_to_trans by fastforce
  qed
qed

text \<open>A frame that is due has been admitted by the recovery.\<close>

lemma ready_frame_admitted:
  assumes "media_schedule_decision env now age s = DecodeReadyFrame" "pop_ready now (ms_jitter s) = (j, Some frame)"
  shows "jf_keyframe frame \<or> dr_phase (ms_recovery s) = Healthy"
proof -
  obtain b rest where f: "jb_frames (ms_jitter s) = b # rest" "frame = bf_frame b"
    using assms(2) by (auto simp: pop_ready_def split: list.splits if_splits)
  have "recovery_admits (media_connection_generation env s)
      \<lparr> ff_stream_generation = jf_stream_generation frame, ff_frame_id = jf_frame_id frame,
        ff_keyframe = jf_keyframe frame, ff_discardable = jf_discardable frame \<rparr> (ms_recovery s) = RecoveryReady"
    using decodes_admitted [OF assms(1) [unfolded media_schedule_decision_def Let_def]] f
    by (simp add: front_frame_descriptor_def)
  then show ?thesis by (auto simp: recovery_admits_def split: recovery_phase.splits if_splits)
qed

lemma drain_step_drains:
  assumes "drain_step env now age s = (s1, r)"
  shows "drains_to s s1"
proof (cases "media_schedule_decision env now age s")
  case DecodeReadyFrame
  obtain j popped where p: "pop_ready now (ms_jitter s) = (j, popped)" by fastforce
  have j: "drains_to s (s \<lparr> ms_jitter := j \<rparr>)" by (simp add: drains_to_def)
  show ?thesis
  proof (cases popped)
    case None
    then show ?thesis using assms DecodeReadyFrame p j by (simp add: drain_step_def)
  next
    case (Some frame)
    let ?au = "encoded_of env now frame s"
    have "eau_kind ?au = Key \<or> dr_phase (ms_recovery s) = Healthy"
      using ready_frame_admitted [OF DecodeReadyFrame p [unfolded Some]] by (auto simp: encoded_of_def frame_kind_of_def)
    then have "drains_to s (fst (publish_timeline_access_unit env ?au (s \<lparr> ms_jitter := j \<rparr>)))"
      using drains_to_trans [OF j] publish_drains [of ?au "s \<lparr> ms_jitter := j \<rparr>" env] by simp
    moreover have "s1 = fst (publish_timeline_access_unit env ?au (s \<lparr> ms_jitter := j \<rparr>))"
      using assms DecodeReadyFrame p Some by (auto simp: drain_step_def and_then_def split: result.splits)
    ultimately show ?thesis by simp
  qed
next
  case DiscardExpired
  let ?s1 = "s \<lparr> ms_jitter := fst (drop_expired now age (ms_jitter s)) \<rparr>"
  let ?s2 = "count_ingress (\<lambda>i. i \<lparr> is_recovery_jitter_expired := sat_add64 (is_recovery_jitter_expired i) 1 \<rparr>) ?s1"
  have "s1 = ?s1 \<or> s1 = fst (enter_decoder_recovery env ReferenceAccessUnitLate True ?s2)"
    using assms DiscardExpired
    by (auto simp: drain_step_def Let_def case_prod_beta and_then_def split: if_splits result.splits)
  moreover have "drains_to s ?s1" "drains_to s ?s2" by (simp_all add: drains_to_def)
  ultimately show ?thesis using drains_to_trans enter_drains by blast
qed (use assms in \<open>auto simp: drain_step_def drains_to_def split: prod.splits option.splits\<close>)

lemma drain_loop_drains:
  assumes "drain_loop env now age s = Some out"
  shows "drains_to s (fst out)"
proof (rule drain_loop.raw_induct [where P = "\<lambda>env now age s out. drains_to s (fst out)", OF _ assms])
  fix loop :: "media_env \<Rightarrow> nat \<Rightarrow> nat \<Rightarrow> media_session \<Rightarrow> unit outcome option"
  fix env now age s out
  assume ih: "\<And>env now age s out. loop env now age s = Some out \<Longrightarrow> drains_to s (fst out)"
  assume step: "(case drain_step env now age s of
      (s1, Ok continue) \<Rightarrow> if continue then loop env now age s1 else Some (s1, Ok ())
    | (s1, Err e) \<Rightarrow> Some (s1, Err e) | (s1, Panic) \<Rightarrow> Some (s1, Panic)) = Some out"
  obtain s1 r1 where s1: "drain_step env now age s = (s1, r1)" by fastforce
  note d = drain_step_drains [OF s1]
  show "drains_to s (fst out)"
  proof (cases "r1 = Ok True")
    case True
    then show ?thesis using ih [of env now age s1 out] step s1 drains_to_trans [OF d] by simp
  next
    case False
    then show ?thesis using step s1 d by (cases r1) auto
  qed
qed

section \<open>Random access\<close>

lemma remember_terminal_oldest [simp]: "oldest_unresolved_frame_id (remember_terminal key m) = oldest_unresolved_frame_id m"
  by (simp add: oldest_unresolved_frame_id_def)





section \<open>Publication\<close>

text \<open>Publishing changes nothing that the publication gate looks at.\<close>

lemma timeline_current_cong:
  assumes "ms_control_generation s' = ms_control_generation s" "ms_permit_unpaired s' = ms_permit_unpaired s"
    "ms_config s' = ms_config s"
  shows "decoder_timeline_is_current env t s' = decoder_timeline_is_current env t s"
  using assms by (simp add: decoder_timeline_is_current_def media_connection_generation_def cong: option.case_cong)

lemma gate_cong:
  assumes "ms_control_generation s' = ms_control_generation s" "ms_permit_unpaired s' = ms_permit_unpaired s"
    "ms_config s' = ms_config s" "ms_queue s' = ms_queue s" "ms_recovery s' = ms_recovery s"
  shows "publication_gate env token s' = publication_gate env token s"
  using timeline_current_cong [OF assms(1-3)] assms(4,5) by (simp add: publication_gate_def)

lemma gate_stable:
  "publication_gate env token (note_decode_skip s) = publication_gate env token s"
  "publication_gate env token (fst (publish_output output s)) = publication_gate env token s"
  by (rule gate_cong; simp add: note_decode_skip_def publish_output_def)+

lemma note_skip_fields [simp]:
  "ms_published (note_decode_skip s) = ms_published s" "ms_recovery (note_decode_skip s) = ms_recovery s"
  by (simp_all add: note_decode_skip_def)

lemma publish_output_fields:
  "ms_published (fst (publish_output output s)) = ms_published s @ (if out_publishable output then [picture_of output] else [])"
  "ms_recovery (fst (publish_output output s)) = ms_recovery s"
  by (simp_all add: publish_output_def)

lemma publish_outputs_new:
  "\<exists>new. ms_published (fst (publish_outputs env outputs s)) = ms_published s @ map picture_of new \<and>
     subseq new outputs \<and> (\<forall>p \<in> set new. publication_gate env (out_token p) s) \<and>
     ms_recovery (fst (publish_outputs env outputs s)) = ms_recovery s"
proof (induction outputs arbitrary: s)
  case (Cons p ps)
  show ?case
  proof (cases "publication_gate env (out_token p) s")
    case False
    obtain new where "ms_published (fst (publish_outputs env ps (note_decode_skip s))) = ms_published s @ map picture_of new"
        "subseq new ps" "\<forall>p \<in> set new. publication_gate env (out_token p) s"
        "ms_recovery (fst (publish_outputs env ps (note_decode_skip s))) = ms_recovery s"
      using Cons.IH [of "note_decode_skip s"] by (auto simp: gate_stable)
    with False show ?thesis by (intro exI [of _ new]) (simp add: list_emb_Cons)
  next
    case True
    obtain new where new: "ms_published (fst (publish_outputs env ps (fst (publish_output p s)))) =
          ms_published (fst (publish_output p s)) @ map picture_of new" "subseq new ps"
        "\<forall>p \<in> set new. publication_gate env (out_token p) s"
        "ms_recovery (fst (publish_outputs env ps (fst (publish_output p s)))) = ms_recovery s"
      using Cons.IH [of "fst (publish_output p s)"] by (auto simp: gate_stable publish_output_fields)
    show ?thesis
    proof (cases "out_publishable p")
      case True': True
      then show ?thesis
        using new True
        by (intro exI [of _ "p # new"]) (simp add: and_then_def publish_output_def)
    next
      case False
      then show ?thesis using True by (intro exI [of _ "[]"]) (simp add: and_then_def publish_output_def)
    qed
  qed
qed simp

lemma mark_accepted_fields [simp]:
  "ms_published (mark_decoder_refresh_accepted t s) = ms_published s"
  "ms_queue (mark_decoder_refresh_accepted t s) = ms_queue s"
  "ms_config (mark_decoder_refresh_accepted t s) = ms_config s"
  "ms_control_generation (mark_decoder_refresh_accepted t s) = ms_control_generation s"
  "ms_permit_unpaired (mark_decoder_refresh_accepted t s) = ms_permit_unpaired s"
  "ms_recovery (mark_decoder_refresh_accepted t s) = fst (mark_recovered t (ms_recovery s))"
  by (simp_all add: mark_decoder_refresh_accepted_def Let_def case_prod_beta split: stream_state.split)

lemma outputs_from:
  assumes "publish_outputs env outputs s0 = (s', r)" "ms_published s0 = ms_published s" "ms_queue s0 = ms_queue s"
    "ms_config s0 = ms_config s" "ms_control_generation s0 = ms_control_generation s"
    "ms_permit_unpaired s0 = ms_permit_unpaired s"
  obtains new where "ms_published s' = ms_published s @ map picture_of new" "subseq new outputs"
    "\<forall>p \<in> set new. is_current_generation (dt_decoder_generation (out_token p)) (ms_queue s) \<and>
       decoder_timeline_is_current env (dt_timeline (out_token p)) s \<and> accepts_completion (dt_timeline (out_token p)) (ms_recovery s0)"
    "ms_recovery s' = ms_recovery s0"
proof -
  obtain new where new: "ms_published s' = ms_published s @ map picture_of new" "subseq new outputs"
      "\<forall>p \<in> set new. publication_gate env (out_token p) s0" "ms_recovery s' = ms_recovery s0"
    using publish_outputs_new [of env outputs s0] assms(1,2) by auto
  moreover have "decoder_timeline_is_current env t s0 = decoder_timeline_is_current env t s" for t
    by (rule timeline_current_cong) (simp_all add: assms)
  ultimately show thesis using that assms(3) by (simp add: publication_gate_def)
qed

section \<open>Properties\<close>

text \<open>C28: the playout loop ends. However many frames wait, whatever their deadlines and whatever the recovery and
  the decoder answer, \<open>drain_jitter\<close> returns: every turn that goes on has taken a frame out of the
  playout buffer (the clock being short of \<open>2 ^ 64\<close> microseconds).\<close>

theorem drain_jitter_returns:
  assumes "micros_since_origin (en_now env) s < u64_max"
  shows "\<exists>out. drain_jitter env s = Some out"
  using drain_loop_returns [OF assms] by (simp add: drain_jitter_def split: result.split)

theorem drain_jitter_returns_witness:
  "\<exists>out. drain_jitter \<lparr> en_now = 5000000, en_active_session = None, en_rtt_ms = None, en_send_ok = (\<lambda>_. True) \<rparr>
     (media_session_new 1000) = Some out"
  by (rule drain_jitter_returns) (simp add: micros_since_origin_def u64_max_eval)

text \<open>C29: only what can be decoded is submitted. Every item that the playout loop adds to the decoder's queue is
  a reset, or a job that carries the current stream configuration, belongs to its epoch and keeps to
  the admitted access unit budget; and while the prediction chain is broken, such a job is a keyframe.
  The loop never declares the chain repaired.\<close>

theorem drain_queues_only_decodable:
  assumes "drain_jitter env s = Some (s', r)"
  shows "set (qs_items (ms_queue s')) \<subseteq> set (qs_items (ms_queue s)) \<union> {Reset} \<union>
      {Decode job |job. dj_stream_config job = ms_config s \<and> decodable (dj_access_unit job) s \<and>
         (dr_phase (ms_recovery s) = Healthy \<or> job_kind job = Key)} \<and>
    (dr_phase (ms_recovery s') = Healthy \<longrightarrow> dr_phase (ms_recovery s) = Healthy)"
proof -
  have "drains_to s s'"
    using assms drain_loop_drains [of env "micros_since_origin (en_now env) s" _ s "(s', r)"]
    by (auto simp: drain_jitter_def drains_to_def split: result.splits)
  moreover have "may_queue s item \<Longrightarrow> item = Reset \<or> (\<exists>job. item = Decode job \<and> dj_stream_config job = ms_config s \<and>
      decodable (dj_access_unit job) s \<and> (dr_phase (ms_recovery s) = Healthy \<or> job_kind job = Key))" for item
    by (auto simp: may_queue_def)
  ultimately show ?thesis by (fastforce simp: drains_to_def)
qed


definition sample_sender :: active_sender where
  "sample_sender = \<lparr> snd_id = ''phone'', snd_name = ''Phone'', snd_public_key = [1], snd_video_allowed = True \<rparr>"

definition sample_env :: media_env where
  "sample_env = \<lparr> en_now = 5000000, en_active_session = Some 1, en_rtt_ms = None, en_send_ok = (\<lambda>_. True) \<rparr>"






text \<open>C31: only pictures of the current stream are shown. What a decoder completion publishes are pictures of its
  outcome, in order, each of the decoder's current generation and of the current connection and
  stream; nothing is published for a completion that is itself stale or that a recovery is not waiting
  for, and during a recovery a keyframe's completion shows something only if the decoder accepted it
  as a refresh, which ends the recovery.\<close>

theorem published_pictures_current:
  assumes "handle_completion env t g us (Ok outcome) s = (s', r)"
  shows "\<exists>new. ms_published s' = ms_published s @ map picture_of new \<and> subseq new (oc_frames outcome) \<and>
    (\<forall>p \<in> set new. is_current_generation (dt_decoder_generation (out_token p)) (ms_queue s) \<and>
       decoder_timeline_is_current env (dt_timeline (out_token p)) s) \<and>
    (new \<noteq> [] \<longrightarrow> is_current_generation g (ms_queue s) \<and> decoder_timeline_is_current env t s \<and>
       accepts_completion t (ms_recovery s)) \<and>
    (new \<noteq> [] \<and> dr_phase (ms_recovery s) \<noteq> Healthy \<and> kind_is_keyframe (tl_kind t) \<longrightarrow>
       oc_refresh_accepted outcome \<and> dr_phase (ms_recovery s') = Healthy)"
proof -
  define s1 where "s1 = s \<lparr> ms_completions := sat_add64 (ms_completions s) 1,
                 ms_jitter := observe_decode_time_us us (ms_jitter s) \<rparr>"
  have cur: "decoder_timeline_is_current env t' s1 = decoder_timeline_is_current env t' s" for t'
    by (rule timeline_current_cong) (simp_all add: s1_def)
  have s1: "ms_queue s1 = ms_queue s" "ms_recovery s1 = ms_recovery s" "ms_published s1 = ms_published s"
    "ms_config s1 = ms_config s" "ms_control_generation s1 = ms_control_generation s"
    "ms_permit_unpaired s1 = ms_permit_unpaired s"
    by (simp_all add: s1_def)
  have run: "(if \<not> is_current_generation g (ms_queue s1) \<or> \<not> decoder_timeline_is_current env t s1
      then (note_decode_skip s1, Ok ())
      else if \<not> accepts_completion t (ms_recovery s1) then (note_decode_skip s1, Ok ())
      else handle_decoder_result env t (Ok outcome) s1) = (s', r)"
    using assms by (simp only: handle_completion_def Let_def s1_def)
  have quiet: ?thesis if "ms_published s' = ms_published s" using that by (intro exI [of _ "[]"]) simp
  show ?thesis
  proof (cases "is_current_generation g (ms_queue s) \<and> decoder_timeline_is_current env t s \<and> accepts_completion t (ms_recovery s)")
    case False
    then show ?thesis
      using run by (intro quiet) (auto simp: cur s1 split: if_splits)
  next
    case True
    then have h: "handle_decoder_result env t (Ok outcome) s1 = (s', r)"
      using run by (simp add: cur s1)
    show ?thesis
    proof (cases "kind_is_keyframe (tl_kind t) \<and> oc_refresh_accepted outcome")
      case refresh: True
      with h have "publish_outputs env (oc_frames outcome) (mark_decoder_refresh_accepted t s1) = (s', r)"
        by (simp add: handle_decoder_result_def s1)
      then obtain new where new: "ms_published s' = ms_published s @ map picture_of new" "subseq new (oc_frames outcome)"
          "\<forall>p \<in> set new. is_current_generation (dt_decoder_generation (out_token p)) (ms_queue s) \<and>
             decoder_timeline_is_current env (dt_timeline (out_token p)) s"
          "ms_recovery s' = fst (mark_recovered t (ms_recovery s))"
        by (rule outputs_from [where s = s]) (auto simp: s1)
      have "dr_phase (ms_recovery s') = Healthy"
        using True new(4)
        by (auto simp: accepts_completion_def mark_recovered_def is_refresh_candidate_def split: recovery_phase.splits)
      then show ?thesis using new True refresh by blast
    next
      case plain: False
      show ?thesis
      proof (cases "kind_is_keyframe (tl_kind t) \<and> is_refresh_candidate t (ms_recovery s)")
        case True
        then have "s' = fst (enter_decoder_recovery env DecoderFailed True s1)"
          using h plain by (auto simp: handle_decoder_result_def s1)
        then show ?thesis
          using enter_recovery_same [of DecoderFailed True s1 env] by (intro quiet) (simp add: same_media_def s1)
      next
        case no_candidate: False
        with h plain have "publish_outputs env (oc_frames outcome) s1 = (s', r)"
          by (auto simp: handle_decoder_result_def s1)
        then obtain new where new: "ms_published s' = ms_published s @ map picture_of new" "subseq new (oc_frames outcome)"
            "\<forall>p \<in> set new. is_current_generation (dt_decoder_generation (out_token p)) (ms_queue s) \<and>
               decoder_timeline_is_current env (dt_timeline (out_token p)) s"
          by (rule outputs_from [where s = s]) (auto simp: s1)
        have "\<not> (dr_phase (ms_recovery s) \<noteq> Healthy \<and> kind_is_keyframe (tl_kind t))"
          using True no_candidate
          by (auto simp: accepts_completion_def is_refresh_candidate_def split: recovery_phase.splits)
        then show ?thesis using new True by blast
      qed
    qed
  qed
qed

definition sample_config :: stream_config where
  "sample_config = \<lparr> sc_codec = 1, sc_profile = 1, sc_level_idc = 31, sc_width = 1280, sc_height = 720, sc_fps = 30,
     sc_bitrate = 0, sc_rotation = 90, sc_mirrored = False, sc_color_range = 1, sc_codec_configuration = [],
     sc_stream_epoch = 2 \<rparr>"

definition sample_output :: "nat \<Rightarrow> decoded_output" where
  "sample_output f = \<lparr> out_token = \<lparr> dt_timeline = sample_timeline f, dt_decoder_generation = 0, dt_config_revision = 1,
     dt_stream_config = Some sample_config \<rparr>, out_rotation = 0, out_publishable = True \<rparr>"

text \<open>A session that waits for the decoder to confirm keyframe 7.\<close>

definition waiting_session :: media_session where
  "waiting_session = (media_session_new 1000) \<lparr> ms_control_generation := Some 1, ms_sender := Some sample_sender,
     ms_config := Some sample_config,
     ms_recovery := recovery_new \<lparr> dr_phase := RefreshInFlight (candidate_of (sample_timeline 7)) \<rparr> \<rparr>"

theorem published_pictures_current_witness:
  "\<exists>s' new. handle_completion sample_env (sample_timeline 7) 0 4000
       (Ok \<lparr> oc_refresh_accepted = True, oc_frames = [sample_output 7] \<rparr>) waiting_session = (s', Ok ()) \<and>
     ms_published s' = map picture_of new \<and> new \<noteq> [] \<and> subseq new [sample_output 7] \<and>
     dr_phase (ms_recovery s') = Healthy"
proof -
  let ?o = "\<lparr> oc_refresh_accepted = True, oc_frames = [sample_output 7] \<rparr>"
  obtain s' where run: "handle_completion sample_env (sample_timeline 7) 0 4000 (Ok ?o) waiting_session = (s', Ok ())"
      "length (ms_published s') = 1"
    by (simp add: handle_completion_def handle_decoder_result_def Let_def waiting_session_def media_session_new_def
        queue_new_def is_current_generation_def decoder_timeline_is_current_def sample_timeline_def sample_config_def
        sample_output_def accepts_completion_def candidate_matches_def candidate_of_def kind_is_keyframe_def
        publication_gate_def mark_decoder_refresh_accepted_def mark_recovered_def is_refresh_candidate_def recovery_new_def
        and_then_def publish_output_def runtime_default_def)
  have pub: "ms_published waiting_session = []" "dr_phase (ms_recovery waiting_session) \<noteq> Healthy"
    by (simp_all add: waiting_session_def media_session_new_def)
  obtain new where new: "ms_published s' = map picture_of new" "subseq new [sample_output 7]"
      "new \<noteq> [] \<and> dr_phase (ms_recovery waiting_session) \<noteq> Healthy \<and> kind_is_keyframe (tl_kind (sample_timeline 7)) \<longrightarrow>
         dr_phase (ms_recovery s') = Healthy"
    using published_pictures_current [OF run(1)] pub(1) by auto
  moreover from this(1) run(2) have "new \<noteq> []" by auto
  ultimately show ?thesis using run pub(2) by (auto simp: kind_is_keyframe_def sample_timeline_def)
qed

lemma drain_jitter_total: "micros_since_origin (en_now env) s < u64_max \<Longrightarrow> \<exists>s' r. drain_jitter env s = Some (s', r)"
  using drain_loop_returns [of "micros_since_origin (en_now env) s" env _ s]
  by (auto simp: drain_jitter_def split: result.split)

definition buffered_delta :: buffered_frame where
  "buffered_delta = \<lparr> bf_frame = \<lparr> jf_stream_generation = 2, jf_frame_id = 8, jf_pts_us = 0, jf_encoded_at_us = 0,
     jf_received_at_us = 0, jf_data = [1], jf_keyframe = False, jf_discardable = False \<rparr>,
     bf_first_fragment_at_us = 0, bf_completed_at_us = 0 \<rparr>"

theorem drain_queues_only_decodable_witness:
  "\<exists>s' r. drain_jitter sample_env (waiting_session \<lparr> ms_jitter := jitter_new \<lparr> jb_frames := [buffered_delta] \<rparr> \<rparr>) = Some (s', r) \<and>
     set (qs_items (ms_queue s')) \<subseteq> {Reset} \<union> {Decode job |job. job_kind job = Key} \<and>
     dr_phase (ms_recovery s') \<noteq> Healthy"
proof -
  let ?s = "waiting_session \<lparr> ms_jitter := jitter_new \<lparr> jb_frames := [buffered_delta] \<rparr> \<rparr>"
  have "micros_since_origin (en_now sample_env) ?s < u64_max"
    by (simp add: micros_since_origin_def sample_env_def waiting_session_def media_session_new_def u64_max_eval)
  then obtain s' r where run: "drain_jitter sample_env ?s = Some (s', r)" using drain_jitter_total by blast
  have "qs_items (ms_queue ?s) = []" "dr_phase (ms_recovery ?s) \<noteq> Healthy"
    by (simp_all add: waiting_session_def media_session_new_def queue_new_def)
  then show ?thesis using drain_queues_only_decodable [OF run] run by auto
qed

text \<open>Video that may not enter: from a sender that is not authenticated, or of an epoch without configuration.\<close>

lemma expire_same:
  assumes "expire_reassembly_deadline env s = (s', r)"
  shows "ms_sender s' = ms_sender s \<and> ms_permit_unpaired s' = ms_permit_unpaired s \<and>
    ms_config s' = ms_config s \<and> set (jb_frames (ms_jitter s')) \<subseteq> set (jb_frames (ms_jitter s))"
proof -
  have same: ?thesis if "s' = fst (enter_decoder_recovery env reason rst s1)"
    "ms_sender s1 = ms_sender s" "ms_permit_unpaired s1 = ms_permit_unpaired s"
    "ms_config s1 = ms_config s" "ms_jitter s1 = ms_jitter s" for s1 reason rst
    using enter_recovery_same [of reason rst s1 env] recovering_media(1) [of reason rst s1] that
    by (auto simp: same_media_def)
  show ?thesis
  proof (cases "media_deadline env s")
    case (Ok deadline)
    let ?s1 = "snd (take_loss (count_drops (ms_reassembly s)
      (s \<lparr> ms_reassembly := expire_incomplete_older_than (en_now env) deadline (ms_reassembly s) \<rparr>)))"
    have fields: "ms_sender ?s1 = ms_sender s" "ms_permit_unpaired ?s1 = ms_permit_unpaired s"
      "ms_config ?s1 = ms_config s" "ms_jitter ?s1 = ms_jitter s"
      by (simp_all add: take_loss_def count_drops_def Let_def case_prod_beta)
    from assms Ok have "s' = fst (enter_decoder_recovery env ReferenceAccessUnitLost True ?s1) \<or> s' = ?s1"
      by (auto simp: expire_reassembly_deadline_def Let_def case_prod_beta split: if_splits)
    then show ?thesis using same fields by fastforce
  qed (use assms in \<open>auto simp: expire_reassembly_deadline_def\<close>)
qed

lemma deferred_ingest:
  assumes "ingest_routed env rs p t True s = (s', r)"
  shows "ms_jitter s' = ms_jitter s"
proof -
  obtain m result where ing: "ingest_at rs p t (ms_reassembly s) = (m, result)" by fastforce
  have fields: "ms_jitter (count_ingested m1 s1) = ms_jitter s1" "ms_jitter (snd (take_loss s1)) = ms_jitter s1" for m1 s1
    by (simp_all add: count_ingested_def count_drops_def take_loss_def Let_def case_prod_beta)
  have "ms_jitter (fst (accept_assembled env True au s1)) = ms_jitter s1" for au s1
    by (simp add: accept_assembled_def)
  then show ?thesis
    using assms ing
    by (cases result) (auto simp: ingest_routed_def Let_def case_prod_beta fields and_then_def split: option.splits result.splits)
qed

definition foreign :: "media_session \<Rightarrow> nat \<Rightarrow> bool" where
  "foreign s epoch \<longleftrightarrow> \<not> ms_permit_unpaired s \<and>
     (\<not> sender_allowed s \<or> (\<forall>config. ms_config s = Some config \<longrightarrow> sc_stream_epoch config \<noteq> epoch))"

lemma route_foreign:
  assumes "foreign s epoch" "sender_allowed s" "route_epoch epoch s = Some (s1, deferred)"
  shows "deferred \<and> ms_jitter s1 = ms_jitter s"
  using assms by (auto simp: route_epoch_def foreign_def await_config_def Let_def split: option.splits if_splits)

text \<open>C32: foreign video is not played. A packet of a sender that is not authenticated, or of an epoch whose stream
  configuration has not arrived or is over, puts no frame into the playout buffer (loopback
  diagnostics, which admit unpaired video, apart).\<close>

theorem foreign_video_not_played:
  assumes "ingest_video_packet env rs p t s = (s', r)" "foreign s (unat (vp_stream_epoch p))"
  shows "set (jb_frames (ms_jitter s')) \<subseteq> set (jb_frames (ms_jitter s))"
proof -
  obtain s1 r1 where e: "expire_reassembly_deadline env s = (s1, r1)" by fastforce
  note e1 = expire_same [OF e]
  let ?s2 = "count_ingress (\<lambda>i. i \<lparr> is_packets_received := is_packets_received i + 1 \<rparr>) s1"
  from assms(1) show ?thesis
    unfolding ingest_video_packet_def e
  proof (cases rule: and_then_cases)
    case stop
    then show ?thesis using e1 by simp
  next
    case (ok u)
    have f: "foreign ?s2 (unat (vp_stream_epoch p))" using assms(2) e1 by (simp add: foreign_def sender_allowed_def)
    show ?thesis
    proof (cases "video_allowed ?s2")
      case False
      then show ?thesis using ok e1 by (auto simp: Let_def)
    next
      case True
      then have allowed: "sender_allowed ?s2" using f by (simp add: video_allowed_def foreign_def)
      show ?thesis
      proof (cases "route_epoch (unat (vp_stream_epoch p)) ?s2")
        case None
        then show ?thesis using ok True e1 by (auto simp: Let_def)
      next
        case (Some routed)
        obtain s3 deferred where r: "routed = (s3, deferred)" by fastforce
        then have d: "deferred" "ms_jitter s3 = ms_jitter s1" using route_foreign [OF f allowed] Some by auto
        have "ingest_routed env rs p t deferred s3 = (s', r)" using ok True Some r by (simp add: Let_def)
        then show ?thesis using deferred_ingest d e1 by fastforce
      qed
    qed
  qed
qed

theorem foreign_video_not_played_witness:
  "set (jb_frames (ms_jitter (fst (ingest_video_packet sample_env no_codec sample_packet 5 (media_session_new 1000))))) \<subseteq> {}"
proof -
  obtain s' r where "ingest_video_packet sample_env no_codec sample_packet 5 (media_session_new 1000) = (s', r)" by fastforce
  moreover have "foreign (media_session_new 1000) (unat (vp_stream_epoch sample_packet))"
    by (simp add: foreign_def media_session_new_def)
  ultimately show ?thesis
    using foreign_video_not_played [of sample_env no_codec sample_packet 5 "media_session_new 1000" s' r]
    by (simp add: media_session_new_def jitter_new_def)
qed

end
