(* ===== verification/Access_Unit.thy ===== *)
theory Access_Unit
  imports Prefix_Codes
begin

unbundle bit_operations_syntax

text \<open>
  Access units of the two codecs: \<open>crates/picoo-bitstream/src/access_unit.rs\<close> and \<open>wire.rs\<close>.
  A picture arrives as NAL units in one of two framings, start codes (Annex B) or big-endian
  lengths of one, two or four bytes; it leaves as four-byte lengths, the canonical wire form.
  Borrowed slices are byte lists; a slice expression out of range is \<open>Panic\<close>.

  The lemmas give the normal form of each framing, \<open>nal_lp\<close> and \<open>nal_annexb\<close>; the properties say
  that parsing what was written returns the same NAL units and the same picture.
\<close>

section \<open>Types\<close>

datatype codec = AvcCodec | HevcCodec

datatype bitstream_error =
  Limit | Truncated | Malformed string | Unsupported string | Configuration

definition MAX_ACCESS_UNIT_BYTES :: nat where "MAX_ACCESS_UNIT_BYTES = 2 * 1024 * 1024"
definition MAX_NALS_PER_ACCESS_UNIT :: nat where "MAX_NALS_PER_ACCESS_UNIT = 256"

datatype nal_length_size = NlsOne | NlsTwo | NlsFour

datatype nal_format = AnnexB | LengthPrefixed nal_length_size

fun nls_bytes :: "nal_length_size \<Rightarrow> nat" where
  "nls_bytes NlsOne = 1"
| "nls_bytes NlsTwo = 2"
| "nls_bytes NlsFour = 4"

datatype random_access_point = AvcIdr | HevcIdr | HevcCra

datatype picture_kind = RandomAccess random_access_point | Trailing | HevcRasl | HevcRadl

record picture_info =
  pi_kind :: picture_kind
  pi_discardable :: bool

record access_unit =
  au_codec :: codec
  au_nals :: "bytes list"
  au_picture :: picture_info

section \<open>Writing NAL units\<close>

definition nal_header :: "bool \<Rightarrow> bytes \<Rightarrow> bytes" where
  "nal_header annex_b nal = u32_be (if annex_b then 1 else of_nat (length nal))"

definition write_nals :: "bytes list \<Rightarrow> bool \<Rightarrow> (bytes, bitstream_error) result" where
  "write_nals nals annex_b =
     (if sum_list (map (\<lambda>nal. 4 + length nal) nals) > MAX_ACCESS_UNIT_BYTES then Err Limit
      else Ok (concat (map (\<lambda>nal. nal_header annex_b nal @ nal) nals)))"

section \<open>Splitting into NAL units\<close>

definition push_nal :: "bytes list \<Rightarrow> bytes \<Rightarrow> (bytes list, bitstream_error) result" where
  "push_nal nals nal =
     (if nal = [] then Err (Malformed ''empty NAL'')
      else if length nals = MAX_NALS_PER_ACCESS_UNIT then Err Limit
      else Ok (nals @ [nal]))"

function split_lp ::
  "nal_length_size \<Rightarrow> bytes list \<Rightarrow> bytes \<Rightarrow> (bytes list, bitstream_error) result" where
  "split_lp sz nals remaining =
     (if remaining = [] then Ok nals
      else if length remaining < nls_bytes sz then Err Truncated
      else let len = be_val (take (nls_bytes sz) remaining);
               rest = drop (nls_bytes sz) remaining
           in if length rest < len then Err Truncated
              else rbind (push_nal nals (take len rest)) (\<lambda>nals. split_lp sz nals (drop len rest)))"
  by pat_completeness auto
termination
  by (relation "measure (\<lambda>(sz, nals, remaining). length remaining)", simp)
    (case_tac sz; auto)

declare split_lp.simps [simp del]

fun find_001 :: "bytes \<Rightarrow> nat option" where
  "find_001 (a # b # c # bs) =
     (if a = 0 \<and> b = 0 \<and> c = 1 then Some 0 else map_option Suc (find_001 (b # c # bs)))"
| "find_001 _ = None"

definition start_code :: "bytes \<Rightarrow> nat \<Rightarrow> (nat \<times> nat) option" where
  "start_code data from =
     (if length data < from then None
      else case find_001 (drop from data) of
        None \<Rightarrow> None
      | Some relative \<Rightarrow>
          Some (if 0 < relative \<and> data ! (from + relative - 1) = 0
                then from + relative - 1 else from + relative, from + relative + 3))"

definition slice_range :: "bytes \<Rightarrow> nat \<Rightarrow> nat \<Rightarrow> (bytes, 'e) result" where
  "slice_range data a b = (if a \<le> b \<and> b \<le> length data then Ok (take (b - a) (drop a data)) else Panic)"

definition trim_zeros :: "bytes \<Rightarrow> bytes" where
  "trim_zeros nal = rev (dropWhile (\<lambda>b. b = 0) (rev nal))"

lemma find_001_less: "find_001 bs = Some i \<Longrightarrow> i + 3 \<le> length bs"
  by (induction bs arbitrary: i rule: find_001.induct) (auto split: if_splits)

lemma start_code_range: "start_code data from = Some (s, p) \<Longrightarrow> from \<le> s \<and> s < p \<and> p \<le> length data"
  by (auto simp: start_code_def split: if_splits option.splits dest: find_001_less)

function split_annexb ::
  "bytes \<Rightarrow> bytes list \<Rightarrow> nat \<Rightarrow> (bytes list, bitstream_error) result" where
  "split_annexb data nals payload =
     (let nxt = start_code data payload;
          stop = (case nxt of None \<Rightarrow> length data | Some (start, _) \<Rightarrow> start)
      in rbind (slice_range data payload stop) (\<lambda>nal.
         rbind (push_nal nals (trim_zeros nal)) (\<lambda>nals.
           case nxt of
             Some (_, next_payload) \<Rightarrow> split_annexb data nals next_payload
           | None \<Rightarrow> Ok nals)))"
  by pat_completeness auto
termination
  by (relation "measure (\<lambda>(data, nals, payload). length data - payload)")
    (auto dest!: start_code_range [OF sym] start_code_range)

declare split_annexb.simps [simp del]

definition split_nals :: "nal_format \<Rightarrow> bytes \<Rightarrow> (bytes list, bitstream_error) result" where
  "split_nals format data =
     (if data = [] then Err (Malformed ''empty AU'')
      else if length data > MAX_ACCESS_UNIT_BYTES then Err Limit
      else case format of
        LengthPrefixed sz \<Rightarrow> split_lp sz [] data
      | AnnexB \<Rightarrow>
          (case start_code data 0 of
             None \<Rightarrow> Err (Malformed ''missing Annex-B prefix'')
           | Some (start, payload) \<Rightarrow>
               if \<exists>b \<in> set (take start data). b \<noteq> 0 then Err (Malformed ''Annex-B leading garbage'')
               else split_annexb data [] payload))"

section \<open>Pictures\<close>

definition nal_type :: "codec \<Rightarrow> bytes \<Rightarrow> (u8, bitstream_error) result" where
  "nal_type codec nal =
     (case nal of
        [] \<Rightarrow> Err Truncated
      | first # tail \<Rightarrow>
          if first AND 0x80 \<noteq> 0 then Err (Malformed ''forbidden_zero_bit'')
          else case codec of
            AvcCodec \<Rightarrow>
              (let kind = first AND 31 in
               if \<not> (kind = 1 \<or> 5 \<le> kind \<and> kind \<le> 12) then Err (Unsupported ''AVC NAL type'')
               else if kind \<in> {5, 7, 8} \<and> first AND 0x60 = 0
                    then Err (Malformed ''AVC reference NAL without nal_ref_idc'')
               else Ok kind)
          | HevcCodec \<Rightarrow>
              (case tail of
                 [] \<Rightarrow> Err Truncated
               | second # _ \<Rightarrow>
                   let kind = drop_bit 1 first AND 63; temporal = second AND 7 in
                   if first AND 1 \<noteq> 0 \<or> drop_bit 3 second \<noteq> 0 then Err (Unsupported ''HEVC multilayer'')
                   else if temporal = 0 \<or>
                     ((16 \<le> kind \<and> kind \<le> 23 \<or> kind \<in> {32, 33, 36, 37}) \<and> temporal \<noteq> 1)
                     then Err (Malformed ''HEVC temporal id'')
                   else if 2 \<le> kind \<and> kind \<le> 5 \<and> temporal = 1
                     then Err (Malformed ''HEVC temporal switching id'')
                   else if \<not> (kind \<le> 9 \<or> 19 \<le> kind \<and> kind \<le> 21 \<or> 32 \<le> kind \<and> kind \<le> 40)
                     then Err (Unsupported ''HEVC NAL type'')
                   else Ok kind))"

definition is_vcl :: "codec \<Rightarrow> u8 \<Rightarrow> bool" where
  "is_vcl codec kind = (case codec of AvcCodec \<Rightarrow> kind = 1 \<or> kind = 5 | HevcCodec \<Rightarrow> kind \<le> 31)"

definition first_slice_flag :: "codec \<Rightarrow> bytes \<Rightarrow> (bool, bitstream_error) result" where
  "first_slice_flag codec nal =
     (let i = (case codec of AvcCodec \<Rightarrow> 1 | HevcCodec \<Rightarrow> 2) in
      if i < length nal then Ok (nal ! i AND 0x80 \<noteq> 0) else Err Truncated)"

definition slice_picture :: "codec \<Rightarrow> u8 \<Rightarrow> bytes \<Rightarrow> picture_info" where
  "slice_picture codec kind nal =
     \<lparr> pi_kind =
         (case codec of
            AvcCodec \<Rightarrow> if kind = 5 then RandomAccess AvcIdr else Trailing
          | HevcCodec \<Rightarrow>
              if kind \<in> {19, 20} then RandomAccess HevcIdr
              else if kind = 21 then RandomAccess HevcCra
              else if kind \<in> {8, 9} then HevcRasl
              else if kind \<in> {6, 7} then HevcRadl
              else Trailing),
       pi_discardable =
         (case codec of
            AvcCodec \<Rightarrow> nal ! 0 AND 0x60 = 0
          | HevcCodec \<Rightarrow> kind \<le> 9 \<and> kind mod 2 = 0) \<rparr>"

type_synonym inspection = "picture_info option \<times> u8 option"

definition inspect_nal :: "codec \<Rightarrow> bytes \<Rightarrow> inspection \<Rightarrow> (inspection, bitstream_error) result" where
  "inspect_nal codec nal st =
     (case st of (picture, vcl_type) \<Rightarrow>
      rbind (nal_type codec nal) (\<lambda>kind.
      if \<not> is_vcl codec kind then Ok st
      else rbind (first_slice_flag codec nal) (\<lambda>first_slice.
        if first_slice \<and> picture \<noteq> None then Err (Unsupported ''multiple pictures in AU'')
        else if \<not> first_slice \<and> picture = None then Err (Malformed ''missing first slice'')
        else if vcl_type \<noteq> None \<and> vcl_type \<noteq> Some kind then Err (Unsupported ''mixed VCL types'')
        else let current = slice_picture codec kind nal in
             if picture \<noteq> None \<and> picture \<noteq> Some current
             then Err (Unsupported ''inconsistent picture reference status'')
             else Ok (Some current, Some kind))))"

definition inspect_picture :: "codec \<Rightarrow> bytes list \<Rightarrow> (picture_info, bitstream_error) result" where
  "inspect_picture codec nals =
     rbind (rfold (inspect_nal codec) nals (None, None)) (\<lambda>(picture, _).
       ok_or picture (Malformed ''AU has no picture''))"

definition parse_access_unit ::
  "codec \<Rightarrow> nal_format \<Rightarrow> bytes \<Rightarrow> (access_unit, bitstream_error) result" where
  "parse_access_unit codec format data =
     rbind (split_nals format data) (\<lambda>nals.
     rbind (inspect_picture codec nals) (\<lambda>picture.
       Ok \<lparr> au_codec = codec, au_nals = nals, au_picture = picture \<rparr>))"

definition to_length_prefixed :: "access_unit \<Rightarrow> (bytes, bitstream_error) result" where
  "to_length_prefixed au = write_nals (au_nals au) False"

definition to_annex_b :: "access_unit \<Rightarrow> (bytes, bitstream_error) result" where
  "to_annex_b au = write_nals (au_nals au) True"

definition canonical_access_unit ::
  "codec \<Rightarrow> nal_format \<Rightarrow> bytes \<Rightarrow> (bytes, bitstream_error) result" where
  "canonical_access_unit codec format data =
     rbind (parse_access_unit codec format data) (\<lambda>picture.
       if format = LengthPrefixed NlsFour then Ok data else to_length_prefixed picture)"


section \<open>Length-prefixed framing\<close>

definition nal_fits :: "nat \<Rightarrow> bytes \<Rightarrow> bool" where
  "nal_fits n nal \<longleftrightarrow> nal \<noteq> [] \<and> length nal < 256 ^ n"

lemma nls_bytes_pos: "\<exists>n. nls_bytes sz = Suc n"
  by (cases sz) auto

lemma len_prefixed_nonempty: "len_prefixed (nls_bytes sz) nal \<noteq> []"
  by (simp add: len_prefixed_def) (cases sz; simp add: be_bytes_numeral)

lemma push_nal_Ok_iff [result_iff]:
  "push_nal nals nal = Ok r \<longleftrightarrow> nal \<noteq> [] \<and> length nals \<noteq> MAX_NALS_PER_ACCESS_UNIT \<and> r = nals @ [nal]"
  by (auto simp: push_nal_def)

lemma push_nal_no_panic [simp]: "push_nal nals nal \<noteq> Panic"
  by (simp add: push_nal_def)

lemma split_lp_Nil [simp]: "split_lp sz nals [] = Ok nals"
  by (simp add: split_lp.simps)

lemma split_lp_step:
  assumes "length nal < 256 ^ nls_bytes sz"
  shows "split_lp sz nals (len_prefixed (nls_bytes sz) nal @ rest) =
           rbind (push_nal nals nal) (\<lambda>nals. split_lp sz nals rest)"
proof -
  let ?r = "len_prefixed (nls_bytes sz) nal @ rest"
  have "?r \<noteq> []" using len_prefixed_nonempty by simp
  moreover have "take (nls_bytes sz) ?r = be_bytes (nls_bytes sz) (length nal)"
    "drop (nls_bytes sz) ?r = nal @ rest" by (simp_all add: len_prefixed_def)
  moreover have "be_val (be_bytes (nls_bytes sz) (length nal)) = length nal"
    using assms by (simp add: be_val_be_bytes)
  moreover have "\<not> length ?r < nls_bytes sz" by (simp add: len_prefixed_def)
  ultimately show ?thesis by (subst split_lp.simps) (simp del: append_is_Nil_conv)
qed

lemma split_lp_written:
  "\<forall>nal \<in> set ns. nal_fits (nls_bytes sz) nal \<Longrightarrow> length nals + length ns \<le> MAX_NALS_PER_ACCESS_UNIT \<Longrightarrow>
     split_lp sz nals (concat (map (len_prefixed (nls_bytes sz)) ns)) = Ok (nals @ ns)"
  by (induction ns arbitrary: nals) (auto simp: split_lp_step nal_fits_def push_nal_def)

lemma split_lp_Ok:
  "split_lp sz nals data = Ok r \<Longrightarrow> length nals \<le> MAX_NALS_PER_ACCESS_UNIT \<Longrightarrow>
     \<exists>ns. r = nals @ ns \<and> length r \<le> MAX_NALS_PER_ACCESS_UNIT \<and>
       (\<forall>nal \<in> set ns. nal_fits (nls_bytes sz) nal) \<and>
       data = concat (map (len_prefixed (nls_bytes sz)) ns)"
proof (induction "length data" arbitrary: data nals rule: less_induct)
  case less
  show ?case
  proof (cases "data = []")
    case True
    then show ?thesis using less.prems by auto
  next
    case False
    define n k where "n = nls_bytes sz" and "k = be_val (take n data)"
    define nal rest where "nal = take k (drop n data)" and "rest = drop k (drop n data)"
    from less.prems(1) False have l: "n \<le> length data" "k \<le> length data - n"
      by (subst (asm) split_lp.simps; simp add: n_def k_def Let_def split: if_splits)+
    from less.prems(1) False l have ok: "rbind (push_nal nals nal) (\<lambda>nals. split_lp sz nals rest) = Ok r"
      by (subst (asm) split_lp.simps) (simp add: n_def k_def nal_def rest_def Let_def split: if_splits)
    from ok have ne: "nal \<noteq> []" "length nals \<noteq> MAX_NALS_PER_ACCESS_UNIT"
      and rec: "split_lp sz (nals @ [nal]) rest = Ok r"
      by (auto simp: result_iff)
    have len: "length nal = k" using l by (simp add: nal_def)
    have k: "k < 256 ^ n" using be_val_less [of "take n data"] l(1) by (simp add: k_def)
    have "take n data = be_bytes n k" using be_bytes_be_val [of "take n data"] l(1) by (simp add: k_def)
    moreover have "take n data @ nal @ rest = data" by (simp add: nal_def rest_def del: drop_drop)
    ultimately have data: "data = len_prefixed n nal @ rest" by (simp add: len_prefixed_def len)
    have "length rest < length data" using ne(1) len False by (cases data; cases k; simp add: rest_def)
    from less.hyps [OF this rec] ne(2) less.prems(2) obtain ns where
      "r = (nals @ [nal]) @ ns" "length r \<le> MAX_NALS_PER_ACCESS_UNIT"
      "\<forall>nal \<in> set ns. nal_fits n nal" "rest = concat (map (len_prefixed n) ns)"
      by (auto simp: n_def)
    with data ne(1) k len show ?thesis
      by (intro exI [of _ "nal # ns"]) (simp add: nal_fits_def n_def)
  qed
qed

lemma split_nals_lp_iff:
  "split_nals (LengthPrefixed sz) data = Ok nals \<longleftrightarrow>
     nals \<noteq> [] \<and> length nals \<le> MAX_NALS_PER_ACCESS_UNIT \<and> length data \<le> MAX_ACCESS_UNIT_BYTES \<and>
     (\<forall>nal \<in> set nals. nal_fits (nls_bytes sz) nal) \<and>
     data = concat (map (len_prefixed (nls_bytes sz)) nals)" (is "?l \<longleftrightarrow> ?r")
proof
  assume ?l
  then have "data \<noteq> []" "length data \<le> MAX_ACCESS_UNIT_BYTES" "split_lp sz [] data = Ok nals"
    by (auto simp: split_nals_def split: if_splits)
  with split_lp_Ok [of sz "[]" data nals] show ?r by auto
next
  assume r: ?r
  then obtain n ns where "nals = n # ns" by (cases nals) auto
  then have "data \<noteq> []" using r len_prefixed_nonempty [of sz n] by simp
  moreover have "split_lp sz [] data = Ok nals" using r split_lp_written [of nals sz "[]"] by simp
  moreover have "\<not> MAX_ACCESS_UNIT_BYTES < length data" using r by (blast dest: leD)
  ultimately show ?l by (simp add: split_nals_def)
qed

section \<open>Start codes\<close>

definition nal_plain :: "bytes \<Rightarrow> bool" where
  "nal_plain nal \<longleftrightarrow> nal \<noteq> [] \<and> last nal \<noteq> 0 \<and> find_001 nal = None"

lemma find_001_before:
  "find_001 nal = None \<Longrightarrow> nal \<noteq> [] \<Longrightarrow> last nal \<noteq> 0 \<Longrightarrow>
     find_001 (nal @ 0 # 0 # 0 # 1 # rest) = Some (length nal + 1)"
  by (induction nal rule: find_001.induct) (auto split: if_splits)

lemma find_001_prefix: "find_001 (xs @ ys) = None \<Longrightarrow> find_001 xs = None"
  by (induction xs rule: find_001.induct) (auto split: if_splits)

lemma find_001_until: "find_001 bs = Some i \<Longrightarrow> find_001 (take i bs) = None"
proof (induction bs arbitrary: i rule: find_001.induct)
  case (1 a b c bs)
  show ?case
  proof (cases "a = 0 \<and> b = 0 \<and> c = 1")
    case True
    with 1 show ?thesis by simp
  next
    case False
    with 1 obtain j where j: "i = Suc j" "find_001 (b # c # bs) = Some j" by auto
    from 1 False j(2) have IH: "find_001 (take j (b # c # bs)) = None" by blast
    show ?thesis
      using IH False j(1) by (cases j; cases "j - 1") auto
  qed
qed auto

lemma trim_zeros_prefix: "\<exists>zs. nal = trim_zeros nal @ zs"
proof -
  have "nal = rev (takeWhile (\<lambda>b. b = 0) (rev nal) @ dropWhile (\<lambda>b. b = 0) (rev nal))"
    by (simp only: takeWhile_dropWhile_id rev_rev_ident)
  then have "nal = trim_zeros nal @ rev (takeWhile (\<lambda>b. b = 0) (rev nal))"
    by (simp only: trim_zeros_def rev_append)
  then show ?thesis ..
qed

lemma trim_zeros_last: "trim_zeros nal \<noteq> [] \<Longrightarrow> last (trim_zeros nal) \<noteq> 0"
  using hd_dropWhile [of "\<lambda>b. b = 0" "rev nal"]
  by (auto simp: trim_zeros_def last_rev)

lemma trim_zeros_id: "nal \<noteq> [] \<Longrightarrow> last nal \<noteq> 0 \<Longrightarrow> trim_zeros nal = nal"
  by (cases nal rule: rev_cases) (auto simp: trim_zeros_def)

definition with_start_code :: "bytes \<Rightarrow> bytes" where
  "with_start_code nal = [0, 0, 0, 1] @ nal"

lemma split_annexb_written:
  "nal_plain nal \<Longrightarrow> \<forall>n \<in> set ns. nal_plain n \<Longrightarrow> length nals + 1 + length ns \<le> MAX_NALS_PER_ACCESS_UNIT \<Longrightarrow>
     split_annexb (pre @ nal @ concat (map with_start_code ns)) nals (length pre) = Ok (nals @ nal # ns)"
proof (induction ns arbitrary: pre nal nals)
  case Nil
  let ?data = "pre @ nal"
  have "start_code ?data (length pre) = None"
    using Nil.prems by (simp add: start_code_def nal_plain_def)
  then show ?case
    using Nil.prems by (subst split_annexb.simps) (simp add: slice_range_def push_nal_def trim_zeros_id nal_plain_def)
next
  case (Cons m ms)
  define more where "more = m @ concat (map with_start_code ms)"
  let ?data = "pre @ nal @ 0 # 0 # 0 # 1 # more"
  have data: "pre @ nal @ concat (map with_start_code (m # ms)) = ?data"
    by (simp add: with_start_code_def more_def)
  have "find_001 (drop (length pre) ?data) = Some (length nal + 1)"
    using Cons.prems(1) by (simp add: find_001_before nal_plain_def)
  moreover have "?data ! (length pre + (length nal + 1) - 1) = 0" by (simp add: nth_append)
  ultimately have sc: "start_code ?data (length pre) = Some (length pre + length nal, length pre + length nal + 4)"
    by (simp add: start_code_def)
  have IH: "split_annexb ?data (nals @ [nal]) (length pre + length nal + 4) = Ok (nals @ nal # m # ms)"
    using Cons.IH [of m "nals @ [nal]" "pre @ nal @ [0, 0, 0, 1]"] Cons.prems by (simp add: more_def eval_nat_numeral)
  have "slice_range ?data (length pre) (length pre + length nal) = (Ok nal :: (bytes, bitstream_error) result)"
    by (simp add: slice_range_def)
  moreover have "push_nal nals nal = Ok (nals @ [nal])"
    using Cons.prems by (simp add: push_nal_def nal_plain_def)
  moreover have "trim_zeros nal = nal" using Cons.prems(1) by (simp add: trim_zeros_id nal_plain_def)
  ultimately show ?case
    unfolding data by (subst split_annexb.simps) (simp add: sc IH)
qed


lemma start_code_plain:
  "start_code data from = Some (s, p) \<Longrightarrow> find_001 (take (s - from) (drop from data)) = None"
proof -
  assume sc: "start_code data from = Some (s, p)"
  then obtain i where i: "find_001 (drop from data) = Some i" "s - from \<le> i"
    by (auto simp: start_code_def split: if_splits option.splits)
  have "take i (drop from data) = take (s - from) (drop from data) @ take (i - (s - from)) (drop s data)"
    using i(2) start_code_range [OF sc] take_add [of "s - from" "i - (s - from)" "drop from data"] by simp
  then show ?thesis using find_001_until [OF i(1)] find_001_prefix by metis
qed

lemma start_code_None: "start_code data from = None \<Longrightarrow> from \<le> length data \<Longrightarrow> find_001 (drop from data) = None"
  by (auto simp: start_code_def split: option.splits if_splits)

lemma trimmed_plain: "find_001 nal = None \<Longrightarrow> trim_zeros nal \<noteq> [] \<Longrightarrow> nal_plain (trim_zeros nal)"
  using trim_zeros_prefix [of nal] find_001_prefix [of "trim_zeros nal"] trim_zeros_last [of nal]
  unfolding nal_plain_def by metis

lemma split_annexb_Ok:
  "split_annexb data nals payload = Ok r \<Longrightarrow> length nals \<le> MAX_NALS_PER_ACCESS_UNIT \<Longrightarrow>
     \<exists>ns. r = nals @ ns \<and> ns \<noteq> [] \<and> length r \<le> MAX_NALS_PER_ACCESS_UNIT \<and> (\<forall>n \<in> set ns. nal_plain n)"
proof (induction "length data - payload" arbitrary: nals payload rule: less_induct)
  case less
  show ?case
  proof (cases "start_code data payload")
    case None
    from less.prems(1) have "rbind (slice_range data payload (length data)) (\<lambda>nal. push_nal nals (trim_zeros nal)) = Ok r"
      by (subst (asm) split_annexb.simps) (simp add: None)
    then have le: "payload \<le> length data" and r: "push_nal nals (trim_zeros (drop payload data)) = Ok r"
      by (simp_all add: slice_range_def split: if_splits)
    from r have "trim_zeros (drop payload data) \<noteq> []" "r = nals @ [trim_zeros (drop payload data)]"
      "length nals \<noteq> MAX_NALS_PER_ACCESS_UNIT"
      by (simp_all add: push_nal_Ok_iff)
    with trimmed_plain [OF start_code_None [OF None le]] less.prems(2) show ?thesis by auto
  next
    case (Some sp)
    then obtain s p where sp: "start_code data payload = Some (s, p)" by (cases sp) auto
    note range = start_code_range [OF sp]
    define nal where "nal = take (s - payload) (drop payload data)"
    from less.prems(1) range have ok: "rbind (push_nal nals (trim_zeros nal)) (\<lambda>nals. split_annexb data nals p) = Ok r"
      by (subst (asm) split_annexb.simps) (simp add: sp slice_range_def nal_def)
    then have nal: "trim_zeros nal \<noteq> []" "length nals \<noteq> MAX_NALS_PER_ACCESS_UNIT"
      and rec: "split_annexb data (nals @ [trim_zeros nal]) p = Ok r" by (auto simp: result_iff)
    have "length data - p < length data - payload" using range by auto
    from less.hyps [OF this rec] nal(2) less.prems(2) obtain ns where
      "r = (nals @ [trim_zeros nal]) @ ns" "length r \<le> MAX_NALS_PER_ACCESS_UNIT" "\<forall>n \<in> set ns. nal_plain n"
      by auto
    moreover have "nal_plain (trim_zeros nal)"
      using start_code_plain [OF sp] nal(1) by (intro trimmed_plain) (simp_all add: nal_def)
    ultimately show ?thesis by (intro exI [of _ "trim_zeros nal # ns"]) simp
  qed
qed

lemma split_annexb_no_panic: "payload \<le> length data \<Longrightarrow> split_annexb data nals payload \<noteq> Panic"
proof (induction "length data - payload" arbitrary: nals payload rule: less_induct)
  case less
  show ?case
  proof (cases "start_code data payload")
    case None
    then show ?thesis
      using less.prems by (subst split_annexb.simps) (simp add: slice_range_def rbind_Panic_iff)
  next
    case (Some sp)
    then obtain s p where sp: "start_code data payload = Some (s, p)" by (cases sp) auto
    note range = start_code_range [OF sp]
    then have "split_annexb data ns p \<noteq> Panic" for ns by (intro less.hyps) auto
    with range show ?thesis
      by (subst split_annexb.simps) (simp add: sp slice_range_def rbind_Panic_iff)
  qed
qed

lemma split_lp_no_panic: "split_lp sz nals data \<noteq> Panic"
proof (induction "length data" arbitrary: nals data rule: less_induct)
  case less
  obtain n where n: "nls_bytes sz = Suc n" using nls_bytes_pos by blast
  have "data \<noteq> [] \<Longrightarrow> split_lp sz ns (drop k (drop (nls_bytes sz) data)) \<noteq> Panic" for ns k
    by (rule less.hyps) (simp add: n)
  then show ?case by (subst split_lp.simps) (simp add: Let_def rbind_Panic_iff del: drop_drop)
qed

lemma split_nals_annexb:
  assumes "split_nals AnnexB data = Ok nals"
  shows "nals \<noteq> [] \<and> length nals \<le> MAX_NALS_PER_ACCESS_UNIT \<and> (\<forall>n \<in> set nals. nal_plain n)"
proof -
  from assms obtain p where "split_annexb data [] p = Ok nals"
    by (auto simp: split_nals_def split: if_splits option.splits)
  from split_annexb_Ok [OF this] show ?thesis by auto
qed

lemma split_nals_some:
  assumes "split_nals format data = Ok nals"
  shows "nals \<noteq> [] \<and> length nals \<le> MAX_NALS_PER_ACCESS_UNIT \<and> (\<forall>n \<in> set nals. n \<noteq> [])"
  using assms split_nals_annexb
  by (cases format) (auto simp: split_nals_lp_iff nal_fits_def nal_plain_def)

section \<open>What is written\<close>

lemma member_sum_list: "x \<in> set xs \<Longrightarrow> f x \<le> sum_list (map f xs)" for f :: "'a \<Rightarrow> nat"
  by (induction xs) auto

lemma write_nals_sizes:
  assumes "write_nals nals annex_b = Ok w" "n \<in> set nals"
  shows "length n < 256 ^ 4"
proof -
  have "4 + length n \<le> sum_list (map (\<lambda>nal. 4 + length nal) nals)" using assms(2) by (rule member_sum_list)
  then show ?thesis using assms(1) by (simp add: write_nals_def MAX_ACCESS_UNIT_BYTES_def split: if_splits)
qed

lemma write_nals_length:
  assumes "write_nals nals annex_b = Ok w"
  shows "length w \<le> MAX_ACCESS_UNIT_BYTES"
proof -
  have "length (concat (map (\<lambda>nal. nal_header annex_b nal @ nal) nals)) =
      sum_list (map (\<lambda>nal. 4 + length nal) nals)"
    by (simp add: length_concat nal_header_def comp_def)
  then show ?thesis using assms by (simp add: write_nals_def split: if_splits)
qed

lemma write_nals_lp: "write_nals nals False = Ok w \<Longrightarrow> w = concat (map (len_prefixed 4) nals)"
proof -
  assume w: "write_nals nals False = Ok w"
  have "nal_header False n @ n = len_prefixed 4 n" if "n \<in> set nals" for n
    using write_nals_sizes [OF w that] by (simp add: nal_header_def u32_be_def len_prefixed_def unat_of_nat)
  then have "map (\<lambda>n. nal_header False n @ n) nals = map (len_prefixed 4) nals" by (rule map_cong [OF refl])
  with w show ?thesis by (simp only: write_nals_def result.inject result.distinct split: if_splits)
qed

lemma write_nals_annexb: "write_nals nals True = Ok w \<Longrightarrow> w = concat (map with_start_code nals)"
proof -
  have "nal_header True n @ n = with_start_code n" for n
    by (simp add: nal_header_def u32_be_def be_bytes_numeral with_start_code_def)
  then show "write_nals nals True = Ok w \<Longrightarrow> ?thesis" by (simp add: write_nals_def split: if_splits)
qed

lemma split_written_lp:
  assumes "write_nals nals False = Ok w" "nals \<noteq> []" "length nals \<le> MAX_NALS_PER_ACCESS_UNIT"
    and "\<forall>n \<in> set nals. n \<noteq> []"
  shows "split_nals (LengthPrefixed NlsFour) w = Ok nals"
  using assms write_nals_sizes [OF assms(1)] write_nals_length [OF assms(1)] write_nals_lp [OF assms(1)]
  by (simp add: split_nals_lp_iff nal_fits_def)

lemma split_written_annexb:
  assumes "write_nals nals True = Ok w" "nals \<noteq> []" "length nals \<le> MAX_NALS_PER_ACCESS_UNIT"
    and "\<forall>n \<in> set nals. nal_plain n"
  shows "split_nals AnnexB w = Ok nals"
proof -
  obtain n ns where nals: "nals = n # ns" using assms(2) by (cases nals) auto
  have w: "w = [0, 0, 0, 1] @ n @ concat (map with_start_code ns)"
    using write_nals_annexb [OF assms(1)] by (simp add: nals with_start_code_def)
  have "start_code w 0 = Some (0, 4)" by (simp add: start_code_def w)
  moreover have "split_annexb w [] 4 = Ok nals"
    using split_annexb_written [of n ns "[]" "[0, 0, 0, 1]"] assms(3,4) by (simp add: nals w eval_nat_numeral)
  moreover have "w \<noteq> []" "\<not> MAX_ACCESS_UNIT_BYTES < length w"
    using write_nals_length [OF assms(1)] by (auto simp: w)
  ultimately show ?thesis by (simp add: split_nals_def)
qed


section \<open>One picture\<close>

definition vcl_nal :: "codec \<Rightarrow> bytes \<Rightarrow> bool" where
  "vcl_nal codec nal = (case nal_type codec nal of Ok kind \<Rightarrow> is_vcl codec kind | _ \<Rightarrow> False)"

definition slice_of :: "codec \<Rightarrow> u8 \<Rightarrow> picture_info \<Rightarrow> bytes \<Rightarrow> bool" where
  "slice_of codec kind picture nal \<longleftrightarrow> nal_type codec nal = Ok kind \<and> slice_picture codec kind nal = picture"

lemma inspect_nal_other:
  "inspect_nal codec nal st = Ok st' \<Longrightarrow> \<not> vcl_nal codec nal \<Longrightarrow> st' = st"
  by (cases st) (auto simp: inspect_nal_def vcl_nal_def rbind_Ok_iff split: if_splits)

lemma inspect_nal_next:
  "inspect_nal codec nal (Some picture, Some kind) = Ok st \<Longrightarrow> vcl_nal codec nal \<Longrightarrow>
     st = (Some picture, Some kind) \<and> first_slice_flag codec nal = Ok False \<and> slice_of codec kind picture nal"
  by (auto simp: inspect_nal_def vcl_nal_def slice_of_def rbind_Ok_iff Let_def split: if_splits)

lemma inspect_nal_first:
  "inspect_nal codec nal (None, None) = Ok st \<Longrightarrow> vcl_nal codec nal \<Longrightarrow>
     \<exists>picture kind. st = (Some picture, Some kind) \<and> first_slice_flag codec nal = Ok True \<and>
       slice_of codec kind picture nal"
  by (auto simp: inspect_nal_def vcl_nal_def slice_of_def rbind_Ok_iff Let_def split: if_splits)

lemma inspect_rest:
  "rfold (inspect_nal codec) nals (Some picture, Some kind) = Ok st \<Longrightarrow>
     st = (Some picture, Some kind) \<and>
     (\<forall>s \<in> set (filter (vcl_nal codec) nals). first_slice_flag codec s = Ok False \<and> slice_of codec kind picture s)"
proof (induction nals)
  case (Cons nal nals)
  then obtain st' where st': "inspect_nal codec nal (Some picture, Some kind) = Ok st'"
    "rfold (inspect_nal codec) nals st' = Ok st" by (auto simp: rbind_Ok_iff)
  show ?case
  proof (cases "vcl_nal codec nal")
    case True
    with inspect_nal_next [OF st'(1)] st'(2) Cons.IH show ?thesis by auto
  next
    case False
    with inspect_nal_other [OF st'(1)] st'(2) Cons.IH show ?thesis by auto
  qed
qed simp

lemma inspect_all:
  "rfold (inspect_nal codec) nals (None, None) = Ok (Some picture, t) \<Longrightarrow>
     \<exists>s ss kind. filter (vcl_nal codec) nals = s # ss \<and> first_slice_flag codec s = Ok True \<and>
       (\<forall>r \<in> set ss. first_slice_flag codec r = Ok False) \<and>
       (\<forall>r \<in> set (s # ss). slice_of codec kind picture r)"
proof (induction nals)
  case (Cons nal nals)
  then obtain st where st: "inspect_nal codec nal (None, None) = Ok st"
    "rfold (inspect_nal codec) nals st = Ok (Some picture, t)" by (auto simp: rbind_Ok_iff)
  show ?case
  proof (cases "vcl_nal codec nal")
    case True
    from inspect_nal_first [OF st(1) True] obtain picture' kind where
      f: "st = (Some picture', Some kind)" "first_slice_flag codec nal = Ok True" "slice_of codec kind picture' nal"
      by blast
    from inspect_rest [OF st(2) [unfolded f(1)]]
    have "picture' = picture"
      "\<forall>s \<in> set (filter (vcl_nal codec) nals). first_slice_flag codec s = Ok False \<and> slice_of codec kind picture s"
      by simp_all
    with f(2,3) True show ?thesis by auto
  next
    case False
    from inspect_nal_other [OF st(1) False] st(2) have "rfold (inspect_nal codec) nals (None, None) = Ok (Some picture, t)"
      by simp
    from Cons.IH [OF this] False show ?thesis by simp
  qed
qed simp

lemma nal_type_no_panic [simp]: "nal_type codec nal \<noteq> Panic"
  by (auto simp: nal_type_def Let_def split: list.splits codec.splits)

lemma first_slice_no_panic [simp]: "first_slice_flag codec nal \<noteq> Panic"
  by (simp add: first_slice_flag_def Let_def)

lemma inspect_no_panic: "inspect_picture codec nals \<noteq> Panic"
proof -
  have "inspect_nal codec nal st \<noteq> Panic" for nal st
    by (cases st) (simp add: inspect_nal_def rbind_Panic_iff Let_def)
  then have "rfold (inspect_nal codec) nals st \<noteq> Panic" for st
    by (induction nals arbitrary: st) (auto simp: rbind_Panic_iff)
  then show ?thesis by (simp add: inspect_picture_def rbind_Panic_iff split_beta)
qed

lemma split_nals_no_panic: "split_nals format data \<noteq> Panic"
proof (cases format)
  case AnnexB
  have "split_annexb data [] p \<noteq> Panic" if "start_code data 0 = Some (s, p)" for s p
    using start_code_range [OF that] by (intro split_annexb_no_panic) simp
  then show ?thesis by (auto simp: AnnexB split_nals_def split: option.splits)
qed (simp add: split_nals_def split_lp_no_panic)

lemma parse_Ok_iff:
  "parse_access_unit codec format data = Ok p \<longleftrightarrow>
     split_nals format data = Ok (au_nals p) \<and> inspect_picture codec (au_nals p) = Ok (au_picture p) \<and>
     au_codec p = codec"
  by (cases p) (auto simp: parse_access_unit_def rbind_Ok_iff)

section \<open>Properties\<close>

text \<open>C33: The canonical wire form is canonical. Whatever framing a picture arrived in, the bytes that
  leave \<open>canonical_access_unit\<close> parse, as four-byte lengths, to the same NAL units and the same
  picture, and making them canonical again changes nothing.
\<close>

theorem canonical_form_is_stable:
  assumes "canonical_access_unit codec format data = Ok w"
  shows "\<exists>p. parse_access_unit codec format data = Ok p \<and>
           parse_access_unit codec (LengthPrefixed NlsFour) w = Ok p \<and>
           canonical_access_unit codec (LengthPrefixed NlsFour) w = Ok w"
proof -
  from assms obtain p where p: "parse_access_unit codec format data = Ok p"
    and w: "(if format = LengthPrefixed NlsFour then Ok data else to_length_prefixed p) = Ok w"
    by (auto simp: canonical_access_unit_def rbind_Ok_iff)
  have "parse_access_unit codec (LengthPrefixed NlsFour) w = Ok p"
  proof (cases "format = LengthPrefixed NlsFour")
    case True
    with p w show ?thesis by simp
  next
    case False
    with w have "write_nals (au_nals p) False = Ok w" by (simp add: to_length_prefixed_def)
    with p split_nals_some [of format data "au_nals p"] show ?thesis
      by (simp add: parse_Ok_iff split_written_lp)
  qed
  with p show ?thesis by (auto simp: canonical_access_unit_def)
qed

definition annexb_sample :: bytes where
  "annexb_sample = [0, 0, 1, 0x67, 1, 2, 0, 0, 0, 1, 0x65, 0x88, 0, 0, 3, 1, 0]"

definition canonical_sample :: bytes where
  "canonical_sample = [0, 0, 0, 3, 0x67, 1, 2, 0, 0, 0, 6, 0x65, 0x88, 0, 0, 3, 1]"


lemmas access_unit_evals =
  canonical_access_unit_def parse_access_unit_def split_nals_def MAX_ACCESS_UNIT_BYTES_def
  start_code_def split_annexb.simps slice_range_def trim_zeros_def push_nal_def
  MAX_NALS_PER_ACCESS_UNIT_def inspect_picture_def inspect_nal_def nal_type_def is_vcl_def
  first_slice_flag_def slice_picture_def to_length_prefixed_def to_annex_b_def write_nals_def
  nal_header_def u32_be_def be_bytes_numeral annexb_sample_def canonical_sample_def

theorem canonical_form_is_stable_witness:
  "\<exists>p. parse_access_unit AvcCodec AnnexB annexb_sample = Ok p \<and>
     parse_access_unit AvcCodec (LengthPrefixed NlsFour) canonical_sample = Ok p \<and>
     canonical_access_unit AvcCodec (LengthPrefixed NlsFour) canonical_sample = Ok canonical_sample"
  by (rule canonical_form_is_stable) (simp add: access_unit_evals)

text \<open>Annex-B output is Annex-B input. When a parsed start-code access unit is written with start
  codes again, parsing finds the same NAL units and picture; none of the NAL units holds a start
  code or ends in a zero byte, so no boundary moves.
\<close>

lemma annexb_form_is_stable:
  assumes "parse_access_unit codec AnnexB data = Ok p" "to_annex_b p = Ok w"
  shows "parse_access_unit codec AnnexB w = Ok p \<and> list_all nal_plain (au_nals p)"
  using assms split_nals_annexb [of data "au_nals p"]
  by (simp add: parse_Ok_iff to_annex_b_def split_written_annexb list_all_iff)

definition sample_unit :: access_unit where
  "sample_unit = \<lparr> au_codec = AvcCodec, au_nals = [[0x67, 1, 2], [0x65, 0x88, 0, 0, 3, 1]],
     au_picture = \<lparr> pi_kind = RandomAccess AvcIdr, pi_discardable = False \<rparr> \<rparr>"

text \<open>C34: An admitted access unit is exactly one picture. Its slices all have one NAL type and agree on
  the kind and the reference status that the result reports; the first of them opens a picture and
  no other does.
\<close>

theorem access_unit_is_one_picture:
  assumes "parse_access_unit codec format data = Ok p"
  shows "\<exists>s ss kind. filter (vcl_nal codec) (au_nals p) = s # ss \<and>
           first_slice_flag codec s = Ok True \<and>
           list_all (\<lambda>r. first_slice_flag codec r = Ok False) ss \<and>
           list_all (slice_of codec kind (au_picture p)) (s # ss)"
proof -
  from assms obtain t where "rfold (inspect_nal codec) (au_nals p) (None, None) = Ok (Some (au_picture p), t)"
    by (auto simp: parse_Ok_iff inspect_picture_def rbind_Ok_iff ok_or_Ok_iff)
  from inspect_all [OF this] show ?thesis by (auto simp: list_all_iff)
qed

theorem access_unit_is_one_picture_witness:
  "\<exists>s ss kind. filter (vcl_nal AvcCodec) (au_nals sample_unit) = s # ss \<and>
     first_slice_flag AvcCodec s = Ok True \<and>
     list_all (\<lambda>r. first_slice_flag AvcCodec r = Ok False) ss \<and>
     list_all (slice_of AvcCodec kind (au_picture sample_unit)) (s # ss)"
  by (rule access_unit_is_one_picture [of AvcCodec AnnexB annexb_sample])
    (simp add: access_unit_evals sample_unit_def)

text \<open>Framing errors are values. Parsing and normalising return for every byte sequence, in either
  framing and for either codec, without a slice out of range; and length prefixes are accepted
  exactly when the bytes are the prefixed NAL units, each non-empty and within its field.
\<close>

lemma framing_never_panics:
  "parse_access_unit codec format data \<noteq> Panic \<and> canonical_access_unit codec format data \<noteq> Panic \<and>
   (split_nals (LengthPrefixed sz) data = Ok nals \<longleftrightarrow>
      nals \<noteq> [] \<and> length nals \<le> MAX_NALS_PER_ACCESS_UNIT \<and> length data \<le> MAX_ACCESS_UNIT_BYTES \<and>
      list_all (nal_fits (nls_bytes sz)) nals \<and>
      data = concat (map (len_prefixed (nls_bytes sz)) nals))"
proof -
  have p: "parse_access_unit codec format data \<noteq> Panic"
    by (simp add: parse_access_unit_def rbind_Panic_iff split_nals_no_panic inspect_no_panic)
  moreover have "canonical_access_unit codec format data \<noteq> Panic"
    using p by (simp add: canonical_access_unit_def to_length_prefixed_def write_nals_def rbind_Panic_iff)
  ultimately show ?thesis by (simp add: split_nals_lp_iff list_all_iff)
qed

end
