(* ===== verification/Avc_Vui.thy ===== *)
theory Avc_Vui
  imports Access_Unit
begin

text \<open>
  Writing the colour of an AVC source into its sequence parameter set:
  \<open>crates/picoo-bitstream/src/avc_vui.rs\<close>. The bit reader and writer, the Exp-Golomb codes, the walk
  over the parameter set up to its VUI flag, the ways the colour is written, and the escaping of the
  payload. The function that ties them together, with the source facts around it, is in the theory
  \<open>Codec_Configuration\<close>.

  Indices into the bit string follow the source: \<open>get\<close> reads out of range are \<open>Truncated\<close>, slice
  expressions out of range are \<open>Panic\<close>. A reading method is a function from the reader to its result
  and the reader after it; \<open>prefix_only\<close> collects what every such method promises, so the walk is
  seen to be the same on every bit string with the same beginning.
\<close>

section \<open>Bit strings\<close>

record bit_reader =
  br_bits :: "bool list"
  br_pos :: nat

text \<open>
  A method that takes \<open>&mut self\<close> and may fail: the result and the reader after it, or the error.
  \<open>rd_bind\<close> is the \<open>?\<close> operator between two of them.
\<close>

type_synonym 'a reading = "bit_reader \<Rightarrow> ('a \<times> bit_reader, bitstream_error) result"

definition rd_return :: "'a \<Rightarrow> 'a reading" where
  "rd_return x r = Ok (x, r)"

definition rd_fail :: "bitstream_error \<Rightarrow> 'a reading" where
  "rd_fail e r = Err e"

definition rd_bind :: "'a reading \<Rightarrow> ('a \<Rightarrow> 'b reading) \<Rightarrow> 'b reading" where
  "rd_bind m k r = rbind (m r) (\<lambda>(x, r). k x r)"

definition rd_seq :: "'a reading \<Rightarrow> 'b reading \<Rightarrow> 'b reading" where
  "rd_seq m k = rd_bind m (\<lambda>_. k)"

definition byte_bits :: "u8 \<Rightarrow> bool list" where
  "byte_bits b = map (bit b) [7, 6, 5, 4, 3, 2, 1, 0]"

definition from_rbsp :: "bytes \<Rightarrow> bit_reader" where
  "from_rbsp rbsp = \<lparr> br_bits = concat (map byte_bits rbsp), br_pos = 0 \<rparr>"

definition br_prefix :: "bit_reader \<Rightarrow> nat \<Rightarrow> (bool list, bitstream_error) result" where
  "br_prefix r stop = (if stop \<le> length (br_bits r) then Ok (take stop (br_bits r)) else Panic)"

definition read_at :: "bit_reader \<Rightarrow> nat \<Rightarrow> (bool, bitstream_error) result" where
  "read_at r i = (if i < length (br_bits r) then Ok (br_bits r ! i) else Err Truncated)"

definition read_bit :: "bool reading" where
  "read_bit r = rbind (read_at r (br_pos r)) (\<lambda>b. Ok (b, r\<lparr> br_pos := br_pos r + 1 \<rparr>))"

text \<open>The loop of \<open>read_n\<close>: the value of the bits at \<open>start\<close>, most significant first.\<close>

fun read_n_loop :: "bit_reader \<Rightarrow> nat \<Rightarrow> nat \<Rightarrow> nat \<Rightarrow> (nat, bitstream_error) result" where
  "read_n_loop r start 0 v = Ok v"
| "read_n_loop r start (Suc width) v =
     rbind (read_at r start) (\<lambda>b. read_n_loop r (start + 1) width (2 * v + of_bool b))"

definition read_n :: "bit_reader \<Rightarrow> nat \<Rightarrow> nat \<Rightarrow> (nat, bitstream_error) result" where
  "read_n r start width = read_n_loop r start width 0"

definition br_read :: "nat \<Rightarrow> nat reading" where
  "br_read width r = rbind (read_n r (br_pos r) width) (\<lambda>v. Ok (v, r\<lparr> br_pos := br_pos r + width \<rparr>))"

definition br_skip :: "nat \<Rightarrow> unit reading" where
  "br_skip width = rd_seq (br_read width) (rd_return ())"

text \<open>The leading zeros of an Exp-Golomb code, at most 31 of them.\<close>

function leading_zeros :: "nat \<Rightarrow> nat reading" where
  "leading_zeros leading r =
     rbind (read_bit r) (\<lambda>(b, r).
       if b then Ok (leading, r)
       else if leading + 1 > 31 then Err Limit
       else leading_zeros (leading + 1) r)"
  by pat_completeness auto
termination
  by (relation "measure (\<lambda>(leading, r). 32 - leading)") auto

declare leading_zeros.simps [simp del]

definition read_ue :: "nat reading" where
  "read_ue =
     rd_bind (leading_zeros 0) (\<lambda>leading.
       if leading = 0 then rd_return 0
       else rd_bind (br_read leading) (\<lambda>suffix. rd_return (2 ^ leading - 1 + suffix)))"

definition read_se :: "int reading" where
  "read_se =
     rd_bind read_ue (\<lambda>ue.
       rd_return (let half = int (ue div 2) in if even ue then - half else half + 1))"

definition push_bits :: "bool list \<Rightarrow> nat \<Rightarrow> nat \<Rightarrow> bool list" where
  "push_bits out v width = out @ map (bit v) (rev [0 ..< width])"

definition push_u8 :: "bool list \<Rightarrow> nat \<Rightarrow> bool list" where
  "push_u8 out v = push_bits out v 8"

definition write_u8 :: "bit_reader \<Rightarrow> nat \<Rightarrow> nat \<Rightarrow> (bit_reader, bitstream_error) result" where
  "write_u8 r start v =
     (if start + 8 > length (br_bits r) then Err Truncated
      else Ok (r\<lparr> br_bits := take start (br_bits r) @ push_u8 [] v @ drop (start + 8) (br_bits r) \<rparr>))"

text \<open>\<open>Iterator::rposition\<close>: the index of the last set bit.\<close>

fun last_set :: "bool list \<Rightarrow> nat option" where
  "last_set [] = None"
| "last_set (b # bs) = (case last_set bs of Some i \<Rightarrow> Some (Suc i) | None \<Rightarrow> if b then Some 0 else None)"

definition stop_bit :: "bit_reader \<Rightarrow> (nat, bitstream_error) result" where
  "stop_bit r = ok_or (last_set (br_bits r)) (Malformed ''missing RBSP trailing bit'')"

text \<open>Packing bits into bytes from the most significant end; the last byte is padded with zeros.\<close>

fun bits_byte :: "bool list \<Rightarrow> nat \<Rightarrow> u8" where
  "bits_byte [] n = 0"
| "bits_byte (b # bs) n = (if b then set_bit (7 - n) (bits_byte bs (n + 1)) else bits_byte bs (n + 1))"

function pack_bits :: "bool list \<Rightarrow> bytes" where
  "pack_bits bs = (if bs = [] then [] else bits_byte (take 8 bs) 0 # pack_bits (drop 8 bs))"
  by pat_completeness auto
termination
  by (relation "measure length") auto

declare pack_bits.simps [simp del]

text \<open>\<open>finish_from\<close> at a stop position, and its use with \<open>usize::MAX\<close> for the whole string.\<close>

definition finish_from :: "bit_reader \<Rightarrow> nat \<Rightarrow> (bytes, bitstream_error) result" where
  "finish_from r stop = rbind (br_prefix r stop) (\<lambda>bs. Ok (pack_bits (bs @ [True])))"

definition finish_all :: "bool list \<Rightarrow> bytes" where
  "finish_all bs = pack_bits (bs @ [True])"

section \<open>The walk to the VUI flag\<close>

definition skip_ue :: "unit reading" where
  "skip_ue = rd_seq read_ue (rd_return ())"

definition skip_se :: "unit reading" where
  "skip_se = rd_seq read_se (rd_return ())"

fun skip_se_cycle :: "nat \<Rightarrow> unit reading" where
  "skip_se_cycle 0 = rd_return ()"
| "skip_se_cycle (Suc n) = rd_seq skip_se (skip_se_cycle n)"

definition skip_chroma :: "unit reading" where
  "skip_chroma =
     rd_bind read_ue (\<lambda>chroma.
     if chroma \<noteq> 1 then rd_fail (Unsupported ''AVC requires 8-bit 4:2:0'')
     else rd_seq skip_ue (rd_seq skip_ue (rd_seq (br_skip 1) (rd_bind read_bit (\<lambda>scaling.
       if scaling then rd_fail (Unsupported ''AVC scaling matrix'') else rd_return ())))))"

definition skip_pic_order :: "unit reading" where
  "skip_pic_order =
     rd_bind read_ue (\<lambda>kind.
       if kind = 0 then skip_ue
       else if kind = 1 then
         rd_seq (br_skip 1) (rd_seq skip_se (rd_seq skip_se (rd_bind read_ue (\<lambda>cycle.
           if cycle > 255 then rd_fail Limit else skip_se_cycle cycle))))
       else if kind = 2 then rd_return ()
       else rd_fail (Unsupported ''AVC pic_order_cnt_type''))"

definition skip_cropping :: "unit reading" where
  "skip_cropping =
     rd_bind read_bit (\<lambda>crop.
       if crop then rd_seq skip_ue (rd_seq skip_ue (rd_seq skip_ue skip_ue)) else rd_return ())"

definition br_tell :: "nat reading" where
  "br_tell r = Ok (br_pos r, r)"

definition skip_sps_to_vui_flag :: "nat reading" where
  "skip_sps_to_vui_flag =
     rd_bind (br_read 8) (\<lambda>profile.
     rd_seq (br_skip 16) (rd_seq skip_ue
     (rd_seq (if profile \<in> {100, 110, 122, 244, 44, 83, 86} then skip_chroma else rd_return ())
     (rd_seq skip_ue (rd_seq skip_pic_order (rd_seq skip_ue (rd_seq (br_skip 1)
     (rd_seq skip_ue (rd_seq skip_ue (rd_bind read_bit (\<lambda>frame_mbs_only.
       if \<not> frame_mbs_only then rd_fail (Unsupported ''interlaced AVC'')
       else rd_seq (br_skip 1) (rd_seq skip_cropping br_tell))))))))))))"

section \<open>Rewriting the VUI\<close>

definition skip_aspect_ratio :: "bit_reader \<Rightarrow> nat \<Rightarrow> (nat, bitstream_error) result" where
  "skip_aspect_ratio r cursor =
     rbind (read_at r cursor) (\<lambda>present.
       if present then
         rbind (read_n r (cursor + 1) 8) (\<lambda>idc.
           Ok (if idc = 255 then cursor + 9 + 32 else cursor + 9))
       else Ok (cursor + 1))"

definition skip_overscan :: "bit_reader \<Rightarrow> nat \<Rightarrow> (nat, bitstream_error) result" where
  "skip_overscan r cursor =
     rbind (read_at r cursor) (\<lambda>present. Ok (if present then cursor + 2 else cursor + 1))"

definition push_video_signal :: "bool list \<Rightarrow> bool list" where
  "push_video_signal out =
     push_u8 (push_u8 (push_u8 (push_bits out 5 3 @ [False, True]) 1) 1) 1"

text \<open>\<open>bits.bits[from..bits.stop_bit()?]\<close>.\<close>

definition tail_to_stop :: "bit_reader \<Rightarrow> nat \<Rightarrow> (bool list, bitstream_error) result" where
  "tail_to_stop r from =
     rbind (stop_bit r) (\<lambda>stop.
       if from \<le> stop then Ok (take (stop - from) (drop from (br_bits r))) else Panic)"

definition insert_minimal_vui :: "bit_reader \<Rightarrow> nat \<Rightarrow> (bytes, bitstream_error) result" where
  "insert_minimal_vui r vui_flag =
     rbind (br_prefix r vui_flag) (\<lambda>out.
       Ok (finish_all (push_video_signal (out @ [True, False, False, True]) @
             [False, False, False, False, False, False])))"

text \<open>The description of the colour, present at \<open>cursor\<close> or to be inserted there.\<close>

definition rewrite_description :: "bit_reader \<Rightarrow> nat \<Rightarrow> (bytes, bitstream_error) result" where
  "rewrite_description r cursor =
     rbind (read_at r cursor) (\<lambda>described.
     if described then
       rbind (write_u8 r (cursor + 1) 1) (\<lambda>patched.
       rbind (write_u8 patched (cursor + 1 + 8) 1) (\<lambda>patched.
       rbind (write_u8 patched (cursor + 1 + 16) 1) (\<lambda>patched.
       rbind (stop_bit patched) (finish_from patched))))
     else
       rbind (br_prefix r cursor) (\<lambda>out.
       rbind (tail_to_stop r (cursor + 1)) (\<lambda>rest.
         Ok (finish_all (push_u8 (push_u8 (push_u8 (out @ [True]) 1) 1) 1 @ rest)))))"

definition rewrite_signal :: "bit_reader \<Rightarrow> nat \<Rightarrow> (bytes, bitstream_error) result" where
  "rewrite_signal r video_signal_flag =
     rbind (read_at r video_signal_flag) (\<lambda>video_signal.
     if video_signal then
       rbind (read_at r (video_signal_flag + 1 + 3)) (\<lambda>full_range.
       if full_range then Err (Unsupported ''full-range AVC source'')
       else rewrite_description r (video_signal_flag + 1 + 3 + 1))
     else
       rbind (br_prefix r video_signal_flag) (\<lambda>out.
       rbind (tail_to_stop r (video_signal_flag + 1)) (\<lambda>rest.
         Ok (finish_all (push_video_signal (out @ [True]) @ rest)))))"

definition rewrite_existing_vui :: "bit_reader \<Rightarrow> nat \<Rightarrow> (bytes, bitstream_error) result" where
  "rewrite_existing_vui r vui_flag =
     rbind (skip_aspect_ratio r (vui_flag + 1)) (\<lambda>cursor.
     rbind (skip_overscan r cursor) (rewrite_signal r))"

section \<open>Escaping\<close>

text \<open>The loop of \<open>encode_nal\<close>; its counter is reset before it could pass 2.\<close>

fun escape_loop :: "nat \<Rightarrow> bytes \<Rightarrow> bytes" where
  "escape_loop zeros [] = []"
| "escape_loop zeros (b # bs) =
     (if 2 \<le> zeros \<and> b \<le> 3 then 3 # b # escape_loop (if b = 0 then 1 else 0) bs
      else b # escape_loop (if b = 0 then zeros + 1 else 0) bs)"

definition encode_nal :: "u8 \<Rightarrow> bytes \<Rightarrow> bytes" where
  "encode_nal header rbsp = header # escape_loop 0 rbsp"


section \<open>Reading depends on what was read\<close>

text \<open>
  A reading method looks only at the bits before the position it stops at, so it does the same on
  every bit string with that prefix.
\<close>

definition prefix_only :: "'a reading \<Rightarrow> bool" where
  "prefix_only m \<longleftrightarrow> (\<forall>r x r'. m r = Ok (x, r') \<longrightarrow>
     br_bits r' = br_bits r \<and> br_pos r \<le> br_pos r' \<and>
     (br_pos r \<le> length (br_bits r) \<longrightarrow> br_pos r' \<le> length (br_bits r)) \<and>
     (\<forall>bs. br_pos r' \<le> length bs \<and> take (br_pos r') bs = take (br_pos r') (br_bits r) \<longrightarrow>
        m (r\<lparr> br_bits := bs \<rparr>) = Ok (x, r'\<lparr> br_bits := bs \<rparr>)))"

named_theorems reading_intros \<open>methods that read a prefix\<close>

lemma prefix_onlyD:
  assumes "prefix_only m" "m r = Ok (x, r')"
  shows "br_bits r' = br_bits r" "br_pos r \<le> br_pos r'"
    "br_pos r \<le> length (br_bits r) \<Longrightarrow> br_pos r' \<le> length (br_bits r)"
    "br_pos r' \<le> length bs \<Longrightarrow> take (br_pos r') bs = take (br_pos r') (br_bits r) \<Longrightarrow>
       m (r\<lparr> br_bits := bs \<rparr>) = Ok (x, r'\<lparr> br_bits := bs \<rparr>)"
  using assms unfolding prefix_only_def by blast+

lemma prefix_only_return [reading_intros]: "prefix_only (rd_return x)"
  by (auto simp: prefix_only_def rd_return_def)

lemma prefix_only_fail [reading_intros]: "prefix_only (rd_fail e)"
  by (auto simp: prefix_only_def rd_fail_def)

lemma prefix_only_tell [reading_intros]: "prefix_only br_tell"
  by (auto simp: prefix_only_def br_tell_def)

lemma prefix_only_if [reading_intros]:
  "(c \<Longrightarrow> prefix_only m) \<Longrightarrow> (\<not> c \<Longrightarrow> prefix_only k) \<Longrightarrow> prefix_only (if c then m else k)"
  by simp

lemma take_shorter: "n \<le> m \<Longrightarrow> take m xs = take m ys \<Longrightarrow> take n xs = take n ys"
  by (metis min.absorb1 take_take)

lemma prefix_only_bind [reading_intros]:
  assumes m: "prefix_only m" and k: "\<And>x. prefix_only (k x)"
  shows "prefix_only (rd_bind m k)"
  unfolding prefix_only_def
proof (intro allI impI)
  fix r y r2
  assume "rd_bind m k r = Ok (y, r2)"
  then obtain x r1 where 1: "m r = Ok (x, r1)" and 2: "k x r1 = Ok (y, r2)"
    by (auto simp: rd_bind_def rbind_Ok_iff)
  note A = prefix_onlyD [OF m 1] and B = prefix_onlyD [OF k 2]
  show "br_bits r2 = br_bits r \<and> br_pos r \<le> br_pos r2 \<and>
      (br_pos r \<le> length (br_bits r) \<longrightarrow> br_pos r2 \<le> length (br_bits r)) \<and>
      (\<forall>bs. br_pos r2 \<le> length bs \<and> take (br_pos r2) bs = take (br_pos r2) (br_bits r) \<longrightarrow>
        rd_bind m k (r\<lparr> br_bits := bs \<rparr>) = Ok (y, r2\<lparr> br_bits := bs \<rparr>))"
  proof (intro conjI impI allI; (elim conjE)?)
    fix bs
    assume bs: "br_pos r2 \<le> length bs" "take (br_pos r2) bs = take (br_pos r2) (br_bits r)"
    have "m (r\<lparr> br_bits := bs \<rparr>) = Ok (x, r1\<lparr> br_bits := bs \<rparr>)"
      using A(4) [of bs] B(2) bs take_shorter [of "br_pos r1" "br_pos r2"] by auto
    moreover have "k x (r1\<lparr> br_bits := bs \<rparr>) = Ok (y, r2\<lparr> br_bits := bs \<rparr>)"
      using B(4) [of bs] A(1) bs by simp
    ultimately show "rd_bind m k (r\<lparr> br_bits := bs \<rparr>) = Ok (y, r2\<lparr> br_bits := bs \<rparr>)"
      by (simp add: rd_bind_def)
  qed (use A B in auto)
qed

lemma prefix_only_seq [reading_intros]: "prefix_only m \<Longrightarrow> prefix_only k \<Longrightarrow> prefix_only (rd_seq m k)"
  by (simp add: rd_seq_def prefix_only_bind)

lemma nth_of_take: "i < n \<Longrightarrow> take n xs = take n ys \<Longrightarrow> xs ! i = ys ! i"
  by (metis nth_take)

lemma prefix_only_bit [reading_intros]: "prefix_only read_bit"
  unfolding prefix_only_def
  by (auto simp: read_bit_def read_at_def rbind_Ok_iff split: if_splits dest: nth_of_take [OF lessI])

lemma read_n_loop_bound: "read_n_loop r start width v = Ok x \<Longrightarrow> width = 0 \<or> start + width \<le> length (br_bits r)"
  by (induction width arbitrary: start v) (fastforce simp: rbind_Ok_iff read_at_def split: if_splits)+

lemma read_n_loop_prefix:
  "read_n_loop r start width v = Ok x \<Longrightarrow> start + width \<le> length bs \<Longrightarrow>
     take (start + width) bs = take (start + width) (br_bits r) \<Longrightarrow>
     read_n_loop (r'\<lparr> br_bits := bs \<rparr>) start width v = Ok x"
proof (induction width arbitrary: start v)
  case (Suc width)
  from Suc.prems(1) obtain b where b: "read_at r start = Ok b" "read_n_loop r (start + 1) width (2 * v + of_bool b) = Ok x"
    by (auto simp: rbind_Ok_iff)
  have "read_at (r'\<lparr> br_bits := bs \<rparr>) start = Ok b"
    using b(1) Suc.prems(2,3) nth_of_take [of start "start + Suc width" bs "br_bits r"]
    by (simp add: read_at_def split: if_splits)
  with Suc.IH [OF b(2)] Suc.prems show ?case by simp
qed simp

lemma prefix_only_read [reading_intros]: "prefix_only (br_read width)"
  unfolding prefix_only_def
proof (intro allI impI)
  fix r x r'
  assume "br_read width r = Ok (x, r')"
  then have x: "read_n r (br_pos r) width = Ok x" and r': "r' = r\<lparr> br_pos := br_pos r + width \<rparr>"
    by (auto simp: br_read_def rbind_Ok_iff)
  show "br_bits r' = br_bits r \<and> br_pos r \<le> br_pos r' \<and>
      (br_pos r \<le> length (br_bits r) \<longrightarrow> br_pos r' \<le> length (br_bits r)) \<and>
      (\<forall>bs. br_pos r' \<le> length bs \<and> take (br_pos r') bs = take (br_pos r') (br_bits r) \<longrightarrow>
        br_read width (r\<lparr> br_bits := bs \<rparr>) = Ok (x, r'\<lparr> br_bits := bs \<rparr>))"
    using read_n_loop_bound [OF x [unfolded read_n_def]] read_n_loop_prefix [OF x [unfolded read_n_def]]
    by (auto simp: r' br_read_def read_n_def)
qed

lemma prefix_only_skip [reading_intros]: "prefix_only (br_skip width)"
  by (simp add: br_skip_def reading_intros)

lemma leading_zeros_eq:
  "leading_zeros leading = rd_bind read_bit (\<lambda>b. if b then rd_return leading
     else if leading + 1 > 31 then rd_fail Limit else leading_zeros (leading + 1))"
  by (rule ext, subst leading_zeros.simps, unfold rd_bind_def, rule arg_cong [of _ _ "rbind _"])
    (auto simp: rd_return_def rd_fail_def)

lemma prefix_only_zeros [reading_intros]: "prefix_only (leading_zeros leading)"
proof (induction "32 - leading" arbitrary: leading rule: less_induct)
  case less
  have "leading + 1 \<le> 31 \<Longrightarrow> prefix_only (leading_zeros (leading + 1))" by (rule less) simp
  then show ?case by (subst leading_zeros_eq) (auto intro!: reading_intros)
qed

lemma prefix_only_codes [reading_intros]:
  "prefix_only read_ue" "prefix_only read_se" "prefix_only skip_ue" "prefix_only skip_se"
proof -
  show ue: "prefix_only read_ue" unfolding read_ue_def by (intro reading_intros)
  show se: "prefix_only read_se" unfolding read_se_def by (intro reading_intros ue)
  show "prefix_only skip_ue" unfolding skip_ue_def by (intro reading_intros ue)
  show "prefix_only skip_se" unfolding skip_se_def by (intro reading_intros se)
qed

lemma prefix_only_cycle [reading_intros]: "prefix_only (skip_se_cycle n)"
  by (induction n) (auto intro!: reading_intros)

lemma prefix_only_sps: "prefix_only skip_sps_to_vui_flag"
  unfolding skip_sps_to_vui_flag_def skip_chroma_def skip_pic_order_def skip_cropping_def
  by (intro reading_intros)

text \<open>The walk returns the position it stops at.\<close>

definition tells :: "nat reading \<Rightarrow> bool" where
  "tells m \<longleftrightarrow> (\<forall>r x r'. m r = Ok (x, r') \<longrightarrow> x = br_pos r')"

lemma tells_bind: "(\<And>x. tells (k x)) \<Longrightarrow> tells (rd_bind m k)"
  by (auto simp: tells_def rd_bind_def rbind_Ok_iff)

lemma tells_sps: "tells skip_sps_to_vui_flag"
proof -
  have "tells br_tell" "\<And>e. tells (rd_fail e)"
    by (auto simp: tells_def br_tell_def rd_fail_def)
  moreover have "tells m \<Longrightarrow> tells k \<Longrightarrow> tells (if c then m else k)" for c m k by simp
  ultimately show ?thesis unfolding skip_sps_to_vui_flag_def rd_seq_def by (auto intro!: tells_bind)
qed

lemma sps_walk:
  assumes "skip_sps_to_vui_flag \<lparr> br_bits = bits, br_pos = 0 \<rparr> = Ok (flag, r')"
  shows "flag \<le> length bits"
    "flag \<le> length bs \<Longrightarrow> take flag bs = take flag bits \<Longrightarrow>
       skip_sps_to_vui_flag \<lparr> br_bits = bs, br_pos = 0 \<rparr> = Ok (flag, r'\<lparr> br_bits := bs \<rparr>)"
proof -
  have flag: "flag = br_pos r'" using tells_sps assms unfolding tells_def by blast
  note p = prefix_onlyD [OF prefix_only_sps assms, simplified]
  show "flag \<le> length bits" using p(3) by (simp add: flag)
  show "flag \<le> length bs \<Longrightarrow> take flag bs = take flag bits \<Longrightarrow>
      skip_sps_to_vui_flag \<lparr> br_bits = bs, br_pos = 0 \<rparr> = Ok (flag, r'\<lparr> br_bits := bs \<rparr>)"
    using p(4) [of bs] by (simp add: flag)
qed


section \<open>Packing and escaping\<close>

lemma bit_bits_byte:
  "n + length bs \<le> 8 \<Longrightarrow> k \<le> 7 \<Longrightarrow>
     bit (bits_byte bs n) k \<longleftrightarrow> n + k \<le> 7 \<and> 7 - k - n < length bs \<and> bs ! (7 - k - n)"
proof (induction bs arbitrary: n)
  case (Cons b bs)
  have IH: "bit (bits_byte bs (Suc n)) k \<longleftrightarrow> Suc n + k \<le> 7 \<and> 7 - k - Suc n < length bs \<and> bs ! (7 - k - Suc n)"
    using Cons by simp
  show ?case
  proof (cases "k = 7 - n")
    case True
    then show ?thesis using Cons.prems IH by (auto simp: bit_set_bit_iff)
  next
    case False
    then have bit: "bit (bits_byte (b # bs) n) k = bit (bits_byte bs (Suc n)) k"
      using Cons.prems by (auto simp: bit_set_bit_iff)
    show ?thesis
    proof (cases "n + k \<le> 6")
      case True
      then have "7 - k - n = Suc (7 - k - Suc n)" by simp
      with IH bit True show ?thesis by auto
    next
      case False
      with \<open>k \<noteq> 7 - n\<close> IH bit show ?thesis by auto
    qed
  qed
qed simp

lemma byte_bits_pack: "length bs \<le> 8 \<Longrightarrow> byte_bits (bits_byte bs 0) = bs @ replicate (8 - length bs) False"
  by (rule nth_equalityI)
    (auto simp: byte_bits_def bit_bits_byte nth_append nth_Cons' less_Suc_eq numeral_eq_Suc)


lemma unpack_pack:
  "\<exists>k. br_bits (from_rbsp (pack_bits bs)) = bs @ replicate k False \<and> k < 8"
proof (induction bs rule: pack_bits.induct)
  case (1 bs)
  show ?case
  proof (cases "length bs \<le> 8")
    case True
    show ?thesis
    proof (cases "bs = []")
      case True
      then show ?thesis by (simp add: pack_bits.simps from_rbsp_def)
    next
      case False
      with True have "pack_bits bs = [bits_byte bs 0]" by (subst pack_bits.simps) (simp add: pack_bits.simps)
      moreover have "8 - length bs < 8" using False by simp
      ultimately show ?thesis using True by (auto simp: from_rbsp_def byte_bits_pack)
    qed
  next
    case False
    then have p: "pack_bits bs = bits_byte (take 8 bs) 0 # pack_bits (drop 8 bs)"
      by (subst pack_bits.simps) auto
    from False have "bs \<noteq> []" by auto
    from 1 [OF this] obtain k where
      k: "br_bits (from_rbsp (pack_bits (drop 8 bs))) = drop 8 bs @ replicate k False" "k < 8" by blast
    have "byte_bits (bits_byte (take 8 bs) 0) = take 8 bs" using False by (simp add: byte_bits_pack)
    then have "br_bits (from_rbsp (pack_bits bs)) = take 8 bs @ drop 8 bs @ replicate k False"
      using k(1) by (simp add: p from_rbsp_def)
    with k(2) show ?thesis by (metis append.assoc append_take_drop_id)
  qed
qed

lemma pack_bits_last: "pack_bits (bs @ [True]) \<noteq> [] \<and> last (pack_bits (bs @ [True])) \<noteq> 0"
proof (induction "length bs" arbitrary: bs rule: less_induct)
  case less
  let ?x = "bs @ [True]"
  have p: "pack_bits ?x = bits_byte (take 8 ?x) 0 # pack_bits (drop 8 ?x)" by (subst pack_bits.simps) simp
  show ?case
  proof (cases "length bs < 8")
    case True
    then have e: "drop 8 ?x = []" "take 8 ?x = ?x" by simp_all
    have "bit (bits_byte ?x 0) (7 - length bs)"
      using True by (subst bit_bits_byte) (auto simp: nth_append)
    then have "bits_byte ?x 0 \<noteq> 0" by auto
    then show ?thesis unfolding p e by (simp add: pack_bits.simps)
  next
    case False
    then have d: "drop 8 ?x = drop 8 bs @ [True]" by simp
    have "length (drop 8 bs) < length bs" using False by simp
    from less [OF this] show ?thesis unfolding p d by simp
  qed
qed

text \<open>
  The standard's inverse of escaping: a byte 3 after two zero bytes is dropped.
\<close>

fun unescape_loop :: "nat \<Rightarrow> bytes \<Rightarrow> bytes" where
  "unescape_loop zeros [] = []"
| "unescape_loop zeros (b # bs) =
     (if 2 \<le> zeros \<and> b = 3 then unescape_loop 0 bs
      else b # unescape_loop (if b = 0 then zeros + 1 else 0) bs)"

lemma unescape_escape: "unescape_loop zeros (escape_loop zeros bs) = bs"
  by (induction bs arbitrary: zeros) auto

lemma find_001_nonzero: "a \<noteq> 0 \<Longrightarrow> find_001 (a # bs) = map_option Suc (find_001 bs)"
  by (cases bs; cases "tl bs") auto

lemma find_001_zero_then: "b \<noteq> 0 \<Longrightarrow> find_001 (0 # b # bs) = map_option Suc (find_001 (b # bs))"
  by (cases bs) auto

lemma find_001_zeros_then: "b \<noteq> 0 \<Longrightarrow> b \<noteq> 1 \<Longrightarrow> find_001 (0 # 0 # b # bs) = map_option (\<lambda>i. Suc (Suc i)) (find_001 (b # bs))"
  by (simp add: find_001_zero_then option.map_comp comp_def)

lemma escape_no_code: "zeros \<le> 2 \<Longrightarrow> find_001 (replicate zeros 0 @ escape_loop zeros bs) = None"
proof (induction bs arbitrary: zeros)
  case Nil
  then have "zeros = 0 \<or> zeros = 1 \<or> zeros = 2" by auto
  then show ?case by (auto simp: numeral_2_eq_2)
next
  case (Cons b bs)
  have z0: "find_001 (escape_loop 0 bs) = None" using Cons.IH [of 0] by simp
  have z1: "find_001 (0 # escape_loop 1 bs) = None" using Cons.IH [of 1] by simp
  have z2: "find_001 (0 # 0 # escape_loop 2 bs) = None" using Cons.IH [of 2] by (simp add: numeral_2_eq_2)
  from Cons.prems consider "zeros = 0" | "zeros = 1" | "zeros = 2" by linarith
  then show ?case
  proof cases
    case 1
    then show ?thesis using z0 z1 by (cases "b = 0") (simp_all add: find_001_nonzero)
  next
    case 2
    then show ?thesis using z0 z2 by (cases "b = 0") (simp_all add: find_001_zero_then find_001_nonzero numeral_2_eq_2)
  next
    case 3
    show ?thesis
    proof (cases "b \<le> 3")
      case True
      define z where "z = (if b = 0 then 1 else 0 :: nat)"
      have "find_001 (b # escape_loop z bs) = None"
        using z0 z1 by (cases "b = 0") (simp_all add: z_def find_001_nonzero)
      moreover have "(3 :: u8) \<noteq> 0" "(3 :: u8) \<noteq> 1" by simp_all
      ultimately have "find_001 (0 # 0 # 3 # b # escape_loop z bs) = None"
        by (simp add: find_001_zeros_then find_001_nonzero del: find_001.simps)
      with True 3 show ?thesis by (simp add: z_def numeral_2_eq_2)
    next
      case False
      then have "b \<noteq> 0" "b \<noteq> 1" by (auto simp: word_le_nat_alt)
      with False 3 z0 show ?thesis by (simp add: numeral_2_eq_2 find_001_zero_then find_001_nonzero)
    qed
  qed
qed

lemma escape_last: "bs \<noteq> [] \<Longrightarrow> last (escape_loop zeros bs) = last bs"
proof (induction bs arbitrary: zeros)
  case (Cons b bs)
  have "bs \<noteq> [] \<Longrightarrow> escape_loop z bs \<noteq> []" for z by (cases bs) auto
  with Cons show ?case by (cases "bs = []") auto
qed simp


section \<open>Properties\<close>

text \<open>A rewritten parameter set is a well-formed NAL unit. Whatever the payload bits, the escaped
  unit contains no start code and does not end in a zero byte, so it survives Annex-B framing next
  to any other unit, and a decoder that removes the escapes reads back exactly the payload.
\<close>

lemma escaped_nal_is_plain:
  assumes "header \<noteq> 0"
  shows "nal_plain (encode_nal header (finish_all bits)) \<and>
         unescape_loop 0 (tl (encode_nal header (finish_all bits))) = finish_all bits"
proof -
  have "find_001 (escape_loop 0 (finish_all bits)) = None"
    using escape_no_code [of 0 "finish_all bits"] by simp
  moreover have "finish_all bits \<noteq> []" "last (finish_all bits) \<noteq> 0"
    using pack_bits_last [of bits] by (simp_all add: finish_all_def)
  moreover from this have "last (header # escape_loop 0 (finish_all bits)) \<noteq> 0"
    using assms escape_last [of "finish_all bits" 0] by simp
  ultimately show ?thesis
    using assms by (simp add: encode_nal_def nal_plain_def find_001_nonzero unescape_escape)
qed

text \<open>
  The colour as the standard lays it out: after the VUI flag the aspect ratio, the overscan, the
  video signal flag, three format bits, the range flag, the description flag and three code points.
\<close>

definition vui_colour :: "bit_reader \<Rightarrow> nat \<Rightarrow> (bool \<times> nat \<times> nat \<times> nat, bitstream_error) result" where
  "vui_colour r flag =
     rbind (read_at r flag) (\<lambda>vui. if \<not> vui then Err Truncated else
     rbind (skip_aspect_ratio r (flag + 1)) (\<lambda>c. rbind (skip_overscan r c) (\<lambda>c.
     rbind (read_at r c) (\<lambda>signal. if \<not> signal then Err Truncated else
     rbind (read_at r (c + 4)) (\<lambda>full. rbind (read_at r (c + 5)) (\<lambda>described.
     if \<not> described then Err Truncated else
     rbind (read_n r (c + 6) 8) (\<lambda>p. rbind (read_n r (c + 14) 8) (\<lambda>t. rbind (read_n r (c + 22) 8) (\<lambda>m.
       Ok (full, p, t, m))))))))))"


definition rewrite_vui :: "bit_reader \<Rightarrow> nat \<Rightarrow> (bytes, bitstream_error) result" where
  "rewrite_vui r flag =
     rbind (read_at r flag) (\<lambda>vui. if vui then rewrite_existing_vui r flag else insert_minimal_vui r flag)"

definition one_u8 :: "bool list" where
  "one_u8 = [False, False, False, False, False, False, False, True]"

lemma push_one: "push_u8 out 1 = out @ one_u8" "push_u8 out (Suc 0) = out @ one_u8"
  by (simp_all add: push_u8_def push_bits_def one_u8_def upt_rec bit_0)

lemma push_signal: "push_video_signal out =
    out @ [True, False, True] @ [False, True] @ one_u8 @ one_u8 @ one_u8"
proof -
  have "push_bits out 5 3 = out @ [True, False, True]"
    by (simp add: push_bits_def upt_rec bit_0)
  then show ?thesis by (simp add: push_video_signal_def push_one)
qed

lemma length_one_u8 [simp]: "length one_u8 = 8"
  by (simp add: one_u8_def)

lemma read_n_loop_at:
  "br_bits r = P @ bs @ rest \<Longrightarrow> length P = start \<Longrightarrow>
     read_n_loop r start (length bs) v = Ok (foldl (\<lambda>v b. 2 * v + of_bool b) v bs)"
proof (induction bs arbitrary: P start v)
  case (Cons b bs)
  have "read_at r start = Ok b" using Cons.prems by (simp add: read_at_def nth_append)
  moreover have "read_n_loop r (start + 1) (length bs) (2 * v + of_bool b) =
      Ok (foldl (\<lambda>v b. 2 * v + of_bool b) (2 * v + of_bool b) bs)"
    using Cons.prems by (intro Cons.IH [of "P @ [b]"]) simp_all
  ultimately show ?case by simp
qed simp

lemma read_one: "br_bits r = P @ one_u8 @ rest \<Longrightarrow> length P = start \<Longrightarrow> read_n r start 8 = Ok 1"
  using read_n_loop_at [of r P one_u8 rest start 0] by (simp add: read_n_def) (simp add: one_u8_def)

lemma vui_colour_at:
  assumes "read_at r flag = Ok True" "skip_aspect_ratio r (flag + 1) = Ok c1" "skip_overscan r c1 = Ok c"
    and "read_at r c = Ok True"
    and bits: "br_bits r = P @ [False, True] @ one_u8 @ one_u8 @ one_u8 @ rest" and c: "length P = c + 4"
  shows "vui_colour r flag = Ok (False, 1, 1, 1)"
proof -
  have "read_at r (c + 4) = Ok False" "read_at r (c + 5) = Ok True"
    using bits c by (simp_all add: read_at_def nth_append)
  moreover have "read_n r (c + 6) 8 = Ok 1"
    using bits c by (intro read_one [of _ "P @ [False, True]" "one_u8 @ one_u8 @ rest"]) simp_all
  moreover have "read_n r (c + 14) 8 = Ok 1"
    using bits c by (intro read_one [of _ "P @ [False, True] @ one_u8" "one_u8 @ rest"]) simp_all
  moreover have "read_n r (c + 22) 8 = Ok 1"
    using bits c by (intro read_one [of _ "P @ [False, True] @ one_u8 @ one_u8" "rest"]) simp_all
  ultimately show ?thesis using assms(1-4) by (simp add: vui_colour_def)
qed

lemma read_at_prefix:
  "read_at r i = Ok b \<Longrightarrow> i < n \<Longrightarrow> n \<le> length (br_bits s) \<Longrightarrow>
     take n (br_bits s) = take n (br_bits r) \<Longrightarrow> read_at s i = Ok b"
  using nth_of_take [of i n "br_bits s" "br_bits r"] by (auto simp: read_at_def split: if_splits)

lemma aspect_prefix:
  assumes "skip_aspect_ratio r c = Ok c'"
  shows "c < c'" and "c' \<le> length (br_bits s) \<Longrightarrow> take c' (br_bits s) = take c' (br_bits r) \<Longrightarrow>
    skip_aspect_ratio s c = Ok c'"
proof -
  show less: "c < c'" using assms by (auto simp: skip_aspect_ratio_def rbind_Ok_iff split: if_splits)
  assume s: "c' \<le> length (br_bits s)" "take c' (br_bits s) = take c' (br_bits r)"
  from assms obtain present where present: "read_at r c = Ok present" by (auto simp: skip_aspect_ratio_def rbind_Ok_iff)
  have p: "read_at s c = Ok present" by (rule read_at_prefix [OF present less s])
  show "skip_aspect_ratio s c = Ok c'"
  proof (cases present)
    case False
    with assms present p show ?thesis by (simp add: skip_aspect_ratio_def)
  next
    case True
    with assms present obtain idc where idc: "read_n r (c + 1) 8 = Ok idc"
      and c': "c' = (if idc = 255 then c + 9 + 32 else c + 9)"
      by (auto simp: skip_aspect_ratio_def rbind_Ok_iff)
    have le: "c + 9 \<le> c'" by (simp add: c')
    have "read_n_loop s (c + 1) 8 0 = Ok idc"
      using read_n_loop_prefix [of r "c + 1" 8 0 idc "br_bits s" s] idc s(1) le take_shorter [OF le s(2)]
      by (simp add: read_n_def add.commute)
    with True p c' show ?thesis by (simp add: skip_aspect_ratio_def read_n_def)
  qed
qed

lemma overscan_prefix:
  assumes "skip_overscan r c = Ok c'"
  shows "c < c'" and "c' \<le> length (br_bits s) \<Longrightarrow> take c' (br_bits s) = take c' (br_bits r) \<Longrightarrow>
    skip_overscan s c = Ok c'"
proof -
  show less: "c < c'" using assms by (auto simp: skip_overscan_def rbind_Ok_iff split: if_splits)
  assume s: "c' \<le> length (br_bits s)" "take c' (br_bits s) = take c' (br_bits r)"
  from assms obtain present where present: "read_at r c = Ok present" by (auto simp: skip_overscan_def rbind_Ok_iff)
  have "read_at s c = Ok present" by (rule read_at_prefix [OF present less s])
  with assms present show "skip_overscan s c = Ok c'" by (simp add: skip_overscan_def)
qed


lemma last_set_at: "last_set bs = Some i \<Longrightarrow> i < length bs \<and> bs ! i"
  by (induction bs arbitrary: i) (auto split: option.splits if_splits)

lemma last_set_ge: "i < length bs \<Longrightarrow> bs ! i \<Longrightarrow> \<exists>j. last_set bs = Some j \<and> i \<le> j"
proof (induction bs arbitrary: i)
  case (Cons b bs)
  then show ?case by (cases i) (force split: option.splits)+
qed simp

lemma patch_code_points:
  assumes "write_u8 r s 1 = Ok r1" "write_u8 r1 (s + 8) 1 = Ok r2" "write_u8 r2 (s + 16) 1 = Ok r3"
  shows "s + 24 \<le> length (br_bits r) \<and>
    br_bits r3 = take s (br_bits r) @ one_u8 @ one_u8 @ one_u8 @ drop (s + 24) (br_bits r)"
proof -
  have one: "push_u8 [] 1 = one_u8" "push_u8 [] (Suc 0) = one_u8" by (simp_all add: push_one)
  from assms(1) have 1: "s + 8 \<le> length (br_bits r)"
    "br_bits r1 = take s (br_bits r) @ one_u8 @ drop (s + 8) (br_bits r)"
    by (auto simp: write_u8_def one split: if_splits)
  from assms(2) have 2: "s + 16 \<le> length (br_bits r)"
    "br_bits r2 = take s (br_bits r) @ one_u8 @ one_u8 @ drop (s + 16) (br_bits r)"
    using 1 by (auto simp: write_u8_def one add.commute split: if_splits)
  from assms(3) show ?thesis
    using 2 by (auto simp: write_u8_def one add.commute split: if_splits)
qed

text \<open>Where the colour sits in the rewritten bits, in each of the four cases.\<close>

lemma minimal_bits:
  assumes "insert_minimal_vui r flag = Ok out"
  shows "\<exists>rest. flag \<le> length (br_bits r) \<and> br_bits (from_rbsp out) =
    (take flag (br_bits r) @ [True, False, False, True, True, False, True]) @
      [False, True] @ one_u8 @ one_u8 @ one_u8 @ rest"
proof -
  from assms have "flag \<le> length (br_bits r)" and out: "out = finish_all (push_video_signal
      (take flag (br_bits r) @ [True, False, False, True]) @ [False, False, False, False, False, False])"
    by (auto simp: insert_minimal_vui_def br_prefix_def rbind_Ok_iff split: if_splits)
  moreover obtain k where "br_bits (from_rbsp out) = (push_video_signal
      (take flag (br_bits r) @ [True, False, False, True]) @ [False, False, False, False, False, False] @ [True]) @ replicate k False"
    unfolding out finish_all_def using unpack_pack by (metis append.assoc)
  ultimately show ?thesis by (simp add: push_signal)
qed

lemma described_bits:
  assumes "rewrite_description r c = Ok out" and "\<not> br_bits r ! (c - 1)" "0 < c"
  shows "\<exists>rest. c < length (br_bits r) \<and>
    br_bits (from_rbsp out) = take (c - 1) (br_bits r) @ [False, True] @ one_u8 @ one_u8 @ one_u8 @ rest"
proof -
  let ?L = "br_bits r"
  from assms(1) obtain described where described: "read_at r c = Ok described"
    by (auto simp: rewrite_description_def rbind_Ok_iff)
  have c: "c < length ?L" "?L ! c = described" using described by (auto simp: read_at_def split: if_splits)
  have five: "take c ?L = take (c - 1) ?L @ [False]"
    using c assms(2,3) take_Suc_conv_app_nth [of "c - 1" ?L] by simp
  show ?thesis
  proof (cases described)
    case False
    with assms(1) described c obtain rest where
      out: "out = finish_all (push_u8 (push_u8 (push_u8 (take c ?L @ [True]) 1) 1) 1 @ rest)"
      by (auto simp: rewrite_description_def br_prefix_def rbind_Ok_iff)
    obtain k where "br_bits (from_rbsp out) =
        (push_u8 (push_u8 (push_u8 (take c ?L @ [True]) 1) 1) 1 @ rest @ [True]) @ replicate k False"
      unfolding out finish_all_def using unpack_pack by (metis append.assoc)
    with c show ?thesis by (simp add: push_one five)
  next
    case True
    with assms(1) described obtain r1 r2 r3 stop where
      "write_u8 r (c + 1) 1 = Ok r1" "write_u8 r1 (c + 1 + 8) 1 = Ok r2" "write_u8 r2 (c + 1 + 16) 1 = Ok r3"
      and stop: "stop_bit r3 = Ok stop" and out: "finish_from r3 stop = Ok out"
      by (auto simp: rewrite_description_def rbind_Ok_iff)
    from patch_code_points [OF this(1-3)] have l24: "c + 25 \<le> length ?L"
      and b3: "br_bits r3 = take (c + 1) ?L @ one_u8 @ one_u8 @ one_u8 @ drop (c + 25) ?L"
      by (simp_all add: add.commute)
    have six: "take (Suc c) ?L = take (c - 1) ?L @ [False, True]"
      using c five True by (simp add: take_Suc_conv_app_nth)
    have "br_bits r3 ! (c + 24)" "c + 24 < length (br_bits r3)"
      using l24 by (simp_all add: b3 nth_append one_u8_def)
    with stop have stop': "c + 24 \<le> stop" "stop < length (br_bits r3)" "br_bits r3 ! stop"
      using last_set_ge [of "c + 24" "br_bits r3"] last_set_at [of "br_bits r3" stop]
      by (auto simp: stop_bit_def ok_or_Ok_iff)
    have "take stop (br_bits r3) @ [True] = take (stop + 1) (br_bits r3)"
      using stop' by (simp add: take_Suc_conv_app_nth)
    also have "\<dots> = take (c + 1) ?L @ one_u8 @ one_u8 @ one_u8 @ take (stop - (c + 24)) (drop (c + 25) ?L)"
      using stop'(1) l24 by (simp add: b3 add.commute)
    finally have cut: "take stop (br_bits r3) @ [True] = \<dots>" .
    from out stop' have "out = pack_bits (take stop (br_bits r3) @ [True])"
      by (simp add: finish_from_def br_prefix_def)
    then obtain k where "br_bits (from_rbsp out) = (take stop (br_bits r3) @ [True]) @ replicate k False"
      using unpack_pack by metis
    with c show ?thesis by (simp add: cut six)
  qed
qed

lemma signal_bits:
  assumes "rewrite_signal r v = Ok out"
  shows "\<exists>P rest. v \<le> length (br_bits r) \<and> length P = v + 4 \<and> take v P = take v (br_bits r) \<and> P ! v \<and>
    br_bits (from_rbsp out) = P @ [False, True] @ one_u8 @ one_u8 @ one_u8 @ rest"
proof -
  let ?L = "br_bits r"
  from assms obtain signal where signal: "read_at r v = Ok signal"
    by (auto simp: rewrite_signal_def rbind_Ok_iff)
  have v: "v < length ?L" "?L ! v = signal" using signal by (auto simp: read_at_def split: if_splits)
  show ?thesis
  proof (cases signal)
    case False
    with assms signal v obtain rest where out: "out = finish_all (push_video_signal (take v ?L @ [True]) @ rest)"
      by (auto simp: rewrite_signal_def br_prefix_def rbind_Ok_iff)
    obtain k where "br_bits (from_rbsp out) =
        (push_video_signal (take v ?L @ [True]) @ rest @ [True]) @ replicate k False"
      unfolding out finish_all_def using unpack_pack by (metis append.assoc)
    moreover define P where "P = take v ?L @ [True, True, False, True]"
    moreover have "length P = v + 4" "take v P = take v ?L" "P ! v" using v by (simp_all add: P_def nth_append)
    ultimately show ?thesis
      using v by (intro exI [of _ P] exI [of _ "rest @ [True] @ replicate k False"]) (simp add: push_signal)
  next
    case True
    with assms signal have "read_at r (v + 4) = Ok False" and d: "rewrite_description r (v + 5) = Ok out"
      by (auto simp: rewrite_signal_def rbind_Ok_iff eval_nat_numeral split: if_splits)
    then have "\<not> ?L ! (v + 5 - 1)" by (auto simp: read_at_def add.commute split: if_splits)
    from described_bits [OF d this] obtain rest where "v + 5 < length ?L"
      "br_bits (from_rbsp out) = take (v + 4) ?L @ [False, True] @ one_u8 @ one_u8 @ one_u8 @ rest"
      by (auto simp: add.commute)
    with v True show ?thesis by (intro exI [of _ "take (v + 4) ?L"] exI [of _ rest]) (simp add: min_def)
  qed
qed


text \<open>C35: The rewritten parameter set declares BT.709 limited range. In every case, colour missing,
  undescribed or described as unspecified, walking the new payload finds the VUI flag at the same
  position as before (what precedes it is unchanged), and reading the video signal there yields
  limited range and code points 1, 1, 1.
\<close>

theorem rewritten_vui_reads_bt709:
  assumes walk: "skip_sps_to_vui_flag (from_rbsp rbsp) = Ok (flag, r')"
    and out: "rewrite_vui (from_rbsp rbsp) flag = Ok out"
  shows "take flag (br_bits (from_rbsp out)) = take flag (br_bits (from_rbsp rbsp)) \<and>
    (\<exists>r''. skip_sps_to_vui_flag (from_rbsp out) = Ok (flag, r'')) \<and>
    vui_colour (from_rbsp out) flag = Ok (False, 1, 1, 1)"
proof -
  let ?r = "from_rbsp rbsp" and ?o = "from_rbsp out"
  have readers: "?r = \<lparr> br_bits = br_bits ?r, br_pos = 0 \<rparr>" "?o = \<lparr> br_bits = br_bits ?o, br_pos = 0 \<rparr>"
    by (simp_all add: from_rbsp_def)
  have "take flag (br_bits ?o) = take flag (br_bits ?r) \<and> flag \<le> length (br_bits ?o) \<and>
      vui_colour ?o flag = Ok (False, 1, 1, 1)"
  proof (cases "read_at ?r flag = Ok True")
    case True
    with out obtain c1 v where c1: "skip_aspect_ratio ?r (flag + 1) = Ok c1" and v: "skip_overscan ?r c1 = Ok v"
      and s: "rewrite_signal ?r v = Ok out"
      by (auto simp: rewrite_vui_def rewrite_existing_vui_def rbind_Ok_iff)
    from signal_bits [OF s] obtain P rest where P: "v \<le> length (br_bits ?r)" "length P = v + 4"
      "take v P = take v (br_bits ?r)" "P ! v"
      and bits: "br_bits ?o = P @ [False, True] @ one_u8 @ one_u8 @ one_u8 @ rest" by blast
    have len: "v + 4 \<le> length (br_bits ?o)" and tv: "take v (br_bits ?o) = take v (br_bits ?r)"
      using P by (simp_all add: bits)
    have less: "flag + 1 < c1" "c1 < v" using aspect_prefix(1) [OF c1] overscan_prefix(1) [OF v] .
    have "read_at ?o flag = Ok True" by (rule read_at_prefix [OF True]) (use less len tv in auto)
    moreover have "skip_aspect_ratio ?o (flag + 1) = Ok c1"
      using aspect_prefix(2) [OF c1, of ?o] less len take_shorter [OF less_imp_le [OF less(2)] tv] by simp
    moreover have "skip_overscan ?o c1 = Ok v" using overscan_prefix(2) [OF v, of ?o] len tv by simp
    moreover have "read_at ?o v = Ok True" using len P(2,4) by (simp add: read_at_def bits nth_append)
    ultimately have "vui_colour ?o flag = Ok (False, 1, 1, 1)" by (rule vui_colour_at [OF _ _ _ _ bits P(2)])
    moreover have "flag \<le> v" using less by simp
    ultimately show ?thesis using take_shorter [OF _ tv] len by simp
  next
    case False
    with out have "insert_minimal_vui ?r flag = Ok out" by (auto simp: rewrite_vui_def rbind_Ok_iff split: if_splits)
    from minimal_bits [OF this] obtain rest where f: "flag \<le> length (br_bits ?r)"
      and bits: "br_bits ?o = (take flag (br_bits ?r) @ [True, False, False, True, True, False, True]) @
        [False, True] @ one_u8 @ one_u8 @ one_u8 @ rest" by blast
    have "vui_colour ?o flag = Ok (False, 1, 1, 1)"
    proof (rule vui_colour_at [OF _ _ _ _ bits])
      show "skip_aspect_ratio ?o (flag + 1) = Ok (flag + 2)"
        using f by (simp add: skip_aspect_ratio_def read_at_def bits nth_append)
      show "skip_overscan ?o (flag + 2) = Ok (flag + 3)"
        using f by (simp add: skip_overscan_def read_at_def bits nth_append)
    qed (use f in \<open>simp_all add: read_at_def bits nth_append\<close>)
    then show ?thesis using f by (simp add: bits)
  qed
  moreover from this have "skip_sps_to_vui_flag ?o = Ok (flag, r'\<lparr> br_bits := br_bits ?o \<rparr>)"
    using sps_walk(2) [of "br_bits ?r" flag r' "br_bits ?o"] walk readers by metis
  ultimately show ?thesis by blast
qed


definition sample_rbsp :: bytes where
  "sample_rbsp = [0x4D, 0, 31, 0xDD, 0xC4]"

definition sample_rewritten :: bytes where
  "sample_rewritten = [77, 0, 31, 221, 201, 168, 8, 8, 8, 16]"

theorem rewritten_vui_reads_bt709_witness:
  "take 36 (br_bits (from_rbsp sample_rewritten)) = take 36 (br_bits (from_rbsp sample_rbsp)) \<and>
   (\<exists>r''. skip_sps_to_vui_flag (from_rbsp sample_rewritten) = Ok (36, r'')) \<and>
   vui_colour (from_rbsp sample_rewritten) 36 = Ok (False, 1, 1, 1)"
proof (rule rewritten_vui_reads_bt709)
  show "skip_sps_to_vui_flag (from_rbsp sample_rbsp) = Ok (36, from_rbsp sample_rbsp\<lparr> br_pos := 36 \<rparr>)"
    by code_simp
  show "rewrite_vui (from_rbsp sample_rbsp) 36 = Ok sample_rewritten" by code_simp
qed

end
