(* ===== verification/Codec_Configuration.thy ===== *)
theory Codec_Configuration
  imports Avc_Vui
begin

text \<open>
  Codec configurations and the facts of their parameter sets: \<open>crates/picoo-bitstream/src/\<close>
  \<open>configuration.rs\<close>, \<open>avc_facts.rs\<close>, \<open>hevc_facts.rs\<close>, \<open>sps_facts.rs\<close>, and the function
  \<open>ensure_bt709_limited\<close> of \<open>avc_vui.rs\<close>.

  The syntax of records and parameter sets is parsed by the crates \<open>h264-reader\<close> and \<open>scuffle\<close>,
  which are not under \<open>src/\<close>. Their entry points are the fields of \<open>syntax_env\<close>, an argument of
  every definition that reaches them; the records they return hold the fields this code reads. A
  parser that works on a cursor returns the position it stopped at as well.
\<close>

section \<open>What the parsers return\<close>

datatype avc_aspect = AspectReserved nat | AspectKnown "(nat \<times> nat) option"

record avc_vui =
  av_aspect :: "avc_aspect option"
  av_chroma_loc :: "(nat \<times> nat) option"
  av_signal :: "(bool \<times> (nat \<times> nat \<times> nat) option) option"

record avc_sps =
  as_frames :: bool
  as_yuv420 :: bool
  as_depth_luma :: nat
  as_depth_chroma :: nat
  as_width_mbs :: nat
  as_height_units :: nat
  as_crop :: "(nat \<times> nat \<times> nat \<times> nat) option"
  as_vui :: "avc_vui option"

datatype hevc_aspect = Predefined nat | ExtendedSar nat nat

record hevc_vui =
  hv_field_seq :: bool
  hv_display :: "nat \<times> nat \<times> nat \<times> nat"
  hv_chroma_loc :: "(nat \<times> nat) option"
  hv_aspect :: hevc_aspect
  hv_signal :: "bool \<times> nat \<times> nat \<times> nat"

record hevc_sps =
  hs_profile_space :: nat
  hs_profile_idc :: nat
  hs_tier_flag :: bool
  hs_level :: "nat option"
  hs_interlaced :: bool
  hs_chroma_format :: nat
  hs_separate_planes :: bool
  hs_depth_luma :: nat
  hs_depth_chroma :: nat
  hs_extensions :: bool
  hs_reorder :: "nat list"
  hs_width :: nat
  hs_height :: nat
  hs_window :: "nat \<times> nat \<times> nat \<times> nat"
  hs_vui :: "hevc_vui option"

record avc_record =
  ar_profile :: u8
  ar_compatibility :: u8
  ar_level :: u8
  ar_length_minus_one :: nat
  ar_sps :: "bytes list"
  ar_pps :: "bytes list"
  ar_extended :: "(nat \<times> nat \<times> nat) option"

record hevc_record =
  hr_profile_space :: nat
  hr_tier_flag :: bool
  hr_profile :: nat
  hr_level :: nat
  hr_chroma :: nat
  hr_depth_luma :: nat
  hr_depth_chroma :: nat
  hr_length_minus_one :: nat
  hr_arrays :: "(nat \<times> bytes list) list"

record syntax_env =
  se_avc_sps :: "bytes \<Rightarrow> avc_sps option"
  se_decode_nal :: "bytes \<Rightarrow> bytes option"
  se_hevc_sps :: "bytes \<Rightarrow> (hevc_sps \<times> nat) option"
  se_avc_record :: "bytes \<Rightarrow> (avc_record \<times> nat) option"
  se_avc_build :: "avc_record \<Rightarrow> bytes option"
  se_hevc_record :: "bytes \<Rightarrow> (hevc_record \<times> nat) option"

section \<open>Source facts\<close>

record video_color_facts =
  vc_full_range :: bool
  vc_primaries :: nat
  vc_transfer :: nat
  vc_matrix :: nat

record video_sps_facts =
  vs_coded_width :: nat
  vs_coded_height :: nat
  vs_visible_x :: nat
  vs_visible_y :: nat
  vs_visible_width :: nat
  vs_visible_height :: nat
  vs_aspect :: "(nat \<times> nat) option"
  vs_color :: "video_color_facts option"
  vs_chroma_location :: nat

definition BT709 :: video_color_facts where
  "BT709 = \<lparr> vc_full_range = False, vc_primaries = 1, vc_transfer = 1, vc_matrix = 1 \<rparr>"

text \<open>
  The helper closures: an intermediate above \<open>u32::MAX\<close> is above the limit as well, so the checked
  arithmetic is the bound.
\<close>

definition avc_dimension :: "nat \<Rightarrow> (nat, bitstream_error) result" where
  "avc_dimension blocks = (if (blocks + 1) * 16 \<le> 8192 then Ok ((blocks + 1) * 16) else Err Limit)"

definition avc_crop :: "nat \<Rightarrow> (nat, bitstream_error) result" where
  "avc_crop n = (if n * 2 \<le> u32_max then Ok (n * 2) else Err Limit)"

definition visible_part :: "string \<Rightarrow> nat \<Rightarrow> nat \<Rightarrow> nat \<Rightarrow> (nat, bitstream_error) result" where
  "visible_part msg coded before after =
     (if before + after < coded then Ok (coded - before - after) else Err (Malformed msg))"

definition avc_crops ::
  "(nat \<times> nat \<times> nat \<times> nat) option \<Rightarrow> (nat \<times> nat \<times> nat \<times> nat, bitstream_error) result" where
  "avc_crops cropping =
     (case cropping of
        None \<Rightarrow> Ok (0, 0, 0, 0)
      | Some (l, r, t, b) \<Rightarrow>
          rbind (avc_crop l) (\<lambda>l. rbind (avc_crop r) (\<lambda>r. rbind (avc_crop t) (\<lambda>t.
          rbind (avc_crop b) (\<lambda>b. Ok (l, r, t, b))))))"

definition avc_chroma_location :: "avc_vui option \<Rightarrow> (nat, bitstream_error) result" where
  "avc_chroma_location vui =
     (case Option.bind vui av_chroma_loc of
        None \<Rightarrow> Ok 0
      | Some (upper, lower) \<Rightarrow>
          if upper = lower \<and> upper \<le> 5 then Ok upper
          else Err (Unsupported ''invalid progressive chroma location''))"

definition avc_color :: "avc_vui option \<Rightarrow> video_color_facts option" where
  "avc_color vui =
     map_option (\<lambda>(full, description).
       case (case description of None \<Rightarrow> (2, 2, 2) | Some codes \<Rightarrow> codes) of (p, t, m) \<Rightarrow>
         \<lparr> vc_full_range = full, vc_primaries = p, vc_transfer = t, vc_matrix = m \<rparr>)
       (Option.bind vui av_signal)"

definition from_sps :: "avc_sps \<Rightarrow> (video_sps_facts, bitstream_error) result" where
  "from_sps sps =
     (if \<not> as_frames sps then Err (Unsupported ''interlaced AVC'')
      else if \<not> as_yuv420 sps \<or> as_depth_luma sps \<noteq> 0 \<or> as_depth_chroma sps \<noteq> 0
        then Err (Unsupported ''requires 8-bit 4:2:0 AVC'')
      else
        rbind (avc_dimension (as_width_mbs sps)) (\<lambda>coded_width.
        rbind (avc_dimension (as_height_units sps)) (\<lambda>coded_height.
        rbind (avc_crops (as_crop sps)) (\<lambda>(left, right, upper, lower).
        let aspect = Option.bind (as_vui sps) av_aspect in
        rbind (case aspect of
                 Some (AspectReserved _) \<Rightarrow> Err (Unsupported ''reserved AVC aspect ratio'')
               | Some (AspectKnown ratio) \<Rightarrow> Ok ratio
               | None \<Rightarrow> Ok None) (\<lambda>ratio.
        rbind (avc_chroma_location (as_vui sps)) (\<lambda>chroma_location.
        rbind (visible_part ''SPS crop removes the entire image'' coded_width left right) (\<lambda>visible_width.
        rbind (visible_part ''SPS crop removes the entire image'' coded_height upper lower) (\<lambda>visible_height.
          Ok \<lparr> vs_coded_width = coded_width, vs_coded_height = coded_height,
               vs_visible_x = left, vs_visible_y = upper,
               vs_visible_width = visible_width, vs_visible_height = visible_height,
               vs_aspect = ratio, vs_color = avc_color (as_vui sps),
               vs_chroma_location = chroma_location \<rparr>))))))))"

definition parse_avc :: "syntax_env \<Rightarrow> bytes \<Rightarrow> (video_sps_facts, bitstream_error) result" where
  "parse_avc env nal =
     (if length nal > 64 * 1024 then Err Limit
      else if nal = [] \<or> hd nal AND 0x9f \<noteq> 7 then Err (Malformed ''expected SPS NAL'')
      else rbind (ok_or (se_avc_sps env nal) (Malformed ''invalid AVC SPS'')) from_sps)"


text \<open>The geometry compared before and after a rewrite, everything but the colour.\<close>

definition geometry_of ::
  "video_sps_facts \<Rightarrow> (nat \<times> nat \<times> nat \<times> nat \<times> nat \<times> nat) \<times> (nat \<times> nat) option \<times> nat" where
  "geometry_of f =
     ((vs_coded_width f, vs_coded_height f, vs_visible_x f, vs_visible_y f, vs_visible_width f,
       vs_visible_height f), vs_aspect f, vs_chroma_location f)"

definition ensure_bt709_limited :: "syntax_env \<Rightarrow> bytes \<Rightarrow> (bytes, bitstream_error) result" where
  "ensure_bt709_limited env nal =
     rbind (parse_avc env nal) (\<lambda>facts.
     if vs_color facts = Some BT709 then Ok nal
     else if (case vs_color facts of
                Some c \<Rightarrow> vc_full_range c \<or> (vc_primaries c, vc_transfer c, vc_matrix c) \<noteq> (2, 2, 2)
              | None \<Rightarrow> False)
       then Err (Unsupported ''source is not BT.709 limited or unspecified SDR'')
     else
       rbind (case nal of [] \<Rightarrow> Err Truncated | header # _ \<Rightarrow> Ok header) (\<lambda>header.
       rbind (ok_or (se_decode_nal env nal) (Malformed ''invalid AVC SPS RBSP'')) (\<lambda>rbsp.
       rbind (skip_sps_to_vui_flag (from_rbsp rbsp)) (\<lambda>(vui_flag, _).
       rbind (rewrite_vui (from_rbsp rbsp) vui_flag) (\<lambda>rewritten.
       let encoded = encode_nal header rewritten in
       rbind (parse_avc env encoded) (\<lambda>admitted.
         if vs_color admitted \<noteq> Some BT709 \<or> geometry_of admitted \<noteq> geometry_of facts
         then Err (Malformed ''rewritten SPS changed source geometry'')
         else Ok encoded))))))"

definition hevc_dimension :: "nat \<Rightarrow> (nat, bitstream_error) result" where
  "hevc_dimension v = (if v = 0 \<or> v > 8192 \<or> odd v then Err Limit else Ok v)"

definition hevc_crop :: "nat \<Rightarrow> nat \<Rightarrow> (nat, bitstream_error) result" where
  "hevc_crop base extra = (if (base + extra) * 2 \<le> u32_max then Ok ((base + extra) * 2) else Err Limit)"

definition HEVC_RATIOS :: "(nat \<times> nat) list" where
  "HEVC_RATIOS = [(1, 1), (12, 11), (10, 11), (16, 11), (40, 33), (24, 11), (20, 11), (32, 11),
     (80, 33), (18, 11), (15, 11), (64, 33), (160, 99), (4, 3), (3, 2), (2, 1)]"

definition hevc_aspect_ratio :: "hevc_aspect \<Rightarrow> ((nat \<times> nat) option, bitstream_error) result" where
  "hevc_aspect_ratio info =
     (case info of
        Predefined idc \<Rightarrow>
          if idc = 0 then Ok None
          else if idc - 1 < length HEVC_RATIOS then Ok (Some (HEVC_RATIOS ! (idc - 1)))
          else Err (Unsupported ''reserved HEVC pixel aspect'')
      | ExtendedSar w h \<Rightarrow>
          if w \<noteq> 0 \<and> h \<noteq> 0 then Ok (Some (w, h)) else Err (Malformed ''zero HEVC pixel aspect''))"

definition hevc_profile_ok :: "hevc_sps \<Rightarrow> bool" where
  "hevc_profile_ok sps \<longleftrightarrow>
     \<not> (hs_profile_space sps \<noteq> 0 \<or> hs_profile_idc sps \<noteq> 1 \<or> hs_interlaced sps \<or>
        hs_chroma_format sps \<noteq> 1 \<or> hs_separate_planes sps \<or> hs_depth_luma sps \<noteq> 0 \<or>
        hs_depth_chroma sps \<noteq> 0 \<or> hs_extensions sps \<or> list_ex (\<lambda>n. n \<noteq> 0) (hs_reorder sps) \<or>
        (case hs_vui sps of None \<Rightarrow> False | Some vui \<Rightarrow> hv_field_seq vui))"

definition hevc_source_facts :: "hevc_sps \<Rightarrow> (video_sps_facts, bitstream_error) result" where
  "hevc_source_facts sps =
     rbind (hevc_dimension (hs_width sps)) (\<lambda>coded_width.
     rbind (hevc_dimension (hs_height sps)) (\<lambda>coded_height.
     case (hs_window sps, case hs_vui sps of None \<Rightarrow> (0, 0, 0, 0) | Some vui \<Rightarrow> hv_display vui) of
       ((wl, wr, wt, wb), (dl, dr, dt, db)) \<Rightarrow>
     rbind (hevc_crop wl dl) (\<lambda>left.
     rbind (hevc_crop wr dr) (\<lambda>right.
     rbind (hevc_crop wt dt) (\<lambda>upper.
     rbind (hevc_crop wb db) (\<lambda>lower.
     rbind (case Option.bind (hs_vui sps) hv_chroma_loc of
              Some (a, b) \<Rightarrow> if a = b \<and> a \<le> 5 then Ok a else Err (Unsupported ''HEVC field chroma locations differ'')
            | None \<Rightarrow> Ok 0) (\<lambda>chroma_location.
     rbind (visible_part ''HEVC crop removes image'' coded_width left right) (\<lambda>visible_width.
     rbind (visible_part ''HEVC crop removes image'' coded_height upper lower) (\<lambda>visible_height.
     rbind (case hs_vui sps of None \<Rightarrow> Ok None | Some vui \<Rightarrow> hevc_aspect_ratio (hv_aspect vui)) (\<lambda>ratio.
       Ok \<lparr> vs_coded_width = coded_width, vs_coded_height = coded_height,
            vs_visible_x = left, vs_visible_y = upper,
            vs_visible_width = visible_width, vs_visible_height = visible_height,
            vs_aspect = ratio,
            vs_color = map_option (\<lambda>vui. case hv_signal vui of (full, p, t, m) \<Rightarrow>
              \<lparr> vc_full_range = full, vc_primaries = p, vc_transfer = t, vc_matrix = m \<rparr>) (hs_vui sps),
            vs_chroma_location = chroma_location \<rparr>))))))))))"

definition parse_source :: "syntax_env \<Rightarrow> bytes \<Rightarrow> (hevc_sps \<times> video_sps_facts, bitstream_error) result" where
  "parse_source env nal =
     (if length nal > 64 * 1024 then Err Limit
      else if length nal < 2 \<or> nal ! 0 \<noteq> 0x42 \<or> nal ! 1 \<noteq> 1
        then Err (Unsupported ''expected base-layer HEVC SPS'')
      else rbind (ok_or (se_hevc_sps env nal) Configuration) (\<lambda>(sps, position).
        if position \<noteq> length nal then Err (Malformed ''trailing bytes after HEVC SPS'')
        else if \<not> hevc_profile_ok sps
          then Err (Unsupported ''requires progressive HEVC Main without reordering or extensions'')
        else rbind (hevc_source_facts sps) (\<lambda>facts. Ok (sps, facts))))"

section \<open>Bounds of a configuration record\<close>

definition MAX_CONFIG_BYTES :: nat where "MAX_CONFIG_BYTES = 64 * 1024"
definition MAX_PARAMETER_SETS :: nat where "MAX_PARAMETER_SETS = 64"

record record_bounds =
  rb_data :: bytes
  rb_offset :: nat
  rb_count :: nat

definition rb_skip :: "nat \<Rightarrow> record_bounds \<Rightarrow> (record_bounds, bitstream_error) result" where
  "rb_skip count r =
     (if rb_offset r + count > length (rb_data r) then Err Truncated
      else Ok (r\<lparr> rb_offset := rb_offset r + count \<rparr>))"

definition rb_byte :: "record_bounds \<Rightarrow> (u8 \<times> record_bounds, bitstream_error) result" where
  "rb_byte r =
     (if rb_offset r < length (rb_data r)
      then Ok (rb_data r ! rb_offset r, r\<lparr> rb_offset := rb_offset r + 1 \<rparr>) else Err Truncated)"

definition rb_u16 :: "record_bounds \<Rightarrow> (nat \<times> record_bounds, bitstream_error) result" where
  "rb_u16 r = rbind (rb_byte r) (\<lambda>(a, r). rbind (rb_byte r) (\<lambda>(b, r). Ok (be_val [a, b], r)))"

fun rb_sets_loop :: "nat \<Rightarrow> record_bounds \<Rightarrow> (record_bounds, bitstream_error) result" where
  "rb_sets_loop 0 r = Ok r"
| "rb_sets_loop (Suc n) r =
     rbind (rb_u16 r) (\<lambda>(len, r).
       if len = 0 then Err (Malformed ''empty parameter set'')
       else rbind (rb_skip len r) (rb_sets_loop n))"

definition rb_sets :: "nat \<Rightarrow> record_bounds \<Rightarrow> (record_bounds, bitstream_error) result" where
  "rb_sets count r =
     (if rb_count r + count > MAX_PARAMETER_SETS then Err Limit
      else rb_sets_loop count (r\<lparr> rb_count := rb_count r + count \<rparr>))"

fun rb_arrays :: "nat \<Rightarrow> record_bounds \<Rightarrow> (record_bounds, bitstream_error) result" where
  "rb_arrays 0 r = Ok r"
| "rb_arrays (Suc n) r =
     rbind (rb_byte r) (\<lambda>(b, r).
       let kind = b AND 63 in
       if \<not> (32 \<le> kind \<and> kind \<le> 34) then Err (Unsupported ''HEVC configuration NAL type'')
       else rbind (rb_u16 r) (\<lambda>(count, r). rbind (rb_sets count r) (rb_arrays n)))"

definition preflight_avc :: "record_bounds \<Rightarrow> (record_bounds, bitstream_error) result" where
  "preflight_avc r =
     rbind (rb_skip 5 r) (\<lambda>r.
     rbind (rb_byte r) (\<lambda>(b, r).
     rbind (rb_sets (unat (b AND 31)) r) (\<lambda>r.
     rbind (rb_byte r) (\<lambda>(b, r).
     rbind (rb_sets (unat b) r) (\<lambda>r.
       if rb_offset r < length (rb_data r) then
         rbind (rb_skip 3 r) (\<lambda>r. rbind (rb_byte r) (\<lambda>(b, r).
           if b \<noteq> 0 then Err (Unsupported ''AVC SPS extensions'') else Ok r))
       else Ok r)))))"

definition preflight_hevc :: "record_bounds \<Rightarrow> (record_bounds, bitstream_error) result" where
  "preflight_hevc r =
     rbind (rb_skip 22 r) (\<lambda>r.
     rbind (rb_byte r) (\<lambda>(arrays, r).
       if arrays > 3 then Err (Unsupported ''HEVC configuration arrays'')
       else rb_arrays (unat arrays) r))"

definition preflight :: "codec \<Rightarrow> bytes \<Rightarrow> (unit, bitstream_error) result" where
  "preflight codec data =
     rbind (case codec of
              AvcCodec \<Rightarrow> preflight_avc \<lparr> rb_data = data, rb_offset = 0, rb_count = 0 \<rparr>
            | HevcCodec \<Rightarrow> preflight_hevc \<lparr> rb_data = data, rb_offset = 0, rb_count = 0 \<rparr>) (\<lambda>r.
       if rb_offset r \<noteq> length data then Err (Malformed ''configuration trailing bytes'') else Ok ())"


section \<open>Configurations\<close>

record codec_configuration =
  cc_codec :: codec
  cc_nal_length_size :: nal_length_size
  cc_profile_idc :: nat
  cc_level_idc :: nat
  cc_high_tier :: bool
  cc_record :: bytes
  cc_vps :: "bytes list"
  cc_sps :: "bytes list"
  cc_pps :: "bytes list"

definition length_size :: "nat \<Rightarrow> (nal_length_size, bitstream_error) result" where
  "length_size minus_one =
     (if minus_one = 0 then Ok NlsOne else if minus_one = 1 then Ok NlsTwo
      else if minus_one = 3 then Ok NlsFour else Err (Unsupported ''NAL length size''))"

definition avc_header_matches :: "avc_record \<Rightarrow> bytes \<Rightarrow> bool" where
  "avc_header_matches avc sps \<longleftrightarrow>
     4 \<le> length sps \<and> take 3 (drop 1 sps) = [ar_profile avc, ar_compatibility avc, ar_level avc]"

definition config_of_avc :: "avc_record \<Rightarrow> bytes \<Rightarrow> (codec_configuration, bitstream_error) result" where
  "config_of_avc avc record =
     (if ar_profile avc \<noteq> 100 then Err (Unsupported ''AVC profile is not High/Constrained High'')
      else if (case ar_extended avc of None \<Rightarrow> False
               | Some (chroma, luma_depth, chroma_depth) \<Rightarrow> chroma \<noteq> 1 \<or> luma_depth \<noteq> 0 \<or> chroma_depth \<noteq> 0)
        then Err (Unsupported ''AVC requires 8-bit 4:2:0'')
      else if list_ex (\<lambda>sps. \<not> avc_header_matches avc sps) (ar_sps avc)
        then Err (Malformed ''avcC header differs from SPS'')
      else rbind (length_size (ar_length_minus_one avc)) (\<lambda>nls.
        Ok \<lparr> cc_codec = AvcCodec, cc_nal_length_size = nls, cc_profile_idc = unat (ar_profile avc),
             cc_level_idc = unat (ar_level avc), cc_high_tier = False, cc_record = record,
             cc_vps = [], cc_sps = ar_sps avc, cc_pps = ar_pps avc \<rparr>))"

definition add_array ::
  "nat \<times> bytes list \<Rightarrow> codec_configuration \<Rightarrow> (codec_configuration, bitstream_error) result" where
  "add_array arr c =
     (case arr of (kind, nalus) \<Rightarrow>
        if kind = 32 then Ok (c\<lparr> cc_vps := cc_vps c @ nalus \<rparr>)
        else if kind = 33 then Ok (c\<lparr> cc_sps := cc_sps c @ nalus \<rparr>)
        else if kind = 34 then Ok (c\<lparr> cc_pps := cc_pps c @ nalus \<rparr>)
        else Err (Unsupported ''configuration contains non-parameter NAL''))"

definition config_of_hevc :: "hevc_record \<Rightarrow> bytes \<Rightarrow> (codec_configuration, bitstream_error) result" where
  "config_of_hevc hevc record =
     (if hr_profile_space hevc \<noteq> 0 \<or> hr_profile hevc \<noteq> 1 \<or> hr_chroma hevc \<noteq> 1 \<or>
         hr_depth_luma hevc \<noteq> 0 \<or> hr_depth_chroma hevc \<noteq> 0
      then Err (Unsupported ''HEVC requires Main 8-bit 4:2:0'')
      else rbind (length_size (hr_length_minus_one hevc)) (\<lambda>nls.
        rfold add_array (hr_arrays hevc)
          \<lparr> cc_codec = HevcCodec, cc_nal_length_size = nls, cc_profile_idc = hr_profile hevc,
            cc_level_idc = hr_level hevc, cc_high_tier = hr_tier_flag hevc, cc_record = record,
            cc_vps = [], cc_sps = [], cc_pps = [] \<rparr>))"

definition sps_kind :: "codec \<Rightarrow> u8" where
  "sps_kind codec = (case codec of AvcCodec \<Rightarrow> 7 | HevcCodec \<Rightarrow> 33)"

definition pps_kind :: "codec \<Rightarrow> u8" where
  "pps_kind codec = (case codec of AvcCodec \<Rightarrow> 8 | HevcCodec \<Rightarrow> 34)"

fun check_sets :: "codec \<Rightarrow> u8 \<Rightarrow> bytes list \<Rightarrow> (unit, bitstream_error) result" where
  "check_sets codec expected [] = Ok ()"
| "check_sets codec expected (s # sets) =
     (if length s < 3 then Err (Malformed ''parameter NAL type'')
      else rbind (nal_type codec s) (\<lambda>kind.
        if kind \<noteq> expected then Err (Malformed ''parameter NAL type'') else check_sets codec expected sets))"

definition parse_configuration ::
  "syntax_env \<Rightarrow> codec \<Rightarrow> bytes \<Rightarrow> (codec_configuration, bitstream_error) result" where
  "parse_configuration env codec record =
     (if record = [] \<or> length record > MAX_CONFIG_BYTES then Err Limit
      else if record ! 0 \<noteq> 1 then Err (Unsupported ''configuration record version'')
      else rbind (preflight codec record) (\<lambda>_.
        rbind (case codec of
                 AvcCodec \<Rightarrow> rbind (ok_or (se_avc_record env record) Configuration) (\<lambda>(avc, position).
                   rbind (config_of_avc avc record) (\<lambda>config. Ok (config, position)))
               | HevcCodec \<Rightarrow> rbind (ok_or (se_hevc_record env record) Configuration) (\<lambda>(hevc, position).
                   rbind (config_of_hevc hevc record) (\<lambda>config. Ok (config, position)))) (\<lambda>(config, position).
        if position \<noteq> length record then Err (Malformed ''trailing configuration bytes'')
        else if cc_sps config = [] \<or> cc_pps config = [] \<or> codec = HevcCodec \<and> cc_vps config = []
          then Err (Malformed ''incomplete parameter sets'')
        else rbind (check_sets codec 32 (cc_vps config)) (\<lambda>_.
             rbind (check_sets codec (sps_kind codec) (cc_sps config)) (\<lambda>_.
             rbind (check_sets codec (pps_kind codec) (cc_pps config)) (\<lambda>_. Ok config))))))"

definition from_avc_parameter_sets ::
  "syntax_env \<Rightarrow> bytes \<Rightarrow> bytes \<Rightarrow> (codec_configuration, bitstream_error) result" where
  "from_avc_parameter_sets env sps pps =
     (if length sps + length pps + 11 > MAX_CONFIG_BYTES then Err Limit
      else if length sps < 4 \<or> length pps < 3 then Err (Malformed ''raw AVC parameter sets required'')
      else rbind (nal_type AvcCodec sps) (\<lambda>k. if k \<noteq> 7 then Err (Malformed ''raw AVC parameter sets required'') else
        rbind (nal_type AvcCodec pps) (\<lambda>k. if k \<noteq> 8 then Err (Malformed ''raw AVC parameter sets required'') else
        rbind (ok_or (se_avc_build env
          \<lparr> ar_profile = sps ! 1, ar_compatibility = sps ! 2, ar_level = sps ! 3, ar_length_minus_one = 3,
            ar_sps = [sps], ar_pps = [pps], ar_extended = None \<rparr>) Configuration) (\<lambda>record.
          parse_configuration env AvcCodec record))))"

text \<open>The loop of \<open>from_avc_annex_b\<close>: at most one distinct unit of each kind.\<close>

definition assign_set :: "bytes \<Rightarrow> bytes option \<Rightarrow> (bytes option, bitstream_error) result" where
  "assign_set nal target =
     (if target \<noteq> None \<and> target \<noteq> Some nal
      then Err (Unsupported ''multiple distinct native AVC parameter sets'') else Ok (Some nal))"

definition collect_set ::
  "bytes \<Rightarrow> bytes option \<times> bytes option \<Rightarrow> (bytes option \<times> bytes option, bitstream_error) result" where
  "collect_set nal st =
     (case st of (sps, pps) \<Rightarrow>
      rbind (nal_type AvcCodec nal) (\<lambda>kind.
        if kind = 7 then rbind (assign_set nal sps) (\<lambda>sps. Ok (sps, pps))
        else if kind = 8 then rbind (assign_set nal pps) (\<lambda>pps. Ok (sps, pps))
        else Err (Malformed ''AVC codec-config contains a non-parameter NAL'')))"

definition from_avc_annex_b :: "syntax_env \<Rightarrow> bytes \<Rightarrow> (codec_configuration, bitstream_error) result" where
  "from_avc_annex_b env data =
     (if length data > MAX_CONFIG_BYTES then Err Limit
      else rbind (split_nals AnnexB data) (\<lambda>nals.
        rbind (rfold collect_set nals (None, None)) (\<lambda>(sps, pps).
        rbind (ok_or sps (Malformed ''missing AVC SPS'')) (\<lambda>sps.
        rbind (ok_or pps (Malformed ''missing AVC PPS'')) (\<lambda>pps.
          from_avc_parameter_sets env sps pps)))))"

section \<open>Pictures under a configuration\<close>

definition committed_sets :: "codec_configuration \<Rightarrow> u8 \<Rightarrow> bytes list option" where
  "committed_sets c kind =
     (if kind = sps_kind (cc_codec c) then Some (cc_sps c)
      else if kind = pps_kind (cc_codec c) then Some (cc_pps c)
      else if cc_codec c = HevcCodec \<and> kind = 32 then Some (cc_vps c)
      else None)"

fun check_nals :: "codec_configuration \<Rightarrow> bytes list \<Rightarrow> (unit, bitstream_error) result" where
  "check_nals c [] = Ok ()"
| "check_nals c (nal # nals) =
     rbind (nal_type (cc_codec c) nal) (\<lambda>kind.
       if (case committed_sets c kind of Some sets \<Rightarrow> nal \<notin> set sets | None \<Rightarrow> False)
       then Err (Malformed ''in-band parameter set differs from configuration'')
       else check_nals c nals)"

definition validate_parameter_sets :: "codec_configuration \<Rightarrow> access_unit \<Rightarrow> (unit, bitstream_error) result" where
  "validate_parameter_sets c picture =
     (if au_codec picture \<noteq> cc_codec c then Err (Malformed ''picture codec differs from configuration'')
      else check_nals c (au_nals picture))"

definition sps_source_facts ::
  "syntax_env \<Rightarrow> codec_configuration \<Rightarrow> bytes \<Rightarrow> (video_sps_facts, bitstream_error) result" where
  "sps_source_facts env c sps =
     (case cc_codec c of
        AvcCodec \<Rightarrow> parse_avc env sps
      | HevcCodec \<Rightarrow>
          rbind (parse_source env sps) (\<lambda>(parsed, facts).
            if hs_profile_idc parsed \<noteq> cc_profile_idc c \<or> hs_tier_flag parsed \<noteq> cc_high_tier c \<or>
               hs_level parsed \<noteq> Some (cc_level_idc c)
            then Err (Malformed ''hvcC identity differs from SPS'') else Ok facts))"

fun merge_facts ::
  "syntax_env \<Rightarrow> codec_configuration \<Rightarrow> bytes list \<Rightarrow> video_sps_facts option \<Rightarrow>
     (video_sps_facts option, bitstream_error) result" where
  "merge_facts env c [] facts = Ok facts"
| "merge_facts env c (sps # rest) facts =
     rbind (sps_source_facts env c sps) (\<lambda>current.
       if facts \<noteq> None \<and> facts \<noteq> Some current then Err (Malformed ''conflicting SPS source facts'')
       else merge_facts env c rest (Some current))"

definition source_facts :: "syntax_env \<Rightarrow> codec_configuration \<Rightarrow> (video_sps_facts, bitstream_error) result" where
  "source_facts env c =
     rbind (merge_facts env c (cc_sps c) None) (\<lambda>facts. ok_or facts (Malformed ''missing source SPS''))"

definition validate_visible_size ::
  "syntax_env \<Rightarrow> codec_configuration \<Rightarrow> nat \<Rightarrow> nat \<Rightarrow> (unit, bitstream_error) result" where
  "validate_visible_size env c width height =
     rbind (source_facts env c) (\<lambda>facts.
       if (vs_visible_width facts, vs_visible_height facts) \<noteq> (width, height)
       then Err (Malformed ''source dimensions differ from SPS'') else Ok ())"

definition with_explicit_bt709_sdr ::
  "syntax_env \<Rightarrow> codec_configuration \<Rightarrow> (codec_configuration, bitstream_error) result" where
  "with_explicit_bt709_sdr env c =
     (case cc_codec c of
        AvcCodec \<Rightarrow>
          if length (cc_sps c) \<noteq> 1 \<or> length (cc_pps c) \<noteq> 1 then Err (Unsupported ''multiple AVC parameter sets'')
          else rbind (ensure_bt709_limited env (cc_sps c ! 0)) (\<lambda>sps.
            if sps = cc_sps c ! 0 then Ok c else from_avc_parameter_sets env sps (cc_pps c ! 0))
      | HevcCodec \<Rightarrow>
          rbind (source_facts env c) (\<lambda>facts.
          rbind (ok_or (vs_color facts) (Unsupported ''missing source color'')) (\<lambda>color.
            if vc_full_range color \<or> (vc_primaries color, vc_transfer color, vc_matrix color) \<noteq> (1, 1, 1)
            then Err (Unsupported ''source is not BT.709 SDR'') else Ok c)))"

definition avc_sps_may_align :: "syntax_env \<Rightarrow> bytes \<Rightarrow> bytes \<Rightarrow> (bool, bitstream_error) result" where
  "avc_sps_may_align env incoming admitted =
     rbind (parse_avc env incoming) (\<lambda>incoming. rbind (parse_avc env admitted) (\<lambda>admitted.
       Ok (geometry_of incoming = geometry_of admitted \<and> vs_color admitted = Some BT709 \<and>
           (case vs_color incoming of None \<Rightarrow> True
            | Some c \<Rightarrow> c = \<lparr> vc_full_range = False, vc_primaries = 2, vc_transfer = 2, vc_matrix = 2 \<rparr>))))"

definition align_nal ::
  "syntax_env \<Rightarrow> codec_configuration \<Rightarrow> bytes \<Rightarrow> (bytes \<times> bool, bitstream_error) result" where
  "align_nal env c nal =
     rbind (nal_type (cc_codec c) nal) (\<lambda>kind.
       case committed_sets c kind of
         None \<Rightarrow> Ok (nal, False)
       | Some sets \<Rightarrow>
           if nal \<in> set sets then Ok (nal, False)
           else if cc_codec c = AvcCodec \<and> kind = 7 \<and> length sets = 1 then
             rbind (avc_sps_may_align env nal (sets ! 0)) (\<lambda>may.
               if may then Ok (sets ! 0, True)
               else Err (Malformed ''in-band parameter set differs from configuration''))
           else Err (Malformed ''in-band parameter set differs from configuration''))"

definition starts_with :: "bytes \<Rightarrow> bytes \<Rightarrow> bool" where
  "starts_with data needle \<longleftrightarrow> take (length needle) data = needle"

definition align_format :: "codec_configuration \<Rightarrow> bytes \<Rightarrow> nal_format" where
  "align_format c data =
     (if starts_with data [0, 0, 1] \<or> starts_with data [0, 0, 0, 1] then AnnexB
      else LengthPrefixed (cc_nal_length_size c))"

definition align_access_unit ::
  "syntax_env \<Rightarrow> codec_configuration \<Rightarrow> bytes \<Rightarrow> (bytes, bitstream_error) result" where
  "align_access_unit env c data =
     (case parse_access_unit (cc_codec c) (align_format c data) data of
        Ok picture \<Rightarrow>
          rbind (rmap (align_nal env c) (au_nals picture)) (\<lambda>aligned.
            if list_ex snd aligned
            then write_nals (map fst aligned) (align_format c data = AnnexB)
            else Ok data)
      | Err _ \<Rightarrow> Ok data
      | Panic \<Rightarrow> Panic)"


section \<open>Committed parameter sets\<close>

definition set_ok :: "codec \<Rightarrow> u8 \<Rightarrow> bytes \<Rightarrow> bool" where
  "set_ok codec kind s \<longleftrightarrow> 3 \<le> length s \<and> nal_type codec s = Ok kind"

definition config_ok :: "codec_configuration \<Rightarrow> bool" where
  "config_ok c \<longleftrightarrow>
     cc_sps c \<noteq> [] \<and> cc_pps c \<noteq> [] \<and> (cc_codec c = HevcCodec \<longrightarrow> cc_vps c \<noteq> []) \<and>
     list_all (set_ok (cc_codec c) 32) (cc_vps c) \<and>
     list_all (set_ok (cc_codec c) (sps_kind (cc_codec c))) (cc_sps c) \<and>
     list_all (set_ok (cc_codec c) (pps_kind (cc_codec c))) (cc_pps c) \<and>
     length (cc_record c) \<le> MAX_CONFIG_BYTES \<and>
     (cc_codec c = AvcCodec \<longrightarrow> cc_profile_idc c = 100 \<and>
        list_all (\<lambda>s. unat (s ! 1) = cc_profile_idc c \<and> unat (s ! 3) = cc_level_idc c) (cc_sps c))"

lemma check_sets_Ok: "check_sets codec k sets = Ok () \<Longrightarrow> list_all (set_ok codec k) sets"
  by (induction sets) (auto simp: set_ok_def rbind_Ok_iff split: if_splits)

lemma rfold_add_array:
  "rfold add_array arrs c = Ok c' \<Longrightarrow>
     cc_codec c' = cc_codec c \<and> cc_record c' = cc_record c"
proof (induction arrs arbitrary: c)
  case (Cons a arrs)
  then obtain c1 where c1: "add_array a c = Ok c1" "rfold add_array arrs c1 = Ok c'" by (auto simp: rbind_Ok_iff)
  moreover have "cc_codec c1 = cc_codec c \<and> cc_record c1 = cc_record c"
    using c1(1) by (auto simp: add_array_def split: prod.splits if_splits)
  ultimately show ?case using Cons.IH by simp
qed simp

lemma avc_header_bytes:
  "avc_header_matches avc s \<Longrightarrow> s ! 1 = ar_profile avc \<and> s ! 3 = ar_level avc"
proof -
  assume m: "avc_header_matches avc s"
  then obtain a b c d ss where "s = a # b # c # d # ss"
    by (auto simp: avc_header_matches_def Suc_le_length_iff eval_nat_numeral)
  with m show ?thesis by (simp add: avc_header_matches_def)
qed

lemma committed_kind:
  assumes "config_ok c" "committed_sets c kind = Some sets" "s \<in> set sets"
  shows "nal_type (cc_codec c) s = Ok kind"
  using assms by (auto simp: config_ok_def committed_sets_def list_all_iff set_ok_def split: if_splits)

lemma align_nal_Ok:
  assumes "config_ok c" "align_nal env c nal = Ok (n, ch)"
  shows "\<exists>kind. nal_type (cc_codec c) nal = Ok kind \<and> nal_type (cc_codec c) n = Ok kind \<and>
    (case committed_sets c kind of Some sets \<Rightarrow> n \<in> set sets | None \<Rightarrow> True) \<and>
    (n = nal \<or> ch \<and> \<not> is_vcl (cc_codec c) kind)"
proof -
  from assms(2) obtain kind where kind: "nal_type (cc_codec c) nal = Ok kind"
    by (auto simp: align_nal_def rbind_Ok_iff)
  show ?thesis
  proof (cases "n = nal")
    case True
    with assms(2) kind show ?thesis
      by (auto simp: align_nal_def rbind_Ok_iff split: option.splits if_splits)
  next
    case False
    with assms(2) kind obtain sets where sets: "committed_sets c kind = Some sets" "length sets = 1"
      "n = sets ! 0" "ch" "cc_codec c = AvcCodec" "kind = 7"
      by (auto simp: align_nal_def rbind_Ok_iff split: option.splits if_splits)
    then have "n \<in> set sets" by simp
    with committed_kind [OF assms(1) sets(1)] sets kind show ?thesis by (simp add: is_vcl_def)
  qed
qed

lemma nal_type_nonempty: "nal_type codec n = Ok k \<Longrightarrow> n \<noteq> []"
  by (auto simp: nal_type_def)

lemma inspect_same_kind:
  assumes "nal_type codec n = Ok k" "nal_type codec n' = Ok k" "n' = n \<or> \<not> is_vcl codec k"
  shows "inspect_nal codec n' st = inspect_nal codec n st"
  using assms by (auto simp: inspect_nal_def split: prod.splits)

lemma aligned_list:
  assumes "config_ok c" "rmap (align_nal env c) nals = Ok aligned"
  shows "check_nals c (map fst aligned) = Ok ()"
    and "\<forall>n \<in> set (map fst aligned). n \<noteq> []"
    and "rfold (inspect_nal (cc_codec c)) (map fst aligned) st = rfold (inspect_nal (cc_codec c)) nals st"
    and "\<not> list_ex snd aligned \<Longrightarrow> map fst aligned = nals"
proof -
  have "check_nals c (map fst aligned) = Ok () \<and> (\<forall>n \<in> set (map fst aligned). n \<noteq> []) \<and>
    (\<forall>st. rfold (inspect_nal (cc_codec c)) (map fst aligned) st = rfold (inspect_nal (cc_codec c)) nals st) \<and>
    (\<not> list_ex snd aligned \<longrightarrow> map fst aligned = nals)"
    using assms(2)
  proof (induction nals arbitrary: aligned)
    case (Cons nal nals)
    then obtain n ch rest where a: "align_nal env c nal = Ok (n, ch)" and rest: "rmap (align_nal env c) nals = Ok rest"
      and al: "aligned = (n, ch) # rest" by (auto simp: rbind_Ok_iff)
    from align_nal_Ok [OF assms(1) a] obtain kind where k: "nal_type (cc_codec c) nal = Ok kind"
      "nal_type (cc_codec c) n = Ok kind" "n = nal \<or> ch \<and> \<not> is_vcl (cc_codec c) kind"
      and com: "case committed_sets c kind of Some sets \<Rightarrow> n \<in> set sets | None \<Rightarrow> True" by blast
    have "check_nals c (n # map fst rest) = Ok ()"
      using Cons.IH [OF rest] k(2) com by (auto split: option.splits)
    moreover have "inspect_nal (cc_codec c) n st = inspect_nal (cc_codec c) nal st" for st
      using k by (intro inspect_same_kind) auto
    moreover have "rfold (inspect_nal (cc_codec c)) (map fst rest) = rfold (inspect_nal (cc_codec c)) nals"
      using Cons.IH [OF rest] by (intro ext) blast
    ultimately show ?case
      using Cons.IH [OF rest] k nal_type_nonempty [OF k(2)] by (simp add: al) blast
  qed simp
  then show "check_nals c (map fst aligned) = Ok ()" "\<forall>n \<in> set (map fst aligned). n \<noteq> []"
    "rfold (inspect_nal (cc_codec c)) (map fst aligned) st = rfold (inspect_nal (cc_codec c)) nals st"
    "\<not> list_ex snd aligned \<Longrightarrow> map fst aligned = nals" by blast+
qed

section \<open>Properties\<close>

text \<open>A parsed configuration is complete. Whatever the record parsers return, an accepted
  configuration holds at least one parameter set of each kind its codec needs, each with the NAL
  header of its kind; the record is within its limit, and for AVC the profile is High and every
  sequence parameter set carries the profile and level the header announces.
\<close>

lemma parsed_configuration_complete:
  assumes "parse_configuration env codec record = Ok c"
  shows "config_ok c \<and> cc_codec c = codec \<and> cc_record c = record"
proof -
  have "length record \<le> MAX_CONFIG_BYTES" "cc_sps c \<noteq> []" "cc_pps c \<noteq> []"
    "codec = HevcCodec \<Longrightarrow> cc_vps c \<noteq> []"
    and sets: "check_sets codec 32 (cc_vps c) = Ok ()" "check_sets codec (sps_kind codec) (cc_sps c) = Ok ()"
      "check_sets codec (pps_kind codec) (cc_pps c) = Ok ()"
    using assms by (auto simp: parse_configuration_def rbind_Ok_iff split: if_splits)
  moreover have "cc_codec c = codec \<and> cc_record c = record \<and> (codec = AvcCodec \<longrightarrow> cc_profile_idc c = 100 \<and>
      list_all (\<lambda>s. unat (s ! 1) = cc_profile_idc c \<and> unat (s ! 3) = cc_level_idc c) (cc_sps c))"
  proof (cases codec)
    case AvcCodec
    with assms obtain avc where "config_of_avc avc record = Ok c"
      by (auto simp: parse_configuration_def rbind_Ok_iff split: if_splits)
    moreover from this have "s ! 1 = ar_profile avc \<and> s ! 3 = ar_level avc" if "s \<in> set (ar_sps avc)" for s
      using that avc_header_bytes [of avc s] by (auto simp: config_of_avc_def list_ex_iff split: if_splits)
    ultimately show ?thesis
      using AvcCodec by (auto simp: config_of_avc_def rbind_Ok_iff list_all_iff split: if_splits)
  next
    case HevcCodec
    with assms obtain hevc where "config_of_hevc hevc record = Ok c"
      by (auto simp: parse_configuration_def rbind_Ok_iff split: if_splits)
    with HevcCodec show ?thesis
      by (auto simp: config_of_hevc_def rbind_Ok_iff split: if_splits dest!: rfold_add_array)
  qed
  ultimately show ?thesis
    using sets [THEN check_sets_Ok] by (auto simp: config_ok_def)
qed


definition sample_sps :: bytes where "sample_sps = [0x67, 100, 0, 40, 9]"
definition sample_pps :: bytes where "sample_pps = [0x68, 1, 2]"

definition sample_record :: bytes where
  "sample_record = [1, 100, 0, 40, 255, 225, 0, 5, 0x67, 100, 0, 40, 9, 1, 0, 3, 0x68, 1, 2]"

definition sample_avc_record :: avc_record where
  "sample_avc_record = \<lparr> ar_profile = 100, ar_compatibility = 0, ar_level = 40, ar_length_minus_one = 3,
     ar_sps = [sample_sps], ar_pps = [sample_pps], ar_extended = None \<rparr>"

definition sample_config :: codec_configuration where
  "sample_config = \<lparr> cc_codec = AvcCodec, cc_nal_length_size = NlsFour, cc_profile_idc = 100,
     cc_level_idc = 40, cc_high_tier = False, cc_record = sample_record, cc_vps = [],
     cc_sps = [sample_sps], cc_pps = [sample_pps] \<rparr>"

text \<open>
  An environment whose parsers know one record and two parameter sets: the committed one, declared
  BT.709, and one that differs in its last byte and declares no colour.
\<close>

definition sample_avc_sps :: "bool \<Rightarrow> avc_sps" where
  "sample_avc_sps declared =
     \<lparr> as_frames = True, as_yuv420 = True, as_depth_luma = 0, as_depth_chroma = 0, as_width_mbs = 79,
       as_height_units = 44, as_crop = None,
       as_vui = (if declared then Some \<lparr> av_aspect = None, av_chroma_loc = None,
         av_signal = Some (False, Some (1, 1, 1)) \<rparr> else None) \<rparr>"

definition sample_env :: syntax_env where
  "sample_env = \<lparr> se_avc_sps = (\<lambda>nal. if nal = sample_sps then Some (sample_avc_sps True)
       else if nal = [0x67, 100, 0, 40, 8] then Some (sample_avc_sps False) else None),
     se_decode_nal = (\<lambda>_. None), se_hevc_sps = (\<lambda>_. None),
     se_avc_record = (\<lambda>r. if r = sample_record then Some (sample_avc_record, length r) else None),
     se_avc_build = (\<lambda>_. Some sample_record), se_hevc_record = (\<lambda>_. None) \<rparr>"

lemma sample_config_ok: "config_ok sample_config"
  by (simp add: config_ok_def sample_config_def set_ok_def sps_kind_def pps_kind_def sample_sps_def
      sample_pps_def sample_record_def nal_type_def MAX_CONFIG_BYTES_def)

lemma aligned_lengths:
  assumes ok: "config_ok c" and fmt: "align_format c data = LengthPrefixed NlsFour"
    and parse: "parse_access_unit (cc_codec c) (LengthPrefixed NlsFour) data = Ok p"
    and out: "align_access_unit env c data = Ok out"
  shows "\<exists>p'. parse_access_unit (cc_codec c) (LengthPrefixed NlsFour) out = Ok p' \<and>
    validate_parameter_sets c p' = Ok () \<and> au_picture p' = au_picture p \<and>
    length (au_nals p') = length (au_nals p)"
proof -
  from out have "rbind (rmap (align_nal env c) (au_nals p)) (\<lambda>aligned.
      if list_ex snd aligned then write_nals (map fst aligned) False else Ok data) = Ok out"
    by (simp add: align_access_unit_def fmt parse cong: if_cong)
  then obtain aligned where al: "rmap (align_nal env c) (au_nals p) = Ok aligned"
    and res: "(if list_ex snd aligned then write_nals (map fst aligned) False else Ok data) = Ok out"
    by (auto simp: rbind_Ok_iff)
  note L = aligned_list [OF ok al]
  have p: "split_nals (LengthPrefixed NlsFour) data = Ok (au_nals p)" "au_codec p = cc_codec c"
    "inspect_picture (cc_codec c) (au_nals p) = Ok (au_picture p)"
    using parse by (simp_all add: parse_Ok_iff)
  have len: "length aligned = length (au_nals p)" using al by (rule rmap_length)
  define p' where "p' = p\<lparr> au_nals := map fst aligned \<rparr>"
  have "split_nals (LengthPrefixed NlsFour) out = Ok (map fst aligned)"
  proof (cases "list_ex snd aligned")
    case True
    with res have "write_nals (map fst aligned) False = Ok out" by simp
    with split_nals_some [OF p(1)] len L(2) show ?thesis by (intro split_written_lp) auto
  next
    case False
    with res L(4) p(1) show ?thesis by simp
  qed
  moreover have "inspect_picture (cc_codec c) (map fst aligned) = Ok (au_picture p)"
    using p(3) L(3) by (simp add: inspect_picture_def)
  ultimately have "parse_access_unit (cc_codec c) (LengthPrefixed NlsFour) out = Ok p'"
    using p(2) by (simp add: parse_Ok_iff p'_def)
  moreover have "validate_parameter_sets c p' = Ok ()"
    using L(1) p(2) by (simp add: validate_parameter_sets_def p'_def)
  ultimately show ?thesis using len by (intro exI [of _ p']) (simp add: p'_def)
qed

text \<open>
  The framing is guessed from the first bytes. A four-byte length of 1, or of 256 to 511, begins
  like a start code; every other length is recognised as a length.
\<close>

definition like_start_code :: "bytes \<Rightarrow> bool" where
  "like_start_code nal \<longleftrightarrow> length nal = 1 \<or> 256 \<le> length nal \<and> length nal < 512"

lemma framing_guess:
  assumes "length nal < 2 ^ 32"
  shows "align_format c (len_prefixed 4 nal @ rest) =
    (if like_start_code nal then AnnexB else LengthPrefixed (cc_nal_length_size c))"
proof -
  define l where "l = length nal"
  have low: "of_nat (x mod 256) = (0 :: u8) \<longleftrightarrow> x mod 256 = 0" "of_nat (x mod 256) = (1 :: u8) \<longleftrightarrow> x mod 256 = 1" for x :: nat
    by (simp_all add: word_unat_eq_iff unat_of_nat)
  have "starts_with (len_prefixed 4 nal @ rest) [0, 0, 1] \<longleftrightarrow>
      l div 16777216 mod 256 = 0 \<and> l div 65536 mod 256 = 0 \<and> l div 256 mod 256 = 1"
    by (simp add: starts_with_def len_prefixed_def be_bytes_numeral low div_mult2_eq [symmetric] l_def [symmetric])
  moreover have "starts_with (len_prefixed 4 nal @ rest) [0, 0, 0, 1] \<longleftrightarrow>
      l div 16777216 mod 256 = 0 \<and> l div 65536 mod 256 = 0 \<and> l div 256 mod 256 = 0 \<and> l mod 256 = 1"
    by (simp add: starts_with_def len_prefixed_def be_bytes_numeral low div_mult2_eq [symmetric] l_def [symmetric])
  moreover have "l div 16777216 mod 256 = 0 \<and> l div 65536 mod 256 = 0 \<longleftrightarrow> l < 65536"
  proof -
    have "l div 16777216 < 256" using assms by (simp add: l_def div_less_iff_less_mult)
    then have low_byte: "l div 16777216 mod 256 = l div 16777216" by (rule mod_less)
    have high: "l div 16777216 mod 256 = 0 \<longleftrightarrow> l < 16777216" unfolding low_byte by (simp add: div_eq_0_iff)
    have "l div 65536 mod 256 = 0 \<longleftrightarrow> l < 65536" if "l < 16777216"
    proof -
      have "l div 65536 < 256" using that by (simp add: div_less_iff_less_mult)
      then have low_byte: "l div 65536 mod 256 = l div 65536" by (rule mod_less)
      show ?thesis unfolding low_byte by (simp add: div_eq_0_iff)
    qed
    moreover have "l < 65536 \<Longrightarrow> l < 16777216" by linarith
    ultimately show ?thesis using high by metis
  qed
  moreover have "(l div 256 mod 256 = 1 \<longleftrightarrow> 256 \<le> l \<and> l < 512) \<and> (l div 256 mod 256 = 0 \<and> l mod 256 = 1 \<longleftrightarrow> l = 1)" if "l < 65536"
  proof -
    have "l div 256 < 256" using that by (simp add: div_less_iff_less_mult)
    then have "l div 256 mod 256 = l div 256" by simp
    moreover have "q = 1 \<longleftrightarrow> 256 \<le> l \<and> l < 512" "q = 0 \<and> r = 1 \<longleftrightarrow> l = 1"
      if "l = q * 256 + r" "r < 256" for q r using that by arith+
    from this [of "l div 256" "l mod 256"] have "l div 256 = 1 \<longleftrightarrow> 256 \<le> l \<and> l < 512"
      "l div 256 = 0 \<and> l mod 256 = 1 \<longleftrightarrow> l = 1" by simp_all
    ultimately show ?thesis by metis
  qed
  moreover have "l = 1 \<or> l < 512 \<Longrightarrow> l < 65536" by auto
  ultimately have "starts_with (len_prefixed 4 nal @ rest) [0, 0, 1] \<or> starts_with (len_prefixed 4 nal @ rest) [0, 0, 0, 1]
      \<longleftrightarrow> l = 1 \<or> 256 \<le> l \<and> l < 512" by metis
  then show ?thesis by (simp add: align_format_def like_start_code_def l_def)
qed

lemma parsed_framing:
  assumes "parse_access_unit codec (LengthPrefixed NlsFour) data = Ok p"
  shows "align_format c data =
    (if like_start_code (hd (au_nals p)) then AnnexB else LengthPrefixed (cc_nal_length_size c))"
proof -
  have split: "split_nals (LengthPrefixed NlsFour) data = Ok (au_nals p)" using assms by (simp add: parse_Ok_iff)
  then obtain n ns where nals: "au_nals p = n # ns" using split_nals_some [OF split] by (cases "au_nals p") auto
  have data: "data = len_prefixed 4 n @ concat (map (len_prefixed 4) ns)" "length data \<le> MAX_ACCESS_UNIT_BYTES"
    using split nals by (auto simp: split_nals_lp_iff)
  have "length n \<le> length data" by (simp add: data(1) len_prefixed_def)
  with data(2) have "length n < 2 ^ 32" by (simp add: MAX_ACCESS_UNIT_BYTES_def)
  from framing_guess [OF this] show ?thesis by (simp add: data(1) nals)
qed

text \<open>C36: Aligning keeps the picture and restores the parameter sets. Take an access unit in four-byte
  lengths under a complete configuration. Unless the length of its first unit reads like a start code
  (it is 1, or 256 to 511), what \<open>align_access_unit\<close> returns is again one picture of the same kind, and
  every parameter set in it is byte for byte a committed one. If it does, the function takes the access
  unit for Annex B, and returns it as it is unless it also parses so.
\<close>

theorem aligned_unit_matches_configuration:
  assumes ok: "config_ok c" and four: "cc_nal_length_size c = NlsFour"
    and parse: "parse_access_unit (cc_codec c) (LengthPrefixed NlsFour) data = Ok p"
    and out: "align_access_unit env c data = Ok out"
  shows "if like_start_code (hd (au_nals p))
    then align_format c data = AnnexB \<and>
      ((\<nexists>q. parse_access_unit (cc_codec c) AnnexB data = Ok q) \<longrightarrow> out = data)
    else \<exists>p'. parse_access_unit (cc_codec c) (LengthPrefixed NlsFour) out = Ok p' \<and>
      validate_parameter_sets c p' = Ok () \<and> au_picture p' = au_picture p \<and>
      length (au_nals p') = length (au_nals p)"
proof (cases "like_start_code (hd (au_nals p))")
  case True
  with parsed_framing [OF parse, of c] out show ?thesis
    by (auto simp: align_access_unit_def split: result.splits)
next
  case False
  with parsed_framing [OF parse, of c] four have fmt: "align_format c data = LengthPrefixed NlsFour" by simp
  from aligned_lengths [OF ok fmt parse out] False show ?thesis by simp
qed

definition unaligned_unit :: bytes where
  "unaligned_unit = [0, 0, 0, 5, 0x67, 100, 0, 40, 8, 0, 0, 0, 2, 0x65, 0x88]"

definition aligned_unit :: bytes where
  "aligned_unit = [0, 0, 0, 5, 0x67, 100, 0, 40, 9, 0, 0, 0, 2, 0x65, 0x88]"

definition idr_unit :: "bytes list \<Rightarrow> access_unit" where
  "idr_unit nals = \<lparr> au_codec = AvcCodec, au_nals = nals,
     au_picture = \<lparr> pi_kind = RandomAccess AvcIdr, pi_discardable = False \<rparr> \<rparr>"

lemmas alignment_evals =
  canonical_access_unit_def parse_access_unit_def split_nals_def MAX_ACCESS_UNIT_BYTES_def
  start_code_def split_annexb.simps slice_range_def trim_zeros_def push_nal_def split_lp.simps
  MAX_NALS_PER_ACCESS_UNIT_def inspect_picture_def inspect_nal_def nal_type_def is_vcl_def
  first_slice_flag_def slice_picture_def write_nals_def nal_header_def u32_be_def be_bytes_numeral
  be_val_def align_access_unit_def align_format_def starts_with_def align_nal_def committed_sets_def
  avc_sps_may_align_def parse_avc_def sample_config_def sample_env_def sample_sps_def sample_pps_def
  sps_kind_def pps_kind_def from_sps_def sample_avc_sps_def avc_dimension_def avc_crops_def
  avc_chroma_location_def visible_part_def avc_color_def geometry_of_def BT709_def unaligned_unit_def
  aligned_unit_def idr_unit_def validate_parameter_sets_def

theorem aligned_unit_matches_configuration_witness:
  "\<exists>p'. parse_access_unit (cc_codec sample_config) (LengthPrefixed NlsFour) aligned_unit = Ok p' \<and>
     validate_parameter_sets sample_config p' = Ok () \<and>
     au_picture p' = au_picture (idr_unit [[0x67, 100, 0, 40, 8], [0x65, 0x88]]) \<and>
     length (au_nals p') = length (au_nals (idr_unit [[0x67, 100, 0, 40, 8], [0x65, 0x88]]))"
proof -
  have parse: "parse_access_unit (cc_codec sample_config) (LengthPrefixed NlsFour) unaligned_unit =
      Ok (idr_unit [[0x67, 100, 0, 40, 8], [0x65, 0x88]])"
    by (simp add: alignment_evals)
  have out: "align_access_unit sample_env sample_config unaligned_unit = Ok aligned_unit"
    by (simp add: alignment_evals)
  have "cc_nal_length_size sample_config = NlsFour" by (simp add: sample_config_def)
  from aligned_unit_matches_configuration [OF sample_config_ok this parse out] show ?thesis
    by (simp add: like_start_code_def idr_unit_def)
qed

text \<open>
  The guess can be wrong: this access unit is read as Annex B, found to hold no picture, and returned
  as it is, although it is one picture in four-byte lengths with a foreign parameter set.
\<close>

lemma foreign_set_not_aligned:
  "canonical_access_unit AvcCodec (LengthPrefixed NlsFour) ([0, 0, 0, 1, 9] @ unaligned_unit) =
     Ok ([0, 0, 0, 1, 9] @ unaligned_unit) \<and>
   parse_access_unit AvcCodec (LengthPrefixed NlsFour) ([0, 0, 0, 1, 9] @ unaligned_unit) =
     Ok (idr_unit [[9], [0x67, 100, 0, 40, 8], [0x65, 0x88]]) \<and>
   validate_parameter_sets sample_config (idr_unit [[9], [0x67, 100, 0, 40, 8], [0x65, 0x88]]) \<noteq> Ok () \<and>
   align_access_unit sample_env sample_config ([0, 0, 0, 1, 9] @ unaligned_unit) =
     Ok ([0, 0, 0, 1, 9] @ unaligned_unit)"
proof (intro conjI)
  show "parse_access_unit AvcCodec (LengthPrefixed NlsFour) ([0, 0, 0, 1, 9] @ unaligned_unit) =
      Ok (idr_unit [[9], [0x67, 100, 0, 40, 8], [0x65, 0x88]])"
    by (simp add: alignment_evals)
  then show "canonical_access_unit AvcCodec (LengthPrefixed NlsFour) ([0, 0, 0, 1, 9] @ unaligned_unit) =
      Ok ([0, 0, 0, 1, 9] @ unaligned_unit)"
    by (simp add: canonical_access_unit_def)
  show "align_access_unit sample_env sample_config ([0, 0, 0, 1, 9] @ unaligned_unit) =
      Ok ([0, 0, 0, 1, 9] @ unaligned_unit)"
    by (simp add: alignment_evals)
qed (simp add: alignment_evals)

text \<open>Declaring the colour is idempotent. Whatever the parsers do, a parameter set that
  \<open>ensure_bt709_limited\<close> returned is returned unchanged the next time, and it keeps the geometry of
  the one it was made from.
\<close>

lemma colour_rewrite_idempotent:
  assumes "ensure_bt709_limited env nal = Ok out"
  shows "ensure_bt709_limited env out = Ok out \<and>
    (\<exists>before after. parse_avc env nal = Ok before \<and> parse_avc env out = Ok after \<and>
       geometry_of after = geometry_of before \<and> vs_color after = Some BT709)"
proof -
  from assms obtain facts where facts: "parse_avc env nal = Ok facts"
    by (auto simp: ensure_bt709_limited_def rbind_Ok_iff)
  show ?thesis
  proof (cases "vs_color facts = Some BT709")
    case True
    with assms facts show ?thesis by (auto simp: ensure_bt709_limited_def)
  next
    case False
    with assms facts obtain admitted where "parse_avc env out = Ok admitted"
      "vs_color admitted = Some BT709" "geometry_of admitted = geometry_of facts"
      by (auto simp: ensure_bt709_limited_def rbind_Ok_iff Let_def split: if_splits)
    with facts show ?thesis by (auto simp: ensure_bt709_limited_def)
  qed
qed

end
