(* ===== verification/Native_Configuration.thy ===== *)
theory Native_Configuration
  imports Codec_Configuration Media_Format
begin

text \<open>
  The format a stream configuration really has: \<open>crates/picoo-protocol/src/native_configuration.rs\<close>
  derives it from the codec configuration record and compares the labels the sender put beside it.
\<close>

section \<open>Formats of codec configurations\<close>

definition map_err :: "('e \<Rightarrow> 'f) \<Rightarrow> ('a, 'e) result \<Rightarrow> ('a, 'f) result" where
  "map_err f r = (case r of Ok a \<Rightarrow> Ok a | Err e \<Rightarrow> Err (f e) | Panic \<Rightarrow> Panic)"

lemma map_err_Ok_iff [result_iff]: "map_err f r = Ok a \<longleftrightarrow> r = Ok a"
  by (simp add: map_err_def split: result.split)

definition source_format :: "codec_configuration \<Rightarrow> video_sps_facts \<Rightarrow> video_color_facts \<Rightarrow> nat \<Rightarrow> video_format" where
  "source_format c facts color fps =
     (let f = sdr_709 (case cc_codec c of AvcCodec \<Rightarrow> Avc | HevcCodec \<Rightarrow> Hevc)
                \<lparr> rs_width = vs_coded_width facts, rs_height = vs_coded_height facts \<rparr>
                \<lparr> fr_numerator = fps, fr_denominator = 1 \<rparr>
                (if vc_full_range color then RangeFull else RangeLimited);
          f = (if cc_high_tier c then f\<lparr> vf_tier := tier_i32 TierHevcHigh \<rparr> else f)
      in f\<lparr> vf_visible_rect := Some \<lparr> vr_x = vs_visible_x facts, vr_y = vs_visible_y facts,
                vr_width = vs_visible_width facts, vr_height = vs_visible_height facts \<rparr> \<rparr>)"

definition from_codec_configuration ::
  "syntax_env \<Rightarrow> codec_configuration \<Rightarrow> nat \<Rightarrow> (video_format, media_format_error) result" where
  "from_codec_configuration env c fps =
     (if cc_nal_length_size c \<noteq> NlsFour then Err ''requires four-byte NAL lengths''
      else rbind (map_err (\<lambda>_. ''invalid codec source facts'') (source_facts env c)) (\<lambda>facts.
        rbind (ok_or (vs_color facts) ''missing source color'') (\<lambda>color.
          if (vc_primaries color, vc_transfer color, vc_matrix color) \<noteq> (1, 1, 1) \<or>
             (case vs_aspect facts of None \<Rightarrow> False | Some (x, y) \<Rightarrow> x \<noteq> y) \<or> vs_chroma_location facts > 1
          then Err ''unsupported source presentation''
          else rbind (format_validate (source_format c facts color fps)) (\<lambda>_. Ok (source_format c facts color fps)))))"

definition codec_of_i32 :: "int \<Rightarrow> codec option" where
  "codec_of_i32 v =
     (case codec_try_from v of Some Avc \<Rightarrow> Some AvcCodec | Some Hevc \<Rightarrow> Some HevcCodec | _ \<Rightarrow> None)"

definition check_labels ::
  "stream_config \<Rightarrow> codec_configuration \<Rightarrow> video_format \<Rightarrow> (video_format, media_format_error) result" where
  "check_labels config c f =
     (case (vf_visible_rect f, vf_color f) of
        (Some visible, Some color) \<Rightarrow>
          if sc_profile config \<noteq> vf_profile f \<or> sc_level_idc config \<noteq> cc_level_idc c \<or>
             (sc_width config, sc_height config) \<noteq> (vr_width visible, vr_height visible) \<or>
             sc_color_range config \<noteq> cd_range color \<or> sc_rotation config \<notin> {0, 90, 180, 270}
          then Err ''stream labels differ from actual source''
          else Ok f
      | _ \<Rightarrow> Panic)"

definition validated_video_format :: "syntax_env \<Rightarrow> stream_config \<Rightarrow> (video_format, media_format_error) result" where
  "validated_video_format env config =
     rbind (ok_or (codec_of_i32 (sc_codec config)) ''unknown stream codec'') (\<lambda>codec.
     rbind (map_err (\<lambda>_. ''invalid codec configuration'')
              (parse_configuration env codec (sc_codec_configuration config))) (\<lambda>c.
     rbind (from_codec_configuration env c (sc_fps config)) (check_labels config c)))"

section \<open>Properties\<close>

lemma source_format_codec:
  "vf_codec (source_format c facts color fps) = codec_i32 (case cc_codec c of AvcCodec \<Rightarrow> Avc | HevcCodec \<Rightarrow> Hevc)"
  by (simp add: source_format_def Let_def sdr_709_def)

lemma source_format_visible:
  "vf_visible_rect (source_format c facts color fps) =
     Some \<lparr> vr_x = vs_visible_x facts, vr_y = vs_visible_y facts, vr_width = vs_visible_width facts,
       vr_height = vs_visible_height facts \<rparr>"
  by (simp add: source_format_def Let_def)

lemma source_format_color:
  "vf_color (source_format c facts color fps) = Some \<lparr> cd_range = range_i32 (if vc_full_range color then RangeFull else RangeLimited),
     cd_primaries = COLOR_BT709, cd_transfer = COLOR_BT709, cd_matrix = COLOR_BT709 \<rparr>"
  by (simp add: source_format_def Let_def sdr_709_def)

lemma from_codec_configuration_Ok:
  assumes "from_codec_configuration env c fps = Ok f"
  obtains facts color where "source_facts env c = Ok facts" "vs_color facts = Some color"
    "f = source_format c facts color fps" "format_ok f" "cc_nal_length_size c = NlsFour"
    "(vc_primaries color, vc_transfer color, vc_matrix color) = (1, 1, 1)"
proof -
  have four: "cc_nal_length_size c = NlsFour"
    using assms by (auto simp: from_codec_configuration_def split: if_splits)
  with assms obtain facts color where *: "source_facts env c = Ok facts" "vs_color facts = Some color"
      "(if (vc_primaries color, vc_transfer color, vc_matrix color) \<noteq> (1, 1, 1) \<or>
          (case vs_aspect facts of None \<Rightarrow> False | Some (x, y) \<Rightarrow> x \<noteq> y) \<or> vs_chroma_location facts > 1
        then Err ''unsupported source presentation''
        else rbind (format_validate (source_format c facts color fps)) (\<lambda>_. Ok (source_format c facts color fps))) = Ok f"
    by (auto simp: from_codec_configuration_def rbind_Ok_iff map_err_Ok_iff ok_or_Ok_iff cong: if_cong)
  from *(3) have "(vc_primaries color, vc_transfer color, vc_matrix color) = (1, 1, 1)"
      "format_validate (source_format c facts color fps) = Ok ()" "f = source_format c facts color fps"
    by (auto simp: rbind_Ok_iff split: if_split_asm)
  with *(1,2) four that show ?thesis by (simp add: validate_Ok)
qed

text \<open>C40: The labels of an admitted stream are the facts of its source. When \<open>validated_video_format\<close>
  accepts a configuration, the record in it parses to a complete configuration with four-byte NAL
  lengths whose parameter sets all describe one source; width, height, level, profile, codec and colour
  range of the message are those of that source, the rotation is a quarter turn, and the format is one
  the negotiation admits.\<close>

theorem stream_labels_match_source:
  assumes "validated_video_format env config = Ok f"
  shows "format_ok f \<and> vf_codec f = sc_codec config \<and> vf_profile f = sc_profile config \<and>
    (\<exists>codec c facts color. codec_of_i32 (sc_codec config) = Some codec \<and>
       parse_configuration env codec (sc_codec_configuration config) = Ok c \<and> config_ok c \<and> cc_codec c = codec \<and>
       cc_nal_length_size c = NlsFour \<and> source_facts env c = Ok facts \<and> vs_color facts = Some color \<and>
       (sc_width config, sc_height config) = (vs_visible_width facts, vs_visible_height facts) \<and>
       sc_level_idc config = cc_level_idc c \<and>
       sc_color_range config = range_i32 (if vc_full_range color then RangeFull else RangeLimited)) \<and>
    sc_rotation config \<in> {0, 90, 180, 270}"
proof -
  obtain codec c f' where codec: "codec_of_i32 (sc_codec config) = Some codec"
    and c: "parse_configuration env codec (sc_codec_configuration config) = Ok c"
      "from_codec_configuration env c (sc_fps config) = Ok f'" "check_labels config c f' = Ok f"
    using assms by (auto simp: validated_video_format_def rbind_Ok_iff map_err_Ok_iff ok_or_Ok_iff)
  from parsed_configuration_complete [OF c(1)] have ok: "config_ok c" "cc_codec c = codec" by simp_all
  obtain facts color where f': "source_facts env c = Ok facts" "vs_color facts = Some color"
      "f' = source_format c facts color (sc_fps config)" "format_ok f'" "cc_nal_length_size c = NlsFour"
    by (rule from_codec_configuration_Ok [OF c(2)])
  have "f = f' \<and> sc_profile config = vf_profile f' \<and> sc_level_idc config = cc_level_idc c \<and>
      (sc_width config, sc_height config) = (vs_visible_width facts, vs_visible_height facts) \<and>
      sc_color_range config = range_i32 (if vc_full_range color then RangeFull else RangeLimited) \<and>
      sc_rotation config \<in> {0, 90, 180, 270}"
    using c(3) unfolding check_labels_def f'(3) source_format_visible source_format_color
    by (simp del: insert_iff split: if_split_asm)
  then have labels: "f = f'" "sc_profile config = vf_profile f'" "sc_level_idc config = cc_level_idc c"
    "(sc_width config, sc_height config) = (vs_visible_width facts, vs_visible_height facts)"
    "sc_color_range config = range_i32 (if vc_full_range color then RangeFull else RangeLimited)"
    "sc_rotation config \<in> {0, 90, 180, 270}" by blast+
  note f = f' [folded labels(1)]
  have "vf_codec f = sc_codec config"
    using codec ok(2) by (auto simp: f(3) source_format_codec codec_of_i32_def codec_i32_iff split: option.splits video_codec.splits)
  moreover have "vf_profile f = sc_profile config" using labels(1,2) by simp
  moreover have "\<exists>codec c facts color. codec_of_i32 (sc_codec config) = Some codec \<and>
       parse_configuration env codec (sc_codec_configuration config) = Ok c \<and> config_ok c \<and> cc_codec c = codec \<and>
       cc_nal_length_size c = NlsFour \<and> source_facts env c = Ok facts \<and> vs_color facts = Some color \<and>
       (sc_width config, sc_height config) = (vs_visible_width facts, vs_visible_height facts) \<and>
       sc_level_idc config = cc_level_idc c \<and>
       sc_color_range config = range_i32 (if vc_full_range color then RangeFull else RangeLimited)"
    by (intro exI conjI) (fact codec c(1) ok f(1,2,5) labels(3-5))+
  ultimately show ?thesis using f(4) labels(6) by blast
qed

definition sample_stream :: stream_config where
  "sample_stream = \<lparr> sc_codec = 1, sc_profile = 1, sc_level_idc = 40, sc_width = 1280, sc_height = 720, sc_fps = 30,
     sc_bitrate = 6000000, sc_rotation = 90, sc_mirrored = True, sc_color_range = 1,
     sc_codec_configuration = sample_record, sc_stream_epoch = 5 \<rparr>"

lemma sample_parse: "parse_configuration sample_env AvcCodec sample_record = Ok sample_config"
  by (simp add: parse_configuration_def sample_env_def sample_config_def sample_record_def sample_sps_def
      sample_pps_def sample_avc_record_def MAX_CONFIG_BYTES_def preflight_def preflight_avc_def
      rb_skip_def rb_byte_def rb_sets_def rb_u16_def be_val_def MAX_PARAMETER_SETS_def
      config_of_avc_def avc_header_matches_def length_size_def sps_kind_def pps_kind_def nal_type_def)

definition sample_facts :: video_sps_facts where
  "sample_facts = \<lparr> vs_coded_width = 1280, vs_coded_height = 720, vs_visible_x = 0, vs_visible_y = 0,
     vs_visible_width = 1280, vs_visible_height = 720, vs_aspect = None, vs_color = Some BT709, vs_chroma_location = 0 \<rparr>"

lemma sample_source: "source_facts sample_env sample_config = Ok sample_facts"
proof -
  have "parse_avc sample_env sample_sps = from_sps (sample_avc_sps True)"
    by (simp add: parse_avc_def sample_env_def sample_sps_def)
  also have "\<dots> = Ok sample_facts"
    by (simp add: from_sps_def sample_avc_sps_def avc_dimension_def avc_crops_def visible_part_def avc_chroma_location_def
        avc_color_def sample_facts_def BT709_def)
  finally show ?thesis by (simp add: source_facts_def sample_config_def sps_source_facts_def)
qed

definition native_sample_format :: video_format where
  "native_sample_format = sdr_709 Avc \<lparr> rs_width = 1280, rs_height = 720 \<rparr> \<lparr> fr_numerator = 30, fr_denominator = 1 \<rparr> RangeLimited"

lemma sample_validates: "validated_video_format sample_env sample_stream = Ok native_sample_format"
proof -
  have f: "source_format sample_config sample_facts BT709 30 = native_sample_format"
    by (simp add: source_format_def sample_config_def sample_facts_def BT709_def native_sample_format_def sdr_709_def)
  have "format_validate native_sample_format = Ok ()"
    by (simp add: validate_Ok format_ok_def native_sample_format_def sdr_709_def codec_i32_iff supported_size_def)
  then have "rbind (format_validate (source_format sample_config sample_facts BT709 30))
      (\<lambda>_. Ok (source_format sample_config sample_facts BT709 30)) = Ok native_sample_format"
    by (simp add: f)
  moreover have "cc_nal_length_size sample_config = NlsFour" by (simp add: sample_config_def)
  moreover have "vs_color sample_facts = Some BT709" "vs_aspect sample_facts = None" "vs_chroma_location sample_facts = 0"
    "(vc_primaries BT709, vc_transfer BT709, vc_matrix BT709) = (1, 1, 1)"
    by (simp_all add: sample_facts_def BT709_def)
  ultimately have "from_codec_configuration sample_env sample_config 30 = Ok native_sample_format"
    by (simp add: from_codec_configuration_def sample_source map_err_def)
  moreover have "check_labels sample_stream sample_config native_sample_format = Ok native_sample_format"
    by (simp add: check_labels_def native_sample_format_def sdr_709_def sample_stream_def sample_config_def)
  ultimately show ?thesis
    by (simp add: validated_video_format_def codec_of_i32_def codec_try_from_def sample_parse map_err_def sample_stream_def)
qed

theorem stream_labels_match_source_witness: "format_ok native_sample_format"
  using stream_labels_match_source [OF sample_validates] by blast

end
