(* ===== verification/Source_Format.thy ===== *)
theory Source_Format
  imports Native_Configuration
begin

text \<open>
  What the sender asks of its camera, and the configuration the camera's encoder answers with:
  \<open>crates/picoo-sender/src/source_format.rs\<close> and \<open>stream_config.rs\<close>. A request names codec, visible
  height and frame rate; the wire message is built from the codec configuration record and its facts.
\<close>

section \<open>Requests\<close>

record source_request =
  sq_codec :: codec
  sq_height :: nat
  sq_fps :: nat

definition PRODUCT_FORMATS :: "source_request list" where
  "PRODUCT_FORMATS =
     [\<lparr> sq_codec = AvcCodec, sq_height = 1080, sq_fps = 60 \<rparr>, \<lparr> sq_codec = AvcCodec, sq_height = 1080, sq_fps = 30 \<rparr>,
      \<lparr> sq_codec = AvcCodec, sq_height = 720, sq_fps = 60 \<rparr>, \<lparr> sq_codec = AvcCodec, sq_height = 720, sq_fps = 30 \<rparr>,
      \<lparr> sq_codec = HevcCodec, sq_height = 1080, sq_fps = 60 \<rparr>, \<lparr> sq_codec = HevcCodec, sq_height = 1080, sq_fps = 30 \<rparr>,
      \<lparr> sq_codec = HevcCodec, sq_height = 720, sq_fps = 60 \<rparr>, \<lparr> sq_codec = HevcCodec, sq_height = 720, sq_fps = 30 \<rparr>]"

definition is_product_format :: "source_request \<Rightarrow> bool" where
  "is_product_format q \<longleftrightarrow> sq_height q \<in> {720, 1080} \<and> sq_fps q \<in> {30, 60}"

definition request_format :: "source_request \<Rightarrow> video_format" where
  "request_format q =
     sdr_709 (case sq_codec q of AvcCodec \<Rightarrow> Avc | HevcCodec \<Rightarrow> Hevc)
       \<lparr> rs_width = (if sq_height q = 720 then 1280 else 1920), rs_height = sq_height q \<rparr>
       \<lparr> fr_numerator = sq_fps q, fr_denominator = 1 \<rparr> RangeLimited"

text \<open>The offer's own storage size, tier and crop origin are put into the request before they are compared.\<close>

definition offer_matches :: "source_request \<Rightarrow> decoder_offer \<Rightarrow> bool" where
  "offer_matches q offer \<longleftrightarrow>
     (case do_format offer of
        None \<Rightarrow> False
      | Some candidate \<Rightarrow>
          (case (vf_visible_rect candidate, vf_visible_rect (request_format q)) of
             (Some crop, Some visible) \<Rightarrow>
               candidate = request_format q \<lparr> vf_coded_size := vf_coded_size candidate, vf_tier := vf_tier candidate,
                 vf_visible_rect := Some (crop \<lparr> vr_width := vr_width visible, vr_height := sq_height q \<rparr>) \<rparr>
           | _ \<Rightarrow> False))"

definition is_offered_by :: "source_request \<Rightarrow> capabilities \<Rightarrow> bool" where
  "is_offered_by q caps \<longleftrightarrow> is_product_format q \<and> caps_validate caps = Ok () \<and> list_ex (offer_matches q) caps"

section \<open>Stream parameters\<close>

record stream_params =
  pm_width :: nat
  pm_height :: nat
  pm_fps :: nat
  pm_bitrate_bps :: nat
  pm_stream_epoch :: nat
  pm_mirrored :: bool
  pm_rotation :: nat
  pm_configuration :: codec_configuration

definition params_request :: "stream_params \<Rightarrow> source_request" where
  "params_request c = \<lparr> sq_codec = cc_codec (pm_configuration c), sq_height = pm_height c, sq_fps = pm_fps c \<rparr>"

definition request_matches :: "source_request \<Rightarrow> stream_params \<Rightarrow> bool" where
  "request_matches q c \<longleftrightarrow> is_product_format q \<and> sq_codec q = cc_codec (pm_configuration c) \<and>
     sq_height q = pm_height c \<and> pm_width c = (if sq_height q = 720 then 1280 else 1920) \<and> sq_fps q = pm_fps c"

definition params_wire :: "stream_params \<Rightarrow> video_color_facts \<Rightarrow> stream_config" where
  "params_wire c color =
     \<lparr> sc_codec = codec_i32 (case cc_codec (pm_configuration c) of AvcCodec \<Rightarrow> Avc | HevcCodec \<Rightarrow> Hevc),
       sc_profile = profile_i32 (case cc_codec (pm_configuration c) of AvcCodec \<Rightarrow> AvcHigh | HevcCodec \<Rightarrow> HevcMain),
       sc_level_idc = cc_level_idc (pm_configuration c), sc_width = pm_width c, sc_height = pm_height c,
       sc_fps = pm_fps c, sc_bitrate = pm_bitrate_bps c, sc_rotation = pm_rotation c, sc_mirrored = pm_mirrored c,
       sc_color_range = range_i32 (if vc_full_range color then RangeFull else RangeLimited),
       sc_codec_configuration = cc_record (pm_configuration c), sc_stream_epoch = pm_stream_epoch c \<rparr>"

definition to_proto :: "syntax_env \<Rightarrow> stream_params \<Rightarrow> (stream_config, bitstream_error) result" where
  "to_proto env c =
     (if pm_fps c \<notin> {30, 60} \<or> pm_rotation c \<notin> {0, 90, 180, 270}
      then Err (Unsupported ''source frame rate or rotation'')
      else rbind (validate_visible_size env (pm_configuration c) (pm_width c) (pm_height c)) (\<lambda>_.
        rbind (source_facts env (pm_configuration c)) (\<lambda>facts.
        rbind (ok_or (vs_color facts) (Unsupported ''missing source color'')) (\<lambda>color.
          if (vc_primaries color, vc_transfer color, vc_matrix color) \<noteq> (1, 1, 1)
          then Err (Unsupported ''source is not BT.709 SDR'')
          else if cc_nal_length_size (pm_configuration c) \<noteq> NlsFour
          then Err (Unsupported ''wire requires four-byte NAL lengths'')
          else Ok (params_wire c color)))))"

section \<open>Facts\<close>

lemma product_formats_exact: "q \<in> set PRODUCT_FORMATS \<longleftrightarrow> is_product_format q"
proof -
  have "q = \<lparr> sq_codec = sq_codec q, sq_height = sq_height q, sq_fps = sq_fps q \<rparr>" by simp
  then show ?thesis
    by (cases "sq_codec q") (auto simp: PRODUCT_FORMATS_def is_product_format_def intro: source_request.equality)
qed

lemma request_matches_params: "request_matches q c \<Longrightarrow> params_request c = q"
  by (cases q) (auto simp: request_matches_def params_request_def)

lemma to_proto_Ok:
  "to_proto env c = Ok wire \<longleftrightarrow>
     (\<exists>facts color. pm_fps c \<in> {30, 60} \<and> pm_rotation c \<in> {0, 90, 180, 270} \<and>
        source_facts env (pm_configuration c) = Ok facts \<and> vs_color facts = Some color \<and>
        (vs_visible_width facts, vs_visible_height facts) = (pm_width c, pm_height c) \<and>
        (vc_primaries color, vc_transfer color, vc_matrix color) = (1, 1, 1) \<and>
        cc_nal_length_size (pm_configuration c) = NlsFour \<and> wire = params_wire c color)"
  by (cases "source_facts env (pm_configuration c)")
    (auto simp: to_proto_def validate_visible_size_def ok_or_def split: option.splits)

lemma to_proto_epoch: "to_proto env c = Ok wire \<Longrightarrow>
    to_proto env (c \<lparr> pm_stream_epoch := e \<rparr>) = Ok (wire \<lparr> sc_stream_epoch := e \<rparr>)"
  by (auto simp: to_proto_Ok params_wire_def)

end
