(* ===== verification/Encoder_Transaction.thy ===== *)
theory Encoder_Transaction
  imports Source_Format
begin

text \<open>
  The encoder apply transaction of \<open>crates/picoo-sender/src/session/encoder_transaction.rs\<close>, with the
  directive of \<open>session/mod.rs\<close>: a requested encoder change stays pending until the encoder that was
  started for it delivers a keyframe of the announced epoch and height. A generation of zero means
  that no encoder is bound. \<open>&mut self\<close> is the state in the result.
\<close>

section \<open>Transactions\<close>

definition ENCODER_APPLY_TIMEOUT :: nat where "ENCODER_APPLY_TIMEOUT = 3 * 1000000000"

datatype directive_kind = LocalDirective | RecoveryDirective

record encoder_directive =
  ed_id :: nat
  ed_kind :: directive_kind
  ed_target :: source_request
  ed_bitrate_bps :: nat
  ed_stream_epoch :: nat

record encoder_rollback =
  erb_config :: "stream_params option"
  erb_config_sent :: bool
  erb_generation :: nat

record encoder_transaction =
  et_directive :: encoder_directive
  et_rollback :: encoder_rollback
  et_staged :: bool
  et_expected :: "nat option"
  et_deadline :: nat

datatype encoder_apply_state = EncoderCommitted | EncoderApplying encoder_transaction

datatype transaction_event = StreamConfigStaged | AbortTransaction
datatype transaction_transition = TransitionUnchanged | TransitionStaged | TransitionRollback encoder_transaction

datatype failure_transition =
    FailureIgnored | FailureRollback encoder_transaction | FailureRecover encoder_transaction
  | FailureDisconnect encoder_transaction

section \<open>Operations\<close>

fun begin_transaction ::
  "nat \<Rightarrow> encoder_directive \<Rightarrow> encoder_rollback \<Rightarrow> encoder_apply_state \<Rightarrow> encoder_apply_state \<times> bool" where
  "begin_transaction now directive rollback EncoderCommitted =
     (EncoderApplying \<lparr> et_directive = directive, et_rollback = rollback, et_staged = False, et_expected = None,
        et_deadline = now + ENCODER_APPLY_TIMEOUT \<rparr>, True)"
| "begin_transaction now directive rollback (EncoderApplying t) = (EncoderApplying t, False)"

fun is_applying :: "encoder_apply_state \<Rightarrow> bool" where
  "is_applying EncoderCommitted = False"
| "is_applying (EncoderApplying t) = True"

fun apply_directive :: "encoder_apply_state \<Rightarrow> encoder_directive option" where
  "apply_directive EncoderCommitted = None"
| "apply_directive (EncoderApplying t) = Some (et_directive t)"

fun config_staged :: "encoder_apply_state \<Rightarrow> bool" where
  "config_staged EncoderCommitted = False"
| "config_staged (EncoderApplying t) = et_staged t"

definition names_directive :: "encoder_transaction \<Rightarrow> nat \<Rightarrow> nat \<Rightarrow> nat \<Rightarrow> bool" where
  "names_directive t transaction_id stream_epoch height \<longleftrightarrow>
     ed_id (et_directive t) = transaction_id \<and> ed_stream_epoch (et_directive t) = stream_epoch \<and>
     sq_height (ed_target (et_directive t)) = height"

fun matches_native_facts :: "nat \<Rightarrow> nat \<Rightarrow> nat \<Rightarrow> nat \<Rightarrow> encoder_apply_state \<Rightarrow> bool" where
  "matches_native_facts transaction_id generation stream_epoch height EncoderCommitted = False"
| "matches_native_facts transaction_id generation stream_epoch height (EncoderApplying t) =
     (names_directive t transaction_id stream_epoch height \<and> et_expected t = Some generation)"

definition transaction_id_for_epoch :: "nat \<Rightarrow> encoder_apply_state \<Rightarrow> nat" where
  "transaction_id_for_epoch stream_epoch a =
     (case apply_directive a of
        None \<Rightarrow> 0 | Some d \<Rightarrow> if ed_stream_epoch d = stream_epoch then ed_id d else 0)"

fun report_started :: "nat \<Rightarrow> nat \<Rightarrow> nat \<Rightarrow> nat \<Rightarrow> encoder_apply_state \<Rightarrow> encoder_apply_state \<times> bool" where
  "report_started transaction_id generation stream_epoch height EncoderCommitted = (EncoderCommitted, False)"
| "report_started transaction_id generation stream_epoch height (EncoderApplying t) =
     (if transaction_id = 0 \<or> generation = 0 \<or> height = 0 then (EncoderApplying t, False)
      else if \<not> names_directive t transaction_id stream_epoch height then (EncoderApplying t, False)
      else (case et_expected t of
              Some expected \<Rightarrow> (EncoderApplying t, expected = generation)
            | None \<Rightarrow> (EncoderApplying (t \<lparr> et_expected := Some generation \<rparr>), True)))"

fun take_matching_keyframe ::
  "nat \<Rightarrow> nat \<Rightarrow> nat \<Rightarrow> nat \<Rightarrow> bool \<Rightarrow> encoder_apply_state \<Rightarrow> encoder_apply_state \<times> encoder_transaction option" where
  "take_matching_keyframe transaction_id generation stream_epoch height keyframe EncoderCommitted = (EncoderCommitted, None)"
| "take_matching_keyframe transaction_id generation stream_epoch height keyframe (EncoderApplying t) =
     (if keyframe \<and> names_directive t transaction_id stream_epoch height \<and> et_expected t = Some generation
      then (EncoderCommitted, Some t) else (EncoderApplying t, None))"

fun report_failed :: "nat \<Rightarrow> nat \<Rightarrow> encoder_apply_state \<Rightarrow> encoder_apply_state \<times> failure_transition" where
  "report_failed transaction_id generation EncoderCommitted = (EncoderCommitted, FailureIgnored)"
| "report_failed transaction_id generation (EncoderApplying t) =
     (let generation_matches = (generation = 0 \<or>
            (case et_expected t of Some expected \<Rightarrow> expected = generation | None \<Rightarrow> True))
      in if ed_id (et_directive t) \<noteq> transaction_id \<or> \<not> generation_matches then (EncoderApplying t, FailureIgnored)
         else if ed_kind (et_directive t) = RecoveryDirective then (EncoderCommitted, FailureDisconnect t)
         else (EncoderCommitted, if generation = 0 then FailureRollback t else FailureRecover t))"

fun expire_transaction :: "nat \<Rightarrow> encoder_apply_state \<Rightarrow> encoder_apply_state \<times> failure_transition" where
  "expire_transaction now EncoderCommitted = (EncoderCommitted, FailureIgnored)"
| "expire_transaction now (EncoderApplying t) =
     (if now < et_deadline t then (EncoderApplying t, FailureIgnored)
      else (EncoderCommitted,
            if ed_kind (et_directive t) = RecoveryDirective then FailureDisconnect t else FailureRecover t))"

fun reduce_transaction :: "transaction_event \<Rightarrow> encoder_apply_state \<Rightarrow> encoder_apply_state \<times> transaction_transition" where
  "reduce_transaction e EncoderCommitted = (EncoderCommitted, TransitionUnchanged)"
| "reduce_transaction StreamConfigStaged (EncoderApplying t) = (EncoderApplying (t \<lparr> et_staged := True \<rparr>), TransitionStaged)"
| "reduce_transaction AbortTransaction (EncoderApplying t) = (EncoderCommitted, TransitionRollback t)"

lemma take_matching_Some:
  "take_matching_keyframe transaction_id generation stream_epoch height keyframe a = (a', Some t) \<longleftrightarrow>
     a = EncoderApplying t \<and> a' = EncoderCommitted \<and> keyframe \<and>
     matches_native_facts transaction_id generation stream_epoch height a"
  by (cases a) auto

lemma applying_iff: "is_applying a \<longleftrightarrow> (\<exists>t. a = EncoderApplying t)"
  by (cases a) auto

end
