(* ===== verification/Trust_Store.thy ===== *)
theory Trust_Store
  imports Prelude "HOL-Library.List_Lexorder" "HOL-Library.Char_ord"
begin

text \<open>
  Trusted devices and their persistence: \<open>crates/picoo-pairing/src/lib.rs\<close>, \<open>store.rs\<close>, and the
  derived identifiers of \<open>identity.rs\<close> and \<open>handshake.rs\<close>.

  Arguments stand for what is not under \<open>src/\<close>: SHA-256, the validity of an Ed25519 key, the JSON
  printer and parser of \<open>serde\<close>, the file system, and the two Unicode string functions \<open>trim\<close> and
  \<open>to_lowercase\<close>. Strings are byte sequences; Rust compares them byte by byte, as the lexicographic
  order of lists does.
\<close>

section \<open>Identifiers\<close>

record digests =
  dg_sha256 :: "bytes \<Rightarrow> bytes"
  dg_key_valid :: "bytes \<Rightarrow> bool"

record unicode =
  un_trim :: "string \<Rightarrow> string"
  un_lower :: "string \<Rightarrow> string"

definition ascii_bytes :: "string \<Rightarrow> bytes" where
  "ascii_bytes s = map of_char s"

definition hex_digit :: "nat \<Rightarrow> char" where
  "hex_digit n = ''0123456789abcdef'' ! n"

definition hex_encode :: "bytes \<Rightarrow> string" where
  "hex_encode bs = concat (map (\<lambda>b. [hex_digit (unat b div 16), hex_digit (unat b mod 16)]) bs)"

definition derive_device_id :: "digests \<Rightarrow> bytes \<Rightarrow> string" where
  "derive_device_id dg public_key =
     ''picoo-'' @ hex_encode (take 16 (dg_sha256 dg
       (ascii_bytes ''picoo-camera device identity'' @ [0] @ public_key)))"

definition public_key_fingerprint :: "digests \<Rightarrow> bytes \<Rightarrow> string" where
  "public_key_fingerprint dg public_key = hex_encode (dg_sha256 dg public_key)"

definition PUBLIC_KEY_LEN :: nat where "PUBLIC_KEY_LEN = 32"

definition validate_identity_public_key :: "digests \<Rightarrow> bytes \<Rightarrow> bool" where
  "validate_identity_public_key dg key \<longleftrightarrow> length key = PUBLIC_KEY_LEN \<and> dg_key_valid dg key"

section \<open>The store\<close>

record trusted_device =
  td_device_id :: string
  td_device_name :: string
  td_public_key :: bytes
  td_fingerprint :: string
  td_paired_at_ms :: nat
  td_last_connected_at_ms :: "nat option"

record identity_candidate =
  tc_device_id :: string
  tc_fingerprint :: string
  tc_last_connected_at_ms :: "nat option"

record identity_replacement =
  ir_revision :: nat
  ir_current_device_id :: string
  ir_device_name :: string
  ir_previous :: "identity_candidate list"

datatype pairing_error = PublicKeyMismatch string | NotPaired

record trusted_store =
  ts_devices :: "(string \<times> trusted_device) list"
  ts_replacement :: "identity_replacement option"
  ts_next_replacement_revision :: nat
  ts_revision :: nat

definition store_new :: trusted_store where
  "store_new = \<lparr> ts_devices = [], ts_replacement = None, ts_next_replacement_revision = 1, ts_revision = 1 \<rparr>"

definition verify_public_key :: "trusted_device \<Rightarrow> bytes \<Rightarrow> (unit, pairing_error) result" where
  "verify_public_key device observed =
     (if td_public_key device = observed then Ok () else Err (PublicKeyMismatch (td_device_id device)))"

definition store_get :: "trusted_store \<Rightarrow> string \<Rightarrow> trusted_device option" where
  "store_get s = map_of (ts_devices s)"

definition bump_revision :: "trusted_store \<Rightarrow> trusted_store" where
  "bump_revision s = s\<lparr> ts_revision := sat_add64 (ts_revision s) 1 \<rparr>"

definition store_upsert :: "trusted_device \<Rightarrow> trusted_store \<Rightarrow> trusted_store" where
  "store_upsert device s =
     (if store_get s (td_device_id device) = Some device then s
      else bump_revision (s\<lparr> ts_devices := AList.update (td_device_id device) device (ts_devices s) \<rparr>))"

definition store_remove :: "string \<Rightarrow> trusted_store \<Rightarrow> trusted_store \<times> bool" where
  "store_remove device_id s =
     (let removed = store_get s device_id \<noteq> None;
          s1 = s\<lparr> ts_devices := AList.delete device_id (ts_devices s) \<rparr>
      in (if removed then bump_revision s1 else s1, removed))"

definition store_clear :: "trusted_store \<Rightarrow> trusted_store \<times> nat" where
  "store_clear s =
     (let n = length (ts_devices s); s1 = s\<lparr> ts_devices := [] \<rparr>
      in (if n > 0 then bump_revision s1 else s1, n))"

definition is_paired :: "trusted_store \<Rightarrow> string \<Rightarrow> bool" where
  "is_paired s device_id \<longleftrightarrow> store_get s device_id \<noteq> None"

definition normalized_device_name :: "unicode \<Rightarrow> string \<Rightarrow> string" where
  "normalized_device_name un name = un_lower un (un_trim un name)"

definition same_name_identity_ids :: "unicode \<Rightarrow> string \<Rightarrow> trusted_store \<Rightarrow> string list" where
  "same_name_identity_ids un device_id s =
     (case store_get s device_id of
        None \<Rightarrow> []
      | Some current \<Rightarrow>
          let current_name = normalized_device_name un (td_device_name current) in
          if current_name = [] then []
          else sort (map td_device_id (filter (\<lambda>device.
                 td_device_id device \<noteq> device_id \<and>
                 normalized_device_name un (td_device_name device) = current_name)
               (map snd (ts_devices s)))))"

definition allocate_replacement_revision :: "trusted_store \<Rightarrow> nat \<times> trusted_store" where
  "allocate_replacement_revision s =
     (let revision = max (ts_next_replacement_revision s) 1
      in (revision, s\<lparr> ts_next_replacement_revision := sat_add64 revision 1 \<rparr>))"

definition set_identity_replacement :: "identity_replacement option \<Rightarrow> trusted_store \<Rightarrow> trusted_store" where
  "set_identity_replacement replacement s =
     (if ts_replacement s = replacement then s else bump_revision (s\<lparr> ts_replacement := replacement \<rparr>))"

definition dismiss_identity_replacement :: "nat \<Rightarrow> trusted_store \<Rightarrow> trusted_store \<times> bool" where
  "dismiss_identity_replacement revision s =
     (case ts_replacement s of
        Some replacement \<Rightarrow>
          if ir_revision replacement = revision then (bump_revision (s\<lparr> ts_replacement := None \<rparr>), True)
          else (s, False)
      | None \<Rightarrow> (s, False))"

definition verify_paired_key :: "trusted_store \<Rightarrow> string \<Rightarrow> bytes \<Rightarrow> (unit, pairing_error) result" where
  "verify_paired_key s device_id observed =
     rbind (ok_or (store_get s device_id) NotPaired) (\<lambda>device. verify_public_key device observed)"

definition touch_last_connected :: "string \<Rightarrow> nat \<Rightarrow> trusted_store \<Rightarrow> trusted_store" where
  "touch_last_connected device_id now_ms s =
     (case store_get s device_id of
        None \<Rightarrow> s
      | Some device \<Rightarrow> store_upsert (device\<lparr> td_last_connected_at_ms := Some now_ms \<rparr>) s)"

definition trusted_device_from_pairing ::
  "digests \<Rightarrow> string \<Rightarrow> string \<Rightarrow> bytes \<Rightarrow> nat \<Rightarrow> trusted_device" where
  "trusted_device_from_pairing dg sender_id device_name public_key paired_at_ms =
     \<lparr> td_device_id = sender_id, td_device_name = device_name, td_public_key = public_key,
       td_fingerprint = public_key_fingerprint dg public_key, td_paired_at_ms = paired_at_ms,
       td_last_connected_at_ms = Some paired_at_ms \<rparr>"

section \<open>Persistence\<close>

definition STORE_FORMAT :: string where "STORE_FORMAT = ''picoo-camera-ed25519-trust''"

record persisted_devices =
  pd_format :: string
  pd_devices :: "trusted_device list"
  pd_replacement :: "identity_replacement option"
  pd_next_revision :: nat

datatype store_error = StoreIo | StoreJson | UnsupportedFormat string | InvalidData string

definition is_lower_hex :: "string \<Rightarrow> bool" where
  "is_lower_hex v \<longleftrightarrow> list_all (\<lambda>c. c \<in> set ''0123456789abcdef'') v"

definition is_device_id :: "string \<Rightarrow> bool" where
  "is_device_id v \<longleftrightarrow> take 6 v = ''picoo-'' \<and> length (drop 6 v) = 32 \<and> is_lower_hex (drop 6 v)"

definition is_sha256_fingerprint :: "string \<Rightarrow> bool" where
  "is_sha256_fingerprint v \<longleftrightarrow> length v = 64 \<and> is_lower_hex v"

definition validate_persisted_device :: "digests \<Rightarrow> unicode \<Rightarrow> trusted_device \<Rightarrow> (unit, store_error) result" where
  "validate_persisted_device dg un device =
     (if \<not> validate_identity_public_key dg (td_public_key device) then Err (InvalidData ''invalid identity'')
      else if derive_device_id dg (td_public_key device) \<noteq> td_device_id device
        then Err (InvalidData ''device id does not match public key'')
      else if public_key_fingerprint dg (td_public_key device) \<noteq> td_fingerprint device
        then Err (InvalidData ''public-key fingerprint does not match'')
      else if un_trim un (td_device_name device) = [] then Err (InvalidData ''device name is empty'')
      else Ok ())"

fun validate_devices ::
  "digests \<Rightarrow> unicode \<Rightarrow> string set \<Rightarrow> trusted_device list \<Rightarrow> (unit, store_error) result" where
  "validate_devices dg un seen [] = Ok ()"
| "validate_devices dg un seen (d # ds) =
     rbind (validate_persisted_device dg un d) (\<lambda>_.
       if td_device_id d \<in> seen then Err (InvalidData ''duplicate device id'')
       else validate_devices dg un (insert (td_device_id d) seen) ds)"

fun validate_candidates :: "string \<Rightarrow> string set \<Rightarrow> identity_candidate list \<Rightarrow> (unit, store_error) result" where
  "validate_candidates current seen [] = Ok ()"
| "validate_candidates current seen (c # cs) =
     (if tc_device_id c = current \<or> tc_device_id c \<in> seen \<or> \<not> is_device_id (tc_device_id c) \<or>
         \<not> is_sha256_fingerprint (tc_fingerprint c)
      then Err (InvalidData ''identity replacement contains an invalid candidate'')
      else validate_candidates current (insert (tc_device_id c) seen) cs)"

definition validate_persisted_devices :: "digests \<Rightarrow> unicode \<Rightarrow> persisted_devices \<Rightarrow> (unit, store_error) result" where
  "validate_persisted_devices dg un p =
     (if pd_next_revision p = 0 then Err (InvalidData ''next identity replacement revision is invalid'')
      else rbind (validate_devices dg un {} (pd_devices p)) (\<lambda>_.
        case pd_replacement p of
          None \<Rightarrow> Ok ()
        | Some r \<Rightarrow>
            if ir_revision r = 0 \<or> pd_next_revision p \<le> ir_revision r
            then Err (InvalidData ''identity replacement revision is invalid'')
            else if \<not> is_device_id (ir_current_device_id r) \<or> un_trim un (ir_device_name r) = [] \<or> ir_previous r = []
            then Err (InvalidData ''identity replacement current snapshot is invalid'')
            else validate_candidates (ir_current_device_id r) {} (ir_previous r)))"

text \<open>
  \<open>save_to_path\<close> returns what it wrote; \<open>print\<close> and \<open>write\<close> are the JSON printer and the atomic file
  replacement, which either writes everything or leaves the old contents.
\<close>

definition persisted_of :: "trusted_store \<Rightarrow> persisted_devices" where
  "persisted_of s =
     \<lparr> pd_format = STORE_FORMAT, pd_devices = map snd (ts_devices s), pd_replacement = ts_replacement s,
       pd_next_revision = ts_next_replacement_revision s \<rparr>"

definition save_to_path ::
  "digests \<Rightarrow> unicode \<Rightarrow> (persisted_devices \<Rightarrow> string option) \<Rightarrow> (string \<Rightarrow> bool) \<Rightarrow> trusted_store \<Rightarrow>
     (string, store_error) result" where
  "save_to_path dg un print write s =
     rbind (validate_persisted_devices dg un (persisted_of s)) (\<lambda>_.
     rbind (ok_or (print (persisted_of s)) StoreJson) (\<lambda>json.
       if write json then Ok json else Err StoreIo))"

definition self_from_json ::
  "digests \<Rightarrow> unicode \<Rightarrow> (string \<Rightarrow> persisted_devices option) \<Rightarrow> string \<Rightarrow> (trusted_store, store_error) result" where
  "self_from_json dg un parse raw =
     rbind (ok_or (parse raw) StoreJson) (\<lambda>p.
       if pd_format p \<noteq> STORE_FORMAT then Err (UnsupportedFormat (pd_format p))
       else rbind (validate_persisted_devices dg un p) (\<lambda>_.
         Ok ((fold store_upsert (pd_devices p) store_new)
               \<lparr> ts_replacement := pd_replacement p, ts_next_replacement_revision := pd_next_revision p \<rparr>)))"

text \<open>\<open>load_from_path\<close>: a missing file is an empty store.\<close>

definition load_from_path ::
  "digests \<Rightarrow> unicode \<Rightarrow> (string \<Rightarrow> persisted_devices option) \<Rightarrow> string option option \<Rightarrow>
     (trusted_store, store_error) result" where
  "load_from_path dg un parse file =
     (case file of
        None \<Rightarrow> Ok store_new
      | Some None \<Rightarrow> Err StoreIo
      | Some (Some raw) \<Rightarrow> self_from_json dg un parse raw)"


section \<open>Every device is stored under its own identifier\<close>

definition store_ok :: "trusted_store \<Rightarrow> bool" where
  "store_ok s \<longleftrightarrow> hm_ok (ts_devices s) \<and> (\<forall>(k, d) \<in> set (ts_devices s). td_device_id d = k)"

named_theorems store_intros \<open>operations of the trust store that keep its invariant\<close>

lemma store_get_id: "store_ok s \<Longrightarrow> store_get s k = Some d \<Longrightarrow> td_device_id d = k"
  by (auto simp: store_ok_def store_get_def dest: map_of_SomeD)

lemma store_ok_devices: "ts_devices s' = ts_devices s \<Longrightarrow> store_ok s' \<longleftrightarrow> store_ok s"
  by (simp add: store_ok_def)

lemma store_ok_bump [simp]: "store_ok (bump_revision s) \<longleftrightarrow> store_ok s"
  by (simp add: store_ok_def bump_revision_def)

lemma store_ok_new [store_intros]: "store_ok store_new"
  by (simp add: store_ok_def store_new_def hm_ok_def)

lemma store_ok_upsert [store_intros]: "store_ok s \<Longrightarrow> store_ok (store_upsert d s)"
  using set_alist_update [of "td_device_id d" d "ts_devices s"]
  by (auto simp: store_upsert_def store_ok_def bump_revision_def hm.ok_put split: prod.splits)

lemma store_ok_remove [store_intros]: "store_ok s \<Longrightarrow> store_ok (fst (store_remove k s))"
  using set_alist_delete [of k "ts_devices s"]
  by (auto simp: store_remove_def store_ok_def Let_def bump_revision_def hm.ok_del split: prod.splits)

lemma store_ok_replacement [store_intros]: "store_ok s \<Longrightarrow> store_ok (set_identity_replacement r s)"
  by (simp add: set_identity_replacement_def store_ok_def bump_revision_def)

lemma store_ok_allocate [store_intros]: "store_ok s \<Longrightarrow> store_ok (snd (allocate_replacement_revision s))"
  by (simp add: allocate_replacement_revision_def store_ok_def Let_def)

lemma store_ok_touch [store_intros]: "store_ok s \<Longrightarrow> store_ok (touch_last_connected k now s)"
  by (auto simp: touch_last_connected_def intro: store_ok_upsert split: option.splits)

lemma get_bump [simp]: "store_get (bump_revision s) = store_get s"
  by (simp add: store_get_def bump_revision_def)

lemma get_upsert: "store_get (store_upsert d s) k = (if k = td_device_id d then Some d else store_get s k)"
  by (simp add: store_upsert_def store_get_def bump_revision_def hm.get_put)

lemma get_remove: "store_get (fst (store_remove i s)) k = (if k = i then None else store_get s k)"
  by (simp add: store_remove_def store_get_def Let_def bump_revision_def hm.get_del)

lemma get_replacement [simp]: "store_get (set_identity_replacement r s) = store_get s"
  by (simp add: set_identity_replacement_def store_get_def bump_revision_def)

lemma get_allocate [simp]: "store_get (snd (allocate_replacement_revision s)) = store_get s"
  by (simp add: allocate_replacement_revision_def store_get_def Let_def)

lemma verify_paired_Ok_iff:
  "verify_paired_key s k key = Ok () \<longleftrightarrow> (\<exists>d. store_get s k = Some d \<and> td_public_key d = key)"
  by (auto simp: verify_paired_key_def rbind_Ok_iff ok_or_Ok_iff verify_public_key_def split: if_splits)

lemma update_new: "map_of xs k = None \<Longrightarrow> AList.update k v xs = xs @ [(k, v)]"
  by (induction xs) (auto split: if_splits)

lemma fold_upsert_devices:
  assumes "distinct (map fst (ts_devices s @ kds))" "\<forall>(k, d) \<in> set kds. td_device_id d = k"
  shows "ts_devices (fold store_upsert (map snd kds) s) = ts_devices s @ kds"
  using assms
proof (induction kds arbitrary: s)
  case (Cons kd kds)
  obtain k d where kd: "kd = (k, d)" by fastforce
  have new: "map_of (ts_devices s) k = None"
    using Cons.prems(1) by (auto simp: kd map_of_eq_None_iff)
  have "td_device_id d = k" using Cons.prems(2) by (simp add: kd)
  with new have "ts_devices (store_upsert d s) = ts_devices s @ [kd]"
    by (simp add: store_upsert_def store_get_def bump_revision_def update_new kd)
  with Cons show ?case by (simp add: kd)
qed simp

text \<open>C37: The trust store survives a restart. If the JSON parser reads what the JSON printer wrote, then
  whatever was saved loads again, with the same devices, the same pending identity replacement and
  the same revision counter for the next one.
\<close>

theorem saved_store_loads:
  assumes serde: "\<And>p j. print p = Some j \<Longrightarrow> parse j = Some p"
    and ok: "store_ok s" and saved: "save_to_path dg un print write s = Ok raw"
  shows "\<exists>s'. load_from_path dg un parse (Some (Some raw)) = Ok s' \<and> ts_devices s' = ts_devices s \<and>
    ts_replacement s' = ts_replacement s \<and> ts_next_replacement_revision s' = ts_next_replacement_revision s"
proof -
  let ?p = "persisted_of s"
  have valid: "validate_persisted_devices dg un ?p = Ok ()" and "print ?p = Some raw"
    using saved by (auto simp: save_to_path_def rbind_Ok_iff ok_or_Ok_iff split: if_splits)
  moreover have "ts_devices (fold store_upsert (map snd (ts_devices s)) store_new) = ts_devices s"
    using ok fold_upsert_devices [of store_new "ts_devices s"] by (simp add: store_ok_def hm_ok_def store_new_def)
  ultimately show ?thesis
    using serde [of ?p raw] by (simp add: load_from_path_def self_from_json_def persisted_of_def)
qed

definition sample_digests :: digests where
  "sample_digests = \<lparr> dg_sha256 = (\<lambda>bs. take 32 (drop 29 bs @ replicate 32 7)), dg_key_valid = (\<lambda>_. True) \<rparr>"

definition sample_unicode :: unicode where
  "sample_unicode = \<lparr> un_trim = (\<lambda>s. s), un_lower = (\<lambda>s. s) \<rparr>"

definition sample_device :: trusted_device where
  "sample_device = trusted_device_from_pairing sample_digests
     (derive_device_id sample_digests (replicate 32 1)) ''Phone'' (replicate 32 1) 5"

text \<open>A toy printer that knows one document, to show that the hypotheses can hold.\<close>

definition toy_print :: "persisted_devices \<Rightarrow> string option" where
  "toy_print p = (if p = persisted_of (store_upsert sample_device store_new) then Some ''doc'' else None)"

definition toy_parse :: "string \<Rightarrow> persisted_devices option" where
  "toy_parse j = (if j = ''doc'' then Some (persisted_of (store_upsert sample_device store_new)) else None)"

theorem saved_store_loads_witness:
  "\<exists>s'. load_from_path sample_digests sample_unicode toy_parse (Some (Some ''doc'')) = Ok s' \<and>
     ts_devices s' = ts_devices (store_upsert sample_device store_new) \<and>
     ts_replacement s' = ts_replacement (store_upsert sample_device store_new) \<and>
     ts_next_replacement_revision s' = ts_next_replacement_revision (store_upsert sample_device store_new)"
proof (rule saved_store_loads)
  show "toy_print p = Some j \<Longrightarrow> toy_parse j = Some p" for p j
    by (simp add: toy_print_def toy_parse_def split: if_splits)
  show "store_ok (store_upsert sample_device store_new)" by (intro store_intros)
  show "save_to_path sample_digests sample_unicode toy_print (\<lambda>_. True) (store_upsert sample_device store_new) = Ok ''doc''"
    by (simp add: save_to_path_def toy_print_def persisted_of_def store_upsert_def store_get_def store_new_def
        bump_revision_def validate_persisted_devices_def validate_persisted_device_def
        validate_identity_public_key_def sample_device_def trusted_device_from_pairing_def
        sample_digests_def sample_unicode_def PUBLIC_KEY_LEN_def)
qed

end
