(* ===== verification/Device_Identity.thy ===== *)
theory Device_Identity
  imports Trust_Store
begin

text \<open>
  The device's own identity: \<open>crates/picoo-pairing/src/identity.rs\<close>. Arguments stand for Ed25519
  (the public key of a secret key, signing, verification), the operating system's random bytes, the
  JSON printer and parser, and the file.
\<close>

section \<open>Identities\<close>

record ed25519 =
  cr_digests :: digests
  cr_public_of :: "bytes \<Rightarrow> bytes"
  cr_sign :: "bytes \<Rightarrow> bytes \<Rightarrow> bytes"
  cr_verify :: "bytes \<Rightarrow> bytes \<Rightarrow> bytes \<Rightarrow> bool"

datatype identity_error = IdentityStore store_error | IdentityInvalid string | IdentityRandom

record persisted_identity =
  pi_algorithm :: string
  pi_device_id :: string
  pi_device_name :: string
  pi_signing_key_hex :: string
  pi_public_key_hex :: string

record device_identity =
  di_device_id :: string
  di_device_name :: string
  di_signing_key :: bytes
  di_public_key :: bytes

definition IDENTITY_ALGORITHM :: string where "IDENTITY_ALGORITHM = ''Ed25519''"
definition SECRET_KEY_LEN :: nat where "SECRET_KEY_LEN = 32"
definition SIGNATURE_LEN :: nat where "SIGNATURE_LEN = 64"

definition from_signing_key :: "ed25519 \<Rightarrow> string \<Rightarrow> bytes \<Rightarrow> device_identity" where
  "from_signing_key cr device_name signing_key =
     (let public_key = cr_public_of cr signing_key
      in \<lparr> di_device_id = derive_device_id (cr_digests cr) public_key, di_device_name = device_name,
           di_signing_key = signing_key, di_public_key = public_key \<rparr>)"

definition generate_identity :: "ed25519 \<Rightarrow> bytes option \<Rightarrow> string \<Rightarrow> (device_identity, identity_error) result" where
  "generate_identity cr random device_name =
     rbind (ok_or random IdentityRandom) (\<lambda>secret. Ok (from_signing_key cr device_name secret))"

definition from_secret_bytes :: "ed25519 \<Rightarrow> string \<Rightarrow> bytes \<Rightarrow> (device_identity, identity_error) result" where
  "from_secret_bytes cr device_name secret =
     (if length secret \<noteq> SECRET_KEY_LEN then Err (IdentityInvalid ''Ed25519 signing-key length'')
      else Ok (from_signing_key cr device_name secret))"

definition identity_sign :: "ed25519 \<Rightarrow> device_identity \<Rightarrow> bytes \<Rightarrow> bytes" where
  "identity_sign cr i message = cr_sign cr (di_signing_key i) message"

definition set_device_name :: "string \<Rightarrow> device_identity \<Rightarrow> device_identity" where
  "set_device_name name i = i \<lparr> di_device_name := name \<rparr>"

definition verify_identity_signature ::
  "ed25519 \<Rightarrow> bytes \<Rightarrow> bytes \<Rightarrow> bytes \<Rightarrow> (unit, identity_error) result" where
  "verify_identity_signature cr public_key message signature =
     (if length public_key \<noteq> PUBLIC_KEY_LEN then Err (IdentityInvalid ''Ed25519 public-key length'')
      else if length signature \<noteq> SIGNATURE_LEN then Err (IdentityInvalid ''Ed25519 signature length'')
      else if \<not> dg_key_valid (cr_digests cr) public_key then Err (IdentityInvalid ''invalid Ed25519 public key'')
      else if \<not> cr_verify cr public_key message signature then Err (IdentityInvalid ''invalid Ed25519 signature'')
      else Ok ())"

section \<open>The file form\<close>

text \<open>
  \<open>u8::from_str_radix\<close> in base 16 over two bytes: upper and lower case digits, and a leading plus
  sign. Slicing a string between the bytes of one UTF-8 character panics.
\<close>

definition hex_value :: "char \<Rightarrow> nat option" where
  "hex_value c =
     (let n = of_char c :: nat
      in if 48 \<le> n \<and> n \<le> 57 then Some (n - 48)
         else if 97 \<le> n \<and> n \<le> 102 then Some (n - 87)
         else if 65 \<le> n \<and> n \<le> 70 then Some (n - 55) else None)"

definition hex_pair :: "char \<Rightarrow> char \<Rightarrow> (u8, string) result" where
  "hex_pair a b =
     (case (hex_value a, hex_value b) of
        (Some x, Some y) \<Rightarrow> Ok (of_nat (16 * x + y))
      | (None, Some y) \<Rightarrow> if a = CHR ''+'' then Ok (of_nat y) else Err ''invalid digit found in string''
      | _ \<Rightarrow> Err ''invalid digit found in string'')"

definition continuation_byte :: "char \<Rightarrow> bool" where
  "continuation_byte c \<longleftrightarrow> 128 \<le> (of_char c :: nat) \<and> (of_char c :: nat) < 192"

fun hex_pairs :: "string \<Rightarrow> (bytes, string) result" where
  "hex_pairs (a # b # rest) =
     (if continuation_byte a \<or> (\<exists>c \<in> set (take 1 rest). continuation_byte c) then Panic
      else rbind (hex_pair a b) (\<lambda>v. rbind (hex_pairs rest) (\<lambda>vs. Ok (v # vs))))"
| "hex_pairs [] = Ok []"
| "hex_pairs [a] = Ok []"

definition hex_decode :: "string \<Rightarrow> (bytes, string) result" where
  "hex_decode hex = (if odd (length hex) then Err ''odd length'' else hex_pairs hex)"

text \<open>The errors of the decoder become \<open>Invalid\<close>; a panic stays one.\<close>

definition or_invalid :: "('a, string) result \<Rightarrow> ('a, identity_error) result" where
  "or_invalid r = (case r of Ok a \<Rightarrow> Ok a | Err e \<Rightarrow> Err (IdentityInvalid e) | Panic \<Rightarrow> Panic)"

definition persisted_identity_of :: "device_identity \<Rightarrow> persisted_identity" where
  "persisted_identity_of i =
     \<lparr> pi_algorithm = IDENTITY_ALGORITHM, pi_device_id = di_device_id i, pi_device_name = di_device_name i,
       pi_signing_key_hex = hex_encode (di_signing_key i), pi_public_key_hex = hex_encode (di_public_key i) \<rparr>"

definition save_identity ::
  "(persisted_identity \<Rightarrow> string option) \<Rightarrow> (string \<Rightarrow> bool) \<Rightarrow> device_identity \<Rightarrow> (string, identity_error) result" where
  "save_identity print write i =
     rbind (ok_or (print (persisted_identity_of i)) (IdentityStore StoreJson)) (\<lambda>json.
       if write json then Ok json else Err (IdentityStore StoreIo))"

definition load_identity ::
  "ed25519 \<Rightarrow> (string \<Rightarrow> persisted_identity option) \<Rightarrow> string option \<Rightarrow> (device_identity, identity_error) result" where
  "load_identity cr parse file =
     rbind (ok_or file (IdentityStore StoreIo)) (\<lambda>raw.
     rbind (ok_or (parse raw) (IdentityStore StoreJson)) (\<lambda>p.
       if pi_algorithm p \<noteq> IDENTITY_ALGORITHM
       then Err (IdentityInvalid (''unsupported identity algorithm '' @ pi_algorithm p))
       else
         rbind (or_invalid (hex_decode (pi_signing_key_hex p))) (\<lambda>secret.
         rbind (or_invalid (hex_decode (pi_public_key_hex p))) (\<lambda>public_key.
           if length secret \<noteq> SECRET_KEY_LEN \<or> length public_key \<noteq> PUBLIC_KEY_LEN
           then Err (IdentityInvalid ''key length'')
           else rbind (from_secret_bytes cr (pi_device_name p) secret) (\<lambda>i.
             if di_public_key i \<noteq> public_key \<or> di_device_id i \<noteq> pi_device_id p
             then Err (IdentityInvalid ''device id/public key/signing key mismatch'')
             else Ok i)))))"

text \<open>\<open>load_or_create\<close>: the file is created only when it does not exist; an unreadable file is an error.\<close>

definition load_or_create ::
  "ed25519 \<Rightarrow> (string \<Rightarrow> persisted_identity option) \<Rightarrow> (persisted_identity \<Rightarrow> string option) \<Rightarrow> (string \<Rightarrow> bool) \<Rightarrow>
     bytes option \<Rightarrow> string \<Rightarrow> string option option \<Rightarrow> (device_identity \<times> string option, identity_error) result" where
  "load_or_create cr parse print write random default_name file =
     (case file of
        Some raw \<Rightarrow> rbind (load_identity cr parse raw) (\<lambda>i. Ok (i, raw))
      | None \<Rightarrow> rbind (generate_identity cr random default_name) (\<lambda>i.
          rbind (save_identity print write i) (\<lambda>json. Ok (i, Some json))))"

section \<open>Hex\<close>

lemma hex_value_digit: "n < 16 \<Longrightarrow> hex_value (hex_digit n) = Some n"
proof -
  have "list_all (\<lambda>n. hex_value (hex_digit n) = Some n) [0..<16]" by code_simp
  then show "n < 16 \<Longrightarrow> hex_value (hex_digit n) = Some n" by (simp add: list_all_iff)
qed

lemma hex_digit_ascii: "n < 16 \<Longrightarrow> \<not> continuation_byte (hex_digit n)"
proof -
  have "list_all (\<lambda>n. \<not> continuation_byte (hex_digit n)) [0..<16]" by code_simp
  then show "n < 16 \<Longrightarrow> \<not> continuation_byte (hex_digit n)" by (simp add: list_all_iff)
qed

lemma byte_split: "unat (b :: u8) div 16 < 16" "unat b mod 16 < 16" "of_nat (16 * (unat b div 16) + unat b mod 16) = b"
proof -
  have "unat b < 256" using unat_less_len [of b] by simp
  then show "unat b div 16 < 16" by simp
  show "unat b mod 16 < 16" by simp
  show "of_nat (16 * (unat b div 16) + unat b mod 16) = b" by (simp only: mult_div_mod_eq) simp
qed

lemma hex_pairs_encode: "hex_pairs (hex_encode bs) = Ok bs"
proof (induction bs)
  case Nil
  show ?case by (simp add: hex_encode_def)
next
  case (Cons b bs)
  have e: "hex_encode (b # bs) = hex_digit (unat b div 16) # hex_digit (unat b mod 16) # hex_encode bs"
    by (simp add: hex_encode_def)
  have "\<not> (\<exists>c \<in> set (take 1 (hex_encode bs)). continuation_byte c)"
    by (cases bs) (auto simp: hex_encode_def hex_digit_ascii byte_split)
  then show ?case
    using Cons by (simp add: e hex_digit_ascii byte_split hex_pair_def hex_value_digit)
qed

lemma hex_decode_encode: "hex_decode (hex_encode bs) = Ok bs"
proof -
  have "length (hex_encode bs) = 2 * length bs" by (induction bs) (simp_all add: hex_encode_def)
  then show ?thesis by (simp add: hex_decode_def hex_pairs_encode)
qed

section \<open>Properties\<close>

definition identity_ok :: "ed25519 \<Rightarrow> device_identity \<Rightarrow> bool" where
  "identity_ok cr i \<longleftrightarrow> i = from_signing_key cr (di_device_name i) (di_signing_key i) \<and>
     length (di_signing_key i) = SECRET_KEY_LEN \<and> length (di_public_key i) = PUBLIC_KEY_LEN"

text \<open>A saved identity loads back.\<close>

lemma saved_identity_loads:
  assumes serde: "\<And>p j. print p = Some j \<Longrightarrow> parse j = Some p"
    and ok: "identity_ok cr i" and saved: "save_identity print write i = Ok raw"
  shows "load_identity cr parse (Some raw) = Ok i"
proof -
  have "print (persisted_identity_of i) = Some raw"
    using saved by (auto simp: save_identity_def rbind_Ok_iff ok_or_Ok_iff split: if_splits)
  then have p: "parse raw = Some (persisted_identity_of i)" by (rule serde)
  have i: "from_signing_key cr (di_device_name i) (di_signing_key i) = i"
    and n: "length (di_signing_key i) = SECRET_KEY_LEN" "length (di_public_key i) = PUBLIC_KEY_LEN"
    using ok by (simp_all add: identity_ok_def)
  show ?thesis
    by (simp add: load_identity_def ok_or_def p persisted_identity_of_def hex_decode_encode or_invalid_def n
        from_secret_bytes_def i)
qed

text \<open>Whatever the file holds, a loaded identity is consistent: its public key and identifier are those
  of its secret key.\<close>

lemma loaded_identity_ok: "load_identity cr parse file = Ok i \<Longrightarrow> identity_ok cr i"
  by (auto simp: load_identity_def identity_ok_def rbind_Ok_iff ok_or_Ok_iff from_secret_bytes_def from_signing_key_def
      Let_def split: if_splits)

text \<open>
  A key text with a character outside ASCII can make the decoder panic although its errors are
  values: here the second byte of an e with acute accent falls on the boundary of two digits.
\<close>

lemma hex_decode_panics: "hex_decode [CHR ''a'', CHR 0xC3, CHR 0xA9, CHR ''b''] = Panic"
  by (simp add: hex_decode_def continuation_byte_def)

end
