(* ===== verification/Pairing_Transcript.thy ===== *)
theory Pairing_Transcript
  imports Device_Identity Prefix_Codes
begin

text \<open>
  The channel-bound pairing transcript of \<open>crates/picoo-pairing/src/handshake.rs\<close>: what both ends hash
  and sign, and why one signature cannot be used for another phase, connection or peer.
\<close>

section \<open>Transcripts\<close>

definition TRANSCRIPT_DOMAIN :: bytes where
  "TRANSCRIPT_DOMAIN = ascii_bytes ''picoo-camera pairing transcript'' @ [0]"

definition SIGNATURE_DOMAIN :: bytes where
  "SIGNATURE_DOMAIN = ascii_bytes ''picoo-camera identity proof'' @ [0]"

datatype handshake_error = InvalidSignature | InvalidTranscript string | RandomFailed

record pairing_transcript =
  tr_protocol :: string
  tr_sender_id :: string
  tr_sender_public_key :: bytes
  tr_sender_nonce :: bytes
  tr_receiver_id :: string
  tr_receiver_public_key :: bytes
  tr_receiver_nonce :: bytes
  tr_channel_binding :: bytes
  tr_connection_generation :: nat

text \<open>The conversion of a field's length to 32 bits can fail, which is a panic.\<close>

definition append_field :: "bytes \<Rightarrow> bytes \<Rightarrow> (bytes, handshake_error) result" where
  "append_field value output =
     (if length value \<ge> 2 ^ 32 then Panic else Ok (output @ len_prefixed 4 value))"

definition fixed_fields :: "pairing_transcript \<Rightarrow> (string \<times> bytes) list" where
  "fixed_fields t =
     [(''sender public key'', tr_sender_public_key t), (''sender nonce'', tr_sender_nonce t),
      (''receiver public key'', tr_receiver_public_key t), (''receiver nonce'', tr_receiver_nonce t),
      (''TLS exporter'', tr_channel_binding t)]"

fun check_fields :: "(string \<times> bytes) list \<Rightarrow> (unit, handshake_error) result" where
  "check_fields [] = Ok ()"
| "check_fields ((name, value) # rest) =
     (if length value \<noteq> 32 then Err (InvalidTranscript (name @ '' must contain 32 bytes'')) else check_fields rest)"

definition transcript_fields :: "pairing_transcript \<Rightarrow> bytes list" where
  "transcript_fields t =
     [ascii_bytes (tr_protocol t), ascii_bytes ''Ed25519'', ascii_bytes (tr_sender_id t), tr_sender_public_key t,
      tr_sender_nonce t, ascii_bytes (tr_receiver_id t), tr_receiver_public_key t, tr_receiver_nonce t,
      tr_channel_binding t]"

definition encode_transcript :: "pairing_transcript \<Rightarrow> (bytes, handshake_error) result" where
  "encode_transcript t =
     rbind (rfold append_field (transcript_fields t) TRANSCRIPT_DOMAIN) (\<lambda>encoded.
       Ok (encoded @ be_bytes 8 (tr_connection_generation t)))"

definition transcript_hash :: "digests \<Rightarrow> pairing_transcript \<Rightarrow> (bytes, handshake_error) result" where
  "transcript_hash dg t =
     rbind (check_fields (fixed_fields t)) (\<lambda>_.
       if tr_protocol t = [] \<or> length (tr_protocol t) > 255 \<or> tr_sender_id t = [] \<or> tr_receiver_id t = [] \<or>
          tr_connection_generation t = 0
       then Err (InvalidTranscript ''device ids and connection generation must be present'')
       else rbind (encode_transcript t) (\<lambda>encoded. Ok (dg_sha256 dg encoded)))"

definition six_digits :: "nat \<Rightarrow> string" where
  "six_digits value = map (\<lambda>k. hex_digit (value div 10 ^ k mod 10)) [5, 4, 3, 2, 1, 0]"

definition short_code :: "digests \<Rightarrow> pairing_transcript \<Rightarrow> (string, handshake_error) result" where
  "short_code dg t =
     rbind (transcript_hash dg t) (\<lambda>digest. Ok (six_digits (be_val (take 4 digest) mod 1000000)))"

section \<open>Signatures of a phase\<close>

text \<open>The phases are constants of a few bytes, so the length of a phase always fits.\<close>

definition transcript_phase_message :: "bytes \<Rightarrow> bytes \<Rightarrow> bytes" where
  "transcript_phase_message hash phase = SIGNATURE_DOMAIN @ len_prefixed 4 phase @ hash"

definition sign_transcript_phase :: "ed25519 \<Rightarrow> device_identity \<Rightarrow> bytes \<Rightarrow> bytes \<Rightarrow> bytes" where
  "sign_transcript_phase cr identity hash phase = identity_sign cr identity (transcript_phase_message hash phase)"

definition verify_transcript_phase ::
  "ed25519 \<Rightarrow> bytes \<Rightarrow> bytes \<Rightarrow> bytes \<Rightarrow> bytes \<Rightarrow> (unit, handshake_error) result" where
  "verify_transcript_phase cr public_key hash phase signature =
     (case verify_identity_signature cr public_key (transcript_phase_message hash phase) signature of
        Ok u \<Rightarrow> Ok () | Err e \<Rightarrow> Err InvalidSignature | Panic \<Rightarrow> Panic)"

definition SERVER_HELLO_PHASE :: bytes where "SERVER_HELLO_PHASE = ascii_bytes ''server-hello''"
definition SENDER_CONFIRM_PHASE :: bytes where "SENDER_CONFIRM_PHASE = ascii_bytes ''sender-confirm''"
definition PAIRING_APPROVAL_PHASE :: bytes where "PAIRING_APPROVAL_PHASE = ascii_bytes ''receiver-approval''"
definition PAIRING_COMMIT_PHASE :: bytes where "PAIRING_COMMIT_PHASE = ascii_bytes ''sender-commit''"
definition PAIRING_COMPLETE_PHASE :: bytes where "PAIRING_COMPLETE_PHASE = ascii_bytes ''receiver-complete''"

lemmas phase_defs = SERVER_HELLO_PHASE_def SENDER_CONFIRM_PHASE_def PAIRING_APPROVAL_PHASE_def
  PAIRING_COMMIT_PHASE_def PAIRING_COMPLETE_PHASE_def

section \<open>The layout is injective\<close>

lemma unat_of_char: "unat (of_char c :: u8) = of_char c"
proof -
  have "(of_char c :: u8) = of_nat (of_char c)" by (simp only: of_nat_of_char)
  moreover have "of_char c < (256 :: nat)" by (rule nat_of_char_less_256)
  ultimately show ?thesis by (simp add: unat_of_nat take_bit_eq_mod)
qed

lemma ascii_bytes_inj: "ascii_bytes s = ascii_bytes t \<Longrightarrow> s = t"
  unfolding ascii_bytes_def
  by (erule map_injective) (metis injI unat_of_char of_char_eq_iff)

lemma rfold_append_field:
  "rfold append_field xs out = Ok enc \<longleftrightarrow>
     enc = out @ concat (map (len_prefixed 4) xs) \<and> (\<forall>x \<in> set xs. length x < 2 ^ 32)"
  by (induction xs arbitrary: out) (auto simp: append_field_def rbind_Ok_iff)

lemma encode_transcript_Ok:
  "encode_transcript t = Ok enc \<longleftrightarrow>
     enc = TRANSCRIPT_DOMAIN @ concat (map (len_prefixed 4) (transcript_fields t)) @
       be_bytes 8 (tr_connection_generation t) \<and> (\<forall>x \<in> set (transcript_fields t). length x < 256 ^ 4)"
  by (auto simp: encode_transcript_def rbind_Ok_iff rfold_append_field)

lemma be_bytes_inj: "be_bytes n a = be_bytes n b \<Longrightarrow> a < 256 ^ n \<Longrightarrow> b < 256 ^ n \<Longrightarrow> a = b"
  by (drule arg_cong [of _ _ be_val]) (simp only: be_val_be_bytes mod_less)

lemma encode_transcript_inj:
  assumes "encode_transcript t = Ok enc" "encode_transcript t' = Ok enc"
    and "tr_connection_generation t < 2 ^ 64" "tr_connection_generation t' < 2 ^ 64"
  shows "t = t'"
proof -
  have v: "\<forall>x \<in> set (transcript_fields t). length x < 256 ^ Suc 3"
    "\<forall>x \<in> set (transcript_fields t'). length x < 256 ^ Suc 3"
    using assms(1,2) by (simp_all add: encode_transcript_Ok)
  have n: "length (transcript_fields t) = length (transcript_fields t')" by (simp add: transcript_fields_def)
  have e: "concat (map (len_prefixed (Suc 3)) (transcript_fields t)) @ be_bytes 8 (tr_connection_generation t) =
      concat (map (len_prefixed (Suc 3)) (transcript_fields t')) @ be_bytes 8 (tr_connection_generation t')"
    using assms(1,2) by (simp add: encode_transcript_Ok)
  from len_code.fields_inj [OF n v e] have f: "transcript_fields t = transcript_fields t'"
    and g: "be_bytes 8 (tr_connection_generation t) = be_bytes 8 (tr_connection_generation t')" by blast+
  have "tr_connection_generation t = tr_connection_generation t'"
    using be_bytes_inj [OF g] assms(3,4) by simp
  with f show ?thesis
    by (auto simp: transcript_fields_def dest: ascii_bytes_inj intro: pairing_transcript.equality)
qed

lemma phase_message_inj:
  assumes "transcript_phase_message h p = transcript_phase_message h' p'"
    and "length p < 2 ^ 32" "length p' < 2 ^ 32"
  shows "h = h' \<and> p = p'"
proof -
  have e: "len_prefixed (Suc 3) p @ h = len_prefixed (Suc 3) p' @ h'"
    using assms(1) by (simp add: transcript_phase_message_def)
  have "length p < 256 ^ Suc 3" "length p' < 256 ^ Suc 3" using assms(2,3) by simp_all
  from len_code.enc_append_inj [OF this e] show ?thesis by blast
qed

lemma transcript_hash_Ok:
  "transcript_hash dg t = Ok h \<Longrightarrow> \<exists>enc. encode_transcript t = Ok enc \<and> h = dg_sha256 dg enc \<and>
     length (tr_sender_public_key t) = 32 \<and> length (tr_sender_nonce t) = 32 \<and>
     length (tr_receiver_public_key t) = 32 \<and> length (tr_receiver_nonce t) = 32 \<and> length (tr_channel_binding t) = 32"
  by (auto simp: transcript_hash_def rbind_Ok_iff fixed_fields_def split: if_splits)

section \<open>Property\<close>

text \<open>C38: A signature proves one phase of one pairing. If the same bytes are signed for two transcripts
  and phases, then the phases are equal and either the transcripts agree in every fact (protocol, both
  identities and keys, both nonces, the TLS channel, the connection) or the two encoded transcripts
  are a collision of SHA-256.\<close>

theorem signed_phase_binds_transcript:
  assumes "transcript_hash dg t = Ok h" "transcript_hash dg t' = Ok h'"
    and "tr_connection_generation t < 2 ^ 64" "tr_connection_generation t' < 2 ^ 64"
    and "length p < 2 ^ 32" "length p' < 2 ^ 32"
    and "transcript_phase_message h p = transcript_phase_message h' p'"
  shows "p = p' \<and> (t = t' \<or> (\<exists>a b. encode_transcript t = Ok a \<and> encode_transcript t' = Ok b \<and> a \<noteq> b \<and>
    dg_sha256 dg a = dg_sha256 dg b))"
proof -
  from phase_message_inj [OF assms(7,5,6)] have hp: "h = h'" "p = p'" by blast+
  obtain a b where ab: "encode_transcript t = Ok a" "h = dg_sha256 dg a" "encode_transcript t' = Ok b"
      "h' = dg_sha256 dg b"
    using transcript_hash_Ok [OF assms(1)] transcript_hash_Ok [OF assms(2)] by blast
  show ?thesis
  proof (cases "a = b")
    case True
    with encode_transcript_inj [OF ab(1) _ assms(3,4)] ab(3) hp show ?thesis by simp
  next
    case False
    with ab hp show ?thesis by auto
  qed
qed

definition sample_transcript :: "bytes \<Rightarrow> pairing_transcript" where
  "sample_transcript binding =
     \<lparr> tr_protocol = ''picoocam'', tr_sender_id = ''s'', tr_sender_public_key = replicate 32 1,
       tr_sender_nonce = replicate 32 2, tr_receiver_id = ''r'', tr_receiver_public_key = replicate 32 3,
       tr_receiver_nonce = replicate 32 4, tr_channel_binding = binding, tr_connection_generation = 7 \<rparr>"

theorem signed_phase_binds_transcript_witness:
  "PAIRING_COMMIT_PHASE = PAIRING_COMMIT_PHASE \<and>
   (sample_transcript (replicate 32 5) = sample_transcript (replicate 32 5) \<or>
    (\<exists>a b. encode_transcript (sample_transcript (replicate 32 5)) = Ok a \<and>
       encode_transcript (sample_transcript (replicate 32 5)) = Ok b \<and> a \<noteq> b \<and>
       dg_sha256 sample_digests a = dg_sha256 sample_digests b))"
proof (rule signed_phase_binds_transcript)
  let ?t = "sample_transcript (replicate 32 5)"
  let ?enc = "TRANSCRIPT_DOMAIN @ concat (map (len_prefixed 4) (transcript_fields ?t)) @ be_bytes 8 7"
  have "encode_transcript ?t = Ok ?enc"
    unfolding encode_transcript_Ok by (simp add: sample_transcript_def transcript_fields_def ascii_bytes_def)
  then show "transcript_hash sample_digests ?t = Ok (dg_sha256 sample_digests ?enc)"
    by (simp add: transcript_hash_def fixed_fields_def) (simp add: sample_transcript_def)
  then show "transcript_hash sample_digests ?t = Ok (dg_sha256 sample_digests ?enc)" .
qed (simp_all add: sample_transcript_def phase_defs ascii_bytes_def)

end
