(* ===== verification/Sender_Session.thy ===== *)
theory Sender_Session
  imports Encoder_Transaction Sender_Pipeline Sender_Reducer Rate_Control Pairing_Transcript Control_Messages
begin

text \<open>
  The sender's session: \<open>SenderSession\<close> of \<open>crates/picoo-sender/src/session/mod.rs\<close>, its control sends
  and the lifecycle effects of \<open>session/lifecycle.rs\<close>. What the session reads from outside in one call
  is a record. The transport itself is an argument: which sends succeed, what \<open>connect\<close> returns, and
  in \<open>sx_polls\<close> the events each later drain of its queue will find; what the session hands to it is
  logged in the state.
\<close>

section \<open>Environment and state\<close>

record endpoint =
  ep_host :: string
  ep_port :: nat

record link_stats =
  lk_video_queue_age_ms :: f64
  lk_video_dropped_access_units :: nat
  lk_lost_packets :: nat
  lk_sent_packets :: nat
  lk_video_buffered_bytes :: nat

definition link_stats_default :: link_stats where
  "link_stats_default = \<lparr> lk_video_queue_age_ms = Fin 0, lk_video_dropped_access_units = 0, lk_lost_packets = 0,
     lk_sent_packets = 0, lk_video_buffered_bytes = 0 \<rparr>"

record sender_env =
  te_now :: nat
  te_later :: nat
  te_wall_ms :: nat
  te_nonce :: "bytes option"
  te_binding :: "nat \<Rightarrow> bytes option"
  te_crypto :: ed25519
  te_unicode :: unicode
  te_parse :: "string \<Rightarrow> persisted_devices option"
  te_print :: "persisted_devices \<Rightarrow> string option"
  te_write :: "string \<Rightarrow> bool"
  te_syntax :: syntax_env
  te_prost :: "bytes \<Rightarrow> control_envelope option"
  te_rs :: rs_codec
  te_send_ok :: "nat \<Rightarrow> nat \<Rightarrow> bool"
  te_video_ok :: "video_batch \<Rightarrow> bool"
  te_connect :: "nat option"
  te_link :: "link_stats option"

datatype sender_error =
    PipelineFailed packetize_error
  | SenderNotConnected
  | MediaNotReady
  | SenderTransportFailed
  | SenderProtocolError string
  | InvalidCodecConfiguration bitstream_error
  | SenderStoreFailed
  | StaleStreamEpoch nat nat
  | StreamConfigPending nat
  | StreamConfigHeightMismatch nat nat
  | StaleEncoderFact
  | EncoderRefreshPending

record sender_pairing =
  spg_receiver_id :: string
  spg_display_name :: string
  spg_public_key :: bytes
  spg_transcript_hash :: bytes
  spg_short_code :: string
  spg_pairing_required :: bool
  spg_confirm_sent :: bool
  spg_trust_committed :: bool

record media_clock_anchor =
  mca_stream_epoch :: nat
  mca_encoded_at_us :: nat
  mca_observed_at :: nat

definition INITIAL_STREAM_EPOCH :: nat where "INITIAL_STREAM_EPOCH = 1"
definition MAX_STREAM_EPOCH :: nat where "MAX_STREAM_EPOCH = 2 ^ 31 - 1"

record sender_session =
  sx_pipeline :: sender_pipeline
  sx_sent_datagrams :: nat
  sx_stats_sent_at :: "nat option"
  sx_identity :: device_identity
  sx_pairing :: "sender_pairing option"
  sx_hello_requested :: bool
  sx_nonce :: "bytes option"
  sx_trusted :: trusted_store
  sx_has_store_path :: bool
  sx_lifecycle :: sender_reducer_state
  sx_endpoint :: "endpoint option"
  sx_backoff :: reconnect_backoff
  sx_reconnect_after :: "nat option"
  sx_last_delay_ms :: "nat option"
  sx_bitrate :: bitrate_controller
  sx_requested_height :: nat
  sx_last_action :: bitrate_action
  sx_last_stats :: "receiver_stats option"
  sx_pre_fec_loss :: f64
  sx_config :: "stream_params option"
  sx_capabilities :: "capabilities option"
  sx_config_sent :: bool
  sx_keyframe_requested :: bool
  sx_apply :: encoder_apply_state
  sx_next_directive :: nat
  sx_epoch :: nat
  sx_last_epoch :: nat
  sx_height :: nat
  sx_format :: "source_request option"
  sx_generation :: nat
  sx_media_blocked :: bool
  sx_camera :: "camera_command option"
  sx_error :: "string option"
  sx_next_message_id :: nat
  sx_last_message_id :: nat
  sx_anchor :: "media_clock_anchor option"
  sx_polls :: "transport_event list list"
  sx_sent :: "(nat \<times> control_envelope) list"
  sx_video :: "(nat \<times> video_batch) list"
  sx_closed :: "nat list"
  sx_dialled :: "endpoint list"

type_synonym 'a tx_outcome = "sender_session \<times> ('a, sender_error) result"

definition controller_1080 :: bitrate_controller where
  "controller_1080 =
     (case controller_for_height 1080 of Some c \<Rightarrow> c | None \<Rightarrow> bitrate_controller_new 0 0 0)"

definition sender_session_new :: "device_identity \<Rightarrow> transport_event list list \<Rightarrow> sender_session" where
  "sender_session_new identity polls =
     \<lparr> sx_pipeline = pipeline_default, sx_sent_datagrams = 0, sx_stats_sent_at = None, sx_identity = identity,
       sx_pairing = None, sx_hello_requested = False, sx_nonce = None, sx_trusted = store_new,
       sx_has_store_path = False, sx_lifecycle = sender_default, sx_endpoint = None, sx_backoff = backoff_default,
       sx_reconnect_after = None, sx_last_delay_ms = None, sx_bitrate = controller_1080, sx_requested_height = 1080,
       sx_last_action = Hold, sx_last_stats = None, sx_pre_fec_loss = Fin 0, sx_config = None, sx_capabilities = None,
       sx_config_sent = False, sx_keyframe_requested = False, sx_apply = EncoderCommitted, sx_next_directive = 1,
       sx_epoch = INITIAL_STREAM_EPOCH, sx_last_epoch = INITIAL_STREAM_EPOCH, sx_height = 0, sx_format = None,
       sx_generation = 0, sx_media_blocked = False, sx_camera = None, sx_error = None, sx_next_message_id = 1,
       sx_last_message_id = 0, sx_anchor = None, sx_polls = polls, sx_sent = [], sx_video = [], sx_closed = [],
       sx_dialled = [] \<rparr>"

text \<open>The \<open>?\<close> operator, and \<open>let _ = ..\<close>, which drops an error but not a panic.\<close>

definition tx_then :: "'a tx_outcome \<Rightarrow> ('a \<Rightarrow> sender_session \<Rightarrow> 'b tx_outcome) \<Rightarrow> 'b tx_outcome" where
  "tx_then out f =
     (case snd out of Ok a \<Rightarrow> f a (fst out) | Err e \<Rightarrow> (fst out, Err e) | Panic \<Rightarrow> (fst out, Panic))"

definition tx_ignore :: "'a tx_outcome \<Rightarrow> unit tx_outcome" where
  "tx_ignore out = (fst out, case snd out of Panic \<Rightarrow> Panic | _ \<Rightarrow> Ok ())"

text \<open>An operation of the bitrate controller; these return no errors.\<close>

definition on_bitrate ::
  "(bitrate_controller \<Rightarrow> (bitrate_controller \<times> 'a, unit) result) \<Rightarrow> sender_session \<Rightarrow> 'a tx_outcome" where
  "on_bitrate f s =
     (case f (sx_bitrate s) of Ok (c, a) \<Rightarrow> (s \<lparr> sx_bitrate := c \<rparr>, Ok a) | _ \<Rightarrow> (s, Panic))"

definition sx_runtime :: "sender_session \<Rightarrow> session_runtime_state" where
  "sx_runtime s = tx_runtime (sx_lifecycle s)"

definition tx_upd_runtime :: "(session_runtime_state \<Rightarrow> session_runtime_state) \<Rightarrow> sender_session \<Rightarrow> sender_session" where
  "tx_upd_runtime f s = s \<lparr> sx_lifecycle := (sx_lifecycle s) \<lparr> tx_runtime := f (sx_runtime s) \<rparr> \<rparr>"

definition active_session :: "sender_session \<Rightarrow> nat option" where
  "active_session s = tx_active_generation (sx_lifecycle s)"

definition sender_streaming :: "sender_session \<Rightarrow> bool" where
  "sender_streaming s = is_streaming (rt_stream (sx_runtime s))"

definition tx_status :: "sender_session \<Rightarrow> sender_status" where
  "tx_status s = sender_status_of (sx_runtime s)"

definition set_error :: "string \<Rightarrow> sender_session \<Rightarrow> sender_session" where
  "set_error code s = s \<lparr> sx_error := Some code \<rparr>"

section \<open>Control sends\<close>

definition tx_send :: "sender_env \<Rightarrow> nat \<Rightarrow> control_payload \<Rightarrow> sender_session \<Rightarrow> unit tx_outcome" where
  "tx_send env session payload s =
     (let message_id = sx_next_message_id s;
          s1 = s \<lparr> sx_next_message_id := sat_add64 message_id 1 \<rparr>
      in if te_send_ok env session message_id
         then (s1 \<lparr> sx_sent := sx_sent s1 @ [(session, \<lparr> ce_message_id = message_id, ce_connection_generation = session,
                    ce_payload = Some payload \<rparr>)] \<rparr>, Ok ())
         else (s1, Err SenderTransportFailed))"

definition client_hello_of :: "device_identity \<Rightarrow> bytes \<Rightarrow> client_hello" where
  "client_hello_of identity nonce =
     \<lparr> ch_sender_id = di_device_id identity, ch_device_name = di_device_name identity,
       ch_public_key = di_public_key identity, ch_sender_nonce = nonce \<rparr>"

definition emit_client_hello :: "sender_env \<Rightarrow> sender_session \<Rightarrow> unit tx_outcome" where
  "emit_client_hello env s =
     (case active_session s of
        None \<Rightarrow> (s, Err SenderNotConnected)
      | Some session \<Rightarrow>
          (case te_nonce env of
             None \<Rightarrow> (s, Err (SenderProtocolError ''OS CSPRNG failed''))
           | Some nonce \<Rightarrow>
               tx_send env session (ClientHelloMsg (client_hello_of (sx_identity s) nonce))
                 (s \<lparr> sx_nonce := Some nonce, sx_pairing := None \<rparr>)))"

section \<open>Resources of a connection\<close>

definition rollback_transaction :: "encoder_transaction \<Rightarrow> sender_session \<Rightarrow> sender_session" where
  "rollback_transaction t s =
     s \<lparr> sx_config := erb_config (et_rollback t), sx_config_sent := erb_config_sent (et_rollback t) \<rparr>"

definition restore_generation :: "encoder_transaction \<Rightarrow> sender_session \<Rightarrow> sender_session" where
  "restore_generation t s = rollback_transaction t (s \<lparr> sx_generation := erb_generation (et_rollback t) \<rparr>)"

definition abort_pending_reconfiguration :: "sender_session \<Rightarrow> sender_session" where
  "abort_pending_reconfiguration s =
     (let (a, transition) = reduce_transaction AbortTransaction (sx_apply s);
          s1 = s \<lparr> sx_apply := a \<rparr>
      in (case transition of
            TransitionRollback t \<Rightarrow> restore_generation t s1
          | TransitionUnchanged \<Rightarrow> s1
          | TransitionStaged \<Rightarrow> s1))"

definition clear_receiver_capabilities :: "sender_session \<Rightarrow> unit tx_outcome" where
  "clear_receiver_capabilities s =
     tx_ignore (on_bitrate (set_preferred_height (sx_requested_height s)) (s \<lparr> sx_capabilities := None \<rparr>))"

definition reset_sender_resources :: "sender_session \<Rightarrow> unit tx_outcome" where
  "reset_sender_resources s =
     tx_then (clear_receiver_capabilities
         (abort_pending_reconfiguration s \<lparr> sx_pairing := None, sx_nonce := None, sx_config_sent := False \<rparr>))
       (\<lambda>_ s1. (s1 \<lparr> sx_pipeline := clear_pending_packets (sx_pipeline s1), sx_stats_sent_at := None,
            sx_last_stats := None, sx_pre_fec_loss := Fin 0, sx_camera := None, sx_keyframe_requested := False,
            sx_next_message_id := 1, sx_last_message_id := 0, sx_anchor := None \<rparr>, Ok ()))"

definition has_session_resources :: "sender_session \<Rightarrow> bool" where
  "has_session_resources s \<longleftrightarrow> is_applying (sx_apply s) \<or> sx_pairing s \<noteq> None \<or> sx_nonce s \<noteq> None \<or>
     sx_config_sent s \<or> sx_capabilities s \<noteq> None \<or> pending_datagram_count (sx_pipeline s) \<noteq> 0 \<or>
     sx_camera s \<noteq> None \<or> sx_hello_requested s \<or> sx_endpoint s \<noteq> None \<or> sx_reconnect_after s \<noteq> None"

section \<open>Lifecycle effects\<close>

text \<open>The event by which an authentication failure ends the connection.\<close>

definition rejection_event :: "sender_session \<Rightarrow> sender_event" where
  "rejection_event s =
     (case active_session s of Some session \<Rightarrow> AuthenticationRejected session | None \<Rightarrow> UserDisconnect True)"

text \<open>
  An effect can apply further events; each of them has only smaller effects, so the recursion ends.
  \<open>effect_rank\<close> and \<open>event_rank\<close> are its measure.
\<close>

fun effect_rank :: "sender_effect \<Rightarrow> nat" where
  "effect_rank StartReconnect = 4"
| "effect_rank ScheduleReconnect = 2"
| "effect_rank (TxPrepareConnection g) = 2"
| "effect_rank TxAcceptControl = 0"
| "effect_rank TxResetSessionResources = 0"
| "effect_rank (CloseTransport g) = 0"
| "effect_rank DisableReconnect = 0"
| "effect_rank ClearConnectionIntent = 0"

fun event_rank :: "sender_event \<Rightarrow> nat" where
  "event_rank ReconnectDeadlineElapsed = 5"
| "event_rank ReconnectConnectFailed = 3"
| "event_rank (TxTransportDisconnected g b) = 3"
| "event_rank (TxTransportConnected g) = 3"
| "event_rank ConnectRequested = 1"
| "event_rank (TransportConnectStarted g) = 1"
| "event_rank ExplicitConnectFailed = 1"
| "event_rank (TxControlReceived g) = 1"
| "event_rank (AuthenticationRejected g) = 1"
| "event_rank (UserDisconnect b) = 1"
| "event_rank (ReconnectPolicyChanged b) = 1"
| "event_rank (ReconnectArmed n) = 1"

definition effects_rank :: "sender_effect list \<Rightarrow> nat" where
  "effects_rank es = foldr (\<lambda>e n. max (effect_rank e) n) es 0"

lemma effects_rank_simps [simp]:
  "effects_rank [] = 0" "effects_rank (e # es) = max (effect_rank e) (effects_rank es)"
  by (simp_all add: effects_rank_def)

lemma effects_below_event: "effects_rank (effect_items (snd (sender_reduce l e))) < event_rank e"
  by (cases e) (auto simp: Let_def split: option.splits if_splits prod.splits)

lemma rejection_rank [simp]: "event_rank (rejection_event s) = 1"
  by (simp add: rejection_event_def split: option.split)

function apply_sender_event :: "sender_env \<Rightarrow> sender_event \<Rightarrow> sender_session \<Rightarrow> sender_effect list tx_outcome"
  and run_sender_effects :: "sender_env \<Rightarrow> sender_effect list \<Rightarrow> sender_session \<Rightarrow> unit tx_outcome"
  and run_sender_effect :: "sender_env \<Rightarrow> sender_effect \<Rightarrow> sender_session \<Rightarrow> unit tx_outcome"
  where
  "apply_sender_event env event s =
     (let reduced = sender_reduce (sx_lifecycle s) event; effects = effect_items (snd reduced)
      in tx_then (run_sender_effects env effects (s \<lparr> sx_lifecycle := fst reduced \<rparr>)) (\<lambda>_ s1. (s1, Ok effects)))"
| "run_sender_effects env [] s = (s, Ok ())"
| "run_sender_effects env (e # es) s = tx_then (run_sender_effect env e s) (\<lambda>_. run_sender_effects env es)"
| "run_sender_effect env TxAcceptControl s = (s, Ok ())"
| "run_sender_effect env TxResetSessionResources s = reset_sender_resources s"
| "run_sender_effect env (CloseTransport generation) s = (s \<lparr> sx_closed := sx_closed s @ [generation] \<rparr>, Ok ())"
| "run_sender_effect env (TxPrepareConnection generation) s =
     (let s1 = s \<lparr> sx_backoff := backoff_reset (sx_backoff s), sx_reconnect_after := None, sx_stats_sent_at := None,
                   sx_next_message_id := 1, sx_last_message_id := 0 \<rparr>
      in if \<not> sx_hello_requested s1 then (s1, Ok ())
         else
           (case emit_client_hello env s1 of
              (s2, Ok u) \<Rightarrow> (tx_upd_runtime (set_stream StreamNegotiating) s2, Ok ())
            | (s2, Err e) \<Rightarrow>
                tx_ignore (apply_sender_event env (rejection_event s2) (set_error ''CLIENT_HELLO_SEND_FAILED'' s2))
            | (s2, Panic) \<Rightarrow> (s2, Panic)))"
| "run_sender_effect env ScheduleReconnect s =
     (if sx_endpoint s = None then (s, Ok ())
      else
        (case next_delay_ms (sx_backoff s) of
           Ok (backoff, delay) \<Rightarrow>
             tx_then (apply_sender_event env (ReconnectArmed (rb_attempt backoff))
                 (s \<lparr> sx_backoff := backoff, sx_last_delay_ms := Some delay,
                      sx_reconnect_after := Some (te_now env + delay * 1000000) \<rparr>))
               (\<lambda>_ s1. (s1, Ok ()))
         | _ \<Rightarrow> (s, Panic)))"
| "run_sender_effect env StartReconnect s =
     (case sx_endpoint s of
        None \<Rightarrow> (s, Err SenderNotConnected)
      | Some endpoint \<Rightarrow>
          let s1 = s \<lparr> sx_dialled := sx_dialled s @ [endpoint] \<rparr>
          in (case te_connect env of
                Some session \<Rightarrow>
                  tx_then (apply_sender_event env (TransportConnectStarted session) s1) (\<lambda>_ s2. (s2, Ok ()))
              | None \<Rightarrow>
                  tx_then (apply_sender_event env ReconnectConnectFailed s1)
                    (\<lambda>_ s2. (s2, Err SenderTransportFailed))))"
| "run_sender_effect env DisableReconnect s = (s \<lparr> sx_reconnect_after := None \<rparr>, Ok ())"
| "run_sender_effect env ClearConnectionIntent s =
     (s \<lparr> sx_reconnect_after := None, sx_endpoint := None, sx_hello_requested := False \<rparr>, Ok ())"
  by pat_completeness auto

termination
  by (relation "measures [\<lambda>x. case x of Inl (env, e, s) \<Rightarrow> event_rank e
        | Inr (Inl (env, es, s)) \<Rightarrow> effects_rank es | Inr (Inr (env, e, s)) \<Rightarrow> effect_rank e,
      \<lambda>x. case x of Inl y \<Rightarrow> 0 | Inr (Inl (env, es, s)) \<Rightarrow> Suc (length es) | Inr (Inr y) \<Rightarrow> 0]")
    (auto simp: effects_below_event max_def)

definition reject_authentication :: "sender_env \<Rightarrow> string \<Rightarrow> sender_session \<Rightarrow> unit tx_outcome" where
  "reject_authentication env code s =
     tx_ignore (apply_sender_event env (rejection_event s) (set_error code s))"

end
