(* ===== verification/Sender_Stream.thy ===== *)
theory Sender_Stream
  imports Sender_Session
begin

text \<open>
  Stream configurations, epochs and encoder bindings of the sender (\<open>session/stream.rs\<close>), the answer to
  the receiver's reports and decoder offers (\<open>session/abr.rs\<close>) and the media clock (\<open>session/clock.rs\<close>,
  \<open>session/media.rs\<close>).
\<close>

section \<open>Encoder bindings\<close>

definition encoder_transaction_id_for_epoch :: "nat \<Rightarrow> sender_session \<Rightarrow> nat" where
  "encoder_transaction_id_for_epoch stream_epoch s = transaction_id_for_epoch stream_epoch (sx_apply s)"

definition bind_encoder :: "nat \<Rightarrow> nat \<Rightarrow> sender_session \<Rightarrow> bool tx_outcome" where
  "bind_encoder generation height s =
     tx_then (on_bitrate (sync_encode_height height) (s \<lparr> sx_generation := generation, sx_height := height \<rparr>))
       (\<lambda>_ s1. (s1, Ok True))"

definition report_encoder_started :: "nat \<Rightarrow> nat \<Rightarrow> nat \<Rightarrow> nat \<Rightarrow> sender_session \<Rightarrow> bool tx_outcome" where
  "report_encoder_started transaction_id generation stream_epoch height s =
     (if generation = 0 \<or> height = 0 \<or> \<not> is_supported_height height then (s, Ok False)
      else if transaction_id \<noteq> 0 then
        (let (a, accepted) = report_started transaction_id generation stream_epoch height (sx_apply s)
         in (s \<lparr> sx_apply := a \<rparr>, Ok accepted))
      else if is_applying (sx_apply s) \<or> stream_epoch \<noteq> sx_epoch s then (s, Ok False)
      else if sx_generation s = 0 then
        (if (case sx_config s of None \<Rightarrow> False | Some config \<Rightarrow> pm_height config \<noteq> height) then (s, Ok False)
         else bind_encoder generation height s)
      else (s, Ok (sx_generation s = generation \<and> sx_height s = height)))"

definition report_initial_encoder_event_started :: "nat \<Rightarrow> nat \<Rightarrow> nat \<Rightarrow> sender_session \<Rightarrow> bool tx_outcome" where
  "report_initial_encoder_event_started generation stream_epoch height s =
     (if generation = 0 \<or> height = 0 \<or> \<not> is_supported_height height \<or> is_applying (sx_apply s) \<or>
         sx_generation s \<noteq> 0 \<or> stream_epoch \<noteq> sx_epoch s
      then (s, Ok False) else bind_encoder generation height s)"

section \<open>Configurations and epochs\<close>

definition set_stream_config :: "stream_params \<Rightarrow> sender_session \<Rightarrow> sender_session" where
  "set_stream_config config s =
     s \<lparr> sx_config := Some (config \<lparr> pm_stream_epoch := sx_epoch s \<rparr>), sx_config_sent := False,
         sx_apply := fst (reduce_transaction StreamConfigStaged (sx_apply s)) \<rparr>"

definition begin_encoder_transaction :: "sender_env \<Rightarrow> encoder_directive \<Rightarrow> sender_session \<Rightarrow> sender_session \<times> bool" where
  "begin_encoder_transaction env directive s =
     (let (a, started) = begin_transaction (te_now env) directive
            \<lparr> erb_config = sx_config s, erb_config_sent = sx_config_sent s, erb_generation = sx_generation s \<rparr> (sx_apply s)
      in (s \<lparr> sx_apply := a \<rparr>, started))"

text \<open>\<open>checked_add\<close> after the bound has been tested cannot fail; zero is no epoch.\<close>

definition allocate_stream_epoch :: "sender_session \<Rightarrow> sender_session \<times> nat" where
  "allocate_stream_epoch s =
     (if sx_last_epoch s \<ge> MAX_STREAM_EPOCH then (set_error ''STREAM_EPOCH_EXHAUSTED'' s, 0)
      else (s \<lparr> sx_last_epoch := sx_last_epoch s + 1 \<rparr>, sx_last_epoch s + 1))"

definition clear_offer_error :: "sender_session \<Rightarrow> sender_session" where
  "clear_offer_error s =
     (if sx_error s = Some ''NO_MATCHING_DECODER_OFFER'' then s \<lparr> sx_error := None \<rparr> else s)"

definition begin_stream_reconfiguration :: "sender_env \<Rightarrow> source_request \<Rightarrow> sender_session \<Rightarrow> nat tx_outcome" where
  "begin_stream_reconfiguration env target s =
     (if is_applying (sx_apply s) \<or> \<not> is_product_format target then (s, Ok 0)
      else if (case sx_capabilities s of None \<Rightarrow> False | Some caps \<Rightarrow> \<not> is_offered_by target caps)
      then (set_error ''NO_MATCHING_DECODER_OFFER'' s, Ok 0)
      else if sx_next_directive s = u64_max then (set_error ''ENCODER_DIRECTIVE_ID_EXHAUSTED'' s, Ok 0)
      else
        let (s1, epoch) = allocate_stream_epoch s
        in if epoch = 0 then (s1, Ok 0)
           else
             (case ladder_for_height (sq_height target) of
                None \<Rightarrow> (s1, Panic)
              | Some ladder \<Rightarrow>
                  let (s2, started) = begin_encoder_transaction env
                        \<lparr> ed_id = sx_next_directive s, ed_kind = LocalDirective, ed_target = target,
                          ed_bitrate_bps = bl_initial_bps ladder, ed_stream_epoch = epoch \<rparr> s1
                  in if \<not> started then (s2, Ok 0)
                     else (clear_offer_error (s2 \<lparr> sx_next_directive := sx_next_directive s + 1,
                             sx_keyframe_requested := True \<rparr>), Ok epoch)))"

definition codec_result :: "('a, bitstream_error) result \<Rightarrow> ('a, sender_error) result" where
  "codec_result r = map_err InvalidCodecConfiguration r"

definition send_stream_config_for_epoch ::
  "sender_env \<Rightarrow> stream_params \<Rightarrow> nat \<Rightarrow> sender_session \<Rightarrow> unit tx_outcome" where
  "send_stream_config_for_epoch env config stream_epoch s =
     (case active_session s of
        None \<Rightarrow> (s, Err SenderNotConnected)
      | Some session \<Rightarrow>
          tx_then (s, codec_result (to_proto (te_syntax env) (config \<lparr> pm_stream_epoch := stream_epoch \<rparr>)))
            (\<lambda>wire. tx_send env session (StreamConfigMsg wire)))"

definition send_stream_config :: "sender_env \<Rightarrow> stream_params \<Rightarrow> sender_session \<Rightarrow> unit tx_outcome" where
  "send_stream_config env config s =
     (let config1 = config \<lparr> pm_stream_epoch := sx_epoch s \<rparr>
      in tx_then (send_stream_config_for_epoch env config1 (sx_epoch s) s)
           (\<lambda>_ s1. (s1 \<lparr> sx_config := Some config1 \<rparr>, Ok ())))"

definition send_pending_stream_config :: "sender_env \<Rightarrow> sender_session \<Rightarrow> unit tx_outcome" where
  "send_pending_stream_config env s =
     (if sx_config_sent s \<or> is_applying (sx_apply s) then (s, Ok ())
      else
        (case (sx_capabilities s, sx_config s) of
           (Some caps, Some config) \<Rightarrow>
             tx_then (s, codec_result (to_proto (te_syntax env) config)) (\<lambda>wire s.
             tx_then (s, map_err SenderProtocolError (validated_video_format (te_syntax env) wire)) (\<lambda>f s.
             tx_then (s, map_err SenderProtocolError (caps_supports caps f (sc_level_idc wire) 1)) (\<lambda>supported s.
               if \<not> supported then (set_error ''NO_MATCHING_DECODER_OFFER'' s, Ok ())
               else if sx_media_blocked s \<and> pm_height config \<noteq> sx_height s
               then (set_error ''STREAM_CONFIG_HEIGHT_MISMATCH'' s,
                     Err (StreamConfigHeightMismatch (sx_height s) (pm_height config)))
               else tx_then (send_stream_config env config s)
                 (\<lambda>_ s1. (s1 \<lparr> sx_config_sent := True, sx_media_blocked := False \<rparr>, Ok ())))))
         | _ \<Rightarrow> (s, Ok ())))"

text \<open>The commit of a matching keyframe.\<close>

definition commit_stream_epoch ::
  "encoder_transaction \<Rightarrow> nat \<Rightarrow> nat \<Rightarrow> stream_params \<Rightarrow> sender_session \<Rightarrow> sender_session" where
  "commit_stream_epoch t height generation config s =
     s \<lparr> sx_epoch := ed_stream_epoch (et_directive t), sx_anchor := None, sx_height := height,
         sx_generation := generation, sx_format := Some (params_request config), sx_config := Some config,
         sx_config_sent := True, sx_media_blocked := False, sx_keyframe_requested := True \<rparr>"

definition commit_encoder_recovery ::
  "encoder_transaction \<Rightarrow> nat \<Rightarrow> nat \<Rightarrow> stream_params \<Rightarrow> sender_session \<Rightarrow> sender_session" where
  "commit_encoder_recovery t height generation config s =
     s \<lparr> sx_height := height, sx_generation := generation, sx_format := Some (params_request config),
         sx_config := Some config, sx_config_sent := True, sx_media_blocked := False, sx_keyframe_requested := True \<rparr>"

section \<open>Streaming starts\<close>

definition enter_streaming :: "sender_env \<Rightarrow> sender_session \<Rightarrow> unit tx_outcome" where
  "enter_streaming env s =
     tx_ignore (send_pending_stream_config env
       (tx_upd_runtime (\<lambda>rt. set_health HealthHealthy (set_stream (StreamStreaming (sx_epoch s)) (set_trust TrustAuthenticated rt))) s
          \<lparr> sx_keyframe_requested := True \<rparr>))"

section \<open>Offers and reports of the receiver\<close>

definition receiver_source_candidates :: "sender_session \<Rightarrow> source_request list option" where
  "receiver_source_candidates s =
     map_option (\<lambda>caps. filter (\<lambda>q. is_offered_by q caps) PRODUCT_FORMATS) (sx_capabilities s)"

definition requested_source_format :: "sender_session \<Rightarrow> source_request option" where
  "requested_source_format s =
     (case apply_directive (sx_apply s) of
        Some d \<Rightarrow> Some (ed_target d) | None \<Rightarrow> map_option params_request (sx_config s))"

definition matching_decoder_height :: "capabilities \<Rightarrow> sender_session \<Rightarrow> nat" where
  "matching_decoder_height caps s =
     (case requested_source_format s of
        None \<Rightarrow> 0
      | Some q \<Rightarrow>
          (case max_opt (filter (\<lambda>h. is_offered_by (q \<lparr> sq_height := h \<rparr>) caps) [720, 1080]) of
             None \<Rightarrow> 0 | Some h \<Rightarrow> h))"

definition receiver_max_height :: "sender_session \<Rightarrow> nat" where
  "receiver_max_height s =
     (case sx_capabilities s of None \<Rightarrow> 0 | Some caps \<Rightarrow> matching_decoder_height caps s)"

definition tx_set_preferred_height :: "nat \<Rightarrow> sender_session \<Rightarrow> bool tx_outcome" where
  "tx_set_preferred_height height s =
     tx_then (on_bitrate (set_preferred_height height) s) (\<lambda>accepted s1.
       if \<not> accepted then (set_error ''UNSUPPORTED_SOURCE_HEIGHT'' s1, Ok False)
       else (s1 \<lparr> sx_requested_height := height \<rparr>, Ok True))"

definition tx_set_thermal_hold :: "bool \<Rightarrow> sender_session \<Rightarrow> sender_session" where
  "tx_set_thermal_hold hold s = s \<lparr> sx_bitrate := set_thermal_hold hold (sx_bitrate s) \<rparr>"

definition link_of :: "sender_env \<Rightarrow> link_stats" where
  "link_of env = (case te_link env of None \<Rightarrow> link_stats_default | Some l \<Rightarrow> l)"

definition stats_metrics :: "receiver_stats_message \<Rightarrow> link_stats \<Rightarrow> nat \<Rightarrow> receiver_stats" where
  "stats_metrics m link dropped =
     \<lparr> st_rtt_ms = rsm_rtt_ms m, st_packet_loss = rsm_packet_loss m, st_jitter_ms = rsm_jitter_ms m,
       st_reassembly_drop = rsm_reassembly_drop m, st_decoder_drop = rsm_decoder_drop m,
       st_frame_age_ms = rsm_frame_age_ms m, st_receive_bitrate = rsm_receive_bitrate m,
       st_jitter_buffer_target_ms = rsm_jitter_buffer_target_ms m,
       st_jitter_buffer_actual_delay_ms = rsm_jitter_buffer_actual_delay_ms m,
       st_jitter_buffer_occupancy_ms = rsm_jitter_buffer_occupancy_ms m,
       st_capture_to_encode_ms = rsm_capture_to_encode_ms m, st_encode_to_arrival_ms = rsm_encode_to_arrival_ms m,
       st_jitter_residence_ms = rsm_jitter_residence_ms m, st_decode_ms = rsm_decode_ms m,
       st_frame_publish_age_ms = rsm_frame_publish_age_ms m, st_end_to_end_latency_ms = rsm_end_to_end_latency_ms m,
       st_clock_uncertainty_ms = rsm_clock_uncertainty_ms m, st_receive_queue_age_ms = rsm_receive_queue_age_ms m,
       st_sender_queue_age_ms = lk_video_queue_age_ms link,
       st_sender_queue_dropped_access_units = sat_add64 (lk_video_dropped_access_units link) dropped,
       st_sender_quic_lost_packets = lk_lost_packets link, st_sender_quic_sent_packets = lk_sent_packets link,
       st_sender_video_buffered_bytes = lk_video_buffered_bytes link \<rparr>"

definition show_network_health :: "f64 \<Rightarrow> sender_session \<Rightarrow> sender_session" where
  "show_network_health packet_loss s =
     (if \<not> sender_streaming s then s
      else if f64_lt (f64_lit (3 / 100)) packet_loss then tx_upd_runtime (set_health HealthNetworkDegraded) s
      else if f64_lt packet_loss (f64_lit (1 / 100)) then tx_upd_runtime (set_health HealthHealthy) s
      else s)"

definition apply_receiver_stats :: "sender_env \<Rightarrow> receiver_stats_message \<Rightarrow> sender_session \<Rightarrow> unit tx_outcome" where
  "apply_receiver_stats env m s =
     (let pre_fec = (if f64_is_finite (rsm_pre_fec_packet_loss m)
                     then f64_clamp (Fin 0) (Fin 1) (rsm_pre_fec_packet_loss m) else Fin 1);
          metrics = stats_metrics m (link_of env) (sst_dropped_access_units (sp_stats (sx_pipeline s)))
      in tx_then (on_bitrate (update metrics) (s \<lparr> sx_pre_fec_loss := pre_fec, sx_last_stats := Some metrics \<rparr>))
           (\<lambda>action s1. (show_network_health (st_packet_loss metrics) (s1 \<lparr> sx_last_action := action \<rparr>), Ok ())))"

definition handle_capabilities :: "sender_env \<Rightarrow> capabilities \<Rightarrow> sender_session \<Rightarrow> bool tx_outcome" where
  "handle_capabilities env caps s =
     (if caps_validate caps \<noteq> Ok () then (set_error ''INVALID_DECODER_CAPABILITIES'' s, Ok False)
      else
        let s1 = (if (case requested_source_format s of None \<Rightarrow> False | Some q \<Rightarrow> \<not> is_offered_by q caps)
                  then set_error ''NO_MATCHING_DECODER_OFFER'' s else clear_offer_error s)
        in tx_then (tx_ignore (on_bitrate (set_preferred_height (sx_requested_height s1)) (s1 \<lparr> sx_capabilities := Some caps \<rparr>)))
             (\<lambda>_ s2. tx_then (if rt_stream (sx_runtime s2) = StreamNegotiating then enter_streaming env s2 else (s2, Ok ()))
               (\<lambda>_ s3. (s3, Ok True))))"

section \<open>The media clock\<close>

definition observe_media_clock :: "sender_env \<Rightarrow> nat \<Rightarrow> nat \<Rightarrow> sender_session \<Rightarrow> sender_session" where
  "observe_media_clock env stream_epoch encoded_at_us s =
     s \<lparr> sx_anchor := Some \<lparr> mca_stream_epoch = stream_epoch, mca_encoded_at_us = encoded_at_us,
           mca_observed_at = te_now env \<rparr> \<rparr>"

text \<open>The clock is read at \<open>now\<close>; \<open>as u64\<close> truncates.\<close>

definition media_clock_us :: "nat \<Rightarrow> nat \<Rightarrow> sender_session \<Rightarrow> nat option" where
  "media_clock_us now stream_epoch s =
     (case sx_anchor s of
        None \<Rightarrow> None
      | Some anchor \<Rightarrow>
          if mca_stream_epoch anchor \<noteq> stream_epoch then None
          else Some (sat_add64 (mca_encoded_at_us anchor) ((now - mca_observed_at anchor) div 1000 mod 2 ^ 64)))"

definition handle_clock_sync_ping :: "sender_env \<Rightarrow> nat \<Rightarrow> clock_sync_ping \<Rightarrow> sender_session \<Rightarrow> unit tx_outcome" where
  "handle_clock_sync_ping env session ping s =
     (if cp_sample_id ping = 0 \<or> cp_stream_epoch ping \<noteq> sx_epoch s then (s, Ok ())
      else
        (case media_clock_us (te_now env) (cp_stream_epoch ping) s of
           None \<Rightarrow> (s, Ok ())
         | Some received \<Rightarrow>
             let sent = max (case media_clock_us (te_later env) (cp_stream_epoch ping) s of
                               None \<Rightarrow> received | Some t \<Rightarrow> t) received
             in tx_ignore (tx_send env session (ClockSyncPongMsg
                  \<lparr> cq_sample_id = cp_sample_id ping, cq_receiver_send_us = cp_receiver_send_us ping,
                    cq_sender_receive_us = received, cq_sender_send_us = sent, cq_stream_epoch = cp_stream_epoch ping \<rparr>) s)))"

end
