(* ===== verification/Sender_Control.thy ===== *)
theory Sender_Control
  imports Sender_Stream
begin

text \<open>
  The sender's side of pairing (\<open>crates/picoo-sender/src/session/pairing.rs\<close>), its dispatch of control
  messages (\<open>session/control.rs\<close>) and the drain of transport events (\<open>session/lifecycle.rs\<close>).
\<close>

section \<open>The trust store of the sender\<close>

definition tx_persist_trusted :: "sender_env \<Rightarrow> sender_session \<Rightarrow> (unit, sender_error) result" where
  "tx_persist_trusted env s =
     (if \<not> sx_has_store_path s then Ok ()
      else (case save_to_path (cr_digests (te_crypto env)) (te_unicode env) (te_print env) (te_write env) (sx_trusted s) of
              Ok _ \<Rightarrow> Ok () | Err e \<Rightarrow> Err SenderStoreFailed | Panic \<Rightarrow> Panic))"

text \<open>\<open>file\<close> is what is at the path: nothing, something unreadable, or a text.\<close>

definition tx_attach_trusted_store :: "sender_env \<Rightarrow> string option option \<Rightarrow> sender_session \<Rightarrow> unit tx_outcome" where
  "tx_attach_trusted_store env file s =
     (case load_from_path (cr_digests (te_crypto env)) (te_unicode env) (te_parse env) file of
        Ok store \<Rightarrow> (s \<lparr> sx_trusted := store, sx_has_store_path := True \<rparr>, Ok ())
      | Err e \<Rightarrow> (s, Err SenderStoreFailed)
      | Panic \<Rightarrow> (s, Panic))"

definition tx_remove_trusted_device :: "sender_env \<Rightarrow> string \<Rightarrow> sender_session \<Rightarrow> bool tx_outcome" where
  "tx_remove_trusted_device env device_id s =
     (let (store, removed) = store_remove device_id (sx_trusted s);
          s1 = s \<lparr> sx_trusted := store \<rparr>
      in if \<not> removed then (s1, Ok False)
         else (case tx_persist_trusted env s1 of
                 Ok u \<Rightarrow> (s1, Ok True)
               | Err e \<Rightarrow> (s1 \<lparr> sx_trusted := sx_trusted s \<rparr>, Err e)
               | Panic \<Rightarrow> (s1, Panic)))"

definition receiver_is_authenticated :: "sender_session \<Rightarrow> bool" where
  "receiver_is_authenticated s \<longleftrightarrow>
     (case sx_pairing s of
        None \<Rightarrow> False
      | Some p \<Rightarrow> spg_receiver_id p \<noteq> [] \<and>
          verify_paired_key (sx_trusted s) (spg_receiver_id p) (spg_public_key p) = Ok ())"

section \<open>Proofs of the receiver\<close>

definition verify_receiver_phase :: "sender_env \<Rightarrow> nat \<Rightarrow> identity_proof \<Rightarrow> bytes \<Rightarrow> sender_session \<Rightarrow> bool" where
  "verify_receiver_phase env session idp phase s \<longleftrightarrow>
     (case sx_pairing s of
        None \<Rightarrow> False
      | Some p \<Rightarrow> active_session s = Some session \<and> ip_transcript_hash idp = spg_transcript_hash p \<and>
          verify_transcript_phase (te_crypto env) (spg_public_key p) (spg_transcript_hash p) phase
            (ip_identity_signature idp) = Ok ())"

definition tx_phase_proof :: "sender_env \<Rightarrow> bytes \<Rightarrow> bytes \<Rightarrow> sender_session \<Rightarrow> identity_proof" where
  "tx_phase_proof env hash phase s =
     \<lparr> ip_transcript_hash = hash,
       ip_identity_signature = sign_transcript_phase (te_crypto env) (sx_identity s) hash phase \<rparr>"

definition upd_pairing :: "(sender_pairing \<Rightarrow> sender_pairing) \<Rightarrow> sender_session \<Rightarrow> sender_session" where
  "upd_pairing f s = s \<lparr> sx_pairing := map_option f (sx_pairing s) \<rparr>"

definition send_identity_confirm :: "sender_env \<Rightarrow> sender_session \<Rightarrow> unit tx_outcome" where
  "send_identity_confirm env s =
     (case active_session s of
        None \<Rightarrow> (s, Err SenderNotConnected)
      | Some session \<Rightarrow>
          (case sx_pairing s of
             None \<Rightarrow> (s, Err (SenderProtocolError ''no authentication challenge''))
           | Some p \<Rightarrow>
               tx_then (tx_send env session
                   (PairingConfirmMsg (tx_phase_proof env (spg_transcript_hash p) SENDER_CONFIRM_PHASE s)) s)
                 (\<lambda>_ s1. (upd_pairing (\<lambda>p. p \<lparr> spg_confirm_sent := True \<rparr>) s1 \<lparr> sx_error := None \<rparr>, Ok ()))))"

definition send_pairing_confirm :: "sender_env \<Rightarrow> string \<Rightarrow> sender_session \<Rightarrow> unit tx_outcome" where
  "send_pairing_confirm env receiver_id s =
     (case sx_pairing s of
        None \<Rightarrow> (s, Err (SenderProtocolError ''no pairing challenge''))
      | Some p \<Rightarrow>
          if spg_receiver_id p \<noteq> receiver_id
          then (s, Err (SenderProtocolError ''pairing receiver id does not match ServerHello''))
          else if \<not> spg_pairing_required p
          then (s, Err (SenderProtocolError ''trusted reconnect does not require user confirmation''))
          else send_identity_confirm env s)"

definition server_transcript ::
  "device_identity \<Rightarrow> bytes \<Rightarrow> server_hello \<Rightarrow> bytes \<Rightarrow> nat \<Rightarrow> pairing_transcript" where
  "server_transcript identity sender_nonce hello binding session =
     \<lparr> tr_protocol = ALPN, tr_sender_id = di_device_id identity, tr_sender_public_key = di_public_key identity,
       tr_sender_nonce = sender_nonce, tr_receiver_id = sh_receiver_id hello,
       tr_receiver_public_key = sh_public_key hello, tr_receiver_nonce = sh_receiver_nonce hello,
       tr_channel_binding = binding, tr_connection_generation = session \<rparr>"

text \<open>What \<open>on_server_hello\<close> checks, in the order of its early returns; the error is the rejection code.\<close>

definition check_server_hello ::
  "sender_env \<Rightarrow> server_hello \<Rightarrow> sender_session \<Rightarrow> (bytes \<times> string, string) result" where
  "check_server_hello env hello s =
     rbind (ok_or (active_session s) ''PAIRING_SESSION_MISSING'') (\<lambda>session.
     rbind (ok_or (sx_nonce s) ''PAIRING_SENDER_NONCE_MISSING'') (\<lambda>sender_nonce.
     rbind (guard_err (sh_receiver_id hello = [] \<or>
              derive_device_id (cr_digests (te_crypto env)) (sh_public_key hello) \<noteq> sh_receiver_id hello \<or>
              length (sh_receiver_nonce hello) \<noteq> 32) ''INVALID_RECEIVER_IDENTITY'') (\<lambda>_.
     rbind (ok_or (te_binding env session) ''CHANNEL_BINDING_UNAVAILABLE'') (\<lambda>binding.
       let transcript = server_transcript (sx_identity s) sender_nonce hello binding session
       in rbind (map_err (\<lambda>_. ''INVALID_PAIRING_TRANSCRIPT'') (transcript_hash (cr_digests (te_crypto env)) transcript)) (\<lambda>hash.
          rbind (map_err (\<lambda>_. ''INVALID_PAIRING_TRANSCRIPT'') (short_code (cr_digests (te_crypto env)) transcript)) (\<lambda>code.
          rbind (guard_err (sh_transcript_hash hello \<noteq> hash \<or>
                   verify_transcript_phase (te_crypto env) (sh_public_key hello) hash SERVER_HELLO_PHASE
                     (sh_identity_signature hello) \<noteq> Ok ()) ''INVALID_RECEIVER_PROOF'') (\<lambda>_.
          rbind (guard_err (is_paired (sx_trusted s) (sh_receiver_id hello) \<and>
                   verify_paired_key (sx_trusted s) (sh_receiver_id hello) (sh_public_key hello) \<noteq> Ok ())
                   ''PUBLIC_KEY_CHANGED'') (\<lambda>_.
          rbind (guard_err (\<not> sh_pairing_required hello \<and> \<not> is_paired (sx_trusted s) (sh_receiver_id hello))
                   ''UNTRUSTED_PAIRING_BYPASS'') (\<lambda>_.
            Ok (hash, code))))))))))"

definition open_pairing :: "server_hello \<Rightarrow> bytes \<Rightarrow> string \<Rightarrow> sender_session \<Rightarrow> sender_session" where
  "open_pairing hello hash code s =
     tx_upd_runtime (\<lambda>rt. set_stream StreamNegotiating
         (set_trust (if sh_pairing_required hello then TrustPairing else TrustUnknown) rt))
       (s \<lparr> sx_pairing := Some \<lparr> spg_receiver_id = sh_receiver_id hello, spg_display_name = sh_display_name hello,
              spg_public_key = sh_public_key hello, spg_transcript_hash = hash,
              spg_short_code = (if sh_pairing_required hello then code else []),
              spg_pairing_required = sh_pairing_required hello, spg_confirm_sent = False,
              spg_trust_committed = False \<rparr> \<rparr>)"

definition on_server_hello :: "sender_env \<Rightarrow> server_hello \<Rightarrow> sender_session \<Rightarrow> unit tx_outcome" where
  "on_server_hello env hello s =
     (case check_server_hello env hello s of
        Err code \<Rightarrow> reject_authentication env code s
      | Panic \<Rightarrow> (s, Panic)
      | Ok (hash, code) \<Rightarrow>
          let s1 = open_pairing hello hash code s
          in if sh_pairing_required hello then (s1, Ok ())
             else (case send_identity_confirm env s1 of
                     (s2, Err e) \<Rightarrow> reject_authentication env ''SENDER_PROOF_SEND_FAILED'' s2
                   | out \<Rightarrow> out))"

definition paired_receiver_store :: "sender_env \<Rightarrow> sender_pairing \<Rightarrow> trusted_store \<Rightarrow> trusted_store" where
  "paired_receiver_store env p store =
     (if is_paired store (spg_receiver_id p) then touch_last_connected (spg_receiver_id p) (te_wall_ms env) store
      else store_upsert (trusted_device_from_pairing (cr_digests (te_crypto env)) (spg_receiver_id p)
             (if spg_display_name p = [] then spg_receiver_id p else spg_display_name p)
             (spg_public_key p) (te_wall_ms env)) store)"

text \<open>Committing the receiver to the trust store; \<open>False\<close> is the early return after a failed write.\<close>

definition commit_receiver :: "sender_env \<Rightarrow> sender_pairing \<Rightarrow> sender_session \<Rightarrow> bool tx_outcome" where
  "commit_receiver env p s =
     (if spg_trust_committed p then (s, Ok True)
      else
        let s1 = s \<lparr> sx_trusted := paired_receiver_store env p (sx_trusted s) \<rparr>
        in (case tx_persist_trusted env s1 of
              Ok u \<Rightarrow> (upd_pairing (\<lambda>p. p \<lparr> spg_trust_committed := True \<rparr>) s1, Ok True)
            | Err e \<Rightarrow> (set_error ''PAIRING_STORE_FAILED'' (s1 \<lparr> sx_trusted := sx_trusted s \<rparr>), Ok False)
            | Panic \<Rightarrow> (s1, Panic)))"

definition send_pairing_commit :: "sender_env \<Rightarrow> sender_pairing \<Rightarrow> sender_session \<Rightarrow> unit tx_outcome" where
  "send_pairing_commit env p s =
     (case active_session s of
        None \<Rightarrow> (set_error ''PAIRING_SESSION_MISSING'' s, Ok ())
      | Some session \<Rightarrow>
          (case tx_send env session (PairingCommitMsg (tx_phase_proof env (spg_transcript_hash p) PAIRING_COMMIT_PHASE s)) s of
             (s1, Ok u) \<Rightarrow> (s1 \<lparr> sx_error := None \<rparr>, Ok ())
           | (s1, Err e) \<Rightarrow> (set_error ''PAIRING_COMMIT_SEND_FAILED'' s1, Ok ())
           | (s1, Panic) \<Rightarrow> (s1, Panic)))"

definition accept_pairing_approval :: "sender_env \<Rightarrow> sender_session \<Rightarrow> unit tx_outcome" where
  "accept_pairing_approval env s =
     (if tx_status s \<notin> {TxPairing, TxNegotiating} then (s, Ok ())
      else
        (case sx_pairing s of
           None \<Rightarrow> (set_error ''PAIRING_STATE_MISSING'' s, Ok ())
         | Some p \<Rightarrow>
             if spg_receiver_id p = [] then (set_error ''PAIRING_RECEIVER_ID_MISSING'' s, Ok ())
             else if \<not> spg_confirm_sent p then (set_error ''PAIRING_LOCAL_CONFIRM_MISSING'' s, Ok ())
             else tx_then (commit_receiver env p s)
                    (\<lambda>committed s1. if committed then send_pairing_commit env p s1 else (s1, Ok ()))))"

definition accept_pairing_complete :: "sender_env \<Rightarrow> sender_session \<Rightarrow> unit tx_outcome" where
  "accept_pairing_complete env s =
     (if tx_status s \<notin> {TxPairing, TxNegotiating} then (s, Ok ())
      else
        (case sx_pairing s of
           None \<Rightarrow> (s, Ok ())
         | Some p \<Rightarrow>
             if \<not> spg_confirm_sent p \<or> \<not> spg_trust_committed p then (set_error ''PAIRING_COMMIT_MISSING'' s, Ok ())
             else if verify_paired_key (sx_trusted s) (spg_receiver_id p) (spg_public_key p) \<noteq> Ok ()
             then (set_error ''PAIRING_STORE_MISMATCH'' s, Ok ())
             else enter_streaming env (s \<lparr> sx_error := None \<rparr>)))"

definition handle_pairing_approval :: "sender_env \<Rightarrow> nat \<Rightarrow> identity_proof \<Rightarrow> sender_session \<Rightarrow> unit tx_outcome" where
  "handle_pairing_approval env session approval s =
     (if verify_receiver_phase env session approval PAIRING_APPROVAL_PHASE s then accept_pairing_approval env s
      else reject_authentication env ''INVALID_RECEIVER_APPROVAL'' s)"

definition handle_pairing_complete :: "sender_env \<Rightarrow> nat \<Rightarrow> identity_proof \<Rightarrow> sender_session \<Rightarrow> unit tx_outcome" where
  "handle_pairing_complete env session idp s =
     (if verify_receiver_phase env session idp PAIRING_COMPLETE_PHASE s then accept_pairing_complete env s
      else reject_authentication env ''INVALID_RECEIVER_COMPLETE'' s)"

section \<open>Control messages\<close>

definition handle_session_error :: "session_error \<Rightarrow> sender_session \<Rightarrow> sender_session" where
  "handle_session_error err s =
     (if er_code err \<in> {''UNPAIRED'', ''PUBLIC_KEY_CHANGED'', ''PAIRING_REJECTED''} then set_error (er_code err) s else s)"

definition handle_encoder_command :: "int \<Rightarrow> sender_session \<Rightarrow> sender_session" where
  "handle_encoder_command command s = (if command = REQUEST_KEYFRAME then s \<lparr> sx_keyframe_requested := True \<rparr> else s)"

definition handle_camera_command :: "camera_command \<Rightarrow> sender_session \<Rightarrow> sender_session" where
  "handle_camera_command command s =
     (if cm_command command \<noteq> CAMERA_UNSPECIFIED then s \<lparr> sx_camera := Some command \<rparr> else s)"

definition media_payload_allowed :: "sender_session \<Rightarrow> bool" where
  "media_payload_allowed s \<longleftrightarrow>
     sender_streaming s \<and> rt_trust (sx_runtime s) = TrustAuthenticated \<and> receiver_is_authenticated s"

definition pairing_payload_allowed :: "sender_session \<Rightarrow> bool" where
  "pairing_payload_allowed s \<longleftrightarrow>
     rt_stream (sx_runtime s) = StreamNegotiating \<and> rt_trust (sx_runtime s) \<in> {TrustUnknown, TrustPairing}"

definition hello_payload_allowed :: "sender_session \<Rightarrow> bool" where
  "hello_payload_allowed s \<longleftrightarrow>
     (case rt_connection (sx_runtime s) of ConnConnected g \<Rightarrow> True | _ \<Rightarrow> False) \<and>
     rt_stream (sx_runtime s) = StreamNegotiating \<and> rt_trust (sx_runtime s) = TrustUnknown"

fun control_payload_allowed :: "control_payload \<Rightarrow> sender_session \<Rightarrow> bool" where
  "control_payload_allowed (ServerHelloMsg m) s = hello_payload_allowed s"
| "control_payload_allowed (PairingApprovalMsg m) s = pairing_payload_allowed s"
| "control_payload_allowed (PairingCompleteMsg m) s = pairing_payload_allowed s"
| "control_payload_allowed (CapabilitiesMsg m) s = media_payload_allowed s"
| "control_payload_allowed (ReceiverStatsMsg m) s = media_payload_allowed s"
| "control_payload_allowed (EncoderCommandMsg m) s = media_payload_allowed s"
| "control_payload_allowed (CameraCommandMsg m) s = media_payload_allowed s"
| "control_payload_allowed (ClockSyncPingMsg m) s = media_payload_allowed s"
| "control_payload_allowed StopStreamMsg s = media_payload_allowed s"
| "control_payload_allowed (SessionErrorMsg m) s = True"
| "control_payload_allowed (ClientHelloMsg m) s = False"
| "control_payload_allowed (PairingConfirmMsg m) s = False"
| "control_payload_allowed (PairingCommitMsg m) s = False"
| "control_payload_allowed (StreamConfigMsg m) s = False"
| "control_payload_allowed StartStreamMsg s = False"
| "control_payload_allowed RequestKeyframeMsg s = False"
| "control_payload_allowed (SenderStatsMsg m) s = False"
| "control_payload_allowed HeartbeatMsg s = False"
| "control_payload_allowed (ClockSyncPongMsg m) s = False"

fun tx_dispatch_control :: "sender_env \<Rightarrow> nat \<Rightarrow> control_payload \<Rightarrow> sender_session \<Rightarrow> unit tx_outcome" where
  "tx_dispatch_control env session (PairingApprovalMsg m) s = handle_pairing_approval env session m s"
| "tx_dispatch_control env session (PairingCompleteMsg m) s = handle_pairing_complete env session m s"
| "tx_dispatch_control env session (ReceiverStatsMsg m) s = apply_receiver_stats env m s"
| "tx_dispatch_control env session (EncoderCommandMsg m) s = (handle_encoder_command m s, Ok ())"
| "tx_dispatch_control env session (CameraCommandMsg m) s = (handle_camera_command m s, Ok ())"
| "tx_dispatch_control env session (CapabilitiesMsg m) s = tx_ignore (handle_capabilities env m s)"
| "tx_dispatch_control env session (SessionErrorMsg m) s = (handle_session_error m s, Ok ())"
| "tx_dispatch_control env session (ServerHelloMsg m) s = on_server_hello env m s"
| "tx_dispatch_control env session (ClockSyncPingMsg m) s = handle_clock_sync_ping env session m s"
| "tx_dispatch_control env session StopStreamMsg s = tx_ignore (apply_sender_event env (UserDisconnect True) s)"
| "tx_dispatch_control env session (ClientHelloMsg m) s = (s, Ok ())"
| "tx_dispatch_control env session (PairingConfirmMsg m) s = (s, Ok ())"
| "tx_dispatch_control env session (PairingCommitMsg m) s = (s, Ok ())"
| "tx_dispatch_control env session (StreamConfigMsg m) s = (s, Ok ())"
| "tx_dispatch_control env session StartStreamMsg s = (s, Ok ())"
| "tx_dispatch_control env session RequestKeyframeMsg s = (s, Ok ())"
| "tx_dispatch_control env session (SenderStatsMsg m) s = (s, Ok ())"
| "tx_dispatch_control env session HeartbeatMsg s = (s, Ok ())"
| "tx_dispatch_control env session (ClockSyncPongMsg m) s = (s, Ok ())"

definition tx_handle_control :: "sender_env \<Rightarrow> nat \<Rightarrow> bytes \<Rightarrow> sender_session \<Rightarrow> unit tx_outcome" where
  "tx_handle_control env session msg s =
     (if active_session s \<noteq> Some session then (s, Ok ())
      else
        (case decode_control_envelope (te_prost env) msg of
           Err e \<Rightarrow> reject_authentication env ''INVALID_CONTROL_ENVELOPE'' s
         | Panic \<Rightarrow> (s, Panic)
         | Ok envelope \<Rightarrow>
             if ce_connection_generation envelope \<noteq> session \<or> ce_message_id envelope \<le> sx_last_message_id s
             then reject_authentication env ''STALE_CONTROL_ENVELOPE'' s
             else
               let s1 = s \<lparr> sx_last_message_id := ce_message_id envelope \<rparr>
               in (case ce_payload envelope of
                     None \<Rightarrow> (s1, Panic)
                   | Some payload \<Rightarrow>
                       if \<not> control_payload_allowed payload s1
                       then reject_authentication env ''CONTROL_PAYLOAD_NOT_ALLOWED'' s1
                       else tx_dispatch_control env session payload s1)))"

section \<open>Transport events\<close>

fun handle_polled :: "sender_env \<Rightarrow> transport_event \<Rightarrow> sender_session \<Rightarrow> unit tx_outcome" where
  "handle_polled env (TransportConnected session) s = tx_ignore (apply_sender_event env (TxTransportConnected session) s)"
| "handle_polled env (TransportControl session msg) s =
     (case apply_sender_event env (TxControlReceived session) s of
        (s1, Ok effects) \<Rightarrow> if TxAcceptControl \<in> set effects then tx_handle_control env session msg s1 else (s1, Ok ())
      | (s1, Err e) \<Rightarrow> (s1, Ok ())
      | (s1, Panic) \<Rightarrow> (s1, Panic))"
| "handle_polled env (TransportDisconnected session) s =
     tx_ignore (apply_sender_event env (TxTransportDisconnected session (sx_endpoint s \<noteq> None)) s)"
| "handle_polled env (TransportVideo session packets received_at) s = (s, Ok ())"

fun handle_all :: "sender_env \<Rightarrow> transport_event list \<Rightarrow> sender_session \<Rightarrow> unit tx_outcome" where
  "handle_all env [] s = (s, Ok ())"
| "handle_all env (e # es) s = tx_then (handle_polled env e s) (\<lambda>_. handle_all env es)"

definition tx_drain_events :: "sender_env \<Rightarrow> sender_session \<Rightarrow> unit tx_outcome" where
  "tx_drain_events env s =
     (case sx_polls s of
        [] \<Rightarrow> (s, Ok ()) | events # later \<Rightarrow> handle_all env events (s \<lparr> sx_polls := later \<rparr>))"

end
