(* ===== verification/Sender_Run.thy ===== *)
theory Sender_Run
  imports Sender_Control
begin

text \<open>
  The operations the sender's owner calls (\<open>session/lifecycle.rs\<close>, \<open>session/pairing.rs\<close>,
  \<open>session/media.rs\<close>, \<open>session/stream.rs\<close>): connecting, the greeting, the periodic \<open>pump\<close>, encoder
  failures, and the admission of encoded pictures; then all of them as one datatype of inputs, and
  runs over them.
\<close>

section \<open>Connection and greeting\<close>

definition sender_connect :: "sender_env \<Rightarrow> endpoint \<Rightarrow> sender_session \<Rightarrow> nat tx_outcome" where
  "sender_connect env endpoint s =
     tx_then (apply_sender_event env ConnectRequested (s \<lparr> sx_reconnect_after := None, sx_endpoint := Some endpoint \<rparr>))
       (\<lambda>_ s1.
         let s2 = s1 \<lparr> sx_dialled := sx_dialled s1 @ [endpoint] \<rparr>
         in (case te_connect env of
               Some session \<Rightarrow>
                 tx_then (apply_sender_event env (TransportConnectStarted session) s2) (\<lambda>_ s3.
                 tx_then (tx_drain_events env s3) (\<lambda>_ s4. (s4, Ok session)))
             | None \<Rightarrow>
                 tx_then (apply_sender_event env ExplicitConnectFailed s2) (\<lambda>_ s3. (s3, Err SenderTransportFailed))))"

definition sender_disconnect :: "sender_env \<Rightarrow> sender_session \<Rightarrow> unit tx_outcome" where
  "sender_disconnect env s =
     tx_then (tx_ignore (apply_sender_event env (UserDisconnect (has_session_resources s)) s)) (\<lambda>_. tx_drain_events env)"

definition set_auto_reconnect :: "sender_env \<Rightarrow> bool \<Rightarrow> sender_session \<Rightarrow> unit tx_outcome" where
  "set_auto_reconnect env enabled s =
     tx_ignore (apply_sender_event env (ReconnectPolicyChanged enabled)
       (if enabled then s else s \<lparr> sx_reconnect_after := None \<rparr>))"

definition send_client_hello :: "sender_env \<Rightarrow> sender_session \<Rightarrow> unit tx_outcome" where
  "send_client_hello env s =
     (let connection_pending = (case rt_connection (sx_runtime s) of
            ConnConnecting \<Rightarrow> True | ConnReconnecting n \<Rightarrow> True | _ \<Rightarrow> False);
          s1 = s \<lparr> sx_error := None, sx_hello_requested := True \<rparr>
      in if active_session s = None \<and> \<not> connection_pending then (s, Err SenderNotConnected)
         else if active_session s1 = None then (s1, Ok ())
         else tx_then (emit_client_hello env s1) (\<lambda>_ s2.
           tx_drain_events env (tx_upd_runtime (set_stream StreamNegotiating) s2)))"

definition send_to_receiver :: "sender_env \<Rightarrow> control_payload \<Rightarrow> sender_session \<Rightarrow> unit tx_outcome" where
  "send_to_receiver env payload s =
     (case active_session s of
        None \<Rightarrow> (s, Err SenderNotConnected)
      | Some session \<Rightarrow> tx_then (tx_send env session payload s) (\<lambda>_. tx_drain_events env))"

definition send_start_stream :: "sender_env \<Rightarrow> sender_session \<Rightarrow> unit tx_outcome" where
  "send_start_stream env = send_to_receiver env StartStreamMsg"

definition send_stop_stream :: "sender_env \<Rightarrow> sender_session \<Rightarrow> unit tx_outcome" where
  "send_stop_stream env = send_to_receiver env StopStreamMsg"

definition tx_mark_permission_required :: "sender_session \<Rightarrow> sender_session" where
  "tx_mark_permission_required = tx_upd_runtime (set_output OutputPermissionRequired)"

definition tx_clear_permission_required :: "sender_session \<Rightarrow> sender_session" where
  "tx_clear_permission_required =
     tx_upd_runtime (\<lambda>rt. if rt_output rt = OutputPermissionRequired then set_output OutputReady rt else rt)"

section \<open>Encoder failures\<close>

datatype encoder_failure_outcome = FailureWasIgnored | RolledBack | RecoveryRequested | EncoderDisconnected

definition disconnect_with :: "sender_env \<Rightarrow> string \<Rightarrow> sender_session \<Rightarrow> encoder_failure_outcome tx_outcome" where
  "disconnect_with env code s =
     tx_then (sender_disconnect env (set_error code s)) (\<lambda>_ s1. (s1, Ok EncoderDisconnected))"

definition start_committed_encoder_recovery ::
  "sender_env \<Rightarrow> sender_session \<Rightarrow> encoder_failure_outcome tx_outcome" where
  "start_committed_encoder_recovery env s =
     (if sx_height s = 0 \<or> is_applying (sx_apply s) then disconnect_with env ''ENCODER_RECOVERY_UNAVAILABLE'' s
      else if sx_next_directive s = u64_max then disconnect_with env ''ENCODER_DIRECTIVE_ID_EXHAUSTED'' s
      else
        (case sx_config s of
           None \<Rightarrow> disconnect_with env ''ENCODER_RECOVERY_CONFIGURATION_MISSING'' s
         | Some config \<Rightarrow>
             let (s1, started) = begin_encoder_transaction env
                   \<lparr> ed_id = sx_next_directive s, ed_kind = RecoveryDirective, ed_target = params_request config,
                     ed_bitrate_bps = bc_current_bitrate_bps (sx_bitrate s), ed_stream_epoch = sx_epoch s \<rparr> s
             in if \<not> started then disconnect_with env ''ENCODER_RECOVERY_STATE_CONFLICT'' s1
                else (s1 \<lparr> sx_next_directive := sx_next_directive s + 1, sx_keyframe_requested := True \<rparr>,
                      Ok RecoveryRequested)))"

fun handle_failure_transition ::
  "sender_env \<Rightarrow> failure_transition \<Rightarrow> sender_session \<Rightarrow> encoder_failure_outcome tx_outcome" where
  "handle_failure_transition env FailureIgnored s = (s, Ok FailureWasIgnored)"
| "handle_failure_transition env (FailureRollback t) s = (restore_generation t s, Ok RolledBack)"
| "handle_failure_transition env (FailureRecover t) s = start_committed_encoder_recovery env (restore_generation t s)"
| "handle_failure_transition env (FailureDisconnect t) s =
     disconnect_with env ''ENCODER_RECOVERY_FAILED'' (restore_generation t s)"

definition report_encoder_failed ::
  "sender_env \<Rightarrow> nat \<Rightarrow> nat \<Rightarrow> sender_session \<Rightarrow> encoder_failure_outcome tx_outcome" where
  "report_encoder_failed env transaction_id generation s =
     (if transaction_id = 0
      then (if is_applying (sx_apply s) \<or> generation = 0 \<or> generation \<noteq> sx_generation s then (s, Ok FailureWasIgnored)
            else start_committed_encoder_recovery env s)
      else
        let (a, transition) = report_failed transaction_id generation (sx_apply s)
        in handle_failure_transition env transition (s \<lparr> sx_apply := a \<rparr>))"

definition expire_encoder_transaction :: "sender_env \<Rightarrow> sender_session \<Rightarrow> unit tx_outcome" where
  "expire_encoder_transaction env s =
     (let (a, transition) = expire_transaction (te_now env) (sx_apply s)
      in tx_ignore (handle_failure_transition env transition (s \<lparr> sx_apply := a \<rparr>)))"

section \<open>The periodic turn\<close>

definition SENDER_STATS_INTERVAL :: nat where "SENDER_STATS_INTERVAL = 1000000000"

definition sender_stats_message :: "sender_env \<Rightarrow> sender_session \<Rightarrow> Control_Messages.sender_stats" where
  "sender_stats_message env s =
     \<lparr> st_access_units = sst_access_units (sp_stats (sx_pipeline s)), st_submitted_datagrams = sx_sent_datagrams s,
       st_video_queue_age_ms = lk_video_queue_age_ms (link_of env),
       st_video_dropped_access_units =
         sat_add64 (lk_video_dropped_access_units (link_of env)) (sst_dropped_access_units (sp_stats (sx_pipeline s))),
       st_quic_lost_packets = lk_lost_packets (link_of env), st_quic_sent_packets = lk_sent_packets (link_of env),
       st_video_buffered_bytes = lk_video_buffered_bytes (link_of env) \<rparr>"

definition maybe_send_sender_stats :: "sender_env \<Rightarrow> sender_session \<Rightarrow> unit tx_outcome" where
  "maybe_send_sender_stats env s =
     (if (case sx_stats_sent_at s of None \<Rightarrow> False | Some sent_at \<Rightarrow> te_now env - sent_at < SENDER_STATS_INTERVAL) then (s, Ok ())
      else
        (case active_session s of
           None \<Rightarrow> (s, Ok ())
         | Some session \<Rightarrow>
             (case tx_send env session (SenderStatsMsg (sender_stats_message env s)) s of
                (s1, Ok u) \<Rightarrow> (s1 \<lparr> sx_stats_sent_at := Some (te_now env) \<rparr>, Ok ())
              | (s1, Err e) \<Rightarrow> (s1, Ok ())
              | (s1, Panic) \<Rightarrow> (s1, Panic))))"

definition reconnect_if_due :: "sender_env \<Rightarrow> sender_session \<Rightarrow> unit tx_outcome" where
  "reconnect_if_due env s =
     (if (case sx_reconnect_after s of None \<Rightarrow> False | Some deadline \<Rightarrow> te_now env \<ge> deadline)
      then tx_then (apply_sender_event env ReconnectDeadlineElapsed (s \<lparr> sx_reconnect_after := None \<rparr>))
             (\<lambda>_. tx_drain_events env)
      else (s, Ok ()))"

definition sender_pump :: "sender_env \<Rightarrow> sender_session \<Rightarrow> unit tx_outcome" where
  "sender_pump env s =
     tx_then (tx_drain_events env s) (\<lambda>_ s1.
     tx_then (expire_encoder_transaction env s1) (\<lambda>_ s2.
     tx_then (reconnect_if_due env s2) (\<lambda>_ s3.
       if sender_streaming s3
       then tx_then (send_pending_stream_config env s3) (\<lambda>_. maybe_send_sender_stats env)
       else (s3, Ok ()))))"

section \<open>Encoded pictures\<close>

record native_access_unit =
  nu_data :: bytes
  nu_keyframe :: bool
  nu_pts_us :: u64
  nu_encoded_at_us :: u64
  nu_transaction_id :: nat
  nu_generation :: nat
  nu_stream_epoch :: nat
  nu_height :: nat

definition fec_protection_for :: "bool \<Rightarrow> sender_session \<Rightarrow> fec_protection" where
  "fec_protection_for keyframe s =
     (if keyframe \<or> f64_le (f64_lit (3 / 100)) (sx_pre_fec_loss s) then FecStrong
      else if f64_le (f64_lit (1 / 100)) (sx_pre_fec_loss s) then FecLight
      else FecNone)"

text \<open>The packetizer on the session's pipeline, after the media clock has been observed.\<close>

definition packetize_unit :: "sender_env \<Rightarrow> native_access_unit \<Rightarrow> bool \<Rightarrow> sender_session \<Rightarrow> nat tx_outcome" where
  "packetize_unit env au keyframe s =
     (let s1 = observe_media_clock env (nu_stream_epoch au) (unat (nu_encoded_at_us au)) s;
          (p, r) = ingest_timed_access_unit (te_rs env) (nu_data au) keyframe (nu_pts_us au) (nu_encoded_at_us au)
                     (of_nat (nu_stream_epoch au)) (fec_protection_for keyframe s) (sx_pipeline s1)
      in (s1 \<lparr> sx_pipeline := p \<rparr>, map_err PipelineFailed r))"

definition target_matches :: "stream_params \<Rightarrow> encoder_apply_state \<Rightarrow> bool" where
  "target_matches config a \<longleftrightarrow>
     (case apply_directive a of None \<Rightarrow> False | Some d \<Rightarrow> request_matches (ed_target d) config)"

definition commit_keyframe ::
  "encoder_transaction \<Rightarrow> native_access_unit \<Rightarrow> stream_params \<Rightarrow> sender_session \<Rightarrow> unit tx_outcome" where
  "commit_keyframe t au committed s =
     (if ed_kind (et_directive t) = RecoveryDirective
      then (commit_encoder_recovery t (nu_height au) (nu_generation au) committed s, Ok ())
      else tx_then (on_bitrate (sync_encode_height (nu_height au)) s) (\<lambda>_ s1.
        (commit_stream_epoch t (nu_height au) (nu_generation au) committed s1, Ok ())))"

text \<open>The keyframe a pending transaction waits for: announce, queue, and only then commit.\<close>

definition ingest_applying :: "sender_env \<Rightarrow> native_access_unit \<Rightarrow> sender_session \<Rightarrow> nat tx_outcome" where
  "ingest_applying env au s =
     (if \<not> matches_native_facts (nu_transaction_id au) (nu_generation au) (nu_stream_epoch au) (nu_height au) (sx_apply s) \<or>
         \<not> nu_keyframe au
      then (s, Err EncoderRefreshPending)
      else
        (case sx_config s of
           None \<Rightarrow> (s, Err (StreamConfigPending (nu_stream_epoch au)))
         | Some config \<Rightarrow>
             if \<not> config_staged (sx_apply s) \<or> pm_height config \<noteq> nu_height au
             then (s, Err (StreamConfigPending (nu_stream_epoch au)))
             else if \<not> target_matches config (sx_apply s)
             then (s, Err (SenderProtocolError ''native configuration differs from requested source format''))
             else
               let committed = config \<lparr> pm_stream_epoch := nu_stream_epoch au \<rparr>
               in tx_then (send_stream_config_for_epoch env committed (nu_stream_epoch au) s) (\<lambda>_ s1.
                  tx_then (packetize_unit env au True s1) (\<lambda>packets s2.
                    (case take_matching_keyframe (nu_transaction_id au) (nu_generation au) (nu_stream_epoch au)
                            (nu_height au) True (sx_apply s2) of
                       (a, None) \<Rightarrow> (s2, Panic)
                     | (a, Some t) \<Rightarrow>
                         tx_then (commit_keyframe t au committed (s2 \<lparr> sx_apply := a \<rparr>)) (\<lambda>_ s3.
                           (s3 \<lparr> sx_keyframe_requested := False \<rparr>, Ok packets)))))))"

definition ingest_committed :: "sender_env \<Rightarrow> native_access_unit \<Rightarrow> sender_session \<Rightarrow> nat tx_outcome" where
  "ingest_committed env au s =
     (if nu_transaction_id au \<noteq> 0 \<or> nu_generation au = 0 \<or> nu_generation au \<noteq> sx_generation s \<or>
         nu_stream_epoch au \<noteq> sx_epoch s \<or> nu_height au \<noteq> sx_height s
      then (s, Err StaleEncoderFact)
      else if sx_media_blocked s then (s, Err (StreamConfigPending (sx_epoch s)))
      else if (case (sx_config s, sx_format s) of
                 (Some config, Some format) \<Rightarrow> \<not> request_matches format config | _ \<Rightarrow> False)
      then (s, Err (SenderProtocolError ''source format change requires an explicit encoder transaction''))
      else tx_then (packetize_unit env au (nu_keyframe au) s) (\<lambda>packets s1.
        let s2 = (case sx_config s1 of None \<Rightarrow> s1 | Some config \<Rightarrow> s1 \<lparr> sx_format := Some (params_request config) \<rparr>)
        in (if nu_keyframe au then s2 \<lparr> sx_keyframe_requested := False \<rparr> else s2, Ok packets)))"

definition ingest_encoder_access_unit :: "sender_env \<Rightarrow> native_access_unit \<Rightarrow> sender_session \<Rightarrow> nat tx_outcome" where
  "ingest_encoder_access_unit env au s =
     (if nu_data au = [] then (s, Err (PipelineFailed EmptyAccessUnit))
      else if active_session s = None then (s, Err SenderNotConnected)
      else if \<not> sender_streaming s
      then (s \<lparr> sx_pipeline := clear_pending_packets (sx_pipeline s) \<rparr>, Err MediaNotReady)
      else if is_applying (sx_apply s) then ingest_applying env au s
      else ingest_committed env au s)"

fun send_batches :: "sender_env \<Rightarrow> nat \<Rightarrow> video_batch list \<Rightarrow> nat \<Rightarrow> sender_session \<Rightarrow> nat tx_outcome" where
  "send_batches env session [] sent s = (s, Ok sent)"
| "send_batches env session (b # bs) sent s =
     (if \<not> te_video_ok env b then (s, Err SenderTransportFailed)
      else send_batches env session bs (sent + length (vb_datagrams b))
             (s \<lparr> sx_video := sx_video s @ [(session, b)],
                  sx_sent_datagrams := sat_add64 (sx_sent_datagrams s) (length (vb_datagrams b)) \<rparr>))"

definition flush_pending :: "sender_env \<Rightarrow> sender_session \<Rightarrow> nat tx_outcome" where
  "flush_pending env s =
     (case active_session s of
        None \<Rightarrow> (s, Err SenderNotConnected)
      | Some session \<Rightarrow>
          if \<not> sender_streaming s
          then (s \<lparr> sx_pipeline := clear_pending_packets (sx_pipeline s) \<rparr>, Err MediaNotReady)
          else
            let (p, batches) = take_pending_batches (sx_pipeline s)
            in send_batches env session batches 0 (s \<lparr> sx_pipeline := p \<rparr>))"

definition take_keyframe_request :: "sender_session \<Rightarrow> sender_session \<times> bool" where
  "take_keyframe_request s = (s \<lparr> sx_keyframe_requested := False \<rparr>, sx_keyframe_requested s)"

definition take_camera_command :: "sender_session \<Rightarrow> sender_session \<times> camera_command option" where
  "take_camera_command s = (s \<lparr> sx_camera := None \<rparr>, sx_camera s)"

section \<open>Encoder callbacks\<close>

record native_event =
  nv_data :: bytes
  nv_keyframe :: bool
  nv_pts_us :: u64
  nv_encoded_at_us :: u64
  nv_generation :: nat
  nv_stream_epoch :: nat
  nv_width :: nat
  nv_height :: nat
  nv_config :: "stream_params option"

record event_outcome =
  eo_accepted :: bool
  eo_configured :: bool
  eo_keyframe_requested :: bool
  eo_packets :: nat
  eo_sent :: nat

definition outcome_default :: event_outcome where
  "outcome_default = \<lparr> eo_accepted = False, eo_configured = False, eo_keyframe_requested = False, eo_packets = 0, eo_sent = 0 \<rparr>"

definition bound_format :: "sender_session \<Rightarrow> source_request option" where
  "bound_format s =
     (case sx_format s of Some q \<Rightarrow> Some q | None \<Rightarrow> map_option params_request (sx_config s))"

text \<open>The checks before anything changes, in the code's order.\<close>

definition check_event_shape :: "native_event \<Rightarrow> sender_session \<Rightarrow> (unit, sender_error) result" where
  "check_event_shape ev s =
     rbind (guard_err (nv_generation ev = 0 \<or> nv_width ev = 0 \<or> nv_height ev = 0)
              (SenderProtocolError ''native encoder event has invalid generation or dimensions'')) (\<lambda>_.
     rbind (guard_err (case nv_config ev of None \<Rightarrow> False
                       | Some c \<Rightarrow> pm_width c \<noteq> nv_width ev \<or> pm_height c \<noteq> nv_height ev)
              (SenderProtocolError ''native stream configuration does not match encoder output dimensions'')) (\<lambda>_.
     rbind (guard_err (nv_config ev \<noteq> None \<and> \<not> nv_keyframe ev \<and>
                (encoder_transaction_id_for_epoch (nv_stream_epoch ev) s \<noteq> 0 \<or> sx_generation s = 0))
              (SenderProtocolError ''initial or transactional stream configuration requires a keyframe'')) (\<lambda>_.
       guard_err (\<not> is_applying (sx_apply s) \<and> sx_generation s \<noteq> 0 \<and>
            (case (nv_config ev, bound_format s) of
               (Some c, Some format) \<Rightarrow> \<not> request_matches format c | _ \<Rightarrow> False))
         (SenderProtocolError ''source format change requires an explicit encoder transaction''))))"

definition check_event_offer :: "sender_env \<Rightarrow> native_event \<Rightarrow> sender_session \<Rightarrow> (unit, sender_error) result" where
  "check_event_offer env ev s =
     (case (case nv_config ev of Some c \<Rightarrow> Some c | None \<Rightarrow> sx_config s) of
        None \<Rightarrow> guard_err (sx_capabilities s \<noteq> None) (SenderProtocolError ''native event has no source configuration'')
      | Some config \<Rightarrow>
          rbind (codec_result (to_proto (te_syntax env) config)) (\<lambda>_.
            case sx_capabilities s of
              None \<Rightarrow> Ok ()
            | Some caps \<Rightarrow>
                rbind (map_err SenderProtocolError
                         (from_codec_configuration (te_syntax env) (pm_configuration config) (pm_fps config))) (\<lambda>f.
                rbind (guard_err (length (nv_data ev) > u32_max) (SenderProtocolError ''native access unit exceeds offer budget'')) (\<lambda>_.
                rbind (map_err SenderProtocolError
                         (caps_supports caps f (cc_level_idc (pm_configuration config)) (length (nv_data ev)))) (\<lambda>supported.
                  guard_err (\<not> supported) (SenderProtocolError ''actual native event has no matching decoder offer''))))))"

definition check_event_target :: "native_event \<Rightarrow> sender_session \<Rightarrow> (unit, sender_error) result" where
  "check_event_target ev s =
     guard_err (case (nv_config ev, apply_directive (sx_apply s)) of
                  (Some c, Some d) \<Rightarrow> \<not> request_matches (ed_target d) c | _ \<Rightarrow> False)
       (SenderProtocolError ''native configuration differs from requested source format'')"

definition report_event_started :: "native_event \<Rightarrow> sender_session \<Rightarrow> bool tx_outcome" where
  "report_event_started ev s =
     (let transaction_id = encoder_transaction_id_for_epoch (nv_stream_epoch ev) s
      in if transaction_id = 0 \<and> sx_generation s = 0 \<and> nv_config ev \<noteq> None
         then report_initial_encoder_event_started (nv_generation ev) (nv_stream_epoch ev) (nv_height ev) s
         else report_encoder_started transaction_id (nv_generation ev) (nv_stream_epoch ev) (nv_height ev) s)"

definition event_unit :: "native_event \<Rightarrow> nat \<Rightarrow> bytes \<Rightarrow> native_access_unit" where
  "event_unit ev transaction_id data =
     \<lparr> nu_data = data, nu_keyframe = nv_keyframe ev, nu_pts_us = nv_pts_us ev, nu_encoded_at_us = nv_encoded_at_us ev,
       nu_transaction_id = transaction_id, nu_generation = nv_generation ev, nu_stream_epoch = nv_stream_epoch ev,
       nu_height = nv_height ev \<rparr>"

text \<open>After acceptance: stage, align, publish, ingest, flush, pump.\<close>

definition admit_event :: "sender_env \<Rightarrow> native_event \<Rightarrow> nat \<Rightarrow> sender_session \<Rightarrow> event_outcome tx_outcome" where
  "admit_event env ev transaction_id s =
     (let s1 = (case nv_config ev of None \<Rightarrow> s | Some c \<Rightarrow> set_stream_config c s)
      in tx_then (s1, (case sx_config s1 of
                         None \<Rightarrow> Ok (nv_data ev)
                       | Some c \<Rightarrow> codec_result (align_access_unit (te_syntax env) (pm_configuration c) (nv_data ev))))
           (\<lambda>data s1.
         tx_then (if nv_config ev \<noteq> None \<and> \<not> is_applying (sx_apply s1) then sender_pump env s1 else (s1, Ok ())) (\<lambda>_ s2.
         tx_then (ingest_encoder_access_unit env (event_unit ev transaction_id data) s2) (\<lambda>packets s3.
         tx_then (if packets > 0 then flush_pending env s3 else (s3, Ok 0)) (\<lambda>sent s4.
         tx_then (sender_pump env s4) (\<lambda>_ s5.
           let (s6, keyframe) = take_keyframe_request s5
           in (s6, Ok \<lparr> eo_accepted = True, eo_configured = nv_config ev \<noteq> None, eo_keyframe_requested = keyframe,
                        eo_packets = packets, eo_sent = sent \<rparr>)))))))"

definition submit_encoder_event :: "sender_env \<Rightarrow> native_event \<Rightarrow> sender_session \<Rightarrow> event_outcome tx_outcome" where
  "submit_encoder_event env ev s =
     tx_then (s, check_event_shape ev s) (\<lambda>_ s.
     tx_then (s, check_event_offer env ev s) (\<lambda>_ s.
     tx_then (s, check_event_target ev s) (\<lambda>_ s.
       if sx_capabilities s = None then (s, Ok outcome_default)
       else tx_then (report_event_started ev s) (\<lambda>accepted s1.
         if \<not> accepted
         then tx_then (sender_pump env s1) (\<lambda>_ s2.
           let (s3, keyframe) = take_keyframe_request s2
           in (s3, Ok (outcome_default \<lparr> eo_keyframe_requested := keyframe \<rparr>)))
         else admit_event env ev (encoder_transaction_id_for_epoch (nv_stream_epoch ev) s) s1))))"

text \<open>The plain entry point, for callers without encoder facts.\<close>

definition tx_ingest_access_unit :: "sender_env \<Rightarrow> bytes \<Rightarrow> bool \<Rightarrow> u64 \<Rightarrow> nat \<Rightarrow> sender_session \<Rightarrow> nat tx_outcome" where
  "tx_ingest_access_unit env data keyframe pts_us stream_epoch s =
     (if active_session s = None then (s, Err SenderNotConnected)
      else if \<not> sender_streaming s
      then (s \<lparr> sx_pipeline := clear_pending_packets (sx_pipeline s) \<rparr>, Err MediaNotReady)
      else if stream_epoch \<noteq> sx_epoch s then (s, Err (StaleStreamEpoch stream_epoch (sx_epoch s)))
      else if sx_media_blocked s then (s, Err (StreamConfigPending (sx_epoch s)))
      else
        let s1 = observe_media_clock env stream_epoch (unat pts_us) s;
            (p, r) = ingest_access_unit (te_rs env) data keyframe pts_us (of_nat stream_epoch)
                       (fec_protection_for keyframe s) (sx_pipeline s1)
        in (s1 \<lparr> sx_pipeline := p \<rparr>, map_err PipelineFailed r))"

definition ingest_and_flush :: "sender_env \<Rightarrow> bytes \<Rightarrow> bool \<Rightarrow> u64 \<Rightarrow> nat \<Rightarrow> sender_session \<Rightarrow> nat tx_outcome" where
  "ingest_and_flush env data keyframe pts_us stream_epoch s =
     tx_then (tx_ingest_access_unit env data keyframe pts_us stream_epoch s) (\<lambda>_. flush_pending env)"

section \<open>Inputs and runs\<close>

datatype sender_input =
    SxConnect endpoint
  | SxDisconnect
  | SxPump
  | SxHello
  | SxConfirm string
  | SxStart
  | SxStop
  | SxAutoReconnect bool
  | SxPermission bool
  | SxAttachStore "string option option"
  | SxRemove string
  | SxPreferredHeight nat
  | SxThermalHold bool
  | SxReconfigure source_request
  | SxSetConfig stream_params
  | SxStarted nat nat nat nat
  | SxFailed nat nat
  | SxEvent native_event
  | SxUnit native_access_unit
  | SxPlainUnit bytes bool u64 nat
  | SxFlush
  | SxTakeKeyframe
  | SxTakeCamera

definition tx_forget :: "'a tx_outcome \<Rightarrow> unit tx_outcome" where
  "tx_forget out = (fst out, case snd out of Ok _ \<Rightarrow> Ok () | Err e \<Rightarrow> Err e | Panic \<Rightarrow> Panic)"

fun sender_step :: "sender_env \<Rightarrow> sender_input \<Rightarrow> sender_session \<Rightarrow> unit tx_outcome" where
  "sender_step env (SxConnect endpoint) s = tx_forget (sender_connect env endpoint s)"
| "sender_step env SxDisconnect s = sender_disconnect env s"
| "sender_step env SxPump s = sender_pump env s"
| "sender_step env SxHello s = send_client_hello env s"
| "sender_step env (SxConfirm receiver_id) s = send_pairing_confirm env receiver_id s"
| "sender_step env SxStart s = send_start_stream env s"
| "sender_step env SxStop s = send_stop_stream env s"
| "sender_step env (SxAutoReconnect enabled) s = set_auto_reconnect env enabled s"
| "sender_step env (SxPermission required) s =
     (if required then tx_mark_permission_required s else tx_clear_permission_required s, Ok ())"
| "sender_step env (SxAttachStore file) s = tx_attach_trusted_store env file s"
| "sender_step env (SxRemove device_id) s = tx_forget (tx_remove_trusted_device env device_id s)"
| "sender_step env (SxPreferredHeight height) s = tx_forget (tx_set_preferred_height height s)"
| "sender_step env (SxThermalHold hold) s = (tx_set_thermal_hold hold s, Ok ())"
| "sender_step env (SxReconfigure target) s = tx_forget (begin_stream_reconfiguration env target s)"
| "sender_step env (SxSetConfig config) s = (set_stream_config config s, Ok ())"
| "sender_step env (SxStarted transaction_id generation stream_epoch height) s =
     tx_forget (report_encoder_started transaction_id generation stream_epoch height s)"
| "sender_step env (SxFailed transaction_id generation) s = tx_forget (report_encoder_failed env transaction_id generation s)"
| "sender_step env (SxEvent ev) s = tx_forget (submit_encoder_event env ev s)"
| "sender_step env (SxUnit au) s = tx_forget (ingest_encoder_access_unit env au s)"
| "sender_step env (SxPlainUnit data keyframe pts_us stream_epoch) s =
     tx_forget (tx_ingest_access_unit env data keyframe pts_us stream_epoch s)"
| "sender_step env SxFlush s = tx_forget (flush_pending env s)"
| "sender_step env SxTakeKeyframe s = (fst (take_keyframe_request s), Ok ())"
| "sender_step env SxTakeCamera s = (fst (take_camera_command s), Ok ())"

type_synonym sender_trace = "(sender_env \<times> sender_input) list"

text \<open>A run goes on after an error; a panic ends it.\<close>

fun sender_run :: "sender_trace \<Rightarrow> sender_session \<Rightarrow> sender_session option" where
  "sender_run [] s = Some s"
| "sender_run (e # es) s =
     (case sender_step (fst e) (snd e) s of (s1, r) \<Rightarrow> if r = Panic then None else sender_run es s1)"

end
