(* ===== verification/Sender_Frame.thy ===== *)
theory Sender_Frame
  imports Sender_Run
begin

text \<open>
  What the operations of the sender leave alone. \<open>tx_settles env s s'\<close> says that \<open>s'\<close> came from \<open>s\<close> by
  steps that neither trust anybody, nor send video, nor start a stream, nor open a pairing: at most they
  end what was going on.
\<close>

section \<open>Composition\<close>

named_theorems tx_simps \<open>fields after an operation of the sender\<close>

lemma tx_then_simps [simp]:
  "tx_then (s, Ok a) f = f a s" "tx_then (s, Err e) f = (s, Err e)" "tx_then (s, Panic) f = (s, Panic)"
  by (simp_all add: tx_then_def)

lemma tx_then_Ok_iff: "tx_then out f = (s', Ok b) \<longleftrightarrow> (\<exists>a s1. out = (s1, Ok a) \<and> f a s1 = (s', Ok b))"
  by (cases out) (auto simp: tx_then_def split: result.split)

lemma tx_then_inv:
  assumes "P (fst out)" "\<And>a s1. out = (s1, Ok a) \<Longrightarrow> P s1 \<Longrightarrow> P (fst (f a s1))"
  shows "P (fst (tx_then out f))"
  using assms by (cases out) (auto simp: tx_then_def split: result.split)

lemma fst_ignore [simp]: "fst (tx_ignore out) = fst out" "fst (tx_forget out) = fst out"
  by (simp_all add: tx_ignore_def tx_forget_def)

section \<open>Frames\<close>

text \<open>The part of the state that trust, streaming and epochs depend on.\<close>

definition tcore where
  "tcore s = (sx_pairing s, active_session s, sender_streaming s, sx_trusted s, sx_video s, sx_polls s, sx_identity s,
     sx_nonce s, sx_epoch s, sx_last_epoch s, apply_directive (sx_apply s),
     sx_media_blocked s, tx_ok (sx_lifecycle s))"

definition tx_settles :: "sender_env \<Rightarrow> sender_session \<Rightarrow> sender_session \<Rightarrow> bool" where
  "tx_settles env s s' \<longleftrightarrow>
     (sx_trusted s', sx_video s', sx_polls s', sx_identity s', sx_epoch s', sx_last_epoch s', sx_media_blocked s') =
       (sx_trusted s, sx_video s, sx_polls s, sx_identity s, sx_epoch s, sx_last_epoch s, sx_media_blocked s) \<and>
     sx_nonce s' \<in> {sx_nonce s, None, te_nonce env} \<and>
     apply_directive (sx_apply s') \<in> {apply_directive (sx_apply s), None} \<and>
     (sx_pairing s' = None \<or> sx_pairing s' = sx_pairing s \<and> active_session s' = active_session s) \<and>
     (sender_streaming s' \<longrightarrow> sender_streaming s \<and> active_session s' = active_session s) \<and>
     (tx_ok (sx_lifecycle s) \<longrightarrow> tx_ok (sx_lifecycle s'))"

lemma tx_settles_refl [simp]: "tx_settles env s s"
  by (simp add: tx_settles_def)

lemma tx_settles_trans: "tx_settles env s s1 \<Longrightarrow> tx_settles env s1 s2 \<Longrightarrow> tx_settles env s s2"
  unfolding tx_settles_def prod.inject by (elim conjE) (simp only: insert_iff empty_iff, metis)

lemma tx_core_settles: "tcore s' = tcore s \<Longrightarrow> tx_settles env s s'"
  by (auto simp: tx_settles_def tcore_def)

lemma on_bitrate_core [tx_simps]: "tcore (fst (on_bitrate f s)) = tcore s"
  by (auto simp: on_bitrate_def tcore_def active_session_def sender_streaming_def sx_runtime_def split: result.split)

lemma tx_send_core [tx_simps]: "tcore (fst (tx_send env session payload s)) = tcore s"
  by (simp add: tx_send_def tcore_def active_session_def sender_streaming_def sx_runtime_def Let_def)

lemma set_error_core [tx_simps]: "tcore (set_error code s) = tcore s"
  by (simp add: set_error_def tcore_def active_session_def sender_streaming_def sx_runtime_def)

lemma emit_settles: "tx_settles env s (fst (emit_client_hello env s))"
proof -
  have "fst (emit_client_hello env s) = s \<or> (\<exists>g n payload. te_nonce env = Some n \<and>
      fst (emit_client_hello env s) = fst (tx_send env g payload (s \<lparr> sx_nonce := Some n, sx_pairing := None \<rparr>)))"
    by (auto simp: emit_client_hello_def split: option.split)
  moreover have "tx_settles env s (s \<lparr> sx_nonce := te_nonce env, sx_pairing := None \<rparr>)"
    by (simp add: tx_settles_def active_session_def sender_streaming_def sx_runtime_def)
  ultimately show ?thesis
    using tx_core_settles [OF tx_send_core] tx_settles_trans by (metis tx_settles_refl)
qed

section \<open>Lifecycle events\<close>

declare apply_sender_event.simps [simp del]

text \<open>What a reset leaves.\<close>

lemma reset_fields [tx_simps]:
  "sx_pairing (fst (reset_sender_resources s)) = None" "sx_lifecycle (fst (reset_sender_resources s)) = sx_lifecycle s"
  "sx_trusted (fst (reset_sender_resources s)) = sx_trusted s" "sx_video (fst (reset_sender_resources s)) = sx_video s"
  "sx_polls (fst (reset_sender_resources s)) = sx_polls s" "sx_identity (fst (reset_sender_resources s)) = sx_identity s"
  "sx_nonce (fst (reset_sender_resources s)) = None" "sx_epoch (fst (reset_sender_resources s)) = sx_epoch s"
  "sx_last_epoch (fst (reset_sender_resources s)) = sx_last_epoch s"
  "sx_apply (fst (reset_sender_resources s)) = EncoderCommitted"
  "sx_media_blocked (fst (reset_sender_resources s)) = sx_media_blocked s"
  "sx_endpoint (fst (reset_sender_resources s)) = sx_endpoint s"
  "sx_closed (fst (reset_sender_resources s)) = sx_closed s" "sx_dialled (fst (reset_sender_resources s)) = sx_dialled s"
  "sx_error (fst (reset_sender_resources s)) = sx_error s" "sx_sent (fst (reset_sender_resources s)) = sx_sent s"
  "sx_reconnect_after (fst (reset_sender_resources s)) = sx_reconnect_after s"
  "sx_hello_requested (fst (reset_sender_resources s)) = sx_hello_requested s"
  by (cases "sx_apply s"; simp add: reset_sender_resources_def clear_receiver_capabilities_def on_bitrate_def tx_ignore_def
      abort_pending_reconfiguration_def restore_generation_def rollback_transaction_def tx_then_def split: result.split)+

text \<open>The reducer never starts a stream, and a state it makes active anew had no active session.\<close>

definition quiet :: "sender_session \<Rightarrow> sender_reducer_state \<Rightarrow> bool" where
  "quiet s l \<longleftrightarrow>
     (is_streaming (rt_stream (tx_runtime l)) \<longrightarrow> sender_streaming s \<and> tx_active_generation l = active_session s) \<and>
     (tx_ok (sx_lifecycle s) \<longrightarrow> tx_ok l)"

lemma reduce_quiet: "quiet s (fst (sender_reduce (sx_lifecycle s) e))"
proof -
  let ?l = "sx_lifecycle s"
  have "is_streaming (rt_stream (tx_runtime (fst (sender_reduce ?l e)))) \<longrightarrow>
      is_streaming (rt_stream (tx_runtime ?l)) \<and> tx_active_generation (fst (sender_reduce ?l e)) = tx_active_generation ?l"
    by (cases e) (auto simp: tx_defs split: option.splits)
  then show ?thesis
    using tx_reduce_ok [of ?l e] by (simp add: quiet_def sender_streaming_def sx_runtime_def active_session_def)
qed

definition pairing_live :: "sender_session \<Rightarrow> bool" where
  "pairing_live s \<longleftrightarrow> tx_ok (sx_lifecycle s) \<and> (sx_pairing s \<noteq> None \<longrightarrow> active_session s \<noteq> None)"

definition resets_first :: "sender_effect list \<Rightarrow> bool" where
  "resets_first es \<longleftrightarrow> (case es of TxResetSessionResources # es' \<Rightarrow> True | _ \<Rightarrow> False)"

lemma reduce_keeps_pairing:
  assumes "pairing_live s"
  shows "resets_first (effect_items (snd (sender_reduce (sx_lifecycle s) e))) \<or> sx_pairing s = None \<or>
    tx_active_generation (fst (sender_reduce (sx_lifecycle s) e)) = active_session s"
  using assms
  by (cases e) (auto simp: tx_defs pairing_live_def resets_first_def active_session_def split: option.splits)

lemma core_of:
  "tcore (s \<lparr> sx_closed := x \<rparr>) = tcore s" "tcore (s \<lparr> sx_reconnect_after := y \<rparr>) = tcore s"
  "tcore (s \<lparr> sx_endpoint := z \<rparr>) = tcore s" "tcore (s \<lparr> sx_hello_requested := b \<rparr>) = tcore s"
  "tcore (s \<lparr> sx_dialled := d \<rparr>) = tcore s" "tcore (s \<lparr> sx_backoff := k \<rparr>) = tcore s"
  "tcore (s \<lparr> sx_last_delay_ms := m \<rparr>) = tcore s" "tcore (s \<lparr> sx_stats_sent_at := a \<rparr>) = tcore s"
  "tcore (s \<lparr> sx_next_message_id := i \<rparr>) = tcore s" "tcore (s \<lparr> sx_last_message_id := j \<rparr>) = tcore s"
  "tcore (s \<lparr> sx_error := e \<rparr>) = tcore s" "tcore (s \<lparr> sx_keyframe_requested := f \<rparr>) = tcore s"
  "tcore (s \<lparr> sx_camera := c \<rparr>) = tcore s" "tcore (s \<lparr> sx_pre_fec_loss := l \<rparr>) = tcore s"
  "tcore (s \<lparr> sx_last_stats := st \<rparr>) = tcore s" "tcore (s \<lparr> sx_last_action := ac \<rparr>) = tcore s"
  "tcore (s \<lparr> sx_capabilities := ca \<rparr>) = tcore s" "tcore (s \<lparr> sx_config := co \<rparr>) = tcore s"
  "tcore (s \<lparr> sx_config_sent := cs \<rparr>) = tcore s" "tcore (s \<lparr> sx_anchor := an \<rparr>) = tcore s"
  "tcore (s \<lparr> sx_pipeline := pp \<rparr>) = tcore s" "tcore (s \<lparr> sx_next_directive := nd \<rparr>) = tcore s"
  "tcore (s \<lparr> sx_requested_height := rh \<rparr>) = tcore s" "tcore (s \<lparr> sx_bitrate := bi \<rparr>) = tcore s"
  "tcore (s \<lparr> sx_sent_datagrams := sd \<rparr>) = tcore s" "tcore (s \<lparr> sx_format := fo \<rparr>) = tcore s"
  "tcore (s \<lparr> sx_generation := ge \<rparr>) = tcore s" "tcore (s \<lparr> sx_height := he \<rparr>) = tcore s"
  "tcore (s \<lparr> sx_has_store_path := hs \<rparr>) = tcore s"
  by (simp_all add: tcore_def active_session_def sender_streaming_def sx_runtime_def)

lemma reset_settles:
  assumes "quiet s (sx_lifecycle s1)" "tcore (s1 \<lparr> sx_lifecycle := sx_lifecycle s \<rparr>) = tcore s"
  shows "tx_settles env s (fst (reset_sender_resources s1))"
  using assms
  by (auto simp: tx_settles_def tx_simps quiet_def tcore_def active_session_def sender_streaming_def sx_runtime_def)

lemma settles_then:
  assumes "tx_settles env s (fst out)" "\<And>a s1. tx_settles env s s1 \<Longrightarrow> tx_settles env s (fst (f a s1))"
  shows "tx_settles env s (fst (tx_then out f))"
  by (rule tx_then_inv) (use assms in auto)

lemma apply_fst:
  "fst (apply_sender_event env e s) =
     fst (run_sender_effects env (effect_items (snd (sender_reduce (sx_lifecycle s) e)))
        (s \<lparr> sx_lifecycle := fst (sender_reduce (sx_lifecycle s) e) \<rparr>))"
  by (simp add: apply_sender_event.simps Let_def tx_then_def split: result.split)

lemma lifecycle_settles:
  assumes "quiet s l" "sx_pairing s = None \<or> tx_active_generation l = active_session s"
  shows "tx_settles env s (s \<lparr> sx_lifecycle := l \<rparr>)"
  using assms by (auto simp: tx_settles_def quiet_def active_session_def sender_streaming_def sx_runtime_def)

text \<open>Effects after a change of the lifecycle.\<close>

lemma tx_effects_settle:
  assumes q: "quiet s l" and k: "resets_first es \<or> sx_pairing s = None \<or> tx_active_generation l = active_session s"
    and rest: "\<And>s1. tx_settles env s s1 \<Longrightarrow> tx_settles env s (fst (run_sender_effects env (if resets_first es then tl es else es) s1))"
  shows "tx_settles env s (fst (run_sender_effects env es (s \<lparr> sx_lifecycle := l \<rparr>)))"
proof (cases "resets_first es")
  case True
  then obtain es' where es: "es = TxResetSessionResources # es'"
    by (auto simp: resets_first_def split: list.splits sender_effect.splits)
  have "tx_settles env s (fst (reset_sender_resources (s \<lparr> sx_lifecycle := l \<rparr>)))"
    by (rule reset_settles) (use q in simp_all)
  then show ?thesis using rest True by (simp add: es settles_then)
next
  case False
  then have "tx_settles env s (s \<lparr> sx_lifecycle := l \<rparr>)" using lifecycle_settles [OF q] k by blast
  then show ?thesis using rest False by simp
qed

lemma live_settles: "pairing_live s \<Longrightarrow> tx_settles env s s1 \<Longrightarrow> pairing_live s1"
  by (auto simp: pairing_live_def tx_settles_def)

lemma tx_effect_settles:
  assumes nested: "\<And>e' s'. event_rank e' < effect_rank e \<Longrightarrow> pairing_live s' \<Longrightarrow>
      tx_settles env s' (fst (apply_sender_event env e' s'))"
    and live: "pairing_live s"
  shows "tx_settles env s (fst (run_sender_effect env e s))"
proof -
  have later: "tx_settles env s (fst (apply_sender_event env e' s'))" if "event_rank e' < effect_rank e" "tx_settles env s s'" for e' s'
    using nested [OF that(1) live_settles [OF live that(2)]] tx_settles_trans that(2) by blast
  show ?thesis
  proof (cases e)
    case (TxPrepareConnection g)
    let ?s = "s \<lparr> sx_backoff := backoff_reset (sx_backoff s), sx_reconnect_after := None, sx_stats_sent_at := None,
      sx_next_message_id := 1, sx_last_message_id := 0 \<rparr>"
    have s: "tx_settles env s ?s" by (simp add: tx_core_settles core_of)
    obtain s2 r where r: "emit_client_hello env ?s = (s2, r)" by fastforce
    with emit_settles [of env ?s] s have s2: "tx_settles env s s2" by (auto intro: tx_settles_trans)
    have s3: "tx_settles env s (tx_upd_runtime (set_stream StreamNegotiating) s2)"
      by (rule tx_settles_trans [OF s2]) (simp add: tx_settles_def tx_upd_runtime_def active_session_def sender_streaming_def
          sx_runtime_def set_stream_def tx_ok_def tx_connection_def)
    have s4: "tx_settles env s (set_error c s2)" for c
      by (rule tx_settles_trans [OF s2]) (simp add: tx_core_settles tx_simps)
    have s5: "tx_settles env s (fst (apply_sender_event env (rejection_event s2) (set_error c s2)))" for c
      by (rule later) (use s4 TxPrepareConnection in simp_all)
    from s s2 s3 s5 show ?thesis
      by (simp add: TxPrepareConnection Let_def r [simplified] split: result.split)
  next
    case ScheduleReconnect
    have s1: "tx_settles env s (s \<lparr> sx_backoff := b, sx_last_delay_ms := d, sx_reconnect_after := a \<rparr>)" for b d a
      by (simp add: tx_core_settles core_of)
    show ?thesis
      using ScheduleReconnect by (auto split: result.split intro!: settles_then later s1)
  next
    case StartReconnect
    have s1: "tx_settles env s (s \<lparr> sx_dialled := d \<rparr>)" for d by (simp add: tx_core_settles core_of)
    show ?thesis
      using StartReconnect by (auto simp: Let_def split: option.split intro!: settles_then later s1)
  next
    case TxResetSessionResources
    then show ?thesis by (simp add: reset_settles quiet_def sender_streaming_def sx_runtime_def active_session_def)
  qed (simp_all add: tx_core_settles core_of)
qed

lemma event_settles: "pairing_live s \<Longrightarrow> tx_settles env s (fst (apply_sender_event env e s))"
proof (induction "event_rank e" arbitrary: e s rule: less_induct)
  case less
  have step: "tx_settles env s (fst (run_sender_effects env es s1))" if "effects_rank es < event_rank e" "tx_settles env s s1" for es s1
    using that
  proof (induction es arbitrary: s1)
    case (Cons x es)
    have "tx_settles env s1 (fst (run_sender_effect env x s1))"
      by (rule tx_effect_settles [OF less.hyps live_settles [OF less.prems Cons.prems(2)]]) (use Cons.prems in auto)
    then show ?case using Cons by (auto intro: settles_then tx_settles_trans)
  qed simp
  show ?case
    unfolding apply_fst
  proof (rule tx_effects_settle [OF reduce_quiet reduce_keeps_pairing [OF less.prems]])
    let ?es = "effect_items (snd (sender_reduce (sx_lifecycle s) e))"
    fix s1 assume "tx_settles env s s1"
    moreover have "effects_rank (if resets_first ?es then tl ?es else ?es) < event_rank e"
      using effects_below_event [of "sx_lifecycle s" e] by (cases ?es) auto
    ultimately show "tx_settles env s (fst (run_sender_effects env (if resets_first ?es then tl ?es else ?es) s1))"
      by (rule step [rotated])
  qed
qed

lemma rejection_settles: "pairing_live s \<Longrightarrow> tx_settles env s (fst (reject_authentication env code s))"
  unfolding reject_authentication_def fst_ignore
  by (rule tx_settles_trans [OF tx_core_settles [OF set_error_core] event_settles])
    (simp add: pairing_live_def set_error_def active_session_def)

section \<open>Operations that settle\<close>

lemma runtime_settles:
  assumes "\<And>rt. rt_connection (f rt) = rt_connection rt" "\<And>rt. is_streaming (rt_stream (f rt)) \<longrightarrow> is_streaming (rt_stream rt)"
  shows "tx_settles env s (tx_upd_runtime f s)"
  using assms(2) [of "sx_runtime s"]
  by (simp add: tx_settles_def tx_upd_runtime_def active_session_def sender_streaming_def sx_runtime_def tx_ok_def
      tx_connection_def assms(1))

lemma staged_directive [simp]: "apply_directive (fst (reduce_transaction StreamConfigStaged a)) = apply_directive a"
  by (cases a) simp_all

lemma started_directive [simp]: "apply_directive (fst (report_started i g e h a)) = apply_directive a"
  by (cases a) (simp_all split: option.split)

lemma send_config_core [tx_simps]: "tcore (fst (send_stream_config_for_epoch env config stream_epoch s)) = tcore s"
  by (auto simp: send_stream_config_for_epoch_def tx_then_def tx_simps split: option.split result.split)

lemma send_stream_config_core [tx_simps]: "tcore (fst (send_stream_config env config s)) = tcore s"
  by (simp add: send_stream_config_def Let_def tx_then_def tx_simps core_of split: result.split)

lemma core_unblock:
  "tcore s1 = tcore s \<Longrightarrow> \<not> sx_media_blocked s \<Longrightarrow> tcore (s1 \<lparr> sx_config_sent := b, sx_media_blocked := False \<rparr>) = tcore s"
  by (auto simp: tcore_def active_session_def sender_streaming_def sx_runtime_def)

lemma send_pending_core:
  "\<not> sx_media_blocked s \<Longrightarrow> tcore (fst (send_pending_stream_config env s)) = tcore s"
  by (auto simp: send_pending_stream_config_def tx_then_def tx_simps core_of core_unblock split: option.split result.split)

end
