(* ===== verification/Sender_Consent.thy ===== *)
theory Sender_Consent
  imports Sender_Frame
begin

text \<open>
  What a sender has seen before it sends video: the receiver's identity proof for this very connection,
  its signed completion, and trust that was there before or that the user gave. The evidence is read
  off the inputs and off the messages the transport delivered. The same pass over all operations shows
  that stream epochs are never reused.
\<close>

section \<open>Evidence\<close>

text \<open>The transport delivered this message on connection \<open>g\<close>, and the code decoded it so in \<open>env\<close>.\<close>

definition heard :: "sender_session \<Rightarrow> sender_trace \<Rightarrow> sender_env \<Rightarrow> nat \<Rightarrow> control_payload \<Rightarrow> bool" where
  "heard s0 tr env g payload \<longleftrightarrow> env \<in> fst ` set tr \<and>
     (\<exists>msg message_id. TransportControl g msg \<in> set (concat (sx_polls s0)) \<and>
        decode_control_envelope (te_prost env) msg =
          Ok \<lparr> ce_message_id = message_id, ce_connection_generation = g, ce_payload = Some payload \<rparr>)"

definition receiver_proved :: "sender_session \<Rightarrow> sender_trace \<Rightarrow> nat \<Rightarrow> string \<Rightarrow> bytes \<Rightarrow> bytes \<Rightarrow> bool" where
  "receiver_proved s0 tr g receiver_id key hash \<longleftrightarrow>
     (\<exists>env env' hello nonce binding. heard s0 tr env g (ServerHelloMsg hello) \<and> sh_receiver_id hello = receiver_id \<and>
        sh_public_key hello = key \<and> derive_device_id (cr_digests (te_crypto env)) key = receiver_id \<and>
        env' \<in> fst ` set tr \<and> te_nonce env' = Some nonce \<and> te_binding env g = Some binding \<and>
        transcript_hash (cr_digests (te_crypto env)) (server_transcript (sx_identity s0) nonce hello binding g) = Ok hash \<and>
        verify_transcript_phase (te_crypto env) key hash SERVER_HELLO_PHASE (sh_identity_signature hello) = Ok ())"

definition receiver_completed :: "sender_session \<Rightarrow> sender_trace \<Rightarrow> nat \<Rightarrow> bytes \<Rightarrow> bytes \<Rightarrow> bool" where
  "receiver_completed s0 tr g key hash \<longleftrightarrow>
     (\<exists>env idp. heard s0 tr env g (PairingCompleteMsg idp) \<and> ip_transcript_hash idp = hash \<and>
        verify_transcript_phase (te_crypto env) key hash PAIRING_COMPLETE_PHASE (ip_identity_signature idp) = Ok ())"

text \<open>The key was trusted before, or in the store the owner attached, or the user confirmed this receiver.\<close>

definition consented :: "sender_session \<Rightarrow> sender_trace \<Rightarrow> string \<Rightarrow> bytes \<Rightarrow> bool" where
  "consented s0 tr receiver_id key \<longleftrightarrow>
     verify_paired_key (sx_trusted s0) receiver_id key = Ok () \<or>
     (\<exists>env file store. (env, SxAttachStore file) \<in> set tr \<and>
        load_from_path (cr_digests (te_crypto env)) (te_unicode env) (te_parse env) file = Ok store \<and>
        verify_paired_key store receiver_id key = Ok ()) \<or>
     (\<exists>env g hash. (env, SxConfirm receiver_id) \<in> set tr \<and> receiver_proved s0 tr g receiver_id key hash)"

definition receiver_admitted :: "sender_session \<Rightarrow> sender_trace \<Rightarrow> nat \<Rightarrow> bool" where
  "receiver_admitted s0 tr g \<longleftrightarrow>
     (\<exists>receiver_id key hash. receiver_proved s0 tr g receiver_id key hash \<and> receiver_completed s0 tr g key hash \<and>
        consented s0 tr receiver_id key)"

lemma heard_mono: "set tr \<subseteq> set tr' \<Longrightarrow> heard s0 tr env g payload \<Longrightarrow> heard s0 tr' env g payload"
  by (auto simp: heard_def)

lemma proved_mono: "set tr \<subseteq> set tr' \<Longrightarrow> receiver_proved s0 tr g rid key hash \<Longrightarrow> receiver_proved s0 tr' g rid key hash"
  unfolding receiver_proved_def by (elim ex_forward) (auto dest: heard_mono)

lemma completed_mono: "set tr \<subseteq> set tr' \<Longrightarrow> receiver_completed s0 tr g key hash \<Longrightarrow> receiver_completed s0 tr' g key hash"
  unfolding receiver_completed_def by (elim ex_forward) (auto dest: heard_mono)

lemma consented_mono: "set tr \<subseteq> set tr' \<Longrightarrow> consented s0 tr rid key \<Longrightarrow> consented s0 tr' rid key"
  unfolding consented_def by (meson proved_mono subsetD)

lemma receiver_admitted_mono: "set tr \<subseteq> set tr' \<Longrightarrow> receiver_admitted s0 tr g \<Longrightarrow> receiver_admitted s0 tr' g"
  unfolding receiver_admitted_def by (meson proved_mono completed_mono consented_mono)

section \<open>The invariant\<close>

definition epoch_ok :: "sender_session \<Rightarrow> bool" where
  "epoch_ok s \<longleftrightarrow> 0 < sx_epoch s \<and> sx_epoch s \<le> sx_last_epoch s \<and> sx_last_epoch s \<le> MAX_STREAM_EPOCH \<and>
     (\<forall>d. apply_directive (sx_apply s) = Some d \<longrightarrow>
        (ed_kind d = LocalDirective \<longrightarrow> sx_epoch s < ed_stream_epoch d \<and> ed_stream_epoch d \<le> sx_last_epoch s) \<and>
        (ed_kind d = RecoveryDirective \<longrightarrow> ed_stream_epoch d = sx_epoch s))"

definition pairing_ok :: "sender_session \<Rightarrow> sender_trace \<Rightarrow> sender_session \<Rightarrow> bool" where
  "pairing_ok s0 tr s \<longleftrightarrow>
     (\<forall>p. sx_pairing s = Some p \<longrightarrow>
        (\<exists>g. active_session s = Some g \<and>
             receiver_proved s0 tr g (spg_receiver_id p) (spg_public_key p) (spg_transcript_hash p)) \<and>
        (spg_confirm_sent p \<longrightarrow> consented s0 tr (spg_receiver_id p) (spg_public_key p)))"

definition sender_inv :: "sender_session \<Rightarrow> sender_trace \<Rightarrow> sender_session \<Rightarrow> bool" where
  "sender_inv s0 tr s \<longleftrightarrow>
     set (concat (sx_polls s)) \<subseteq> set (concat (sx_polls s0)) \<and> sx_identity s = sx_identity s0 \<and>
     store_ok (sx_trusted s) \<and> tx_ok (sx_lifecycle s) \<and> \<not> sx_media_blocked s \<and> epoch_ok s \<and> sx_epoch s0 \<le> sx_epoch s \<and>
     (\<forall>nonce. sx_nonce s = Some nonce \<longrightarrow> Some nonce \<in> te_nonce ` fst ` set tr) \<and>
     pairing_ok s0 tr s \<and>
     (sender_streaming s \<longrightarrow> (\<exists>g. active_session s = Some g \<and> receiver_admitted s0 tr g)) \<and>
     (\<forall>(g, b) \<in> set (sx_video s). (g, b) \<in> set (sx_video s0) \<or> receiver_admitted s0 tr g) \<and>
     (\<forall>rid key. verify_paired_key (sx_trusted s) rid key = Ok () \<longrightarrow> consented s0 tr rid key)"

lemma inv_trace: "set tr \<subseteq> set tr' \<Longrightarrow> sender_inv s0 tr s \<Longrightarrow> sender_inv s0 tr' s"
proof -
  assume sub: "set tr \<subseteq> set tr'" and inv: "sender_inv s0 tr s"
  have "pairing_ok s0 tr' s"
    using inv proved_mono [OF sub] consented_mono [OF sub] unfolding sender_inv_def pairing_ok_def by meson
  moreover have "te_nonce ` fst ` set tr \<subseteq> te_nonce ` fst ` set tr'" using sub by (intro image_mono)
  ultimately show ?thesis
    using inv receiver_admitted_mono [OF sub] consented_mono [OF sub] unfolding sender_inv_def by (auto simp: subset_iff)
qed

lemma tx_inv_settles:
  assumes inv: "sender_inv s0 tr s" and st: "tx_settles env s s'" and env: "env \<in> fst ` set tr"
  shows "sender_inv s0 tr s'"
proof -
  have eqs: "sx_trusted s' = sx_trusted s" "sx_video s' = sx_video s" "sx_polls s' = sx_polls s"
    "sx_identity s' = sx_identity s" "sx_epoch s' = sx_epoch s" "sx_last_epoch s' = sx_last_epoch s"
    "sx_media_blocked s' = sx_media_blocked s"
    and nonce: "sx_nonce s' \<in> {sx_nonce s, None, te_nonce env}"
    and dir: "apply_directive (sx_apply s') \<in> {apply_directive (sx_apply s), None}"
    and pair: "sx_pairing s' = None \<or> sx_pairing s' = sx_pairing s \<and> active_session s' = active_session s"
    and str: "sender_streaming s' \<longrightarrow> sender_streaming s \<and> active_session s' = active_session s"
    and ok: "tx_ok (sx_lifecycle s) \<longrightarrow> tx_ok (sx_lifecycle s')"
    using st unfolding tx_settles_def by simp_all
  have "epoch_ok s'" using inv dir unfolding sender_inv_def epoch_ok_def eqs by auto
  moreover have "pairing_ok s0 tr s'" using inv pair unfolding sender_inv_def pairing_ok_def by auto
  moreover have "\<forall>nonce. sx_nonce s' = Some nonce \<longrightarrow> Some nonce \<in> te_nonce ` fst ` set tr"
  proof (intro allI impI)
    fix n assume "sx_nonce s' = Some n"
    with nonce consider "sx_nonce s = Some n" | "te_nonce env = Some n" by auto
    then show "Some n \<in> te_nonce ` fst ` set tr"
      using inv imageI [OF env, of te_nonce] by cases (simp_all add: sender_inv_def)
  qed
  ultimately show ?thesis
    using inv str ok unfolding sender_inv_def eqs by auto
qed

lemma tx_inv_core: "sender_inv s0 tr s \<Longrightarrow> tcore s' = tcore s \<Longrightarrow> sender_inv s0 tr s'"
  by (simp add: sender_inv_def tcore_def epoch_ok_def pairing_ok_def)

lemma inv_eq: "tcore s' = tcore s \<Longrightarrow> sender_inv s0 tr s' = sender_inv s0 tr s"
  using tx_inv_core by metis

lemmas inv_of = core_of [THEN inv_eq]

lemma inv_live: "sender_inv s0 tr s \<Longrightarrow> pairing_live s"
  by (auto simp: sender_inv_def pairing_live_def pairing_ok_def)

lemma inv_event: "sender_inv s0 tr s \<Longrightarrow> env \<in> fst ` set tr \<Longrightarrow> sender_inv s0 tr (fst (apply_sender_event env e s))"
  using tx_inv_settles event_settles inv_live by blast

lemma inv_reject: "sender_inv s0 tr s \<Longrightarrow> env \<in> fst ` set tr \<Longrightarrow> sender_inv s0 tr (fst (reject_authentication env code s))"
  using tx_inv_settles rejection_settles inv_live by blast

lemma inv_then:
  assumes "sender_inv s0 tr (fst out)"
    "\<And>a s1. out = (s1, Ok a) \<Longrightarrow> sender_inv s0 tr s1 \<Longrightarrow> sender_inv s0 tr (fst (f a s1))"
  shows "sender_inv s0 tr (fst (tx_then out f))"
  by (rule tx_then_inv) (use assms in auto)

section \<open>Pairing\<close>

lemma inv_confirm_sent:
  assumes "sender_inv s0 tr s"
    and "\<And>p. sx_pairing s = Some p \<Longrightarrow> consented s0 tr (spg_receiver_id p) (spg_public_key p)"
  shows "sender_inv s0 tr (upd_pairing (\<lambda>p. p \<lparr> spg_confirm_sent := True \<rparr>) s \<lparr> sx_error := None \<rparr>)"
  using assms by (auto simp: sender_inv_def pairing_ok_def epoch_ok_def upd_pairing_def active_session_def
      sender_streaming_def sx_runtime_def)

lemma send_core_pairing: "tx_send env session payload s = (s1, r) \<Longrightarrow> tcore s1 = tcore s"
  using tx_send_core [of env session payload s] by simp

lemma tx_confirm_inv:
  assumes inv: "sender_inv s0 tr s"
    and consent: "\<And>p. sx_pairing s = Some p \<Longrightarrow> consented s0 tr (spg_receiver_id p) (spg_public_key p)"
  shows "sender_inv s0 tr (fst (send_identity_confirm env s))"
proof -
  have "sender_inv s0 tr (fst (tx_then (tx_send env session payload s)
      (\<lambda>_ s1. (upd_pairing (\<lambda>p. p \<lparr> spg_confirm_sent := True \<rparr>) s1 \<lparr> sx_error := None \<rparr>, Ok ()))))" for session payload
  proof (rule inv_then)
    show "sender_inv s0 tr (fst (tx_send env session payload s))" by (rule tx_inv_core [OF inv tx_send_core])
  next
    fix a s1 assume s1: "tx_send env session payload s = (s1, Ok a)" "sender_inv s0 tr s1"
    from send_core_pairing [OF s1(1)] have "sx_pairing s1 = sx_pairing s" by (simp add: tcore_def)
    then show "sender_inv s0 tr (fst (upd_pairing (\<lambda>p. p \<lparr> spg_confirm_sent := True \<rparr>) s1 \<lparr> sx_error := None \<rparr>, Ok ()))"
      using inv_confirm_sent [OF s1(2)] consent by simp
  qed
  then show ?thesis using inv by (simp add: send_identity_confirm_def split: option.split)
qed

lemma check_server_hello_Ok:
  assumes "check_server_hello env hello s = Ok (hash, code)"
  obtains g nonce binding where "active_session s = Some g" "sx_nonce s = Some nonce" "te_binding env g = Some binding"
    "sh_receiver_id hello \<noteq> []" "derive_device_id (cr_digests (te_crypto env)) (sh_public_key hello) = sh_receiver_id hello"
    "transcript_hash (cr_digests (te_crypto env)) (server_transcript (sx_identity s) nonce hello binding g) = Ok hash"
    "verify_transcript_phase (te_crypto env) (sh_public_key hello) hash SERVER_HELLO_PHASE (sh_identity_signature hello) = Ok ()"
    "\<not> sh_pairing_required hello \<Longrightarrow>
       verify_paired_key (sx_trusted s) (sh_receiver_id hello) (sh_public_key hello) = Ok ()"
  using assms by (auto simp: check_server_hello_def Let_def result_iff)

lemma open_pairing_inv:
  assumes inv: "sender_inv s0 tr s" and g: "active_session s = Some g"
    and proved: "receiver_proved s0 tr g (sh_receiver_id hello) (sh_public_key hello) hash"
  shows "sender_inv s0 tr (open_pairing hello hash code s)"
  using assms
  by (auto simp: open_pairing_def sender_inv_def pairing_ok_def epoch_ok_def tx_upd_runtime_def active_session_def
      sender_streaming_def sx_runtime_def set_stream_def set_trust_def tx_ok_def tx_connection_def)

lemma server_hello_inv:
  assumes inv: "sender_inv s0 tr s" and env: "env \<in> fst ` set tr"
    and h: "\<And>g. active_session s = Some g \<Longrightarrow> heard s0 tr env g (ServerHelloMsg hello)"
  shows "sender_inv s0 tr (fst (on_server_hello env hello s))"
proof (cases "check_server_hello env hello s")
  case (Ok hc)
  obtain hash code where hc: "hc = (hash, code)" by (cases hc)
  obtain g' nonce binding where c: "active_session s = Some g'" "sx_nonce s = Some nonce"
      "te_binding env g' = Some binding" "derive_device_id (cr_digests (te_crypto env)) (sh_public_key hello) = sh_receiver_id hello"
      "transcript_hash (cr_digests (te_crypto env)) (server_transcript (sx_identity s) nonce hello binding g') = Ok hash"
      "verify_transcript_phase (te_crypto env) (sh_public_key hello) hash SERVER_HELLO_PHASE (sh_identity_signature hello) = Ok ()"
      "\<not> sh_pairing_required hello \<Longrightarrow>
         verify_paired_key (sx_trusted s) (sh_receiver_id hello) (sh_public_key hello) = Ok ()"
    by (rule check_server_hello_Ok [OF Ok [unfolded hc]]) blast
  have own: "Some nonce \<in> te_nonce ` fst ` set tr" "sx_identity s = sx_identity s0"
    using inv c(2) by (simp_all add: sender_inv_def)
  from own(1) obtain env' where "Some nonce = te_nonce env'" and env'_in: "env' \<in> fst ` set tr" by (rule imageE)
  then have env': "env' \<in> fst ` set tr" "te_nonce env' = Some nonce" by simp_all
  have proved: "receiver_proved s0 tr g' (sh_receiver_id hello) (sh_public_key hello) hash"
    unfolding receiver_proved_def
    by (intro exI [of _ env] exI [of _ env'] exI [of _ hello] exI [of _ nonce] exI [of _ binding])
      (use h [OF c(1)] c env' own(2) in simp)
  let ?s = "open_pairing hello hash code s"
  have inv1: "sender_inv s0 tr ?s" by (rule open_pairing_inv [OF inv c(1) proved])
  show ?thesis
  proof (cases "sh_pairing_required hello")
    case False
    then have "verify_paired_key (sx_trusted s) (sh_receiver_id hello) (sh_public_key hello) = Ok ()" using c(7) by simp
    then have "consented s0 tr (sh_receiver_id hello) (sh_public_key hello)" using inv by (simp add: sender_inv_def)
    then have inv2: "sender_inv s0 tr (fst (send_identity_confirm env ?s))"
      by (intro tx_confirm_inv [OF inv1]) (auto simp: open_pairing_def tx_upd_runtime_def)
    obtain s2 r where out: "send_identity_confirm env ?s = (s2, r)" by fastforce
    with inv2 have "sender_inv s0 tr s2" by simp
    then show ?thesis
      using False inv_reject [OF _ env] by (simp add: on_server_hello_def Ok hc out Let_def split: result.split)
  qed (use inv1 in \<open>simp add: on_server_hello_def Ok hc\<close>)
qed (use inv in \<open>simp_all add: on_server_hello_def inv_reject [OF inv env]\<close>)

lemma paired_receiver_get:
  assumes "store_ok store" "verify_paired_key (paired_receiver_store env p store) rid key = Ok ()"
  shows "verify_paired_key store rid key = Ok () \<or> rid = spg_receiver_id p \<and> key = spg_public_key p"
  using assms
  by (auto simp: paired_receiver_store_def verify_paired_Ok_iff get_upsert touch_last_connected_def is_paired_def
      trusted_device_from_pairing_def dest: store_get_id split: if_splits option.splits)

lemma paired_receiver_ok: "store_ok store \<Longrightarrow> store_ok (paired_receiver_store env p store)"
  by (simp add: paired_receiver_store_def store_ok_touch store_ok_upsert)

lemma commit_receiver_inv:
  assumes inv: "sender_inv s0 tr s" and p: "sx_pairing s = Some p" "spg_confirm_sent p"
  shows "sender_inv s0 tr (fst (commit_receiver env p s))"
proof -
  let ?s1 = "s \<lparr> sx_trusted := paired_receiver_store env p (sx_trusted s) \<rparr>"
  have c: "consented s0 tr (spg_receiver_id p) (spg_public_key p)"
    using inv p by (simp add: sender_inv_def pairing_ok_def)
  have ok: "store_ok (sx_trusted s)" using inv by (simp add: sender_inv_def)
  have "consented s0 tr rid key"
    if "verify_paired_key (paired_receiver_store env p (sx_trusted s)) rid key = Ok ()" for rid key
    using paired_receiver_get [OF ok that] c inv by (auto simp: sender_inv_def)
  then have inv1: "sender_inv s0 tr ?s1"
    using inv paired_receiver_ok [OF ok, of env p]
    by (simp add: sender_inv_def pairing_ok_def epoch_ok_def active_session_def sender_streaming_def sx_runtime_def)
  have inv2: "sender_inv s0 tr (upd_pairing (\<lambda>p. p \<lparr> spg_trust_committed := True \<rparr>) ?s1)"
    using inv1 by (auto simp: sender_inv_def pairing_ok_def epoch_ok_def active_session_def sender_streaming_def
        sx_runtime_def upd_pairing_def)
  have inv3: "sender_inv s0 tr (set_error c (?s1 \<lparr> sx_trusted := sx_trusted s \<rparr>))" for c
    using inv by (simp add: tx_inv_core tx_simps)
  show ?thesis
    using inv inv1 inv2 inv3 by (simp add: commit_receiver_def Let_def split: result.split)
qed

lemma inv_error: "sender_inv s0 tr s \<Longrightarrow> sender_inv s0 tr (set_error code s)"
  by (rule tx_inv_core) (simp_all add: tx_simps)

lemma send_commit_inv:
  assumes inv: "sender_inv s0 tr s"
  shows "sender_inv s0 tr (fst (send_pairing_commit env p s))"
proof (cases "active_session s")
  case (Some session)
  let ?out = "tx_send env session (PairingCommitMsg (tx_phase_proof env (spg_transcript_hash p) PAIRING_COMMIT_PHASE s)) s"
  obtain s2 r where out: "?out = (s2, r)" by fastforce
  from tx_inv_core [OF inv send_core_pairing [OF out]] have inv2: "sender_inv s0 tr s2" .
  then have "sender_inv s0 tr (s2 \<lparr> sx_error := None \<rparr>)" by (rule tx_inv_core) (simp add: core_of)
  with inv2 show ?thesis by (simp add: send_pairing_commit_def Some out inv_error split: result.split)
qed (simp add: send_pairing_commit_def inv_error inv)

lemma approval_inv:
  assumes inv: "sender_inv s0 tr s"
  shows "sender_inv s0 tr (fst (accept_pairing_approval env s))"
proof -
  have "sender_inv s0 tr (fst (tx_then (commit_receiver env p s)
      (\<lambda>committed s1. if committed then send_pairing_commit env p s1 else (s1, Ok ()))))"
    if "sx_pairing s = Some p" "spg_confirm_sent p" for p
    by (rule inv_then [OF commit_receiver_inv [OF inv that]]) (simp add: send_commit_inv)
  then show ?thesis using inv by (simp add: accept_pairing_approval_def inv_error split: option.split)
qed

lemma enter_streaming_inv:
  assumes inv: "sender_inv s0 tr s" and g: "active_session s = Some g" "receiver_admitted s0 tr g"
  shows "sender_inv s0 tr (fst (enter_streaming env s))"
proof -
  let ?f = "\<lambda>rt. set_health HealthHealthy (set_stream (StreamStreaming (sx_epoch s)) (set_trust TrustAuthenticated rt))"
  have inv1: "sender_inv s0 tr (tx_upd_runtime ?f s \<lparr> sx_keyframe_requested := True \<rparr>)"
    using inv g by (auto simp: sender_inv_def pairing_ok_def epoch_ok_def active_session_def sender_streaming_def
        sx_runtime_def tx_upd_runtime_def set_health_def set_stream_def set_trust_def tx_ok_def tx_connection_def)
  then show ?thesis
    unfolding enter_streaming_def fst_ignore
    by (rule tx_inv_core) (rule send_pending_core, use inv1 in \<open>simp add: sender_inv_def\<close>)
qed

lemma tx_complete_inv:
  assumes inv: "sender_inv s0 tr s"
    and ended: "\<And>p. sx_pairing s = Some p \<Longrightarrow> receiver_completed s0 tr g (spg_public_key p) (spg_transcript_hash p)"
    and g: "active_session s = Some g"
  shows "sender_inv s0 tr (fst (accept_pairing_complete env s))"
proof (cases "sx_pairing s")
  case (Some p)
  have "sender_inv s0 tr (fst (enter_streaming env (s \<lparr> sx_error := None \<rparr>)))"
    if v: "verify_paired_key (sx_trusted s) (spg_receiver_id p) (spg_public_key p) = Ok ()"
  proof (rule enter_streaming_inv)
    show "sender_inv s0 tr (s \<lparr> sx_error := None \<rparr>)" by (rule tx_inv_core [OF inv]) (simp add: core_of)
    show "active_session (s \<lparr> sx_error := None \<rparr>) = Some g" using g by (simp add: active_session_def)
    have "receiver_proved s0 tr g (spg_receiver_id p) (spg_public_key p) (spg_transcript_hash p)"
      "consented s0 tr (spg_receiver_id p) (spg_public_key p)"
      using inv g Some v by (auto simp: sender_inv_def pairing_ok_def)
    then show "receiver_admitted s0 tr g" using ended [OF Some] unfolding receiver_admitted_def by blast
  qed
  then show ?thesis using inv Some by (simp add: accept_pairing_complete_def inv_error)
qed (use inv in \<open>simp add: accept_pairing_complete_def\<close>)

section \<open>Control messages and transport events\<close>

lemma stats_settles: "tx_settles env s (fst (apply_receiver_stats env m s))"
proof -
  have show_health: "tx_settles env s1 (show_network_health x s1)" for x s1
    by (auto simp: show_network_health_def set_health_def intro!: runtime_settles)
  have "tx_settles env s (fst (tx_then (on_bitrate f (s \<lparr> sx_pre_fec_loss := a, sx_last_stats := b \<rparr>))
      (\<lambda>action s1. (show_network_health x (s1 \<lparr> sx_last_action := action \<rparr>), Ok ()))))" for f a b x
    by (rule settles_then)
      (auto simp: tx_simps core_of intro!: tx_core_settles tx_settles_trans [OF _ show_health] elim!: tx_settles_trans)
  then show ?thesis by (simp add: apply_receiver_stats_def Let_def)
qed

lemma capabilities_core:
  assumes "sender_streaming s"
  shows "tcore (fst (handle_capabilities env caps s)) = tcore s"
proof -
  let ?s1 = "if (case requested_source_format s of None \<Rightarrow> False | Some q \<Rightarrow> \<not> is_offered_by q caps)
    then set_error ''NO_MATCHING_DECODER_OFFER'' s else clear_offer_error s"
  let ?out = "on_bitrate (set_preferred_height (sx_requested_height ?s1)) (?s1 \<lparr> sx_capabilities := Some caps \<rparr>)"
  have core: "tcore (fst ?out) = tcore s" by (simp add: tx_simps core_of clear_offer_error_def)
  then have "sender_streaming (fst ?out)" using assms by (simp add: tcore_def)
  then have "rt_stream (sx_runtime (fst ?out)) \<noteq> StreamNegotiating" by (auto simp: sender_streaming_def)
  then have "tcore (fst (tx_then (tx_ignore ?out) (\<lambda>_ s2. tx_then (if rt_stream (sx_runtime s2) = StreamNegotiating
      then enter_streaming env s2 else (s2, Ok ())) (\<lambda>_ s3. (s3, Ok True))))) = tcore s"
    using core by (cases ?out) (simp add: tx_ignore_def tx_then_def split: result.split)
  then show ?thesis by (simp add: handle_capabilities_def Let_def tx_simps)
qed

lemma ping_core: "tcore (fst (handle_clock_sync_ping env session ping s)) = tcore s"
  by (simp add: handle_clock_sync_ping_def Let_def tx_simps split: option.split)

lemma verified_phase:
  "verify_receiver_phase env session idp phase s \<Longrightarrow> sx_pairing s = Some p \<Longrightarrow>
     active_session s = Some session \<and> ip_transcript_hash idp = spg_transcript_hash p \<and>
     verify_transcript_phase (te_crypto env) (spg_public_key p) (spg_transcript_hash p) phase (ip_identity_signature idp) = Ok ()"
  by (simp add: verify_receiver_phase_def)

lemma tx_dispatch_inv:
  assumes inv: "sender_inv s0 tr s" and env: "env \<in> fst ` set tr"
    and g: "active_session s = Some g" and h: "heard s0 tr env g payload"
    and allowed: "control_payload_allowed payload s"
  shows "sender_inv s0 tr (fst (tx_dispatch_control env g payload s))"
proof (cases payload)
  case (PairingApprovalMsg m)
  then show ?thesis using inv_reject [OF inv env] approval_inv [OF inv] by (simp add: handle_pairing_approval_def)
next
  case (PairingCompleteMsg m)
  have "sender_inv s0 tr (fst (accept_pairing_complete env s))" if v: "verify_receiver_phase env g m PAIRING_COMPLETE_PHASE s"
  proof (rule tx_complete_inv [OF inv _ g])
    show "receiver_completed s0 tr g (spg_public_key p) (spg_transcript_hash p)" if "sx_pairing s = Some p" for p
      using verified_phase [OF v that] h unfolding PairingCompleteMsg receiver_completed_def by blast
  qed
  then show ?thesis using PairingCompleteMsg inv_reject [OF inv env] by (simp add: handle_pairing_complete_def)
next
  case (ServerHelloMsg m)
  have "sender_inv s0 tr (fst (on_server_hello env m s))"
    by (rule server_hello_inv [OF inv env]) (use h g ServerHelloMsg in simp)
  then show ?thesis using ServerHelloMsg by simp
next
  case (ReceiverStatsMsg m)
  then show ?thesis using tx_inv_settles [OF inv stats_settles env] by simp
next
  case (CapabilitiesMsg m)
  then show ?thesis using tx_inv_core [OF inv capabilities_core] allowed by (simp add: media_payload_allowed_def)
next
  case (ClockSyncPingMsg m)
  then show ?thesis using tx_inv_core [OF inv ping_core] by simp
next
  case StopStreamMsg
  then show ?thesis using inv_event [OF inv env] by simp
qed (use inv in \<open>simp_all add: tx_inv_core core_of handle_encoder_command_def handle_camera_command_def handle_session_error_def inv_error\<close>)

lemma control_inv:
  assumes inv: "sender_inv s0 tr s" and env: "env \<in> fst ` set tr"
    and m: "TransportControl g msg \<in> set (concat (sx_polls s0))"
  shows "sender_inv s0 tr (fst (tx_handle_control env g msg s))"
proof (cases "decode_control_envelope (te_prost env) msg")
  case (Ok envelope)
  let ?s1 = "s \<lparr> sx_last_message_id := ce_message_id envelope \<rparr>"
  have inv1: "sender_inv s0 tr ?s1" by (rule tx_inv_core [OF inv]) (simp add: core_of)
  have act: "active_session ?s1 = active_session s" by (simp add: active_session_def)
  have "sender_inv s0 tr (fst (tx_dispatch_control env g payload ?s1))"
    if "active_session s = Some g" "ce_connection_generation envelope = g" "ce_payload envelope = Some payload"
      "control_payload_allowed payload ?s1" for payload
  proof (rule tx_dispatch_inv [OF inv1 env _ _ that(4)])
    show "active_session ?s1 = Some g" using act that(1) by simp
    have "envelope = \<lparr> ce_message_id = ce_message_id envelope, ce_connection_generation = g, ce_payload = Some payload \<rparr>"
      using that(2,3) by simp
    then show "heard s0 tr env g payload" unfolding heard_def using env m Ok by metis
  qed
  then show ?thesis
    using inv inv1 inv_reject [OF inv env] inv_reject [OF inv1 env]
    by (simp add: tx_handle_control_def Ok Let_def split: option.split)
qed (use inv inv_reject [OF inv env] in \<open>simp_all add: tx_handle_control_def\<close>)

lemma polled_inv:
  assumes inv: "sender_inv s0 tr s" and env: "env \<in> fst ` set tr" and e: "e \<in> set (concat (sx_polls s0))"
  shows "sender_inv s0 tr (fst (handle_polled env e s))"
proof (cases e)
  case (TransportControl g msg)
  obtain s1 r where out: "apply_sender_event env (TxControlReceived g) s = (s1, r)" by fastforce
  with inv_event [OF inv env, of "TxControlReceived g"] have "sender_inv s0 tr s1" by simp
  then show ?thesis
    using control_inv [OF _ env e [unfolded TransportControl]] by (simp add: TransportControl out split: result.split)
qed (use inv inv_event [OF inv env] in simp_all)

lemma drain_inv:
  assumes inv: "sender_inv s0 tr s" and env: "env \<in> fst ` set tr"
  shows "sender_inv s0 tr (fst (tx_drain_events env s))"
proof -
  have all: "sender_inv s0 tr (fst (handle_all env es s1))"
    if "sender_inv s0 tr s1" "set es \<subseteq> set (concat (sx_polls s0))" for es s1
    using that
  proof (induction es arbitrary: s1)
    case (Cons e es)
    then show ?case using polled_inv [OF Cons.prems(1) env, of e] by (auto intro: inv_then)
  qed simp
  show ?thesis
  proof (cases "sx_polls s")
    case (Cons es later)
    have "sender_inv s0 tr (s \<lparr> sx_polls := later \<rparr>)" "set es \<subseteq> set (concat (sx_polls s0))"
      using inv Cons by (auto simp: sender_inv_def pairing_ok_def epoch_ok_def active_session_def sender_streaming_def sx_runtime_def)
    with all show ?thesis by (simp add: tx_drain_events_def Cons)
  qed (use inv in \<open>simp add: tx_drain_events_def\<close>)
qed

section \<open>Operations of the owner\<close>

lemma core_inv_then:
  assumes "sender_inv s0 tr s" "tcore (fst out) = tcore s"
    "\<And>a s1. out = (s1, Ok a) \<Longrightarrow> sender_inv s0 tr s1 \<Longrightarrow> sender_inv s0 tr (fst (f a s1))"
  shows "sender_inv s0 tr (fst (tx_then out f))"
  by (rule inv_then [OF tx_inv_core [OF assms(1,2)] assms(3)])

lemma event_inv_then:
  assumes "sender_inv s0 tr s" "env \<in> fst ` set tr"
    "\<And>a s1. sender_inv s0 tr s1 \<Longrightarrow> sender_inv s0 tr (fst (f a s1))"
  shows "sender_inv s0 tr (fst (tx_then (apply_sender_event env e s) f))"
  by (rule inv_then [OF inv_event [OF assms(1,2)] assms(3)])

lemma connect_inv:
  assumes inv: "sender_inv s0 tr s" and env: "env \<in> fst ` set tr"
  shows "sender_inv s0 tr (fst (sender_connect env endpoint s))"
  unfolding sender_connect_def Let_def
proof (rule event_inv_then [OF _ env])
  show "sender_inv s0 tr (s \<lparr> sx_reconnect_after := None, sx_endpoint := Some endpoint \<rparr>)"
    by (rule tx_inv_core [OF inv]) (simp add: core_of)
next
  fix a s1 assume "sender_inv s0 tr s1"
  then have "sender_inv s0 tr (s1 \<lparr> sx_dialled := d \<rparr>)" for d by (rule tx_inv_core) (simp add: core_of)
  then show "sender_inv s0 tr (fst (case te_connect env of
        Some session \<Rightarrow>
          tx_then (apply_sender_event env (TransportConnectStarted session) (s1 \<lparr> sx_dialled := sx_dialled s1 @ [endpoint] \<rparr>))
            (\<lambda>_ s3. tx_then (tx_drain_events env s3) (\<lambda>_ s4. (s4, Ok session)))
      | None \<Rightarrow>
          tx_then (apply_sender_event env ExplicitConnectFailed (s1 \<lparr> sx_dialled := sx_dialled s1 @ [endpoint] \<rparr>))
            (\<lambda>_ s3. (s3, Err SenderTransportFailed))))"
    by (auto split: option.split intro!: inv_then inv_event drain_inv env)
qed

lemma disconnect_inv:
  assumes inv: "sender_inv s0 tr s" and env: "env \<in> fst ` set tr"
  shows "sender_inv s0 tr (fst (sender_disconnect env s))"
  unfolding sender_disconnect_def by (rule inv_then) (simp_all add: inv_event [OF inv env] drain_inv [OF _ env])

lemma restore_core: "tcore (restore_generation t s) = tcore s"
  by (simp add: restore_generation_def rollback_transaction_def core_of)

lemma runtime_inv:
  assumes "sender_inv s0 tr s" "env \<in> fst ` set tr" "\<And>rt. rt_connection (f rt) = rt_connection rt"
    "\<And>rt. is_streaming (rt_stream (f rt)) \<longrightarrow> is_streaming (rt_stream rt)"
  shows "sender_inv s0 tr (tx_upd_runtime f s)"
  by (rule tx_inv_settles [OF assms(1) runtime_settles assms(2)]) (fact assms(3), fact assms(4))

lemma tx_hello_inv:
  assumes inv: "sender_inv s0 tr s" and env: "env \<in> fst ` set tr"
  shows "sender_inv s0 tr (fst (send_client_hello env s))"
proof -
  have inv1: "sender_inv s0 tr (s \<lparr> sx_error := None, sx_hello_requested := True \<rparr>)"
    by (rule tx_inv_core [OF inv]) (simp add: core_of)
  have "sender_inv s0 tr (fst (tx_then (emit_client_hello env (s \<lparr> sx_error := None, sx_hello_requested := True \<rparr>))
      (\<lambda>_ s2. tx_drain_events env (tx_upd_runtime (set_stream StreamNegotiating) s2))))"
    by (rule inv_then [OF tx_inv_settles [OF inv1 emit_settles env] drain_inv [OF runtime_inv [OF _ env] env]])
      (simp_all add: set_stream_def)
  then show ?thesis using inv inv1 by (simp add: send_client_hello_def Let_def)
qed

lemma send_to_receiver_inv:
  assumes inv: "sender_inv s0 tr s" and env: "env \<in> fst ` set tr"
  shows "sender_inv s0 tr (fst (send_to_receiver env payload s))"
  by (auto simp: send_to_receiver_def inv split: option.split intro!: core_inv_then [OF inv tx_send_core] drain_inv [OF _ env])

lemma disconnect_with_inv:
  assumes "sender_inv s0 tr s" "env \<in> fst ` set tr"
  shows "sender_inv s0 tr (fst (disconnect_with env code s))"
  unfolding disconnect_with_def
  by (rule inv_then [OF disconnect_inv [OF inv_error [OF assms(1)] assms(2)]]) simp

text \<open>A directive begins: it names a fresh epoch, or the current one for a recovery.\<close>

lemma begin_inv:
  assumes inv: "sender_inv s0 tr s"
    and d: "if ed_kind d = LocalDirective then sx_epoch s < ed_stream_epoch d \<and> ed_stream_epoch d \<le> sx_last_epoch s
            else ed_stream_epoch d = sx_epoch s"
  shows "sender_inv s0 tr (fst (begin_encoder_transaction env d s))"
  using assms by (cases "sx_apply s") (auto simp: begin_encoder_transaction_def sender_inv_def pairing_ok_def epoch_ok_def
      active_session_def sender_streaming_def sx_runtime_def split: if_splits)

lemma recovery_inv:
  assumes inv: "sender_inv s0 tr s" and env: "env \<in> fst ` set tr"
  shows "sender_inv s0 tr (fst (start_committed_encoder_recovery env s))"
proof -
  have "sender_inv s0 tr (fst (let (s1, started) = begin_encoder_transaction env d s in
      if \<not> started then disconnect_with env code s1
      else (s1 \<lparr> sx_next_directive := n, sx_keyframe_requested := True \<rparr>, Ok RecoveryRequested)))"
    if "ed_kind d = RecoveryDirective" "ed_stream_epoch d = sx_epoch s" for d code n
  proof -
    obtain s1 started where b: "begin_encoder_transaction env d s = (s1, started)" by fastforce
    with begin_inv [OF inv, of d env] that have inv1: "sender_inv s0 tr s1" by simp
    then have "sender_inv s0 tr (s1 \<lparr> sx_next_directive := n, sx_keyframe_requested := True \<rparr>)"
      by (rule tx_inv_core) (simp add: core_of)
    then show ?thesis using disconnect_with_inv [OF inv1 env] by (simp add: b)
  qed
  then show ?thesis
    using disconnect_with_inv [OF inv env] by (simp add: start_committed_encoder_recovery_def split: option.split)
qed

lemma failure_inv:
  assumes inv: "sender_inv s0 tr s" and env: "env \<in> fst ` set tr"
  shows "sender_inv s0 tr (fst (handle_failure_transition env transition s))"
proof -
  have "sender_inv s0 tr (restore_generation t s)" for t by (rule tx_inv_core [OF inv restore_core])
  then show ?thesis using inv recovery_inv disconnect_with_inv env by (cases transition) simp_all
qed

lemma failed_directive: "apply_directive (fst (report_failed i g a)) \<in> {apply_directive a, None}"
  "apply_directive (fst (expire_transaction now a)) \<in> {apply_directive a, None}"
  by (cases a; simp add: Let_def)+

lemma apply_settles: "apply_directive a \<in> {apply_directive (sx_apply s), None} \<Longrightarrow> tx_settles env s (s \<lparr> sx_apply := a \<rparr>)"
  by (simp add: tx_settles_def active_session_def sender_streaming_def sx_runtime_def)

lemma report_failed_inv:
  assumes inv: "sender_inv s0 tr s" and env: "env \<in> fst ` set tr"
  shows "sender_inv s0 tr (fst (report_encoder_failed env i g s))"
proof -
  have "sender_inv s0 tr (s \<lparr> sx_apply := fst (report_failed i g (sx_apply s)) \<rparr>)"
    by (rule tx_inv_settles [OF inv apply_settles [OF failed_directive(1)] env])
  then show ?thesis
    using inv recovery_inv [OF inv env] failure_inv [OF _ env]
    by (simp add: report_encoder_failed_def case_prod_beta)
qed

lemma expire_inv:
  assumes inv: "sender_inv s0 tr s" and env: "env \<in> fst ` set tr"
  shows "sender_inv s0 tr (fst (expire_encoder_transaction env s))"
proof -
  have "sender_inv s0 tr (s \<lparr> sx_apply := fst (expire_transaction (te_now env) (sx_apply s)) \<rparr>)"
    by (rule tx_inv_settles [OF inv apply_settles [OF failed_directive(2)] env])
  then show ?thesis using failure_inv [OF _ env] by (simp add: expire_encoder_transaction_def case_prod_beta)
qed

lemma stats_core: "tcore (fst (maybe_send_sender_stats env s)) = tcore s"
proof -
  have "tcore (fst (case tx_send env session payload s of
      (s1, Ok u) \<Rightarrow> (s1 \<lparr> sx_stats_sent_at := x \<rparr>, Ok ()) | (s1, Err e) \<Rightarrow> (s1, Ok ())
      | (s1, Panic) \<Rightarrow> (s1, Panic :: (unit, sender_error) result))) = tcore s"
    for session payload x
    using tx_send_core [of env session payload s] by (cases "tx_send env session payload s") (simp add: core_of split: result.split)
  then show ?thesis by (simp add: maybe_send_sender_stats_def split: option.split)
qed

lemma inv_unblocked: "sender_inv s0 tr s \<Longrightarrow> \<not> sx_media_blocked s"
  by (simp add: sender_inv_def)

lemma pump_inv:
  assumes inv: "sender_inv s0 tr s" and env: "env \<in> fst ` set tr"
  shows "sender_inv s0 tr (fst (sender_pump env s))"
proof -
  have reconnect: "sender_inv s0 tr (fst (reconnect_if_due env s1))" if "sender_inv s0 tr s1" for s1
  proof -
    have "sender_inv s0 tr (s1 \<lparr> sx_reconnect_after := None \<rparr>)" by (rule tx_inv_core [OF that]) (simp add: core_of)
    then show ?thesis
      using that by (simp add: reconnect_if_due_def event_inv_then [OF _ env drain_inv [OF _ env]])
  qed
  have tail: "sender_inv s0 tr (fst (tx_then (send_pending_stream_config env s1) (\<lambda>_. maybe_send_sender_stats env)))"
    if "sender_inv s0 tr s1" for s1
    by (rule core_inv_then [OF that send_pending_core [OF inv_unblocked [OF that]]]) (rule tx_inv_core [OF _ stats_core])
  show ?thesis
    unfolding sender_pump_def
    by (intro inv_then drain_inv expire_inv reconnect inv env) (simp_all add: tail)
qed

section \<open>Encoded pictures\<close>

lemma packetize_core: "tcore (fst (packetize_unit env au keyframe s)) = tcore s"
  by (simp add: packetize_unit_def Let_def case_prod_beta observe_media_clock_def core_of)

lemma bind_encoder_core: "tcore (fst (bind_encoder generation height s)) = tcore s"
  by (simp add: bind_encoder_def tx_then_def tx_simps core_of split: result.split)

lemma started_core: "tcore (fst (report_encoder_started i g e h s)) = tcore s"
  by (simp add: report_encoder_started_def bind_encoder_core case_prod_beta)
    (simp add: tcore_def active_session_def sender_streaming_def sx_runtime_def)

lemma event_started_core: "tcore (fst (report_event_started ev s)) = tcore s"
  by (simp add: report_event_started_def report_initial_encoder_event_started_def started_core bind_encoder_core Let_def)

lemma set_config_core: "tcore (set_stream_config config s) = tcore s"
  by (simp add: set_stream_config_def tcore_def active_session_def sender_streaming_def sx_runtime_def)

text \<open>A commit moves to the epoch of its directive, which is at or after the current one.\<close>

lemma commit_inv:
  assumes inv: "sender_inv s0 tr s" and t: "sx_apply s = EncoderApplying t"
  shows "sender_inv s0 tr (commit_stream_epoch t h g c (s \<lparr> sx_apply := EncoderCommitted \<rparr>))"
    "sender_inv s0 tr (commit_encoder_recovery t h g c (s \<lparr> sx_apply := EncoderCommitted \<rparr>))"
proof -
  have "sx_epoch s \<le> ed_stream_epoch (et_directive t)" "ed_stream_epoch (et_directive t) \<le> sx_last_epoch s"
    using inv t by (cases "ed_kind (et_directive t)"; simp add: sender_inv_def epoch_ok_def)+
  then show "sender_inv s0 tr (commit_stream_epoch t h g c (s \<lparr> sx_apply := EncoderCommitted \<rparr>))"
    "sender_inv s0 tr (commit_encoder_recovery t h g c (s \<lparr> sx_apply := EncoderCommitted \<rparr>))"
    using inv by (auto simp: commit_stream_epoch_def commit_encoder_recovery_def sender_inv_def pairing_ok_def epoch_ok_def
        active_session_def sender_streaming_def sx_runtime_def)
qed

lemma keyframe_inv:
  assumes inv: "sender_inv s0 tr s" and t: "sx_apply s = EncoderApplying t"
  shows "sender_inv s0 tr (fst (commit_keyframe t au c (s \<lparr> sx_apply := EncoderCommitted \<rparr>)))"
proof -
  have b: "sender_inv s0 tr (s \<lparr> sx_apply := EncoderCommitted \<rparr>)"
    using inv by (simp add: sender_inv_def pairing_ok_def epoch_ok_def active_session_def sender_streaming_def sx_runtime_def)
  have "commit_stream_epoch t h g c (s \<lparr> sx_apply := EncoderCommitted, sx_bitrate := b \<rparr>) =
      commit_stream_epoch t h g c (s \<lparr> sx_apply := EncoderCommitted \<rparr>) \<lparr> sx_bitrate := b \<rparr>" for b h g
    by (simp add: commit_stream_epoch_def)
  then have "sender_inv s0 tr (commit_stream_epoch t h g c (s \<lparr> sx_apply := EncoderCommitted, sx_bitrate := b \<rparr>))" for b h g
    using commit_inv(1) [OF inv t] by (simp add: inv_of)
  then show ?thesis
    using commit_inv(2) [OF inv t] b by (simp add: commit_keyframe_def on_bitrate_def split: result.split prod.split)
qed

lemma applying_inv:
  assumes inv: "sender_inv s0 tr s"
  shows "sender_inv s0 tr (fst (ingest_applying env au s))"
proof -
  have "sender_inv s0 tr (fst (case take_matching_keyframe i g e h True (sx_apply s2) of
      (a, None) \<Rightarrow> (s2, Panic)
    | (a, Some t) \<Rightarrow> tx_then (commit_keyframe t au c (s2 \<lparr> sx_apply := a \<rparr>)) (\<lambda>_ s3.
        (s3 \<lparr> sx_keyframe_requested := False \<rparr>, Ok packets :: (nat, sender_error) result))))"
    if inv2: "sender_inv s0 tr s2" for s2 i g e h c packets
  proof (cases "snd (take_matching_keyframe i g e h True (sx_apply s2))")
    case (Some t)
    then have m: "take_matching_keyframe i g e h True (sx_apply s2) = (EncoderCommitted, Some t)" "sx_apply s2 = EncoderApplying t"
      by (cases "sx_apply s2"; simp split: if_splits)+
    show ?thesis unfolding m(1) by (simp, rule inv_then [OF keyframe_inv [OF inv2 m(2)]]) (simp add: inv_of)
  qed (use inv2 in \<open>simp add: case_prod_beta\<close>)
  then have "sender_inv s0 tr (fst (tx_then (send_stream_config_for_epoch env c ep s) (\<lambda>_ s1.
      tx_then (packetize_unit env au True s1) (\<lambda>packets s2.
        case take_matching_keyframe i g e h True (sx_apply s2) of
          (a, None) \<Rightarrow> (s2, Panic)
        | (a, Some t) \<Rightarrow> tx_then (commit_keyframe t au c (s2 \<lparr> sx_apply := a \<rparr>)) (\<lambda>_ s3.
            (s3 \<lparr> sx_keyframe_requested := False \<rparr>, Ok packets))))))" for i g e h c ep
    by (intro core_inv_then [OF _ send_config_core] core_inv_then [OF _ packetize_core] inv) assumption
  then show ?thesis using inv by (simp add: ingest_applying_def Let_def split: option.split)
qed

lemma committed_inv:
  assumes inv: "sender_inv s0 tr s"
  shows "sender_inv s0 tr (fst (ingest_committed env au s))"
proof -
  have "sender_inv s0 tr (fst (tx_then (packetize_unit env au (nu_keyframe au) s) (\<lambda>packets s1.
      let s2 = (case sx_config s1 of None \<Rightarrow> s1 | Some config \<Rightarrow> s1 \<lparr> sx_format := Some (params_request config) \<rparr>)
      in (if nu_keyframe au then s2 \<lparr> sx_keyframe_requested := False \<rparr> else s2, Ok packets))))"
    by (rule core_inv_then [OF inv packetize_core]) (simp add: Let_def inv_of split: option.split)
  then show ?thesis using inv by (simp add: ingest_committed_def)
qed

lemma ingest_inv:
  assumes inv: "sender_inv s0 tr s"
  shows "sender_inv s0 tr (fst (ingest_encoder_access_unit env au s))"
  using inv applying_inv committed_inv by (simp add: ingest_encoder_access_unit_def inv_of)

lemma plain_inv: "sender_inv s0 tr s \<Longrightarrow> sender_inv s0 tr (fst (tx_ingest_access_unit env data keyframe pts epoch s))"
  by (simp add: tx_ingest_access_unit_def Let_def case_prod_beta observe_media_clock_def inv_of)

lemma flush_inv:
  assumes inv: "sender_inv s0 tr s"
  shows "sender_inv s0 tr (fst (flush_pending env s))"
proof -
  have "sender_inv s0 tr (fst (send_batches env g bs n s1))" if "sender_inv s0 tr s1" "receiver_admitted s0 tr g" for g bs n s1
    using that
  proof (induction bs arbitrary: n s1)
    case (Cons b bs)
    have "sender_inv s0 tr (s1 \<lparr> sx_video := sx_video s1 @ [(g, b)], sx_sent_datagrams := k \<rparr>)" for k
      using Cons.prems by (auto simp: sender_inv_def pairing_ok_def epoch_ok_def active_session_def sender_streaming_def sx_runtime_def)
    then show ?case using Cons by simp
  qed simp
  moreover have "receiver_admitted s0 tr g" if "active_session s = Some g" "sender_streaming s" for g
    using inv that by (auto simp: sender_inv_def)
  ultimately show ?thesis
    using inv by (simp add: flush_pending_def take_pending_batches_def inv_of split: option.split)
qed

lemma submit_inv:
  assumes inv: "sender_inv s0 tr s" and env: "env \<in> fst ` set tr"
  shows "sender_inv s0 tr (fst (submit_encoder_event env ev s))"
proof -
  have configured: "sender_inv s0 tr (case nv_config ev of None \<Rightarrow> s1 | Some c \<Rightarrow> set_stream_config c s1)"
    if "sender_inv s0 tr s1" for s1
    using that tx_inv_core [OF that set_config_core] by (simp split: option.split)
  have admit: "sender_inv s0 tr (fst (admit_event env ev i s1))" if "sender_inv s0 tr s1" for s1 i
    unfolding admit_event_def Let_def
    by (rule inv_then, simp add: configured that, rule inv_then, simp add: pump_inv env,
        rule inv_then, rule ingest_inv, assumption, rule inv_then, simp add: flush_inv,
        rule inv_then, rule pump_inv [OF _ env], assumption) (simp add: take_keyframe_request_def inv_of)
  have refuse: "sender_inv s0 tr (fst (tx_then (sender_pump env s1) (\<lambda>_ s2. let (s3, keyframe) = take_keyframe_request s2
      in (s3, Ok (outcome_default \<lparr> eo_keyframe_requested := keyframe \<rparr>)))))" if "sender_inv s0 tr s1" for s1
    by (rule inv_then [OF pump_inv [OF that env]]) (simp add: take_keyframe_request_def inv_of)
  have "sender_inv s0 tr (fst (tx_then (report_event_started ev s) (\<lambda>accepted s1.
      if \<not> accepted then tx_then (sender_pump env s1) (\<lambda>_ s2. let (s3, keyframe) = take_keyframe_request s2
        in (s3, Ok (outcome_default \<lparr> eo_keyframe_requested := keyframe \<rparr>)))
      else admit_event env ev i s1)))" for i
    by (rule core_inv_then [OF inv event_started_core], rename_tac a s1, case_tac a)
      (simp_all only: admit refuse simp_thms if_True if_False)
  then show ?thesis
    unfolding submit_encoder_event_def by (intro inv_then) (simp_all add: inv)
qed

section \<open>Runs\<close>

lemma reconfigure_inv:
  assumes inv: "sender_inv s0 tr s"
  shows "sender_inv s0 tr (fst (begin_stream_reconfiguration env target s))"
proof -
  have "sender_inv s0 tr (fst (let (s1, epoch) = allocate_stream_epoch s in if epoch = 0 then (s1, Ok 0) else
      (case l of None \<Rightarrow> (s1, Panic) | Some ladder \<Rightarrow>
         let (s2, started) = begin_encoder_transaction env \<lparr> ed_id = i, ed_kind = LocalDirective, ed_target = target,
             ed_bitrate_bps = bl_initial_bps ladder, ed_stream_epoch = epoch \<rparr> s1
         in if \<not> started then (s2, Ok 0)
            else (clear_offer_error (s2 \<lparr> sx_next_directive := n, sx_keyframe_requested := True \<rparr>),
                  Ok epoch :: (nat, sender_error) result))))"
    if idle: "\<not> is_applying (sx_apply s)" for l :: "bitrate_ladder option" and i n
  proof (cases "sx_last_epoch s \<ge> MAX_STREAM_EPOCH")
    case False
    let ?s1 = "s \<lparr> sx_last_epoch := sx_last_epoch s + 1 \<rparr>"
    have inv1: "sender_inv s0 tr ?s1"
      using inv False idle by (cases "sx_apply s") (auto simp: sender_inv_def pairing_ok_def epoch_ok_def active_session_def
          sender_streaming_def sx_runtime_def)
    have "sender_inv s0 tr (fst (begin_encoder_transaction env \<lparr> ed_id = i, ed_kind = LocalDirective, ed_target = target,
        ed_bitrate_bps = b, ed_stream_epoch = sx_last_epoch s + 1 \<rparr> ?s1))" for b
      by (rule begin_inv [OF inv1]) (use inv in \<open>simp add: sender_inv_def epoch_ok_def\<close>)
    then show ?thesis
      using False inv1 by (auto simp: allocate_stream_epoch_def case_prod_beta clear_offer_error_def inv_of split: option.split)
  qed (simp add: allocate_stream_epoch_def inv_error inv)
  then show ?thesis
    using inv by (cases "is_applying (sx_apply s)"; cases "is_product_format target"; cases "sx_next_directive s = u64_max")
      (simp_all add: begin_stream_reconfiguration_def inv_error)
qed

lemma forget_inv: "sender_inv s0 tr (fst out) \<Longrightarrow> sender_inv s0 tr (fst (tx_forget out))"
  by simp

lemma attach_inv:
  assumes inv: "sender_inv s0 tr s" and i: "(env, SxAttachStore file) \<in> set tr"
  shows "sender_inv s0 tr (fst (tx_attach_trusted_store env file s))"
proof (cases "load_from_path (cr_digests (te_crypto env)) (te_unicode env) (te_parse env) file")
  case (Ok store)
  have "store_ok (fold store_upsert ds store)" if "store_ok store" for ds store
    using that by (induction ds arbitrary: store) (simp_all add: store_ok_upsert)
  moreover have "store_ok (st \<lparr> ts_replacement := x, ts_next_replacement_revision := n \<rparr>) = store_ok st" for st x n
    by (simp add: store_ok_def)
  ultimately have "store_ok store"
    using Ok store_ok_new by (auto simp: load_from_path_def self_from_json_def rbind_Ok_iff ok_or_Ok_iff
        split: option.splits if_splits)
  moreover have "consented s0 tr rid key" if "verify_paired_key store rid key = Ok ()" for rid key
    using i Ok that unfolding consented_def by blast
  ultimately show ?thesis
    using inv by (simp add: tx_attach_trusted_store_def Ok sender_inv_def pairing_ok_def epoch_ok_def active_session_def
        sender_streaming_def sx_runtime_def)
qed (simp_all add: tx_attach_trusted_store_def inv)

lemma remove_inv:
  assumes inv: "sender_inv s0 tr s"
  shows "sender_inv s0 tr (fst (tx_remove_trusted_device env device_id s))"
proof -
  let ?s1 = "s \<lparr> sx_trusted := fst (store_remove device_id (sx_trusted s)) \<rparr>"
  have "verify_paired_key (sx_trusted s) rid key = Ok ()"
    if "verify_paired_key (fst (store_remove device_id (sx_trusted s))) rid key = Ok ()" for rid key
    using that by (auto simp: verify_paired_Ok_iff get_remove split: if_splits)
  moreover have "store_ok (fst (store_remove device_id (sx_trusted s)))"
    using inv by (simp add: sender_inv_def store_ok_remove)
  ultimately have "sender_inv s0 tr ?s1"
    using inv by (simp add: sender_inv_def pairing_ok_def epoch_ok_def active_session_def sender_streaming_def sx_runtime_def)
  then show ?thesis
    using inv by (simp add: tx_remove_trusted_device_def case_prod_beta Let_def split: result.split)
qed

lemma confirm_input_inv:
  assumes inv: "sender_inv s0 tr s" and i: "(env, SxConfirm receiver_id) \<in> set tr"
  shows "sender_inv s0 tr (fst (send_pairing_confirm env receiver_id s))"
proof (cases "sx_pairing s")
  case (Some p)
  have "consented s0 tr (spg_receiver_id p) (spg_public_key p)" if "spg_receiver_id p = receiver_id"
    using inv Some i that unfolding consented_def sender_inv_def pairing_ok_def by blast
  then have "sender_inv s0 tr (fst (send_identity_confirm env s))" if "spg_receiver_id p = receiver_id"
    by (intro tx_confirm_inv [OF inv]) (use Some that in auto)
  then show ?thesis using inv Some by (simp add: send_pairing_confirm_def)
qed (simp add: send_pairing_confirm_def inv)

lemma tx_step_inv:
  assumes inv: "sender_inv s0 tr s" and i: "(env, input) \<in> set tr"
  shows "sender_inv s0 tr (fst (sender_step env input s))"
proof -
  have env: "env \<in> fst ` set tr" using i by force
  have preferred: "sender_inv s0 tr (fst (tx_set_preferred_height h s))" for h
    unfolding tx_set_preferred_height_def
    by (rule core_inv_then [OF inv on_bitrate_core]) (simp add: inv_error inv_of)
  have policy: "sender_inv s0 tr (fst (set_auto_reconnect env b s))" for b
    by (simp add: set_auto_reconnect_def inv_event [OF _ env] inv inv_of)
  show ?thesis
  proof (cases input)
    case (SxAttachStore content)
    then show ?thesis using attach_inv [OF inv] i by simp
  next
    case (SxConfirm receiver_id)
    then show ?thesis using confirm_input_inv [OF inv] i by simp
  next
    case (SxPermission b)
    then show ?thesis
      by (simp add: tx_mark_permission_required_def tx_clear_permission_required_def runtime_inv [OF inv env] set_output_def)
  qed (simp_all add: connect_inv [OF inv env] disconnect_inv [OF inv env] pump_inv [OF inv env] tx_hello_inv [OF inv env]
      send_start_stream_def send_stop_stream_def send_to_receiver_inv [OF inv env] policy remove_inv [OF inv] preferred
      tx_set_thermal_hold_def reconfigure_inv [OF inv] tx_inv_core [OF inv set_config_core] tx_inv_core [OF inv started_core]
      report_failed_inv [OF inv env] submit_inv [OF inv env] ingest_inv [OF inv] plain_inv [OF inv] flush_inv [OF inv]
      take_keyframe_request_def take_camera_command_def inv_of inv)
qed

text \<open>A session nobody has connected yet.\<close>

definition sender_fresh :: "sender_session \<Rightarrow> bool" where
  "sender_fresh s \<longleftrightarrow> sx_pairing s = None \<and> \<not> sender_streaming s \<and> sx_nonce s = None \<and> \<not> sx_media_blocked s \<and>
     tx_ok (sx_lifecycle s) \<and> epoch_ok s \<and> store_ok (sx_trusted s)"

lemma new_session_fresh: "sender_fresh (sender_session_new identity polls)"
  by (simp add: sender_fresh_def sender_session_new_def sender_streaming_def sx_runtime_def sender_default_def
      runtime_default_def tx_ok_def tx_connection_def epoch_ok_def INITIAL_STREAM_EPOCH_def MAX_STREAM_EPOCH_def store_ok_new)

lemma fresh_inv: "sender_fresh s0 \<Longrightarrow> sender_inv s0 tr s0"
  by (auto simp: sender_fresh_def sender_inv_def pairing_ok_def consented_def)

lemma run_inv_from: "sender_inv s0 tr s \<Longrightarrow> set part \<subseteq> set tr \<Longrightarrow> sender_run part s = Some s' \<Longrightarrow> sender_inv s0 tr s'"
proof (induction part arbitrary: s)
  case (Cons e part)
  obtain s1 r where s1: "sender_step (fst e) (snd e) s = (s1, r)" by fastforce
  have "sender_inv s0 tr (fst (sender_step (fst e) (snd e) s))"
    by (rule tx_step_inv [OF Cons.prems(1)]) (use Cons.prems(2) in simp)
  then show ?case using Cons s1 by (auto split: if_splits)
qed simp

lemma sender_run_inv: "sender_fresh s0 \<Longrightarrow> sender_run tr s0 = Some s \<Longrightarrow> sender_inv s0 tr s"
  using run_inv_from [OF fresh_inv] by blast

end
