(* ===== verification/Clock_Sync.thy ===== *)
theory Clock_Sync
  imports Control_Messages Prefix_Codes
begin

text \<open>
  The mapping between the sender's clock and the receiver's: \<open>crates/picoo-session/src/clock_sync.rs\<close>
  (the bounded affine estimator) and \<open>crates/picoo-receiver/src/session/clock.rs\<close> (the pings in
  flight and the latencies computed from the mapping). Times are microseconds; the instants of the
  ping schedule are nanoseconds.
\<close>

section \<open>Floating point of the estimator\<close>

text \<open>\<open>mul_add\<close> rounds once; \<open>sum\<close> adds from the left; \<open>round\<close> goes away from zero on ties.\<close>

fun f64_mul_add :: "f64 \<Rightarrow> f64 \<Rightarrow> f64 \<Rightarrow> f64" where
  "f64_mul_add (Fin x) (Fin y) (Fin z) = Fin (fl (x * y + z))"
| "f64_mul_add a b c = f64_add (f64_mul a b) c"

definition f64_sum :: "f64 list \<Rightarrow> f64" where
  "f64_sum xs = foldl f64_add (Fin 0) xs"

fun f64_ceil :: "f64 \<Rightarrow> f64" where
  "f64_ceil (Fin x) = Fin (of_int \<lceil>x\<rceil>)"
| "f64_ceil NaN = NaN"
| "f64_ceil (Infinite s) = Infinite s"

fun f64_round :: "f64 \<Rightarrow> f64" where
  "f64_round (Fin x) = Fin (if 0 \<le> x then of_int \<lfloor>x + 1 / 2\<rfloor> else of_int \<lceil>x - 1 / 2\<rceil>)"
| "f64_round NaN = NaN"
| "f64_round (Infinite s) = Infinite s"

section \<open>The estimator\<close>

definition MAX_CLOCK_SYNC_SAMPLES :: nat where "MAX_CLOCK_SYNC_SAMPLES = 12"
definition MIN_STABLE_SAMPLES :: nat where "MIN_STABLE_SAMPLES = 3"
definition MIN_STABLE_SPAN_US :: nat where "MIN_STABLE_SPAN_US = 500000"
definition MAX_ACCEPTED_ROUND_TRIP_US :: nat where "MAX_ACCEPTED_ROUND_TRIP_US = 250000"
definition LOW_DELAY_BAND_US :: nat where "LOW_DELAY_BAND_US = 2000"
definition MAX_SLOPE_ERROR :: f64 where "MAX_SLOPE_ERROR = f64_lit (1 / 1000)"
definition F64_EPSILON :: f64 where "F64_EPSILON = Fin (1 / 2 ^ 52)"

record clock_sync_exchange =
  ex_generation :: nat
  ex_local_send_us :: nat
  ex_remote_receive_us :: nat
  ex_remote_send_us :: nat
  ex_local_receive_us :: nat

record clock_mapping_estimate =
  cme_local_time_us :: nat
  cme_uncertainty_us :: nat

datatype clock_sync_error =
  StaleGeneration nat nat | NonMonotonicExchange | ImpossibleRoundTrip | ExcessiveRoundTrip

record sync_point =
  spt_remote_midpoint_us :: f64
  spt_local_midpoint_us :: f64
  spt_uncertainty_us :: nat

record affine_clock_mapper =
  cm_generation :: nat
  cm_samples :: "sync_point list"
  cm_slope :: f64
  cm_intercept_us :: f64
  cm_uncertainty_us :: nat
  cm_stable :: bool

definition mapper_reset :: "nat \<Rightarrow> affine_clock_mapper \<Rightarrow> affine_clock_mapper" where
  "mapper_reset generation m =
     m \<lparr> cm_generation := generation, cm_samples := [], cm_slope := Fin 1, cm_intercept_us := Fin 0,
         cm_uncertainty_us := 2 ^ 64 - 1, cm_stable := False \<rparr>"

definition mapper_new :: "nat \<Rightarrow> affine_clock_mapper" where
  "mapper_new generation =
     \<lparr> cm_generation = generation, cm_samples = [], cm_slope = Fin 1, cm_intercept_us = Fin 0,
       cm_uncertainty_us = 2 ^ 64 - 1, cm_stable = False \<rparr>"

definition midpoint :: "nat \<Rightarrow> nat \<Rightarrow> f64" where
  "midpoint a b = f64_add (f64_of_nat a) (f64_div (f64_of_nat (b - a)) (Fin 2))"

text \<open>The fit over the accepted points; \<open>None\<close> where \<open>recompute\<close> returns without one.\<close>

definition centred :: "(sync_point \<Rightarrow> f64) \<Rightarrow> f64 \<Rightarrow> f64 \<Rightarrow> sync_point \<Rightarrow> f64" where
  "centred coordinate origin mean p = f64_sub (f64_sub (coordinate p) origin) mean"

definition mean_of :: "(sync_point \<Rightarrow> f64) \<Rightarrow> f64 \<Rightarrow> sync_point list \<Rightarrow> f64" where
  "mean_of coordinate origin ps =
     f64_div (f64_sum (map (\<lambda>p. f64_sub (coordinate p) origin) ps)) (f64_of_nat (length ps))"

definition residual_of :: "f64 \<Rightarrow> f64 \<Rightarrow> sync_point \<Rightarrow> f64" where
  "residual_of slope intercept p =
     f64_abs (f64_sub (f64_mul_add slope (spt_remote_midpoint_us p) intercept) (spt_local_midpoint_us p))"

definition slope_low :: f64 where "slope_low = f64_sub (Fin 1) MAX_SLOPE_ERROR"
definition slope_high :: f64 where "slope_high = f64_add (Fin 1) MAX_SLOPE_ERROR"

definition fit_points :: "sync_point list \<Rightarrow> (f64 \<times> f64 \<times> nat) option" where
  "fit_points accepted =
     (let first_remote = spt_remote_midpoint_us (accepted ! 0);
          first_local = spt_local_midpoint_us (accepted ! 0);
          remote_span = f64_sub (spt_remote_midpoint_us (last accepted)) first_remote
      in if f64_lt remote_span (f64_of_nat MIN_STABLE_SPAN_US) then None
      else
        let mean_x = mean_of spt_remote_midpoint_us first_remote accepted;
            mean_y = mean_of spt_local_midpoint_us first_local accepted;
            xs = map (centred spt_remote_midpoint_us first_remote mean_x) accepted;
            ys = map (centred spt_local_midpoint_us first_local mean_y) accepted;
            covariance = f64_sum (map2 f64_mul xs ys);
            variance = f64_sum (map2 f64_mul xs xs)
        in if f64_le variance F64_EPSILON then None
        else
          let slope = f64_clamp slope_low slope_high (f64_div covariance variance);
              intercept = f64_sub (f64_add first_local mean_y) (f64_mul slope (f64_add first_remote mean_x));
              residual_us = f64_to_nat (2 ^ 64 - 1)
                (f64_ceil (foldl f64_max (Fin 0) (map (residual_of slope intercept) accepted)))
          in Some (slope, intercept,
               sat_add64 (fold max (map spt_uncertainty_us accepted) 0) residual_us))"

definition accepted_points :: "sync_point list \<Rightarrow> sync_point list" where
  "accepted_points ps =
     (let min_uncertainty = Min (set (map spt_uncertainty_us ps))
      in filter (\<lambda>p. spt_uncertainty_us p \<le> sat_add64 min_uncertainty LOW_DELAY_BAND_US) ps)"

definition recompute :: "affine_clock_mapper \<Rightarrow> affine_clock_mapper" where
  "recompute m =
     (let unstable = m \<lparr> cm_stable := False \<rparr>
      in if cm_samples m = [] \<or> length (accepted_points (cm_samples m)) < MIN_STABLE_SAMPLES then unstable
      else (case fit_points (accepted_points (cm_samples m)) of
              None \<Rightarrow> unstable
            | Some (slope, intercept, uncertainty) \<Rightarrow>
                m \<lparr> cm_slope := slope, cm_intercept_us := intercept, cm_uncertainty_us := uncertainty,
                    cm_stable := True \<rparr>))"

definition sync_point_of :: "clock_sync_exchange \<Rightarrow> nat \<Rightarrow> sync_point" where
  "sync_point_of e round_trip_us =
     \<lparr> spt_remote_midpoint_us = midpoint (ex_remote_receive_us e) (ex_remote_send_us e),
       spt_local_midpoint_us = midpoint (ex_local_send_us e) (ex_local_receive_us e),
       spt_uncertainty_us = (round_trip_us + 1) div 2 \<rparr>"

definition mapper_observe ::
  "clock_sync_exchange \<Rightarrow> affine_clock_mapper \<Rightarrow> affine_clock_mapper \<times> (unit, clock_sync_error) result" where
  "mapper_observe e m =
     (if ex_generation e \<noteq> cm_generation m then (m, Err (StaleGeneration (ex_generation e) (cm_generation m)))
      else if ex_remote_send_us e < ex_remote_receive_us e \<or> ex_local_receive_us e < ex_local_send_us e
        then (m, Err NonMonotonicExchange)
      else
        let local_elapsed = ex_local_receive_us e - ex_local_send_us e;
            remote_processing = ex_remote_send_us e - ex_remote_receive_us e;
            round_trip_us = local_elapsed - remote_processing;
            kept = (if length (cm_samples m) = MAX_CLOCK_SYNC_SAMPLES then tl (cm_samples m) else cm_samples m)
        in if remote_processing > local_elapsed then (m, Err ImpossibleRoundTrip)
        else if round_trip_us > MAX_ACCEPTED_ROUND_TRIP_US then (m, Err ExcessiveRoundTrip)
        else (recompute (m \<lparr> cm_samples := kept @ [sync_point_of e round_trip_us] \<rparr>), Ok ()))"

definition estimate_local_time :: "nat \<Rightarrow> affine_clock_mapper \<Rightarrow> clock_mapping_estimate option" where
  "estimate_local_time remote_time_us m =
     (if \<not> cm_stable m then None
      else
        let mapped = f64_mul_add (cm_slope m) (f64_of_nat remote_time_us) (cm_intercept_us m)
        in if \<not> f64_is_finite mapped \<or> f64_lt mapped (Fin 0) \<or> f64_lt (f64_of_nat (2 ^ 64 - 1)) mapped then None
        else Some \<lparr> cme_local_time_us = f64_to_nat (2 ^ 64 - 1) (f64_round mapped),
                    cme_uncertainty_us = cm_uncertainty_us m \<rparr>)"

section \<open>The receiver's exchange\<close>

definition INITIAL_SYNC_INTERVAL :: nat where "INITIAL_SYNC_INTERVAL = 250 * 1000000"
definition STEADY_SYNC_INTERVAL :: nat where "STEADY_SYNC_INTERVAL = 1000000000"
definition MAX_PENDING_SYNC_SAMPLES :: nat where "MAX_PENDING_SYNC_SAMPLES = 4"

record pending_clock_sync =
  pc_sample_id :: nat
  pc_receiver_send_us :: nat
  pc_stream_epoch :: nat

record receiver_clock_sync =
  rc_mapper :: affine_clock_mapper
  rc_pending :: "pending_clock_sync list"
  rc_next_sample_id :: nat
  rc_next_sync_at :: "nat option"

definition clock_sync_default :: receiver_clock_sync where
  "clock_sync_default =
     \<lparr> rc_mapper = mapper_new 0, rc_pending = [], rc_next_sample_id = 1, rc_next_sync_at = None \<rparr>"

definition clock_reset :: "nat \<Rightarrow> nat \<Rightarrow> receiver_clock_sync \<Rightarrow> receiver_clock_sync" where
  "clock_reset now stream_epoch c =
     c \<lparr> rc_mapper := mapper_reset stream_epoch (rc_mapper c), rc_pending := [], rc_next_sample_id := 1,
         rc_next_sync_at := Some now \<rparr>"

definition clock_clear :: "receiver_clock_sync \<Rightarrow> receiver_clock_sync" where
  "clock_clear c =
     c \<lparr> rc_mapper := mapper_reset 0 (rc_mapper c), rc_pending := [], rc_next_sample_id := 1,
         rc_next_sync_at := None \<rparr>"

definition clock_due :: "nat \<Rightarrow> receiver_clock_sync \<Rightarrow> bool" where
  "clock_due now c \<longleftrightarrow> (case rc_next_sync_at c of None \<Rightarrow> False | Some deadline \<Rightarrow> deadline \<le> now)"

text \<open>\<open>create_ping\<close>; the two \<open>?\<close> return after the sample id has been taken.\<close>

definition create_ping ::
  "nat \<Rightarrow> nat \<Rightarrow> receiver_clock_sync \<Rightarrow> receiver_clock_sync \<times> clock_sync_ping option" where
  "create_ping now receiver_send_us c =
     (if \<not> clock_due now c \<or> cm_generation (rc_mapper c) = 0 then (c, None)
      else
        let sample_id = rc_next_sample_id c
        in if sample_id + 1 \<ge> 2 ^ 64 then (c, None)
        else
          let c1 = c \<lparr> rc_next_sample_id := sample_id + 1 \<rparr>;
              stream_epoch = cm_generation (rc_mapper c)
          in if stream_epoch \<ge> 2 ^ 32 then (c1, None)
          else
            let kept = (if length (rc_pending c1) \<ge> MAX_PENDING_SYNC_SAMPLES then tl (rc_pending c1) else rc_pending c1);
                interval = (if cm_stable (rc_mapper c1) then STEADY_SYNC_INTERVAL else INITIAL_SYNC_INTERVAL)
            in (c1 \<lparr> rc_pending := kept @ [\<lparr> pc_sample_id = sample_id, pc_receiver_send_us = receiver_send_us,
                        pc_stream_epoch = stream_epoch \<rparr>],
                      rc_next_sync_at := Some (now + interval) \<rparr>,
                Some \<lparr> cp_sample_id = sample_id, cp_receiver_send_us = receiver_send_us,
                       cp_stream_epoch = stream_epoch \<rparr>))"

definition answers :: "clock_sync_pong \<Rightarrow> pending_clock_sync \<Rightarrow> bool" where
  "answers pong p \<longleftrightarrow> pc_sample_id p = cq_sample_id pong \<and> pc_receiver_send_us p = cq_receiver_send_us pong \<and>
     pc_stream_epoch p = cq_stream_epoch pong"

fun take_pending :: "(pending_clock_sync \<Rightarrow> bool) \<Rightarrow> pending_clock_sync list \<Rightarrow>
    (pending_clock_sync \<times> pending_clock_sync list) option" where
  "take_pending P [] = None"
| "take_pending P (p # ps) =
     (if P p then Some (p, ps)
      else (case take_pending P ps of None \<Rightarrow> None | Some (q, rest) \<Rightarrow> Some (q, p # rest)))"

definition observe_pong :: "clock_sync_pong \<Rightarrow> nat \<Rightarrow> receiver_clock_sync \<Rightarrow> receiver_clock_sync" where
  "observe_pong pong receiver_receive_us c =
     (case take_pending (answers pong) (rc_pending c) of
        None \<Rightarrow> c
      | Some (pending, rest) \<Rightarrow>
          c \<lparr> rc_pending := rest,
              rc_mapper := fst (mapper_observe
                \<lparr> ex_generation = pc_stream_epoch pending, ex_local_send_us = pc_receiver_send_us pending,
                  ex_remote_receive_us = cq_sender_receive_us pong, ex_remote_send_us = cq_sender_send_us pong,
                  ex_local_receive_us = receiver_receive_us \<rparr> (rc_mapper c)) \<rparr>)"

section \<open>Latencies of a published frame\<close>

record frame_timeline =
  ft_encoded_at_us :: nat
  ft_received_at_us :: nat
  ft_decode_submitted_at_us :: nat
  ft_decoded_at :: nat

record frame_latency_breakdown =
  fb_capture_to_encode_ms :: "f64 option"
  fb_encode_to_arrival_ms :: "f64 option"
  fb_jitter_residence_ms :: "f64 option"
  fb_decode_ms :: "f64 option"
  fb_frame_publish_age_ms :: "f64 option"
  fb_end_to_end_latency_ms :: "f64 option"
  fb_clock_uncertainty_ms :: "f64 option"

definition mapped_sender_time :: "nat \<Rightarrow> nat \<Rightarrow> receiver_clock_sync \<Rightarrow> clock_mapping_estimate option" where
  "mapped_sender_time stream_epoch sender_time_us c =
     (if cm_generation (rc_mapper c) = stream_epoch then estimate_local_time sender_time_us (rc_mapper c) else None)"

definition microseconds_to_milliseconds :: "nat \<Rightarrow> f64" where
  "microseconds_to_milliseconds value = f64_div (f64_of_nat value) (f64_lit 1000)"

definition checked_ms :: "nat \<Rightarrow> nat \<Rightarrow> f64 option" where
  "checked_ms a b = (if b \<le> a then Some (microseconds_to_milliseconds (a - b)) else None)"

definition timeline_latency_breakdown ::
  "receiver_clock_sync \<Rightarrow> nat \<Rightarrow> frame_timeline \<Rightarrow> nat \<Rightarrow> nat \<Rightarrow> nat \<Rightarrow> frame_latency_breakdown" where
  "timeline_latency_breakdown c timing_origin ft source_pts_us stream_generation receiver_now_us =
     (let decoded_at_us = (ft_decoded_at ft - timing_origin) div 1000;
          mapped_capture = mapped_sender_time stream_generation source_pts_us c;
          mapped_encoded = mapped_sender_time stream_generation (ft_encoded_at_us ft) c
      in \<lparr> fb_capture_to_encode_ms = checked_ms (ft_encoded_at_us ft) source_pts_us,
           fb_encode_to_arrival_ms = Option.bind mapped_encoded (\<lambda>m. checked_ms (ft_received_at_us ft) (cme_local_time_us m)),
           fb_jitter_residence_ms = checked_ms (ft_decode_submitted_at_us ft) (ft_received_at_us ft),
           fb_decode_ms = checked_ms decoded_at_us (ft_decode_submitted_at_us ft),
           fb_frame_publish_age_ms = checked_ms receiver_now_us decoded_at_us,
           fb_end_to_end_latency_ms = Option.bind mapped_capture (\<lambda>m. checked_ms receiver_now_us (cme_local_time_us m)),
           fb_clock_uncertainty_ms = map_option (\<lambda>m. microseconds_to_milliseconds (cme_uncertainty_us m)) mapped_capture \<rparr>)"

section \<open>Rounding is monotone\<close>

lemma rne_mono:
  assumes "x \<le> y"
  shows "rne x \<le> rne y"
proof (cases "\<lfloor>x\<rfloor> = \<lfloor>y\<rfloor>")
  case True
  with assms show ?thesis unfolding rne_def Let_def by auto
next
  case False
  with assms floor_mono [OF assms] have f: "\<lfloor>x\<rfloor> + 1 \<le> \<lfloor>y\<rfloor>" by simp
  have "rne x \<le> \<lfloor>x\<rfloor> + 1" "\<lfloor>y\<rfloor> \<le> rne y" unfolding rne_def Let_def by auto
  with f show ?thesis by linarith
qed

lemma pow2_add: "pow2 (k + int n) = pow2 k * 2 ^ n"
proof (induction n)
  case (Suc n)
  have "pow2 (k + int (Suc n)) = 2 * pow2 (k + int n)"
    using pow2_Suc [of "k + int n"] by (simp add: add.commute add.left_commute)
  with Suc show ?case by simp
qed simp

lemma pow2_mono: "k \<le> l \<Longrightarrow> pow2 k \<le> pow2 l"
proof -
  assume "k \<le> l"
  then have "l = k + int (nat (l - k))" by simp
  then have "pow2 l = pow2 k * 2 ^ nat (l - k)" by (metis pow2_add)
  moreover have "(1 :: rat) \<le> 2 ^ nat (l - k)" by simp
  ultimately show ?thesis using pow2_pos [of k] by simp
qed

lemma fl_binade:
  assumes "0 < x"
  shows "pow2 (f64_exponent x) \<le> fl x" "fl x \<le> pow2 (f64_exponent x + 1)"
proof -
  define u where "u = pow2 (f64_exponent x - 52)"
  have u: "0 < u" by (simp add: u_def pow2_pos)
  have e: "pow2 (f64_exponent x) = u * 2 ^ 52"
    using pow2_add [of "f64_exponent x - 52" 52] by (simp add: u_def)
  have x: "2 ^ 52 \<le> x / u" "x / u \<le> 2 ^ 53"
    using f64_exponent_bounds [of x] assms u by (simp_all add: e pos_le_divide_eq pos_divide_le_eq mult.commute)
  have "rne (of_int (2 ^ 52)) \<le> rne (x / u)" "rne (x / u) \<le> rne (of_int (2 ^ 53))"
    using x by (intro rne_mono; simp)+
  then have "(of_int (2 ^ 52) :: rat) \<le> of_int (rne (x / u))" "(of_int (rne (x / u)) :: rat) \<le> of_int (2 ^ 53)"
    by (simp_all only: of_int_le_iff rne_of_int)
  then have r: "(2 ^ 52 :: rat) * u \<le> of_int (rne (x / u)) * u" "of_int (rne (x / u)) * u \<le> (2 ^ 53 :: rat) * u"
    using u by (simp_all add: mult_right_mono)
  have f: "fl x = of_int (rne (x / u)) * u" using assms by (simp add: fl_def u_def Let_def)
  show "pow2 (f64_exponent x) \<le> fl x" using r(1) by (simp add: f e mult.commute)
  show "fl x \<le> pow2 (f64_exponent x + 1)" using r(2) by (simp add: f pow2_Suc e mult.commute)
qed

lemma fl_mono_pos:
  assumes "0 < x" "x \<le> y"
  shows "fl x \<le> fl y"
proof -
  have y: "0 < y" using assms by simp
  have "f64_exponent x \<le> f64_exponent y"
  proof (rule ccontr)
    assume "\<not> f64_exponent x \<le> f64_exponent y"
    then have "pow2 (f64_exponent y + 1) \<le> pow2 (f64_exponent x)" by (intro pow2_mono) simp
    also have "\<dots> \<le> x" using f64_exponent_bounds(1) [of x] assms by simp
    finally show False using f64_exponent_bounds(2) [of y] assms y by (simp add: pow2_Suc)
  qed
  then consider "f64_exponent x = f64_exponent y" | "f64_exponent x + 1 \<le> f64_exponent y" by linarith
  then show ?thesis
  proof cases
    case 1
    define u where "u = pow2 (f64_exponent y - 52)"
    have u: "0 < u" by (simp add: u_def pow2_pos)
    have "rne (x / u) \<le> rne (y / u)" using assms u by (intro rne_mono) (simp add: divide_right_mono)
    then have "of_int (rne (x / u)) * u \<le> of_int (rne (y / u)) * u" using u by simp
    then show ?thesis using assms y 1 by (simp add: fl_def u_def Let_def)
  next
    case 2
    have "fl x \<le> pow2 (f64_exponent x + 1)" using assms by (intro fl_binade)
    also have "\<dots> \<le> pow2 (f64_exponent y)" by (rule pow2_mono [OF 2])
    also have "\<dots> \<le> fl y" by (rule fl_binade(1) [OF y])
    finally show ?thesis .
  qed
qed

lemma fl_neg: "x < 0 \<Longrightarrow> fl x < 0"
  using fl_error [of x] by (simp add: abs_le_iff)

lemma fl_mono_nonneg:
  assumes "x \<le> y" "0 \<le> fl x"
  shows "fl x \<le> fl y"
proof (cases "x = 0")
  case True
  with assms show ?thesis by (simp add: fl_nonneg)
next
  case False
  with assms fl_neg [of x] have "0 < x" by linarith
  with assms show ?thesis by (simp add: fl_mono_pos)
qed

lemma rne_uminus: "rne (- x) = - rne x"
proof (cases "x = of_int \<lfloor>x\<rfloor>")
  case True
  then have "- x = of_int (- \<lfloor>x\<rfloor>)" "rne x = \<lfloor>x\<rfloor>" by (metis of_int_minus, metis rne_of_int)
  then show ?thesis by (simp only: rne_of_int)
next
  case False
  have f: "\<lfloor>- x\<rfloor> = - \<lfloor>x\<rfloor> - 1"
    using False by (intro floor_unique) (simp_all, linarith+)
  show ?thesis unfolding rne_def Let_def f by auto
qed

lemma fl_uminus: "fl (- x) = - fl x"
proof -
  have "f64_exponent (- x) = f64_exponent x"
    by (simp add: f64_exponent_def rat_uminus_code Let_def split: prod.splits)
  then show ?thesis by (simp add: fl_def Let_def rne_uminus)
qed

lemma fl_numeral [simp]: "numeral n < (2 ^ 53 :: nat) \<Longrightarrow> fl (numeral n) = numeral n"
  using fl_of_nat [of "numeral n"] by simp

lemma fl_one [simp]: "fl 1 = 1"
  using fl_of_nat [of 1] by simp

section \<open>Finite arithmetic stays finite\<close>

named_theorems finite_intros \<open>closure of finite values\<close>

lemma finite_iff: "f64_is_finite a \<longleftrightarrow> (\<exists>x. a = Fin x)"
  by (cases a) simp_all

lemma finite_ops [finite_intros]:
  "f64_is_finite a \<Longrightarrow> f64_is_finite b \<Longrightarrow> f64_is_finite (f64_add a b)"
  "f64_is_finite a \<Longrightarrow> f64_is_finite b \<Longrightarrow> f64_is_finite (f64_sub a b)"
  "f64_is_finite a \<Longrightarrow> f64_is_finite b \<Longrightarrow> f64_is_finite (f64_mul a b)"
  "f64_is_finite a \<Longrightarrow> f64_is_finite (f64_abs a)"
  "f64_is_finite (f64_of_nat n)"
  by (auto simp: finite_iff f64_sub_def f64_of_nat_def)

lemma finite_div [finite_intros]:
  "f64_is_finite a \<Longrightarrow> b = Fin y \<Longrightarrow> y \<noteq> 0 \<Longrightarrow> f64_is_finite (f64_div a b)"
  by (auto simp: finite_iff)

lemma finite_sum: "\<forall>x \<in> set xs. f64_is_finite x \<Longrightarrow> f64_is_finite (f64_sum xs)"
proof -
  have "f64_is_finite s \<Longrightarrow> \<forall>x \<in> set xs. f64_is_finite x \<Longrightarrow> f64_is_finite (foldl f64_add s xs)" for s
    by (induction xs arbitrary: s) (simp_all add: finite_ops)
  then show "\<forall>x \<in> set xs. f64_is_finite x \<Longrightarrow> f64_is_finite (f64_sum xs)"
    by (simp add: f64_sum_def)
qed

lemma finite_midpoint: "f64_is_finite (midpoint a b)"
  by (simp add: midpoint_def finite_ops f64_of_nat_def)

definition slope_range :: "f64 \<Rightarrow> bool" where
  "slope_range s \<longleftrightarrow> f64_le (Fin (998 / 1000)) s \<and> f64_le s (Fin (1002 / 1000))"

lemma slope_limits:
  "\<exists>l h. slope_low = Fin l \<and> slope_high = Fin h \<and> 998 / 1000 \<le> l \<and> l \<le> 1 \<and> 1 \<le> h \<and> h \<le> 1002 / 1000"
proof -
  let ?e = "fl (1 / 1000)"
  have e: "0 \<le> ?e" "?e \<le> 1001 / 1000000" using fl_bounds [of "1 / 1000"] by (simp_all add: fl_nonneg)
  then have l: "0 \<le> 1 - ?e" and h: "0 \<le> 1 + ?e" by simp_all
  have "(1 - ?e) * (1 - 1 / 2 ^ 53) \<ge> (1 - 1001 / 1000000) * (1 - 1 / 2 ^ 53)"
    using e by (intro mult_right_mono) simp_all
  then have l1: "998 / 1000 \<le> fl (1 - ?e)" using fl_bounds(1) [OF l] by simp
  have "(1 + ?e) * (1 + 1 / 2 ^ 53) \<le> (1 + 1001 / 1000000) * (1 + 1 / 2 ^ 53)"
    using e by (intro mult_right_mono) simp_all
  then have h1: "fl (1 + ?e) \<le> 1002 / 1000" using fl_bounds(2) [OF h] by simp
  have "fl (1 - ?e) \<le> fl 1" "fl 1 \<le> fl (1 + ?e)" using e by (intro fl_mono_nonneg; simp add: fl_nonneg)+
  with l1 h1 show ?thesis
    by (simp add: slope_low_def slope_high_def MAX_SLOPE_ERROR_def f64_lit_def f64_sub_def)
qed

lemma slope_clamped:
  assumes "f64_is_finite x"
  shows "slope_range (f64_clamp slope_low slope_high x) \<and> f64_is_finite (f64_clamp slope_low slope_high x)"
proof -
  obtain l h where lh: "slope_low = Fin l" "slope_high = Fin h" "998 / 1000 \<le> l" "l \<le> 1" "1 \<le> h" "h \<le> 1002 / 1000"
    using slope_limits by blast
  then have le: "l \<le> h" by simp
  obtain y where y: "x = Fin y" using assms by (auto simp: finite_iff)
  show ?thesis
    using lh(3-6) by (auto simp: y lh(1,2) f64_clamp_bounds [OF le] slope_range_def f64_le_def)
qed

definition point_ok :: "sync_point \<Rightarrow> bool" where
  "point_ok p \<longleftrightarrow> f64_is_finite (spt_remote_midpoint_us p) \<and> f64_is_finite (spt_local_midpoint_us p) \<and>
     spt_uncertainty_us p \<le> MAX_ACCEPTED_ROUND_TRIP_US div 2"

lemma fit_points_sound:
  assumes "fit_points ps = Some (slope, intercept, u)" "\<forall>p \<in> set ps. point_ok p" "0 < length ps" "length ps < 2 ^ 53"
  shows "slope_range slope \<and> f64_is_finite slope \<and> f64_is_finite intercept"
proof -
  let ?fr = "spt_remote_midpoint_us (ps ! 0)" and ?fl = "spt_local_midpoint_us (ps ! 0)"
  let ?mx = "mean_of spt_remote_midpoint_us ?fr ps" and ?my = "mean_of spt_local_midpoint_us ?fl ps"
  let ?xs = "map (centred spt_remote_midpoint_us ?fr ?mx) ps"
  let ?ys = "map (centred spt_local_midpoint_us ?fl ?my) ps"
  let ?cov = "f64_sum (map2 f64_mul ?xs ?ys)" and ?var = "f64_sum (map2 f64_mul ?xs ?xs)"
  have len: "f64_of_nat (length ps) = Fin (of_nat (length ps))" using assms(4) by (rule f64_of_nat_exact)
  have first: "f64_is_finite ?fr" "f64_is_finite ?fl"
    using assms(2,3) by (simp_all add: point_ok_def)
  have mean: "f64_is_finite (mean_of c o' ps)" if "\<forall>p \<in> set ps. f64_is_finite (c p)" "f64_is_finite o'" for c o'
    unfolding mean_of_def using that assms(3) by (intro finite_intros finite_sum) (auto simp: len finite_ops)
  have m: "f64_is_finite ?mx" "f64_is_finite ?my" using assms(2) first by (auto intro!: mean simp: point_ok_def)
  have xs: "\<forall>x \<in> set ?xs. f64_is_finite x" "\<forall>y \<in> set ?ys. f64_is_finite y"
    using assms(2) first m by (auto simp: centred_def point_ok_def intro!: finite_ops)
  have prod: "\<forall>x \<in> set (map2 f64_mul as bs). f64_is_finite x"
    if "\<forall>x \<in> set as. f64_is_finite x" "\<forall>x \<in> set bs. f64_is_finite x" for as bs
    using that by (auto dest: set_zip_leftD set_zip_rightD intro!: finite_ops)
  have cov: "f64_is_finite ?cov" by (rule finite_sum [OF prod [OF xs]])
  have var: "f64_is_finite ?var" by (rule finite_sum [OF prod [OF xs(1) xs(1)]])
  then obtain v where v: "?var = Fin v" by (auto simp: finite_iff)
  have fit: "\<not> f64_le ?var F64_EPSILON" "slope = f64_clamp slope_low slope_high (f64_div ?cov ?var)"
      "intercept = f64_sub (f64_add ?fl ?my) (f64_mul slope (f64_add ?fr ?mx))"
    using assms(1) unfolding fit_points_def Let_def by (auto split: if_splits)
  have "v \<noteq> 0"
  proof
    assume "v = 0"
    then have "f64_le ?var F64_EPSILON" unfolding v by (simp add: f64_le_def F64_EPSILON_def)
    with fit(1) show False by simp
  qed
  with cov v have "f64_is_finite (f64_div ?cov ?var)" by (intro finite_div)
  from slope_clamped [OF this] have s: "slope_range slope" "f64_is_finite slope" by (simp_all add: fit(2))
  with first m show ?thesis by (auto simp: fit(3) intro!: finite_ops)
qed

section \<open>Reachable clocks\<close>

datatype clock_op =
    ClockReset nat nat
  | ClockClear
  | ClockPing nat nat
  | ClockPong clock_sync_pong nat

fun clock_step :: "clock_op \<Rightarrow> receiver_clock_sync \<Rightarrow> receiver_clock_sync" where
  "clock_step (ClockReset now epoch) c = clock_reset now epoch c"
| "clock_step ClockClear c = clock_clear c"
| "clock_step (ClockPing now send_us) c = fst (create_ping now send_us c)"
| "clock_step (ClockPong pong receive_us) c = observe_pong pong receive_us c"

definition mapper_ok :: "affine_clock_mapper \<Rightarrow> bool" where
  "mapper_ok m \<longleftrightarrow> length (cm_samples m) \<le> MAX_CLOCK_SYNC_SAMPLES \<and> (\<forall>p \<in> set (cm_samples m). point_ok p) \<and>
     (cm_stable m \<longrightarrow> slope_range (cm_slope m) \<and> f64_is_finite (cm_slope m) \<and> f64_is_finite (cm_intercept_us m) \<and>
        MIN_STABLE_SAMPLES \<le> length (cm_samples m))"

definition clock_ok :: "receiver_clock_sync \<Rightarrow> bool" where
  "clock_ok c \<longleftrightarrow> mapper_ok (rc_mapper c) \<and> length (rc_pending c) \<le> MAX_PENDING_SYNC_SAMPLES \<and>
     distinct (map pc_sample_id (rc_pending c)) \<and>
     (\<forall>p \<in> set (rc_pending c). pc_sample_id p < rc_next_sample_id c \<and>
        pc_stream_epoch p = cm_generation (rc_mapper c))"

named_theorems clock_intros \<open>operations of the receiver's clock that keep its invariant\<close>

lemma in_set_tl: "x \<in> set (tl xs) \<Longrightarrow> x \<in> set xs"
  by (cases xs) auto

lemma mapper_ok_reset [clock_intros]: "mapper_ok (mapper_reset g m)"
  by (simp add: mapper_ok_def mapper_reset_def)

lemma mapper_ok_recompute:
  assumes "length (cm_samples m) \<le> MAX_CLOCK_SYNC_SAMPLES" "\<forall>p \<in> set (cm_samples m). point_ok p"
  shows "mapper_ok (recompute m)"
proof -
  let ?ps = "accepted_points (cm_samples m)"
  have sub: "set ?ps \<subseteq> set (cm_samples m)" and len: "length ?ps \<le> length (cm_samples m)"
    by (auto simp: accepted_points_def Let_def)
  have "mapper_ok (m \<lparr> cm_slope := slope, cm_intercept_us := intercept, cm_uncertainty_us := u, cm_stable := True \<rparr>)"
    if fit: "fit_points ?ps = Some (slope, intercept, u)" and many: "\<not> length ?ps < MIN_STABLE_SAMPLES" for slope intercept u
  proof -
    have "0 < length ?ps" "length ?ps < 2 ^ 53" "\<forall>p \<in> set ?ps. point_ok p"
      using many len assms sub by (auto simp: MIN_STABLE_SAMPLES_def MAX_CLOCK_SYNC_SAMPLES_def)
    with fit_points_sound [OF fit] have "slope_range slope \<and> f64_is_finite slope \<and> f64_is_finite intercept" by blast
    with assms many len show ?thesis by (simp add: mapper_ok_def)
  qed
  then show ?thesis
    using assms by (auto simp: recompute_def Let_def mapper_ok_def split: option.splits)
qed

lemma cm_generation_recompute [simp]: "cm_generation (recompute m) = cm_generation m"
  by (simp add: recompute_def Let_def split: option.splits)

lemma mapper_observe_ok [clock_intros]: "mapper_ok m \<Longrightarrow> mapper_ok (fst (mapper_observe e m))"
proof -
  assume ok: "mapper_ok m"
  let ?kept = "if length (cm_samples m) = MAX_CLOCK_SYNC_SAMPLES then tl (cm_samples m) else cm_samples m"
  have "mapper_ok (recompute (m \<lparr> cm_samples := ?kept @ [sync_point_of e rt] \<rparr>))"
    if "rt \<le> MAX_ACCEPTED_ROUND_TRIP_US" for rt
  proof (rule mapper_ok_recompute)
    show "length (cm_samples (m \<lparr> cm_samples := ?kept @ [sync_point_of e rt] \<rparr>)) \<le> MAX_CLOCK_SYNC_SAMPLES"
      using ok by (auto simp: mapper_ok_def MAX_CLOCK_SYNC_SAMPLES_def)
    have "set ?kept \<subseteq> set (cm_samples m)" by (auto dest: in_set_tl)
    then show "\<forall>p \<in> set (cm_samples (m \<lparr> cm_samples := ?kept @ [sync_point_of e rt] \<rparr>)). point_ok p"
      using ok that by (auto simp: mapper_ok_def point_ok_def sync_point_of_def finite_midpoint MAX_ACCEPTED_ROUND_TRIP_US_def)
  qed
  with ok show ?thesis by (auto simp: mapper_observe_def Let_def)
qed

lemma cm_generation_observe [simp]: "cm_generation (fst (mapper_observe e m)) = cm_generation m"
  by (simp add: mapper_observe_def Let_def)

lemma take_pending_Some:
  "take_pending P ps = Some (q, rest) \<Longrightarrow> \<exists>pre post. ps = pre @ q # post \<and> rest = pre @ post \<and> P q \<and> (\<forall>p \<in> set pre. \<not> P p)"
proof (induction ps arbitrary: rest)
  case (Cons p ps)
  show ?case
  proof (cases "P p")
    case True
    with Cons.prems show ?thesis by force
  next
    case False
    with Cons.prems obtain r where r: "take_pending P ps = Some (q, r)" "rest = p # r" by (auto split: option.splits)
    from Cons.IH [OF r(1)] obtain pre post where "ps = pre @ q # post" "r = pre @ post" "P q" "\<forall>p \<in> set pre. \<not> P p"
      by blast
    with r(2) False show ?thesis by (intro exI [of _ "p # pre"] exI [of _ post]) simp
  qed
qed simp

lemma take_pending_None: "take_pending P ps = None \<longleftrightarrow> (\<forall>p \<in> set ps. \<not> P p)"
  by (induction ps) (auto split: option.splits)

lemma clock_step_ok: "clock_ok c \<Longrightarrow> clock_ok (clock_step op c)"
proof (cases op)
  case (ClockPing now send_us)
  assume ok: "clock_ok c"
  let ?kept = "if length (rc_pending c) \<ge> MAX_PENDING_SYNC_SAMPLES then tl (rc_pending c) else rc_pending c"
  have sub: "set ?kept \<subseteq> set (rc_pending c)" by (auto dest: in_set_tl)
  have "distinct (map pc_sample_id ?kept)" "length ?kept < MAX_PENDING_SYNC_SAMPLES"
    using ok by (auto simp: clock_ok_def map_tl distinct_tl MAX_PENDING_SYNC_SAMPLES_def)
  moreover have "\<forall>p \<in> set ?kept. pc_sample_id p < rc_next_sample_id c \<and> pc_stream_epoch p = cm_generation (rc_mapper c)"
    using ok sub by (auto simp: clock_ok_def)
  moreover have "mapper_ok (rc_mapper c)" using ok by (simp add: clock_ok_def)
  ultimately show ?thesis
    using ok by (auto simp: ClockPing create_ping_def Let_def clock_ok_def less_Suc_eq)
next
  case (ClockPong pong receive_us)
  assume ok: "clock_ok c"
  show ?thesis
  proof (cases "take_pending (answers pong) (rc_pending c)")
    case None
    with ok show ?thesis by (simp add: ClockPong observe_pong_def)
  next
    fix qr assume "take_pending (answers pong) (rc_pending c) = Some qr"
    then obtain q rest where q: "take_pending (answers pong) (rc_pending c) = Some (q, rest)" by (cases qr) simp
    from take_pending_Some [OF q] obtain pre post where "rc_pending c = pre @ q # post" "rest = pre @ post" by blast
    with ok q show ?thesis
      by (auto simp: ClockPong observe_pong_def clock_ok_def intro: clock_intros)
  qed
qed (auto simp: clock_ok_def clock_reset_def clock_clear_def intro: clock_intros)

lemma clock_run_ok: "clock_ok (fold clock_step ops clock_sync_default)"
proof -
  have "clock_ok c \<Longrightarrow> clock_ok (fold clock_step ops c)" for c
    by (induction ops arbitrary: c) (simp_all add: clock_step_ok)
  moreover have "clock_ok clock_sync_default"
    by (simp add: clock_ok_def clock_sync_default_def mapper_new_def mapper_ok_def)
  ultimately show ?thesis .
qed

section \<open>Properties\<close>

lemma f64_round_mono:
  assumes "0 \<le> x" "x \<le> y"
  shows "f64_to_nat k (f64_round (Fin x)) \<le> f64_to_nat k (f64_round (Fin y))"
proof -
  have "\<lfloor>x + 1 / 2\<rfloor> \<le> \<lfloor>y + 1 / 2\<rfloor>" using assms(2) by (intro floor_mono) simp
  then show ?thesis using assms by (auto intro: min.mono nat_mono)
qed

lemma fl_nat_mono: "a \<le> b \<Longrightarrow> fl (of_nat a) \<le> fl (of_nat b)"
  by (intro fl_mono_nonneg) (simp_all add: fl_nonneg)

text \<open>C39: The clock mapping keeps the order of the sender's times. After any sequence of resets, pings
  and answers, whatever the answers claim, two times of the sender that the receiver can place are
  placed in their order and with the same uncertainty; the fit behind them has between 3 and 12
  samples and a slope within two per mille of one.\<close>

theorem clock_mapping_monotone:
  assumes "c = fold clock_step ops clock_sync_default"
    and "mapped_sender_time epoch t c = Some a" "mapped_sender_time epoch t' c = Some b" "t \<le> t'"
  shows "cme_local_time_us a \<le> cme_local_time_us b \<and> cme_uncertainty_us a = cme_uncertainty_us b \<and>
    slope_range (cm_slope (rc_mapper c)) \<and> length (cm_samples (rc_mapper c)) \<in> {3..12}"
proof -
  define m where "m = rc_mapper c"
  have ab: "estimate_local_time t m = Some a" "estimate_local_time t' m = Some b"
    using assms(2,3) by (auto simp: mapped_sender_time_def m_def split: if_splits)
  then have "cm_stable m" by (auto simp: estimate_local_time_def split: if_splits)
  moreover have "mapper_ok m" using clock_run_ok [of ops] by (simp add: clock_ok_def m_def assms(1))
  ultimately have m: "slope_range (cm_slope m)" "f64_is_finite (cm_slope m)" "f64_is_finite (cm_intercept_us m)"
      "length (cm_samples m) \<in> {3..12}"
    by (auto simp: mapper_ok_def MIN_STABLE_SAMPLES_def MAX_CLOCK_SYNC_SAMPLES_def)
  obtain s i where si: "cm_slope m = Fin s" "cm_intercept_us m = Fin i" using m(2,3) by (auto simp: finite_iff)
  have s: "0 \<le> s" using m(1) by (auto simp: si slope_range_def f64_le_def)
  let ?x = "s * fl (of_nat t) + i" and ?y = "s * fl (of_nat t') + i"
  have xy: "?x \<le> ?y" using s fl_nat_mono [OF assms(4)] by (simp add: mult_left_mono)
  have a: "0 \<le> fl ?x" "a = \<lparr> cme_local_time_us = f64_to_nat (2 ^ 64 - 1) (f64_round (Fin (fl ?x))),
      cme_uncertainty_us = cm_uncertainty_us m \<rparr>"
    using ab(1) by (auto simp: estimate_local_time_def si f64_of_nat_def Let_def not_less split: if_splits)
  have b: "b = \<lparr> cme_local_time_us = f64_to_nat (2 ^ 64 - 1) (f64_round (Fin (fl ?y))),
      cme_uncertainty_us = cm_uncertainty_us m \<rparr>"
    using ab(2) by (auto simp: estimate_local_time_def si f64_of_nat_def Let_def split: if_splits)
  from f64_round_mono [OF a(1) fl_mono_nonneg [OF xy a(1)]] m(1,4) show ?thesis
    by (simp add: a(2) b m_def)
qed

text \<open>An answer counts once, and only for a ping in flight. In every reachable clock at most four
  pings are in flight, all of the current stream epoch; an answer that changes anything echoes one of
  them exactly, and the same answer again changes nothing, so replayed or invented answers cannot move
  the mapping.\<close>

lemma clock_answer_counts_once:
  assumes "c = fold clock_step ops clock_sync_default" "observe_pong pong t c \<noteq> c"
  shows "observe_pong pong t' (observe_pong pong t c) = observe_pong pong t c \<and>
    (\<exists>p \<in> set (rc_pending c). answers pong p \<and> pc_stream_epoch p = cm_generation (rc_mapper c)) \<and>
    length (rc_pending (observe_pong pong t c)) < length (rc_pending c) \<and> length (rc_pending c) \<le> 4"
proof -
  have ok: "clock_ok c" using clock_run_ok assms(1) by simp
  obtain q rest where q: "take_pending (answers pong) (rc_pending c) = Some (q, rest)"
    using assms(2) by (cases "take_pending (answers pong) (rc_pending c)") (auto simp: observe_pong_def)
  from take_pending_Some [OF q] obtain pre post
    where split: "rc_pending c = pre @ q # post" "rest = pre @ post" "answers pong q" by blast
  have "\<not> answers pong p" if "p \<in> set rest" for p
  proof
    assume "answers pong p"
    then have "pc_sample_id p = pc_sample_id q" using split(3) by (simp add: answers_def)
    moreover have "pc_sample_id q \<notin> pc_sample_id ` set rest" using ok split(1,2) by (auto simp: clock_ok_def)
    ultimately show False using that by (metis imageI)
  qed
  then have "take_pending (answers pong) rest = None" by (simp add: take_pending_None)
  moreover have pending: "rc_pending (observe_pong pong t c) = rest" by (simp add: observe_pong_def q)
  ultimately have "observe_pong pong t' (observe_pong pong t c) = observe_pong pong t c"
    by (subst observe_pong_def) simp
  moreover have "q \<in> set (rc_pending c)" "pc_stream_epoch q = cm_generation (rc_mapper c)"
    using ok split(1) by (auto simp: clock_ok_def)
  ultimately show ?thesis using ok split pending by (auto simp: clock_ok_def MAX_PENDING_SYNC_SAMPLES_def)
qed

definition one_ping :: "clock_op list" where
  "one_ping = [ClockReset 0 7, ClockPing 0 1000000]"

definition sample_pong :: clock_sync_pong where
  "sample_pong = \<lparr> cq_sample_id = 1, cq_receiver_send_us = 1000000, cq_sender_receive_us = 901000,
     cq_sender_send_us = 901000, cq_stream_epoch = 7 \<rparr>"

lemma after_one_ping:
  "fold clock_step one_ping clock_sync_default =
     \<lparr> rc_mapper = mapper_new 7, rc_pending = [\<lparr> pc_sample_id = 1, pc_receiver_send_us = 1000000, pc_stream_epoch = 7 \<rparr>],
       rc_next_sample_id = 2, rc_next_sync_at = Some INITIAL_SYNC_INTERVAL \<rparr>"
  by (simp add: one_ping_def clock_sync_default_def clock_reset_def create_ping_def clock_due_def mapper_reset_def
      mapper_new_def MAX_PENDING_SYNC_SAMPLES_def)

text \<open>
  A stable mapping: three answers over six tenths of a second from a sender a tenth of a second
  behind.
\<close>

definition sample_points :: "sync_point list" where
  "sample_points =
     [\<lparr> spt_remote_midpoint_us = Fin 901000, spt_local_midpoint_us = Fin 1001000, spt_uncertainty_us = 1000 \<rparr>,
      \<lparr> spt_remote_midpoint_us = Fin 1201000, spt_local_midpoint_us = Fin 1301000, spt_uncertainty_us = 1000 \<rparr>,
      \<lparr> spt_remote_midpoint_us = Fin 1501000, spt_local_midpoint_us = Fin 1601000, spt_uncertainty_us = 1000 \<rparr>]"

definition sample_clock_ops :: "clock_op list" where
  "sample_clock_ops =
     [ClockReset 0 7,
      ClockPing 0 1000000,
      ClockPong \<lparr> cq_sample_id = 1, cq_receiver_send_us = 1000000, cq_sender_receive_us = 901000,
        cq_sender_send_us = 901000, cq_stream_epoch = 7 \<rparr> 1002000,
      ClockPing 300000000 1300000,
      ClockPong \<lparr> cq_sample_id = 2, cq_receiver_send_us = 1300000, cq_sender_receive_us = 1201000,
        cq_sender_send_us = 1201000, cq_stream_epoch = 7 \<rparr> 1302000,
      ClockPing 600000000 1600000,
      ClockPong \<lparr> cq_sample_id = 3, cq_receiver_send_us = 1600000, cq_sender_receive_us = 1501000,
        cq_sender_send_us = 1501000, cq_stream_epoch = 7 \<rparr> 1602000]"

lemma f64_of_nat_numeral: "numeral n < (2 ^ 53 :: nat) \<Longrightarrow> f64_of_nat (numeral n) = Fin (numeral n)"
  using f64_of_nat_exact [of "numeral n"] by simp

lemma f64_of_nat_three: "f64_of_nat (Suc (Suc (Suc 0))) = Fin 3"
proof -
  have "f64_of_nat 3 = Fin 3" by (simp add: f64_of_nat_numeral)
  then show ?thesis by (simp only: numeral_3_eq_3)
qed

lemma sample_means:
  "mean_of spt_remote_midpoint_us (Fin 901000) sample_points = Fin 300000"
  "mean_of spt_local_midpoint_us (Fin 1001000) sample_points = Fin 300000"
  by (simp_all add: mean_of_def sample_points_def f64_sum_def f64_sub_def f64_of_nat_three)

lemma sample_centred:
  "map (centred spt_remote_midpoint_us (Fin 901000) (Fin 300000)) sample_points = [Fin (- 300000), Fin 0, Fin 300000]"
  "map (centred spt_local_midpoint_us (Fin 1001000) (Fin 300000)) sample_points = [Fin (- 300000), Fin 0, Fin 300000]"
  by (simp_all add: sample_points_def centred_def f64_sub_def fl_uminus)

lemma sample_sum: "f64_sum (map2 f64_mul [Fin (- 300000), Fin 0, Fin 300000] [Fin (- 300000), Fin 0, Fin 300000]) =
    Fin 180000000000"
  by (simp add: f64_sum_def)

lemma sample_residuals: "map (residual_of (Fin 1) (Fin 100000)) sample_points = [Fin 0, Fin 0, Fin 0]"
  by (simp add: sample_points_def residual_of_def f64_sub_def)

lemma sample_ends:
  "spt_remote_midpoint_us (sample_points ! 0) = Fin 901000" "spt_local_midpoint_us (sample_points ! 0) = Fin 1001000"
  "spt_remote_midpoint_us (last sample_points) = Fin 1501000"
  "fold max (map spt_uncertainty_us sample_points) 0 = 1000"
  by (simp_all add: sample_points_def)

lemma sample_fit: "fit_points sample_points = Some (Fin 1, Fin 100000, 1000)"
proof -
  obtain l h where lh: "slope_low = Fin l" "slope_high = Fin h" "l \<le> 1" "1 \<le> h"
    using slope_limits by blast
  have slope: "f64_clamp slope_low slope_high (f64_div (Fin 180000000000) (Fin 180000000000)) = Fin 1"
    using lh(3,4) by (simp add: lh(1,2) f64_clamp_def)
  have span: "\<not> f64_lt (f64_sub (Fin 1501000) (Fin 901000)) (f64_of_nat MIN_STABLE_SPAN_US)"
    "\<not> f64_le (Fin 180000000000) F64_EPSILON"
    by (simp_all add: f64_sub_def MIN_STABLE_SPAN_US_def f64_of_nat_numeral F64_EPSILON_def f64_le_def)
  have intercept: "f64_sub (f64_add (Fin 1001000) (Fin 300000)) (f64_mul (Fin 1) (f64_add (Fin 901000) (Fin 300000))) =
      Fin 100000"
    by (simp add: f64_sub_def)
  have "sat_add64 1000 (f64_to_nat (2 ^ 64 - 1) (f64_ceil (foldl f64_max (Fin 0) [Fin 0, Fin 0, Fin 0]))) = 1000"
    by (simp add: f64_max_def sat_add_def u64_max_def)
  then show ?thesis
    unfolding fit_points_def Let_def sample_ends sample_means sample_centred sample_sum
    by (simp only: slope span intercept sample_residuals if_False)
qed

lemma sample_recompute:
  assumes "cm_samples m = sample_points"
  shows "recompute m = m \<lparr> cm_slope := Fin 1, cm_intercept_us := Fin 100000, cm_uncertainty_us := 1000, cm_stable := True \<rparr>"
proof -
  have "accepted_points sample_points = sample_points"
    by (simp add: accepted_points_def sample_points_def sat_add_def LOW_DELAY_BAND_US_def u64_max_def)
  moreover have "sample_points \<noteq> []" "\<not> length sample_points < MIN_STABLE_SAMPLES"
    by (simp_all add: sample_points_def MIN_STABLE_SAMPLES_def)
  ultimately show ?thesis using assms by (simp add: recompute_def sample_fit)
qed

lemma recompute_few: "length (cm_samples m) < 3 \<Longrightarrow> recompute m = m \<lparr> cm_stable := False \<rparr>"
proof -
  assume "length (cm_samples m) < 3"
  moreover have "length (accepted_points (cm_samples m)) \<le> length (cm_samples m)"
    by (simp add: accepted_points_def Let_def)
  ultimately show ?thesis by (simp add: recompute_def MIN_STABLE_SAMPLES_def)
qed

lemma sample_mapper:
  "rc_mapper (fold clock_step sample_clock_ops clock_sync_default) =
     \<lparr> cm_generation = 7, cm_samples = sample_points, cm_slope = Fin 1, cm_intercept_us = Fin 100000,
       cm_uncertainty_us = 1000, cm_stable = True \<rparr>"
  by (simp add: sample_clock_ops_def clock_sync_default_def clock_reset_def create_ping_def clock_due_def mapper_reset_def
      mapper_new_def MAX_PENDING_SYNC_SAMPLES_def observe_pong_def answers_def mapper_observe_def recompute_few
      MAX_ACCEPTED_ROUND_TRIP_US_def sync_point_of_def midpoint_def f64_of_nat_numeral f64_of_nat_def
      MAX_CLOCK_SYNC_SAMPLES_def INITIAL_SYNC_INTERVAL_def Let_def sample_recompute sample_points_def)

theorem clock_mapping_monotone_witness:
  "cme_local_time_us \<lparr> cme_local_time_us = 1300000, cme_uncertainty_us = 1000 \<rparr> \<le>
     cme_local_time_us \<lparr> cme_local_time_us = 2300000, cme_uncertainty_us = 1000 \<rparr>"
proof -
  let ?c = "fold clock_step sample_clock_ops clock_sync_default"
  have "(18446744073709551615 :: rat) * (1 - 1 / 2 ^ 53) \<le> fl 18446744073709551615" by (rule fl_bounds) simp
  then have far: "\<not> fl 18446744073709551615 < 1300000" "\<not> fl 18446744073709551615 < 2300000" by simp_all
  have half: "\<lfloor>2600001 / 2 :: rat\<rfloor> = 1300000" "\<lfloor>4600001 / 2 :: rat\<rfloor> = 2300000"
    by (rule floor_unique; simp)+
  have "mapped_sender_time 7 1200000 ?c = Some \<lparr> cme_local_time_us = 1300000, cme_uncertainty_us = 1000 \<rparr>"
    "mapped_sender_time 7 2200000 ?c = Some \<lparr> cme_local_time_us = 2300000, cme_uncertainty_us = 1000 \<rparr>"
    using far by (simp_all add: mapped_sender_time_def sample_mapper estimate_local_time_def f64_of_nat_numeral
        f64_of_nat_def half)
  from clock_mapping_monotone [OF refl this] show ?thesis by simp
qed

end
