(* ===== verification/Receiver_Session.thy ===== *)
theory Receiver_Session
  imports Receiver_Media Receiver_Reducer Network_Health Pairing_Transcript Native_Configuration Clock_Sync
    Rate_Control
begin

text \<open>
  The whole receiver session: \<open>ReceiverSession\<close> of \<open>crates/picoo-receiver/src/session/mod.rs\<close> around its
  media path, with the lifecycle effects of \<open>lifecycle.rs\<close>, the clock of \<open>clock.rs\<close> and the health
  projection of \<open>health.rs\<close>. The fields of \<open>Receiver_Media.media_session\<close> are a part of the record; the
  reducer's view of the lifecycle is computed from it.

  What the session reads from outside is again a record. Transport closures and placeholder frames are
  logged in the state. The platform's frame store, output and recording adapters are left out, and so
  are the texts kept for display (\<open>last_media_error\<close>, \<open>last_decode_skip\<close>).
\<close>

section \<open>Environment and state\<close>

text \<open>The newest frame of the frame store, as far as the session reads it.\<close>

record latest_frame =
  lf_timeline :: frame_timeline
  lf_source_pts_us :: nat
  lf_stream_epoch :: nat

record receiver_env =
  re_media :: media_env
  re_wall_ms :: nat
  re_nonce :: "bytes option"
  re_binding :: "bytes option"
  re_crypto :: ed25519
  re_unicode :: unicode
  re_print :: "persisted_devices \<Rightarrow> string option"
  re_write :: "string \<Rightarrow> bool"
  re_syntax :: syntax_env
  re_prost :: "bytes \<Rightarrow> control_envelope option"
  re_latest :: "latest_frame option"
  re_placeholder_ok :: bool

abbreviation re_now :: "receiver_env \<Rightarrow> nat" where "re_now env \<equiv> en_now (re_media env)"
abbreviation re_active :: "receiver_env \<Rightarrow> nat option" where "re_active env \<equiv> en_active_session (re_media env)"

record pending_pairing =
  pp_session :: nat
  pp_transcript_hash :: bytes
  pp_short_code :: string
  pp_pairing_required :: bool
  pp_local_confirmed :: bool
  pp_remote_confirmed :: bool
  pp_approval_sent :: bool
  pp_sender_committed :: bool
  pp_receiver_committed :: bool
  pp_expires_at :: nat

datatype decoder_readiness = DecoderPending | DecoderCapable capabilities | DecoderUnavailable string

record pending_configuration =
  pk_session :: nat
  pk_control_generation :: "nat option"
  pk_config :: stream_config

datatype placeholder = WaitingPlaceholder | ReconnectingPlaceholder

record receiver_session =
  rv_media :: media_session
  rv_active_generation :: "nat option"
  rv_resources_active :: bool
  rv_listening :: bool
  rv_hold_pending :: bool
  rv_trusted :: trusted_store
  rv_has_store_path :: bool
  rv_pending :: "pending_pairing option"
  rv_auto_accept :: bool
  rv_identity :: device_identity
  rv_placeholder_after :: "nat option"
  rv_last_frame_hold :: nat
  rv_capabilities_sent :: bool
  rv_readiness :: decoder_readiness
  rv_pending_config :: "pending_configuration option"
  rv_clock :: receiver_clock_sync
  rv_max_height :: nat
  rv_sender_stats :: "sender_stats option"
  rv_last_stats :: "receiver_stats option"
  rv_last_stats_revision :: nat
  rv_last_decoded_fps :: nat
  rv_health :: health_tracker
  rv_closed :: "receiver_close_reason list"
  rv_placeholders :: "placeholder list"

type_synonym 'a rv_outcome = "receiver_session \<times> ('a, receiver_error) result"

definition receiver_session_new :: "nat \<Rightarrow> device_identity \<Rightarrow> receiver_session" where
  "receiver_session_new now identity =
     \<lparr> rv_media = media_session_new now, rv_active_generation = None, rv_resources_active = True,
       rv_listening = False, rv_hold_pending = False, rv_trusted = store_new, rv_has_store_path = False,
       rv_pending = None, rv_auto_accept = True, rv_identity = identity, rv_placeholder_after = None,
       rv_last_frame_hold = 500 * 1000000, rv_capabilities_sent = False, rv_readiness = DecoderPending,
       rv_pending_config = None, rv_clock = clock_sync_default, rv_max_height = 1080,
       rv_sender_stats = None, rv_last_stats = None, rv_last_stats_revision = 0, rv_last_decoded_fps = 0, rv_health = tracker_default, rv_closed = [], rv_placeholders = [] \<rparr>"

text \<open>The \<open>?\<close> operator, and running an operation of the media path.\<close>

definition rv_then :: "unit rv_outcome \<Rightarrow> (receiver_session \<Rightarrow> 'a rv_outcome) \<Rightarrow> 'a rv_outcome" where
  "rv_then out f =
     (case snd out of Ok u \<Rightarrow> f (fst out) | Err e \<Rightarrow> (fst out, Err e) | Panic \<Rightarrow> (fst out, Panic))"

definition on_media :: "(media_session \<Rightarrow> 'a outcome) \<Rightarrow> receiver_session \<Rightarrow> 'a rv_outcome" where
  "on_media f s = (let (m, r) = f (rv_media s) in (s \<lparr> rv_media := m \<rparr>, r))"

definition upd_media :: "(media_session \<Rightarrow> media_session) \<Rightarrow> receiver_session \<Rightarrow> receiver_session" where
  "upd_media f s = s \<lparr> rv_media := f (rv_media s) \<rparr>"

definition upd_runtime :: "(session_runtime_state \<Rightarrow> session_runtime_state) \<Rightarrow> receiver_session \<Rightarrow> receiver_session" where
  "upd_runtime f = upd_media (\<lambda>m. m \<lparr> ms_runtime := f (ms_runtime m) \<rparr>)"

definition rv_send :: "receiver_env \<Rightarrow> control_payload \<Rightarrow> receiver_session \<Rightarrow> unit rv_outcome" where
  "rv_send env payload = on_media (send_control_payload (re_media env) payload)"

definition rv_video_allowed :: "receiver_session \<Rightarrow> bool" where
  "rv_video_allowed s = video_allowed (rv_media s)"

definition rv_stream :: "receiver_session \<Rightarrow> stream_state" where
  "rv_stream s = rt_stream (ms_runtime (rv_media s))"

section \<open>Lifecycle effects\<close>

definition lifecycle_of :: "receiver_session \<Rightarrow> receiver_reducer_state" where
  "lifecycle_of s =
     \<lparr> rx_runtime = ms_runtime (rv_media s), rx_active_generation = rv_active_generation s,
       rx_resources_active = rv_resources_active s, rx_listening = rv_listening s,
       rx_disconnect_hold_pending = rv_hold_pending s \<rparr>"

definition set_lifecycle :: "receiver_reducer_state \<Rightarrow> receiver_session \<Rightarrow> receiver_session" where
  "set_lifecycle l s =
     upd_runtime (\<lambda>_. rx_runtime l) s
       \<lparr> rv_active_generation := rx_active_generation l, rv_resources_active := rx_resources_active l,
         rv_listening := rx_listening l, rv_hold_pending := rx_disconnect_hold_pending l \<rparr>"

definition reset_network_health :: "receiver_session \<Rightarrow> receiver_session" where
  "reset_network_health s = upd_runtime (set_health HealthHealthy) (s \<lparr> rv_health := tracker_default \<rparr>)"

definition reset_receiver_resources :: "receiver_env \<Rightarrow> receiver_session \<Rightarrow> receiver_session" where
  "reset_receiver_resources env s =
     reset_network_health (upd_media (reset_session_resources (re_now env)) s)
       \<lparr> rv_pending := None, rv_sender_stats := None, rv_last_stats := None, rv_last_decoded_fps := 0, rv_capabilities_sent := False,
         rv_pending_config := None, rv_clock := clock_clear (rv_clock s) \<rparr>"

fun run_receiver_effect :: "receiver_env \<Rightarrow> receiver_effect \<Rightarrow> receiver_session \<Rightarrow> unit rv_outcome" where
  "run_receiver_effect env RxPrepareConnection s =
     (upd_media (\<lambda>m. m \<lparr> ms_control_generation := None, ms_next_message_id := 1, ms_last_message_id := 0 \<rparr>)
        (s \<lparr> rv_placeholder_after := None \<rparr>), Ok ())"
| "run_receiver_effect env RxResetSessionResources s = (reset_receiver_resources env s, Ok ())"
| "run_receiver_effect env (CloseActiveTransport reason) s = (s \<lparr> rv_closed := rv_closed s @ [reason] \<rparr>, Ok ())"
| "run_receiver_effect env ScheduleDisconnectHold s =
     (s \<lparr> rv_placeholder_after := Some (re_now env + rv_last_frame_hold s) \<rparr>, Ok ())"
| "run_receiver_effect env PublishWaitingPlaceholder s =
     (let s1 = s \<lparr> rv_placeholder_after := None \<rparr>
      in if re_placeholder_ok env then (s1 \<lparr> rv_placeholders := rv_placeholders s1 @ [WaitingPlaceholder] \<rparr>, Ok ())
         else (s1, Err PublishFailed))"
| "run_receiver_effect env PublishReconnectingPlaceholder s =
     (let s1 = s \<lparr> rv_placeholder_after := None \<rparr>
      in if re_placeholder_ok env then (s1 \<lparr> rv_placeholders := rv_placeholders s1 @ [ReconnectingPlaceholder] \<rparr>, Ok ())
         else (s1, Err PublishFailed))"
| "run_receiver_effect env RxAcceptControl s = (s, Ok ())"
| "run_receiver_effect env RxAcceptVideo s = (s, Ok ())"

fun run_receiver_effects :: "receiver_env \<Rightarrow> receiver_effect list \<Rightarrow> receiver_session \<Rightarrow> unit rv_outcome" where
  "run_receiver_effects env [] s = (s, Ok ())"
| "run_receiver_effects env (e # es) s = rv_then (run_receiver_effect env e s) (run_receiver_effects env es)"

definition apply_receiver_event ::
  "receiver_env \<Rightarrow> receiver_event \<Rightarrow> receiver_session \<Rightarrow> receiver_effect list rv_outcome" where
  "apply_receiver_event env event s =
     (let (l, effects) = receiver_reduce (lifecycle_of s) event
      in rv_then (run_receiver_effects env (effect_items effects) (set_lifecycle l s))
           (\<lambda>s1. (s1, Ok (effect_items effects))))"

text \<open>\<open>apply_receiver_event(..)?\<close> with the effects not looked at.\<close>

definition apply_event_only :: "receiver_env \<Rightarrow> receiver_event \<Rightarrow> receiver_session \<Rightarrow> unit rv_outcome" where
  "apply_event_only env event s =
     (let (s1, r) = apply_receiver_event env event s
      in (s1, case r of Ok _ \<Rightarrow> Ok () | Err e \<Rightarrow> Err e | Panic \<Rightarrow> Panic))"

definition reject_control_session :: "receiver_env \<Rightarrow> nat \<Rightarrow> receiver_session \<Rightarrow> receiver_session" where
  "reject_control_session env session s =
     fst (apply_receiver_event env (AbortConnection session CloseInvalidControl) s)"

definition maybe_finalize_disconnect_hold :: "receiver_env \<Rightarrow> receiver_session \<Rightarrow> unit rv_outcome" where
  "maybe_finalize_disconnect_hold env s =
     (case rv_placeholder_after s of
        None \<Rightarrow> (s, Ok ())
      | Some deadline \<Rightarrow>
          if re_now env < deadline then (s, Ok ()) else apply_event_only env DisconnectHoldElapsed s)"

definition begin_streaming :: "nat \<Rightarrow> receiver_session \<Rightarrow> receiver_session" where
  "begin_streaming session s =
     upd_runtime (\<lambda>rt.
       let rt1 = (case rt_connection rt of ConnConnected g \<Rightarrow> rt | _ \<Rightarrow> set_connection (ConnConnected session) rt)
       in set_stream (StreamStreaming (config_epoch_or_zero (rv_media s))) (set_trust TrustAuthenticated rt1)) s"

definition receiver_listen :: "receiver_env \<Rightarrow> bool \<Rightarrow> receiver_session \<Rightarrow> unit rv_outcome" where
  "receiver_listen env bound s = (if bound then apply_event_only env ListenerStarted s else (s, Err TransportFailed))"

definition receiver_close :: "receiver_env \<Rightarrow> receiver_session \<Rightarrow> receiver_session" where
  "receiver_close env s =
     (let s1 = (if re_active env \<noteq> None \<and> rv_video_allowed s then fst (rv_send env StopStreamMsg s) else s)
      in fst (apply_receiver_event env UserClose s1))"

definition observe_network_packet_loss :: "receiver_env \<Rightarrow> f64 \<Rightarrow> receiver_session \<Rightarrow> receiver_session" where
  "observe_network_packet_loss env packet_loss s =
     (let t = observe_packet_loss packet_loss (re_now env) (rv_health s)
      in upd_runtime (set_health (if is_degraded (nt_health t) then HealthNetworkDegraded else HealthHealthy))
           (s \<lparr> rv_health := t \<rparr>))"

section \<open>Clock exchange\<close>

definition handle_clock_sync_pong :: "receiver_env \<Rightarrow> clock_sync_pong \<Rightarrow> receiver_session \<Rightarrow> receiver_session" where
  "handle_clock_sync_pong env pong s =
     s \<lparr> rv_clock := observe_pong pong (micros_since_origin (re_now env) (rv_media s)) (rv_clock s) \<rparr>"

definition maybe_send_clock_sync :: "receiver_env \<Rightarrow> receiver_session \<Rightarrow> unit rv_outcome" where
  "maybe_send_clock_sync env s =
     (if \<not> rv_video_allowed s \<or> \<not> is_streaming (rv_stream s) \<or> re_active env = None then (s, Ok ())
      else
        let (clock, ping) = create_ping (re_now env) (micros_since_origin (re_now env) (rv_media s)) (rv_clock s);
            s1 = s \<lparr> rv_clock := clock \<rparr>
        in (case ping of None \<Rightarrow> (s1, Ok ()) | Some p \<Rightarrow> rv_send env (ClockSyncPingMsg p) s1))"

section \<open>The adapter refines the reducer\<close>

text \<open>
  Running the effects leaves the reducer's own state alone, but for the runtime's health, which a
  reset clears again.
\<close>

named_theorems rv_simps \<open>fields and runs of the receiver session\<close>

lemma rv_then_Ok [simp]: "rv_then (s, Ok u) f = f s"
  by (simp add: rv_then_def)

lemma rv_then_Err [simp]: "rv_then (s, Err e) f = (s, Err e)"
  by (simp add: rv_then_def)

lemma upd_fields [simp]:
  "rv_media (upd_media f s) = f (rv_media s)"
  "rv_active_generation (upd_media f s) = rv_active_generation s"
  "rv_resources_active (upd_media f s) = rv_resources_active s"
  "rv_listening (upd_media f s) = rv_listening s" "rv_hold_pending (upd_media f s) = rv_hold_pending s"
  "rv_trusted (upd_media f s) = rv_trusted s" "rv_has_store_path (upd_media f s) = rv_has_store_path s"
  "rv_pending (upd_media f s) = rv_pending s" "rv_auto_accept (upd_media f s) = rv_auto_accept s"
  "rv_identity (upd_media f s) = rv_identity s"
  "rv_closed (upd_media f s) = rv_closed s"
  by (simp_all add: upd_media_def)

lemma upd_runtime_fields [simp]:
  "rv_active_generation (upd_runtime f s) = rv_active_generation s"
  "rv_resources_active (upd_runtime f s) = rv_resources_active s"
  "rv_listening (upd_runtime f s) = rv_listening s" "rv_hold_pending (upd_runtime f s) = rv_hold_pending s"
  "rv_trusted (upd_runtime f s) = rv_trusted s" "rv_has_store_path (upd_runtime f s) = rv_has_store_path s"
  "rv_pending (upd_runtime f s) = rv_pending s" "rv_auto_accept (upd_runtime f s) = rv_auto_accept s"
  "rv_identity (upd_runtime f s) = rv_identity s"
  "rv_closed (upd_runtime f s) = rv_closed s"
  "ms_runtime (rv_media (upd_runtime f s)) = f (ms_runtime (rv_media s))"
  "ms_sender (rv_media (upd_runtime f s)) = ms_sender (rv_media s)"
  by (simp_all add: upd_runtime_def)

lemma reset_runtime [simp]: "ms_runtime (reset_session_resources now m) = ms_runtime m"
  by (simp add: reset_session_resources_def)

lemma effect_lifecycle:
  assumes "rt_health (ms_runtime (rv_media s)) = HealthHealthy \<or> e \<noteq> RxResetSessionResources"
  shows "lifecycle_of (fst (run_receiver_effect env e s)) = lifecycle_of s"
  using assms
  by (cases e) (auto simp: lifecycle_of_def reset_receiver_resources_def reset_network_health_def set_health_def
      Let_def upd_media_def intro: session_runtime_state.equality)

lemma effects_lifecycle:
  assumes "rt_health (ms_runtime (rv_media s)) = HealthHealthy \<or> RxResetSessionResources \<notin> set es"
  shows "lifecycle_of (fst (run_receiver_effects env es s)) = lifecycle_of s"
  using assms
proof (induction es arbitrary: s)
  case (Cons e es)
  let ?out = "run_receiver_effect env e s"
  have e: "lifecycle_of (fst ?out) = lifecycle_of s" by (rule effect_lifecycle) (use Cons.prems in auto)
  then have "rt_health (ms_runtime (rv_media (fst ?out))) = rt_health (ms_runtime (rv_media s))"
    by (metis lifecycle_of_def receiver_reducer_state.select_convs(1))
  with Cons.prems have "rt_health (ms_runtime (rv_media (fst ?out))) = HealthHealthy \<or> RxResetSessionResources \<notin> set es"
    by auto
  from Cons.IH [OF this] e show ?case by (simp add: rv_then_def split: result.split)
qed simp

lemma lifecycle_set [simp]: "lifecycle_of (set_lifecycle l s) = l"
  by (simp add: lifecycle_of_def set_lifecycle_def upd_runtime_def upd_media_def)

lemma reset_events_healthy:
  "RxResetSessionResources \<in> set (effect_items (snd (receiver_reduce l e))) \<Longrightarrow>
     rt_health (rx_runtime (fst (receiver_reduce l e))) = HealthHealthy"
  by (cases e) (auto simp: reset_session_def reset_to_available_idle_def runtime_default_def Let_def split: if_splits)

text \<open>Applying an event to the whole session moves its lifecycle exactly as the pure reducer moves its own
  state, whatever the effects do to the rest of the session and however they return: the session refines
  the reducer, so what is proved of the reducer holds of it.\<close>

lemma apply_event_refines: "lifecycle_of (fst (apply_receiver_event env e s)) = fst (receiver_reduce (lifecycle_of s) e)"
proof -
  obtain l fx where r: "receiver_reduce (lifecycle_of s) e = (l, fx)" by fastforce
  have "rt_health (ms_runtime (rv_media (set_lifecycle l s))) = rt_health (rx_runtime l)"
    by (metis lifecycle_of_def lifecycle_set receiver_reducer_state.select_convs(1))
  then have "lifecycle_of (fst (run_receiver_effects env (effect_items fx) (set_lifecycle l s))) = l"
    using reset_events_healthy [of "lifecycle_of s" e] by (subst effects_lifecycle) (auto simp: r)
  then show ?thesis by (simp add: apply_receiver_event_def r rv_then_def split: result.split)
qed

end
