(* ===== verification/Receiver_Pairing.thy ===== *)
theory Receiver_Pairing
  imports Receiver_Session
begin

text \<open>
  Pairing at the receiver: \<open>crates/picoo-receiver/src/session/pairing.rs\<close>. A challenge runs through local
  confirmation, the sender's signed confirmation, the receiver's approval, the sender's signed commit
  and the receiver's own commit to its trust store; only then does the sender's video pass.
\<close>

section \<open>The trust store of the session\<close>

definition PAIRING_CHALLENGE_TTL :: nat where "PAIRING_CHALLENGE_TTL = 60 * 1000000000"

definition persist_trusted :: "receiver_env \<Rightarrow> receiver_session \<Rightarrow> (unit, receiver_error) result" where
  "persist_trusted env s =
     (if \<not> rv_has_store_path s then Ok ()
      else (case save_to_path (cr_digests (re_crypto env)) (re_unicode env) (re_print env) (re_write env) (rv_trusted s) of
              Ok _ \<Rightarrow> Ok () | Err e \<Rightarrow> Err StoreFailed | Panic \<Rightarrow> Panic))"

text \<open>The transactions restore the previous store when it cannot be persisted.\<close>

definition persist_or_restore :: "receiver_env \<Rightarrow> trusted_store \<Rightarrow> receiver_session \<Rightarrow> unit rv_outcome" where
  "persist_or_restore env previous s =
     (case persist_trusted env s of
        Ok u \<Rightarrow> (s, Ok ()) | Err e \<Rightarrow> (s \<lparr> rv_trusted := previous \<rparr>, Err e) | Panic \<Rightarrow> (s, Panic))"

definition remove_trusted_device :: "receiver_env \<Rightarrow> string \<Rightarrow> receiver_session \<Rightarrow> bool rv_outcome" where
  "remove_trusted_device env device_id s =
     (let (store, removed) = store_remove device_id (rv_trusted s);
          s1 = s \<lparr> rv_trusted := store \<rparr>
      in if removed then rv_then (persist_or_restore env (rv_trusted s) s1) (\<lambda>s2. (s2, Ok True)) else (s1, Ok False))"

definition clear_trusted_devices :: "receiver_env \<Rightarrow> receiver_session \<Rightarrow> nat rv_outcome" where
  "clear_trusted_devices env s =
     (let (store, n) = store_clear (rv_trusted s);
          s1 = s \<lparr> rv_trusted := store \<rparr>
      in if n > 0 then rv_then (persist_or_restore env (rv_trusted s) s1) (\<lambda>s2. (s2, Ok n)) else (s1, Ok n))"

definition dismiss_trusted_identity_replacement ::
  "receiver_env \<Rightarrow> nat \<Rightarrow> receiver_session \<Rightarrow> bool rv_outcome" where
  "dismiss_trusted_identity_replacement env revision s =
     (let (store, dismissed) = dismiss_identity_replacement revision (rv_trusted s);
          s1 = s \<lparr> rv_trusted := store \<rparr>
      in if dismissed then rv_then (persist_or_restore env (rv_trusted s) s1) (\<lambda>s2. (s2, Ok True)) else (s1, Ok False))"

definition candidate_stale :: "trusted_store \<Rightarrow> identity_candidate \<Rightarrow> bool" where
  "candidate_stale store c \<longleftrightarrow>
     (case store_get store (tc_device_id c) of
        None \<Rightarrow> True
      | Some device \<Rightarrow> td_fingerprint device \<noteq> tc_fingerprint c \<or>
          td_last_connected_at_ms device \<noteq> tc_last_connected_at_ms c)"

fun remove_candidates :: "identity_candidate list \<Rightarrow> trusted_store \<Rightarrow> trusted_store \<times> nat" where
  "remove_candidates [] store = (store, 0)"
| "remove_candidates (c # cs) store =
     (let (store1, removed) = store_remove (tc_device_id c) store;
          (store2, n) = remove_candidates cs store1
      in (store2, (if removed then 1 else 0) + n))"

definition replace_trusted_identity_history :: "receiver_env \<Rightarrow> nat \<Rightarrow> receiver_session \<Rightarrow> nat rv_outcome" where
  "replace_trusted_identity_history env revision s =
     (case ts_replacement (rv_trusted s) of
        None \<Rightarrow> (s, Err StaleTrustedIdentityReplacement)
      | Some replacement \<Rightarrow>
          if ir_revision replacement \<noteq> revision then (s, Err StaleTrustedIdentityReplacement)
          else if \<not> is_paired (rv_trusted s) (ir_current_device_id replacement) \<or>
               list_ex (candidate_stale (rv_trusted s)) (ir_previous replacement)
          then (s, Err StaleTrustedIdentityReplacement)
          else
            let (store, removed) = remove_candidates (ir_previous replacement) (rv_trusted s);
                s1 = s \<lparr> rv_trusted := set_identity_replacement None store \<rparr>
            in rv_then (persist_or_restore env (rv_trusted s) s1) (\<lambda>s2. (s2, Ok removed)))"

text \<open>
  The order of \<open>sort_by\<close>: latest connection first, then by identifier; \<open>None\<close> counts as the
  earliest. A stable sort by insertion gives the same list as the library's.
\<close>

fun connected_key :: "nat option \<Rightarrow> nat" where
  "connected_key None = 0"
| "connected_key (Some t) = t + 1"

definition candidate_before :: "identity_candidate \<Rightarrow> identity_candidate \<Rightarrow> bool" where
  "candidate_before a b \<longleftrightarrow>
     connected_key (tc_last_connected_at_ms b) < connected_key (tc_last_connected_at_ms a) \<or>
     tc_last_connected_at_ms a = tc_last_connected_at_ms b \<and> tc_device_id a \<le> tc_device_id b"

fun insert_candidate :: "identity_candidate \<Rightarrow> identity_candidate list \<Rightarrow> identity_candidate list" where
  "insert_candidate c [] = [c]"
| "insert_candidate c (d # ds) = (if candidate_before c d then c # d # ds else d # insert_candidate c ds)"

definition candidate_of :: "trusted_device \<Rightarrow> identity_candidate" where
  "candidate_of device = \<lparr> tc_device_id = td_device_id device, tc_fingerprint = td_fingerprint device,
     tc_last_connected_at_ms = td_last_connected_at_ms device \<rparr>"

definition prepare_trusted_identity_replacement :: "unicode \<Rightarrow> string \<Rightarrow> trusted_store \<Rightarrow> trusted_store" where
  "prepare_trusted_identity_replacement un current_device_id store =
     (let store1 = set_identity_replacement None store
      in case store_get store1 current_device_id of
           None \<Rightarrow> store1
         | Some current \<Rightarrow>
             let ids = same_name_identity_ids un (td_device_id current) store1;
                 candidates = foldr insert_candidate (map candidate_of (List.map_filter (store_get store1) ids)) []
             in if candidates = [] then store1
                else
                  let (revision, store2) = allocate_replacement_revision store1
                  in set_identity_replacement (Some \<lparr> ir_revision = revision, ir_current_device_id = td_device_id current,
                       ir_device_name = td_device_name current, ir_previous = candidates \<rparr>) store2)"

section \<open>The challenge\<close>

definition handshake_message :: "handshake_error \<Rightarrow> string" where
  "handshake_message e =
     (case e of InvalidSignature \<Rightarrow> ''invalid identity proof signature''
      | InvalidTranscript m \<Rightarrow> ''invalid pairing transcript: '' @ m
      | RandomFailed \<Rightarrow> ''OS CSPRNG failed'')"

definition protocol_result :: "('a, handshake_error) result \<Rightarrow> ('a, receiver_error) result" where
  "protocol_result r = map_err (\<lambda>e. ProtocolError (handshake_message e)) r"

definition hello_transcript ::
  "client_hello \<Rightarrow> device_identity \<Rightarrow> bytes \<Rightarrow> bytes \<Rightarrow> nat \<Rightarrow> pairing_transcript" where
  "hello_transcript hello identity receiver_nonce binding generation =
     \<lparr> tr_protocol = ALPN, tr_sender_id = ch_sender_id hello, tr_sender_public_key = ch_public_key hello,
       tr_sender_nonce = ch_sender_nonce hello, tr_receiver_id = di_device_id identity,
       tr_receiver_public_key = di_public_key identity, tr_receiver_nonce = receiver_nonce,
       tr_channel_binding = binding, tr_connection_generation = generation \<rparr>"

definition server_hello_of ::
  "receiver_env \<Rightarrow> receiver_session \<Rightarrow> bool \<Rightarrow> bytes \<Rightarrow> bytes \<Rightarrow> server_hello" where
  "server_hello_of env s auto_accept receiver_nonce hash =
     \<lparr> sh_receiver_id = di_device_id (rv_identity s), sh_display_name = di_device_name (rv_identity s),
       sh_public_key = di_public_key (rv_identity s), sh_pairing_required = \<not> auto_accept,
       sh_receiver_nonce = receiver_nonce, sh_transcript_hash = hash,
       sh_identity_signature = sign_transcript_phase (re_crypto env) (rv_identity s) hash SERVER_HELLO_PHASE \<rparr>"

text \<open>What \<open>handle_client_hello\<close> computes before it answers: nonce, hash and code.\<close>

definition hello_challenge ::
  "receiver_env \<Rightarrow> client_hello \<Rightarrow> receiver_session \<Rightarrow> (bytes \<times> bytes \<times> string, receiver_error) result" where
  "hello_challenge env hello s =
     rbind (ok_or (re_nonce env) (ProtocolError ''OS CSPRNG failed'')) (\<lambda>receiver_nonce.
     rbind (ok_or (re_binding env) TransportFailed) (\<lambda>binding.
     rbind (ok_or (ms_control_generation (rv_media s)) (ProtocolError ''missing control connection generation'')) (\<lambda>generation.
       let transcript = hello_transcript hello (rv_identity s) receiver_nonce binding generation
       in rbind (protocol_result (transcript_hash (cr_digests (re_crypto env)) transcript)) (\<lambda>hash.
          rbind (protocol_result (short_code (cr_digests (re_crypto env)) transcript)) (\<lambda>code.
            Ok (receiver_nonce, hash, code))))))"

definition hello_valid :: "receiver_env \<Rightarrow> client_hello \<Rightarrow> bool" where
  "hello_valid env hello \<longleftrightarrow> ch_sender_id hello \<noteq> [] \<and>
     derive_device_id (cr_digests (re_crypto env)) (ch_public_key hello) = ch_sender_id hello \<and>
     length (ch_sender_nonce hello) = 32"

definition key_trusted :: "client_hello \<Rightarrow> receiver_session \<Rightarrow> bool" where
  "key_trusted hello s \<longleftrightarrow> verify_paired_key (rv_trusted s) (ch_sender_id hello) (ch_public_key hello) = Ok ()"

definition open_challenge ::
  "receiver_env \<Rightarrow> nat \<Rightarrow> client_hello \<Rightarrow> bool \<Rightarrow> bytes \<Rightarrow> string \<Rightarrow> receiver_session \<Rightarrow> receiver_session" where
  "open_challenge env session hello auto_accept hash code s =
     upd_runtime (\<lambda>rt. set_stream StreamNegotiating (set_trust (if auto_accept then TrustUnknown else TrustPairing) rt))
       (upd_media (\<lambda>m. m \<lparr> ms_sender := Some \<lparr> snd_id = ch_sender_id hello, snd_name = ch_device_name hello,
                     snd_public_key = ch_public_key hello, snd_video_allowed = False \<rparr> \<rparr>)
         (s \<lparr> rv_pending := Some \<lparr> pp_session = session, pp_transcript_hash = hash,
               pp_short_code = (if auto_accept then [] else code), pp_pairing_required = \<not> auto_accept,
               pp_local_confirmed = auto_accept, pp_remote_confirmed = False, pp_approval_sent = False,
               pp_sender_committed = False, pp_receiver_committed = False,
               pp_expires_at = re_now env + PAIRING_CHALLENGE_TTL \<rparr> \<rparr>))"

definition handle_client_hello :: "receiver_env \<Rightarrow> nat \<Rightarrow> client_hello \<Rightarrow> receiver_session \<Rightarrow> unit rv_outcome" where
  "handle_client_hello env session hello s =
     (if \<not> hello_valid env hello then (s, Err (ProtocolError ''ClientHello contains an invalid Sender identity''))
      else if is_paired (rv_trusted s) (ch_sender_id hello) \<and> \<not> key_trusted hello s
      then apply_event_only env (AbortConnection session ClosePublicKeyChanged)
             (fst (rv_send env (SessionErrorMsg \<lparr> er_code = ''PUBLIC_KEY_CHANGED'',
                er_message = ''paired device public key changed; remove and re-pair'' \<rparr>) s))
      else
        let auto_accept = key_trusted hello s \<and> rv_auto_accept s
        in (case hello_challenge env hello s of
              Err e \<Rightarrow> (s, Err e)
            | Panic \<Rightarrow> (s, Panic)
            | Ok (receiver_nonce, hash, code) \<Rightarrow>
                rv_then (rv_send env (ServerHelloMsg (server_hello_of env s auto_accept receiver_nonce hash)) s)
                  (\<lambda>s1. (open_challenge env session hello auto_accept hash code s1, Ok ()))))"

section \<open>Progress of a challenge\<close>

definition upd_pending :: "(pending_pairing \<Rightarrow> pending_pairing) \<Rightarrow> receiver_session \<Rightarrow> receiver_session" where
  "upd_pending f s = s \<lparr> rv_pending := map_option f (rv_pending s) \<rparr>"

definition phase_proof :: "receiver_env \<Rightarrow> receiver_session \<Rightarrow> bytes \<Rightarrow> bytes \<Rightarrow> identity_proof" where
  "phase_proof env s hash phase =
     \<lparr> ip_transcript_hash = hash,
       ip_identity_signature = sign_transcript_phase (re_crypto env) (rv_identity s) hash phase \<rparr>"

definition commit_sender :: "receiver_env \<Rightarrow> active_sender \<Rightarrow> receiver_session \<Rightarrow> unit rv_outcome" where
  "commit_sender env active s =
     (let previously_trusted = is_paired (rv_trusted s) (snd_id active);
          store = store_upsert (trusted_device_from_pairing (cr_digests (re_crypto env)) (snd_id active) (snd_name active)
                    (snd_public_key active) (re_wall_ms env)) (rv_trusted s);
          store1 = (if previously_trusted then store
                    else prepare_trusted_identity_replacement (re_unicode env) (snd_id active) store)
      in rv_then (persist_or_restore env (rv_trusted s) (s \<lparr> rv_trusted := store1 \<rparr>))
           (\<lambda>s1. (upd_pending (\<lambda>p. p \<lparr> pp_receiver_committed := True \<rparr>) s1, Ok ())))"

definition complete_pairing :: "receiver_env \<Rightarrow> nat \<Rightarrow> bytes \<Rightarrow> receiver_session \<Rightarrow> unit rv_outcome" where
  "complete_pairing env session hash s =
     rv_then (rv_send env (PairingCompleteMsg (phase_proof env s hash PAIRING_COMPLETE_PHASE)) s) (\<lambda>s1.
       (begin_streaming session
          (upd_media (\<lambda>m. m \<lparr> ms_sender := map_option (\<lambda>x. x \<lparr> snd_video_allowed := True \<rparr>) (ms_sender m) \<rparr>)
             (s1 \<lparr> rv_pending := None \<rparr>)), Ok ()))"

definition advance_pairing :: "receiver_env \<Rightarrow> receiver_session \<Rightarrow> unit rv_outcome" where
  "advance_pairing env s =
     (case rv_pending s of
        None \<Rightarrow> (s, Ok ())
      | Some p \<Rightarrow>
          if \<not> pp_local_confirmed p \<or> \<not> pp_remote_confirmed p then (s, Ok ())
          else if \<not> pp_sender_committed p
          then (if pp_approval_sent p then (s, Ok ())
                else rv_then (rv_send env (PairingApprovalMsg (phase_proof env s (pp_transcript_hash p) PAIRING_APPROVAL_PHASE)) s)
                       (\<lambda>s1. (upd_pending (\<lambda>p. p \<lparr> pp_approval_sent := True \<rparr>) s1, Ok ())))
          else
            rv_then (if pp_receiver_committed p then (s, Ok ())
                     else (case ms_sender (rv_media s) of None \<Rightarrow> (s, Panic) | Some active \<Rightarrow> commit_sender env active s))
              (complete_pairing env (pp_session p) (pp_transcript_hash p)))"

definition expire_pending_pairing_if_needed :: "receiver_env \<Rightarrow> receiver_session \<Rightarrow> receiver_session" where
  "expire_pending_pairing_if_needed env s =
     (case rv_pending s of
        None \<Rightarrow> s
      | Some p \<Rightarrow>
          if re_now env < pp_expires_at p then s
          else fst (apply_receiver_event env (AbortConnection (pp_session p) ClosePairingExpired) s))"

definition confirm_pairing_locally :: "receiver_env \<Rightarrow> receiver_session \<Rightarrow> unit rv_outcome" where
  "confirm_pairing_locally env s =
     advance_pairing env (upd_pending (\<lambda>p. p \<lparr> pp_local_confirmed := True \<rparr>) (expire_pending_pairing_if_needed env s))"

definition reject_pairing_locally :: "receiver_env \<Rightarrow> receiver_session \<Rightarrow> unit rv_outcome" where
  "reject_pairing_locally env s =
     (let s1 = expire_pending_pairing_if_needed env s
      in case rv_pending s1 of
           None \<Rightarrow> (s1, Ok ())
         | Some p \<Rightarrow>
             rv_then (rv_send env (SessionErrorMsg \<lparr> er_code = ''PAIRING_REJECTED'',
                        er_message = ''desktop user rejected the pairing challenge'' \<rparr>) s1)
               (apply_event_only env (AbortConnection (pp_session p) ClosePairingRejected)))"

definition handle_pairing_confirm ::
  "receiver_env \<Rightarrow> nat \<Rightarrow> identity_proof \<Rightarrow> receiver_session \<Rightarrow> unit rv_outcome" where
  "handle_pairing_confirm env session confirm s =
     (case rv_pending s of
        None \<Rightarrow> (s, Err (ProtocolError ''no pending pairing''))
      | Some p \<Rightarrow>
          if re_now env \<ge> pp_expires_at p
          then (upd_runtime (\<lambda>rt. set_stream StreamIdle (set_trust TrustUnknown rt)) (s \<lparr> rv_pending := None \<rparr>),
                Err (ProtocolError ''pairing challenge expired''))
          else if session \<noteq> pp_session p then (s, Err (ProtocolError ''pairing session mismatch''))
          else
            (case ms_sender (rv_media s) of
               None \<Rightarrow> (s, Err (ProtocolError ''missing active Sender''))
             | Some sender \<Rightarrow>
                 if ip_transcript_hash confirm \<noteq> pp_transcript_hash p
                 then (s, Err (ProtocolError ''PairingConfirm transcript mismatch''))
                 else
                   (case protocol_result (verify_transcript_phase (re_crypto env) (snd_public_key sender)
                           (pp_transcript_hash p) SENDER_CONFIRM_PHASE (ip_identity_signature confirm)) of
                      Err e \<Rightarrow> (s, Err e)
                    | Panic \<Rightarrow> (s, Panic)
                    | Ok u \<Rightarrow> advance_pairing env (upd_pending (\<lambda>p. p \<lparr> pp_remote_confirmed := True \<rparr>) s))))"

definition verify_sender_phase ::
  "receiver_env \<Rightarrow> nat \<Rightarrow> bytes \<Rightarrow> bytes \<Rightarrow> bytes \<Rightarrow> receiver_session \<Rightarrow> bool" where
  "verify_sender_phase env session hash signature phase s \<longleftrightarrow>
     (case (rv_pending s, ms_sender (rv_media s)) of
        (Some p, Some active) \<Rightarrow>
          session = pp_session p \<and> hash = pp_transcript_hash p \<and>
          verify_transcript_phase (re_crypto env) (snd_public_key active) (pp_transcript_hash p) phase signature = Ok ()
      | _ \<Rightarrow> False)"

definition finish_pairing_commit :: "receiver_env \<Rightarrow> receiver_session \<Rightarrow> unit rv_outcome" where
  "finish_pairing_commit env s = advance_pairing env (upd_pending (\<lambda>p. p \<lparr> pp_sender_committed := True \<rparr>) s)"

definition handle_pairing_commit ::
  "receiver_env \<Rightarrow> nat \<Rightarrow> identity_proof \<Rightarrow> receiver_session \<Rightarrow> unit rv_outcome" where
  "handle_pairing_commit env session commit s =
     (if verify_sender_phase env session (ip_transcript_hash commit) (ip_identity_signature commit) PAIRING_COMMIT_PHASE s
      then finish_pairing_commit env s
      else (s, Err (ProtocolError ''PairingCommit identity proof is invalid'')))"

end
