(* ===== verification/Receiver_Control.thy ===== *)
theory Receiver_Control
  imports Receiver_Pairing
begin

text \<open>
  The control channel at the receiver: \<open>crates/picoo-receiver/src/session/control.rs\<close>, the decoder
  negotiation of \<open>decoder_capabilities.rs\<close>, the decoder events of \<open>media_publish.rs\<close> and the dispatch of
  transport events of \<open>transport_events.rs\<close>.
\<close>

section \<open>Commands of the desktop\<close>

definition send_camera_command :: "receiver_env \<Rightarrow> camera_command \<Rightarrow> receiver_session \<Rightarrow> unit rv_outcome" where
  "send_camera_command env command s =
     (if re_active env = None then (s, Err NotListening)
      else if \<not> rv_video_allowed s
      then (upd_media (count_ingress (\<lambda>i. i \<lparr> is_control_rejected_unpaired := is_control_rejected_unpaired i + 1 \<rparr>)) s,
            Err (ProtocolError ''CameraCommand requires paired streaming session''))
      else if cm_command command = CAMERA_UNSPECIFIED then (s, Err (ProtocolError ''CameraCommand unspecified''))
      else rv_send env (CameraCommandMsg command) s)"

section \<open>Handlers\<close>

definition handle_sender_stats :: "sender_stats \<Rightarrow> receiver_session \<Rightarrow> unit rv_outcome" where
  "handle_sender_stats stats s =
     (if \<not> f64_is_finite (st_video_queue_age_ms stats) \<or> f64_lt (st_video_queue_age_ms stats) (Fin 0) then (s, Ok ())
      else (s \<lparr> rv_sender_stats := Some stats \<rparr>, Ok ()))"

definition handle_start_stream :: "receiver_env \<Rightarrow> nat \<Rightarrow> receiver_session \<Rightarrow> unit rv_outcome" where
  "handle_start_stream env session s =
     (if \<not> rv_video_allowed s
      then
        (fst (rv_send env (SessionErrorMsg \<lparr> er_code = ''UNPAIRED'', er_message = ''StartStream rejected until pairing completes'' \<rparr>)
           (upd_media (count_ingress (\<lambda>i. i \<lparr> is_control_rejected_unpaired := is_control_rejected_unpaired i + 1 \<rparr>)) s)), Ok ())
      else (begin_streaming session s, Ok ()))"

definition handle_stop_stream :: "receiver_env \<Rightarrow> nat \<Rightarrow> receiver_session \<Rightarrow> unit rv_outcome" where
  "handle_stop_stream env session s =
     (if \<not> rv_video_allowed s
      then (upd_media (count_ingress (\<lambda>i. i \<lparr> is_control_rejected_unpaired := is_control_rejected_unpaired i + 1 \<rparr>)) s, Ok ())
      else apply_event_only env (StopStream session) s)"

definition send_capabilities :: "receiver_env \<Rightarrow> receiver_session \<Rightarrow> unit rv_outcome" where
  "send_capabilities env s =
     (case rv_readiness s of
        DecoderCapable offers \<Rightarrow>
          rv_send env (CapabilitiesMsg (filter (\<lambda>offer.
            (case Option.bind (do_format offer) vf_visible_rect of
               None \<Rightarrow> False | Some rect \<Rightarrow> vr_height rect \<le> rv_max_height s)) offers)) s
      | _ \<Rightarrow> (s, Ok ()))"

definition announce_capabilities :: "receiver_env \<Rightarrow> receiver_session \<Rightarrow> unit rv_outcome" where
  "announce_capabilities env s =
     (if rv_capabilities_sent s then (s, Ok ())
      else rv_then (send_capabilities env s) (\<lambda>s1. (s1 \<lparr> rv_capabilities_sent := True \<rparr>, Ok ())))"

section \<open>Stream configurations\<close>

definition keep_pending_config :: "nat \<Rightarrow> stream_config \<Rightarrow> receiver_session \<Rightarrow> receiver_session" where
  "keep_pending_config session config s =
     (let newer = (case rv_pending_config s of
                     None \<Rightarrow> False
                   | Some p \<Rightarrow> pk_session p = session \<and> pk_control_generation p = ms_control_generation (rv_media s) \<and>
                       sc_stream_epoch (pk_config p) > sc_stream_epoch config)
      in if newer then s
         else s \<lparr> rv_pending_config := Some \<lparr> pk_session = session,
                    pk_control_generation = ms_control_generation (rv_media s), pk_config = config \<rparr> \<rparr>)"

text \<open>The admission of a format by the decoder's offers, and the byte budget of the matching offer.\<close>

definition admitted_budget ::
  "capabilities \<Rightarrow> video_format \<Rightarrow> stream_config \<Rightarrow> receiver_session \<Rightarrow> (nat, receiver_error) result" where
  "admitted_budget offers f config s =
     (if sc_height config > rv_max_height s
      then Err (ProtocolError ''source format was not admitted by native decoder'')
      else (case caps_supports offers f (sc_level_idc config) 1 of
              Panic \<Rightarrow> Panic
            | Err e \<Rightarrow> Panic
            | Ok supported \<Rightarrow>
                if \<not> supported then Err (ProtocolError ''source format was not admitted by native decoder'')
                else (case find (\<lambda>offer. do_format offer = Some f) offers of
                        None \<Rightarrow> Panic | Some offer \<Rightarrow> Ok (do_max_access_unit_bytes offer))))"

definition commit_waiting :: "nat \<Rightarrow> media_session \<Rightarrow> media_session" where
  "commit_waiting epoch m =
     (case ms_waiting_epoch m of
        None \<Rightarrow> m
      | Some waiting \<Rightarrow>
          if waiting = epoch then m \<lparr> ms_waiting_epoch := None \<rparr>
          else if waiting < epoch then m \<lparr> ms_waiting_epoch := None, ms_pending_idr := None \<rparr> else m)"

definition commit_config :: "receiver_env \<Rightarrow> stream_config \<Rightarrow> nat \<Rightarrow> receiver_session \<Rightarrow> receiver_session" where
  "commit_config env config budget s =
     (let previous = map_option sc_stream_epoch (ms_config (rv_media s));
          epoch = sc_stream_epoch config;
          s1 = upd_media (\<lambda>m. m \<lparr> ms_config_revision := ms_config_revision m + 1, ms_config := Some config,
                 ms_budget := Some budget \<rparr>) s;
          s2 = (if previous \<noteq> Some epoch
                then s1 \<lparr> rv_clock := clock_reset (re_now env) epoch (rv_clock s1) \<rparr> else s1)
      in upd_media (commit_waiting epoch) s2)"

definition start_negotiated :: "nat \<Rightarrow> receiver_session \<Rightarrow> receiver_session" where
  "start_negotiated session s =
     (if rv_video_allowed s \<and> rv_stream s = StreamNegotiating then begin_streaming session s else s)"

definition show_negotiating :: "receiver_session \<Rightarrow> receiver_session" where
  "show_negotiating s =
     (if rv_video_allowed s \<and> \<not> is_streaming (rv_stream s) then upd_runtime (set_stream StreamNegotiating) s else s)"

definition install_config ::
  "receiver_env \<Rightarrow> nat \<Rightarrow> stream_config \<Rightarrow> nat \<Rightarrow> receiver_session \<Rightarrow> unit rv_outcome" where
  "install_config env session config budget s =
     (let previous = map_option sc_stream_epoch (ms_config (rv_media s));
          epoch = sc_stream_epoch config;
          epoch_bumped = (case previous of None \<Rightarrow> False | Some p \<Rightarrow> epoch > p)
      in if (case previous of None \<Rightarrow> False | Some p \<Rightarrow> epoch < p) then (s, Ok ())
      else if ms_config_revision (rv_media s) \<ge> u64_max
      then (s, Err (ProtocolError ''source configuration revision exhausted''))
      else
        rv_then (announce_capabilities env (show_negotiating (commit_config env config budget s))) (\<lambda>s1.
          let s2 = start_negotiated session s1;
              needs_keyframe = rv_video_allowed s2 \<and> (previous = None \<or> epoch_bumped);
              reason = (if epoch_bumped then EpochChanged else InitialConfig)
          in rv_then (if needs_keyframe
                      then on_media (enter_decoder_recovery (re_media env) reason epoch_bumped) s2 else (s2, Ok ()))
               (on_media (release_pending_stream_config_idr (re_media env) epoch))))"

definition handle_stream_config ::
  "receiver_env \<Rightarrow> nat \<Rightarrow> stream_config \<Rightarrow> receiver_session \<Rightarrow> unit rv_outcome" where
  "handle_stream_config env session config s =
     (case map_err ProtocolError (validated_video_format (re_syntax env) config) of
        Err e \<Rightarrow> (s, Err e)
      | Panic \<Rightarrow> (s, Panic)
      | Ok f \<Rightarrow>
          (case rv_readiness s of
             DecoderPending \<Rightarrow> (keep_pending_config session config s, Ok ())
           | DecoderUnavailable error \<Rightarrow> (s, Err (DecodePlatform error))
           | DecoderCapable offers \<Rightarrow>
               (case admitted_budget offers f config s of
                  Err e \<Rightarrow> (s, Err e)
                | Panic \<Rightarrow> (s, Panic)
                | Ok budget \<Rightarrow> install_config env session config budget s)))"

definition finish_decoder_negotiation :: "receiver_env \<Rightarrow> receiver_session \<Rightarrow> unit rv_outcome" where
  "finish_decoder_negotiation env s =
     (case re_active env of
        None \<Rightarrow> (s, Ok ())
      | Some session \<Rightarrow>
          if \<not> rv_video_allowed s \<or> ms_control_generation (rv_media s) = None then (s, Ok ())
          else (case rv_readiness s of
                  DecoderPending \<Rightarrow> (s, Ok ())
                | DecoderUnavailable error \<Rightarrow>
                    apply_event_only env (AbortConnection session CloseDecoderUnavailable) s
                | DecoderCapable offers \<Rightarrow>
                    rv_then (announce_capabilities env s) (\<lambda>s1.
                      (case rv_pending_config s1 of
                         None \<Rightarrow> (s1, Ok ())
                       | Some p \<Rightarrow>
                           let s2 = s1 \<lparr> rv_pending_config := None \<rparr>
                           in if pk_session p = session \<and> pk_control_generation p = ms_control_generation (rv_media s2)
                              then (case handle_stream_config env session (pk_config p) s2 of
                                      (s3, Err e) \<Rightarrow> (reject_control_session env session s3, Err e)
                                    | out \<Rightarrow> out)
                              else (s2, Ok ())))))"

section \<open>The gate\<close>

definition control_phase_of :: "receiver_session \<Rightarrow> receiver_control_phase" where
  "control_phase_of s =
     (if rv_pending s \<noteq> None then PhasePairing
      else if ms_sender (rv_media s) = None then AwaitingClientHello
      else if is_streaming (rv_stream s) then PhaseStreaming
      else AuthenticatedIdle)"

text \<open>The three \<open>match\<close>es of \<open>handle_control\<close>; \<open>unreachable!\<close> is a panic.\<close>

definition dispatch_control ::
  "receiver_env \<Rightarrow> nat \<Rightarrow> control_payload \<Rightarrow> receiver_session \<Rightarrow> unit rv_outcome" where
  "dispatch_control env session payload s =
     (if rv_pending s \<noteq> None then
        (case payload of
           PairingCommitMsg commit \<Rightarrow> handle_pairing_commit env session commit s
         | PairingConfirmMsg confirm \<Rightarrow> handle_pairing_confirm env session confirm s
         | StartStreamMsg \<Rightarrow> handle_start_stream env session s
         | StopStreamMsg \<Rightarrow> handle_stop_stream env session s
         | _ \<Rightarrow> (s, Panic))
      else if ms_sender (rv_media s) = None then
        (case payload of
           ClientHelloMsg hello \<Rightarrow> handle_client_hello env session hello s
         | _ \<Rightarrow> (s, Panic))
      else if \<not> rv_video_allowed s then (s, Err (ProtocolError ''control payload requires an authenticated sender''))
      else
        (case payload of
           StartStreamMsg \<Rightarrow> handle_start_stream env session s
         | StopStreamMsg \<Rightarrow> handle_stop_stream env session s
         | SenderStatsMsg stats \<Rightarrow> handle_sender_stats stats s
         | StreamConfigMsg config \<Rightarrow> handle_stream_config env session config s
         | ClockSyncPongMsg pong \<Rightarrow>
             if is_streaming (rv_stream s) then (handle_clock_sync_pong env pong s, Ok ()) else (s, Panic)
         | _ \<Rightarrow> (s, Panic)))"

definition is_client_hello :: "control_payload option \<Rightarrow> bool" where
  "is_client_hello payload \<longleftrightarrow> (case payload of Some (ClientHelloMsg _) \<Rightarrow> True | _ \<Rightarrow> False)"

definition envelope_message :: "control_envelope_error \<Rightarrow> string" where
  "envelope_message e =
     (case e of EnvelopeDecode \<Rightarrow> ''control envelope decode''
      | MissingMessageId \<Rightarrow> ''control envelope message_id must be non-zero''
      | MissingConnectionGeneration \<Rightarrow> ''control envelope connection_generation must be non-zero''
      | MissingPayload \<Rightarrow> ''control envelope payload is missing'')"

definition admit_envelope ::
  "receiver_env \<Rightarrow> nat \<Rightarrow> control_envelope \<Rightarrow> receiver_session \<Rightarrow> unit rv_outcome" where
  "admit_envelope env session envelope s =
     (let generation = ms_control_generation (rv_media s)
      in if generation = None \<and> \<not> is_client_hello (ce_payload envelope)
      then (s, Err (ProtocolError ''ClientHello must be the first PCP control payload''))
      else
        let s1 = (if generation = None
                  then upd_media (\<lambda>m. m \<lparr> ms_control_generation := Some (ce_connection_generation envelope) \<rparr>) s else s)
        in if ms_control_generation (rv_media s1) \<noteq> Some (ce_connection_generation envelope)
           then (s1, Err (ProtocolError ''stale control connection_generation''))
           else if ce_message_id envelope \<le> ms_last_message_id (rv_media s1)
           then (s1, Err (ProtocolError ''duplicate or out-of-order control message_id''))
           else
             let s2 = upd_media (\<lambda>m. m \<lparr> ms_last_message_id := ce_message_id envelope \<rparr>) s1
             in (case ce_payload envelope of
                   None \<Rightarrow> (s2, Panic)
                 | Some payload \<Rightarrow>
                     if \<not> receiver_payload_allowed (control_phase_of s2) payload
                     then (s2, Err (ProtocolError ''control payload is not allowed in the current receiver phase''))
                     else dispatch_control env session payload s2))"

definition handle_control :: "receiver_env \<Rightarrow> nat \<Rightarrow> bytes \<Rightarrow> receiver_session \<Rightarrow> unit rv_outcome" where
  "handle_control env session msg s =
     (if re_active env \<noteq> Some session
      then (s, Err (ProtocolError ''control event does not belong to the active transport session''))
      else (case map_err (\<lambda>e. ProtocolError (envelope_message e)) (decode_control_envelope (re_prost env) msg) of
              Err e \<Rightarrow> (s, Err e)
            | Panic \<Rightarrow> (s, Panic)
            | Ok envelope \<Rightarrow> admit_envelope env session envelope s))"

section \<open>Decoder events\<close>

datatype decoder_event =
    DecoderCapabilities "(capabilities, string) result"
  | DecoderStarted
  | DecoderCompleted access_unit_timeline u64 nat "(decode_outcome, string) result"
  | DecoderGone string

fun handle_decoder_event :: "receiver_env \<Rightarrow> decoder_event \<Rightarrow> receiver_session \<Rightarrow> unit rv_outcome" where
  "handle_decoder_event env (DecoderCapabilities result) s =
     (let s1 = s \<lparr> rv_capabilities_sent := False \<rparr>
      in case result of
           Ok caps \<Rightarrow> (s1 \<lparr> rv_readiness := DecoderCapable caps \<rparr>, Ok ())
         | Err error \<Rightarrow> (s1 \<lparr> rv_readiness := DecoderUnavailable error \<rparr>, Ok ())
         | Panic \<Rightarrow> (s1, Panic))"
| "handle_decoder_event env DecoderStarted s =
     (upd_media (count_ingress (\<lambda>i. i \<lparr> is_decode_invocations := sat_add64 (is_decode_invocations i) 1 \<rparr>)) s, Ok ())"
| "handle_decoder_event env (DecoderCompleted t generation decode_time_us result) s =
     on_media (handle_completion (re_media env) t generation decode_time_us result) s"
| "handle_decoder_event env (DecoderGone error) s =
     (s \<lparr> rv_readiness := DecoderUnavailable error, rv_capabilities_sent := False \<rparr>, Ok ())"

fun drain_decoder_events :: "receiver_env \<Rightarrow> decoder_event list \<Rightarrow> receiver_session \<Rightarrow> unit rv_outcome" where
  "drain_decoder_events env [] s = finish_decoder_negotiation env s"
| "drain_decoder_events env (e # es) s = rv_then (handle_decoder_event env e s) (drain_decoder_events env es)"

section \<open>Transport events\<close>

text \<open>A control message: errors close the connection and are reported.\<close>

definition handle_control_event :: "receiver_env \<Rightarrow> nat \<Rightarrow> bytes \<Rightarrow> receiver_session \<Rightarrow> unit rv_outcome" where
  "handle_control_event env session msg s =
     (case apply_receiver_event env (RxControlReceived session) s of
        (s1, Ok effects) \<Rightarrow>
          if RxAcceptControl \<in> set effects
          then (case handle_control env session msg s1 of
                  (s2, Err e) \<Rightarrow> (reject_control_session env session s2, Err e)
                | out \<Rightarrow> out)
          else (s1, Ok ())
      | (s1, Err e) \<Rightarrow> (s1, Err e)
      | (s1, Panic) \<Rightarrow> (s1, Panic))"

fun ingest_batch :: "receiver_env \<Rightarrow> rs_codec \<Rightarrow> nat \<Rightarrow> video_packet list \<Rightarrow> receiver_session \<Rightarrow> unit rv_outcome" where
  "ingest_batch env rs received_at [] s = (s, Ok ())"
| "ingest_batch env rs received_at (p # ps) s =
     rv_then (on_media (ingest_video_packet (re_media env) rs p received_at) s) (ingest_batch env rs received_at ps)"

definition take_video_batch ::
  "receiver_env \<Rightarrow> rs_codec \<Rightarrow> video_packet list \<Rightarrow> nat \<Rightarrow> receiver_session \<Rightarrow> unit rv_outcome" where
  "take_video_batch env rs packets received_at s =
     (let queue_age = re_now env - received_at;
          s1 = upd_media (\<lambda>m. m \<lparr> ms_stats := record_receive_queue_age queue_age (ms_stats m) \<rparr>) s
      in case media_deadline (re_media env) (rv_media s1) of
           Err e \<Rightarrow> (s1, Err e)
         | Panic \<Rightarrow> (s1, Panic)
         | Ok deadline \<Rightarrow>
             if queue_age \<ge> deadline then on_media (discard_stale_video_batch (re_media env) packets) s1
             else ingest_batch env rs received_at packets s1)"

text \<open>\<open>None\<close> is a playout loop that does not end; \<open>drain_jitter_returns\<close> excludes it.\<close>

definition handle_video_event ::
  "receiver_env \<Rightarrow> rs_codec \<Rightarrow> nat \<Rightarrow> video_packet list \<Rightarrow> nat \<Rightarrow> receiver_session \<Rightarrow> unit rv_outcome option" where
  "handle_video_event env rs session packets received_at s =
     (case apply_receiver_event env (RxVideoReceived session) s of
        (s1, Ok effects) \<Rightarrow>
          if RxAcceptVideo \<in> set effects
          then (case take_video_batch env rs packets received_at s1 of
                  (s2, Ok u) \<Rightarrow> map_option (\<lambda>(m, r). (s2 \<lparr> rv_media := m \<rparr>, r)) (drain_jitter (re_media env) (rv_media s2))
                | out \<Rightarrow> Some out)
          else Some (s1, Ok ())
      | (s1, Err e) \<Rightarrow> Some (s1, Err e)
      | (s1, Panic) \<Rightarrow> Some (s1, Panic))"

definition handle_transport_event ::
  "receiver_env \<Rightarrow> rs_codec \<Rightarrow> transport_event \<Rightarrow> receiver_session \<Rightarrow> unit rv_outcome option" where
  "handle_transport_event env rs event s =
     (case event of
        TransportConnected session \<Rightarrow>
          if re_active env = Some session then Some (apply_event_only env (RxTransportConnected session) s)
          else Some (s, Ok ())
      | TransportDisconnected session \<Rightarrow>
          if re_active env = None
          then Some (apply_event_only env (RxTransportDisconnected session
                 (is_streaming (rv_stream s) \<and> re_latest env \<noteq> None \<and> rv_last_frame_hold s \<noteq> 0)) s)
          else Some (s, Ok ())
      | TransportControl session msg \<Rightarrow> Some (handle_control_event env session msg s)
      | TransportVideo session packets received_at \<Rightarrow> handle_video_event env rs session packets received_at s)"

end
