(* ===== verification/Receiver_Report.thy ===== *)
theory Receiver_Report
  imports Receiver_Control
begin

text \<open>
  The receiver's media report, sent once a second: \<open>crates/picoo-receiver/src/session/media_report.rs\<close>. The
  age of the newest frame is that of the native frame store.
\<close>

definition no_latency :: frame_latency_breakdown where
  "no_latency = \<lparr> fb_capture_to_encode_ms = None, fb_encode_to_arrival_ms = None, fb_jitter_residence_ms = None,
     fb_decode_ms = None, fb_frame_publish_age_ms = None, fb_end_to_end_latency_ms = None,
     fb_clock_uncertainty_ms = None \<rparr>"

definition latest_age_ms :: "receiver_env \<Rightarrow> f64" where
  "latest_age_ms env =
     (case re_latest env of
        None \<Rightarrow> Fin 0
      | Some frame \<Rightarrow> f64_mul (as_secs_f64 (re_now env - ft_decoded_at (lf_timeline frame))) (f64_lit 1000))"

definition latest_latency :: "receiver_env \<Rightarrow> receiver_session \<Rightarrow> frame_latency_breakdown" where
  "latest_latency env s =
     (case re_latest env of
        None \<Rightarrow> no_latency
      | Some frame \<Rightarrow> timeline_latency_breakdown (rv_clock s) (ms_timing_origin (rv_media s)) (lf_timeline frame)
          (lf_source_pts_us frame) (lf_stream_epoch frame) (micros_since_origin (re_now env) (rv_media s)))"

text \<open>The window: the counters since the last report, per second and as loss ratios.\<close>

definition window_elapsed :: "receiver_env \<Rightarrow> stats_reporter \<Rightarrow> f64" where
  "window_elapsed env r = f64_max (as_secs_f64 (re_now env - sr_last_sent r)) (f64_lit (1 / 1000))"

definition window_bitrate :: "receiver_env \<Rightarrow> stats_reporter \<Rightarrow> nat" where
  "window_bitrate env r =
     f64_to_nat (2 ^ 32 - 1) (f64_div (f64_mul (f64_of_nat (sr_window_bytes r)) (f64_lit 8)) (window_elapsed env r))"

definition window_fps :: "receiver_env \<Rightarrow> stats_reporter \<Rightarrow> nat" where
  "window_fps env r =
     f64_to_nat (2 ^ 32 - 1) (f64_round (f64_div (f64_of_nat (sr_window_decoded_frames r)) (window_elapsed env r)))"

definition window_resolved :: "media_session \<Rightarrow> nat" where
  "window_resolved m = rm_resolved_fragments (ms_reassembly m) - sr_last_resolved_fragments (ms_stats m)"

definition window_missing :: "media_session \<Rightarrow> nat" where
  "window_missing m = rm_missing_fragments (ms_reassembly m) - sr_last_missing_fragments (ms_stats m)"

definition window_recovered :: "media_session \<Rightarrow> nat" where
  "window_recovered m = rm_fec_recovered (ms_reassembly m) - sr_last_fec_recovered_fragments (ms_stats m)"

definition window_loss :: "media_session \<Rightarrow> f64" where
  "window_loss m = observed_fragment_loss_ratio (window_resolved m) (window_missing m)"

definition report_message :: "receiver_env \<Rightarrow> timing_stats \<Rightarrow> receiver_session \<Rightarrow> receiver_stats_message" where
  "report_message env timing s =
     (let m = rv_media s; latency = latest_latency env s
      in \<lparr> rsm_rtt_ms = (case en_rtt_ms (re_media env) of None \<Rightarrow> Fin 0 | Some rtt \<Rightarrow> rtt),
           rsm_packet_loss = window_loss m, rsm_jitter_ms = interarrival_ms (ms_interarrival m),
           rsm_reassembly_drop = rm_drops (ms_reassembly m) - sr_last_reassembly_drops (ms_stats m),
           rsm_decoder_drop = sr_window_decoder_drops (ms_stats m), rsm_frame_age_ms = latest_age_ms env,
           rsm_receive_bitrate = window_bitrate env (ms_stats m),
           rsm_jitter_buffer_target_ms = ts_target_delay_ms timing,
           rsm_jitter_buffer_actual_delay_ms = ts_actual_delay_ms timing,
           rsm_jitter_buffer_occupancy_ms = ts_occupancy_ms timing,
           rsm_pre_fec_packet_loss =
             observed_fragment_loss_ratio (window_resolved m) (sat_add64 (window_missing m) (window_recovered m)),
           rsm_capture_to_encode_ms = fb_capture_to_encode_ms latency,
           rsm_encode_to_arrival_ms = fb_encode_to_arrival_ms latency,
           rsm_jitter_residence_ms = fb_jitter_residence_ms latency, rsm_decode_ms = fb_decode_ms latency,
           rsm_frame_publish_age_ms = fb_frame_publish_age_ms latency,
           rsm_end_to_end_latency_ms = fb_end_to_end_latency_ms latency,
           rsm_clock_uncertainty_ms = fb_clock_uncertainty_ms latency,
           rsm_receive_queue_age_ms = sr_window_max_receive_queue_age_ms (ms_stats m) \<rparr>)"

text \<open>The desktop's view: the message with the sender's own statistics.\<close>

definition desktop_stats :: "receiver_stats_message \<Rightarrow> sender_stats option \<Rightarrow> receiver_stats" where
  "desktop_stats m sender =
     \<lparr> st_rtt_ms = rsm_rtt_ms m, st_packet_loss = rsm_packet_loss m, st_jitter_ms = rsm_jitter_ms m,
       st_reassembly_drop = rsm_reassembly_drop m, st_decoder_drop = rsm_decoder_drop m,
       st_frame_age_ms = rsm_frame_age_ms m, st_receive_bitrate = rsm_receive_bitrate m,
       st_jitter_buffer_target_ms = rsm_jitter_buffer_target_ms m,
       st_jitter_buffer_actual_delay_ms = rsm_jitter_buffer_actual_delay_ms m,
       st_jitter_buffer_occupancy_ms = rsm_jitter_buffer_occupancy_ms m,
       st_capture_to_encode_ms = rsm_capture_to_encode_ms m, st_encode_to_arrival_ms = rsm_encode_to_arrival_ms m,
       st_jitter_residence_ms = rsm_jitter_residence_ms m, st_decode_ms = rsm_decode_ms m,
       st_frame_publish_age_ms = rsm_frame_publish_age_ms m,
       st_end_to_end_latency_ms = rsm_end_to_end_latency_ms m,
       st_clock_uncertainty_ms = rsm_clock_uncertainty_ms m,
       st_receive_queue_age_ms = rsm_receive_queue_age_ms m,
       st_sender_queue_age_ms = (case sender of None \<Rightarrow> Fin 0 | Some x \<Rightarrow> st_video_queue_age_ms x),
       st_sender_queue_dropped_access_units = (case sender of None \<Rightarrow> 0 | Some x \<Rightarrow> st_video_dropped_access_units x),
       st_sender_quic_lost_packets = (case sender of None \<Rightarrow> 0 | Some x \<Rightarrow> st_quic_lost_packets x),
       st_sender_quic_sent_packets = (case sender of None \<Rightarrow> 0 | Some x \<Rightarrow> st_quic_sent_packets x),
       st_sender_video_buffered_bytes = (case sender of None \<Rightarrow> 0 | Some x \<Rightarrow> st_video_buffered_bytes x) \<rparr>"

text \<open>After a report the window starts again from the counters of the reassembly.\<close>

definition restart_window :: "nat \<Rightarrow> media_session \<Rightarrow> media_session" where
  "restart_window now m =
     m \<lparr> ms_stats := \<lparr> sr_last_sent = now, sr_window_bytes = 0, sr_last_reassembly_drops = rm_drops (ms_reassembly m),
           sr_last_missing_fragments = rm_missing_fragments (ms_reassembly m),
           sr_last_resolved_fragments = rm_resolved_fragments (ms_reassembly m),
           sr_last_fec_recovered_fragments = rm_fec_recovered (ms_reassembly m),
           sr_window_decoder_drops = 0, sr_window_decoded_frames = 0, sr_window_max_receive_queue_age_ms = Fin 0 \<rparr> \<rparr>"

definition send_report :: "receiver_env \<Rightarrow> receiver_session \<Rightarrow> unit rv_outcome" where
  "send_report env s =
     (let (jitter, timing) = take_timing_stats (ms_jitter (rv_media s));
          message = report_message env timing s;
          packet_loss = window_loss (rv_media s);
          s1 = upd_media (\<lambda>m. m \<lparr> ms_jitter := jitter \<rparr>) s
                 \<lparr> rv_last_decoded_fps := window_fps env (ms_stats (rv_media s)),
                   rv_last_stats := Some (desktop_stats message (rv_sender_stats s)),
                   rv_last_stats_revision := sat_add64 (rv_last_stats_revision s) 1 \<rparr>
      in rv_then (rv_send env (ReceiverStatsMsg message) s1)
           (\<lambda>s2. (upd_media (restart_window (re_now env)) (observe_network_packet_loss env packet_loss s2), Ok ())))"

definition maybe_send_receiver_stats :: "receiver_env \<Rightarrow> receiver_session \<Rightarrow> unit rv_outcome" where
  "maybe_send_receiver_stats env s =
     (if \<not> is_streaming (rv_stream s) \<or> \<not> stats_due (re_now env) (ms_stats (rv_media s)) then (s, Ok ())
      else if re_active env = None then (s, Err NotListening)
      else send_report env s)"

end
