(* ===== verification/Receiver_Owner.thy ===== *)
theory Receiver_Owner
  imports Receiver_Report
begin

text \<open>
  What the receiver's operations outside pairing do to the authenticated sender, the open challenge and
  the trust store: they keep them, or end the connection and leave neither sender nor challenge.
\<close>

section \<open>The media path leaves the sender alone\<close>

definition owner :: "media_session \<Rightarrow> active_sender option" where
  "owner m = ms_sender m"

named_theorems owner_simps \<open>operations that keep the sender of the session\<close>

lemma and_then_owner: "(\<And>s. owner (fst (f s)) = owner s) \<Longrightarrow> owner (fst (and_then out f)) = owner (fst out)"
  by (simp add: and_then_def split: result.split)

lemma owner_upd [owner_simps]:
  "owner (count_ingress f m) = owner m" "owner (m \<lparr> ms_jitter := j \<rparr>) = owner m"
  "owner (m \<lparr> ms_recovery := r \<rparr>) = owner m" "owner (m \<lparr> ms_reassembly := rm \<rparr>) = owner m"
  "owner (m \<lparr> ms_queue := q \<rparr>) = owner m" "owner (m \<lparr> ms_runtime := rt \<rparr>) = owner m"
  "owner (m \<lparr> ms_stats := st \<rparr>) = owner m" "owner (m \<lparr> ms_pending_idr := au \<rparr>) = owner m"
  "owner (m \<lparr> ms_waiting_epoch := w \<rparr>) = owner m" "owner (m \<lparr> ms_interarrival := ij \<rparr>) = owner m"
  "owner (m \<lparr> ms_next_message_id := n \<rparr>) = owner m" "owner (m \<lparr> ms_sent := l \<rparr>) = owner m"
  "owner (m \<lparr> ms_published := p \<rparr>) = owner m" "owner (m \<lparr> ms_completions := c \<rparr>) = owner m"
  "owner (m \<lparr> ms_completions_skipped := k \<rparr>) = owner m" "owner (m \<lparr> ms_config := cfg \<rparr>) = owner m"
  "owner (m \<lparr> ms_control_generation := g \<rparr>) = owner m" "owner (m \<lparr> ms_last_message_id := i \<rparr>) = owner m"
  "owner (m \<lparr> ms_config_revision := rv \<rparr>) = owner m" "owner (m \<lparr> ms_budget := b \<rparr>) = owner m"
  by (simp_all add: owner_def count_ingress_def)

lemma send_owner [owner_simps]: "owner (fst (send_control_payload env payload m)) = owner m"
  by (simp add: send_control_payload_def owner_simps Let_def split: option.split)

lemma request_owner [owner_simps]:
  "owner (fst (send_request_keyframe_now env m)) = owner m"
  "owner (fst (maybe_request_recovery_keyframe env m)) = owner m"
  by (simp_all add: send_request_keyframe_now_def maybe_request_recovery_keyframe_def and_then_owner owner_simps
      split: option.split)

lemma recovery_owner [owner_simps]:
  "owner (show_awaiting m) = owner m" "owner (discard_dependent_media m) = owner m"
  "owner (reset_decoder_worker m) = owner m" "owner (fst (enter_decoder_recovery env reason rst m)) = owner m"
  "owner (mark_decoder_refresh_accepted t m) = owner m"
  "owner (fst (force_decoder_recovery_request env reason m)) = owner m"
  "owner (fst (request_keyframe env m)) = owner m"
proof -
  show sh: "owner (show_awaiting m) = owner m" for m by (simp add: show_awaiting_def owner_simps)
  show di: "owner (discard_dependent_media m) = owner m" for m by (simp add: discard_dependent_media_def owner_def)
  show re: "owner (reset_decoder_worker m) = owner m" for m by (simp add: reset_decoder_worker_def owner_simps)
  show "owner (fst (enter_decoder_recovery env reason rst m)) = owner m"
    by (simp add: enter_decoder_recovery_def owner_simps sh di re Let_def split: prod.split)
  show "owner (mark_decoder_refresh_accepted t m) = owner m"
    by (simp add: mark_decoder_refresh_accepted_def owner_simps Let_def split: prod.split stream_state.split)
  show fo: "owner (fst (force_decoder_recovery_request env reason m)) = owner m" for reason
    by (simp add: force_decoder_recovery_request_def owner_simps sh di and_then_owner Let_def split: prod.split option.split)
  show "owner (fst (request_keyframe env m)) = owner m" by (simp add: request_keyframe_def fo)
qed

lemma take_loss_owner [owner_simps]: "owner (snd (take_loss m)) = owner m"
  by (simp add: take_loss_def owner_simps split: prod.split)

lemma take_loss_pair: "take_loss m = (loss, m') \<Longrightarrow> owner m' = owner m"
  by (metis take_loss_owner snd_conv)

lemma count_drops_owner [owner_simps]: "owner (count_drops before m) = owner m"
  by (simp add: count_drops_def owner_simps)

lemma expire_owner [owner_simps]: "owner (fst (expire_reassembly_deadline env m)) = owner m"
proof (cases "media_deadline env m")
  case (Ok deadline)
  let ?m1 = "m \<lparr> ms_reassembly := expire_incomplete_older_than (en_now env) deadline (ms_reassembly m) \<rparr>"
  obtain loss m2 where tl: "take_loss (count_drops (ms_reassembly m) ?m1) = (loss, m2)" by fastforce
  from take_loss_pair [OF this] have "owner m2 = owner m" by (simp only: owner_simps)
  then show ?thesis by (simp add: expire_reassembly_deadline_def Ok tl owner_simps)
qed (simp_all add: expire_reassembly_deadline_def)

lemma push_owner [owner_simps]: "owner (fst (push_assembled env au m)) = owner m"
  by (simp add: push_assembled_def owner_simps Let_def split: prod.split push_outcome.split)

lemma queue_owner [owner_simps]:
  "owner (fst (queue_assembled_access_unit env au m)) = owner m"
  "owner (fst (release_pending_stream_config_idr env epoch m)) = owner m"
proof -
  show q: "owner (fst (queue_assembled_access_unit env au m)) = owner m" for au m
    by (simp add: queue_assembled_access_unit_def and_then_owner owner_simps)
  show "owner (fst (release_pending_stream_config_idr env epoch m)) = owner m"
    by (simp add: release_pending_stream_config_idr_def q owner_simps split: option.split)
qed

lemma discard_stale_owner [owner_simps]: "owner (discard_stale ps terminated m) = owner m"
  by (induction ps terminated m rule: discard_stale.induct) (simp_all add: owner_simps Let_def split: prod.split)

lemma discard_batch_owner [owner_simps]: "owner (fst (discard_stale_video_batch env packets m)) = owner m"
proof -
  obtain loss m1 where tl: "take_loss (discard_stale packets [] m) = (loss, m1)" by fastforce
  from take_loss_pair [OF this] show ?thesis by (simp add: discard_stale_video_batch_def tl owner_simps)
qed

lemma route_owner: "route_epoch epoch m = Some (m', defer) \<Longrightarrow> owner m' = owner m"
  by (auto simp: route_epoch_def await_config_def owner_def Let_def split: option.splits if_splits)

lemma accept_owner [owner_simps]: "owner (fst (accept_assembled env defer au m)) = owner m"
  by (simp add: accept_assembled_def owner_simps)

lemma ingest_routed_owner [owner_simps]: "owner (fst (ingest_routed env rs packet received_at defer m)) = owner m"
proof -
  have loss: "owner (fst (let (loss, m4) = take_loss m3
       in if loss \<and> \<not> defer then enter_decoder_recovery env ReferenceAccessUnitLost True m4 else (m4, Ok ()))) = owner m3" for m3
    using take_loss_pair by (auto simp: owner_simps split: prod.split)
  obtain rm result where i: "ingest_at rs packet received_at
      (ms_reassembly (m \<lparr> ms_stats := record_packet (length (vp_payload packet)) (ms_stats m) \<rparr>)) = (rm, result)"
    by fastforce
  show ?thesis
    unfolding ingest_routed_def Let_def i prod.case
    by (subst and_then_owner [OF loss [unfolded Let_def]])
      (simp add: owner_simps count_ingested_def split: result.split option.split)
qed

lemma ingest_owner [owner_simps]: "owner (fst (ingest_video_packet env rs packet received_at m)) = owner m"
  unfolding ingest_video_packet_def
  by (subst and_then_owner) (auto simp: owner_simps Let_def dest: route_owner split: option.split)

lemma publish_owner [owner_simps]: "owner (fst (publish_timeline_access_unit env au m)) = owner m"
  by (simp add: publish_timeline_access_unit_def owner_simps Let_def split: prod.split decode_submit_outcome.split)

lemma drain_step_owner [owner_simps]: "owner (fst (drain_step env now_us age m)) = owner m"
  by (simp add: drain_step_def owner_simps and_then_owner Let_def split: media_schedule_decision.split prod.split option.split)

lemma drain_loop_owner:
  assumes "drain_loop env now_us age m = Some out"
  shows "owner (fst out) = owner m"
proof (rule drain_loop.raw_induct [where P = "\<lambda>env now_us age m out. owner (fst out) = owner m", OF _ assms])
  fix loop :: "media_env \<Rightarrow> nat \<Rightarrow> nat \<Rightarrow> media_session \<Rightarrow> unit outcome option"
  fix env now_us age m out
  assume ih: "\<And>env now_us age m out. loop env now_us age m = Some out \<Longrightarrow> owner (fst out) = owner m"
  assume step: "(case drain_step env now_us age m of
      (m1, Ok continue) \<Rightarrow> if continue then loop env now_us age m1 else Some (m1, Ok ())
    | (m1, Err e) \<Rightarrow> Some (m1, Err e) | (m1, Panic) \<Rightarrow> Some (m1, Panic)) = Some out"
  obtain m1 r1 where m1: "drain_step env now_us age m = (m1, r1)" by fastforce
  then have "owner m1 = owner m" using drain_step_owner [of env now_us age m] by simp
  with ih [of env now_us age m1 out] step m1 show "owner (fst out) = owner m"
    by (cases r1) (auto split: if_splits)
qed

lemma drain_owner: "drain_jitter env m = Some out \<Longrightarrow> owner (fst out) = owner m"
  by (auto simp: drain_jitter_def drain_loop_owner split: result.splits)

lemma publish_outputs_owner [owner_simps]: "owner (fst (publish_outputs env outputs m)) = owner m"
proof (induction outputs arbitrary: m)
  case (Cons p ps)
  have "owner (fst (publish_output p m)) = owner m"
    by (simp add: publish_output_def count_ingress_def owner_def)
  with Cons show ?case by (simp add: and_then_owner note_decode_skip_def owner_simps)
qed simp

lemma completion_owner [owner_simps]:
  "owner (fst (handle_completion env t generation decode_time_us result m)) = owner m"
proof -
  have "owner (fst (handle_decoder_result env t result m)) = owner m" for m
    by (simp add: handle_decoder_result_def owner_simps split: result.split)
  moreover have "owner (m \<lparr> ms_completions := c, ms_jitter := j \<rparr>) = owner m" for c j by (simp add: owner_def)
  ultimately show ?thesis by (simp add: handle_completion_def note_decode_skip_def owner_simps Let_def)
qed

section \<open>What each operation of the session may change\<close>

text \<open>
  The core of the session is what consent is about. An operation outside pairing keeps it, or ends
  the connection and leaves no sender and no challenge.
\<close>

definition core ::
  "receiver_session \<Rightarrow> (active_sender option \<times> pending_pairing option) \<times> trusted_store \<times> device_identity" where
  "core s = ((ms_sender (rv_media s), rv_pending s), rv_trusted s, rv_identity s)"

definition settles :: "receiver_session \<Rightarrow> receiver_session \<Rightarrow> bool" where
  "settles s s' \<longleftrightarrow> snd (core s') = snd (core s) \<and> (fst (core s') = fst (core s) \<or> fst (core s') = (None, None))"

named_theorems core_simps \<open>operations that keep the core\<close>

lemma settles_refl [simp]: "settles s s"
  by (simp add: settles_def)

lemma settles_trans: "settles s s1 \<Longrightarrow> settles s1 s2 \<Longrightarrow> settles s s2"
  by (auto simp: settles_def)

lemma core_settles: "core s' = core s \<Longrightarrow> settles s s'"
  by (simp add: settles_def)

lemma settles_core: "core s1 = core s \<Longrightarrow> settles s1 s' \<longleftrightarrow> settles s s'"
  by (simp add: settles_def)

lemma core_upd [core_simps]:
  "owner m = owner (rv_media s) \<Longrightarrow> core (s \<lparr> rv_media := m \<rparr>) = core s"
  "owner (f (rv_media s)) = owner (rv_media s) \<Longrightarrow> core (upd_media f s) = core s"
  "core (upd_runtime g s) = core s"
  "core (s \<lparr> rv_placeholder_after := pa \<rparr>) = core s" "core (s \<lparr> rv_placeholders := pl \<rparr>) = core s"
  "core (s \<lparr> rv_closed := cl \<rparr>) = core s" "core (s \<lparr> rv_clock := clk \<rparr>) = core s"
  "core (s \<lparr> rv_sender_stats := st \<rparr>) = core s" "core (s \<lparr> rv_readiness := rd \<rparr>) = core s"
  "core (s \<lparr> rv_capabilities_sent := cs \<rparr>) = core s" "core (s \<lparr> rv_pending_config := pc \<rparr>) = core s"
  "core (s \<lparr> rv_health := h \<rparr>) = core s" "core (s \<lparr> rv_last_stats := ls \<rparr>) = core s"
  "core (s \<lparr> rv_last_stats_revision := lr \<rparr>) = core s" "core (s \<lparr> rv_last_decoded_fps := fps \<rparr>) = core s"
  by (simp_all add: core_def owner_def upd_media_def upd_runtime_def)

lemma on_media_core: "(\<And>m. owner (fst (f m)) = owner m) \<Longrightarrow> core (fst (on_media f s)) = core s"
proof -
  assume f: "\<And>m. owner (fst (f m)) = owner m"
  show ?thesis using f [of "rv_media s"] by (cases "f (rv_media s)") (simp add: on_media_def core_upd(1))
qed

lemma rv_send_core [core_simps]: "core (fst (rv_send env payload s)) = core s"
  unfolding rv_send_def by (rule on_media_core) (rule send_owner)

lemma rv_then_core: "(\<And>s. core (fst (f s)) = core s) \<Longrightarrow> core (fst (rv_then out f)) = core (fst out)"
  by (simp add: rv_then_def split: result.split)

lemma rv_then_settles:
  "settles s (fst out) \<Longrightarrow> (\<And>s1. settles s1 (fst (f s1))) \<Longrightarrow> settles s (fst (rv_then out f))"
  by (auto simp: rv_then_def split: result.split intro: settles_trans)

lemma effect_settles: "settles s (fst (run_receiver_effect env e s))"
proof (cases e)
  case RxResetSessionResources
  then show ?thesis
    by (simp add: settles_def core_def reset_receiver_resources_def reset_network_health_def upd_media_def
        upd_runtime_def reset_session_resources_def)
qed (simp_all add: settles_def core_def upd_media_def Let_def)

lemma effects_settle: "settles s (fst (run_receiver_effects env es s))"
  by (induction es arbitrary: s) (simp_all add: rv_then_settles effect_settles)

lemma set_lifecycle_core [core_simps]: "core (set_lifecycle l s) = core s"
  by (simp add: set_lifecycle_def core_def upd_runtime_def upd_media_def)

lemma apply_event_settles: "settles s (fst (apply_receiver_event env e s))"
proof -
  obtain l fx where r: "receiver_reduce (lifecycle_of s) e = (l, fx)" by fastforce
  have "settles (set_lifecycle l s) (fst (run_receiver_effects env (effect_items fx) (set_lifecycle l s)))"
    by (rule effects_settle)
  then have "settles s (fst (run_receiver_effects env (effect_items fx) (set_lifecycle l s)))"
    by (simp only: settles_core [OF set_lifecycle_core])
  then show ?thesis by (simp add: apply_receiver_event_def r rv_then_settles)
qed

lemma apply_only_settles: "settles s (fst (apply_event_only env e s))"
  using apply_event_settles [of s env e] by (cases "apply_receiver_event env e s") (simp add: apply_event_only_def)

lemma reject_settles: "settles s (reject_control_session env session s)"
  by (simp add: reject_control_session_def apply_event_settles)

lemma begin_streaming_core [core_simps]: "core (begin_streaming session s) = core s"
  by (simp add: begin_streaming_def core_simps)

section \<open>Operations outside pairing\<close>

lemma control_core [core_simps]:
  "core (fst (handle_sender_stats stats s)) = core s"
  "core (fst (handle_start_stream env session s)) = core s"
  "core (fst (send_capabilities env s)) = core s"
  "core (fst (announce_capabilities env s)) = core s"
  "core (keep_pending_config session config s) = core s"
  "core (start_negotiated session s) = core s" "core (show_negotiating s) = core s"
  "core (handle_clock_sync_pong env pong s) = core s"
  "core (fst (maybe_send_clock_sync env s)) = core s"
  "core (observe_network_packet_loss env loss s) = core s"
  "core (fst (send_camera_command env command s)) = core s"
proof -
  show "core (fst (handle_sender_stats stats s)) = core s" by (simp add: handle_sender_stats_def core_simps)
  show "core (fst (handle_start_stream env session s)) = core s"
    by (simp add: handle_start_stream_def core_simps owner_simps)
  show send: "core (fst (send_capabilities env s)) = core s" for s
    by (simp add: send_capabilities_def core_simps split: decoder_readiness.split)
  show "core (fst (announce_capabilities env s)) = core s"
    by (simp add: announce_capabilities_def rv_then_core core_simps send)
  show "core (keep_pending_config session config s) = core s" by (simp add: keep_pending_config_def core_simps Let_def)
  show "core (start_negotiated session s) = core s" by (simp add: start_negotiated_def core_simps)
  show "core (show_negotiating s) = core s" by (simp add: show_negotiating_def core_simps)
  show "core (handle_clock_sync_pong env pong s) = core s" by (simp add: handle_clock_sync_pong_def core_simps)
  show "core (fst (maybe_send_clock_sync env s)) = core s"
    by (simp add: maybe_send_clock_sync_def Let_def core_simps split: prod.split option.split)
  show "core (observe_network_packet_loss env loss s) = core s"
    by (simp add: observe_network_packet_loss_def core_simps Let_def)
  show "core (fst (send_camera_command env command s)) = core s"
    by (simp add: send_camera_command_def core_simps owner_simps)
qed

lemma commit_config_core [core_simps]: "core (commit_config env config budget s) = core s"
proof -
  have "owner (commit_waiting epoch m) = owner m" for epoch m
    by (simp add: commit_waiting_def owner_def split: option.split)
  then show ?thesis by (simp add: commit_config_def Let_def core_simps owner_simps)
qed

lemma install_config_core [core_simps]: "core (fst (install_config env session config budget s)) = core s"
proof -
  have tail: "core (fst (rv_then (if b then on_media (enter_decoder_recovery e r rst) s2 else (s2, Ok ()))
      (on_media (release_pending_stream_config_idr e epoch)))) = core s2" for b e r rst s2 epoch
    by (subst rv_then_core) (simp_all add: on_media_core owner_simps)
  show ?thesis by (simp add: install_config_def Let_def rv_then_core tail core_simps)
qed

lemma stream_config_core [core_simps]: "core (fst (handle_stream_config env session config s)) = core s"
  by (simp add: handle_stream_config_def core_simps split: result.split decoder_readiness.split)

lemma report_core [core_simps]: "core (fst (maybe_send_receiver_stats env s)) = core s"
proof -
  have restart: "owner (restart_window now m) = owner m" for now m by (simp add: restart_window_def owner_simps)
  have "core (fst (send_report env s)) = core s"
  proof (cases "take_timing_stats (ms_jitter (rv_media s))")
    case (Pair jitter timing)
    then show ?thesis by (simp add: send_report_def Let_def rv_then_core core_simps owner_simps restart)
  qed
  then show ?thesis by (simp add: maybe_send_receiver_stats_def)
qed

lemma stop_stream_settles: "settles s (fst (handle_stop_stream env session s))"
  by (simp add: handle_stop_stream_def apply_only_settles core_settles core_simps owner_simps)

lemma negotiation_settles: "settles s (fst (finish_decoder_negotiation env s))"
proof -
  have conf: "settles s s3 \<and> settles s (reject_control_session env session s3)"
    if "handle_stream_config env session config (s \<lparr> rv_pending_config := None \<rparr>) = (s3, r)" for s s3 session config r
  proof -
    have "core s3 = core s"
      using stream_config_core [of env session config "s \<lparr> rv_pending_config := None \<rparr>"] that by (simp add: core_simps)
    then show ?thesis using reject_settles [of s3 env session] by (simp add: core_settles settles_def)
  qed
  have pend: "settles s (s \<lparr> rv_pending_config := None \<rparr>)" for s by (simp add: core_settles core_simps)
  show ?thesis
    unfolding finish_decoder_negotiation_def
    by (auto simp: apply_only_settles core_settles core_simps Let_def pend dest!: conf
        intro!: rv_then_settles split: option.split decoder_readiness.split prod.split result.split)
qed

lemma decoder_events_settle: "settles s (fst (drain_decoder_events env events s))"
proof (induction events arbitrary: s)
  case (Cons e events)
  have "core (fst (handle_decoder_event env e s)) = core s"
    by (cases e) (simp_all add: core_simps owner_simps on_media_core Let_def split: result.split)
  with Cons show ?case by (simp add: rv_then_settles core_settles)
qed (simp add: negotiation_settles)

lemma batch_core: "core (fst (ingest_batch env rs received_at ps s)) = core s"
  by (induction ps arbitrary: s) (simp_all add: rv_then_core on_media_core owner_simps)

lemma take_batch_core: "core (fst (take_video_batch env rs packets received_at s)) = core s"
  by (simp add: take_video_batch_def Let_def batch_core on_media_core owner_simps core_simps split: result.split)

lemma drained_core:
  "drain_jitter env (rv_media s) = Some (m, r) \<Longrightarrow> core (s \<lparr> rv_media := m \<rparr>) = core s"
  using drain_owner [of env "rv_media s"] by (simp add: core_simps)

lemma video_settles: "handle_video_event env rs session packets received_at s = Some out \<Longrightarrow> settles s (fst out)"
proof -
  assume out: "handle_video_event env rs session packets received_at s = Some out"
  obtain s1 r1 where a: "apply_receiver_event env (RxVideoReceived session) s = (s1, r1)" by fastforce
  obtain s2 r2 where t: "take_video_batch env rs packets received_at s1 = (s2, r2)" by fastforce
  have s1: "settles s s1" using apply_event_settles [of s env "RxVideoReceived session"] a by simp
  have s2: "settles s s2" using s1 take_batch_core [of env rs packets received_at s1] t by (simp add: settles_def)
  have "settles s (s2 \<lparr> rv_media := m \<rparr>)" if "drain_jitter (re_media env) (rv_media s2) = Some (m, r)" for m r
    using s2 drained_core [OF that] by (simp add: settles_def)
  with out s1 s2 show ?thesis
    by (auto simp: handle_video_event_def a t split: result.splits if_splits)
qed

end
