(* ===== verification/Receiver_Run.thy ===== *)
theory Receiver_Run
  imports Receiver_Owner
begin

text \<open>
  Everything that can happen to a receiver session, as one datatype of inputs, and runs over them: the
  commands of the desktop (\<open>session/mod.rs\<close>, \<open>session/pairing.rs\<close>) and the turns of \<open>pump\<close>
  (\<open>session/transport_events.rs\<close>). Each input carries the environment the operation reads.
\<close>

section \<open>Settings\<close>

definition with_loaded_trusted_store :: "trusted_store \<Rightarrow> receiver_session \<Rightarrow> receiver_session" where
  "with_loaded_trusted_store store s = s \<lparr> rv_trusted := store, rv_has_store_path := True \<rparr>"

definition set_auto_accept_paired :: "bool \<Rightarrow> receiver_session \<Rightarrow> receiver_session" where
  "set_auto_accept_paired enabled s = s \<lparr> rv_auto_accept := enabled \<rparr>"

definition set_advertised_max_height :: "nat \<Rightarrow> receiver_session \<Rightarrow> receiver_session" where
  "set_advertised_max_height height s = s \<lparr> rv_max_height := (if height \<le> 720 then 720 else 1080) \<rparr>"

definition set_display_name :: "string \<Rightarrow> receiver_session \<Rightarrow> receiver_session" where
  "set_display_name name s = s \<lparr> rv_identity := set_device_name name (rv_identity s) \<rparr>"

definition mark_virtual_camera_unavailable :: "receiver_session \<Rightarrow> receiver_session" where
  "mark_virtual_camera_unavailable =
     upd_runtime (\<lambda>rt. if rt_output rt \<noteq> OutputPermissionRequired then set_output OutputVirtualCameraUnavailable rt else rt)"

definition clear_virtual_camera_unavailable :: "receiver_session \<Rightarrow> receiver_session" where
  "clear_virtual_camera_unavailable =
     upd_runtime (\<lambda>rt. if rt_output rt = OutputVirtualCameraUnavailable then set_output OutputReady rt else rt)"

definition mark_permission_required :: "receiver_session \<Rightarrow> receiver_session" where
  "mark_permission_required = upd_runtime (set_output OutputPermissionRequired)"

section \<open>Inputs and runs\<close>

datatype receiver_input =
    InTransport rs_codec transport_event
  | InDecoder "decoder_event list"
  | InExpirePairing
  | InExpireReassembly
  | InDrain
  | InRecovery
  | InFinalizeHold
  | InReport
  | InClockSync
  | InConfirm
  | InReject
  | InListen bool
  | InClose
  | InCamera camera_command
  | InKeyframe
  | InRemove string
  | InClear
  | InReplace nat
  | InDismiss nat
  | InAutoAccept bool
  | InMaxHeight nat
  | InDisplayName string
  | InCameraUnavailable
  | InCameraAvailable
  | InPermissionRequired

definition forget :: "'a rv_outcome \<Rightarrow> unit rv_outcome" where
  "forget out = (fst out, case snd out of Ok _ \<Rightarrow> Ok () | Err e \<Rightarrow> Err e | Panic \<Rightarrow> Panic)"

definition drain_session :: "receiver_env \<Rightarrow> receiver_session \<Rightarrow> unit rv_outcome option" where
  "drain_session env s = map_option (\<lambda>(m, r). (s \<lparr> rv_media := m \<rparr>, r)) (drain_jitter (re_media env) (rv_media s))"

text \<open>\<open>None\<close> is a playout loop that does not end.\<close>

fun receiver_step :: "receiver_env \<Rightarrow> receiver_input \<Rightarrow> receiver_session \<Rightarrow> unit rv_outcome option" where
  "receiver_step env (InTransport rs event) s = handle_transport_event env rs event s"
| "receiver_step env (InDecoder events) s = Some (drain_decoder_events env events s)"
| "receiver_step env InExpirePairing s = Some (expire_pending_pairing_if_needed env s, Ok ())"
| "receiver_step env InExpireReassembly s = Some (on_media (expire_reassembly_deadline (re_media env)) s)"
| "receiver_step env InDrain s = drain_session env s"
| "receiver_step env InRecovery s = Some (on_media (maybe_request_recovery_keyframe (re_media env)) s)"
| "receiver_step env InFinalizeHold s = Some (maybe_finalize_disconnect_hold env s)"
| "receiver_step env InReport s = Some (maybe_send_receiver_stats env s)"
| "receiver_step env InClockSync s = Some (maybe_send_clock_sync env s)"
| "receiver_step env InConfirm s = Some (confirm_pairing_locally env s)"
| "receiver_step env InReject s = Some (reject_pairing_locally env s)"
| "receiver_step env (InListen bound) s = Some (receiver_listen env bound s)"
| "receiver_step env InClose s = Some (receiver_close env s, Ok ())"
| "receiver_step env (InCamera command) s = Some (send_camera_command env command s)"
| "receiver_step env InKeyframe s = Some (on_media (request_keyframe (re_media env)) s)"
| "receiver_step env (InRemove device_id) s = Some (forget (remove_trusted_device env device_id s))"
| "receiver_step env InClear s = Some (forget (clear_trusted_devices env s))"
| "receiver_step env (InReplace revision) s = Some (forget (replace_trusted_identity_history env revision s))"
| "receiver_step env (InDismiss revision) s = Some (forget (dismiss_trusted_identity_replacement env revision s))"
| "receiver_step env (InAutoAccept enabled) s = Some (set_auto_accept_paired enabled s, Ok ())"
| "receiver_step env (InMaxHeight height) s = Some (set_advertised_max_height height s, Ok ())"
| "receiver_step env (InDisplayName name) s = Some (set_display_name name s, Ok ())"
| "receiver_step env InCameraUnavailable s = Some (mark_virtual_camera_unavailable s, Ok ())"
| "receiver_step env InCameraAvailable s = Some (clear_virtual_camera_unavailable s, Ok ())"
| "receiver_step env InPermissionRequired s = Some (mark_permission_required s, Ok ())"

type_synonym receiver_trace = "(receiver_env \<times> receiver_input) list"

text \<open>A run goes on after an error; a panic ends it.\<close>

fun receiver_run :: "receiver_trace \<Rightarrow> receiver_session \<Rightarrow> receiver_session option" where
  "receiver_run [] s = Some s"
| "receiver_run (e # es) s =
     (case receiver_step (fst e) (snd e) s of
        None \<Rightarrow> None
      | Some (s1, r) \<Rightarrow> if r = Panic then None else receiver_run es s1)"

text \<open>One turn of \<open>pump\<close>: the events polled within its budget, between its fixed steps; the first error ends it.\<close>

definition pump_plan ::
  "(nat \<Rightarrow> receiver_env) \<Rightarrow> decoder_event list \<Rightarrow> receiver_trace \<Rightarrow> decoder_event list \<Rightarrow> receiver_trace" where
  "pump_plan env decoded polled decoded_after =
     [(env 0, InDecoder decoded), (env 1, InExpirePairing), (env 2, InExpireReassembly)] @ polled @
     [(env 3, InExpireReassembly), (env 4, InDrain), (env 5, InDecoder decoded_after), (env 6, InRecovery),
      (env 7, InFinalizeHold), (env 8, InReport), (env 9, InClockSync)]"

fun pump_run :: "receiver_trace \<Rightarrow> receiver_session \<Rightarrow> unit rv_outcome option" where
  "pump_run [] s = Some (s, Ok ())"
| "pump_run (e # es) s =
     (case receiver_step (fst e) (snd e) s of
        None \<Rightarrow> None
      | Some (s1, Ok u) \<Rightarrow> pump_run es s1
      | Some (s1, Err x) \<Rightarrow> Some (s1, Err x)
      | Some (s1, Panic) \<Rightarrow> Some (s1, Panic))"

section \<open>Runs\<close>

lemma receiver_run_append: "receiver_run (as @ bs) s = Option.bind (receiver_run as s) (receiver_run bs)"
  by (induction as arbitrary: s) (simp_all split: option.split prod.split)

lemma run_snoc:
  assumes "receiver_run (tr @ [e]) s0 = Some s'"
  obtains s r where "receiver_run tr s0 = Some s" "receiver_step (fst e) (snd e) s = Some (s', r)"
  using assms by (auto simp: receiver_run_append bind_eq_Some_conv split: option.splits prod.splits if_splits)

text \<open>A turn is a run of the inputs it got through.\<close>

lemma pump_is_run:
  "pump_run es s = Some (s', r) \<Longrightarrow> r \<noteq> Panic \<Longrightarrow> \<exists>n. receiver_run (take n es) s = Some s'"
proof (induction es arbitrary: s)
  case (Cons e es)
  show ?case
  proof (cases "receiver_step (fst e) (snd e) s")
    case None
    with Cons.prems show ?thesis by simp
  next
    case (Some out)
    obtain s1 q where out: "out = (s1, q)" by fastforce
    show ?thesis
    proof (cases q)
      case (Ok u)
      with Cons Some out obtain n where "receiver_run (take n es) s1 = Some s'" by auto
      then show ?thesis using Some out Ok by (intro exI [of _ "Suc n"]) simp
    next
      case (Err x)
      then show ?thesis using Cons.prems Some out by (intro exI [of _ "Suc 0"]) simp
    next
      case Panic
      then show ?thesis using Cons.prems Some out by simp
    qed
  qed
qed simp

end
