(* ===== verification/Receiver_Consent.thy ===== *)
theory Receiver_Consent
  imports Receiver_Run
begin

text \<open>
  Consent at the receiver: what an authenticated sender, and an entry of the trust store, prove about
  the inputs that went before. The evidence is read off the trace: a valid \<open>ClientHello\<close> that opened a
  challenge, the sender's two signatures over that challenge's transcript, and the user's confirmation
  while the challenge was the one shown.
\<close>

section \<open>Evidence in a trace\<close>

definition payload_in :: "receiver_env \<times> receiver_input \<Rightarrow> (nat \<times> control_payload) option" where
  "payload_in e =
     (case snd e of
        InTransport rs (TransportControl session msg) \<Rightarrow>
          (case decode_control_envelope (re_prost (fst e)) msg of
             Ok envelope \<Rightarrow> map_option (Pair (ce_connection_generation envelope)) (ce_payload envelope)
           | _ \<Rightarrow> None)
      | _ \<Rightarrow> None)"

definition hello_in :: "device_identity \<Rightarrow> string \<Rightarrow> bytes \<Rightarrow> bytes \<Rightarrow> receiver_env \<times> receiver_input \<Rightarrow> bool" where
  "hello_in identity sender_id key hash e \<longleftrightarrow>
     (case payload_in e of
        Some (generation, ClientHelloMsg hello) \<Rightarrow>
          hello_valid (fst e) hello \<and> ch_sender_id hello = sender_id \<and> ch_public_key hello = key \<and>
          (case (re_nonce (fst e), re_binding (fst e)) of
             (Some nonce, Some binding) \<Rightarrow>
               transcript_hash (cr_digests (re_crypto (fst e)))
                 (hello_transcript hello identity nonce binding generation) = Ok hash
           | _ \<Rightarrow> False)
      | _ \<Rightarrow> False)"

definition signed_by :: "receiver_env \<Rightarrow> bytes \<Rightarrow> bytes \<Rightarrow> bytes \<Rightarrow> identity_proof \<Rightarrow> bool" where
  "signed_by env key hash phase idp \<longleftrightarrow> ip_transcript_hash idp = hash \<and>
     verify_transcript_phase (re_crypto env) key hash phase (ip_identity_signature idp) = Ok ()"

definition confirm_in :: "bytes \<Rightarrow> bytes \<Rightarrow> receiver_env \<times> receiver_input \<Rightarrow> bool" where
  "confirm_in key hash e \<longleftrightarrow>
     (case payload_in e of
        Some (_, PairingConfirmMsg p) \<Rightarrow> signed_by (fst e) key hash SENDER_CONFIRM_PHASE p | _ \<Rightarrow> False)"

definition commit_in :: "bytes \<Rightarrow> bytes \<Rightarrow> receiver_env \<times> receiver_input \<Rightarrow> bool" where
  "commit_in key hash e \<longleftrightarrow>
     (case payload_in e of
        Some (_, PairingCommitMsg p) \<Rightarrow> signed_by (fst e) key hash PAIRING_COMMIT_PHASE p | _ \<Rightarrow> False)"

definition challenge_hash :: "receiver_session \<Rightarrow> bytes option" where
  "challenge_hash s = map_option pp_transcript_hash (rv_pending s)"

text \<open>The user confirmed while the challenge with this hash was open.\<close>

definition confirmed_locally ::
  "receiver_session \<Rightarrow> bytes \<Rightarrow> receiver_trace \<Rightarrow> receiver_trace \<Rightarrow> bool" where
  "confirmed_locally s0 hash before after \<longleftrightarrow>
     (\<exists>mid env rest s. after = mid @ (env, InConfirm) # rest \<and> receiver_run (before @ mid) s0 = Some s \<and>
        challenge_hash s = Some hash)"

definition proved_in ::
  "device_identity \<Rightarrow> string \<Rightarrow> bytes \<Rightarrow> bytes \<Rightarrow> receiver_env \<times> receiver_input \<Rightarrow> receiver_trace \<Rightarrow> bool" where
  "proved_in identity sender_id key hash h post \<longleftrightarrow> hello_in identity sender_id key hash h \<and>
     list_ex (confirm_in key hash) post \<and> list_ex (commit_in key hash) post"

text \<open>The user paired with this key during the trace; or it was trusted before.\<close>

definition user_paired :: "receiver_session \<Rightarrow> receiver_trace \<Rightarrow> string \<Rightarrow> bytes \<Rightarrow> bool" where
  "user_paired s0 tr sender_id key \<longleftrightarrow>
     (\<exists>pre h post hash. tr = pre @ h # post \<and> proved_in (rv_identity s0) sender_id key hash h post \<and>
        confirmed_locally s0 hash (pre @ [h]) post)"

definition known_key :: "receiver_session \<Rightarrow> receiver_trace \<Rightarrow> string \<Rightarrow> bytes \<Rightarrow> bool" where
  "known_key s0 tr sender_id key \<longleftrightarrow>
     verify_paired_key (rv_trusted s0) sender_id key = Ok () \<or> user_paired s0 tr sender_id key"

text \<open>
  What skips the user's confirmation: when the sender says hello, its key is in the store, neither
  removed nor replaced by then, and automatic acceptance is on. How the key came to be in the store is
  part of it.
\<close>

definition accepted_automatically :: "receiver_session \<Rightarrow> receiver_trace \<Rightarrow> string \<Rightarrow> bytes \<Rightarrow> bool" where
  "accepted_automatically s0 before sender_id key \<longleftrightarrow>
     (\<exists>s. receiver_run before s0 = Some s \<and> rv_auto_accept s \<and>
        verify_paired_key (rv_trusted s) sender_id key = Ok ()) \<and>
     known_key s0 before sender_id key"

definition authorised :: "receiver_session \<Rightarrow> receiver_trace \<Rightarrow> string \<Rightarrow> bytes \<Rightarrow> bool" where
  "authorised s0 tr sender_id key \<longleftrightarrow>
     (\<exists>pre h post hash. tr = pre @ h # post \<and> proved_in (rv_identity s0) sender_id key hash h post \<and>
        (confirmed_locally s0 hash (pre @ [h]) post \<or> accepted_automatically s0 pre sender_id key))"

lemma confirmed_more: "confirmed_locally s0 hash b a \<Longrightarrow> confirmed_locally s0 hash b (a @ c)"
  unfolding confirmed_locally_def by (metis append.assoc append_Cons)

lemma proved_more: "proved_in i sid key hash h post \<Longrightarrow> proved_in i sid key hash h (post @ c)"
  by (simp add: proved_in_def)

lemma user_paired_more: "user_paired s0 tr sid key \<Longrightarrow> user_paired s0 (tr @ c) sid key"
  unfolding user_paired_def by (metis append.assoc append_Cons confirmed_more proved_more)

lemma known_more: "known_key s0 tr sid key \<Longrightarrow> known_key s0 (tr @ c) sid key"
  by (auto simp: known_key_def user_paired_more)

lemma authorised_more: "authorised s0 tr sid key \<Longrightarrow> authorised s0 (tr @ c) sid key"
  unfolding authorised_def by (metis append.assoc append_Cons confirmed_more proved_more)

lemma authorised_known: "authorised s0 tr sid key \<Longrightarrow> known_key s0 tr sid key"
  unfolding authorised_def using known_more [of s0 _ sid key]
  by (metis accepted_automatically_def known_key_def user_paired_def)

section \<open>The invariant\<close>

definition challenge_ok :: "receiver_session \<Rightarrow> receiver_trace \<Rightarrow> active_sender \<Rightarrow> pending_pairing \<Rightarrow> bool" where
  "challenge_ok s0 tr x p \<longleftrightarrow>
     (\<exists>pre h post. tr = pre @ h # post \<and>
        hello_in (rv_identity s0) (snd_id x) (snd_public_key x) (pp_transcript_hash p) h \<and>
        (pp_local_confirmed p \<longrightarrow> confirmed_locally s0 (pp_transcript_hash p) (pre @ [h]) post \<or>
           accepted_automatically s0 pre (snd_id x) (snd_public_key x)) \<and>
        (pp_remote_confirmed p \<longrightarrow> list_ex (confirm_in (snd_public_key x) (pp_transcript_hash p)) post) \<and>
        (pp_sender_committed p \<longrightarrow> list_ex (commit_in (snd_public_key x) (pp_transcript_hash p)) post))"

definition consent_inv :: "receiver_session \<Rightarrow> receiver_trace \<Rightarrow> receiver_session \<Rightarrow> bool" where
  "consent_inv s0 tr s \<longleftrightarrow>
     (\<exists>name. rv_identity s = set_device_name name (rv_identity s0)) \<and>
     (\<forall>sid key. verify_paired_key (rv_trusted s) sid key = Ok () \<longrightarrow> known_key s0 tr sid key) \<and>
     (\<forall>x p. ms_sender (rv_media s) = Some x \<longrightarrow> rv_pending s = Some p \<longrightarrow> challenge_ok s0 tr x p) \<and>
     (\<forall>x. ms_sender (rv_media s) = Some x \<longrightarrow> snd_video_allowed x \<longrightarrow> authorised s0 tr (snd_id x) (snd_public_key x))"

lemma challenge_more: "challenge_ok s0 tr x p \<Longrightarrow> challenge_ok s0 (tr @ c) x p"
proof -
  assume "challenge_ok s0 tr x p"
  then obtain pre h post where c: "tr = pre @ h # post"
    "hello_in (rv_identity s0) (snd_id x) (snd_public_key x) (pp_transcript_hash p) h"
    "pp_local_confirmed p \<longrightarrow> confirmed_locally s0 (pp_transcript_hash p) (pre @ [h]) post \<or>
       accepted_automatically s0 pre (snd_id x) (snd_public_key x)"
    "pp_remote_confirmed p \<longrightarrow> list_ex (confirm_in (snd_public_key x) (pp_transcript_hash p)) post"
    "pp_sender_committed p \<longrightarrow> list_ex (commit_in (snd_public_key x) (pp_transcript_hash p)) post"
    by (auto simp: challenge_ok_def)
  then show ?thesis
    unfolding challenge_ok_def
    by (intro exI [of _ pre] exI [of _ h] exI [of _ "post @ c"]) (auto intro: confirmed_more)
qed

lemma inv_more: "consent_inv s0 tr s \<Longrightarrow> consent_inv s0 (tr @ c) s"
  by (auto simp: consent_inv_def intro: known_more challenge_more authorised_more)

lemma inv_core: "core s' = core s \<Longrightarrow> consent_inv s0 tr s \<Longrightarrow> consent_inv s0 tr s'"
  by (simp add: consent_inv_def core_def)

lemma inv_settles: "settles s s' \<Longrightarrow> consent_inv s0 tr s \<Longrightarrow> consent_inv s0 tr s'"
  by (auto simp: consent_inv_def core_def settles_def)

text \<open>A challenge with every flag set authorises its sender.\<close>

lemma challenge_authorises:
  assumes "challenge_ok s0 tr x p" "pp_local_confirmed p" "pp_remote_confirmed p" "pp_sender_committed p"
  shows "authorised s0 tr (snd_id x) (snd_public_key x)"
  using assms unfolding challenge_ok_def authorised_def proved_in_def by blast

text \<open>Forgetting trusted devices, or changing the name, keeps the invariant.\<close>

definition same_or_fewer :: "receiver_session \<Rightarrow> receiver_session \<Rightarrow> bool" where
  "same_or_fewer s s' \<longleftrightarrow> fst (core s') = fst (core s) \<and> rv_identity s' = rv_identity s \<and>
     store_get (rv_trusted s') \<subseteq>\<^sub>m store_get (rv_trusted s)"

lemma inv_fewer: "same_or_fewer s s' \<Longrightarrow> consent_inv s0 tr s \<Longrightarrow> consent_inv s0 tr s'"
  unfolding consent_inv_def same_or_fewer_def core_def verify_paired_Ok_iff
  by (auto simp: map_le_def dom_def)

section \<open>Progress of a challenge keeps the invariant\<close>

lemma rv_then_inv:
  "consent_inv s0 tr (fst out) \<Longrightarrow> (\<And>s. consent_inv s0 tr s \<Longrightarrow> consent_inv s0 tr (fst (f s))) \<Longrightarrow>
     consent_inv s0 tr (fst (rv_then out f))"
  by (cases "snd out") (simp_all only: rv_then_def result.case fst_conv)

lemma persist_cases:
  "fst (persist_or_restore env previous s) = s \<or> fst (persist_or_restore env previous s) = s \<lparr> rv_trusted := previous \<rparr>"
  by (simp add: persist_or_restore_def split: result.split)

lemma prepare_get [simp]: "store_get (prepare_trusted_identity_replacement un device_id store) = store_get store"
proof -
  have "store_get s2 = store_get s" if "allocate_replacement_revision s = (r, s2)" for s r s2
    using get_allocate [of s] that by simp
  then show ?thesis
    by (auto simp: prepare_trusted_identity_replacement_def Let_def split: option.split prod.split)
qed

lemma challenge_committed:
  "challenge_ok s0 tr x (p \<lparr> pp_receiver_committed := b \<rparr>) \<longleftrightarrow> challenge_ok s0 tr x p"
  "challenge_ok s0 tr x (p \<lparr> pp_approval_sent := b \<rparr>) \<longleftrightarrow> challenge_ok s0 tr x p"
  by (simp_all add: challenge_ok_def)

lemma inv_flag:
  assumes "consent_inv s0 tr s" "\<And>x p. challenge_ok s0 tr x p \<Longrightarrow> rv_pending s = Some p \<Longrightarrow>
    ms_sender (rv_media s) = Some x \<Longrightarrow> challenge_ok s0 tr x (f p)"
  shows "consent_inv s0 tr (upd_pending f s)"
  using assms by (auto simp: consent_inv_def upd_pending_def)

lemma commit_sender_inv:
  assumes inv: "consent_inv s0 tr s" and x: "ms_sender (rv_media s) = Some x"
    and auth: "authorised s0 tr (snd_id x) (snd_public_key x)"
  shows "consent_inv s0 tr (fst (commit_sender env x s)) \<and> ms_sender (rv_media (fst (commit_sender env x s))) = Some x"
proof -
  define store1 where "store1 = (let store = store_upsert (trusted_device_from_pairing (cr_digests (re_crypto env)) (snd_id x)
      (snd_name x) (snd_public_key x) (re_wall_ms env)) (rv_trusted s)
    in if is_paired (rv_trusted s) (snd_id x) then store
       else prepare_trusted_identity_replacement (re_unicode env) (snd_id x) store)"
  define s1 where "s1 = s \<lparr> rv_trusted := store1 \<rparr>"
  have get: "store_get store1 k = (if k = snd_id x then Some (trusted_device_from_pairing (cr_digests (re_crypto env))
      (snd_id x) (snd_name x) (snd_public_key x) (re_wall_ms env)) else store_get (rv_trusted s) k)" for k
    by (simp add: store1_def Let_def get_upsert trusted_device_from_pairing_def)
  have inv1: "consent_inv s0 tr s1"
    using inv authorised_known [OF auth]
    by (auto simp: consent_inv_def s1_def verify_paired_Ok_iff get trusted_device_from_pairing_def split: if_splits)
  have restored: "s1 \<lparr> rv_trusted := rv_trusted s \<rparr> = s" by (simp add: s1_def)
  let ?out = "persist_or_restore env (rv_trusted s) s1"
  have "consent_inv s0 tr (fst ?out) \<and> ms_sender (rv_media (fst ?out)) = Some x"
    using persist_cases [of env "rv_trusted s" s1] inv1 inv x restored by (auto simp: s1_def)
  moreover have "commit_sender env x s = rv_then ?out (\<lambda>s1. (upd_pending (\<lambda>p. p \<lparr> pp_receiver_committed := True \<rparr>) s1, Ok ()))"
    by (simp add: commit_sender_def Let_def s1_def store1_def)
  moreover have "consent_inv s0 tr (upd_pending (\<lambda>p. p \<lparr> pp_receiver_committed := True \<rparr>) s2)"
    if "consent_inv s0 tr s2" for s2
    using that by (rule inv_flag) (simp add: challenge_committed)
  ultimately show ?thesis
    by (cases ?out, cases "snd ?out") (auto simp: rv_then_def upd_pending_def)
qed

lemma complete_inv:
  assumes inv: "consent_inv s0 tr s" and x: "ms_sender (rv_media s) = Some x"
    and auth: "authorised s0 tr (snd_id x) (snd_public_key x)"
  shows "consent_inv s0 tr (fst (complete_pairing env session hash s))"
proof -
  define out where "out = rv_send env (PairingCompleteMsg (phase_proof env s hash PAIRING_COMPLETE_PHASE)) s"
  have core: "core (fst out) = core s" by (simp add: out_def core_simps)
  then have x1: "ms_sender (rv_media (fst out)) = Some x" using x by (simp add: core_def)
  have inv1: "consent_inv s0 tr (fst out)" by (rule inv_core [OF core inv])
  let ?s = "upd_media (\<lambda>m. m \<lparr> ms_sender := map_option (\<lambda>x. x \<lparr> snd_video_allowed := True \<rparr>) (ms_sender m) \<rparr>)
     ((fst out) \<lparr> rv_pending := None \<rparr>)"
  have "consent_inv s0 tr ?s"
    using inv1 x1 auth by (auto simp: consent_inv_def upd_media_def)
  then have streaming: "consent_inv s0 tr (begin_streaming session ?s)"
    by (rule inv_core [OF begin_streaming_core])
  have "complete_pairing env session hash s = rv_then out (\<lambda>s1. (begin_streaming session
     (upd_media (\<lambda>m. m \<lparr> ms_sender := map_option (\<lambda>x. x \<lparr> snd_video_allowed := True \<rparr>) (ms_sender m) \<rparr>)
       (s1 \<lparr> rv_pending := None \<rparr>)), Ok ()))"
    by (simp add: complete_pairing_def out_def)
  with inv1 streaming show ?thesis by (cases "snd out") (simp_all add: rv_then_def)
qed

lemma complete_without_sender:
  assumes inv: "consent_inv s0 tr s" and none: "ms_sender (rv_media s) = None"
  shows "consent_inv s0 tr (fst (complete_pairing env session hash s))"
proof -
  define out where "out = rv_send env (PairingCompleteMsg (phase_proof env s hash PAIRING_COMPLETE_PHASE)) s"
  have core: "core (fst out) = core s" by (simp add: out_def core_simps)
  have inv1: "consent_inv s0 tr (fst out)" by (rule inv_core [OF core inv])
  have none1: "ms_sender (rv_media (fst out)) = None" using core none by (simp add: core_def)
  have "consent_inv s0 tr (begin_streaming session (upd_media (\<lambda>m. m \<lparr> ms_sender := map_option
      (\<lambda>x. x \<lparr> snd_video_allowed := True \<rparr>) (ms_sender m) \<rparr>) ((fst out) \<lparr> rv_pending := None \<rparr>)))"
    by (rule inv_core [OF begin_streaming_core]) (use inv1 none1 in \<open>simp add: consent_inv_def upd_media_def\<close>)
  with inv1 show ?thesis
    by (cases "snd out") (simp_all add: complete_pairing_def out_def [symmetric] rv_then_def)
qed

lemma advance_inv:
  assumes inv: "consent_inv s0 tr s"
  shows "consent_inv s0 tr (fst (advance_pairing env s))"
proof (cases "rv_pending s")
  case None
  then show ?thesis by (simp add: advance_pairing_def inv)
next
  case (Some p)
  have approve: "consent_inv s0 tr (fst (rv_then (rv_send env payload s)
      (\<lambda>s1. (upd_pending (\<lambda>p. p \<lparr> pp_approval_sent := True \<rparr>) s1, Ok ()))))" for payload
    by (rule rv_then_inv [OF inv_core [OF rv_send_core inv]])
      (simp only: fst_conv, rule inv_flag, assumption, simp add: challenge_committed)
  consider (wait) "\<not> (pp_local_confirmed p \<and> pp_remote_confirmed p)"
    | (approval) "pp_local_confirmed p" "pp_remote_confirmed p" "\<not> pp_sender_committed p"
    | (all) "pp_local_confirmed p" "pp_remote_confirmed p" "pp_sender_committed p" by blast
  then show ?thesis
  proof cases
    case all
    show ?thesis
    proof (cases "ms_sender (rv_media s)")
      case None
      have "consent_inv s0 tr (fst (complete_pairing env session hash s))" for session hash
        by (rule complete_without_sender [OF inv None])
      then show ?thesis using all Some None inv by (simp add: advance_pairing_def rv_then_def)
    next
      case x: (Some x)
      have auth: "authorised s0 tr (snd_id x) (snd_public_key x)"
        using inv Some x all by (auto simp: consent_inv_def intro: challenge_authorises)
      show ?thesis
        using all Some x complete_inv [OF inv x auth] commit_sender_inv [OF inv x auth, of env]
        by (auto simp: advance_pairing_def rv_then_def complete_inv auth split: result.split)
    qed
  qed (use Some inv approve in \<open>auto simp: advance_pairing_def\<close>)
qed

section \<open>Each input keeps the invariant\<close>

lemma rename_transcript [simp]:
  "hello_transcript hello (set_device_name name identity) nonce binding generation =
     hello_transcript hello identity nonce binding generation"
  by (simp add: hello_transcript_def set_device_name_def)

lemma confirm_inv:
  assumes run: "receiver_run tr s0 = Some s" and inv: "consent_inv s0 tr s"
  shows "consent_inv s0 (tr @ [(env, InConfirm)]) (fst (confirm_pairing_locally env s))"
proof -
  let ?tr = "tr @ [(env, InConfirm)]"
  define s1 where "s1 = expire_pending_pairing_if_needed env s"
  have "settles s s1"
    by (simp add: s1_def expire_pending_pairing_if_needed_def apply_event_settles split: option.split)
  then have same: "ms_sender (rv_media s1) = ms_sender (rv_media s) \<and> rv_pending s1 = rv_pending s"
    if "rv_pending s1 = Some p" for p
    using that by (auto simp: settles_def core_def)
  have inv1: "consent_inv s0 ?tr s1" by (rule inv_more [OF inv_settles [OF \<open>settles s s1\<close> inv]])
  have "challenge_ok s0 ?tr x (p \<lparr> pp_local_confirmed := True \<rparr>)"
    if p: "rv_pending s1 = Some p" and x: "ms_sender (rv_media s1) = Some x" for x p
  proof -
    from same [OF p] p have sp: "rv_pending s = Some p" by simp
    from same [OF p] p x inv have "challenge_ok s0 tr x p" by (auto simp: consent_inv_def)
    then obtain pre h post where c: "tr = pre @ h # post"
      "hello_in (rv_identity s0) (snd_id x) (snd_public_key x) (pp_transcript_hash p) h"
      "pp_remote_confirmed p \<longrightarrow> list_ex (confirm_in (snd_public_key x) (pp_transcript_hash p)) post"
      "pp_sender_committed p \<longrightarrow> list_ex (commit_in (snd_public_key x) (pp_transcript_hash p)) post"
      by (auto simp: challenge_ok_def)
    have "confirmed_locally s0 (pp_transcript_hash p) (pre @ [h]) (post @ [(env, InConfirm)])"
      unfolding confirmed_locally_def
      by (rule exI [of _ post], rule exI [of _ env], rule exI [of _ "[]"], rule exI [of _ s])
        (use run sp c(1) in \<open>simp add: challenge_hash_def\<close>)
    with c show ?thesis
      unfolding challenge_ok_def
      by (intro exI [of _ pre] exI [of _ h] exI [of _ "post @ [(env, InConfirm)]"]) auto
  qed
  then have "consent_inv s0 ?tr (upd_pending (\<lambda>p. p \<lparr> pp_local_confirmed := True \<rparr>) s1)"
    by (rule inv_flag [OF inv1])
  from advance_inv [OF this] show ?thesis by (simp add: confirm_pairing_locally_def s1_def)
qed

lemma protocol_result_Ok_iff: "protocol_result r = Ok v \<longleftrightarrow> r = Ok v"
  by (cases r) (simp_all add: protocol_result_def map_err_def)

lemma hello_challenge_Ok:
  assumes "hello_challenge env hello s = Ok (nonce, hash, code)"
  obtains binding generation where "re_nonce env = Some nonce" "re_binding env = Some binding"
    "ms_control_generation (rv_media s) = Some generation"
    "transcript_hash (cr_digests (re_crypto env)) (hello_transcript hello (rv_identity s) nonce binding generation) = Ok hash"
  using assms
  by (auto simp: hello_challenge_def rbind_Ok_iff ok_or_Ok_iff protocol_result_Ok_iff Let_def)

text \<open>The store and the setting of the state in which an input arrives, while it is handled.\<close>

definition arrives_in :: "receiver_session \<Rightarrow> receiver_trace \<Rightarrow> receiver_session \<Rightarrow> bool" where
  "arrives_in s0 tr s \<longleftrightarrow>
     (\<exists>s1. receiver_run tr s0 = Some s1 \<and> rv_trusted s1 = rv_trusted s \<and> rv_auto_accept s1 = rv_auto_accept s)"

lemma effect_auto: "rv_auto_accept (fst (run_receiver_effect env e s)) = rv_auto_accept s"
  by (cases e) (simp_all add: reset_receiver_resources_def reset_network_health_def Let_def)

lemma effects_auto: "rv_auto_accept (fst (run_receiver_effects env es s)) = rv_auto_accept s"
proof (induction es arbitrary: s)
  case (Cons e es)
  then show ?case
    using effect_auto [of env e s] by (simp add: rv_then_def split: result.split)
qed simp

lemma apply_event_auto: "rv_auto_accept (fst (apply_receiver_event env e s)) = rv_auto_accept s"
proof -
  obtain l fx where r: "receiver_reduce (lifecycle_of s) e = (l, fx)" by fastforce
  have "rv_auto_accept (set_lifecycle l s) = rv_auto_accept s" by (simp add: set_lifecycle_def)
  then show ?thesis
    using effects_auto [of env "effect_items fx" "set_lifecycle l s"]
    by (simp add: apply_receiver_event_def r rv_then_def split: result.split)
qed

lemma hello_inv:
  assumes inv: "consent_inv s0 tr s" and now: "arrives_in s0 tr s" and e: "e = (env, i)"
    and payload: "payload_in e = Some (generation, ClientHelloMsg hello)"
    and gen: "ms_control_generation (rv_media s) = Some generation"
  shows "consent_inv s0 (tr @ [e]) (fst (handle_client_hello env session hello s))"
proof -
  have more: "consent_inv s0 (tr @ [e]) s'" if "settles s s'" for s' by (rule inv_more [OF inv_settles [OF that inv]])
  show ?thesis
  proof (cases "hello_valid env hello \<and> \<not> (is_paired (rv_trusted s) (ch_sender_id hello) \<and> \<not> key_trusted hello s)")
    case False
    have "settles s (fst (apply_event_only env ev (fst (rv_send env p s))))" for ev p
      by (rule settles_trans [OF core_settles [OF rv_send_core] apply_only_settles])
    then have aborted: "consent_inv s0 (tr @ [e]) (fst (apply_event_only env ev (fst (rv_send env p s))))" for ev p
      by (rule more)
    show ?thesis
    proof (cases "hello_valid env hello")
      case True
      with False aborted show ?thesis by (simp add: handle_client_hello_def)
    next
      case invalid: False
      with more [OF settles_refl] show ?thesis by (simp add: handle_client_hello_def)
    qed
  next
    case valid: True
    show ?thesis
    proof (cases "hello_challenge env hello s")
      case (Ok c)
      obtain nonce hash code where c: "c = (nonce, hash, code)" by (cases c) auto
      define auto_accept where "auto_accept = (key_trusted hello s \<and> rv_auto_accept s)"
      obtain binding where b: "re_nonce env = Some nonce" "re_binding env = Some binding"
        "transcript_hash (cr_digests (re_crypto env)) (hello_transcript hello (rv_identity s) nonce binding generation) = Ok hash"
        using hello_challenge_Ok [OF Ok [unfolded c]] gen by auto
      obtain name where name: "rv_identity s = set_device_name name (rv_identity s0)"
        using inv by (auto simp: consent_inv_def)
      have hello: "hello_in (rv_identity s0) (ch_sender_id hello) (ch_public_key hello) hash e"
        using valid b payload name by (simp add: hello_in_def e)
      have known: "auto_accept \<longrightarrow> accepted_automatically s0 tr (ch_sender_id hello) (ch_public_key hello)"
        using inv now
        by (auto simp: consent_inv_def auto_accept_def key_trusted_def accepted_automatically_def arrives_in_def)
      have opened: "consent_inv s0 (tr @ [e]) (open_challenge env session hello auto_accept hash code s1)"
        if "core s1 = core s" for s1
      proof -
        have "consent_inv s0 (tr @ [e]) s1" by (rule inv_more [OF inv_core [OF that inv]])
        moreover have "challenge_ok s0 (tr @ [e]) x p"
          if "snd_id x = ch_sender_id hello" "snd_public_key x = ch_public_key hello" "pp_transcript_hash p = hash"
            "pp_local_confirmed p = auto_accept" "\<not> pp_remote_confirmed p" "\<not> pp_sender_committed p" for x p
          unfolding challenge_ok_def
          by (rule exI [of _ tr], rule exI [of _ e], rule exI [of _ "[]"]) (use that hello known in auto)
        ultimately show ?thesis
          by (simp add: consent_inv_def open_challenge_def upd_runtime_def upd_media_def)
      qed
      let ?out = "rv_send env (ServerHelloMsg (server_hello_of env s auto_accept nonce hash)) s"
      have "handle_client_hello env session hello s = rv_then ?out (\<lambda>s1.
          (open_challenge env session hello auto_accept hash code s1, Ok ()))"
        using valid Ok c by (auto simp: handle_client_hello_def Let_def auto_accept_def)
      moreover have "consent_inv s0 (tr @ [e]) (fst ?out)" by (rule more [OF core_settles [OF rv_send_core]])
      moreover have "consent_inv s0 (tr @ [e]) (open_challenge env session hello auto_accept hash code (fst ?out))"
        by (rule opened [OF rv_send_core])
      ultimately show ?thesis by (cases "snd ?out") (simp_all add: rv_then_def)
    next
      case (Err x)
      with valid more [OF settles_refl] show ?thesis by (auto simp: handle_client_hello_def Let_def)
    next
      case Panic
      with valid more [OF settles_refl] show ?thesis by (auto simp: handle_client_hello_def Let_def)
    qed
  qed
qed

text \<open>A flag of the challenge that a signed message sets.\<close>

lemma signed_flag_inv:
  assumes inv: "consent_inv s0 tr s"
    and keep: "\<And>x p. rv_pending s = Some p \<Longrightarrow> ms_sender (rv_media s) = Some x \<Longrightarrow> challenge_ok s0 tr x p \<Longrightarrow>
      challenge_ok s0 (tr @ [e]) x (f p)"
  shows "consent_inv s0 (tr @ [e]) (fst (advance_pairing env (upd_pending f s)))"
proof -
  have "consent_inv s0 (tr @ [e]) (upd_pending f s)"
  proof (rule inv_flag)
    show "consent_inv s0 (tr @ [e]) s" by (rule inv_more [OF inv])
    fix x p
    assume "rv_pending s = Some p" "ms_sender (rv_media s) = Some x"
    moreover from this inv have "challenge_ok s0 tr x p" by (auto simp: consent_inv_def)
    ultimately show "challenge_ok s0 (tr @ [e]) x (f p)" by (rule keep)
  qed
  then show ?thesis by (rule advance_inv)
qed

lemma challenge_snoc:
  assumes "challenge_ok s0 tr x p"
    and "pp_transcript_hash (f p) = pp_transcript_hash p" "pp_local_confirmed (f p) = pp_local_confirmed p"
    and "pp_remote_confirmed (f p) \<longrightarrow> pp_remote_confirmed p \<or> confirm_in (snd_public_key x) (pp_transcript_hash p) e"
    and "pp_sender_committed (f p) \<longrightarrow> pp_sender_committed p \<or> commit_in (snd_public_key x) (pp_transcript_hash p) e"
  shows "challenge_ok s0 (tr @ [e]) x (f p)"
proof -
  from assms(1) obtain pre h post where c: "tr = pre @ h # post"
    "hello_in (rv_identity s0) (snd_id x) (snd_public_key x) (pp_transcript_hash p) h"
    "pp_local_confirmed p \<longrightarrow> confirmed_locally s0 (pp_transcript_hash p) (pre @ [h]) post \<or>
       accepted_automatically s0 pre (snd_id x) (snd_public_key x)"
    "pp_remote_confirmed p \<longrightarrow> list_ex (confirm_in (snd_public_key x) (pp_transcript_hash p)) post"
    "pp_sender_committed p \<longrightarrow> list_ex (commit_in (snd_public_key x) (pp_transcript_hash p)) post"
    by (auto simp: challenge_ok_def)
  with assms(2-5) show ?thesis
    unfolding challenge_ok_def
    by (intro exI [of _ pre] exI [of _ h] exI [of _ "post @ [e]"]) (auto intro: confirmed_more)
qed

lemma pairing_confirm_inv:
  assumes inv: "consent_inv s0 tr s" and e: "e = (env, i)"
    and payload: "payload_in e = Some (generation, PairingConfirmMsg confirm)"
  shows "consent_inv s0 (tr @ [e]) (fst (handle_pairing_confirm env session confirm s))"
proof -
  have more: "consent_inv s0 (tr @ [e]) s" by (rule inv_more [OF inv])
  then have cleared: "consent_inv s0 (tr @ [e]) (upd_runtime f (s \<lparr> rv_pending := None \<rparr>))" for f
    by (simp add: consent_inv_def upd_runtime_def upd_media_def)
  have signed: "consent_inv s0 (tr @ [e]) (fst (advance_pairing env (upd_pending (\<lambda>p. p \<lparr> pp_remote_confirmed := True \<rparr>) s)))"
    if "rv_pending s = Some p" "ms_sender (rv_media s) = Some x" "signed_by env (snd_public_key x) (pp_transcript_hash p) SENDER_CONFIRM_PHASE confirm"
    for p x
    by (rule signed_flag_inv [OF inv], rule challenge_snoc) (use that payload e in \<open>auto simp: confirm_in_def\<close>)
  show ?thesis
    using more cleared signed
    by (auto simp: handle_pairing_confirm_def signed_by_def protocol_result_def map_err_def
        split: option.split result.split result.splits)
qed

lemma pairing_commit_inv:
  assumes inv: "consent_inv s0 tr s" and e: "e = (env, i)"
    and payload: "payload_in e = Some (generation, PairingCommitMsg commit)"
  shows "consent_inv s0 (tr @ [e]) (fst (handle_pairing_commit env session commit s))"
proof (cases "verify_sender_phase env session (ip_transcript_hash commit) (ip_identity_signature commit) PAIRING_COMMIT_PHASE s")
  case True
  then obtain p x where "rv_pending s = Some p" "ms_sender (rv_media s) = Some x"
    "signed_by env (snd_public_key x) (pp_transcript_hash p) PAIRING_COMMIT_PHASE commit"
    by (auto simp: verify_sender_phase_def signed_by_def split: option.splits)
  then have "consent_inv s0 (tr @ [e]) (fst (advance_pairing env (upd_pending (\<lambda>p. p \<lparr> pp_sender_committed := True \<rparr>) s)))"
    by (intro signed_flag_inv [OF inv] challenge_snoc) (use payload e in \<open>auto simp: commit_in_def\<close>)
  with True show ?thesis by (simp add: handle_pairing_commit_def finish_pairing_commit_def)
next
  case False
  then show ?thesis using inv_more [OF inv] by (simp add: handle_pairing_commit_def)
qed

section \<open>The control channel\<close>

lemma dispatch_inv:
  assumes inv: "consent_inv s0 tr s" and now: "arrives_in s0 tr s" and e: "e = (env, i)"
    and payload: "payload_in e = Some (generation, payload)"
    and gen: "ms_control_generation (rv_media s) = Some generation"
  shows "consent_inv s0 (tr @ [e]) (fst (dispatch_control env session payload s))"
proof -
  have kept: "consent_inv s0 (tr @ [e]) s'" if "settles s s'" for s'
    by (rule inv_more [OF inv_settles [OF that inv]])
  note same = kept [OF settles_refl] and core = kept [OF core_settles]
  show ?thesis
  proof (cases payload)
    case (ClientHelloMsg hello)
    then show ?thesis using hello_inv [OF inv now e _ gen] payload same by (simp add: dispatch_control_def)
  next
    case (PairingConfirmMsg confirm)
    then show ?thesis using pairing_confirm_inv [OF inv e] payload same by (simp add: dispatch_control_def)
  next
    case (PairingCommitMsg commit)
    then show ?thesis using pairing_commit_inv [OF inv e] payload same by (simp add: dispatch_control_def)
  next
    case StartStreamMsg
    have "consent_inv s0 (tr @ [e]) (fst (handle_start_stream env session s))" by (rule core) (rule control_core)
    with StartStreamMsg same show ?thesis by (simp add: dispatch_control_def)
  next
    case StopStreamMsg
    then show ?thesis using kept [OF stop_stream_settles] same by (simp add: dispatch_control_def)
  next
    case (SenderStatsMsg stats)
    have "consent_inv s0 (tr @ [e]) (fst (handle_sender_stats stats s))" by (rule core) (rule control_core)
    with SenderStatsMsg same show ?thesis by (simp add: dispatch_control_def)
  next
    case (StreamConfigMsg config)
    have "consent_inv s0 (tr @ [e]) (fst (handle_stream_config env session config s))" by (rule core) (rule stream_config_core)
    with StreamConfigMsg same show ?thesis by (simp add: dispatch_control_def)
  next
    case (ClockSyncPongMsg pong)
    have "consent_inv s0 (tr @ [e]) (handle_clock_sync_pong env pong s)" by (rule core) (rule control_core)
    with ClockSyncPongMsg same show ?thesis by (simp add: dispatch_control_def)
  qed (use same in \<open>simp_all add: dispatch_control_def\<close>)
qed

lemma upd_last_core: "core (upd_media (\<lambda>m. m \<lparr> ms_last_message_id := n \<rparr>) s) = core s"
  by (simp add: core_simps owner_simps)

lemma upd_generation_core: "core (upd_media (\<lambda>m. m \<lparr> ms_control_generation := g \<rparr>) s) = core s"
  by (simp add: core_simps owner_simps)

lemma admit_inv:
  assumes inv: "consent_inv s0 tr s" and now: "arrives_in s0 tr s" and e: "e = (env, i)"
    and payload: "payload_in e = map_option (Pair (ce_connection_generation envelope)) (ce_payload envelope)"
  shows "consent_inv s0 (tr @ [e]) (fst (admit_envelope env session envelope s))"
proof -
  define s1 where "s1 = (if ms_control_generation (rv_media s) = None
    then upd_media (\<lambda>m. m \<lparr> ms_control_generation := Some (ce_connection_generation envelope) \<rparr>) s else s)"
  define s2 where "s2 = upd_media (\<lambda>m. m \<lparr> ms_last_message_id := ce_message_id envelope \<rparr>) s1"
  have c1: "core s1 = core s" by (simp add: s1_def upd_generation_core)
  have c2: "core s2 = core s" by (simp add: s2_def upd_last_core c1)
  have i: "consent_inv s0 (tr @ [e]) s" "consent_inv s0 (tr @ [e]) s1" "consent_inv s0 (tr @ [e]) s2"
    by (rule inv_more [OF inv], rule inv_more [OF inv_core [OF c1 inv]], rule inv_more [OF inv_core [OF c2 inv]])
  have now2: "arrives_in s0 tr s2" using now by (simp add: arrives_in_def s2_def s1_def)
  have dispatched: "consent_inv s0 (tr @ [e]) (fst (dispatch_control env session p s2))"
    if "ce_payload envelope = Some p" "ms_control_generation (rv_media s1) = Some (ce_connection_generation envelope)" for p
    by (rule dispatch_inv [OF inv_core [OF c2 inv] now2 e]) (use that payload in \<open>simp_all add: s2_def\<close>)
  show ?thesis
    unfolding admit_envelope_def Let_def s1_def [symmetric] s2_def [symmetric]
    by (cases "ce_payload envelope") (use i dispatched in simp_all)
qed

lemma control_event_inv:
  assumes run: "receiver_run tr s0 = Some s" and inv: "consent_inv s0 tr s"
    and e: "e = (env, InTransport rs (TransportControl session msg))"
  shows "consent_inv s0 (tr @ [e]) (fst (handle_control_event env session msg s))"
proof -
  obtain s1 r1 where a: "apply_receiver_event env (RxControlReceived session) s = (s1, r1)" by fastforce
  have inv1: "consent_inv s0 tr s1"
    using inv_settles [OF apply_event_settles inv, of env "RxControlReceived session"] a by simp
  have now1: "arrives_in s0 tr s1"
    using run apply_event_settles [of s env "RxControlReceived session"] apply_event_auto [of env "RxControlReceived session" s] a
    by (auto simp: arrives_in_def settles_def core_def)
  have handled: "consent_inv s0 (tr @ [e]) (fst (handle_control env session msg s1))"
  proof (cases "decode_control_envelope (re_prost env) msg")
    case (Ok envelope)
    then have "payload_in e = map_option (Pair (ce_connection_generation envelope)) (ce_payload envelope)"
      by (simp add: payload_in_def e)
    from admit_inv [OF inv1 now1 e this] inv_more [OF inv1] Ok show ?thesis
      by (simp add: handle_control_def map_err_def)
  qed (use inv_more [OF inv1] in \<open>simp_all add: handle_control_def map_err_def\<close>)
  obtain s2 r2 where h: "handle_control env session msg s1 = (s2, r2)" by fastforce
  have "consent_inv s0 (tr @ [e]) s2" using handled h by simp
  moreover from inv_settles [OF reject_settles this]
  have "consent_inv s0 (tr @ [e]) (reject_control_session env session s2)" .
  ultimately show ?thesis
    using inv_more [OF inv1] h by (simp add: handle_control_event_def a split: result.split)
qed

lemma transport_inv:
  assumes run: "receiver_run tr s0 = Some s" and inv: "consent_inv s0 tr s" and out: "handle_transport_event env rs event s = Some out"
  shows "consent_inv s0 (tr @ [(env, InTransport rs event)]) (fst out)"
proof -
  have kept: "consent_inv s0 (tr @ [(env, InTransport rs event)]) s'" if "settles s s'" for s'
    by (rule inv_more [OF inv_settles [OF that inv]])
  show ?thesis
  proof (cases event)
    case (TransportControl session msg)
    then show ?thesis using control_event_inv [OF run inv refl] out by (auto simp: handle_transport_event_def)
  next
    case (TransportVideo session packets received_at)
    then show ?thesis using out video_settles kept by (simp add: handle_transport_event_def)
  qed (use out kept [OF settles_refl] kept [OF apply_only_settles] in
       \<open>auto simp: handle_transport_event_def split: if_splits\<close>)
qed

section \<open>Runs\<close>

lemma persist_fewer:
  assumes "store_get store \<subseteq>\<^sub>m store_get (rv_trusted s)"
  shows "same_or_fewer s (fst (rv_then (persist_or_restore env (rv_trusted s) (s \<lparr> rv_trusted := store \<rparr>)) (\<lambda>s2. (s2, Ok v))))"
    and "same_or_fewer s (s \<lparr> rv_trusted := store \<rparr>)"
proof -
  show f: "same_or_fewer s (s \<lparr> rv_trusted := store \<rparr>)" using assms by (simp add: same_or_fewer_def core_def)
  have "same_or_fewer s s" by (simp add: same_or_fewer_def)
  with f persist_cases [of env "rv_trusted s" "s \<lparr> rv_trusted := store \<rparr>"]
  show "same_or_fewer s (fst (rv_then (persist_or_restore env (rv_trusted s) (s \<lparr> rv_trusted := store \<rparr>)) (\<lambda>s2. (s2, Ok v))))"
    by (auto simp: rv_then_def split: result.split)
qed

lemma remove_less: "store_get (fst (store_remove i store)) \<subseteq>\<^sub>m store_get store"
  by (auto simp: map_le_def dom_def get_remove split: if_splits)

lemma remove_candidates_less: "store_get (fst (remove_candidates cs store)) \<subseteq>\<^sub>m store_get store"
proof (induction cs arbitrary: store)
  case (Cons c cs)
  obtain store1 removed where r: "store_remove (tc_device_id c) store = (store1, removed)" by fastforce
  obtain store2 n where c: "remove_candidates cs store1 = (store2, n)" by fastforce
  have "store_get store2 \<subseteq>\<^sub>m store_get store1" using Cons.IH [of store1] c by simp
  moreover have "store_get store1 \<subseteq>\<^sub>m store_get store" using remove_less [of "tc_device_id c" store] r by simp
  ultimately show ?case by (simp add: r c map_le_trans)
qed simp

lemma clear_less: "store_get (fst (store_clear store)) \<subseteq>\<^sub>m store_get store"
  by (simp add: store_clear_def store_get_def bump_revision_def Let_def map_le_def)

lemma dismiss_get: "store_get (fst (dismiss_identity_replacement r store)) = store_get store"
  by (simp add: dismiss_identity_replacement_def Let_def store_get_def bump_revision_def split: option.split)

lemma trust_fewer:
  "same_or_fewer s (fst (remove_trusted_device env device_id s))"
  "same_or_fewer s (fst (clear_trusted_devices env s))"
  "same_or_fewer s (fst (dismiss_trusted_identity_replacement env revision s))"
  "same_or_fewer s (fst (replace_trusted_identity_history env revision s))"
proof -
  obtain store1 b1 where 1: "store_remove device_id (rv_trusted s) = (store1, b1)" by fastforce
  with remove_less [of device_id "rv_trusted s"] show "same_or_fewer s (fst (remove_trusted_device env device_id s))"
    by (simp add: remove_trusted_device_def persist_fewer Let_def)
  obtain store2 n2 where 2: "store_clear (rv_trusted s) = (store2, n2)" by fastforce
  with clear_less [of "rv_trusted s"] show "same_or_fewer s (fst (clear_trusted_devices env s))"
    by (simp add: clear_trusted_devices_def persist_fewer Let_def)
  obtain store3 b3 where 3: "dismiss_identity_replacement revision (rv_trusted s) = (store3, b3)" by fastforce
  with dismiss_get [of revision "rv_trusted s"] show "same_or_fewer s (fst (dismiss_trusted_identity_replacement env revision s))"
    by (simp add: dismiss_trusted_identity_replacement_def persist_fewer Let_def)
  have "same_or_fewer s s" by (simp add: same_or_fewer_def)
  moreover have "same_or_fewer s (fst (let (store, removed) = remove_candidates cs (rv_trusted s);
      s1 = s \<lparr> rv_trusted := set_identity_replacement None store \<rparr>
    in rv_then (persist_or_restore env (rv_trusted s) s1) (\<lambda>s2. (s2, Ok removed))))" for cs
    using remove_candidates_less [of cs "rv_trusted s"]
    by (cases "remove_candidates cs (rv_trusted s)") (simp add: persist_fewer Let_def)
  ultimately show "same_or_fewer s (fst (replace_trusted_identity_history env revision s))"
    by (simp add: replace_trusted_identity_history_def split: option.split)
qed

lemma settings_core:
  "core (set_auto_accept_paired b s) = core s" "core (set_advertised_max_height h s) = core s"
  "core (mark_virtual_camera_unavailable s) = core s" "core (clear_virtual_camera_unavailable s) = core s"
  "core (mark_permission_required s) = core s"
  by (simp_all add: set_auto_accept_paired_def set_advertised_max_height_def mark_virtual_camera_unavailable_def
      clear_virtual_camera_unavailable_def mark_permission_required_def core_simps) (simp_all add: core_def)

lemma rename_inv: "consent_inv s0 tr s \<Longrightarrow> consent_inv s0 tr (set_display_name name s)"
  by (auto simp: consent_inv_def set_display_name_def set_device_name_def)

lemma finish_settles:
  "settles s (fst (maybe_finalize_disconnect_hold env s))" "settles s (fst (receiver_listen env bound s))"
  "settles s (expire_pending_pairing_if_needed env s)" "settles s (receiver_close env s)"
  "settles s (fst (reject_pairing_locally env s))"
proof -
  show "settles s (fst (maybe_finalize_disconnect_hold env s))"
    by (simp add: maybe_finalize_disconnect_hold_def apply_only_settles split: option.split)
  show "settles s (fst (receiver_listen env bound s))" by (simp add: receiver_listen_def apply_only_settles)
  show expire: "settles s (expire_pending_pairing_if_needed env s)"
    by (simp add: expire_pending_pairing_if_needed_def apply_event_settles split: option.split)
  have "settles s (if b then fst (rv_send env StopStreamMsg s) else s)" for b
    by (simp add: core_settles rv_send_core)
  then show "settles s (receiver_close env s)"
    unfolding receiver_close_def Let_def by (rule settles_trans) (rule apply_event_settles)
  have reject: "settles s1 (fst (rv_then (rv_send env p s1) (apply_event_only env ev)))" for s1 p ev
    by (rule rv_then_settles [OF core_settles [OF rv_send_core] apply_only_settles])
  show "settles s (fst (reject_pairing_locally env s))"
    using expire settles_trans [OF expire reject] by (simp add: reject_pairing_locally_def Let_def split: option.split)
qed

lemma media_input_core:
  "core (fst (on_media (expire_reassembly_deadline menv) s)) = core s"
  "core (fst (on_media (maybe_request_recovery_keyframe menv) s)) = core s"
  "core (fst (on_media (request_keyframe menv) s)) = core s"
  by (simp_all add: on_media_core owner_simps)

lemma drain_session_core: "drain_session env s = Some out \<Longrightarrow> core (fst out) = core s"
  by (auto simp: drain_session_def drained_core)

lemma step_inv:
  assumes run: "receiver_run tr s0 = Some s" and inv: "consent_inv s0 tr s"
    and out: "receiver_step env i s = Some out"
  shows "consent_inv s0 (tr @ [(env, i)]) (fst out)"
proof -
  have kept: "consent_inv s0 (tr @ [(env, i)]) s'" if "settles s s'" for s'
    by (rule inv_more [OF inv_settles [OF that inv]])
  note core = kept [OF core_settles]
  have fewer: "consent_inv s0 (tr @ [(env, i)]) s'" if "same_or_fewer s s'" for s'
    by (rule inv_more [OF inv_fewer [OF that inv]])
  show ?thesis
  proof (cases i)
    case (InTransport rs event)
    then show ?thesis using transport_inv [OF run inv] out by simp
  next
    case InConfirm
    then show ?thesis using confirm_inv [OF run inv] out by auto
  next
    case InDrain
    then show ?thesis using core [OF drain_session_core] out by simp
  next
    case (InDisplayName name)
    then show ?thesis using inv_more [OF rename_inv [OF inv]] out by auto
  next
    case (InDecoder events)
    then show ?thesis using kept [OF decoder_events_settle] out by auto
  next
    case InReport
    then show ?thesis using core [OF report_core] out by auto
  next
    case InClockSync
    have "consent_inv s0 (tr @ [(env, i)]) (fst (maybe_send_clock_sync env s))" by (rule core) (rule control_core)
    with InClockSync show ?thesis using out by auto
  next
    case (InCamera command)
    have "consent_inv s0 (tr @ [(env, i)]) (fst (send_camera_command env command s))" by (rule core) (rule control_core)
    with InCamera show ?thesis using out by auto
  qed (use out kept [OF finish_settles(1)] kept [OF finish_settles(2)] kept [OF finish_settles(3)] kept [OF finish_settles(4)]
      kept [OF finish_settles(5)] core [OF media_input_core(1)] core [OF media_input_core(2)] core [OF media_input_core(3)]
      fewer [OF trust_fewer(1)] fewer [OF trust_fewer(2)] fewer [OF trust_fewer(3)] fewer [OF trust_fewer(4)]
      core [OF settings_core(1)] core [OF settings_core(2)] core [OF settings_core(3)] core [OF settings_core(4)]
      core [OF settings_core(5)] in \<open>auto simp: forget_def\<close>)
qed

lemma run_inv:
  assumes start: "ms_sender (rv_media s0) = None"
  shows "receiver_run tr s0 = Some s \<Longrightarrow> consent_inv s0 tr s"
proof (induction tr arbitrary: s rule: rev_induct)
  case Nil
  have "set_device_name (di_device_name (rv_identity s0)) (rv_identity s0) = rv_identity s0"
    by (simp add: set_device_name_def)
  then have "\<exists>name. rv_identity s0 = set_device_name name (rv_identity s0)" by metis
  with Nil start show ?case by (auto simp: consent_inv_def known_key_def)
next
  case (snoc e tr)
  obtain s1 r where "receiver_run tr s0 = Some s1" "receiver_step (fst e) (snd e) s1 = Some (s, r)"
    using run_snoc [OF snoc.prems] by blast
  with step_inv [OF this(1) snoc.IH [OF this(1)] this(2)] show ?case by simp
qed

end
