(* ===== verification/Pairing_Completes.thy ===== *)
theory Pairing_Completes
  imports Receiver_Consent
begin

text \<open>
  The guarantees of pairing. An honest handshake over a working connection ends with the sender's video
  admitted and its key in the trust store; the steps are tracked on the few fields they read. Conversely
  neither video nor trust comes without the evidence of \<open>Receiver_Consent\<close>.
\<close>

section \<open>The fields of a handshake\<close>

type_synonym pairing_view =
  "nat option \<times> nat option \<times> nat \<times> trusted_store \<times> active_sender option \<times> pending_pairing option \<times> device_identity \<times> bool"

definition view :: "receiver_session \<Rightarrow> pairing_view" where
  "view s = (rv_active_generation s, ms_control_generation (rv_media s), ms_last_message_id (rv_media s),
     rv_trusted s, ms_sender (rv_media s), rv_pending s, rv_identity s, rv_has_store_path s)"

definition sends_ok :: "receiver_env \<Rightarrow> bool" where
  "sends_ok env \<longleftrightarrow> (\<forall>n. en_send_ok (re_media env) n)"

text \<open>What the receiver has told the sender: the next message number, and the messages so far.\<close>

definition told :: "receiver_session \<Rightarrow> nat \<times> (nat \<times> nat \<times> control_payload) list" where
  "told s = (ms_next_message_id (rv_media s), ms_sent (rv_media s))"

fun say :: "nat \<Rightarrow> control_payload \<Rightarrow> nat \<times> (nat \<times> nat \<times> control_payload) list \<Rightarrow> nat \<times> (nat \<times> nat \<times> control_payload) list" where
  "say G payload (n, sent) = (sat_add64 n 1, sent @ [(n, G, payload)])"

lemma send_view:
  assumes "sends_ok env" "ms_control_generation (rv_media s) = Some G"
  obtains s1 where "rv_send env payload s = (s1, Ok ())" "view s1 = view s" "told s1 = say G payload (told s)"
  using assms by (fastforce simp: rv_send_def on_media_def send_control_payload_def sends_ok_def view_def told_def Let_def)

lemma send_from:
  assumes "sends_ok env" "view s = (a, Some G, v)"
  obtains s1 where "rv_send env payload s = (s1, Ok ())" "view s1 = view s" "told s1 = say G payload (told s)"
proof -
  have "ms_control_generation (rv_media s) = Some G" using assms(2) by (simp add: view_def)
  then show ?thesis using send_view [OF assms(1)] that by blast
qed

lemma begin_view: "view (begin_streaming g s) = view s" "told (begin_streaming g s) = told s"
  by (simp_all add: begin_streaming_def view_def told_def upd_runtime_def upd_media_def)

lemma told_simps [simp]:
  "told (upd_pending f s) = told s" "told (s \<lparr> rv_pending := p \<rparr>) = told s" "told (s \<lparr> rv_trusted := store \<rparr>) = told s"
  "told (upd_media (\<lambda>m. m \<lparr> ms_sender := h m \<rparr>) s) = told s"
  "told (open_challenge env session hello auto_accept hash code s) = told s"
  by (simp_all add: told_def upd_pending_def upd_media_def open_challenge_def upd_runtime_def)

lemma begin_streams: "is_streaming (rv_stream (begin_streaming g s))"
  by (simp add: begin_streaming_def rv_stream_def set_stream_def)

lemma set_same_lifecycle [simp]: "set_lifecycle (lifecycle_of s) s = s"
  by (simp add: set_lifecycle_def lifecycle_of_def upd_runtime_def upd_media_def)

definition admitted :: "nat \<Rightarrow> nat \<Rightarrow> receiver_session \<Rightarrow> receiver_session" where
  "admitted G mid s = upd_media (\<lambda>m. m \<lparr> ms_last_message_id := mid \<rparr>)
     (if ms_control_generation (rv_media s) = None then upd_media (\<lambda>m. m \<lparr> ms_control_generation := Some G \<rparr>) s else s)"

text \<open>A message of the current connection that is in order reaches its handler.\<close>

lemma control_step:
  assumes active: "re_active env = Some g" "rv_active_generation s = Some g"
    and msg: "decode_control_envelope (re_prost env) msg =
      Ok \<lparr> ce_message_id = mid, ce_connection_generation = G, ce_payload = Some payload \<rparr>"
    and gen: "ms_control_generation (rv_media s) = Some G \<or> ms_control_generation (rv_media s) = None \<and> is_client_hello (Some payload)"
    and order: "ms_last_message_id (rv_media s) < mid"
    and allowed: "receiver_payload_allowed (control_phase_of (admitted G mid s)) payload"
    and handled: "dispatch_control env g payload (admitted G mid s) = (s', Ok ())"
  shows "receiver_step env (InTransport rs (TransportControl g msg)) s = Some (s', Ok ())"
proof -
  have "handle_control env g msg s = (s', Ok ())"
    using assms by (auto simp: handle_control_def map_err_def admit_envelope_def admitted_def Let_def)
  moreover have "apply_receiver_event env (RxControlReceived g) s = (s, Ok [RxAcceptControl])"
    using active by (simp add: apply_receiver_event_def lifecycle_of_def [symmetric])
      (simp add: lifecycle_of_def)
  ultimately show ?thesis by (simp add: handle_transport_event_def handle_control_event_def)
qed

lemma admitted_view:
  "view (admitted G mid s) = (rv_active_generation s,
     (if ms_control_generation (rv_media s) = None then Some G else ms_control_generation (rv_media s)), mid,
     rv_trusted s, ms_sender (rv_media s), rv_pending s, rv_identity s, rv_has_store_path s)"
  by (simp add: admitted_def view_def upd_media_def)

lemma admitted_told [simp]: "told (admitted G mid s) = told s"
  by (simp add: admitted_def told_def upd_media_def)

text \<open>The greeting and the proofs an identity sends.\<close>

definition receiver_hello :: "ed25519 \<Rightarrow> device_identity \<Rightarrow> bytes \<Rightarrow> bytes \<Rightarrow> server_hello" where
  "receiver_hello cr identity nonce hash =
     \<lparr> sh_receiver_id = di_device_id identity, sh_display_name = di_device_name identity,
       sh_public_key = di_public_key identity, sh_pairing_required = True, sh_receiver_nonce = nonce,
       sh_transcript_hash = hash, sh_identity_signature = sign_transcript_phase cr identity hash SERVER_HELLO_PHASE \<rparr>"

definition signed_phase :: "ed25519 \<Rightarrow> device_identity \<Rightarrow> bytes \<Rightarrow> bytes \<Rightarrow> identity_proof" where
  "signed_phase cr identity hash phase =
     \<lparr> ip_transcript_hash = hash, ip_identity_signature = sign_transcript_phase cr identity hash phase \<rparr>"

lemma own_messages:
  "server_hello_of env s False nonce hash = receiver_hello (re_crypto env) (rv_identity s) nonce hash"
  "phase_proof env s hash phase = signed_phase (re_crypto env) (rv_identity s) hash phase"
  by (simp_all add: server_hello_of_def receiver_hello_def phase_proof_def signed_phase_def)

lemma admitted_phase:
  "view s = (a, c, n, store, None, None, identity, path) \<Longrightarrow> control_phase_of (admitted G mid s) = AwaitingClientHello"
  "view s = (a, c, n, store, x, Some p, identity, path) \<Longrightarrow> control_phase_of (admitted G mid s) = PhasePairing"
  by (auto simp: control_phase_of_def admitted_def view_def upd_media_def)

lemma view_pending:
  "view s = (a, c, n, store, x, Some p, identity, path) \<Longrightarrow>
     view (upd_pending f s) = (a, c, n, store, x, Some (f p), identity, path)"
  "view s = (a, c, n, store, x, Some p, identity, path) \<Longrightarrow>
     view (upd_pending f (s \<lparr> rv_trusted := store' \<rparr>)) = (a, c, n, store', x, Some (f p), identity, path)"
  by (simp_all add: view_def upd_pending_def)

section \<open>The four steps\<close>

definition opened_pairing :: "nat \<Rightarrow> nat \<Rightarrow> bytes \<Rightarrow> string \<Rightarrow> pending_pairing" where
  "opened_pairing g now hash code =
     \<lparr> pp_session = g, pp_transcript_hash = hash, pp_short_code = code, pp_pairing_required = True,
       pp_local_confirmed = False, pp_remote_confirmed = False, pp_approval_sent = False,
       pp_sender_committed = False, pp_receiver_committed = False, pp_expires_at = now + PAIRING_CHALLENGE_TTL \<rparr>"

definition hello_sender :: "client_hello \<Rightarrow> active_sender" where
  "hello_sender hello = \<lparr> snd_id = ch_sender_id hello, snd_name = ch_device_name hello,
     snd_public_key = ch_public_key hello, snd_video_allowed = False \<rparr>"

definition challenge_of ::
  "receiver_env \<Rightarrow> client_hello \<Rightarrow> device_identity \<Rightarrow> nat \<Rightarrow> bytes \<Rightarrow> string \<Rightarrow> bool" where
  "challenge_of env hello identity G hash code \<longleftrightarrow>
     (case (re_nonce env, re_binding env) of
        (Some nonce, Some binding) \<Rightarrow>
          transcript_hash (cr_digests (re_crypto env)) (hello_transcript hello identity nonce binding G) = Ok hash \<and>
          short_code (cr_digests (re_crypto env)) (hello_transcript hello identity nonce binding G) = Ok code
      | _ \<Rightarrow> False)"

lemma hello_step:
  assumes env: "re_active env = Some g" "sends_ok env"
    and s: "view s = (Some g, None, 0, store, None, None, identity, path)"
    and msg: "decode_control_envelope (re_prost env) msg =
      Ok \<lparr> ce_message_id = mid, ce_connection_generation = G, ce_payload = Some (ClientHelloMsg hello) \<rparr>" "0 < mid"
    and hello: "hello_valid env hello" "\<not> is_paired store (ch_sender_id hello)"
    and challenge: "challenge_of env hello identity G hash code"
  obtains s' nonce where "receiver_step env (InTransport rs (TransportControl g msg)) s = Some (s', Ok ())"
    "view s' = (Some g, Some G, mid, store, Some (hello_sender hello), Some (opened_pairing g (re_now env) hash code), identity, path)"
    "re_nonce env = Some nonce" "told s' = say G (ServerHelloMsg (receiver_hello (re_crypto env) identity nonce hash)) (told s)"
proof -
  let ?s = "admitted G mid s"
  have v: "view ?s = (Some g, Some G, mid, store, None, None, identity, path)"
    using s by (simp add: admitted_view) (simp add: view_def)
  obtain nonce binding where nb: "re_nonce env = Some nonce" "re_binding env = Some binding"
    using challenge by (auto simp: challenge_of_def split: option.splits)
  then have c: "hello_challenge env hello ?s = Ok (nonce, hash, code)"
    using challenge v by (simp add: hello_challenge_def challenge_of_def view_def ok_or_def protocol_result_def map_err_def)
  obtain s1 where s1: "rv_send env (ServerHelloMsg (server_hello_of env ?s False nonce hash)) ?s = (s1, Ok ())" "view s1 = view ?s"
    and said: "told s1 = say G (ServerHelloMsg (server_hello_of env ?s False nonce hash)) (told ?s)"
    by (rule send_from [OF env(2) v])
  have told: "told s1 = say G (ServerHelloMsg (receiver_hello (re_crypto env) identity nonce hash)) (told s)"
    using said v by (simp add: own_messages view_def)
  have untrusted: "\<not> key_trusted hello ?s"
    using hello(2) v by (auto simp: key_trusted_def verify_paired_Ok_iff is_paired_def view_def)
  let ?r = "open_challenge env g hello False hash code s1"
  have "handle_client_hello env g hello ?s = (?r, Ok ())"
    using hello v c s1(1) untrusted by (simp add: handle_client_hello_def view_def)
  then have d: "dispatch_control env g (ClientHelloMsg hello) ?s = (?r, Ok ())"
    using v by (simp add: dispatch_control_def view_def)
  have "view ?r = (Some g, Some G, mid, store, Some (hello_sender hello), Some (opened_pairing g (re_now env) hash code), identity, path)"
    using s1(2) v by (simp add: view_def open_challenge_def upd_runtime_def upd_media_def hello_sender_def opened_pairing_def)
  moreover have "receiver_step env (InTransport rs (TransportControl g msg)) s = Some (?r, Ok ())"
    by (rule control_step [OF env(1) _ msg(1) _ _ _ d])
      (use s msg(2) admitted_phase(1) [OF s] in \<open>auto simp: view_def is_client_hello_def\<close>)
  ultimately show ?thesis using that [of ?r nonce] nb(1) told by simp
qed

lemma confirm_step:
  assumes s: "view s = (Some g, Some G, n, store, Some x, Some p, identity, path)"
    and p: "re_now env < pp_expires_at p" "\<not> pp_remote_confirmed p"
  obtains s' where "receiver_step env InConfirm s = Some (s', Ok ())"
    "view s' = (Some g, Some G, n, store, Some x, Some (p \<lparr> pp_local_confirmed := True \<rparr>), identity, path)"
    "told s' = told s"
proof (rule that)
  have "rv_pending s = Some p" using s by (simp add: view_def)
  then show "receiver_step env InConfirm s = Some (upd_pending (\<lambda>p. p \<lparr> pp_local_confirmed := True \<rparr>) s, Ok ())"
    using p by (simp add: confirm_pairing_locally_def expire_pending_pairing_if_needed_def advance_pairing_def upd_pending_def)
  show "view (upd_pending (\<lambda>p. p \<lparr> pp_local_confirmed := True \<rparr>) s) =
      (Some g, Some G, n, store, Some x, Some (p \<lparr> pp_local_confirmed := True \<rparr>), identity, path)"
    using s by (simp add: view_def upd_pending_def)
qed simp

lemma sender_confirm_step:
  assumes env: "re_active env = Some g" "sends_ok env"
    and s: "view s = (Some g, Some G, n, store, Some x, Some p, identity, path)"
    and msg: "decode_control_envelope (re_prost env) msg =
      Ok \<lparr> ce_message_id = mid, ce_connection_generation = G, ce_payload = Some (PairingConfirmMsg confirm) \<rparr>" "n < mid"
    and p: "pp_session p = g" "re_now env < pp_expires_at p" "pp_local_confirmed p" "\<not> pp_sender_committed p" "\<not> pp_approval_sent p"
    and signed: "signed_by env (snd_public_key x) (pp_transcript_hash p) SENDER_CONFIRM_PHASE confirm"
  obtains s' where "receiver_step env (InTransport rs (TransportControl g msg)) s = Some (s', Ok ())"
    "view s' = (Some g, Some G, mid, store, Some x,
       Some (p \<lparr> pp_remote_confirmed := True, pp_approval_sent := True \<rparr>), identity, path)"
    "told s' = say G (PairingApprovalMsg (signed_phase (re_crypto env) identity (pp_transcript_hash p) PAIRING_APPROVAL_PHASE)) (told s)"
proof -
  let ?s = "admitted G mid s"
  have v: "view ?s = (Some g, Some G, mid, store, Some x, Some p, identity, path)"
    using s by (simp add: admitted_view) (simp add: view_def)
  let ?u = "upd_pending (\<lambda>p. p \<lparr> pp_remote_confirmed := True \<rparr>) ?s"
  have vu: "view ?u = (Some g, Some G, mid, store, Some x, Some (p \<lparr> pp_remote_confirmed := True \<rparr>), identity, path)"
    using v by (simp add: view_def upd_pending_def)
  obtain s1 where s1: "rv_send env (PairingApprovalMsg (phase_proof env ?u (pp_transcript_hash p) PAIRING_APPROVAL_PHASE)) ?u = (s1, Ok ())"
    "view s1 = view ?u"
    "told s1 = say G (PairingApprovalMsg (phase_proof env ?u (pp_transcript_hash p) PAIRING_APPROVAL_PHASE)) (told ?u)"
    by (rule send_from [OF env(2) vu])
  let ?r = "upd_pending (\<lambda>p. p \<lparr> pp_approval_sent := True \<rparr>) s1"
  have adv: "advance_pairing env ?u = (?r, Ok ())"
    using vu p s1(1) by (simp add: advance_pairing_def view_def)
  have "handle_pairing_confirm env g confirm ?s = (?r, Ok ())"
    using v p signed adv by (simp add: handle_pairing_confirm_def view_def signed_by_def protocol_result_def map_err_def)
  then have d: "dispatch_control env g (PairingConfirmMsg confirm) ?s = (?r, Ok ())"
    using v by (simp add: dispatch_control_def view_def)
  have "receiver_step env (InTransport rs (TransportControl g msg)) s = Some (?r, Ok ())"
    by (rule control_step [OF env(1) _ msg(1) _ _ _ d])
      (use s msg(2) admitted_phase(2) [OF s] in \<open>auto simp: view_def\<close>)
  moreover have "view ?r = (Some g, Some G, mid, store, Some x,
       Some (p \<lparr> pp_remote_confirmed := True, pp_approval_sent := True \<rparr>), identity, path)"
    using s1(2) [unfolded vu] by (simp add: view_def upd_pending_def)
  moreover have "told ?r = say G (PairingApprovalMsg (signed_phase (re_crypto env) identity (pp_transcript_hash p)
      PAIRING_APPROVAL_PHASE)) (told s)"
    using s1(3) vu by (simp add: own_messages view_def)
  ultimately show ?thesis by (rule that)
qed

text \<open>The trust store after a pairing, as \<open>commit_sender\<close> leaves it.\<close>

definition paired_store :: "receiver_env \<Rightarrow> active_sender \<Rightarrow> trusted_store \<Rightarrow> trusted_store" where
  "paired_store env x store =
     (let device = trusted_device_from_pairing (cr_digests (re_crypto env)) (snd_id x) (snd_name x)
            (snd_public_key x) (re_wall_ms env)
      in if is_paired store (snd_id x) then store_upsert device store
         else prepare_trusted_identity_replacement (re_unicode env) (snd_id x) (store_upsert device store))"

lemma commit_step:
  assumes env: "re_active env = Some g" "sends_ok env"
    and s: "view s = (Some g, Some G, n, store, Some x, Some p, identity, path)"
    and msg: "decode_control_envelope (re_prost env) msg =
      Ok \<lparr> ce_message_id = mid, ce_connection_generation = G, ce_payload = Some (PairingCommitMsg commit) \<rparr>" "n < mid"
    and p: "pp_session p = g" "pp_local_confirmed p" "pp_remote_confirmed p" "\<not> pp_receiver_committed p"
    and signed: "signed_by env (snd_public_key x) (pp_transcript_hash p) PAIRING_COMMIT_PHASE commit"
    and persist: "persist_trusted env (s \<lparr> rv_trusted := paired_store env x store \<rparr>) = Ok ()"
  obtains s' store' where "receiver_step env (InTransport rs (TransportControl g msg)) s = Some (s', Ok ())"
    "view s' = (Some g, Some G, mid, store', Some (x \<lparr> snd_video_allowed := True \<rparr>), None, identity, path)"
    "verify_paired_key store' (snd_id x) (snd_public_key x) = Ok ()" "is_streaming (rv_stream s')"
    "told s' = say G (PairingCompleteMsg (signed_phase (re_crypto env) identity (pp_transcript_hash p) PAIRING_COMPLETE_PHASE)) (told s)"
proof -
  let ?s = "admitted G mid s"
  have v: "view ?s = (Some g, Some G, mid, store, Some x, Some p, identity, path)"
    using s by (simp add: admitted_view) (simp add: view_def)
  let ?u = "upd_pending (\<lambda>p. p \<lparr> pp_sender_committed := True \<rparr>) ?s"
  have vu: "view ?u = (Some g, Some G, mid, store, Some x, Some (p \<lparr> pp_sender_committed := True \<rparr>), identity, path)"
    using v by (simp add: view_def upd_pending_def)
  let ?store = "paired_store env x store"
  have stored: "verify_paired_key ?store (snd_id x) (snd_public_key x) = Ok ()"
    by (simp add: verify_paired_Ok_iff paired_store_def Let_def get_upsert trusted_device_from_pairing_def)
  have path_eq: "rv_has_store_path ?u = rv_has_store_path s" using s vu by (simp add: view_def)
  have "persist_trusted env (?u \<lparr> rv_trusted := ?store \<rparr>) = Ok ()"
    using persist path_eq by (simp add: persist_trusted_def split: if_splits)
  then have c: "commit_sender env x ?u = (upd_pending (\<lambda>p. p \<lparr> pp_receiver_committed := True \<rparr>) (?u \<lparr> rv_trusted := ?store \<rparr>), Ok ())"
    using vu by (cases "is_paired store (snd_id x)")
      (simp_all add: commit_sender_def Let_def persist_or_restore_def paired_store_def view_def)
  let ?c = "upd_pending (\<lambda>p. p \<lparr> pp_receiver_committed := True \<rparr>) (?u \<lparr> rv_trusted := ?store \<rparr>)"
  have vc: "view ?c = (Some g, Some G, mid, ?store, Some x,
      Some (p \<lparr> pp_sender_committed := True, pp_receiver_committed := True \<rparr>), identity, path)"
    by (rule view_pending(2) [OF vu])
  obtain s1 where s1: "rv_send env (PairingCompleteMsg (phase_proof env ?c (pp_transcript_hash p) PAIRING_COMPLETE_PHASE)) ?c = (s1, Ok ())"
    "view s1 = view ?c"
    "told s1 = say G (PairingCompleteMsg (phase_proof env ?c (pp_transcript_hash p) PAIRING_COMPLETE_PHASE)) (told ?c)"
    by (rule send_from [OF env(2) vc])
  let ?r = "begin_streaming g (upd_media (\<lambda>m. m \<lparr> ms_sender := map_option (\<lambda>x. x \<lparr> snd_video_allowed := True \<rparr>) (ms_sender m) \<rparr>)
             (s1 \<lparr> rv_pending := None \<rparr>))"
  have "complete_pairing env g (pp_transcript_hash p) ?c = (?r, Ok ())"
    using s1(1) by (simp add: complete_pairing_def)
  then have adv: "advance_pairing env ?u = (?r, Ok ())"
    using vu p c by (simp add: advance_pairing_def view_def)
  have "handle_pairing_commit env g commit ?s = (?r, Ok ())"
    using v p signed adv
    by (simp add: handle_pairing_commit_def verify_sender_phase_def finish_pairing_commit_def view_def signed_by_def)
  then have d: "dispatch_control env g (PairingCommitMsg commit) ?s = (?r, Ok ())"
    using v by (simp add: dispatch_control_def view_def)
  have "receiver_step env (InTransport rs (TransportControl g msg)) s = Some (?r, Ok ())"
    by (rule control_step [OF env(1) _ msg(1) _ _ _ d]) (use s msg(2) admitted_phase(2) [OF s] in \<open>auto simp: view_def\<close>)
  moreover have "view ?r = (Some g, Some G, mid, ?store, Some (x \<lparr> snd_video_allowed := True \<rparr>), None, identity, path)"
    unfolding begin_view(1) using s1(2) [unfolded vc] by (simp add: view_def upd_media_def)
  moreover have "told ?r = say G (PairingCompleteMsg (signed_phase (re_crypto env) identity (pp_transcript_hash p)
      PAIRING_COMPLETE_PHASE)) (told s)"
    using s1(3) vc by (simp add: own_messages view_def begin_view)
  ultimately show ?thesis using stored begin_streams by (intro that)
qed

section \<open>The handshake\<close>

lemma handshake_messages:
  assumes conn: "re_active env1 = Some g" "re_active env3 = Some g" "re_active env4 = Some g"
      "sends_ok env1" "sends_ok env3" "sends_ok env4"
    and fresh: "view s = (Some g, None, 0, store, None, None, identity, path)"
    and hello: "decode_control_envelope (re_prost env1) msg1 =
        Ok \<lparr> ce_message_id = m1, ce_connection_generation = G, ce_payload = Some (ClientHelloMsg hello) \<rparr>"
      "hello_valid env1 hello" "\<not> is_paired store (ch_sender_id hello)"
      "challenge_of env1 hello identity G hash code"
    and confirm: "decode_control_envelope (re_prost env3) msg3 =
        Ok \<lparr> ce_message_id = m3, ce_connection_generation = G, ce_payload = Some (PairingConfirmMsg confirm) \<rparr>"
      "signed_by env3 (ch_public_key hello) hash SENDER_CONFIRM_PHASE confirm"
    and commit: "decode_control_envelope (re_prost env4) msg4 =
        Ok \<lparr> ce_message_id = m4, ce_connection_generation = G, ce_payload = Some (PairingCommitMsg commit) \<rparr>"
      "signed_by env4 (ch_public_key hello) hash PAIRING_COMMIT_PHASE commit"
    and order: "0 < m1" "m1 < m3" "m3 < m4"
    and time: "re_now env2 < re_now env1 + PAIRING_CHALLENGE_TTL" "re_now env3 < re_now env1 + PAIRING_CHALLENGE_TTL"
    and persist: "persist_trusted env4 (s \<lparr> rv_trusted := paired_store env4 (hello_sender hello) store \<rparr>) = Ok ()"
  shows "\<exists>s'. receiver_run [(env1, InTransport rs (TransportControl g msg1)), (env2, InConfirm),
              (env3, InTransport rs (TransportControl g msg3)), (env4, InTransport rs (TransportControl g msg4))] s = Some s' \<and>
           ms_sender (rv_media s') = Some (hello_sender hello \<lparr> snd_video_allowed := True \<rparr>) \<and> rv_pending s' = None \<and>
           verify_paired_key (rv_trusted s') (ch_sender_id hello) (ch_public_key hello) = Ok () \<and>
           is_streaming (rv_stream s') \<and>
           (\<exists>nonce. re_nonce env1 = Some nonce \<and>
             told s' = say G (PairingCompleteMsg (signed_phase (re_crypto env4) identity hash PAIRING_COMPLETE_PHASE))
               (say G (PairingApprovalMsg (signed_phase (re_crypto env3) identity hash PAIRING_APPROVAL_PHASE))
                 (say G (ServerHelloMsg (receiver_hello (re_crypto env1) identity nonce hash)) (told s))))"
proof -
  let ?p = "opened_pairing g (re_now env1) hash code"
  let ?x = "hello_sender hello"
  obtain s1 nonce where s1: "receiver_step env1 (InTransport rs (TransportControl g msg1)) s = Some (s1, Ok ())"
    "view s1 = (Some g, Some G, m1, store, Some ?x, Some ?p, identity, path)"
    "re_nonce env1 = Some nonce" "told s1 = say G (ServerHelloMsg (receiver_hello (re_crypto env1) identity nonce hash)) (told s)"
    by (rule hello_step [OF conn(1) conn(4) fresh hello(1) order(1) hello(2,3,4)])
  obtain s2 where s2: "receiver_step env2 InConfirm s1 = Some (s2, Ok ())"
    "view s2 = (Some g, Some G, m1, store, Some ?x, Some (?p \<lparr> pp_local_confirmed := True \<rparr>), identity, path)"
    "told s2 = told s1"
    by (rule confirm_step [OF s1(2), of env2]) (use time in \<open>simp_all add: opened_pairing_def\<close>)
  obtain s3 where s3: "receiver_step env3 (InTransport rs (TransportControl g msg3)) s2 = Some (s3, Ok ())"
    "view s3 = (Some g, Some G, m3, store, Some ?x, Some (?p \<lparr> pp_local_confirmed := True,
       pp_remote_confirmed := True, pp_approval_sent := True \<rparr>), identity, path)"
    "told s3 = say G (PairingApprovalMsg (signed_phase (re_crypto env3) identity hash PAIRING_APPROVAL_PHASE)) (told s2)"
    by (rule sender_confirm_step [OF conn(2) conn(5) s2(2) confirm(1) order(2)])
      (use time confirm(2) in \<open>simp_all add: opened_pairing_def hello_sender_def\<close>)
  have "rv_has_store_path s3 = rv_has_store_path s" using s3(2) fresh by (simp add: view_def)
  then have persist3: "persist_trusted env4 (s3 \<lparr> rv_trusted := paired_store env4 ?x store \<rparr>) = Ok ()"
    using persist by (simp add: persist_trusted_def split: if_splits)
  obtain s4 store' where s4: "receiver_step env4 (InTransport rs (TransportControl g msg4)) s3 = Some (s4, Ok ())"
    "view s4 = (Some g, Some G, m4, store', Some (?x \<lparr> snd_video_allowed := True \<rparr>), None, identity, path)"
    "verify_paired_key store' (snd_id ?x) (snd_public_key ?x) = Ok ()" "is_streaming (rv_stream s4)"
    "told s4 = say G (PairingCompleteMsg (signed_phase (re_crypto env4) identity hash PAIRING_COMPLETE_PHASE)) (told s3)"
    by (rule commit_step [OF conn(3) conn(6) s3(2) commit(1) order(3) _ _ _ _ _ persist3])
      (use commit(2) in \<open>simp_all add: opened_pairing_def hello_sender_def\<close>)
  have "receiver_run [(env1, InTransport rs (TransportControl g msg1)), (env2, InConfirm),
      (env3, InTransport rs (TransportControl g msg3)), (env4, InTransport rs (TransportControl g msg4))] s = Some s4"
    using s1(1) s2(1) s3(1) s4(1) by simp
  with s4(2-5) s1(3,4) s2(3) s3(3) show ?thesis by (intro exI [of _ s4]) (simp add: view_def hello_sender_def)
qed

lemma honest_handshake:
  assumes conn: "re_active env1 = Some g" "re_active env3 = Some g" "re_active env4 = Some g"
      "sends_ok env1" "sends_ok env3" "sends_ok env4"
    and fresh: "view s = (Some g, None, 0, store, None, None, identity, path)"
    and hello: "decode_control_envelope (re_prost env1) msg1 =
        Ok \<lparr> ce_message_id = m1, ce_connection_generation = G, ce_payload = Some (ClientHelloMsg hello) \<rparr>"
      "hello_valid env1 hello" "\<not> is_paired store (ch_sender_id hello)"
      "challenge_of env1 hello identity G hash code"
    and confirm: "decode_control_envelope (re_prost env3) msg3 =
        Ok \<lparr> ce_message_id = m3, ce_connection_generation = G, ce_payload = Some (PairingConfirmMsg confirm) \<rparr>"
      "signed_by env3 (ch_public_key hello) hash SENDER_CONFIRM_PHASE confirm"
    and commit: "decode_control_envelope (re_prost env4) msg4 =
        Ok \<lparr> ce_message_id = m4, ce_connection_generation = G, ce_payload = Some (PairingCommitMsg commit) \<rparr>"
      "signed_by env4 (ch_public_key hello) hash PAIRING_COMMIT_PHASE commit"
    and order: "0 < m1" "m1 < m3" "m3 < m4"
    and time: "re_now env2 < re_now env1 + PAIRING_CHALLENGE_TTL" "re_now env3 < re_now env1 + PAIRING_CHALLENGE_TTL"
    and persist: "persist_trusted env4 (s \<lparr> rv_trusted := paired_store env4 (hello_sender hello) store \<rparr>) = Ok ()"
  shows "\<exists>s'. receiver_run [(env1, InTransport rs (TransportControl g msg1)), (env2, InConfirm),
              (env3, InTransport rs (TransportControl g msg3)), (env4, InTransport rs (TransportControl g msg4))] s = Some s' \<and>
           ms_sender (rv_media s') = Some (hello_sender hello \<lparr> snd_video_allowed := True \<rparr>) \<and> rv_pending s' = None \<and>
           verify_paired_key (rv_trusted s') (ch_sender_id hello) (ch_public_key hello) = Ok () \<and>
           is_streaming (rv_stream s')"
  using handshake_messages [OF assms] by blast

text \<open>An honest first pairing succeeds. On a fresh connection whose sends work, a valid \<open>ClientHello\<close> of
  an unknown sender, the user's confirmation, and then the sender's signed confirmation and signed commit, in
  order, within the challenge's lifetime and with a store that persists, leave no challenge open, the
  stream running, the sender's video admitted and its key trusted under its identifier.\<close>

lemma honest_pairing_completes:
  assumes conn: "re_active env1 = Some g" "re_active env3 = Some g" "re_active env4 = Some g"
      "sends_ok env1" "sends_ok env3" "sends_ok env4"
    and fresh: "view s = (Some g, None, 0, store, None, None, identity, path)"
    and hello: "decode_control_envelope (re_prost env1) msg1 =
        Ok \<lparr> ce_message_id = m1, ce_connection_generation = G, ce_payload = Some (ClientHelloMsg hello) \<rparr>"
      "hello_valid env1 hello" "\<not> is_paired store (ch_sender_id hello)"
      "challenge_of env1 hello identity G hash code"
    and confirm: "decode_control_envelope (re_prost env3) msg3 =
        Ok \<lparr> ce_message_id = m3, ce_connection_generation = G, ce_payload = Some (PairingConfirmMsg confirm) \<rparr>"
      "signed_by env3 (ch_public_key hello) hash SENDER_CONFIRM_PHASE confirm"
    and commit: "decode_control_envelope (re_prost env4) msg4 =
        Ok \<lparr> ce_message_id = m4, ce_connection_generation = G, ce_payload = Some (PairingCommitMsg commit) \<rparr>"
      "signed_by env4 (ch_public_key hello) hash PAIRING_COMMIT_PHASE commit"
    and order: "0 < m1" "m1 < m3" "m3 < m4"
    and time: "re_now env2 < re_now env1 + PAIRING_CHALLENGE_TTL" "re_now env3 < re_now env1 + PAIRING_CHALLENGE_TTL"
    and persist: "persist_trusted env4 (s \<lparr> rv_trusted := paired_store env4 (hello_sender hello) store \<rparr>) = Ok ()"
  shows "\<exists>s'. receiver_run [(env1, InTransport rs (TransportControl g msg1)), (env2, InConfirm),
              (env3, InTransport rs (TransportControl g msg3)), (env4, InTransport rs (TransportControl g msg4))] s = Some s' \<and>
           ms_sender (rv_media s') = Some (hello_sender hello \<lparr> snd_video_allowed := True \<rparr>) \<and> rv_pending s' = None \<and>
           verify_paired_key (rv_trusted s') (ch_sender_id hello) (ch_public_key hello) = Ok () \<and>
           is_streaming (rv_stream s')"
  using assms by (rule honest_handshake)

section \<open>A concrete handshake\<close>

definition demo_crypto :: ed25519 where
  "demo_crypto = \<lparr> cr_digests = \<lparr> dg_sha256 = (\<lambda>_. replicate 32 0), dg_key_valid = (\<lambda>_. True) \<rparr>,
     cr_public_of = (\<lambda>_. replicate 32 3), cr_sign = (\<lambda>_ _. replicate 64 0), cr_verify = (\<lambda>_ _ _. True) \<rparr>"

definition demo_identity :: device_identity where
  "demo_identity = from_signing_key demo_crypto ''Desk'' (replicate 32 9)"

definition demo_hello :: client_hello where
  "demo_hello = \<lparr> ch_sender_id = derive_device_id (cr_digests demo_crypto) (replicate 32 1), ch_device_name = ''Phone'',
     ch_public_key = replicate 32 1, ch_sender_nonce = replicate 32 2 \<rparr>"

definition demo_proof :: identity_proof where
  "demo_proof = \<lparr> ip_transcript_hash = replicate 32 0, ip_identity_signature = replicate 64 0 \<rparr>"

definition demo_prost :: "bytes \<Rightarrow> control_envelope option" where
  "demo_prost msg =
     (if msg = [1] then Some \<lparr> ce_message_id = 1, ce_connection_generation = 7, ce_payload = Some (ClientHelloMsg demo_hello) \<rparr>
      else if msg = [2] then Some \<lparr> ce_message_id = 2, ce_connection_generation = 7, ce_payload = Some (PairingConfirmMsg demo_proof) \<rparr>
      else if msg = [3] then Some \<lparr> ce_message_id = 3, ce_connection_generation = 7, ce_payload = Some (PairingCommitMsg demo_proof) \<rparr>
      else None)"

definition demo_env :: receiver_env where
  "demo_env = \<lparr> re_media = \<lparr> en_now = 0, en_active_session = Some 5, en_rtt_ms = None, en_send_ok = (\<lambda>_. True) \<rparr>,
     re_wall_ms = 0, re_nonce = Some (replicate 32 4), re_binding = Some (replicate 32 6), re_crypto = demo_crypto,
     re_unicode = sample_unicode, re_print = (\<lambda>_. None), re_write = (\<lambda>_. True),
     re_syntax = \<lparr> se_avc_sps = (\<lambda>_. None), se_decode_nal = (\<lambda>_. None), se_hevc_sps = (\<lambda>_. None),
       se_avc_record = (\<lambda>_. None), se_avc_build = (\<lambda>_. None), se_hevc_record = (\<lambda>_. None) \<rparr>,
     re_prost = demo_prost, re_latest = None, re_placeholder_ok = True \<rparr>"

definition demo_session :: receiver_session where
  "demo_session = receiver_session_new 0 demo_identity \<lparr> rv_active_generation := Some 5 \<rparr>"

definition demo_rs :: rs_codec where
  "demo_rs = \<lparr> rs_encode_sep = (\<lambda>_ _ _. None), rs_reconstruct_data = (\<lambda>_ _ _. None) \<rparr>"

definition demo_trace :: receiver_trace where
  "demo_trace = [(demo_env, InTransport demo_rs (TransportControl 5 [1])), (demo_env, InConfirm),
     (demo_env, InTransport demo_rs (TransportControl 5 [2])), (demo_env, InTransport demo_rs (TransportControl 5 [3]))]"

lemma demo_basics:
  "re_active demo_env = Some 5" "sends_ok demo_env" "re_now demo_env = 0" "re_crypto demo_env = demo_crypto"
  "view demo_session = (Some 5, None, 0, store_new, None, None, demo_identity, False)"
  by (simp_all add: demo_env_def sends_ok_def demo_session_def receiver_session_new_def media_session_new_def view_def)

lemma demo_messages:
  "decode_control_envelope (re_prost demo_env) [1] =
     Ok \<lparr> ce_message_id = 1, ce_connection_generation = 7, ce_payload = Some (ClientHelloMsg demo_hello) \<rparr>"
  "decode_control_envelope (re_prost demo_env) [2] =
     Ok \<lparr> ce_message_id = 2, ce_connection_generation = 7, ce_payload = Some (PairingConfirmMsg demo_proof) \<rparr>"
  "decode_control_envelope (re_prost demo_env) [3] =
     Ok \<lparr> ce_message_id = 3, ce_connection_generation = 7, ce_payload = Some (PairingCommitMsg demo_proof) \<rparr>"
  by (simp_all add: decode_control_envelope_def demo_env_def demo_prost_def ok_or_def)

lemma demo_hash:
  "transcript_hash (cr_digests demo_crypto) (hello_transcript demo_hello demo_identity (replicate 32 4) (replicate 32 6) 7) =
     Ok (replicate 32 0)"
proof -
  let ?t = "hello_transcript demo_hello demo_identity (replicate 32 4) (replicate 32 6) 7"
  have small: "\<forall>x \<in> set (transcript_fields ?t). length x < 256 ^ 4"
    by (simp add: transcript_fields_def hello_transcript_def demo_hello_def demo_identity_def from_signing_key_def
        demo_crypto_def derive_device_id_def hex_encode_def ascii_bytes_def ALPN_def length_concat sum_list_replicate)
  have "encode_transcript ?t = Ok (TRANSCRIPT_DOMAIN @ concat (map (len_prefixed 4) (transcript_fields ?t)) @
      be_bytes 8 (tr_connection_generation ?t))"
    unfolding encode_transcript_Ok by (rule conjI [OF refl small])
  then show ?thesis
    by (simp add: transcript_hash_def fixed_fields_def) (simp add: hello_transcript_def demo_hello_def
        demo_identity_def from_signing_key_def demo_crypto_def derive_device_id_def ALPN_def)
qed

lemma demo_checks:
  "hello_valid demo_env demo_hello" "\<not> is_paired store_new (ch_sender_id demo_hello)"
  "challenge_of demo_env demo_hello demo_identity 7 (replicate 32 0) (six_digits (be_val (replicate 4 0) mod 1000000))"
  "phase = SENDER_CONFIRM_PHASE \<or> phase = PAIRING_COMMIT_PHASE \<Longrightarrow>
     signed_by demo_env (ch_public_key demo_hello) (replicate 32 0) phase demo_proof"
proof -
  show "hello_valid demo_env demo_hello"
    by (simp add: hello_valid_def demo_basics demo_hello_def derive_device_id_def)
  show "\<not> is_paired store_new (ch_sender_id demo_hello)" by (simp add: is_paired_def store_get_def store_new_def)
  have "short_code (cr_digests demo_crypto) (hello_transcript demo_hello demo_identity (replicate 32 4) (replicate 32 6) 7) =
      Ok (six_digits (be_val (replicate 4 0) mod 1000000))"
    by (simp add: short_code_def demo_hash)
  moreover have "re_nonce demo_env = Some (replicate 32 4)" "re_binding demo_env = Some (replicate 32 6)"
    by (simp_all add: demo_env_def)
  ultimately show "challenge_of demo_env demo_hello demo_identity 7 (replicate 32 0) (six_digits (be_val (replicate 4 0) mod 1000000))"
    by (simp add: challenge_of_def demo_basics demo_hash)
  show "signed_by demo_env (ch_public_key demo_hello) (replicate 32 0) phase demo_proof"
    by (simp add: signed_by_def demo_proof_def demo_basics verify_transcript_phase_def verify_identity_signature_def
        demo_hello_def demo_crypto_def PUBLIC_KEY_LEN_def SIGNATURE_LEN_def)
qed

text \<open>The same run, for the guarantees below.\<close>

lemma demo_run:
  obtains s' x where "receiver_run demo_trace demo_session = Some s'" "ms_sender (rv_media s') = Some x"
    "snd_video_allowed x" "snd_id x = ch_sender_id demo_hello" "snd_public_key x = ch_public_key demo_hello"
    "verify_paired_key (rv_trusted s') (ch_sender_id demo_hello) (ch_public_key demo_hello) = Ok ()"
proof -
  have "\<exists>s'. receiver_run demo_trace demo_session = Some s' \<and>
     ms_sender (rv_media s') = Some (hello_sender demo_hello \<lparr> snd_video_allowed := True \<rparr>) \<and> rv_pending s' = None \<and>
     verify_paired_key (rv_trusted s') (ch_sender_id demo_hello) (ch_public_key demo_hello) = Ok () \<and>
     is_streaming (rv_stream s')"
    unfolding demo_trace_def
    by (rule honest_handshake [OF demo_basics(1,1,1,2,2,2,5) demo_messages(1) demo_checks(1,2,3)
          demo_messages(2) demo_checks(4) demo_messages(3) demo_checks(4)])
      (simp_all add: demo_basics PAIRING_CHALLENGE_TTL_def persist_trusted_def demo_session_def receiver_session_new_def)
  then show ?thesis using that by (auto simp: hello_sender_def)
qed

section \<open>Consent\<close>

text \<open>C4: No video without consent. Whatever messages arrive and whatever else happens, when the receiver
  admits a sender's video, that sender opened a challenge with a valid \<open>ClientHello\<close>, signed this very
  challenge for confirmation and for commit, and the user confirmed it while it was the one shown, or, at
  the moment the \<open>ClientHello\<close> arrived, automatic acceptance was on and the sender's key was in the trust
  store: put there before the run or by such a confirmed pairing earlier on, and not revoked since.\<close>

theorem video_needs_consent:
  assumes "receiver_run tr s0 = Some s" "ms_sender (rv_media s0) = None"
    and "ms_sender (rv_media s) = Some x" "snd_video_allowed x"
  shows "authorised s0 tr (snd_id x) (snd_public_key x)"
  using run_inv [OF assms(2,1)] assms(3,4) by (auto simp: consent_inv_def)

text \<open>C5: No trust without consent: a key the receiver trusts after a run was trusted before it, or its owner
  and the user completed a pairing in the run. No message, error, failed write or restart of a connection adds one.\<close>

theorem trust_needs_consent:
  assumes "receiver_run tr s0 = Some s" "ms_sender (rv_media s0) = None"
    and "verify_paired_key (rv_trusted s) sid key = Ok ()"
  shows "verify_paired_key (rv_trusted s0) sid key = Ok () \<or> user_paired s0 tr sid key"
  using run_inv [OF assms(2,1)] assms(3) by (auto simp: consent_inv_def known_key_def)

theorem video_needs_consent_witness:
  "authorised demo_session demo_trace (ch_sender_id demo_hello) (ch_public_key demo_hello)"
proof -
  obtain s' x where r: "receiver_run demo_trace demo_session = Some s'" "ms_sender (rv_media s') = Some x"
    "snd_video_allowed x" and x: "snd_id x = ch_sender_id demo_hello" "snd_public_key x = ch_public_key demo_hello"
    using demo_run by blast
  have "ms_sender (rv_media demo_session) = None"
    by (simp add: demo_session_def receiver_session_new_def media_session_new_def)
  from video_needs_consent [OF r(1) this r(2,3)] show ?thesis by (simp add: x)
qed

theorem trust_needs_consent_witness:
  "user_paired demo_session demo_trace (ch_sender_id demo_hello) (ch_public_key demo_hello)"
proof -
  obtain s' x where r: "receiver_run demo_trace demo_session = Some s'"
    and v: "verify_paired_key (rv_trusted s') (ch_sender_id demo_hello) (ch_public_key demo_hello) = Ok ()"
    using demo_run by blast
  have none: "ms_sender (rv_media demo_session) = None"
    by (simp add: demo_session_def receiver_session_new_def media_session_new_def)
  have "verify_paired_key (rv_trusted demo_session) (ch_sender_id demo_hello) (ch_public_key demo_hello) \<noteq> Ok ()"
    by (simp add: verify_paired_Ok_iff demo_session_def receiver_session_new_def store_new_def store_get_def)
  with trust_needs_consent [OF r none v] show ?thesis by blast
qed

end
