(* ===== verification/Sender_Handshake.thy ===== *)
theory Sender_Handshake
  imports Sender_Consent Pairing_Completes
begin

text \<open>
  A first pairing from both ends: the sender's session of this development talks to the receiver's. Each
  end's messages are the ones the other end's model sends; over an authentic channel both end with a
  running stream and each other's key in their trust stores.
\<close>

section \<open>One control message at the sender\<close>

lemma control_reaches_handler:
  assumes g: "active_session s = Some g"
    and msg: "decode_control_envelope (te_prost env) msg =
      Ok \<lparr> ce_message_id = mid, ce_connection_generation = g, ce_payload = Some payload \<rparr>"
    and order: "sx_last_message_id s < mid" and allowed: "control_payload_allowed payload (s \<lparr> sx_last_message_id := mid \<rparr>)"
  shows "handle_polled env (TransportControl g msg) s = tx_dispatch_control env g payload (s \<lparr> sx_last_message_id := mid \<rparr>)"
proof -
  have "apply_sender_event env (TxControlReceived g) s = (s, Ok [TxAcceptControl])"
    using g by (simp add: apply_sender_event.simps active_session_def)
  then show ?thesis using assms by (simp add: tx_handle_control_def)
qed

lemma pump_single:
  assumes "sx_polls s = [ev] # rest" "handle_polled env ev (s \<lparr> sx_polls := rest \<rparr>) = (s1, Ok ())"
    and "sx_apply s1 = EncoderCommitted" "sx_reconnect_after s1 = None"
  shows "sender_pump env s =
    (if sender_streaming s1 then tx_then (send_pending_stream_config env s1) (\<lambda>_. maybe_send_sender_stats env) else (s1, Ok ()))"
proof -
  have "tx_drain_events env s = (s1, Ok ())" using assms(1,2) by (simp add: tx_drain_events_def)
  moreover have "expire_encoder_transaction env s1 = (s1, Ok ())"
  proof -
    have "s1 \<lparr> sx_apply := EncoderCommitted \<rparr> = s1" using assms(3) by simp
    then show ?thesis using assms(3) by (simp add: expire_encoder_transaction_def tx_ignore_def)
  qed
  ultimately show ?thesis using assms(4) by (simp add: sender_pump_def reconnect_if_due_def)
qed

section \<open>The sender's steps\<close>

type_synonym sender_view =
  "sender_reducer_state \<times> sender_pairing option \<times> bytes option \<times> nat \<times> nat \<times> trusted_store \<times> bool \<times> device_identity
     \<times> nat option \<times> transport_event list list \<times> bool \<times> (nat \<times> control_envelope) list"

definition tview :: "sender_session \<Rightarrow> sender_view" where
  "tview s = (sx_lifecycle s, sx_pairing s, sx_nonce s, sx_next_message_id s, sx_last_message_id s, sx_trusted s,
     sx_has_store_path s, sx_identity s, sx_reconnect_after s, sx_polls s, sx_hello_requested s, sx_sent s)"

definition at_rest :: "sender_session \<Rightarrow> bool" where
  "at_rest s \<longleftrightarrow> sx_capabilities s = None \<and> sx_apply s = EncoderCommitted"

definition tx_sends_ok :: "sender_env \<Rightarrow> bool" where
  "tx_sends_ok env \<longleftrightarrow> (\<forall>g n. te_send_ok env g n)"

definition dialling :: "nat \<Rightarrow> sender_reducer_state" where
  "dialling g = \<lparr> tx_runtime = runtime_default \<lparr> rt_connection := ConnConnecting \<rparr>, tx_active_generation = None,
     tx_pending_generation = Some g, tx_resources_active = True, tx_reconnect_enabled = True, tx_reconnect_pending = False \<rparr>"

definition on_line :: "nat \<Rightarrow> trust_state \<Rightarrow> stream_state \<Rightarrow> sender_reducer_state" where
  "on_line g trust stream = \<lparr> tx_runtime = \<lparr> rt_connection = ConnConnected g, rt_trust = trust, rt_stream = stream,
       rt_output = OutputReady, rt_health = HealthHealthy \<rparr>, tx_active_generation = Some g,
     tx_pending_generation = None, tx_resources_active = True, tx_reconnect_enabled = True, tx_reconnect_pending = False \<rparr>"

lemma connect_step:
  assumes "tview s = (sender_default, None, None, n, m, store, path, identity, r, [] # polls, False, sent)" "at_rest s"
    and "te_connect env = Some g"
  obtains s1 where "sender_step env (SxConnect endpoint) s = (s1, Ok ())" "at_rest s1"
    "tview s1 = (dialling g, None, None, n, m, store, path, identity, None, polls, False, sent)"
proof -
  have "\<exists>s1. sender_step env (SxConnect endpoint) s = (s1, Ok ()) \<and> at_rest s1 \<and>
      tview s1 = (dialling g, None, None, n, m, store, path, identity, None, polls, False, sent)"
    using assms
    by (simp add: sender_connect_def apply_sender_event.simps take_generation_def sender_default_def tview_def at_rest_def
        tx_drain_events_def tx_forget_def dialling_def reset_session_def runtime_default_def)
  then show ?thesis using that by blast
qed

lemma greet_step:
  assumes "tview s = (dialling g, None, None, n, m, store, path, identity, None, polls, False, sent)" "at_rest s"
  obtains s1 where "sender_step env SxHello s = (s1, Ok ())" "at_rest s1"
    "tview s1 = (dialling g, None, None, n, m, store, path, identity, None, polls, True, sent)"
proof -
  have "\<exists>s1. sender_step env SxHello s = (s1, Ok ()) \<and> at_rest s1 \<and>
      tview s1 = (dialling g, None, None, n, m, store, path, identity, None, polls, True, sent)"
    using assms by (simp add: send_client_hello_def tview_def at_rest_def dialling_def active_session_def sx_runtime_def)
  then show ?thesis using that by blast
qed

definition sent_message :: "nat \<Rightarrow> nat \<Rightarrow> control_payload \<Rightarrow> nat \<times> control_envelope" where
  "sent_message g mid payload =
     (g, \<lparr> ce_message_id = mid, ce_connection_generation = g, ce_payload = Some payload \<rparr>)"

lemma tx_send_view:
  assumes "tx_sends_ok env" "sx_next_message_id s < u64_max"
  shows "tx_send env g payload s = (s \<lparr> sx_next_message_id := Suc (sx_next_message_id s),
    sx_sent := sx_sent s @ [sent_message g (sx_next_message_id s) payload] \<rparr>, Ok ())"
  using assms by (simp add: tx_send_def tx_sends_ok_def sent_message_def Let_def sat_add_def)

lemma connected_step:
  assumes v: "tview s = (dialling g, None, None, n, m, store, path, identity, None, [TransportConnected g] # polls, True, sent)"
    and env: "at_rest s" "tx_sends_ok env" "te_nonce env = Some nonce"
  obtains s1 where "sender_step env SxPump s = (s1, Ok ())" "at_rest s1"
    "tview s1 = (on_line g TrustUnknown StreamNegotiating, None, Some nonce, 2, 0, store, path, identity, None, polls, True,
       sent @ [sent_message g 1 (ClientHelloMsg (client_hello_of identity nonce))])"
proof -
  let ?s = "s \<lparr> sx_polls := polls \<rparr>"
  have "\<exists>s1. handle_polled env (TransportConnected g) ?s = (s1, Ok ()) \<and> at_rest s1 \<and>
    tview s1 = (on_line g TrustUnknown StreamNegotiating, None, Some nonce, 2, 0, store, path, identity, None, polls, True,
       sent @ [sent_message g 1 (ClientHelloMsg (client_hello_of identity nonce))])"
    using assms
    by (simp add: apply_sender_event.simps tview_def at_rest_def dialling_def reset_session_def runtime_default_def Let_def
        emit_client_hello_def active_session_def tx_send_view tx_ignore_def tx_upd_runtime_def sx_runtime_def
        set_stream_def on_line_def u64_max_def)
  then obtain s1 where s1: "handle_polled env (TransportConnected g) ?s = (s1, Ok ())" "at_rest s1"
    "tview s1 = (on_line g TrustUnknown StreamNegotiating, None, Some nonce, 2, 0, store, path, identity, None, polls, True,
       sent @ [sent_message g 1 (ClientHelloMsg (client_hello_of identity nonce))])" by blast
  have "sender_step env SxPump s = (s1, Ok ())"
    using pump_single [of s "TransportConnected g" polls env s1] s1 v
    by (simp add: tview_def at_rest_def sender_streaming_def sx_runtime_def on_line_def)
  with s1(2,3) show ?thesis using that by blast
qed

definition checks_receiver ::
  "sender_env \<Rightarrow> device_identity \<Rightarrow> bytes \<Rightarrow> nat \<Rightarrow> server_hello \<Rightarrow> bytes \<Rightarrow> string \<Rightarrow> bool" where
  "checks_receiver env identity nonce g hello hash code \<longleftrightarrow>
     sh_receiver_id hello \<noteq> [] \<and> derive_device_id (cr_digests (te_crypto env)) (sh_public_key hello) = sh_receiver_id hello \<and>
     length (sh_receiver_nonce hello) = 32 \<and> sh_transcript_hash hello = hash \<and>
     verify_transcript_phase (te_crypto env) (sh_public_key hello) hash SERVER_HELLO_PHASE (sh_identity_signature hello) = Ok () \<and>
     (case te_binding env g of
        None \<Rightarrow> False
      | Some binding \<Rightarrow>
          transcript_hash (cr_digests (te_crypto env)) (server_transcript identity nonce hello binding g) = Ok hash \<and>
          short_code (cr_digests (te_crypto env)) (server_transcript identity nonce hello binding g) = Ok code)"

definition opened_by :: "server_hello \<Rightarrow> bytes \<Rightarrow> string \<Rightarrow> sender_pairing" where
  "opened_by hello hash code =
     \<lparr> spg_receiver_id = sh_receiver_id hello, spg_display_name = sh_display_name hello,
       spg_public_key = sh_public_key hello, spg_transcript_hash = hash, spg_short_code = code,
       spg_pairing_required = True, spg_confirm_sent = False, spg_trust_committed = False \<rparr>"

lemma pump_control:
  assumes v: "tview s = (on_line g trust stream, p, non, n, m, store, path, identity, None, [TransportControl g msg] # polls, h, sent)"
    and msg: "decode_control_envelope (te_prost env) msg =
      Ok \<lparr> ce_message_id = mid, ce_connection_generation = g, ce_payload = Some payload \<rparr>" "m < mid"
    and allowed: "control_payload_allowed payload (s \<lparr> sx_polls := polls, sx_last_message_id := mid \<rparr>)"
    and handled: "tx_dispatch_control env g payload (s \<lparr> sx_polls := polls, sx_last_message_id := mid \<rparr>) = (s1, Ok ())"
    and rest: "at_rest s1" "sx_reconnect_after s1 = None"
  shows "sender_step env SxPump s =
    (if sender_streaming s1 then tx_then (send_pending_stream_config env s1) (\<lambda>_. maybe_send_sender_stats env) else (s1, Ok ()))"
proof -
  let ?s = "s \<lparr> sx_polls := polls \<rparr>"
  have "handle_polled env (TransportControl g msg) ?s = (s1, Ok ())"
    using control_reaches_handler [of ?s g env msg mid payload] v msg allowed handled
    by (simp add: tview_def active_session_def on_line_def)
  then show ?thesis
    using pump_single [of s "TransportControl g msg" polls env s1] v rest by (simp add: tview_def at_rest_def)
qed

lemma server_hello_step:
  assumes v: "tview s = (on_line g TrustUnknown StreamNegotiating, None, Some nonce, n, m, store, path, identity, None,
      [TransportControl g msg] # polls, h, sent)" and rest: "at_rest s"
    and msg: "decode_control_envelope (te_prost env) msg =
      Ok \<lparr> ce_message_id = mid, ce_connection_generation = g, ce_payload = Some (ServerHelloMsg hello) \<rparr>" "m < mid"
    and hello: "sh_pairing_required hello" "\<not> is_paired store (sh_receiver_id hello)"
    and checks: "checks_receiver env identity nonce g hello hash code"
  obtains s1 where "sender_step env SxPump s = (s1, Ok ())" "at_rest s1"
    "tview s1 = (on_line g TrustPairing StreamNegotiating, Some (opened_by hello hash code), Some nonce, n, mid, store,
       path, identity, None, polls, h, sent)"
proof -
  let ?s = "s \<lparr> sx_polls := polls, sx_last_message_id := mid \<rparr>"
  let ?s1 = "open_pairing hello hash code ?s"
  have act: "active_session ?s = Some g" using v by (simp add: tview_def active_session_def on_line_def)
  have "check_server_hello env hello ?s = Ok (hash, code)"
    using checks hello v act
    by (auto simp: check_server_hello_def checks_receiver_def tview_def ok_or_def guard_err_def map_err_def rbind_Ok_iff
        split: option.splits)
  then have d: "tx_dispatch_control env g (ServerHelloMsg hello) ?s = (?s1, Ok ())"
    using hello(1) by (simp add: on_server_hello_def Let_def)
  have "control_payload_allowed (ServerHelloMsg hello) ?s"
    using v by (simp add: tview_def on_line_def hello_payload_allowed_def sx_runtime_def)
  from pump_control [OF v msg this d] rest v have "sender_step env SxPump s = (?s1, Ok ())"
    by (simp add: at_rest_def tview_def open_pairing_def tx_upd_runtime_def sender_streaming_def sx_runtime_def set_stream_def
        set_trust_def)
  moreover have "at_rest ?s1" using rest by (simp add: at_rest_def open_pairing_def tx_upd_runtime_def)
  moreover have "tview ?s1 = (on_line g TrustPairing StreamNegotiating, Some (opened_by hello hash code), Some nonce, n, mid, store,
       path, identity, None, polls, h, sent)"
    using v hello(1)
    by (simp add: tview_def open_pairing_def tx_upd_runtime_def sx_runtime_def set_stream_def set_trust_def on_line_def opened_by_def)
  ultimately show ?thesis by (rule that)
qed

lemma tx_confirm_step:
  assumes v: "tview s = (on_line g TrustPairing StreamNegotiating, Some p, non, n, m, store, path, identity, None, polls, h, sent)"
    and rest: "at_rest s" and p: "spg_pairing_required p" and env: "tx_sends_ok env" "n < u64_max"
  obtains s1 where "sender_step env (SxConfirm (spg_receiver_id p)) s = (s1, Ok ())" "at_rest s1"
    "tview s1 = (on_line g TrustPairing StreamNegotiating, Some (p \<lparr> spg_confirm_sent := True \<rparr>), non, Suc n, m, store,
       path, identity, None, polls, h,
       sent @ [sent_message g n (PairingConfirmMsg (signed_phase (te_crypto env) identity (spg_transcript_hash p) SENDER_CONFIRM_PHASE))])"
proof -
  have f: "active_session s = Some g" "sx_pairing s = Some p" "sx_next_message_id s = n"
    using v by (simp_all add: tview_def active_session_def on_line_def)
  have "\<exists>s1. sender_step env (SxConfirm (spg_receiver_id p)) s = (s1, Ok ()) \<and> at_rest s1 \<and>
    tview s1 = (on_line g TrustPairing StreamNegotiating, Some (p \<lparr> spg_confirm_sent := True \<rparr>), non, Suc n, m, store,
       path, identity, None, polls, h,
       sent @ [sent_message g n (PairingConfirmMsg (signed_phase (te_crypto env) identity (spg_transcript_hash p) SENDER_CONFIRM_PHASE))])"
    using f v rest p env
    by (simp add: send_pairing_confirm_def send_identity_confirm_def tx_send_view upd_pairing_def tview_def at_rest_def
        tx_phase_proof_def signed_phase_def)
  then show ?thesis using that by blast
qed

definition receiver_signed :: "sender_env \<Rightarrow> sender_pairing \<Rightarrow> bytes \<Rightarrow> identity_proof \<Rightarrow> bool" where
  "receiver_signed env p phase idp \<longleftrightarrow> ip_transcript_hash idp = spg_transcript_hash p \<and>
     verify_transcript_phase (te_crypto env) (spg_public_key p) (spg_transcript_hash p) phase (ip_identity_signature idp) = Ok ()"

lemma approval_step:
  assumes v: "tview s = (on_line g TrustPairing StreamNegotiating, Some p, non, n, m, store, path, identity, None,
      [TransportControl g msg] # polls, h, sent)" and rest: "at_rest s"
    and msg: "decode_control_envelope (te_prost env) msg =
      Ok \<lparr> ce_message_id = mid, ce_connection_generation = g, ce_payload = Some (PairingApprovalMsg approval) \<rparr>" "m < mid"
    and signed: "receiver_signed env p PAIRING_APPROVAL_PHASE approval"
    and p: "spg_receiver_id p \<noteq> []" "spg_confirm_sent p" "\<not> spg_trust_committed p"
    and env: "tx_sends_ok env" "n < u64_max"
    and persist: "tx_persist_trusted env (s \<lparr> sx_trusted := paired_receiver_store env p store \<rparr>) = Ok ()"
  obtains s1 where "sender_step env SxPump s = (s1, Ok ())" "at_rest s1"
    "tview s1 = (on_line g TrustPairing StreamNegotiating, Some (p \<lparr> spg_trust_committed := True \<rparr>), non, Suc n, mid,
       paired_receiver_store env p store, path, identity, None, polls, h,
       sent @ [sent_message g n (PairingCommitMsg (signed_phase (te_crypto env) identity (spg_transcript_hash p) PAIRING_COMMIT_PHASE))])"
proof -
  let ?s = "s \<lparr> sx_polls := polls, sx_last_message_id := mid \<rparr>"
  have f: "active_session ?s = Some g" "sx_pairing ?s = Some p" "sx_next_message_id s = n" "sx_trusted s = store"
    "tx_status ?s = TxPairing"
    using v by (simp_all add: tview_def active_session_def on_line_def tx_status_def sx_runtime_def sender_status_of_def
        connected_sender_status_def)
  have pers: "tx_persist_trusted env (?s \<lparr> sx_trusted := paired_receiver_store env p store \<rparr>) = Ok ()"
    using persist by (simp add: tx_persist_trusted_def split: if_splits)
  have "\<exists>s1. tx_dispatch_control env g (PairingApprovalMsg approval) ?s = (s1, Ok ()) \<and> at_rest s1 \<and>
    tview s1 = (on_line g TrustPairing StreamNegotiating, Some (p \<lparr> spg_trust_committed := True \<rparr>), non, Suc n, mid,
       paired_receiver_store env p store, path, identity, None, polls, h,
       sent @ [sent_message g n (PairingCommitMsg (signed_phase (te_crypto env) identity (spg_transcript_hash p) PAIRING_COMMIT_PHASE))])"
    using f v rest p env signed pers
    by (simp add: handle_pairing_approval_def verify_receiver_phase_def receiver_signed_def accept_pairing_approval_def
        commit_receiver_def send_pairing_commit_def upd_pairing_def active_session_def tx_send_view tview_def at_rest_def
        tx_phase_proof_def signed_phase_def)
  then obtain s1 where s1: "tx_dispatch_control env g (PairingApprovalMsg approval) ?s = (s1, Ok ())" "at_rest s1"
    "tview s1 = (on_line g TrustPairing StreamNegotiating, Some (p \<lparr> spg_trust_committed := True \<rparr>), non, Suc n, mid,
       paired_receiver_store env p store, path, identity, None, polls, h,
       sent @ [sent_message g n (PairingCommitMsg (signed_phase (te_crypto env) identity (spg_transcript_hash p) PAIRING_COMMIT_PHASE))])"
    by blast
  have "control_payload_allowed (PairingApprovalMsg approval) ?s"
    using v by (simp add: tview_def on_line_def pairing_payload_allowed_def sx_runtime_def)
  from pump_control [OF v msg this s1(1,2)] s1(3) have "sender_step env SxPump s = (s1, Ok ())"
    by (simp add: tview_def sender_streaming_def sx_runtime_def on_line_def)
  then show ?thesis using s1(2,3) by (rule that)
qed

lemma paired_receiver_verifies:
  assumes "\<not> is_paired store (spg_receiver_id p)"
  shows "verify_paired_key (paired_receiver_store env p store) (spg_receiver_id p) (spg_public_key p) = Ok ()"
  using assms by (simp add: verify_paired_Ok_iff paired_receiver_store_def get_upsert trusted_device_from_pairing_def)

lemma complete_step:
  assumes v: "tview s = (on_line g TrustPairing StreamNegotiating, Some p, non, n, m, store, path, identity, None,
      [TransportControl g msg] # polls, h, sent)" and rest: "at_rest s"
    and msg: "decode_control_envelope (te_prost env) msg =
      Ok \<lparr> ce_message_id = mid, ce_connection_generation = g, ce_payload = Some (PairingCompleteMsg idp) \<rparr>" "m < mid"
    and signed: "receiver_signed env p PAIRING_COMPLETE_PHASE idp"
    and p: "spg_confirm_sent p" "spg_trust_committed p"
    and stored: "verify_paired_key store (spg_receiver_id p) (spg_public_key p) = Ok ()"
    and env: "tx_sends_ok env" "n < u64_max"
  obtains s1 where "sender_step env SxPump s = (s1, Ok ())" "sender_streaming s1" "sx_pairing s1 = Some p"
    "active_session s1 = Some g" "sx_trusted s1 = store" "\<exists>more. sx_sent s1 = sent @ more"
proof -
  let ?s = "s \<lparr> sx_polls := polls, sx_last_message_id := mid \<rparr>"
  have f: "active_session ?s = Some g" "sx_pairing ?s = Some p" "sx_next_message_id s = n" "sx_trusted s = store"
    "tx_status ?s = TxPairing" "sx_capabilities s = None"
    using v rest by (simp_all add: tview_def active_session_def on_line_def tx_status_def sx_runtime_def sender_status_of_def connected_sender_status_def
        at_rest_def)
  let ?s1 = "tx_upd_runtime (\<lambda>rt. set_health HealthHealthy (set_stream (StreamStreaming (sx_epoch s)) (set_trust TrustAuthenticated rt)))
      (?s \<lparr> sx_error := None \<rparr>) \<lparr> sx_keyframe_requested := True \<rparr>"
  have "tx_dispatch_control env g (PairingCompleteMsg idp) ?s = (?s1, Ok ())"
    using f signed p stored
    by (simp add: handle_pairing_complete_def verify_receiver_phase_def receiver_signed_def accept_pairing_complete_def
        enter_streaming_def send_pending_stream_config_def tx_upd_runtime_def tx_ignore_def)
  moreover have "control_payload_allowed (PairingCompleteMsg idp) ?s"
    using v by (simp add: tview_def on_line_def pairing_payload_allowed_def sx_runtime_def)
  moreover have "at_rest ?s1" using rest by (simp add: at_rest_def tx_upd_runtime_def)
  moreover have str: "sender_streaming ?s1"
    by (simp add: sender_streaming_def sx_runtime_def tx_upd_runtime_def set_stream_def set_health_def)
  ultimately have step: "sender_step env SxPump s = maybe_send_sender_stats env ?s1"
    using pump_control [OF v msg] v f(6)
    by (simp add: tview_def send_pending_stream_config_def tx_upd_runtime_def)
  have "\<exists>s1. maybe_send_sender_stats env ?s1 = (s1, Ok ()) \<and> sender_streaming s1 \<and> sx_pairing s1 = Some p \<and>
      active_session s1 = Some g \<and> sx_trusted s1 = store \<and> (\<exists>more. sx_sent s1 = sent @ more)"
    using f env v str by (simp add: maybe_send_sender_stats_def active_session_def tx_upd_runtime_def tx_send_view
        sender_streaming_def sx_runtime_def tview_def)
  then show ?thesis using that step by auto
qed

section \<open>The sender's side of a pairing\<close>

definition carries :: "(bytes \<Rightarrow> control_envelope option) \<Rightarrow> bytes \<Rightarrow> nat \<Rightarrow> nat \<Rightarrow> control_payload \<Rightarrow> bool" where
  "carries prost msg g mid payload \<longleftrightarrow> decode_control_envelope prost msg =
     Ok \<lparr> ce_message_id = mid, ce_connection_generation = g, ce_payload = Some payload \<rparr>"

definition receiver_knows :: "sender_session \<Rightarrow> server_hello \<Rightarrow> bool" where
  "receiver_knows s hello \<longleftrightarrow> verify_paired_key (sx_trusted s) (sh_receiver_id hello) (sh_public_key hello) = Ok ()"

definition pairing_polls :: "nat \<Rightarrow> bytes \<Rightarrow> bytes \<Rightarrow> bytes \<Rightarrow> transport_event list list" where
  "pairing_polls G k1 k2 k3 =
     [[], [TransportConnected G], [TransportControl G k1], [TransportControl G k2], [TransportControl G k3]]"

lemma sender_side:
  assumes s: "tview s = (sender_default, None, None, n, m, store, path, identity, None, pairing_polls G k1 k2 k3 @ polls, False, [])"
      "at_rest s"
    and dial: "te_connect t0 = Some G" and sends: "\<forall>t \<in> {t2, t4, t5, t6}. tx_sends_ok t"
    and nonce: "te_nonce t2 = Some nonce"
    and hello: "carries (te_prost t3) k1 G 1 (ServerHelloMsg hello)" "sh_pairing_required hello"
      "\<not> is_paired store (sh_receiver_id hello)" "checks_receiver t3 identity nonce G hello hash code"
    and approval: "carries (te_prost t5) k2 G 2 (PairingApprovalMsg approval)"
      "receiver_signed t5 (opened_by hello hash code) PAIRING_APPROVAL_PHASE approval"
    and complete: "carries (te_prost t6) k3 G 3 (PairingCompleteMsg idp)"
      "receiver_signed t6 (opened_by hello hash code) PAIRING_COMPLETE_PHASE idp"
    and persist: "tx_persist_trusted t5 (s \<lparr> sx_trusted := paired_receiver_store t5 (opened_by hello hash code) store \<rparr>) = Ok ()"
  shows "\<exists>s' more. sender_run [(t0, SxConnect endpoint), (t1, SxHello), (t2, SxPump), (t3, SxPump),
             (t4, SxConfirm (sh_receiver_id hello)), (t5, SxPump), (t6, SxPump)] s = Some s' \<and>
           sender_streaming s' \<and> active_session s' = Some G \<and> receiver_knows s' hello \<and>
           sx_sent s' = [sent_message G 1 (ClientHelloMsg (client_hello_of identity nonce)),
             sent_message G 2 (PairingConfirmMsg (signed_phase (te_crypto t4) identity hash SENDER_CONFIRM_PHASE)),
             sent_message G 3 (PairingCommitMsg (signed_phase (te_crypto t5) identity hash PAIRING_COMMIT_PHASE))] @ more"
proof -
  let ?p = "opened_by hello hash code"
  let ?p1 = "?p \<lparr> spg_confirm_sent := True \<rparr>"
  let ?p2 = "?p1 \<lparr> spg_trust_committed := True \<rparr>"
  let ?later = "[TransportControl G k1] # [TransportControl G k2] # [TransportControl G k3] # polls"
  note start = s(1) [unfolded pairing_polls_def append_Cons append_Nil]
  obtain s1 where s1: "sender_step t0 (SxConnect endpoint) s = (s1, Ok ())" "at_rest s1"
    "tview s1 = (dialling G, None, None, n, m, store, path, identity, None, [TransportConnected G] # ?later, False, [])"
    by (rule connect_step [OF start s(2) dial])
  obtain s2 where s2: "sender_step t1 SxHello s1 = (s2, Ok ())" "at_rest s2"
    "tview s2 = (dialling G, None, None, n, m, store, path, identity, None, [TransportConnected G] # ?later, True, [])"
    by (rule greet_step [OF s1(3,2)])
  obtain s3 where s3: "sender_step t2 SxPump s2 = (s3, Ok ())" "at_rest s3"
    "tview s3 = (on_line G TrustUnknown StreamNegotiating, None, Some nonce, 2, 0, store, path, identity, None, ?later, True,
       [] @ [sent_message G 1 (ClientHelloMsg (client_hello_of identity nonce))])"
    by (rule connected_step [OF s2(3,2) _ nonce]) (use sends in simp)
  obtain s4 where s4: "sender_step t3 SxPump s3 = (s4, Ok ())" "at_rest s4"
    "tview s4 = (on_line G TrustPairing StreamNegotiating, Some ?p, Some nonce, 2, 1, store, path, identity, None,
       [TransportControl G k2] # [TransportControl G k3] # polls, True,
       [] @ [sent_message G 1 (ClientHelloMsg (client_hello_of identity nonce))])"
    by (rule server_hello_step [OF s3(3,2) hello(1) [unfolded carries_def] _ hello(2,3,4)]) simp
  have rid: "sh_receiver_id hello = spg_receiver_id ?p" by (simp add: opened_by_def)
  obtain s5 where s5: "sender_step t4 (SxConfirm (spg_receiver_id ?p)) s4 = (s5, Ok ())" "at_rest s5"
    "tview s5 = (on_line G TrustPairing StreamNegotiating, Some ?p1, Some nonce, Suc 2, 1, store, path, identity, None,
       [TransportControl G k2] # [TransportControl G k3] # polls, True,
       ([] @ [sent_message G 1 (ClientHelloMsg (client_hello_of identity nonce))]) @
       [sent_message G 2 (PairingConfirmMsg (signed_phase (te_crypto t4) identity (spg_transcript_hash ?p) SENDER_CONFIRM_PHASE))])"
    by (rule tx_confirm_step [OF s4(3,2), of t4]) (use sends in \<open>simp_all add: opened_by_def u64_max_def\<close>)
  have same: "paired_receiver_store t5 ?p1 store = paired_receiver_store t5 ?p store"
    by (simp add: paired_receiver_store_def)
  have "sx_has_store_path s5 = sx_has_store_path s" using s(1) s5(3) by (simp add: tview_def)
  then have persist5: "tx_persist_trusted t5 (s5 \<lparr> sx_trusted := paired_receiver_store t5 ?p1 store \<rparr>) = Ok ()"
    using persist same by (simp add: tx_persist_trusted_def split: if_splits)
  obtain s6 where s6: "sender_step t5 SxPump s5 = (s6, Ok ())" "at_rest s6"
    "tview s6 = (on_line G TrustPairing StreamNegotiating, Some ?p2, Some nonce, Suc (Suc 2), 2,
       paired_receiver_store t5 ?p1 store, path, identity, None, [TransportControl G k3] # polls, True,
       (([] @ [sent_message G 1 (ClientHelloMsg (client_hello_of identity nonce))]) @
       [sent_message G 2 (PairingConfirmMsg (signed_phase (te_crypto t4) identity (spg_transcript_hash ?p) SENDER_CONFIRM_PHASE))]) @
       [sent_message G (Suc 2) (PairingCommitMsg (signed_phase (te_crypto t5) identity (spg_transcript_hash ?p1) PAIRING_COMMIT_PHASE))])"
    by (rule approval_step [OF s5(3,2) approval(1) [unfolded carries_def] _ _ _ _ _ _ _ persist5])
      (use approval(2) hello(4) sends in \<open>simp_all add: opened_by_def receiver_signed_def checks_receiver_def u64_max_def\<close>)
  have "verify_paired_key (paired_receiver_store t5 ?p1 store) (spg_receiver_id ?p2) (spg_public_key ?p2) = Ok ()"
    using paired_receiver_verifies [of store ?p1 t5] hello(3) by (simp add: opened_by_def)
  then have stored: "verify_paired_key (paired_receiver_store t5 ?p1 store) (spg_receiver_id ?p2) (spg_public_key ?p2) = Ok ()" .
  let ?sent = "(([] @ [sent_message G 1 (ClientHelloMsg (client_hello_of identity nonce))]) @
       [sent_message G 2 (PairingConfirmMsg (signed_phase (te_crypto t4) identity (spg_transcript_hash ?p) SENDER_CONFIRM_PHASE))]) @
       [sent_message G (Suc 2) (PairingCommitMsg (signed_phase (te_crypto t5) identity (spg_transcript_hash ?p1) PAIRING_COMMIT_PHASE))]"
  have signed: "receiver_signed t6 ?p2 PAIRING_COMPLETE_PHASE idp"
    using complete(2) by (simp add: receiver_signed_def opened_by_def)
  obtain s7 where s7: "sender_step t6 SxPump s6 = (s7, Ok ())" "sender_streaming s7" "active_session s7 = Some G"
    "sx_trusted s7 = paired_receiver_store t5 ?p1 store" "\<exists>more. sx_sent s7 = ?sent @ more"
    by (rule complete_step [OF s6(3,2) complete(1) [unfolded carries_def] _ signed _ _ stored])
      (use sends in \<open>simp_all add: u64_max_def\<close>)
  from s7(5) obtain more where more: "sx_sent s7 = ?sent @ more" by (rule exE)
  have "receiver_knows s7 hello"
    using s7(4) paired_receiver_verifies [of store ?p1 t5] hello(3) by (simp add: receiver_knows_def opened_by_def)
  moreover have "sender_run [(t0, SxConnect endpoint), (t1, SxHello), (t2, SxPump), (t3, SxPump),
             (t4, SxConfirm (sh_receiver_id hello)), (t5, SxPump), (t6, SxPump)] s = Some s7"
    using s1(1) s2(1) s3(1) s4(1) s5(1) s6(1) s7(1) unfolding rid by simp
  ultimately show ?thesis using s7(2,3) more
    by (intro exI [of _ s7] exI [of _ more]) (simp add: opened_by_def numeral_2_eq_2 numeral_3_eq_3)
qed

section \<open>Both ends\<close>

text \<open>An identity of the signature scheme \<open>cr\<close>: its identifier is the one of its key, its signatures verify.\<close>

definition honest_identity :: "ed25519 \<Rightarrow> device_identity \<Rightarrow> bool" where
  "honest_identity cr i \<longleftrightarrow> di_device_id i \<noteq> [] \<and> derive_device_id (cr_digests cr) (di_public_key i) = di_device_id i \<and>
     (\<forall>message. verify_identity_signature cr (di_public_key i) message (identity_sign cr i message) = Ok ())"

lemma honest_signature:
  "honest_identity cr i \<Longrightarrow> verify_transcript_phase cr (di_public_key i) hash phase (sign_transcript_phase cr i hash phase) = Ok ()"
  by (simp add: honest_identity_def verify_transcript_phase_def sign_transcript_phase_def)

lemma transcripts_agree:
  "server_transcript identity nonce (receiver_hello cr receiver receiver_nonce hash) binding g =
     hello_transcript (client_hello_of identity nonce) receiver receiver_nonce binding g"
  by (simp add: server_transcript_def hello_transcript_def receiver_hello_def client_hello_of_def)

lemma handshake_checks:
  fixes hash :: bytes and binding :: bytes
  assumes honest: "honest_identity cr phone" "honest_identity cr desk"
    and nonces: "length phone_nonce = 32" "length desk_nonce = 32"
    and hash: "transcript_hash (cr_digests cr)
      (hello_transcript (client_hello_of phone phone_nonce) desk desk_nonce binding G) = Ok hash"
  obtains code where
    "te_crypto t = cr \<Longrightarrow> te_binding t G = Some binding \<Longrightarrow>
       checks_receiver t phone phone_nonce G (receiver_hello cr desk desk_nonce hash) hash code"
    "re_crypto r = cr \<Longrightarrow> re_nonce r = Some desk_nonce \<Longrightarrow> re_binding r = Some binding \<Longrightarrow>
       challenge_of r (client_hello_of phone phone_nonce) desk G hash code"
    "re_crypto r = cr \<Longrightarrow> hello_valid r (client_hello_of phone phone_nonce)"
proof -
  obtain code where code: "short_code (cr_digests cr)
      (hello_transcript (client_hello_of phone phone_nonce) desk desk_nonce binding G) = Ok code"
    using hash by (simp add: short_code_def)
  show ?thesis
    by (rule that [of code])
      (use assms code honest_signature [OF honest(2), of hash SERVER_HELLO_PHASE] in
        \<open>simp_all add: checks_receiver_def transcripts_agree challenge_of_def hello_valid_def honest_identity_def
           receiver_hello_def [of cr desk desk_nonce hash] client_hello_of_def [of phone phone_nonce]
           server_transcript_def hello_transcript_def\<close>)
qed

lemma signed_phase_accepted:
  assumes "honest_identity cr desk" "te_crypto t = cr"
  shows "receiver_signed t (opened_by (receiver_hello cr desk nonce hash) hash code) phase (signed_phase cr desk hash phase)"
  using honest_signature [OF assms(1)] assms(2)
  by (simp add: receiver_signed_def opened_by_def receiver_hello_def signed_phase_def)

lemma own_phase_accepted:
  assumes "honest_identity cr phone" "re_crypto r = cr"
  shows "signed_by r (ch_public_key (client_hello_of phone nonce)) hash phase (signed_phase cr phone hash phase)"
  using honest_signature [OF assms(1)] assms(2) by (simp add: signed_by_def signed_phase_def client_hello_of_def)

end
