(* ===== verification/Both_Ends.thy ===== *)
theory Both_Ends
  imports Sender_Handshake Transmission
begin

text \<open>
  A first pairing across the connection, with the sender's and the receiver's session each running their
  own code and hearing exactly what the other sent; and a concrete pairing, which the guarantees of the sender
  are applied to as well.
\<close>

section \<open>The joint run\<close>

definition phone_works :: "ed25519 \<Rightarrow> sender_env \<Rightarrow> bool" where
  "phone_works cr t \<longleftrightarrow> te_crypto t = cr \<and> tx_sends_ok t"

definition desk_works :: "ed25519 \<Rightarrow> nat \<Rightarrow> receiver_env \<Rightarrow> bool" where
  "desk_works cr g r \<longleftrightarrow> re_crypto r = cr \<and> sends_ok r \<and> re_active r = Some g"

definition phone_message :: "ed25519 \<Rightarrow> device_identity \<Rightarrow> bytes \<Rightarrow> bytes \<Rightarrow> nat \<Rightarrow> control_payload" where
  "phone_message cr phone nonce hash k =
     (if k = 1 then ClientHelloMsg (client_hello_of phone nonce)
      else if k = 2 then PairingConfirmMsg (signed_phase cr phone hash SENDER_CONFIRM_PHASE)
      else PairingCommitMsg (signed_phase cr phone hash PAIRING_COMMIT_PHASE))"

definition desk_message :: "ed25519 \<Rightarrow> device_identity \<Rightarrow> bytes \<Rightarrow> bytes \<Rightarrow> nat \<Rightarrow> control_payload" where
  "desk_message cr desk nonce hash k =
     (if k = 1 then ServerHelloMsg (receiver_hello cr desk nonce hash)
      else if k = 2 then PairingApprovalMsg (signed_phase cr desk hash PAIRING_APPROVAL_PHASE)
      else PairingCompleteMsg (signed_phase cr desk hash PAIRING_COMPLETE_PHASE))"

lemma pairing_of_both_ends:
  assumes honest: "honest_identity cr phone" "honest_identity cr desk"
    and nonces: "length phone_nonce = 32" "length desk_nonce = 32" "te_nonce t2 = Some phone_nonce" "re_nonce r1 = Some desk_nonce"
    and channel: "te_binding t3 G = Some binding" "re_binding r1 = Some binding"
    and hash: "transcript_hash (cr_digests cr)
        (hello_transcript (client_hello_of phone phone_nonce) desk desk_nonce binding G) = Ok hash"
    and works: "\<forall>t \<in> {t2, t3, t4, t5, t6}. phone_works cr t" "\<forall>r \<in> {r1, r3, r4}. desk_works cr g r" "te_connect t0 = Some G"
    and heard_by_desk: "carries (re_prost r1) m1 G 1 (phone_message cr phone phone_nonce hash 1)"
        "carries (re_prost r3) m2 G 2 (phone_message cr phone phone_nonce hash 2)"
        "carries (re_prost r4) m3 G 3 (phone_message cr phone phone_nonce hash 3)"
    and heard_by_phone: "carries (te_prost t3) k1 G 1 (desk_message cr desk desk_nonce hash 1)"
        "carries (te_prost t5) k2 G 2 (desk_message cr desk desk_nonce hash 2)"
        "carries (te_prost t6) k3 G 3 (desk_message cr desk desk_nonce hash 3)"
    and phone_start: "tview s = (sender_default, None, None, n, m, phone_store, phone_path, phone, None, pairing_polls G k1 k2 k3 @ polls, False, [])"
        "at_rest s"
    and desk_start: "view r = (Some g, None, 0, desk_store, None, None, desk, desk_path)" "told r = (1, [])"
    and strangers: "\<not> is_paired phone_store (di_device_id desk)" "\<not> is_paired desk_store (di_device_id phone)"
    and persist: "\<And>store. tx_persist_trusted t5 (s \<lparr> sx_trusted := store \<rparr>) = Ok ()"
        "\<And>store. persist_trusted r4 (r \<lparr> rv_trusted := store \<rparr>) = Ok ()"
    and time: "re_now r2 < re_now r1 + PAIRING_CHALLENGE_TTL" "re_now r3 < re_now r1 + PAIRING_CHALLENGE_TTL"
  shows "\<exists>s' r' later. sender_run [(t0, SxConnect endpoint), (t1, SxHello), (t2, SxPump), (t3, SxPump),
              (t4, SxConfirm (di_device_id desk)), (t5, SxPump), (t6, SxPump)] s = Some s' \<and>
            receiver_run [(r1, InTransport rs (TransportControl g m1)), (r2, InConfirm),
              (r3, InTransport rs (TransportControl g m2)), (r4, InTransport rs (TransportControl g m3))] r = Some r' \<and>
            sender_streaming s' \<and> active_session s' = Some G \<and>
            verify_paired_key (sx_trusted s') (di_device_id desk) (di_public_key desk) = Ok () \<and>
            is_streaming (rv_stream r') \<and>
            (\<exists>x. ms_sender (rv_media r') = Some x \<and> snd_id x = di_device_id phone \<and> snd_public_key x = di_public_key phone \<and>
               snd_video_allowed x) \<and>
            verify_paired_key (rv_trusted r') (di_device_id phone) (di_public_key phone) = Ok () \<and>
            sx_sent s' = map (\<lambda>k. sent_message G k (phone_message cr phone phone_nonce hash k)) [1, 2, 3] @ later \<and>
            ms_sent (rv_media r') = map (\<lambda>k. (k, G, desk_message cr desk desk_nonce hash k)) [1, 2, 3]"
proof -
  let ?hello = "receiver_hello cr desk desk_nonce hash"
  let ?client = "client_hello_of phone phone_nonce"
  have cr: "te_crypto t3 = cr" "te_crypto t4 = cr" "te_crypto t5 = cr" "te_crypto t6 = cr" "re_crypto r1 = cr"
    "re_crypto r3 = cr" "re_crypto r4 = cr"
    using works(1,2) by (simp_all add: phone_works_def desk_works_def)
  obtain code where checks: "checks_receiver t3 phone phone_nonce G ?hello hash code"
      "challenge_of r1 ?client desk G hash code" "hello_valid r1 ?client"
    by (rule handshake_checks [OF honest nonces(1,2) hash, of t3 r1]) (use cr channel nonces in auto)
  have sends: "\<forall>t \<in> {t2, t4, t5, t6}. tx_sends_ok t" using works(1) by (simp add: phone_works_def)
  have hello_facts: "sh_pairing_required ?hello" "\<not> is_paired phone_store (sh_receiver_id ?hello)"
    using strangers(1) by (simp_all add: receiver_hello_def)
  have "\<exists>s' more. sender_run [(t0, SxConnect endpoint), (t1, SxHello), (t2, SxPump), (t3, SxPump),
             (t4, SxConfirm (sh_receiver_id ?hello)), (t5, SxPump), (t6, SxPump)] s = Some s' \<and>
           sender_streaming s' \<and> active_session s' = Some G \<and> receiver_knows s' ?hello \<and>
           sx_sent s' = [sent_message G 1 (ClientHelloMsg (client_hello_of phone phone_nonce)),
             sent_message G 2 (PairingConfirmMsg (signed_phase (te_crypto t4) phone hash SENDER_CONFIRM_PHASE)),
             sent_message G 3 (PairingCommitMsg (signed_phase (te_crypto t5) phone hash PAIRING_COMMIT_PHASE))] @ more"
    by (rule sender_side [OF phone_start works(3) sends nonces(3) _ hello_facts checks(1) _ _ _ _ persist(1)])
      (use heard_by_phone signed_phase_accepted [OF honest(2)] cr in \<open>simp_all add: desk_message_def\<close>)
  then obtain s' later where s': "sender_run [(t0, SxConnect endpoint), (t1, SxHello), (t2, SxPump), (t3, SxPump),
             (t4, SxConfirm (di_device_id desk)), (t5, SxPump), (t6, SxPump)] s = Some s'"
      "sender_streaming s'" "active_session s' = Some G"
      "verify_paired_key (sx_trusted s') (di_device_id desk) (di_public_key desk) = Ok ()"
      "sx_sent s' = map (\<lambda>k. sent_message G k (phone_message cr phone phone_nonce hash k)) [1, 2, 3] @ later"
    by (auto simp: cr phone_message_def receiver_knows_def receiver_hello_def)
  have conn: "re_active r1 = Some g" "re_active r3 = Some g" "re_active r4 = Some g" "sends_ok r1" "sends_ok r3" "sends_ok r4"
    using works(2) by (simp_all add: desk_works_def)
  have heard: "decode_control_envelope (re_prost r1) m1 =
        Ok \<lparr> ce_message_id = 1, ce_connection_generation = G, ce_payload = Some (ClientHelloMsg ?client) \<rparr>"
      "decode_control_envelope (re_prost r3) m2 = Ok \<lparr> ce_message_id = 2, ce_connection_generation = G,
        ce_payload = Some (PairingConfirmMsg (signed_phase cr phone hash SENDER_CONFIRM_PHASE)) \<rparr>"
      "decode_control_envelope (re_prost r4) m3 = Ok \<lparr> ce_message_id = 3, ce_connection_generation = G,
        ce_payload = Some (PairingCommitMsg (signed_phase cr phone hash PAIRING_COMMIT_PHASE)) \<rparr>"
    using heard_by_desk by (simp_all add: carries_def phone_message_def)
  have stranger: "\<not> is_paired desk_store (ch_sender_id ?client)" using strangers(2) by (simp add: client_hello_of_def)
  have "\<exists>r'. receiver_run [(r1, InTransport rs (TransportControl g m1)), (r2, InConfirm),
              (r3, InTransport rs (TransportControl g m2)), (r4, InTransport rs (TransportControl g m3))] r = Some r' \<and>
           ms_sender (rv_media r') = Some (hello_sender ?client \<lparr> snd_video_allowed := True \<rparr>) \<and> rv_pending r' = None \<and>
           verify_paired_key (rv_trusted r') (ch_sender_id ?client) (ch_public_key ?client) = Ok () \<and>
           is_streaming (rv_stream r') \<and>
           (\<exists>nonce. re_nonce r1 = Some nonce \<and>
             told r' = say G (PairingCompleteMsg (signed_phase (re_crypto r4) desk hash PAIRING_COMPLETE_PHASE))
               (say G (PairingApprovalMsg (signed_phase (re_crypto r3) desk hash PAIRING_APPROVAL_PHASE))
                 (say G (ServerHelloMsg (receiver_hello (re_crypto r1) desk nonce hash)) (told r))))"
    by (rule handshake_messages [OF conn desk_start(1) heard(1) checks(3) stranger checks(2) heard(2)
          own_phase_accepted [OF honest(1) cr(6)] heard(3) own_phase_accepted [OF honest(1) cr(7)] _ _ _ time persist(2)]) simp_all
  then obtain r' where r': "receiver_run [(r1, InTransport rs (TransportControl g m1)), (r2, InConfirm),
              (r3, InTransport rs (TransportControl g m2)), (r4, InTransport rs (TransportControl g m3))] r = Some r'"
      "ms_sender (rv_media r') = Some (hello_sender ?client \<lparr> snd_video_allowed := True \<rparr>)"
      "verify_paired_key (rv_trusted r') (ch_sender_id ?client) (ch_public_key ?client) = Ok ()" "is_streaming (rv_stream r')"
      "told r' = say G (PairingCompleteMsg (signed_phase cr desk hash PAIRING_COMPLETE_PHASE))
               (say G (PairingApprovalMsg (signed_phase cr desk hash PAIRING_APPROVAL_PHASE))
                 (say G (ServerHelloMsg (receiver_hello cr desk desk_nonce hash)) (1, [])))"
    using nonces(4) cr desk_start(2) by auto
  have "ms_sent (rv_media r') = map (\<lambda>k. (k, G, desk_message cr desk desk_nonce hash k)) [1, 2, 3]"
    using r'(5) by (simp add: told_def desk_message_def sat_add_def u64_max_def)
  moreover have "snd_id (hello_sender ?client) = di_device_id phone" "snd_public_key (hello_sender ?client) = di_public_key phone"
    "ch_sender_id ?client = di_device_id phone" "ch_public_key ?client = di_public_key phone"
    by (simp_all add: hello_sender_def client_hello_of_def)
  ultimately show ?thesis using s' r'(1-4)
    by (intro exI [of _ s'] exI [of _ r'] exI [of _ later] conjI) simp_all
qed

text \<open>C2: Both ends complete a first pairing. Two devices with identities of the same signature scheme that do not
  know each other connect; each hears the messages the other sends, the user confirms at both ends within
  the challenge's lifetime, and both stores persist. Then the sender ends up streaming and the receiver
  admitting its video, each trusts the other's key under its identifier, and the messages the two models
  sent are exactly the ones that were heard: the two transcripts agree.\<close>

theorem both_ends_pair:
  assumes honest: "honest_identity cr phone" "honest_identity cr desk"
    and nonces: "length phone_nonce = 32" "length desk_nonce = 32" "te_nonce t2 = Some phone_nonce" "re_nonce r1 = Some desk_nonce"
    and channel: "te_binding t3 G = Some binding" "re_binding r1 = Some binding"
    and hash: "transcript_hash (cr_digests cr)
        (hello_transcript (client_hello_of phone phone_nonce) desk desk_nonce binding G) = Ok hash"
    and works: "\<forall>t \<in> {t2, t3, t4, t5, t6}. phone_works cr t" "\<forall>r \<in> {r1, r3, r4}. desk_works cr g r" "te_connect t0 = Some G"
    and heard_by_desk: "carries (re_prost r1) m1 G 1 (phone_message cr phone phone_nonce hash 1)"
        "carries (re_prost r3) m2 G 2 (phone_message cr phone phone_nonce hash 2)"
        "carries (re_prost r4) m3 G 3 (phone_message cr phone phone_nonce hash 3)"
    and heard_by_phone: "carries (te_prost t3) k1 G 1 (desk_message cr desk desk_nonce hash 1)"
        "carries (te_prost t5) k2 G 2 (desk_message cr desk desk_nonce hash 2)"
        "carries (te_prost t6) k3 G 3 (desk_message cr desk desk_nonce hash 3)"
    and phone_start: "tview s = (sender_default, None, None, n, m, phone_store, phone_path, phone, None, pairing_polls G k1 k2 k3 @ polls, False, [])"
        "at_rest s"
    and desk_start: "view r = (Some g, None, 0, desk_store, None, None, desk, desk_path)" "told r = (1, [])"
    and strangers: "\<not> is_paired phone_store (di_device_id desk)" "\<not> is_paired desk_store (di_device_id phone)"
    and persist: "\<And>store. tx_persist_trusted t5 (s \<lparr> sx_trusted := store \<rparr>) = Ok ()"
        "\<And>store. persist_trusted r4 (r \<lparr> rv_trusted := store \<rparr>) = Ok ()"
    and time: "re_now r2 < re_now r1 + PAIRING_CHALLENGE_TTL" "re_now r3 < re_now r1 + PAIRING_CHALLENGE_TTL"
  shows "\<exists>s' r' later. sender_run [(t0, SxConnect endpoint), (t1, SxHello), (t2, SxPump), (t3, SxPump),
              (t4, SxConfirm (di_device_id desk)), (t5, SxPump), (t6, SxPump)] s = Some s' \<and>
            receiver_run [(r1, InTransport rs (TransportControl g m1)), (r2, InConfirm),
              (r3, InTransport rs (TransportControl g m2)), (r4, InTransport rs (TransportControl g m3))] r = Some r' \<and>
            sender_streaming s' \<and> active_session s' = Some G \<and>
            verify_paired_key (sx_trusted s') (di_device_id desk) (di_public_key desk) = Ok () \<and>
            is_streaming (rv_stream r') \<and>
            (\<exists>x. ms_sender (rv_media r') = Some x \<and> snd_id x = di_device_id phone \<and> snd_public_key x = di_public_key phone \<and>
               snd_video_allowed x) \<and>
            verify_paired_key (rv_trusted r') (di_device_id phone) (di_public_key phone) = Ok () \<and>
            sx_sent s' = map (\<lambda>k. sent_message G k (phone_message cr phone phone_nonce hash k)) [1, 2, 3] @ later \<and>
            ms_sent (rv_media r') = map (\<lambda>k. (k, G, desk_message cr desk desk_nonce hash k)) [1, 2, 3]"
  using assms by (rule pairing_of_both_ends)

section \<open>A concrete pairing\<close>

text \<open>A toy scheme: a key signs by its own bytes, twice; the digest repeats the last byte, which tells the two
  devices apart.\<close>

definition last_byte_digest :: "bytes \<Rightarrow> bytes" where
  "last_byte_digest x = (case rev x of [] \<Rightarrow> replicate 32 0 | b # bs \<Rightarrow> replicate 32 b)"

definition pair_crypto :: ed25519 where
  "pair_crypto = \<lparr> cr_digests = \<lparr> dg_sha256 = last_byte_digest, dg_key_valid = (\<lambda>_. True) \<rparr>,
     cr_public_of = (\<lambda>k. k), cr_sign = (\<lambda>k m. k @ k), cr_verify = (\<lambda>k m s. s = k @ k) \<rparr>"

definition pair_phone :: device_identity where
  "pair_phone = from_signing_key pair_crypto ''Phone'' (replicate 32 1)"

definition pair_desk :: device_identity where
  "pair_desk = from_signing_key pair_crypto ''Desk'' (replicate 32 9)"

definition pair_hash :: bytes where "pair_hash = replicate 32 7"

definition number_of :: "bytes \<Rightarrow> nat" where
  "number_of msg = (if msg = [1] then 1 else if msg = [2] then 2 else 3)"

definition pair_prost :: "(nat \<Rightarrow> control_payload) \<Rightarrow> bytes \<Rightarrow> control_envelope option" where
  "pair_prost message msg = Some \<lparr> ce_message_id = number_of msg, ce_connection_generation = 7,
     ce_payload = Some (message (number_of msg)) \<rparr>"

definition phone_env :: sender_env where
  "phone_env = \<lparr> te_now = 0, te_later = 0, te_wall_ms = 0, te_nonce = Some (replicate 32 2),
     te_binding = (\<lambda>_. Some (replicate 32 6)), te_crypto = pair_crypto, te_unicode = sample_unicode,
     te_parse = (\<lambda>_. None), te_print = (\<lambda>_. None), te_write = (\<lambda>_. True), te_syntax = sample_env,
     te_prost = pair_prost (desk_message pair_crypto pair_desk (replicate 32 4) pair_hash), te_rs = copy_codec,
     te_send_ok = (\<lambda>_ _. True), te_video_ok = (\<lambda>_. True), te_connect = Some 7, te_link = None \<rparr>"

definition desk_env :: receiver_env where
  "desk_env = demo_env \<lparr> re_crypto := pair_crypto,
     re_prost := pair_prost (phone_message pair_crypto pair_phone (replicate 32 2) pair_hash) \<rparr>"

definition phone_session :: sender_session where
  "phone_session = sender_session_new pair_phone (pairing_polls 7 [1] [2] [3])"

definition desk_session :: receiver_session where
  "desk_session = receiver_session_new 0 pair_desk \<lparr> rv_active_generation := Some 5 \<rparr>"

definition phone_trace :: sender_trace where
  "phone_trace = [(phone_env, SxConnect \<lparr> ep_host = ''desk'', ep_port = 1 \<rparr>), (phone_env, SxHello), (phone_env, SxPump),
     (phone_env, SxPump), (phone_env, SxConfirm (di_device_id pair_desk)), (phone_env, SxPump), (phone_env, SxPump)]"

definition desk_trace :: receiver_trace where
  "desk_trace = [(desk_env, InTransport demo_rs (TransportControl 5 [1])), (desk_env, InConfirm),
     (desk_env, InTransport demo_rs (TransportControl 5 [2])), (desk_env, InTransport demo_rs (TransportControl 5 [3]))]"

lemma digest_of_key: "last_byte_digest (xs @ replicate 32 b) = replicate 32 b"
proof -
  have "replicate 32 b = b # replicate 31 b" by (simp add: numeral_eq_Suc)
  then have "rev (xs @ replicate 32 b) = b # replicate 31 b @ rev xs"
    using rev_append [of xs "replicate 32 b"] rev_replicate [of 32 b] by simp
  then show ?thesis by (simp only: last_byte_digest_def list.case)
qed

lemma pair_key_id: "derive_device_id (cr_digests pair_crypto) (replicate 32 b) = ''picoo-'' @ hex_encode (replicate 16 b)"
  using digest_of_key [of "ascii_bytes ''picoo-camera device identity'' @ [0]" b]
  by (simp add: derive_device_id_def pair_crypto_def)

lemma pair_devices:
  "pair_phone = \<lparr> di_device_id = ''picoo-'' @ hex_encode (replicate 16 1), di_device_name = ''Phone'',
     di_signing_key = replicate 32 1, di_public_key = replicate 32 1 \<rparr>"
  "pair_desk = \<lparr> di_device_id = ''picoo-'' @ hex_encode (replicate 16 9), di_device_name = ''Desk'',
     di_signing_key = replicate 32 9, di_public_key = replicate 32 9 \<rparr>"
  using pair_key_id by (simp_all add: pair_phone_def pair_desk_def from_signing_key_def Let_def) (simp_all add: pair_crypto_def)

lemma pair_identities: "honest_identity pair_crypto pair_phone" "honest_identity pair_crypto pair_desk"
  using pair_key_id
  by (simp_all add: honest_identity_def pair_devices verify_identity_signature_def identity_sign_def
      PUBLIC_KEY_LEN_def SIGNATURE_LEN_def) (simp_all add: pair_crypto_def)

lemma pair_transcript_hash:
  "transcript_hash (cr_digests pair_crypto)
     (hello_transcript (client_hello_of pair_phone (replicate 32 2)) pair_desk (replicate 32 4) (replicate 32 6) 7) = Ok pair_hash"
proof -
  let ?t = "hello_transcript (client_hello_of pair_phone (replicate 32 2)) pair_desk (replicate 32 4) (replicate 32 6) 7"
  have small: "\<forall>x \<in> set (transcript_fields ?t). length x < 256 ^ 4"
    by (simp add: transcript_fields_def hello_transcript_def client_hello_of_def pair_devices hex_encode_def
        ascii_bytes_def ALPN_def length_concat sum_list_replicate)
  have "encode_transcript ?t = Ok (TRANSCRIPT_DOMAIN @ concat (map (len_prefixed 4) (transcript_fields ?t)) @
      be_bytes 8 (tr_connection_generation ?t))"
    unfolding encode_transcript_Ok by (rule conjI [OF refl small])
  moreover have "be_bytes 8 (tr_connection_generation ?t) = [0, 0, 0, 0, 0, 0, 0, 7]"
    by (simp add: hello_transcript_def be_bytes_numeral)
  moreover have "dg_sha256 (cr_digests pair_crypto) (xs @ ys @ [0, 0, 0, 0, 0, 0, 0, 7]) = pair_hash" for xs ys
    by (simp add: pair_crypto_def last_byte_digest_def pair_hash_def)
  moreover have "check_fields (fixed_fields ?t) = Ok ()"
    by (simp add: fixed_fields_def hello_transcript_def client_hello_of_def pair_devices)
  moreover have "tr_protocol ?t \<noteq> [] \<and> length (tr_protocol ?t) \<le> 255 \<and> tr_sender_id ?t \<noteq> [] \<and> tr_receiver_id ?t \<noteq> [] \<and>
      tr_connection_generation ?t \<noteq> 0"
    by (simp add: hello_transcript_def client_hello_of_def pair_devices ALPN_def)
  ultimately show ?thesis by (simp add: transcript_hash_def)
qed

lemma pair_messages:
  "carries (re_prost desk_env) [1] 7 1 (phone_message pair_crypto pair_phone (replicate 32 2) pair_hash 1)"
  "carries (re_prost desk_env) [2] 7 2 (phone_message pair_crypto pair_phone (replicate 32 2) pair_hash 2)"
  "carries (re_prost desk_env) [3] 7 3 (phone_message pair_crypto pair_phone (replicate 32 2) pair_hash 3)"
  "carries (te_prost phone_env) [1] 7 1 (desk_message pair_crypto pair_desk (replicate 32 4) pair_hash 1)"
  "carries (te_prost phone_env) [2] 7 2 (desk_message pair_crypto pair_desk (replicate 32 4) pair_hash 2)"
  "carries (te_prost phone_env) [3] 7 3 (desk_message pair_crypto pair_desk (replicate 32 4) pair_hash 3)"
  by (simp_all add: carries_def decode_control_envelope_def desk_env_def phone_env_def pair_prost_def number_of_def ok_or_def)

lemma pair_works: "phone_works pair_crypto phone_env" "desk_works pair_crypto 5 desk_env"
  using demo_basics(1,2)
  by (simp_all add: phone_works_def desk_works_def tx_sends_ok_def phone_env_def desk_env_def sends_ok_def)

lemma pair_fields:
  "te_nonce phone_env = Some (replicate 32 2)" "re_nonce desk_env = Some (replicate 32 4)"
  "te_binding phone_env 7 = Some (replicate 32 6)" "re_binding desk_env = Some (replicate 32 6)"
  "te_connect phone_env = Some 7" "re_now desk_env = 0"
  by (simp_all add: phone_env_def desk_env_def demo_env_def)

lemma pair_starts:
  "tview phone_session = (sender_default, None, None, 1, 0, store_new, False, pair_phone, None,
     pairing_polls 7 [1] [2] [3] @ [], False, [])" "at_rest phone_session"
  "view desk_session = (Some 5, None, 0, store_new, None, None, pair_desk, False)" "told desk_session = (1, [])"
  "\<not> is_paired store_new device_id"
  "tx_persist_trusted phone_env (phone_session \<lparr> sx_trusted := store \<rparr>) = Ok ()"
  "persist_trusted desk_env (desk_session \<lparr> rv_trusted := store \<rparr>) = Ok ()"
  by (simp_all add: tview_def at_rest_def phone_session_def sender_session_new_def view_def told_def desk_session_def
      receiver_session_new_def media_session_new_def is_paired_def store_get_def store_new_def tx_persist_trusted_def
      persist_trusted_def)

lemmas pair_setting =
  pair_identities length_replicate length_replicate pair_fields(1-4) pair_transcript_hash

theorem both_ends_pair_witness:
  "\<exists>s' r'. sender_run phone_trace phone_session = Some s' \<and> receiver_run desk_trace desk_session = Some r' \<and>
     sender_streaming s' \<and> is_streaming (rv_stream r') \<and>
     verify_paired_key (sx_trusted s') (di_device_id pair_desk) (di_public_key pair_desk) = Ok () \<and>
     verify_paired_key (rv_trusted r') (di_device_id pair_phone) (di_public_key pair_phone) = Ok ()"
proof -
  let ?endpoint = "\<lparr> ep_host = ''desk'', ep_port = 1 \<rparr>"
  have works: "\<forall>t \<in> {phone_env, phone_env, phone_env, phone_env, phone_env}. phone_works pair_crypto t"
    "\<forall>r \<in> {desk_env, desk_env, desk_env}. desk_works pair_crypto 5 r"
    using pair_works by simp_all
  have time: "re_now desk_env < re_now desk_env + PAIRING_CHALLENGE_TTL" by (simp add: PAIRING_CHALLENGE_TTL_def)
  note run = both_ends_pair [OF pair_setting works pair_fields(5) pair_messages pair_starts(1-4) pair_starts(5) pair_starts(5-7) time time]
  from run show ?thesis unfolding phone_trace_def desk_trace_def by blast
qed

text \<open>The sender's side of it.\<close>

lemma pair_run:
  obtains s' where "sender_run phone_trace phone_session = Some s'" "sender_streaming s'" "active_session s' = Some 7"
    "verify_paired_key (sx_trusted s') (di_device_id pair_desk) (di_public_key pair_desk) = Ok ()"
proof -
  have works: "\<forall>t \<in> {phone_env, phone_env, phone_env, phone_env, phone_env}. phone_works pair_crypto t"
    "\<forall>r \<in> {desk_env, desk_env, desk_env}. desk_works pair_crypto 5 r"
    using pair_works by simp_all
  have time: "re_now desk_env < re_now desk_env + PAIRING_CHALLENGE_TTL" by (simp add: PAIRING_CHALLENGE_TTL_def)
  note run = pairing_of_both_ends [OF pair_setting works pair_fields(5) pair_messages pair_starts(1-4) pair_starts(5) pair_starts(5-7) time time]
  from run have "\<exists>s'. sender_run phone_trace phone_session = Some s' \<and> sender_streaming s' \<and> active_session s' = Some 7 \<and>
    verify_paired_key (sx_trusted s') (di_device_id pair_desk) (di_public_key pair_desk) = Ok ()"
    unfolding phone_trace_def by blast
  then show ?thesis using that by blast
qed

end
