(* ===== verification/Sender_Properties.thy ===== *)
theory Sender_Properties
  imports Both_Ends
begin

text \<open>
  The guarantees of the sender's session: no video before the receiver has proved itself and the user has
  agreed, epochs that are never reused, encoder changes that commit with their keyframe or not at all,
  and no conversation after a bad control message.
\<close>

section \<open>Consent\<close>

text \<open>Video went out on connection \<open>g\<close>, or the stream runs on it.\<close>

definition media_open :: "sender_session \<Rightarrow> nat \<Rightarrow> bool" where
  "media_open s g \<longleftrightarrow> g \<in> fst ` set (sx_video s) \<or> sender_streaming s \<and> active_session s = Some g"

lemma phone_fresh: "sender_fresh phone_session"
  unfolding phone_session_def by (rule new_session_fresh)

text \<open>C3: No media before proof and consent. Whatever the owner does and whatever messages arrive, if a sender
  that starts without a connection has sent video on a connection, or streams on it, then on that very
  connection it heard a \<open>ServerHello\<close> whose signature covers this connection's transcript under the key
  that the receiver's identifier names, and that key's signed completion of the same transcript; and the
  key was trusted from the start or in the attached store, or the user confirmed this receiver.\<close>

theorem media_needs_proven_receiver:
  assumes "sender_fresh s0" "sx_video s0 = []" "sender_run tr s0 = Some s" "media_open s g"
  shows "receiver_admitted s0 tr g"
proof -
  have inv: "sender_streaming s \<longrightarrow> (\<exists>g. active_session s = Some g \<and> receiver_admitted s0 tr g)"
    "\<forall>(g, b) \<in> set (sx_video s). (g, b) \<in> set (sx_video s0) \<or> receiver_admitted s0 tr g"
    using sender_run_inv [OF assms(1,3)] unfolding sender_inv_def by simp_all
  have "receiver_admitted s0 tr g" if "(g, b) \<in> set (sx_video s)" for b using inv(2) that assms(2) by auto
  then show ?thesis using inv(1) assms(4) unfolding media_open_def by auto
qed

text \<open>C6: A sender trusts a key only by consent: it was trusted from the start or in the attached store, or the
  user confirmed the receiver that had proved it.\<close>

theorem sender_trust_needs_consent:
  assumes "sender_fresh s0" "sender_run tr s0 = Some s" "verify_paired_key (sx_trusted s) receiver_id key = Ok ()"
  shows "consented s0 tr receiver_id key"
  using sender_run_inv [OF assms(1,2)] assms(3) by (simp add: sender_inv_def)

theorem media_needs_proven_receiver_witness: "receiver_admitted phone_session phone_trace 7"
proof -
  obtain s where s: "sender_run phone_trace phone_session = Some s" "sender_streaming s" "active_session s = Some 7"
    using pair_run by blast
  have "sx_video phone_session = []" "media_open s 7"
    using s by (simp_all add: phone_session_def sender_session_new_def media_open_def)
  then show ?thesis by (rule media_needs_proven_receiver [OF phone_fresh _ s(1)])
qed

theorem sender_trust_needs_consent_witness:
  "consented phone_session phone_trace (di_device_id pair_desk) (di_public_key pair_desk)"
proof -
  obtain s where s: "sender_run phone_trace phone_session = Some s"
    "verify_paired_key (sx_trusted s) (di_device_id pair_desk) (di_public_key pair_desk) = Ok ()"
    using pair_run by blast
  show ?thesis by (rule sender_trust_needs_consent [OF phone_fresh s])
qed

section \<open>Epochs\<close>

lemma evidence_epoch [simp]:
  "receiver_admitted (s0 \<lparr> sx_epoch := e \<rparr>) tr g = receiver_admitted s0 tr g"
  "receiver_proved (s0 \<lparr> sx_epoch := e \<rparr>) tr g rid key hash = receiver_proved s0 tr g rid key hash"
  "consented (s0 \<lparr> sx_epoch := e \<rparr>) tr rid key = consented s0 tr rid key"
  by (simp_all add: receiver_admitted_def receiver_completed_def consented_def receiver_proved_def heard_def)

lemma inv_from_here:
  assumes "sender_inv s0 tr s"
  shows "sender_inv (s0 \<lparr> sx_epoch := sx_epoch s \<rparr>) tr s"
  using assms by (simp add: sender_inv_def pairing_ok_def)

lemma epochs_of_run:
  assumes "sender_fresh s0" "sender_run past s0 = Some s" "sender_run future s = Some s'"
  shows "sx_epoch s \<le> sx_epoch s' \<and> epoch_ok s'"
proof -
  have inv: "sender_inv (s0 \<lparr> sx_epoch := sx_epoch s \<rparr>) (past @ future) s"
    by (rule inv_trace [OF _ inv_from_here [OF sender_run_inv [OF assms(1,2)]]]) simp
  have "sender_inv (s0 \<lparr> sx_epoch := sx_epoch s \<rparr>) (past @ future) s'"
    by (rule run_inv_from [OF inv _ assms(3)]) simp
  then show ?thesis by (simp add: sender_inv_def)
qed

text \<open>C8: Stream epochs only grow. Through every run, reconnects, failures and refused changes included, the
  current epoch never falls and stays within the signed range; a pending encoder change of the owner names
  an epoch above the current one, and a pending recovery names the current one. So no committed epoch is
  ever used for another format.\<close>

theorem stream_epochs_only_grow:
  assumes "sender_fresh s0" "sender_run past s0 = Some s" "sender_run future s = Some s'"
  shows "0 < sx_epoch s' \<and> sx_epoch s \<le> sx_epoch s' \<and> sx_epoch s' \<le> sx_last_epoch s' \<and> sx_last_epoch s' \<le> 2 ^ 31 - 1 \<and>
    (case apply_directive (sx_apply s') of
       None \<Rightarrow> True
     | Some d \<Rightarrow>
         if ed_kind d = LocalDirective then sx_epoch s' < ed_stream_epoch d \<and> ed_stream_epoch d \<le> sx_last_epoch s'
         else ed_stream_epoch d = sx_epoch s')"
  using epochs_of_run [OF assms]
  by (auto simp: epoch_ok_def MAX_STREAM_EPOCH_def split: option.split) (metis directive_kind.exhaust)+

definition small_request :: source_request where
  "small_request = \<lparr> sq_codec = AvcCodec, sq_height = 720, sq_fps = 30 \<rparr>"

theorem stream_epochs_only_grow_witness:
  "\<exists>s d. sender_run [(phone_env, SxReconfigure small_request)] phone_session = Some s \<and>
     apply_directive (sx_apply s) = Some d \<and> ed_kind d = LocalDirective \<and> ed_stream_epoch d = 2 \<and> sx_epoch s < 2"
proof -
  have "\<exists>s d. sender_run [(phone_env, SxReconfigure small_request)] phone_session = Some s \<and>
      apply_directive (sx_apply s) = Some d \<and> ed_kind d = LocalDirective \<and> ed_stream_epoch d = 2"
    by (simp add: phone_session_def sender_session_new_def begin_stream_reconfiguration_def allocate_stream_epoch_def
        is_product_format_def small_request_def u64_max_def MAX_STREAM_EPOCH_def INITIAL_STREAM_EPOCH_def Let_def
        begin_encoder_transaction_def ladder_for_height_def clear_offer_error_def tx_forget_def)
      (simp add: numeral_2_eq_2)?
  then obtain s d where s: "sender_run [(phone_env, SxReconfigure small_request)] phone_session = Some s"
      "apply_directive (sx_apply s) = Some d" "ed_kind d = LocalDirective" "ed_stream_epoch d = 2" by blast
  have "sender_run [] phone_session = Some phone_session" by simp
  from stream_epochs_only_grow [OF phone_fresh this s(1)] s show ?thesis by auto
qed

section \<open>Encoder changes\<close>

text \<open>What the session believes about its encoder.\<close>

definition bound_source where
  "bound_source s = (sx_apply s, sx_epoch s, sx_generation s, sx_height s, sx_format s, sx_config s, sx_config_sent s)"

lemma tx_send_bound: "bound_source (fst (tx_send env g payload s)) = bound_source s"
  by (simp add: tx_send_def bound_source_def Let_def)

lemma packetize_bound:
  "bound_source (fst (packetize_unit env au keyframe s)) = bound_source s \<and>
   sx_sent (fst (packetize_unit env au keyframe s)) = sx_sent s"
  by (simp add: packetize_unit_def bound_source_def observe_media_clock_def Let_def case_prod_beta)

lemma send_config_outcome:
  assumes "send_stream_config_for_epoch env config epoch s = (s1, r)"
  shows "bound_source s1 = bound_source s"
    "r = Ok () \<Longrightarrow> \<exists>g wire. active_session s = Some g \<and>
       to_proto (te_syntax env) (config \<lparr> pm_stream_epoch := epoch \<rparr>) = Ok wire \<and>
       sx_sent s1 = sx_sent s @ [sent_message g (sx_next_message_id s) (StreamConfigMsg wire)]"
proof -
  show "bound_source s1 = bound_source s"
    using assms tx_send_bound [of env _ _ s]
    by (auto simp: send_stream_config_for_epoch_def tx_then_def split: option.splits result.splits)
      (metis fst_conv)
  assume "r = Ok ()"
  with assms show "\<exists>g wire. active_session s = Some g \<and>
       to_proto (te_syntax env) (config \<lparr> pm_stream_epoch := epoch \<rparr>) = Ok wire \<and>
       sx_sent s1 = sx_sent s @ [sent_message g (sx_next_message_id s) (StreamConfigMsg wire)]"
    by (auto simp: send_stream_config_for_epoch_def tx_then_Ok_iff codec_result_def map_err_Ok_iff tx_send_def Let_def
        sent_message_def split: option.splits if_splits)
qed

lemma apply_of_bound: "bound_source s' = bound_source s \<Longrightarrow> sx_apply s' = sx_apply s"
  by (simp add: bound_source_def)

lemma commit_keyframe_Ok:
  assumes "commit_keyframe t au config s = (s', Ok u)"
  shows "sx_generation s' = nu_generation au \<and> sx_height s' = nu_height au \<and> sx_config s' = Some config \<and>
    sx_config_sent s' \<and> sx_format s' = Some (params_request config) \<and> sx_apply s' = sx_apply s \<and> sx_sent s' = sx_sent s \<and>
    sx_epoch s' = (if ed_kind (et_directive t) = RecoveryDirective then sx_epoch s else ed_stream_epoch (et_directive t))"
  using assms
  by (auto simp: commit_keyframe_def tx_then_Ok_iff on_bitrate_def commit_stream_epoch_def commit_encoder_recovery_def
      split: if_splits result.splits)

lemma commit_keyframe_not_Err: "snd (commit_keyframe t au config s) \<noteq> Err e"
  by (simp add: commit_keyframe_def tx_then_def on_bitrate_def split: result.split)

definition takes_over :: "sender_env \<Rightarrow> encoder_transaction \<Rightarrow> native_access_unit \<Rightarrow> sender_session \<Rightarrow> sender_session \<Rightarrow> bool" where
  "takes_over env t au s s' \<longleftrightarrow>
     nu_keyframe au \<and> names_directive t (nu_transaction_id au) (nu_stream_epoch au) (nu_height au) \<and>
     et_expected t = Some (nu_generation au) \<and> et_staged t \<and>
     sx_apply s' = EncoderCommitted \<and> sx_generation s' = nu_generation au \<and> sx_height s' = nu_height au \<and>
     sx_epoch s' = (if ed_kind (et_directive t) = RecoveryDirective then sx_epoch s else nu_stream_epoch au) \<and>
     (\<exists>config g wire. sx_config s = Some config \<and> request_matches (ed_target (et_directive t)) config \<and>
        active_session s = Some g \<and> sx_config_sent s' \<and> sx_config s' = Some (config \<lparr> pm_stream_epoch := nu_stream_epoch au \<rparr>) \<and>
        to_proto (te_syntax env) (config \<lparr> pm_stream_epoch := nu_stream_epoch au \<rparr>) = Ok wire \<and>
        sx_sent s' = sx_sent s @ [sent_message g (sx_next_message_id s) (StreamConfigMsg wire)])"

lemma ingest_applying_outcome:
  assumes t: "sx_apply s = EncoderApplying t" and out: "ingest_applying env au s = (s', r)"
  shows "(case r of Ok packets \<Rightarrow> takes_over env t au s s' | Err e \<Rightarrow> bound_source s' = bound_source s | Panic \<Rightarrow> True)"
proof -
  let ?ready = "matches_native_facts (nu_transaction_id au) (nu_generation au) (nu_stream_epoch au) (nu_height au) (sx_apply s) \<and>
    nu_keyframe au"
  consider "r = Panic" | "s' = s" "\<exists>e. Err e = r"
    | config where "?ready" "sx_config s = Some config" "config_staged (sx_apply s)" "target_matches config (sx_apply s)"
        "tx_then (send_stream_config_for_epoch env (config \<lparr> pm_stream_epoch := nu_stream_epoch au \<rparr>) (nu_stream_epoch au) s) (\<lambda>_ s1.
           tx_then (packetize_unit env au True s1) (\<lambda>packets s2.
             (case take_matching_keyframe (nu_transaction_id au) (nu_generation au) (nu_stream_epoch au) (nu_height au) True (sx_apply s2) of
                (a, None) \<Rightarrow> (s2, Panic)
              | (a, Some t) \<Rightarrow>
                  tx_then (commit_keyframe t au (config \<lparr> pm_stream_epoch := nu_stream_epoch au \<rparr>) (s2 \<lparr> sx_apply := a \<rparr>)) (\<lambda>_ s3.
                    (s3 \<lparr> sx_keyframe_requested := False \<rparr>, Ok packets))))) = (s', r)"
    using out by (simp add: ingest_applying_def Let_def split: if_splits option.splits) blast+
  then show ?thesis
  proof cases
    case 3
    let ?c = "config \<lparr> pm_stream_epoch := nu_stream_epoch au \<rparr>"
    obtain s1 r1 where s1: "send_stream_config_for_epoch env ?c (nu_stream_epoch au) s = (s1, r1)" by fastforce
    note b1 = send_config_outcome [OF s1]
    obtain s2 r2 where s2: "packetize_unit env au True s1 = (s2, r2)" by fastforce
    have b2: "bound_source s2 = bound_source s" "sx_sent s2 = sx_sent s1"
      using packetize_bound [of env au True s1] b1(1) by (simp_all add: s2)
    have m: "take_matching_keyframe (nu_transaction_id au) (nu_generation au) (nu_stream_epoch au) (nu_height au) True (sx_apply s2) =
        (EncoderCommitted, Some t)"
      using 3(1) t apply_of_bound [OF b2(1)] by simp
    obtain s3 r3 where s3: "commit_keyframe t au ?c (s2 \<lparr> sx_apply := EncoderCommitted \<rparr>) = (s3, r3)" by fastforce
    have no_err: "r3 \<noteq> Err e" for e using commit_keyframe_not_Err [of t au ?c "s2 \<lparr> sx_apply := EncoderCommitted \<rparr>"] by (simp add: s3)
    show ?thesis
    proof (cases r1)
      case (Ok u)
      then have r1: "r1 = Ok ()" by simp
      show ?thesis
      proof (cases r2)
        case ok2: (Ok packets)
        show ?thesis
        proof (cases r3)
          case ok3: (Ok v)
          have c: "sx_generation s3 = nu_generation au \<and> sx_height s3 = nu_height au \<and> sx_config s3 = Some ?c \<and>
              sx_config_sent s3 \<and> sx_format s3 = Some (params_request ?c) \<and> sx_apply s3 = EncoderCommitted \<and> sx_sent s3 = sx_sent s2 \<and>
              sx_epoch s3 = (if ed_kind (et_directive t) = RecoveryDirective then sx_epoch s2 else ed_stream_epoch (et_directive t))"
            using commit_keyframe_Ok [OF s3 [unfolded ok3]] by simp
          have "s' = s3 \<lparr> sx_keyframe_requested := False \<rparr>" "r = Ok packets"
            using 3(5) by (simp_all add: s1 r1 s2 ok2 m s3 ok3)
          moreover have "sx_epoch s2 = sx_epoch s" using b2(1) by (simp add: bound_source_def)
          ultimately show ?thesis
            using c 3 t b1(2) [OF r1] b2(2) by (auto simp: takes_over_def names_directive_def target_matches_def)
        qed (use 3(5) no_err in \<open>simp_all add: s1 r1 s2 ok2 m s3\<close>)
      qed (use 3(5) b2(1) in \<open>auto simp: s1 r1 s2\<close>)
    qed (use 3(5) b1(1) in \<open>auto simp: s1\<close>)
  qed auto
qed

text \<open>C7: An encoder change commits with its keyframe or not at all. While a change is pending, an access unit
  that is admitted is the keyframe of the announced encoder instance, for the requested format and epoch,
  with its configuration staged; its \<open>StreamConfig\<close> went out first and the session is then bound to it. Any
  refusal, a failed send or packetizer included, leaves the pending change, the current encoder and its
  configuration as they were.\<close>

theorem encoder_change_is_atomic:
  assumes "sx_apply s = EncoderApplying t" "ingest_encoder_access_unit env au s = (s', r)"
  shows "(case r of Ok packets \<Rightarrow> takes_over env t au s s' | Err e \<Rightarrow> bound_source s' = bound_source s | Panic \<Rightarrow> True)"
proof (cases "nu_data au = [] \<or> active_session s = None \<or> \<not> sender_streaming s")
  case True
  then show ?thesis using assms(2) by (auto simp: ingest_encoder_access_unit_def bound_source_def split: if_splits)
next
  case False
  then have "ingest_applying env au s = (s', r)"
    using assms by (auto simp: ingest_encoder_access_unit_def)
  then show ?thesis by (rule ingest_applying_outcome [OF assms(1)])
qed

definition change :: encoder_transaction where
  "change = \<lparr> et_directive = \<lparr> ed_id = 1, ed_kind = LocalDirective, ed_target = small_request, ed_bitrate_bps = 3000000,
       ed_stream_epoch = 2 \<rparr>,
     et_rollback = \<lparr> erb_config = None, erb_config_sent = False, erb_generation = 0 \<rparr>, et_staged = True,
     et_expected = Some 3, et_deadline = 9 \<rparr>"

definition small_params :: stream_params where
  "small_params = \<lparr> pm_width = 1280, pm_height = 720, pm_fps = 30, pm_bitrate_bps = 3000000, pm_stream_epoch = 1,
     pm_mirrored = False, pm_rotation = 0, pm_configuration = sample_config \<rparr>"

definition changing_session :: sender_session where
  "changing_session = phone_session \<lparr> sx_lifecycle := on_line 7 TrustAuthenticated (StreamStreaming 1),
     sx_apply := EncoderApplying change, sx_config := Some small_params \<rparr>"

definition first_keyframe :: native_access_unit where
  "first_keyframe = \<lparr> nu_data = [1, 2], nu_keyframe = True, nu_pts_us = 10, nu_encoded_at_us = 20, nu_transaction_id = 1,
     nu_generation = 3, nu_stream_epoch = 2, nu_height = 720 \<rparr>"

lemma controller_reachable: "rate_reachable controller_1080"
  unfolding controller_1080_def
  by (rule rate_reachable.start [of 1080]) (simp add: controller_for_height_def ladder_for_height_def)

lemma small_params_wire: "\<exists>wire. to_proto sample_env (small_params \<lparr> pm_stream_epoch := e \<rparr>) = Ok wire"
  using sample_source
  by (simp add: to_proto_def small_params_def validate_visible_size_def sample_facts_def BT709_def ok_or_def sample_config_def)

lemma change_succeeds: "\<exists>s' packets. ingest_encoder_access_unit phone_env first_keyframe changing_session = (s', Ok packets)"
proof -
  obtain wire where wire: "to_proto sample_env (small_params \<lparr> pm_stream_epoch := 2 \<rparr>) = Ok wire" using small_params_wire by blast
  obtain p created where p: "packetize copy_codec [1, 2] True 10 20 2 FecStrong pipeline_default = (p, Ok created)"
    by (rule default_succeeds [of "[1, 2]" True 10 20 2 FecStrong]) simp_all
  obtain c b where c: "sync_encode_height 720 controller_1080 = Ok (c, b)"
    using sync_encode_Ok [of controller_1080 720] rate_reachable_ok [OF controller_reachable] by blast
  have m: "target_matches small_params (EncoderApplying change)"
    by (simp add: target_matches_def change_def request_matches_def is_product_format_def small_request_def small_params_def
        sample_config_def)
  show ?thesis
    using wire p c m
    by (simp add: ingest_encoder_access_unit_def ingest_applying_def changing_session_def phone_session_def
        sender_session_new_def first_keyframe_def active_session_def on_line_def sender_streaming_def sx_runtime_def
        names_directive_def change_def small_request_def small_params_def send_stream_config_for_epoch_def phone_env_def
        codec_result_def map_err_def tx_send_def packetize_unit_def observe_media_clock_def ingest_timed_access_unit_def
        fec_protection_for_def commit_keyframe_def on_bitrate_def)
qed

theorem encoder_change_is_atomic_witness:
  "\<exists>s' packets. ingest_encoder_access_unit phone_env first_keyframe changing_session = (s', Ok packets) \<and>
     takes_over phone_env change first_keyframe changing_session s'"
proof -
  obtain s' packets where s': "ingest_encoder_access_unit phone_env first_keyframe changing_session = (s', Ok packets)"
    using change_succeeds by blast
  have "sx_apply changing_session = EncoderApplying change" by (simp add: changing_session_def)
  from encoder_change_is_atomic [OF this s'] s' show ?thesis by auto
qed

section \<open>Bad control messages\<close>

definition bad_message :: "sender_env \<Rightarrow> nat \<Rightarrow> bytes \<Rightarrow> sender_session \<Rightarrow> bool" where
  "bad_message env g msg s \<longleftrightarrow>
     (case decode_control_envelope (te_prost env) msg of
        Err e \<Rightarrow> True
      | Panic \<Rightarrow> False
      | Ok envelope \<Rightarrow>
          ce_connection_generation envelope \<noteq> g \<or> ce_message_id envelope \<le> sx_last_message_id s \<or>
          (case ce_payload envelope of
             None \<Rightarrow> False
           | Some payload \<Rightarrow> \<not> control_payload_allowed payload (s \<lparr> sx_last_message_id := ce_message_id envelope \<rparr>)))"

lemma reset_returns:
  assumes "rate_reachable (sx_bitrate s)"
  shows "\<exists>s'. reset_sender_resources s = (s', Ok ()) \<and> sx_pairing s' = None \<and> sx_nonce s' = None \<and>
    sx_lifecycle s' = sx_lifecycle s \<and> sx_trusted s' = sx_trusted s \<and> sx_sent s' = sx_sent s \<and> sx_video s' = sx_video s \<and>
    sx_closed s' = sx_closed s \<and> sx_error s' = sx_error s \<and> pending_datagram_count (sx_pipeline s') = 0 \<and>
    sx_apply s' = EncoderCommitted \<and> sx_capabilities s' = None"
proof -
  let ?s = "abort_pending_reconfiguration s \<lparr> sx_pairing := None, sx_nonce := None, sx_config_sent := False \<rparr>"
  have aborted: "sx_bitrate (abort_pending_reconfiguration s) = sx_bitrate s" "sx_lifecycle (abort_pending_reconfiguration s) = sx_lifecycle s"
    "sx_trusted (abort_pending_reconfiguration s) = sx_trusted s" "sx_sent (abort_pending_reconfiguration s) = sx_sent s"
    "sx_video (abort_pending_reconfiguration s) = sx_video s" "sx_closed (abort_pending_reconfiguration s) = sx_closed s"
    "sx_error (abort_pending_reconfiguration s) = sx_error s" "sx_apply (abort_pending_reconfiguration s) = EncoderCommitted"
    by (cases "sx_apply s"; simp add: abort_pending_reconfiguration_def restore_generation_def rollback_transaction_def)+
  obtain c b where "set_preferred_height (sx_requested_height ?s) (sx_bitrate ?s) = Ok (c, b)"
    using set_preferred_Ok [of "sx_bitrate s"] rate_reachable_ok [OF assms] aborted(1) by fastforce
  then show ?thesis
    using aborted
    by (simp add: reset_sender_resources_def clear_receiver_capabilities_def on_bitrate_def tx_ignore_def
        clear_pending_packets_def pending_datagram_count_def)
qed

lemma rejection_ends_connection:
  assumes "active_session s = Some g" "rate_reachable (sx_bitrate s)"
  shows "\<exists>s'. reject_authentication env code s = (s', Ok ()) \<and> active_session s' = None \<and> \<not> sender_streaming s' \<and>
    \<not> tx_reconnect_enabled (sx_lifecycle s') \<and> sx_reconnect_after s' = None \<and> sx_closed s' = sx_closed s @ [g] \<and>
    sx_pairing s' = None \<and> sx_nonce s' = None \<and> sx_trusted s' = sx_trusted s \<and> sx_sent s' = sx_sent s \<and>
    sx_video s' = sx_video s \<and> pending_datagram_count (sx_pipeline s') = 0 \<and> sx_error s' = Some code"
proof -
  let ?l = "fst (sender_reduce (sx_lifecycle s) (AuthenticationRejected g))"
  let ?s = "set_error code s \<lparr> sx_lifecycle := ?l \<rparr>"
  have "rate_reachable (sx_bitrate ?s)" using assms(2) by (simp add: set_error_def)
  from reset_returns [OF this] obtain s1 where s1: "reset_sender_resources ?s = (s1, Ok ())" "sx_pairing s1 = None"
    "sx_nonce s1 = None" "sx_lifecycle s1 = ?l" "sx_trusted s1 = sx_trusted s" "sx_sent s1 = sx_sent s" "sx_video s1 = sx_video s"
    "sx_closed s1 = sx_closed s" "sx_error s1 = Some code" "pending_datagram_count (sx_pipeline s1) = 0"
    by (auto simp: set_error_def)
  have act: "tx_active_generation (sx_lifecycle s) = Some g" using assms(1) by (simp add: active_session_def)
  then have r: "rejection_event s = AuthenticationRejected g" by (simp add: rejection_event_def active_session_def)
  have "reject_authentication env code s = (s1 \<lparr> sx_closed := sx_closed s1 @ [g], sx_reconnect_after := None \<rparr>, Ok ())"
    using s1(1) act by (simp add: reject_authentication_def r apply_sender_event.simps Let_def tx_ignore_def set_error_def)
  then show ?thesis
    using s1 act by (simp add: active_session_def sender_streaming_def sx_runtime_def runtime_default_def)
qed

text \<open>C9: A bad control message ends the conversation. A message of the current connection that does not decode,
  that names another connection, repeats or reorders a message number, or carries a payload the session's
  phase does not allow, closes the connection, forgets the handshake and the queued video, disables
  reconnecting and says why; it changes no trust and sends nothing.\<close>

theorem bad_message_disconnects:
  assumes "active_session s = Some g" "rate_reachable (sx_bitrate s)" "bad_message env g msg s"
  shows "\<exists>s'. handle_polled env (TransportControl g msg) s = (s', Ok ()) \<and> active_session s' = None \<and>
    \<not> sender_streaming s' \<and> \<not> tx_reconnect_enabled (sx_lifecycle s') \<and> sx_reconnect_after s' = None \<and>
    sx_closed s' = sx_closed s @ [g] \<and> sx_pairing s' = None \<and> sx_nonce s' = None \<and> sx_trusted s' = sx_trusted s \<and>
    sx_sent s' = sx_sent s \<and> sx_video s' = sx_video s \<and> pending_datagram_count (sx_pipeline s') = 0 \<and>
    sx_error s' \<in> Some ` {''INVALID_CONTROL_ENVELOPE'', ''STALE_CONTROL_ENVELOPE'', ''CONTROL_PAYLOAD_NOT_ALLOWED''}"
proof -
  have "apply_sender_event env (TxControlReceived g) s = (s, Ok [TxAcceptControl])"
    using assms(1) by (simp add: apply_sender_event.simps active_session_def)
  then have h: "handle_polled env (TransportControl g msg) s = tx_handle_control env g msg s" by simp
  have "\<exists>code n. code \<in> {''INVALID_CONTROL_ENVELOPE'', ''STALE_CONTROL_ENVELOPE'', ''CONTROL_PAYLOAD_NOT_ALLOWED''} \<and>
      tx_handle_control env g msg s = reject_authentication env code (s \<lparr> sx_last_message_id := n \<rparr>)"
  proof (cases "decode_control_envelope (te_prost env) msg")
    case (Ok envelope)
    show ?thesis
    proof (cases "ce_connection_generation envelope \<noteq> g \<or> ce_message_id envelope \<le> sx_last_message_id s")
      case True
      then have "tx_handle_control env g msg s = reject_authentication env ''STALE_CONTROL_ENVELOPE'' (s \<lparr> sx_last_message_id := sx_last_message_id s \<rparr>)"
        using assms(1) Ok by (simp add: tx_handle_control_def)
      then show ?thesis by blast
    next
      case False
      then have "tx_handle_control env g msg s =
          reject_authentication env ''CONTROL_PAYLOAD_NOT_ALLOWED'' (s \<lparr> sx_last_message_id := ce_message_id envelope \<rparr>)"
        using assms(1,3) Ok by (simp add: tx_handle_control_def bad_message_def split: option.splits)
      then show ?thesis by blast
    qed
  next
    case (Err e)
    then have "tx_handle_control env g msg s = reject_authentication env ''INVALID_CONTROL_ENVELOPE'' (s \<lparr> sx_last_message_id := sx_last_message_id s \<rparr>)"
      using assms(1) by (simp add: tx_handle_control_def)
    then show ?thesis by blast
  qed (use assms(3) in \<open>simp add: bad_message_def\<close>)
  then obtain code n where c: "code \<in> {''INVALID_CONTROL_ENVELOPE'', ''STALE_CONTROL_ENVELOPE'', ''CONTROL_PAYLOAD_NOT_ALLOWED''}"
    "tx_handle_control env g msg s = reject_authentication env code (s \<lparr> sx_last_message_id := n \<rparr>)" by blast
  have "active_session (s \<lparr> sx_last_message_id := n \<rparr>) = Some g" "rate_reachable (sx_bitrate (s \<lparr> sx_last_message_id := n \<rparr>))"
    using assms(1,2) by (simp_all add: active_session_def)
  from rejection_ends_connection [OF this, of env code] show ?thesis
    unfolding h c(2) using c(1) by (elim exE conjE) (rule exI, intro conjI, assumption, simp_all)
qed

theorem bad_message_disconnects_witness:
  "\<exists>s'. handle_polled phone_env (TransportControl 7 [1]) (changing_session \<lparr> sx_last_message_id := 5 \<rparr>) = (s', Ok ()) \<and>
     active_session s' = None \<and> sx_closed s' = [7]"
proof -
  let ?s = "changing_session \<lparr> sx_last_message_id := 5 \<rparr>"
  have "active_session ?s = Some 7" "rate_reachable (sx_bitrate ?s)" "sx_closed ?s = []"
    using controller_reachable
    by (simp_all add: changing_session_def phone_session_def sender_session_new_def active_session_def on_line_def)
  moreover have "bad_message phone_env 7 [1] ?s"
    by (simp add: bad_message_def phone_env_def decode_control_envelope_def pair_prost_def number_of_def ok_or_def)
  ultimately show ?thesis using bad_message_disconnects [of ?s 7 phone_env "[1]"] by auto
qed

end
