(* ===== verification/Spec2Isabelle.thy ===== *)
theory Spec2Isabelle
  imports Prefix_Codes Control_Framing Reassembly_Order Reassembly_Retire Rate_Control Network_Health Jitter
    Receiver_Reducer Sender_Reducer Transmission Receiver_Media_Props
    Codec_Configuration Sender_Properties
begin

text \<open>
  A verification development for the Picoo camera: a phone (the sender) streams its camera over QUIC to a
  desktop (the receiver), after the two have been paired.

  \<^bold>\<open>The program and its parts.\<close> The Rust workspace under \<open>src/crates\<close> holds the core. A sender
  packetizes access units into video datagrams with erasure parity (\<open>picoo-sender\<close>, \<open>picoo-protocol\<close>); the
  receiver reassembles them (\<open>picoo-packet\<close>), holds complete access units in a playout buffer
  (\<open>picoo-jitter\<close>), submits them to a decoder thread and publishes pictures (\<open>picoo-receiver\<close>). A
  reliable control stream carries pairing, configuration, statistics and clock exchange. Both ends drive
  their connections by pure reducers (\<open>picoo-session\<close>, \<open>reducer.rs\<close>), whose effects the sessions run.

  \<^bold>\<open>Theories and the code they model.\<close>
  \<^item> \<open>Prelude\<close>: results with panics as values, saturating and checked machine arithmetic, byte strings,
    runs of reducers, shared lemmas. \<open>F64\<close>: IEEE doubles as rationals with rounding to nearest even.
    \<open>Prefix_Codes\<close>: length-prefixed fields, used by framing and transcripts.
  \<^item> \<open>Video_Packet\<close> (\<open>video_packet.rs\<close>), \<open>Video_Fec\<close> (\<open>video_fec.rs\<close>), \<open>Control_Framing\<close>
    (\<open>control_framing.rs\<close>), \<open>Control_Messages\<close> (the protocol buffer messages, \<open>control_gate.rs\<close>).
  \<^item> \<open>Sender_Schedule\<close>, \<open>Sender_Pipeline\<close> (packetizing and the datagram schedule), \<open>Sender_Reducer\<close>.
  \<^item> \<open>Reassembly\<close> (\<open>picoo-packet/src/lib.rs\<close>, \<open>reassembly_fec.rs\<close>) with its invariant (\<open>Reassembly_Inv\<close>),
    the delivery order (\<open>Reassembly_Order\<close>) and the retirement of keys (\<open>Reassembly_Retire\<close>);
    \<open>Transmission\<close> composes it with the packetizer.
  \<^item> \<open>Jitter\<close> (\<open>picoo-jitter\<close>), \<open>Media_Scheduler\<close>, \<open>Decoder_Queue\<close>, \<open>Decoder_Recovery\<close>,
    \<open>Receiver_Timing\<close>, and \<open>Receiver_Media\<close> (the media half of \<open>ReceiverSession\<close>) with \<open>Receiver_Media_Props\<close>.
  \<^item> \<open>Access_Unit\<close>, \<open>Avc_Vui\<close>, \<open>Codec_Configuration\<close> (\<open>picoo-bitstream\<close>), \<open>Media_Format\<close> and
    \<open>Native_Configuration\<close> (\<open>picoo-protocol\<close>): which formats and access units are admitted.
  \<^item> \<open>Session_State\<close>, \<open>Network_Health\<close>, \<open>Clock_Sync\<close> (\<open>picoo-session\<close>), \<open>Rate_Control\<close>
    (\<open>picoo-rate-control\<close>), \<open>Receiver_Reducer\<close>.
  \<^item> \<open>Trust_Store\<close>, \<open>Device_Identity\<close>, \<open>Pairing_Transcript\<close> (\<open>picoo-pairing\<close>).
  \<^item> \<open>Receiver_Session\<close>, \<open>Receiver_Pairing\<close>, \<open>Receiver_Control\<close>, \<open>Receiver_Report\<close>, \<open>Receiver_Run\<close>: the
    whole receiver session (\<open>picoo-receiver/src/session\<close>), every message and command as one datatype of
    inputs and runs over them; \<open>Receiver_Owner\<close>, \<open>Receiver_Consent\<close> and \<open>Pairing_Completes\<close> prove what a
    run may do to the authenticated sender and the trust store.

  \<^item> \<open>Source_Format\<close>, \<open>Encoder_Transaction\<close>, \<open>Sender_Session\<close>, \<open>Sender_Stream\<close>, \<open>Sender_Control\<close>, \<open>Sender_Run\<close>: the
    whole sender session (\<open>picoo-sender/src/session\<close>) in the same way. \<open>Sender_Frame\<close> and \<open>Sender_Consent\<close>
    carry one invariant through every operation, \<open>Sender_Properties\<close> draws the guarantees from it.
    \<open>Sender_Handshake\<close> and \<open>Both_Ends\<close> let the two sessions talk to each other.

  \<^bold>\<open>Correspondence.\<close> A Rust struct is a record with prefixed fields, an enum a datatype, a method a function
  that returns the new state, \<open>Result\<close> and panics the datatype \<open>result\<close> (\<open>Ok\<close>, \<open>Err\<close>, \<open>Panic\<close>). Counters that
  saturate, wrap or are checked in the code are written so; counters that cannot overflow in any real run
  are naturals, with a remark. Times are naturals: nanoseconds for instants, microseconds for media clocks;
  one operation reads the clock once (\<open>te_later\<close> is a second reading where the code needs it).
  What an operation reads from outside (the time, the active transport session, whether a send succeeds,
  random bytes, the TLS exporter) is an argument, one record per call, so that a theorem quantifies over
  every behaviour of it. Code outside the repository is a parameter: the erasure codec (\<open>rs_codec\<close>),
  SHA-256 and Ed25519 (\<open>digests\<close>, \<open>ed25519\<close>), the protocol buffer and JSON codecs, the parsers of
  parameter sets (\<open>syntax_env\<close>), Unicode case mapping. Hypotheses on them say only what they document, and
  witnesses instantiate them.

  \<^bold>\<open>What is shown.\<close> Transport: encoding round trips, fragments in any order, parity repair, no panic on any
  datagram, bounded memory, no access unit twice while its key is remembered. Playout:
  order, admission, what becomes of reference frames, termination of the drain loop,
  recovery only by a fresh keyframe, nothing published from a stale generation. Control: the reducers never
  leak a session, the session refines its reducer, bitrate and health follow their automata. Pairing: a
  signature binds the transcript; two honest devices that talk to each other complete a pairing at both ends;
  and over every run neither end gives video or trust without the other's signatures for this very connection
  and its own user's consent, given now or, for a key
  still in the trust store when it connects, earlier. Sender: epochs only grow, an encoder change commits with its announced keyframe
  or not at all, a bad control message ends the connection. Interfaces are locales (queues, maps and
  prefix codes), interpreted on the models in the theory that provides them.

  \<^bold>\<open>Bounds and termination.\<close> Loops that the code bounds are structural recursions or functions with a
  measure. The sender's
  effects can apply further events, of smaller rank: that measure ends the mutual recursion. The drain loop
  of the playout buffer is a \<open>partial_function\<close>, where \<open>None\<close> is not returning; that
  it returns is a theorem. No model uses fuel.

  \<^bold>\<open>Not modelled.\<close> The QUIC backend and the decoder thread's plumbing (asynchronous code around libraries),
  platform decoders, GPU code, shared-memory frame rings, recording, discovery, foreign function bindings,
  the desktop and mobile applications, debug assertions, logging and the texts kept only for display: they are operating
  system and library calls, whose results are inputs of the models.
\<close>

end
